(* ===== verification/Prelude.thy ===== *)
theory Prelude
  imports Complex_Main
begin

text \<open>
  Shared vocabulary of the development: the numeric type of instants, the exceptions the
  modelled Python raises, the row-level meaning of the SQL statements the storage layer
  issues (SELECT .. first, UPDATE .. WHERE, DELETE .. WHERE, ORDER BY .. LIMIT .. OFFSET),
  and the facts about them that every table shares.
\<close>

named_theorems row_simps \<open>unfolding facts for reads and writes of table rows\<close>
named_theorems session_simps \<open>unfolding facts for sessions and transactions\<close>

text \<open>
  Instants and durations are Python floats. They are modelled as rationals: comparisons are
  exact, and the rounding of the one addition the code performs (\<open>now + lease_seconds\<close>)
  is not modelled.
\<close>

type_synonym time = rat

text \<open>
  The exceptions of the modelled code. Messages are kept only where a caller can see them
  in a persisted column; an exception's arguments here are the values its message formats.
  An \<open>OSError\<close> carries \<open>errno\<close> and the name of its class; \<open>OtherException\<close> stands for any
  class that no code here catches, by its name.
\<close>

datatype exn =
    RuntimeError string
  | KeyError string
  | ValueError string
  | IllegalTransition string string
  | LeaseLostError string
  | StaleRevisionError string
  | OperationalError string
  | IntegrityError string
  | PlatformError string
  | RebuildRootUnavailable string
  | MarkdownParseError string
  | UnsupportedConfigError string
  | EntryConflictError "nat list list"
  | ConfigWriteError string
  | OSError int string
  | ArtifactIntegrityError string
  | ReportConflictError string
  | SynthesisError string
  | OtherException string

type_synonym 'a outcome = "exn + 'a"

definition is_ok :: "'a outcome \<Rightarrow> bool" where
  "is_ok r \<longleftrightarrow> (case r of Inl _ \<Rightarrow> False | Inr _ \<Rightarrow> True)"

lemma is_ok_simps [simp]: "is_ok (Inr x)" "\<not> is_ok (Inl e)"
  by (simp_all add: is_ok_def)

lemma is_ok_iff: "is_ok r \<longleftrightarrow> (\<exists>x. r = Inr x)"
  by (cases r) simp_all

section \<open>Statements over a table of rows\<close>

text \<open>A table is the list of its rows in rowid order.\<close>

definition select_first :: "('r \<Rightarrow> bool) \<Rightarrow> 'r list \<Rightarrow> 'r option" where
  "select_first P t = List.find P t"

definition update_where :: "('r \<Rightarrow> bool) \<Rightarrow> ('r \<Rightarrow> 'r) \<Rightarrow> 'r list \<Rightarrow> 'r list" where
  "update_where P f t = map (\<lambda>r. if P r then f r else r) t"

definition delete_where :: "('r \<Rightarrow> bool) \<Rightarrow> 'r list \<Rightarrow> 'r list" where
  "delete_where P t = filter (\<lambda>r. \<not> P r) t"

text \<open>\<open>LIMIT limit OFFSET offset\<close>; SQLite reads a negative limit as no limit and a
  negative offset as 0.\<close>

definition page :: "int \<Rightarrow> int \<Rightarrow> 'r list \<Rightarrow> 'r list" where
  "page cnt off t =
     (let rest = drop (nat off) t in if cnt < 0 then rest else take (nat cnt) rest)"

lemma update_where_Nil [simp]: "update_where P f [] = []"
  by (simp add: update_where_def)

lemma update_where_Cons [simp]:
  "update_where P f (r # t) = (if P r then f r else r) # update_where P f t"
  by (simp add: update_where_def)

lemma length_update_where [simp]: "length (update_where P f t) = length t"
  by (simp add: update_where_def)

lemma set_update_where: "set (update_where P f t) = (\<lambda>r. if P r then f r else r) ` set t"
  by (simp add: update_where_def)

lemma in_update_whereE:
  assumes "r \<in> set (update_where P f t)"
  obtains (hit) r0 where "r0 \<in> set t" "P r0" "r = f r0"
    | (miss) "r \<in> set t" "\<not> P r"
  using assms by (auto simp: set_update_where split: if_splits)

lemma map_key_update_where:
  assumes "\<And>r. k (f r) = k r"
  shows "map k (update_where P f t) = map k t"
  by (induction t) (simp_all add: assms)

lemma image_key_update_where:
  assumes "\<And>r. k (f r) = k r"
  shows "k ` set (update_where P f t) = k ` set t"
proof -
  have "map k (update_where P f t) = map k t" using assms by (rule map_key_update_where)
  then show ?thesis by (metis set_map)
qed

lemma update_where_none: "(\<And>r. r \<in> set t \<Longrightarrow> \<not> P r) \<Longrightarrow> update_where P f t = t"
  by (induction t) auto

lemma update_where_cong:
  assumes "\<And>r. r \<in> set t \<Longrightarrow> P r = Q r" "\<And>r. r \<in> set t \<Longrightarrow> Q r \<Longrightarrow> f r = g r"
  shows "update_where P f t = update_where Q g t"
  using assms by (induction t) auto

lemma select_first_Nil [simp]: "select_first P [] = None"
  by (simp add: select_first_def)

lemma select_first_Cons [simp]:
  "select_first P (r # t) = (if P r then Some r else select_first P t)"
  by (simp add: select_first_def)

lemma select_first_append:
  "select_first P (t @ u) = (case select_first P t of None \<Rightarrow> select_first P u | Some r \<Rightarrow> Some r)"
  by (induction t) auto

lemma select_first_SomeD: "select_first P t = Some r \<Longrightarrow> r \<in> set t \<and> P r"
  by (induction t) (auto split: if_splits)

lemma select_first_None_iff: "select_first P t = None \<longleftrightarrow> (\<forall>r \<in> set t. \<not> P r)"
  by (induction t) auto

lemma select_first_update_where:
  assumes "\<And>r. k (f r) = k r"
  shows "select_first (\<lambda>r. k r = x) (update_where P f t) =
         map_option (\<lambda>r. if P r then f r else r) (select_first (\<lambda>r. k r = x) t)"
  by (induction t) (simp_all add: assms)

lemma distinct_key_select_first:
  assumes "distinct (map k t)" "r \<in> set t"
  shows "select_first (\<lambda>r'. k r' = k r) t = Some r"
  using assms by (induction t) (auto simp: image_iff)

lemma distinct_key_unique:
  assumes "distinct (map k t)" "r \<in> set t" "r' \<in> set t" "k r = k r'"
  shows "r = r'"
  using assms by (simp add: distinct_map inj_on_def)

lemma set_delete_where [simp]: "set (delete_where P t) = {r \<in> set t. \<not> P r}"
  by (auto simp: delete_where_def)

lemma distinct_map_filterI: "distinct (map k t) \<Longrightarrow> distinct (map k (filter P t))"
  by (induction t) auto

lemma distinct_delete_where: "distinct (map k t) \<Longrightarrow> distinct (map k (delete_where P t))"
  by (simp add: delete_where_def distinct_map_filterI)

lemma length_page: "0 \<le> cnt \<Longrightarrow> int (length (page cnt off t)) = min cnt (int (length t - nat off))"
  by (simp add: page_def Let_def)

lemma set_page: "set (page cnt off t) \<subseteq> set t"
  by (auto simp: page_def Let_def dest: in_set_takeD in_set_dropD)

section \<open>A table behind a unique index, as its clients use it\<close>

text \<open>
  The storage layer reads one row by its unique key and writes it back with a guarded
  UPDATE. The laws below are what the job and the download repositories rely on; each of
  their tables interprets this interface.
\<close>

locale keyed_store =
  fixes key :: "'r \<Rightarrow> 'k"
    and lookup :: "'k \<Rightarrow> 'd \<Rightarrow> 'r option"
    and patch :: "('r \<Rightarrow> bool) \<Rightarrow> ('r \<Rightarrow> 'r) \<Rightarrow> 'd \<Rightarrow> 'd"
    and unique :: "'d \<Rightarrow> bool"
  assumes lookup_key: "lookup k d = Some r \<Longrightarrow> key r = k"
    and lookup_patch: "(\<And>r. key (f r) = key r) \<Longrightarrow>
      lookup k (patch P f d) = map_option (\<lambda>r. if P r then f r else r) (lookup k d)"
    and unique_patch: "unique d \<Longrightarrow> (\<And>r. key (f r) = key r) \<Longrightarrow> unique (patch P f d)"
begin

lemma lookup_patch_miss:
  assumes "\<And>r. key (f r) = key r" "\<And>r. lookup k d = Some r \<Longrightarrow> \<not> P r"
  shows "lookup k (patch P f d) = lookup k d"
  using assms by (cases "lookup k d") (simp_all add: lookup_patch)

lemma lookup_patch_hit:
  assumes "\<And>r. key (f r) = key r" "lookup k d = Some r" "P r"
  shows "lookup k (patch P f d) = Some (f r)"
  using assms by (simp add: lookup_patch)

lemma lookup_patch_other:
  assumes "\<And>r. key (f r) = key r" "\<And>r. P r \<Longrightarrow> key r = k'" "k \<noteq> k'"
  shows "lookup k (patch P f d) = lookup k d"
proof (rule lookup_patch_miss)
  show "\<not> P r" if "lookup k d = Some r" for r
    using that assms(2,3) lookup_key by fastforce
qed (rule assms(1))

lemma lookup_patch_None [simp]:
  assumes "\<And>r. key (f r) = key r"
  shows "lookup k (patch P f d) = None \<longleftrightarrow> lookup k d = None"
  using assms by (simp add: lookup_patch)

end

end
