(* ===== verification/JobStates.thy ===== *)
theory JobStates
  imports Prelude
begin

text \<open>
  The job state machine: \<open>jobs/states.py\<close> and \<open>jobs/transitions.py\<close>. The enum is a
  datatype, the transition table is built by the same sequence of dictionary updates as
  \<open>_build_allowed\<close>, and \<open>validate_transition\<close> raises through the outcome type.
\<close>

section \<open>States\<close>

datatype job_status =
    QUEUED
  | FETCHING_METADATA
  | FETCHING_SUBTITLES
  | DOWNLOADING_AUDIO
  | TRANSCRIBING
  | WAITING_FOR_MODEL
  | CLEANING_TRANSCRIPT
  | CHUNKING
  | SUMMARIZING_CHUNKS
  | GENERATING_REPORT
  | INDEXING
  | RETRY_WAIT
  | COMPLETED
  | FAILED
  | CANCELLED

text \<open>The value of the string enum, which is what the status column stores.\<close>

fun status_value :: "job_status \<Rightarrow> string" where
  "status_value QUEUED = ''queued''"
| "status_value FETCHING_METADATA = ''fetching_metadata''"
| "status_value FETCHING_SUBTITLES = ''fetching_subtitles''"
| "status_value DOWNLOADING_AUDIO = ''downloading_audio''"
| "status_value TRANSCRIBING = ''transcribing''"
| "status_value WAITING_FOR_MODEL = ''waiting_for_model''"
| "status_value CLEANING_TRANSCRIPT = ''cleaning_transcript''"
| "status_value CHUNKING = ''chunking''"
| "status_value SUMMARIZING_CHUNKS = ''summarizing_chunks''"
| "status_value GENERATING_REPORT = ''generating_report''"
| "status_value INDEXING = ''indexing''"
| "status_value RETRY_WAIT = ''retry_wait''"
| "status_value COMPLETED = ''completed''"
| "status_value FAILED = ''failed''"
| "status_value CANCELLED = ''cancelled''"

text \<open>The members in declaration order, which is the order the enum iterates in.\<close>

definition all_statuses :: "job_status list" where
  "all_statuses =
     [QUEUED, FETCHING_METADATA, FETCHING_SUBTITLES, DOWNLOADING_AUDIO, TRANSCRIBING,
      WAITING_FOR_MODEL, CLEANING_TRANSCRIPT, CHUNKING, SUMMARIZING_CHUNKS,
      GENERATING_REPORT, INDEXING, RETRY_WAIT, COMPLETED, FAILED, CANCELLED]"

lemma set_all_statuses: "set all_statuses = UNIV"
proof -
  have "s \<in> set all_statuses" for s
    by (cases s) (simp_all add: all_statuses_def)
  then show ?thesis by blast
qed

lemma all_status_iff: "(\<forall>s. P s) \<longleftrightarrow> (\<forall>s \<in> set all_statuses. P s)"
  by (simp add: set_all_statuses)

text \<open>\<open>JobStatus(value)\<close>: \<open>None\<close> stands for the ValueError of an unknown value.\<close>

definition parse_status :: "string \<Rightarrow> job_status option" where
  "parse_status v = List.find (\<lambda>s. status_value s = v) all_statuses"

lemma parse_status_value [simp]: "parse_status (status_value s) = Some s"
  by (cases s) (simp_all add: parse_status_def all_statuses_def)

lemma parse_status_Some: "parse_status v = Some s \<Longrightarrow> status_value s = v"
  by (auto simp: parse_status_def find_Some_iff)

lemma status_value_inject [simp]: "status_value s = status_value t \<longleftrightarrow> s = t"
  by (metis option.inject parse_status_value)

definition TERMINAL_JOB_STATUSES :: "job_status set" where
  "TERMINAL_JOB_STATUSES = {COMPLETED, FAILED, CANCELLED}"

definition ACTIVE_JOB_STATUSES :: "job_status set" where
  "ACTIVE_JOB_STATUSES = set all_statuses - TERMINAL_JOB_STATUSES"

definition RUNNING_STATES :: "job_status set" where
  "RUNNING_STATES =
     set all_statuses - TERMINAL_JOB_STATUSES - {QUEUED, RETRY_WAIT, WAITING_FOR_MODEL}"

lemma terminal_simps [simp]:
  "COMPLETED \<in> TERMINAL_JOB_STATUSES" "FAILED \<in> TERMINAL_JOB_STATUSES"
  "CANCELLED \<in> TERMINAL_JOB_STATUSES"
  "QUEUED \<notin> TERMINAL_JOB_STATUSES" "RETRY_WAIT \<notin> TERMINAL_JOB_STATUSES"
  "WAITING_FOR_MODEL \<notin> TERMINAL_JOB_STATUSES" "TRANSCRIBING \<notin> TERMINAL_JOB_STATUSES"
  "FETCHING_METADATA \<notin> TERMINAL_JOB_STATUSES"
  by (simp_all add: TERMINAL_JOB_STATUSES_def)

lemma terminal_iff: "s \<in> TERMINAL_JOB_STATUSES \<longleftrightarrow> s = COMPLETED \<or> s = FAILED \<or> s = CANCELLED"
  by (auto simp: TERMINAL_JOB_STATUSES_def)

lemma running_iff:
  "s \<in> RUNNING_STATES \<longleftrightarrow>
     s \<in> {FETCHING_METADATA, FETCHING_SUBTITLES, DOWNLOADING_AUDIO, TRANSCRIBING,
          CLEANING_TRANSCRIPT, CHUNKING, SUMMARIZING_CHUNKS, GENERATING_REPORT, INDEXING}"
  by (cases s) (simp_all add: RUNNING_STATES_def TERMINAL_JOB_STATUSES_def set_all_statuses)

lemma running_simps [simp]:
  "QUEUED \<notin> RUNNING_STATES" "RETRY_WAIT \<notin> RUNNING_STATES"
  "WAITING_FOR_MODEL \<notin> RUNNING_STATES" "TRANSCRIBING \<in> RUNNING_STATES"
  "FETCHING_METADATA \<in> RUNNING_STATES" "COMPLETED \<notin> RUNNING_STATES"
  "FAILED \<notin> RUNNING_STATES" "CANCELLED \<notin> RUNNING_STATES"
  by (simp_all add: running_iff)

text \<open>The four classes a status falls in.\<close>

lemma status_classes:
  obtains "s \<in> RUNNING_STATES" | "s \<in> TERMINAL_JOB_STATUSES" | "s = QUEUED"
    | "s = RETRY_WAIT" | "s = WAITING_FOR_MODEL"
  by (cases s) (auto simp: running_iff terminal_iff)

lemma running_not_terminal: "s \<in> RUNNING_STATES \<Longrightarrow> s \<notin> TERMINAL_JOB_STATUSES"
  by (auto simp: RUNNING_STATES_def)

section \<open>Transitions\<close>

definition LINEAR_CHAIN :: "(job_status \<times> job_status) list" where
  "LINEAR_CHAIN =
     [(QUEUED, FETCHING_METADATA),
      (FETCHING_METADATA, FETCHING_SUBTITLES),
      (FETCHING_SUBTITLES, DOWNLOADING_AUDIO),
      (FETCHING_SUBTITLES, CLEANING_TRANSCRIPT),
      (DOWNLOADING_AUDIO, TRANSCRIBING),
      (TRANSCRIBING, WAITING_FOR_MODEL),
      (WAITING_FOR_MODEL, TRANSCRIBING),
      (TRANSCRIBING, CLEANING_TRANSCRIPT),
      (CLEANING_TRANSCRIPT, CHUNKING),
      (CHUNKING, SUMMARIZING_CHUNKS),
      (SUMMARIZING_CHUNKS, GENERATING_REPORT),
      (GENERATING_REPORT, INDEXING),
      (INDEXING, COMPLETED)]"

text \<open>\<open>allowed[s].update(T)\<close> on a dictionary of sets.\<close>

definition add_targets :: "'s \<Rightarrow> 's set \<Rightarrow> ('s \<Rightarrow> 's set) \<Rightarrow> ('s \<Rightarrow> 's set)" where
  "add_targets s T allowed = allowed(s := allowed s \<union> T)"

definition build_allowed :: "job_status \<Rightarrow> job_status set" where
  "build_allowed =
     (let a0 = (\<lambda>_. {});
          a1 = fold (\<lambda>(src, dst). add_targets src {dst}) LINEAR_CHAIN a0;
          a2 = fold (\<lambda>s. add_targets s {RETRY_WAIT, FAILED})
                    (filter (\<lambda>s. s \<in> RUNNING_STATES) all_statuses) a1;
          a3 = add_targets QUEUED {FAILED, CANCELLED} a2;
          a4 = add_targets WAITING_FOR_MODEL {TRANSCRIBING, FAILED, CANCELLED} a3
      in a4(RETRY_WAIT := RUNNING_STATES \<union> {FAILED, CANCELLED}))"

definition is_valid_transition :: "job_status \<Rightarrow> job_status \<Rightarrow> bool" where
  "is_valid_transition src dst \<longleftrightarrow> dst \<in> build_allowed src"

definition validate_transition :: "job_status \<Rightarrow> job_status \<Rightarrow> unit outcome" where
  "validate_transition src dst =
     (if is_valid_transition src dst then Inr ()
      else Inl (IllegalTransition (status_value src) (status_value dst)))"

lemma build_allowed_running:
  "s \<in> RUNNING_STATES \<Longrightarrow>
     build_allowed s = {RETRY_WAIT, FAILED} \<union> set (map snd (filter (\<lambda>e. fst e = s) LINEAR_CHAIN))"
  by (cases s) (auto simp: build_allowed_def add_targets_def LINEAR_CHAIN_def all_statuses_def
      running_iff Let_def)

lemma build_allowed_idle:
  "build_allowed QUEUED = {FETCHING_METADATA, FAILED, CANCELLED}"
  "build_allowed WAITING_FOR_MODEL = {TRANSCRIBING, FAILED, CANCELLED}"
  "build_allowed RETRY_WAIT = RUNNING_STATES \<union> {FAILED, CANCELLED}"
  by (auto simp: build_allowed_def add_targets_def LINEAR_CHAIN_def all_statuses_def
      running_iff Let_def)

lemma build_allowed_terminal: "s \<in> TERMINAL_JOB_STATUSES \<Longrightarrow> build_allowed s = {}"
  by (auto simp: build_allowed_def add_targets_def LINEAR_CHAIN_def all_statuses_def
      running_iff terminal_iff Let_def)

lemmas transition_simps =
  is_valid_transition_def build_allowed_running build_allowed_idle build_allowed_terminal

lemma never_back_to_queued: "\<not> is_valid_transition s QUEUED"
  by (cases s rule: status_classes)
    (auto simp: transition_simps LINEAR_CHAIN_def)

lemma completed_only_from_indexing: "is_valid_transition s COMPLETED \<longleftrightarrow> s = INDEXING"
proof (cases s rule: status_classes)
  case 1
  then show ?thesis by (auto simp: transition_simps LINEAR_CHAIN_def running_iff)
qed (auto simp: transition_simps running_iff terminal_iff)

section \<open>State machines with absorbing states\<close>

text \<open>
  Both state machines of the program (jobs, model downloads) promise their callers the same
  two things: a terminal state has no successor, and every other state can be aborted in
  one step. A \<open>run\<close> is a sequence of states each of which the table allows after the one
  before.
\<close>

fun run_from :: "('s \<Rightarrow> 's set) \<Rightarrow> 's \<Rightarrow> 's list \<Rightarrow> bool" where
  "run_from allowed s [] = True"
| "run_from allowed s (t # ts) = (t \<in> allowed s \<and> run_from allowed t ts)"

lemma run_from_append:
  "run_from allowed s (xs @ ys) \<longleftrightarrow>
     run_from allowed s xs \<and> run_from allowed (last (s # xs)) ys"
  by (induction xs arbitrary: s) auto

locale absorbing_machine =
  fixes allowed :: "'s \<Rightarrow> 's set" and terminal :: "'s set"
  assumes terminal_absorbing: "s \<in> terminal \<Longrightarrow> allowed s = {}"
begin

lemma terminal_ends_run:
  assumes "run_from allowed s (xs @ t # ys)" "t \<in> terminal"
  shows "ys = []"
  using assms by (cases ys) (auto simp: run_from_append terminal_absorbing)

lemma terminal_stuck: "s \<in> terminal \<Longrightarrow> run_from allowed s ts \<Longrightarrow> ts = []"
  by (cases ts) (auto simp: terminal_absorbing)

end

locale abortable_machine = absorbing_machine +
  fixes abort :: 's
  assumes abort_terminal: "abort \<in> terminal"
    and abort_allowed: "s \<notin> terminal \<Longrightarrow> abort \<in> allowed s"
begin

lemma abort_run:
  assumes "run_from allowed s xs" "last (s # xs) \<notin> terminal"
  shows "run_from allowed s (xs @ [abort])"
  using assms by (simp add: run_from_append abort_allowed)

lemma live_iff: "allowed s = {} \<longleftrightarrow> s \<in> terminal"
  using terminal_absorbing abort_allowed by fastforce

end

interpretation job_machine: abortable_machine build_allowed TERMINAL_JOB_STATUSES FAILED
proof unfold_locales
  show "build_allowed s = {}" if "s \<in> TERMINAL_JOB_STATUSES" for s
    using that by (rule build_allowed_terminal)
  show "FAILED \<in> TERMINAL_JOB_STATUSES" by simp
  show "FAILED \<in> build_allowed s" if "s \<notin> TERMINAL_JOB_STATUSES" for s
    using that
    by (cases s rule: status_classes) (simp_all add: build_allowed_running build_allowed_idle)
qed

end
