(* ===== verification/Texts.thy ===== *)
theory Texts
  imports Prelude "HOL-Library.Sublist"
begin

text \<open>
  User-visible text as Python and SQLite see it: a sequence of Unicode code points. The
  string methods and SQL functions the program applies to titles, URLs and queries:
  \<open>str.strip\<close>, \<open>str.split\<close>, SQLite's \<open>lower\<close> (ASCII only) and \<open>LIKE .. ESCAPE\<close>,
  the wildcard escaping of \<open>_escape_like\<close>, and the text contract of the full-text index
  in \<open>storage/fts.py\<close>.
\<close>

type_synonym utext = "nat list"

definition codes :: "string \<Rightarrow> utext" where
  "codes s = map of_char s"

lemma codes_inject [simp]: "codes s = codes t \<longleftrightarrow> s = t"
  unfolding codes_def by (rule inj_map_eq_map) (simp add: inj_on_def)

section \<open>Characters\<close>

text \<open>\<open>str.isspace\<close>, which is also \<open>\s\<close> of a \<open>str\<close> pattern.\<close>

definition is_space :: "nat \<Rightarrow> bool" where
  "is_space c \<longleftrightarrow> 9 \<le> c \<and> c \<le> 13 \<or> 28 \<le> c \<and> c \<le> 32 \<or> c = 133 \<or> c = 160 \<or> c = 5760 \<or>
     8192 \<le> c \<and> c \<le> 8202 \<or> c = 8232 \<or> c = 8233 \<or> c = 8239 \<or> c = 8287 \<or> c = 12288"

text \<open>The class \<open>_CJK\<close>: Han, Hiragana and Katakana, Hangul.\<close>

definition is_cjk :: "nat \<Rightarrow> bool" where
  "is_cjk c \<longleftrightarrow> 0x4E00 \<le> c \<and> c \<le> 0x9FFF \<or> 0x3040 \<le> c \<and> c \<le> 0x30FF \<or>
     0xAC00 \<le> c \<and> c \<le> 0xD7AF"

definition sql_lower_char :: "nat \<Rightarrow> nat" where
  "sql_lower_char c = (if 65 \<le> c \<and> c \<le> 90 then c + 32 else c)"

definition sql_lower :: "utext \<Rightarrow> utext" where
  "sql_lower t = map sql_lower_char t"

definition lstrip :: "utext \<Rightarrow> utext" where
  "lstrip t = dropWhile is_space t"

definition strip :: "utext \<Rightarrow> utext" where
  "strip t = rev (lstrip (rev (lstrip t)))"

text \<open>ASCII letters, digits and hexadecimal digits.\<close>

definition is_alpha :: "nat \<Rightarrow> bool" where
  "is_alpha c \<longleftrightarrow> 65 \<le> c \<and> c \<le> 90 \<or> 97 \<le> c \<and> c \<le> 122"

definition is_digit :: "nat \<Rightarrow> bool" where
  "is_digit c \<longleftrightarrow> 48 \<le> c \<and> c \<le> 57"

definition hex_digit :: "nat \<Rightarrow> nat option" where
  "hex_digit c =
     (if is_digit c then Some (c - 48)
      else if 65 \<le> c \<and> c \<le> 70 then Some (c - 55)
      else if 97 \<le> c \<and> c \<le> 102 then Some (c - 87)
      else None)"

lemma cjk_not_space: "is_cjk c \<Longrightarrow> \<not> is_space c"
  by (auto simp: is_cjk_def is_space_def)

lemma space_32 [simp]: "is_space 32"
  by (simp add: is_space_def)

lemma not_cjk_32 [simp]: "\<not> is_cjk 32"
  by (simp add: is_cjk_def)

section \<open>LIKE with an escape character\<close>

text \<open>
  SQLite's \<open>x LIKE p ESCAPE e\<close>: \<open>%\<close> is 37 and \<open>_\<close> is 95; ASCII letters compare without
  case. The escape character makes the next pattern character literal; a pattern that ends
  in a bare escape matches nothing.
\<close>

fun like :: "nat \<Rightarrow> utext \<Rightarrow> utext \<Rightarrow> bool" where
  "like e [] x = (x = [])"
| "like e (p # ps) x =
     (if p = e then
        (case ps of
           [] \<Rightarrow> False
         | q # qs \<Rightarrow>
            (case x of [] \<Rightarrow> False
             | c # cs \<Rightarrow> sql_lower_char q = sql_lower_char c \<and> like e qs cs))
      else if p = 37 then like e ps x \<or> (case x of [] \<Rightarrow> False | c # cs \<Rightarrow> like e (p # ps) cs)
      else
        (case x of [] \<Rightarrow> False
         | c # cs \<Rightarrow> (p = 95 \<or> sql_lower_char p = sql_lower_char c) \<and> like e ps cs))"

text \<open>\<open>_escape_like\<close>: three replacements in this order, the escape character 92 first.\<close>

definition replace_char :: "nat \<Rightarrow> utext \<Rightarrow> utext \<Rightarrow> utext" where
  "replace_char c new t = concat (map (\<lambda>x. if x = c then new else [x]) t)"

definition escape_like :: "utext \<Rightarrow> utext" where
  "escape_like value =
     replace_char 95 [92, 95] (replace_char 37 [92, 37] (replace_char 92 [92, 92] value))"

lemma replace_char_simps [simp]:
  "replace_char c new [] = []"
  "replace_char c new (x # t) = (if x = c then new else [x]) @ replace_char c new t"
  by (simp_all add: replace_char_def)

lemma replace_char_append [simp]:
  "replace_char c new (t @ u) = replace_char c new t @ replace_char c new u"
  by (induction t) simp_all

lemma escape_like_Nil [simp]: "escape_like [] = []"
  by (simp add: escape_like_def)

lemma escape_like_Cons:
  "escape_like (x # t) = (if x \<in> {92, 37, 95} then [92, x] else [x]) @ escape_like t"
  by (simp add: escape_like_def)

text \<open>An escaped text followed by a pattern matches itself, up to ASCII case, and then the rest.\<close>

lemma like_escaped_prefix:
  "like 92 (escape_like q @ ps) x \<longleftrightarrow>
     (\<exists>a b. x = a @ b \<and> sql_lower a = sql_lower q \<and> like 92 ps b)"
proof (induction q arbitrary: x)
  case Nil
  then show ?case by (simp add: sql_lower_def)
next
  case (Cons y q)
  have step: "like 92 (escape_like (y # q) @ ps) x \<longleftrightarrow>
      (\<exists>c cs. x = c # cs \<and> sql_lower_char y = sql_lower_char c \<and> like 92 (escape_like q @ ps) cs)"
    by (cases x) (auto simp: escape_like_Cons)
  show ?case
    unfolding step Cons.IH
    by (auto simp: sql_lower_def Cons_eq_append_conv) (metis append_Cons list.simps(9), blast)
qed

lemma like_any: "like 92 [37] x"
  by (induction x) simp_all

lemma like_percent:
  "like 92 (37 # ps) x \<longleftrightarrow> (\<exists>a b. x = a @ b \<and> like 92 ps b)"
proof (induction x)
  case Nil
  then show ?case by simp
next
  case (Cons c cs)
  have "like 92 (37 # ps) (c # cs) \<longleftrightarrow> like 92 ps (c # cs) \<or> like 92 (37 # ps) cs" by simp
  also have "\<dots> \<longleftrightarrow> (\<exists>a b. c # cs = a @ b \<and> like 92 ps b)"
    unfolding Cons.IH by (auto simp: Cons_eq_append_conv)
  finally show ?case .
qed

text \<open>The containment filter of the list queries: \<open>x LIKE '%' || escaped || '%'\<close>.\<close>

definition contains_filter :: "utext \<Rightarrow> utext \<Rightarrow> bool" where
  "contains_filter q x = like 92 (37 # escape_like q @ [37]) x"

lemma contains_filter_iff: "contains_filter q x \<longleftrightarrow> sublist (sql_lower q) (sql_lower x)"
proof -
  have "contains_filter q x \<longleftrightarrow> (\<exists>a b c. x = a @ b @ c \<and> sql_lower b = sql_lower q)"
    unfolding contains_filter_def like_percent like_escaped_prefix by (auto simp: like_any)
  also have "\<dots> \<longleftrightarrow> sublist (sql_lower q) (sql_lower x)"
  proof
    assume "\<exists>a b c. x = a @ b @ c \<and> sql_lower b = sql_lower q"
    then show "sublist (sql_lower q) (sql_lower x)"
      by (auto simp: sql_lower_def sublist_def) metis
  next
    assume "sublist (sql_lower q) (sql_lower x)"
    then obtain a c where "sql_lower x = a @ sql_lower q @ c" by (auto simp: sublist_def)
    then obtain a' b' c' where "x = a' @ b' @ c'" "sql_lower b' = sql_lower q"
      unfolding sql_lower_def by (auto simp: map_eq_append_conv append_eq_map_conv)
    then show "\<exists>a b c. x = a @ b @ c \<and> sql_lower b = sql_lower q" by blast
  qed
  finally show ?thesis .
qed

end
