(* ===== verification/Database.thy ===== *)
theory Database
  imports JobStates Texts
begin

text \<open>
  The rows of the SQLite store: \<open>storage/models.py\<close> (the ORM classes) and the tables
  \<open>report_documents\<close>, \<open>report_fts\<close>, \<open>index_issues\<close> and \<open>index_status\<close> that
  \<open>storage/report_repository.py\<close> reads and writes with raw SQL. A nullable column is an
  option; \<open>jobs.status\<close>, \<open>jobs.stage\<close> and \<open>model_download.status\<close> hold the enum the
  repository converts them to and from. Field names are the column names behind a prefix
  for the table (\<open>j_\<close> jobs, \<open>a_\<close> job_artifacts, ...), because record fields share one
  name space. Titles, URLs and the other user-visible columns
  are code-point sequences (\<open>utext\<close>); identifiers and codes are strings.
\<close>

section \<open>Jobs and their artifacts\<close>

record job =
  j_id :: nat
  j_job_id :: string
  j_request_fingerprint :: string
  j_url :: utext
  j_mode :: string
  j_asr :: string
  j_language :: "string option"
  j_asr_provider_id :: "string option"
  j_asr_model_id :: "string option"
  j_asr_model_version :: "string option"
  j_asr_recommendation_model_id :: "string option"
  j_config_fingerprint :: string
  j_title :: "utext option"
  j_platform :: "utext option"
  j_subtitle_probe :: "string option"
  j_status :: job_status
  j_stage :: "job_status option"
  j_progress :: int
  j_attempt :: int
  j_max_attempts :: int
  j_lease_owner :: "string option"
  j_lease_expires_at :: "time option"
  j_cancel_requested_at :: "time option"
  j_next_retry_at :: "time option"
  j_error_code :: "string option"
  j_error_detail :: "string option"
  j_retryable :: bool
  j_created_at :: time
  j_updated_at :: time

record job_artifact =
  a_id :: nat
  a_job_id :: string
  a_stage :: string
  a_artifact_type :: string
  a_input_fingerprint :: string
  a_schema_version :: int
  a_storage_kind :: string
  a_payload_json :: "string option"
  a_relative_path :: "string option"
  a_content_hash :: "string option"
  a_byte_size :: "int option"
  a_created_at :: time
  a_updated_at :: time

section \<open>Application settings\<close>

record app_settings =
  st_setup_completed :: bool
  st_report_directory :: "string option"
  st_llm_provider :: "string option"
  st_llm_base_url :: "string option"
  st_llm_model :: "string option"
  st_llm_credential_ref :: "string option"
  st_llm_credential_origin :: "string option"
  st_asr_provider :: "string option"
  st_whisper_cpp_executable :: "string option"
  st_updated_at :: time

section \<open>Models and their downloads\<close>

datatype download_status =
    DL_PENDING
  | DL_DOWNLOADING
  | DL_VERIFYING
  | DL_INSTALLING
  | DL_COMPLETED
  | DL_FAILED
  | DL_CANCELLED

record model_install =
  mi_model_id :: string
  mi_version :: string
  mi_installed_path :: string
  mi_installed_at :: time

record active_model =
  am_model_id :: string
  am_active_version :: string
  am_updated_at :: time

record model_download =
  md_operation_id :: string
  md_model_id :: string
  md_version :: string
  md_source_url :: string
  md_source_kind :: string
  md_expected_sha256 :: string
  md_expected_size_bytes :: int
  md_downloaded_bytes :: int
  md_temp_path :: "string option"
  md_etag :: "string option"
  md_last_modified :: "string option"
  md_status :: download_status
  md_error_code :: "string option"
  md_error_detail :: "string option"
  md_revision :: int
  md_created_at :: time
  md_updated_at :: time

section \<open>The report index\<close>

record report_document =
  rd_id :: nat
  rd_job_id :: string
  rd_analysis_id :: string
  rd_title :: utext
  rd_platform :: utext
  rd_author :: utext
  rd_video_id :: string
  rd_source_url :: utext
  rd_published_at :: "time option"
  rd_analyzed_at :: time
  rd_language :: string
  rd_summary_mode :: string
  rd_asr_provider :: string
  rd_asr_model :: string
  rd_asr_model_version :: string
  rd_tags :: "utext list"
  rd_summary_preview :: utext
  rd_relative_path :: string
  rd_content_hash :: string
  rd_byte_size :: "int option"
  rd_doc_source :: string
  rd_doc_status :: string
  rd_indexed_at :: time
  rd_updated_at :: time

record fts_row =
  f_rowid :: nat
  f_title :: utext
  f_tags :: utext
  f_author :: utext
  f_summary :: utext
  f_transcript :: utext
  f_url :: utext

record index_issue =
  ix_id :: nat
  ix_issue_code :: string
  ix_relative_path :: string
  ix_detail :: "string option"
  ix_first_seen_at :: time
  ix_last_seen_at :: time
  ix_resolved_at :: "time option"

record index_status_row =
  is_state :: string
  is_started_at :: "time option"
  is_finished_at :: "time option"
  is_scanned :: int
  is_indexed :: int
  is_unchanged :: int
  is_quarantined :: int
  is_duplicates :: int
  is_removed :: int
  is_purged :: int
  is_last_error_code :: "string option"

section \<open>The database\<close>

text \<open>
  Tables are lists in rowid order; \<open>*_seq\<close> is SQLite's AUTOINCREMENT counter for the
  tables that have one.
\<close>

record database =
  jobs :: "job list"
  job_seq :: nat
  artifacts :: "job_artifact list"
  artifact_seq :: nat
  settings_row :: "app_settings option"
  installs :: "model_install list"
  actives :: "active_model list"
  downloads :: "model_download list"
  documents :: "report_document list"
  document_seq :: nat
  fts :: "fts_row list"
  issues :: "index_issue list"
  issue_seq :: nat
  index_row :: index_status_row

definition initial_index_row :: index_status_row where
  "initial_index_row =
     \<lparr>is_state = ''idle'', is_started_at = None, is_finished_at = None, is_scanned = 0,
      is_indexed = 0, is_unchanged = 0, is_quarantined = 0, is_duplicates = 0,
      is_removed = 0, is_purged = 0, is_last_error_code = None\<rparr>"

definition empty_database :: database where
  "empty_database =
     \<lparr>jobs = [], job_seq = 0, artifacts = [], artifact_seq = 0, settings_row = None,
      installs = [], actives = [], downloads = [], documents = [], document_seq = 0,
      fts = [], issues = [], issue_seq = 0, index_row = initial_index_row\<rparr>"

section \<open>Reading and writing the keyed tables\<close>

definition find_job :: "string \<Rightarrow> database \<Rightarrow> job option" where
  "find_job k d = select_first (\<lambda>r. j_job_id r = k) (jobs d)"

definition patch_jobs :: "(job \<Rightarrow> bool) \<Rightarrow> (job \<Rightarrow> job) \<Rightarrow> database \<Rightarrow> database" where
  "patch_jobs P f d = d\<lparr>jobs := update_where P f (jobs d)\<rparr>"

definition jobs_unique :: "database \<Rightarrow> bool" where
  "jobs_unique d \<longleftrightarrow> distinct (map j_job_id (jobs d))"

definition find_download :: "string \<Rightarrow> database \<Rightarrow> model_download option" where
  "find_download k d = select_first (\<lambda>r. md_operation_id r = k) (downloads d)"

definition patch_downloads ::
  "(model_download \<Rightarrow> bool) \<Rightarrow> (model_download \<Rightarrow> model_download) \<Rightarrow> database \<Rightarrow> database" where
  "patch_downloads P f d = d\<lparr>downloads := update_where P f (downloads d)\<rparr>"

definition downloads_unique :: "database \<Rightarrow> bool" where
  "downloads_unique d \<longleftrightarrow> distinct (map md_operation_id (downloads d))"

interpretation job_store: keyed_store j_job_id find_job patch_jobs jobs_unique
proof unfold_locales
  show "j_job_id r = k" if "find_job k d = Some r" for k d r
    using that by (auto simp: find_job_def dest: select_first_SomeD)
  show "find_job k (patch_jobs P f d) = map_option (\<lambda>r. if P r then f r else r) (find_job k d)"
    if "\<And>r. j_job_id (f r) = j_job_id r" for k P f d
    using that by (simp add: find_job_def patch_jobs_def select_first_update_where)
  show "jobs_unique (patch_jobs P f d)"
    if "jobs_unique d" "\<And>r. j_job_id (f r) = j_job_id r" for P f d
    using that by (simp add: jobs_unique_def patch_jobs_def map_key_update_where)
qed

interpretation download_store:
  keyed_store md_operation_id find_download patch_downloads downloads_unique
proof unfold_locales
  show "md_operation_id r = k" if "find_download k d = Some r" for k d r
    using that by (auto simp: find_download_def dest: select_first_SomeD)
  show "find_download k (patch_downloads P f d) =
      map_option (\<lambda>r. if P r then f r else r) (find_download k d)"
    if "\<And>r. md_operation_id (f r) = md_operation_id r" for k P f d
    using that by (simp add: find_download_def patch_downloads_def select_first_update_where)
  show "downloads_unique (patch_downloads P f d)"
    if "downloads_unique d" "\<And>r. md_operation_id (f r) = md_operation_id r" for P f d
    using that by (simp add: downloads_unique_def patch_downloads_def map_key_update_where)
qed

lemma find_job_in: "find_job k d = Some r \<Longrightarrow> r \<in> set (jobs d) \<and> j_job_id r = k"
  by (auto simp: find_job_def dest: select_first_SomeD)

lemma find_job_unique: "jobs_unique d \<Longrightarrow> r \<in> set (jobs d) \<Longrightarrow> find_job (j_job_id r) d = Some r"
  by (auto simp: find_job_def jobs_unique_def intro: distinct_key_select_first)

lemma find_download_in:
  "find_download k d = Some r \<Longrightarrow> r \<in> set (downloads d) \<and> md_operation_id r = k"
  by (auto simp: find_download_def dest: select_first_SomeD)

lemma patch_frames [simp]:
  "downloads (patch_jobs P f d) = downloads d"
  "installs (patch_jobs P f d) = installs d" "actives (patch_jobs P f d) = actives d"
  "artifacts (patch_jobs P f d) = artifacts d" "settings_row (patch_jobs P f d) = settings_row d"
  "documents (patch_jobs P f d) = documents d" "fts (patch_jobs P f d) = fts d"
  "jobs (patch_downloads Q g d) = jobs d" "artifacts (patch_downloads Q g d) = artifacts d"
  "installs (patch_downloads Q g d) = installs d" "actives (patch_downloads Q g d) = actives d"
  by (simp_all add: patch_jobs_def patch_downloads_def)

lemma jobs_patch_jobs [simp]: "jobs (patch_jobs P f d) = update_where P f (jobs d)"
  by (simp add: patch_jobs_def)

lemma downloads_patch_downloads [simp]:
  "downloads (patch_downloads P f d) = update_where P f (downloads d)"
  by (simp add: patch_downloads_def)

end
