(* ===== verification/Sessions.thy ===== *)
theory Sessions
  imports Database
begin

text \<open>
  Sessions and transactions: \<open>storage/db.py\<close>, and the ORM session behind it as far as the
  code depends on it. A session sees the committed database, the snapshot of its own open
  transaction with its unpublished writes, and the identity map: the \<open>Job\<close> and
  \<open>ModelDownload\<close> instances it has loaded before, whose attributes a later SELECT of the
  same row does not overwrite (\<open>expire_on_commit=False\<close>).
\<close>

datatype tx_state = NoTx | Deferred | Immediate

record session =
  committed :: database
  working :: database
  tx :: tx_state
  has_dml :: bool
  pending :: bool
  locked :: bool
  job_cache :: "string \<Rightarrow> job option"
  download_cache :: "string \<Rightarrow> model_download option"

text \<open>
  \<open>has_dml\<close> is \<open>conn.info["evoblue_tx_has_dml"]\<close>, which the authorizer sets on every
  write and the begin hook resets; \<open>pending\<close> is \<open>session.new or session.dirty or
  session.deleted\<close>; \<open>locked\<close> says that another connection holds the write lock for
  longer than the busy timeout, so that \<open>BEGIN IMMEDIATE\<close> raises.
\<close>

definition open_session :: "database \<Rightarrow> session" where
  "open_session d =
     \<lparr>committed = d, working = d, tx = NoTx, has_dml = False, pending = False,
      locked = False, job_cache = (\<lambda>_. None), download_cache = (\<lambda>_. None)\<rparr>"

section \<open>Transaction control\<close>

text \<open>The begin hook: emit BEGIN or BEGIN IMMEDIATE and reset the write flag.\<close>

definition emit_begin :: "tx_state \<Rightarrow> session \<Rightarrow> session" where
  "emit_begin mode s = s\<lparr>tx := mode, working := committed s, has_dml := False\<rparr>"

text \<open>A read outside a transaction begins a deferred one.\<close>

definition autobegin :: "session \<Rightarrow> session" where
  "autobegin s = (if tx s = NoTx then emit_begin Deferred s else s)"

definition commit_tx :: "session \<Rightarrow> session" where
  "commit_tx s =
     (let d = (if has_dml s then working s else committed s)
      in s\<lparr>committed := d, working := d, tx := NoTx, has_dml := False, pending := False\<rparr>)"

text \<open>A rollback also expires every loaded instance.\<close>

definition rollback_tx :: "session \<Rightarrow> session" where
  "rollback_tx s =
     s\<lparr>working := committed s, tx := NoTx, has_dml := False, pending := False,
       job_cache := (\<lambda>_. None), download_cache := (\<lambda>_. None)\<rparr>"

definition write_db :: "database \<Rightarrow> session \<Rightarrow> session" where
  "write_db d s = s\<lparr>working := d, has_dml := True\<rparr>"

text \<open>\<open>BEGIN IMMEDIATE\<close> takes the write lock or dies on the busy timeout.\<close>

definition begin_immediate :: "session \<Rightarrow> unit outcome \<times> session" where
  "begin_immediate s =
     (if locked s then (Inl (OperationalError ''database is locked''), s)
      else (Inr (), emit_begin Immediate s))"

definition ensure_immediate_transaction :: "session \<Rightarrow> unit outcome \<times> session" where
  "ensure_immediate_transaction s =
     (if tx s \<noteq> NoTx then
        (if tx s = Immediate then (Inr (), s)
         else if pending s \<or> has_dml s then (Inl (RuntimeError ''_begin_immediate refused''), s)
         else begin_immediate (commit_tx s))
      else begin_immediate s)"

text \<open>
  The context manager \<open>immediate_write_transaction\<close> around a body. \<open>commit_error\<close> is the
  verdict of the shielded commit (\<open>None\<close>: durable), \<open>cancelled\<close> says whether at least one
  cancellation landed while waiting for it. The third component counts the calls of
  \<open>on_commit\<close>. Cancellation inside the body is an exception of the body like any other.
\<close>

definition CancelledError :: exn where
  "CancelledError = RuntimeError ''CancelledError''"

definition restore_deferred :: "session \<Rightarrow> session" where
  "restore_deferred s = autobegin s"

definition immediate_write_transaction ::
  "exn option \<Rightarrow> bool \<Rightarrow> (session \<Rightarrow> 'a outcome \<times> session) \<Rightarrow> session \<Rightarrow>
     'a outcome \<times> session \<times> nat" where
  "immediate_write_transaction commit_error cancelled body s =
     (case ensure_immediate_transaction s of
        (Inl e, s1) \<Rightarrow> (Inl e, s1, 0)
      | (Inr _, s1) \<Rightarrow>
         (case body s1 of
            (Inl e, s2) \<Rightarrow> (Inl e, restore_deferred (rollback_tx s2), 0)
          | (Inr x, s2) \<Rightarrow>
             (case commit_error of
                Some e \<Rightarrow> (Inl e, restore_deferred (rollback_tx s2), 0)
              | None \<Rightarrow>
                  if cancelled then (Inl CancelledError, restore_deferred (commit_tx s2), 1)
                  else (Inr x, restore_deferred (commit_tx s2), 1))))"

section \<open>One repository call as a write transaction\<close>

text \<open>
  Every writing function of the repository starts with \<open>_begin_immediate\<close> and ends in one
  of a few ways. \<open>write_tx\<close> runs its body on the transaction's database and identity maps
  and plays the exit out on the session:
  \<^item> \<open>Raise e\<close>: an exception propagates, the transaction is left to its owner;
  \<^item> \<open>RollbackRaise e\<close>: \<open>await session.rollback(); raise e\<close>;
  \<^item> \<open>Leave x\<close>: \<open>return x\<close> without ending the transaction;
  \<^item> \<open>KeepWrites d x\<close>: the same with the writes \<open>d\<close> in place, unpublished;
  \<^item> \<open>RollbackDone x\<close> and \<open>RollbackRead f\<close>: roll back, then return \<open>x\<close>, or what a
    fresh read of the database gives;
  \<^item> \<open>CommitDone d js ds x\<close> and \<open>CommitRead d js ds f\<close>: publish the written database \<open>d\<close>,
    then return \<open>x\<close>, or what a fresh read of it gives. \<open>js\<close> and \<open>ds\<close> are the jobs and
    downloads the statement wrote: an ORM-enabled UPDATE brings their loaded instances up
    to date, so the identity maps forget the old attributes.
\<close>

datatype 'a exit =
    Raise exn
  | RollbackRaise exn
  | Leave 'a
  | KeepWrites database 'a
  | RollbackDone 'a
  | RollbackRead "database \<Rightarrow> 'a outcome"
  | CommitDone database "string set" "string set" 'a
  | CommitRead database "string set" "string set" "database \<Rightarrow> 'a outcome"

definition sync_caches :: "string set \<Rightarrow> string set \<Rightarrow> session \<Rightarrow> session" where
  "sync_caches js ds s =
     s\<lparr>job_cache := (\<lambda>k. if k \<in> js then None else job_cache s k),
       download_cache := (\<lambda>k. if k \<in> ds then None else download_cache s k)\<rparr>"

definition publish :: "database \<Rightarrow> string set \<Rightarrow> string set \<Rightarrow> session \<Rightarrow> session" where
  "publish d js ds s = commit_tx (sync_caches js ds (write_db d s))"

fun leave_tx :: "'a exit \<Rightarrow> session \<Rightarrow> 'a outcome \<times> session" where
  "leave_tx (Raise e) s = (Inl e, s)"
| "leave_tx (RollbackRaise e) s = (Inl e, rollback_tx s)"
| "leave_tx (Leave x) s = (Inr x, s)"
| "leave_tx (KeepWrites d x) s = (Inr x, write_db d s)"
| "leave_tx (RollbackDone x) s = (Inr x, rollback_tx s)"
| "leave_tx (RollbackRead f) s =
     (let s' = autobegin (rollback_tx s) in (f (working s'), s'))"
| "leave_tx (CommitDone d js ds x) s = (Inr x, publish d js ds s)"
| "leave_tx (CommitRead d js ds f) s =
     (let s' = autobegin (publish d js ds s) in (f (working s'), s'))"

definition write_tx :: "(session \<Rightarrow> 'a exit) \<Rightarrow> session \<Rightarrow> 'a outcome \<times> session" where
  "write_tx body s =
     (case ensure_immediate_transaction s of
        (Inl e, s1) \<Rightarrow> (Inl e, s1)
      | (Inr _, s1) \<Rightarrow> leave_tx (body s1) s1)"

text \<open>
  \<open>_get\<close>: the SELECT decides whether the row exists; an instance already in the identity
  map keeps the attributes it was loaded with.
\<close>

definition orm_job :: "session \<Rightarrow> string \<Rightarrow> job option" where
  "orm_job s k =
     (case find_job k (working s) of
        None \<Rightarrow> None
      | Some r \<Rightarrow> Some (case job_cache s k of None \<Rightarrow> r | Some c \<Rightarrow> c))"

definition orm_download :: "session \<Rightarrow> string \<Rightarrow> model_download option" where
  "orm_download s k =
     (case find_download k (working s) of
        None \<Rightarrow> None
      | Some r \<Rightarrow> Some (case download_cache s k of None \<Rightarrow> r | Some c \<Rightarrow> c))"

text \<open>\<open>session.refresh(job)\<close> and the instance a function keeps a reference to.\<close>

definition hold_job :: "job \<Rightarrow> session \<Rightarrow> session" where
  "hold_job r s = s\<lparr>job_cache := (job_cache s)(j_job_id r := Some r)\<rparr>"

definition refresh_job :: "string \<Rightarrow> session \<Rightarrow> session" where
  "refresh_job k s =
     (let s' = autobegin s
      in s'\<lparr>job_cache := (job_cache s')(k := find_job k (working s'))\<rparr>)"

section \<open>Facts\<close>

text \<open>The state right after a successful \<open>ensure_immediate_transaction\<close>.\<close>

definition opened :: "session \<Rightarrow> session" where
  "opened s =
     (if tx s = Immediate then s
      else if tx s = NoTx then emit_begin Immediate s
      else emit_begin Immediate (commit_tx s))"

definition session_wf :: "session \<Rightarrow> bool" where
  "session_wf s \<longleftrightarrow>
     (tx s = NoTx \<longrightarrow> \<not> has_dml s) \<and> (tx s \<noteq> Deferred \<and> \<not> has_dml s \<longrightarrow> working s = committed s) \<and>
     (tx s = Immediate \<longrightarrow> \<not> locked s)"

definition refused :: "session \<Rightarrow> bool" where
  "refused s \<longleftrightarrow> tx s = Deferred \<and> (pending s \<or> has_dml s)"

definition startable :: "session \<Rightarrow> bool" where
  "startable s \<longleftrightarrow> \<not> refused s \<and> (tx s = Immediate \<or> \<not> locked s)"

lemma ensure_immediate_ok:
  "startable s \<Longrightarrow> ensure_immediate_transaction s = (Inr (), opened s)"
  by (cases "tx s")
    (auto simp: ensure_immediate_transaction_def begin_immediate_def opened_def startable_def
      refused_def commit_tx_def Let_def)

lemma ensure_immediate_fail:
  "\<not> startable s \<Longrightarrow> \<exists>e s'. ensure_immediate_transaction s = (Inl e, s') \<and>
     committed s' = committed s \<and> job_cache s' = job_cache s \<and> download_cache s' = download_cache s"
  by (cases "tx s")
    (auto simp: ensure_immediate_transaction_def begin_immediate_def startable_def
      refused_def commit_tx_def Let_def)

lemma opened_simps [simp]:
  "tx (opened s) = Immediate" "job_cache (opened s) = job_cache s"
  "download_cache (opened s) = download_cache s" "locked (opened s) = locked s"
  by (simp_all add: opened_def emit_begin_def commit_tx_def Let_def)

lemma committed_opened: "startable s \<Longrightarrow> committed (opened s) = committed s"
  by (cases "tx s") (auto simp: opened_def emit_begin_def commit_tx_def startable_def refused_def Let_def)

lemma working_opened: "startable s \<Longrightarrow> tx s \<noteq> Immediate \<Longrightarrow> working (opened s) = committed s"
  by (cases "tx s") (auto simp: opened_def emit_begin_def commit_tx_def startable_def refused_def Let_def)

lemma write_tx_ok: "startable s \<Longrightarrow> write_tx body s = leave_tx (body (opened s)) (opened s)"
  by (simp add: write_tx_def ensure_immediate_ok)

lemma write_tx_fail:
  assumes "\<not> startable s"
  shows "\<exists>e s'. write_tx body s = (Inl e, s') \<and> committed s' = committed s"
  using ensure_immediate_fail [OF assms] by (auto simp: write_tx_def)

lemma orm_job_fresh: "job_cache s k = None \<Longrightarrow> orm_job s k = find_job k (working s)"
  by (simp add: orm_job_def split: option.splits)

lemma orm_job_None_iff: "orm_job s k = None \<longleftrightarrow> find_job k (working s) = None"
  by (simp add: orm_job_def split: option.splits)

lemma orm_download_fresh:
  "download_cache s k = None \<Longrightarrow> orm_download s k = find_download k (working s)"
  by (simp add: orm_download_def split: option.splits)

text \<open>What a repository call leaves committed, and what it returns, by its exit.\<close>

fun exit_db :: "'a exit \<Rightarrow> database \<Rightarrow> database" where
  "exit_db (CommitDone d js ds x) c = d"
| "exit_db (CommitRead d js ds f) c = d"
| "exit_db _ c = c"

fun exit_result :: "'a exit \<Rightarrow> database \<Rightarrow> 'a outcome" where
  "exit_result (Raise e) c = Inl e"
| "exit_result (RollbackRaise e) c = Inl e"
| "exit_result (Leave x) c = Inr x"
| "exit_result (KeepWrites d x) c = Inr x"
| "exit_result (RollbackDone x) c = Inr x"
| "exit_result (RollbackRead f) c = f c"
| "exit_result (CommitDone d js ds x) c = Inr x"
| "exit_result (CommitRead d js ds f) c = f d"

lemmas exit_defs =
  rollback_tx_def autobegin_def emit_begin_def commit_tx_def sync_caches_def write_db_def
  publish_def Let_def

lemma committed_leave_tx: "committed (snd (leave_tx x s)) = exit_db x (committed s)"
  by (cases x) (simp_all add: exit_defs)

lemma result_leave_tx: "fst (leave_tx x s) = exit_result x (committed s)"
  by (cases x) (simp_all add: exit_defs)

lemma leave_tx_reads:
  "leave_tx (CommitRead d js ds f) s = (f d, autobegin (publish d js ds s))"
  "leave_tx (RollbackRead f) s = (f (committed s), autobegin (rollback_tx s))"
  by (simp_all add: exit_defs)

declare leave_tx.simps(6,8) [simp del]
declare leave_tx_reads [simp]

lemma committed_write_tx:
  "committed (snd (write_tx body s)) =
     (if startable s then exit_db (body (opened s)) (committed s) else committed s)"
proof (cases "startable s")
  case True
  then show ?thesis by (simp add: write_tx_ok committed_leave_tx committed_opened)
next
  case False
  with write_tx_fail [OF False, of body] show ?thesis by auto
qed

lemma result_write_tx:
  "startable s \<Longrightarrow> fst (write_tx body s) = exit_result (body (opened s)) (committed s)"
  by (simp add: write_tx_ok result_leave_tx committed_opened)

lemma result_write_tx_ok:
  assumes "fst (write_tx body s) = Inr x"
  shows "startable s"
proof (rule ccontr)
  assume "\<not> startable s"
  from ensure_immediate_fail [OF this] assms show False by (auto simp: write_tx_def)
qed

text \<open>
  The sessions the callers start from: no transaction open, every cached instance an
  instance of the row it is keyed by.
\<close>

definition cache_wf :: "session \<Rightarrow> bool" where
  "cache_wf s \<longleftrightarrow>
     (\<forall>k c r. job_cache s k = Some c \<longrightarrow> find_job k (committed s) = Some r \<longrightarrow>
        j_job_id c = k \<and> j_id c = j_id r)"

definition idle :: "session \<Rightarrow> bool" where
  "idle s \<longleftrightarrow> tx s = NoTx \<and> \<not> locked s \<and> cache_wf s"

text \<open>
  What a writing call needs: it can start, and its transaction sees the committed
  database (a session that is idle, or inside an IMMEDIATE transaction that has written
  nothing).
\<close>

definition quiet :: "session \<Rightarrow> bool" where
  "quiet s \<longleftrightarrow>
     \<not> refused s \<and> \<not> locked s \<and> working (opened s) = committed s \<and> cache_wf s"

lemma idle_open_session [simp]: "idle (open_session d)"
  by (simp add: idle_def open_session_def cache_wf_def)

lemma committed_open_session [simp]: "committed (open_session d) = d"
  by (simp add: open_session_def)

lemma open_session_caches [simp]:
  "job_cache (open_session d) = (\<lambda>_. None)" "download_cache (open_session d) = (\<lambda>_. None)"
  by (simp_all add: open_session_def)

lemma idle_quiet: "idle s \<Longrightarrow> quiet s"
  by (simp add: idle_def quiet_def startable_def refused_def working_opened)

lemma quiet_startable: "quiet s \<Longrightarrow> startable s"
  by (simp add: quiet_def startable_def)

lemma opened_opened [simp]: "opened (opened s) = opened s"
  by (simp add: opened_def [of "opened s"])

lemma quiet_working: "quiet s \<Longrightarrow> working (opened s) = committed s"
  by (simp add: quiet_def)

lemma quiet_opened: "quiet s \<Longrightarrow> quiet (opened s)"
  by (simp add: quiet_def committed_opened startable_def refused_def cache_wf_def)

lemma quiet_rollback: "quiet s \<Longrightarrow> quiet (rollback_tx (opened s))"
  by (auto simp: quiet_def committed_opened startable_def refused_def cache_wf_def
      rollback_tx_def opened_def emit_begin_def commit_tx_def Let_def split: if_splits)

lemma quiet_open_session [simp]: "quiet (open_session d)"
  by (simp add: idle_quiet)

lemma working_open_session [simp]: "working (opened (open_session d)) = d"
  by (simp add: quiet_working)

lemma orm_job_open_session [simp]: "orm_job (opened (open_session d)) k = find_job k d"
  by (simp add: orm_job_fresh)

lemma orm_download_open_session [simp]:
  "orm_download (opened (open_session d)) k = find_download k d"
  by (simp add: orm_download_fresh)

lemma orm_job_opened:
  assumes "quiet s" "orm_job (opened s) k = Some c"
  obtains r where "find_job k (committed s) = Some r" "j_id c = j_id r" "j_job_id c = k"
    "c = r \<or> job_cache s k = Some c"
proof -
  from assms obtain r where r: "find_job k (committed s) = Some r"
    and c: "c = (case job_cache s k of None \<Rightarrow> r | Some c' \<Rightarrow> c')"
    by (auto simp: orm_job_def quiet_working split: option.splits)
  have "j_id c = j_id r \<and> j_job_id c = k"
    using assms(1) r c find_job_in [OF r]
    by (cases "job_cache s k") (auto simp: quiet_def cache_wf_def)
  moreover have "c = r \<or> job_cache s k = Some c"
    using c by (cases "job_cache s k") auto
  ultimately show ?thesis using r that by blast
qed

end
