(* ===== verification/JobRepo.thy ===== *)
theory JobRepo
  imports Sessions "HOL-Library.Product_Lexorder"
begin

text \<open>
  Job persistence and single-owner lease semantics: the job half of
  \<open>storage/repository.py\<close>. Every operation is one \<open>write_tx\<close>; its body reads the job
  through the identity map (\<open>orm_job\<close>), builds the column values from that snapshot, and
  publishes them with a guarded UPDATE over the rows of the transaction.
\<close>

definition MAX_ATTEMPTS_EXCEEDED :: string where
  "MAX_ATTEMPTS_EXCEEDED = ''MAX_ATTEMPTS_EXCEEDED''"

definition CANCELLED_BY_USER :: string where
  "CANCELLED_BY_USER = ''CANCELLED_BY_USER''"

section \<open>Reads\<close>

definition get_job :: "string \<Rightarrow> session \<Rightarrow> job option \<times> session" where
  "get_job job_id s = (let s' = autobegin s in (orm_job s' job_id, s'))"

definition get_required :: "string \<Rightarrow> database \<Rightarrow> job outcome" where
  "get_required job_id d =
     (case find_job job_id d of
        None \<Rightarrow> Inl (RuntimeError job_id)
      | Some r \<Rightarrow> Inr r)"

definition is_cancel_requested :: "string \<Rightarrow> session \<Rightarrow> bool \<times> session" where
  "is_cancel_requested job_id s =
     (let (r, s') = get_job job_id s
      in (case r of None \<Rightarrow> False | Some j \<Rightarrow> j_cancel_requested_at j \<noteq> None, s'))"

section \<open>Claiming\<close>

text \<open>\<open>is_not(None) and column <= now\<close>.\<close>

definition due :: "time option \<Rightarrow> time \<Rightarrow> bool" where
  "due t now = (case t of None \<Rightarrow> False | Some e \<Rightarrow> e \<le> now)"

definition is_claimable :: "job \<Rightarrow> time \<Rightarrow> bool" where
  "is_claimable job now =
     (if j_attempt job \<ge> j_max_attempts job then False
      else if j_status job \<in> TERMINAL_JOB_STATUSES then False
      else if j_status job = QUEUED then True
      else if j_status job = RETRY_WAIT then due (j_next_retry_at job) now
      else j_lease_expires_at job = None \<or> due (j_lease_expires_at job) now)"

definition claim_status :: "job \<Rightarrow> job_status \<times> job_status option" where
  "claim_status job =
     (if j_status job = QUEUED then (FETCHING_METADATA, Some FETCHING_METADATA)
      else if j_status job = RETRY_WAIT then
        (let stage = (case j_stage job of None \<Rightarrow> FETCHING_METADATA | Some st \<Rightarrow> st)
         in (stage, Some stage))
      else (j_status job, Some (j_status job)))"

definition claimable_where :: "time \<Rightarrow> job \<Rightarrow> bool" where
  "claimable_where now r \<longleftrightarrow>
     j_attempt r < j_max_attempts r \<and>
     (j_status r = QUEUED \<or>
      j_status r = RETRY_WAIT \<and> due (j_next_retry_at r) now \<or>
      j_status r \<in> RUNNING_STATES \<and>
        (j_lease_expires_at r = None \<or> due (j_lease_expires_at r) now))"

text \<open>\<open>UPDATE .. WHERE .. RETURNING\<close>: \<open>None\<close> when no row comes back.\<close>

definition update_returning ::
  "(job \<Rightarrow> bool) \<Rightarrow> (job \<Rightarrow> job) \<Rightarrow> database \<Rightarrow> database option" where
  "update_returning P f d = (if list_ex P (jobs d) then Some (patch_jobs P f d) else None)"

text \<open>The guard of every owner's write: the lease is the owner's and has not expired.\<close>

definition lease_live :: "string \<Rightarrow> time \<Rightarrow> job \<Rightarrow> bool" where
  "lease_live owner now r \<longleftrightarrow>
     j_lease_owner r = Some owner \<and>
     (case j_lease_expires_at r of None \<Rightarrow> False | Some e \<Rightarrow> now < e)"

definition claim_job ::
  "string \<Rightarrow> string \<Rightarrow> time \<Rightarrow> time \<Rightarrow> session \<Rightarrow> job option outcome \<times> session" where
  "claim_job job_id owner lease_seconds now = write_tx (\<lambda>s.
     case orm_job s job_id of
       None \<Rightarrow> Leave None
     | Some job \<Rightarrow>
         if \<not> is_claimable job now then Leave None
         else
           let (new_status, new_stage) = claim_status job
           in case update_returning
                     (\<lambda>r. j_id r = j_id job \<and> j_status r = j_status job \<and>
                          j_lease_expires_at r = j_lease_expires_at job)
                     (\<lambda>r. r\<lparr>j_status := new_status, j_stage := new_stage,
                           j_lease_owner := Some owner,
                           j_lease_expires_at := Some (now + lease_seconds),
                           j_attempt := j_attempt r + 1, j_updated_at := now\<rparr>)
                     (working s) of
                None \<Rightarrow> RollbackDone None
              | Some d \<Rightarrow> CommitRead d {job_id} {} (\<lambda>d'. Inr (find_job job_id d')))"

text \<open>The candidates of one claim round: claimable rows, oldest first, at most 16.\<close>

definition claim_candidates :: "time \<Rightarrow> database \<Rightarrow> job list" where
  "claim_candidates now d =
     page 16 0 (sort_key (\<lambda>r. (j_created_at r, j_id r)) (filter (claimable_where now) (jobs d)))"

fun claim_first ::
  "string list \<Rightarrow> string \<Rightarrow> time \<Rightarrow> time \<Rightarrow> session \<Rightarrow> job option outcome \<times> session" where
  "claim_first [] owner lease_seconds now s = (Inr None, s)"
| "claim_first (k # ks) owner lease_seconds now s =
     (case claim_job k owner lease_seconds now s of
        (Inl e, s') \<Rightarrow> (Inl e, s')
      | (Inr (Some j), s') \<Rightarrow> (Inr (Some j), s')
      | (Inr None, s') \<Rightarrow> claim_first ks owner lease_seconds now s')"

definition claim_next_job ::
  "string \<Rightarrow> time \<Rightarrow> time \<Rightarrow> session \<Rightarrow> job option outcome \<times> session" where
  "claim_next_job owner lease_seconds now s =
     (case ensure_immediate_transaction s of
        (Inl e, s') \<Rightarrow> (Inl e, s')
      | (Inr _, s') \<Rightarrow>
          claim_first (map j_job_id (claim_candidates now (working s')))
            owner lease_seconds now s')"

section \<open>Enqueue\<close>

definition new_job ::
  "nat \<Rightarrow> string \<Rightarrow> utext \<Rightarrow> string \<Rightarrow> string \<Rightarrow> time \<Rightarrow> job_status \<Rightarrow> string \<Rightarrow> string \<Rightarrow>
   string option \<Rightarrow> int \<Rightarrow> int \<Rightarrow> time option \<Rightarrow> job" where
  "new_job rowid job_id url request_fingerprint config_fingerprint now status mode asr
     language max_attempts attempt next_retry_at =
     \<lparr>j_id = rowid, j_job_id = job_id, j_request_fingerprint = request_fingerprint,
      j_url = url, j_mode = mode, j_asr = asr, j_language = language,
      j_asr_provider_id = None, j_asr_model_id = None, j_asr_model_version = None,
      j_asr_recommendation_model_id = None, j_config_fingerprint = config_fingerprint,
      j_title = None, j_platform = None, j_subtitle_probe = None,
      j_status = status, j_stage = (if status \<in> RUNNING_STATES then Some status else None),
      j_progress = 0, j_attempt = attempt, j_max_attempts = max_attempts,
      j_lease_owner = None, j_lease_expires_at = None, j_cancel_requested_at = None,
      j_next_retry_at = next_retry_at, j_error_code = None, j_error_detail = None,
      j_retryable = False, j_created_at = now, j_updated_at = now\<rparr>"

definition insert_job :: "(nat \<Rightarrow> job) \<Rightarrow> database \<Rightarrow> database" where
  "insert_job mk d = d\<lparr>jobs := jobs d @ [mk (job_seq d + 1)], job_seq := job_seq d + 1\<rparr>"

text \<open>\<open>ix_jobs_job_id\<close> is a unique index: a second row with the id fails the flush.\<close>

definition enqueue_job ::
  "string \<Rightarrow> utext \<Rightarrow> string \<Rightarrow> string \<Rightarrow> time \<Rightarrow> job_status \<Rightarrow> string \<Rightarrow> string \<Rightarrow>
   string option \<Rightarrow> int \<Rightarrow> int \<Rightarrow> time option \<Rightarrow> session \<Rightarrow> job outcome \<times> session" where
  "enqueue_job job_id url request_fingerprint config_fingerprint now status mode asr
     language max_attempts attempt next_retry_at = write_tx (\<lambda>s.
       if find_job job_id (working s) \<noteq> None then RollbackRaise (IntegrityError job_id)
       else CommitRead
         (insert_job (\<lambda>i. new_job i job_id url request_fingerprint config_fingerprint now
            status mode asr language max_attempts attempt next_retry_at) (working s))
         {job_id} {} (get_required job_id))"

section \<open>Recovery sweeps\<close>

text \<open>A sweep returns the rows it changed, read back after the commit.\<close>

definition sweep :: "(job \<Rightarrow> bool) \<Rightarrow> (job \<Rightarrow> job) \<Rightarrow> session \<Rightarrow> job list exit" where
  "sweep P f s =
     (let ids = map j_id (filter P (jobs (working s)));
          ks = j_job_id ` set (filter P (jobs (working s)));
          d = patch_jobs P f (working s)
      in if ids = [] then CommitDone d ks {} []
         else CommitRead d ks {} (\<lambda>d'. Inr (filter (\<lambda>r. j_id r \<in> set ids) (jobs d'))))"

definition recover_stale_jobs :: "time \<Rightarrow> session \<Rightarrow> job list outcome \<times> session" where
  "recover_stale_jobs now = write_tx (sweep
     (\<lambda>r. due (j_lease_expires_at r) now \<and> j_status r \<notin> TERMINAL_JOB_STATUSES)
     (\<lambda>r. r\<lparr>j_lease_owner := None, j_lease_expires_at := None, j_updated_at := now\<rparr>))"

definition fail_exhausted_retries :: "time \<Rightarrow> session \<Rightarrow> job list outcome \<times> session" where
  "fail_exhausted_retries now = write_tx (sweep
     (\<lambda>r. (j_status r = RETRY_WAIT \<or> j_status r \<in> RUNNING_STATES) \<and>
          j_attempt r \<ge> j_max_attempts r)
     (\<lambda>r. r\<lparr>j_status := FAILED, j_error_code := Some MAX_ATTEMPTS_EXCEEDED,
           j_retryable := False, j_lease_owner := None, j_lease_expires_at := None,
           j_next_retry_at := None, j_updated_at := now\<rparr>))"

definition land_dangling_cancellations :: "time \<Rightarrow> session \<Rightarrow> job list outcome \<times> session" where
  "land_dangling_cancellations now = write_tx (sweep
     (\<lambda>r. j_status r = WAITING_FOR_MODEL \<and> j_cancel_requested_at r \<noteq> None)
     (\<lambda>r. r\<lparr>j_status := CANCELLED, j_error_code := Some CANCELLED_BY_USER,
           j_retryable := False, j_lease_owner := None, j_lease_expires_at := None,
           j_updated_at := now\<rparr>))"

section \<open>The lease holder's writes\<close>

text \<open>Compare-and-swap on the snapshot's status under a live lease.\<close>

definition owned_row :: "job \<Rightarrow> string \<Rightarrow> time \<Rightarrow> job \<Rightarrow> bool" where
  "owned_row job owner now r \<longleftrightarrow>
     j_id r = j_id job \<and> j_status r = j_status job \<and> lease_live owner now r"

definition advance_job ::
  "string \<Rightarrow> string \<Rightarrow> job_status \<Rightarrow> time \<Rightarrow> time \<Rightarrow> job_status option \<Rightarrow> int option \<Rightarrow>
   session \<Rightarrow> job outcome \<times> session" where
  "advance_job job_id owner to_status now lease_seconds stage progress = write_tx (\<lambda>s.
     case orm_job s job_id of
       None \<Rightarrow> Raise (KeyError job_id)
     | Some job \<Rightarrow>
       (case validate_transition (j_status job) to_status of
          Inl e \<Rightarrow> Raise e
        | Inr _ \<Rightarrow>
            let pending_cancel =
                  Option.bind (select_first (\<lambda>r. j_id r = j_id job) (jobs (working s)))
                    j_cancel_requested_at;
                cancel_landed = (to_status = WAITING_FOR_MODEL \<and> pending_cancel \<noteq> None);
                target = (if cancel_landed then CANCELLED else to_status);
                new_stage =
                  (case stage of
                     Some st \<Rightarrow> Some st
                   | None \<Rightarrow> if target \<in> RUNNING_STATES then Some target else j_stage job);
                release = (target \<in> TERMINAL_JOB_STATUSES \<or> target = WAITING_FOR_MODEL)
            in case update_returning (owned_row job owner now)
                      (\<lambda>r. r\<lparr>j_status := target, j_stage := new_stage,
                            j_progress := (case progress of None \<Rightarrow> j_progress job | Some p \<Rightarrow> p),
                            j_error_code := (if cancel_landed then Some CANCELLED_BY_USER else None),
                            j_error_detail := None, j_retryable := False, j_updated_at := now,
                            j_lease_owner := (if release then None else j_lease_owner r),
                            j_lease_expires_at :=
                              (if release then None else Some (now + lease_seconds))\<rparr>)
                      (working s) of
                 None \<Rightarrow> RollbackRaise (LeaseLostError job_id)
               | Some d \<Rightarrow> CommitRead d {job_id} {} (get_required job_id)))"

definition mark_failure ::
  "string \<Rightarrow> string \<Rightarrow> time \<Rightarrow> string \<Rightarrow> bool \<Rightarrow> time option \<Rightarrow> string option \<Rightarrow>
   session \<Rightarrow> job outcome \<times> session" where
  "mark_failure job_id owner now error_code retryable next_retry_at error_detail = write_tx (\<lambda>s.
     case orm_job s job_id of
       None \<Rightarrow> Raise (KeyError job_id)
     | Some job \<Rightarrow>
       (let to_status = (if retryable then RETRY_WAIT else FAILED)
        in case validate_transition (j_status job) to_status of
             Inl e \<Rightarrow> Raise e
           | Inr _ \<Rightarrow>
              (case update_returning (owned_row job owner now)
                      (\<lambda>r. r\<lparr>j_status := to_status, j_error_code := Some error_code,
                            j_error_detail := error_detail, j_retryable := retryable,
                            j_next_retry_at := (if retryable then next_retry_at else None),
                            j_lease_owner := None, j_lease_expires_at := None,
                            j_updated_at := now\<rparr>)
                      (working s) of
                 None \<Rightarrow> RollbackRaise (LeaseLostError job_id)
               | Some d \<Rightarrow> CommitRead d {job_id} {} (get_required job_id))))"

definition mark_cancelled ::
  "string \<Rightarrow> string \<Rightarrow> time \<Rightarrow> session \<Rightarrow> job outcome \<times> session" where
  "mark_cancelled job_id owner now = write_tx (\<lambda>s.
     case orm_job s job_id of
       None \<Rightarrow> Raise (KeyError job_id)
     | Some job \<Rightarrow>
       (case update_returning (owned_row job owner now)
               (\<lambda>r. r\<lparr>j_status := CANCELLED, j_error_code := Some CANCELLED_BY_USER,
                     j_lease_owner := None, j_lease_expires_at := None, j_updated_at := now\<rparr>)
               (working s) of
          None \<Rightarrow> RollbackRaise (LeaseLostError job_id)
        | Some d \<Rightarrow> CommitRead d {job_id} {} (get_required job_id)))"

definition pin_job_asr_route ::
  "string \<Rightarrow> string \<Rightarrow> time \<Rightarrow> string \<Rightarrow> string \<Rightarrow> string \<Rightarrow> string option \<Rightarrow>
   session \<Rightarrow> job outcome \<times> session" where
  "pin_job_asr_route job_id owner now provider_id model_id model_version
     recommendation_model_id = write_tx (\<lambda>s.
     case orm_job s job_id of
       None \<Rightarrow> Raise (KeyError job_id)
     | Some job \<Rightarrow>
       (case update_returning
               (\<lambda>r. j_id r = j_id job \<and> j_status r = TRANSCRIBING \<and> lease_live owner now r)
               (\<lambda>r. r\<lparr>j_asr_provider_id := Some provider_id, j_asr_model_id := Some model_id,
                     j_asr_model_version := Some model_version,
                     j_asr_recommendation_model_id := recommendation_model_id,
                     j_updated_at := now\<rparr>)
               (working s) of
          None \<Rightarrow> RollbackRaise (LeaseLostError job_id)
        | Some d \<Rightarrow> CommitRead d {job_id} {} (get_required job_id)))"

definition renew_lease ::
  "string \<Rightarrow> string \<Rightarrow> time \<Rightarrow> time \<Rightarrow> session \<Rightarrow> bool outcome \<times> session" where
  "renew_lease job_id owner now lease_seconds = write_tx (\<lambda>s.
     case update_returning (\<lambda>r. j_job_id r = job_id \<and> lease_live owner now r)
            (\<lambda>r. r\<lparr>j_lease_expires_at := Some (now + lease_seconds), j_updated_at := now\<rparr>)
            (working s) of
       None \<Rightarrow> RollbackDone False
     | Some d \<Rightarrow> CommitDone d {job_id} {} True)"

section \<open>Parking and resuming\<close>

definition list_waiting_model_ids :: "database \<Rightarrow> string list" where
  "list_waiting_model_ids d =
     remdups (List.map_filter j_asr_recommendation_model_id
       (filter (\<lambda>r. j_status r = WAITING_FOR_MODEL \<and>
                    j_asr_recommendation_model_id r \<noteq> None) (jobs d)))"

definition resume_waiting_jobs ::
  "string \<Rightarrow> time \<Rightarrow> session \<Rightarrow> string list outcome \<times> session" where
  "resume_waiting_jobs model_id now = write_tx (\<lambda>s.
     let P = (\<lambda>r. j_status r = WAITING_FOR_MODEL \<and>
                  j_asr_recommendation_model_id r = Some model_id \<and>
                  j_cancel_requested_at r = None);
         ks = map j_job_id (filter P (jobs (working s)))
     in CommitDone
          (patch_jobs P
             (\<lambda>r. r\<lparr>j_status := TRANSCRIBING, j_stage := Some TRANSCRIBING,
                   j_asr_recommendation_model_id := None, j_error_code := None,
                   j_error_detail := None, j_retryable := False, j_lease_owner := None,
                   j_lease_expires_at := None, j_updated_at := now\<rparr>)
             (working s))
          (set ks) {} ks)"

section \<open>User cancellation\<close>

definition request_cancellation ::
  "string \<Rightarrow> time \<Rightarrow> session \<Rightarrow> job option outcome \<times> session" where
  "request_cancellation job_id now = write_tx (\<lambda>s.
     case orm_job s job_id of
       None \<Rightarrow> Leave None
     | Some job \<Rightarrow>
       if j_status job \<in> TERMINAL_JOB_STATUSES then Leave (Some job)
       else
        (let parked = (j_status job \<in> {QUEUED, RETRY_WAIT, WAITING_FOR_MODEL})
         in case update_returning (\<lambda>r. j_id r = j_id job \<and> j_status r = j_status job)
                   (\<lambda>r. if parked
                        then r\<lparr>j_cancel_requested_at := Some now, j_updated_at := now,
                              j_status := CANCELLED, j_error_code := Some CANCELLED_BY_USER,
                              j_retryable := False, j_next_retry_at := None,
                              j_lease_owner := None, j_lease_expires_at := None\<rparr>
                        else r\<lparr>j_cancel_requested_at := Some now, j_updated_at := now\<rparr>)
                   (working s) of
              None \<Rightarrow> RollbackRead (\<lambda>d. Inr (find_job job_id d))
            | Some d \<Rightarrow> CommitRead d {job_id} {}
                (\<lambda>d'. map_sum id Some (get_required job_id d'))))"

section \<open>Artifacts\<close>

definition find_artifact :: "string \<Rightarrow> string \<Rightarrow> string \<Rightarrow> database \<Rightarrow> job_artifact option" where
  "find_artifact job_id artifact_type input_fingerprint d =
     select_first (\<lambda>a. a_job_id a = job_id \<and> a_artifact_type a = artifact_type \<and>
                       a_input_fingerprint a = input_fingerprint) (artifacts d)"

definition get_artifact ::
  "string \<Rightarrow> string \<Rightarrow> string \<Rightarrow> session \<Rightarrow> job_artifact option \<times> session" where
  "get_artifact job_id artifact_type input_fingerprint s =
     (let s' = autobegin s
      in (find_artifact job_id artifact_type input_fingerprint (working s'), s'))"

definition insert_artifact :: "(nat \<Rightarrow> job_artifact) \<Rightarrow> database \<Rightarrow> database" where
  "insert_artifact mk d =
     d\<lparr>artifacts := artifacts d @ [mk (artifact_seq d + 1)], artifact_seq := artifact_seq d + 1\<rparr>"

definition commit_artifact_and_advance ::
  "string \<Rightarrow> string \<Rightarrow> job_status \<Rightarrow> time \<Rightarrow> time \<Rightarrow> string \<Rightarrow> string \<Rightarrow> string \<Rightarrow> int \<Rightarrow> string \<Rightarrow>
   string option \<Rightarrow> string option \<Rightarrow> string option \<Rightarrow> int option \<Rightarrow> int option \<Rightarrow>
   session \<Rightarrow> job outcome \<times> session" where
  "commit_artifact_and_advance job_id owner to_status now lease_seconds stage artifact_type
     input_fingerprint schema_version storage_kind payload_json relative_path content_hash
     byte_size progress = write_tx (\<lambda>s.
     case orm_job s job_id of
       None \<Rightarrow> Raise (KeyError job_id)
     | Some job \<Rightarrow>
       (case validate_transition (j_status job) to_status of
          Inl e \<Rightarrow> Raise e
        | Inr _ \<Rightarrow>
            let d0 = (if find_artifact job_id artifact_type input_fingerprint (working s) = None
                      then insert_artifact (\<lambda>i.
                        \<lparr>a_id = i, a_job_id = job_id, a_stage = stage,
                         a_artifact_type = artifact_type, a_input_fingerprint = input_fingerprint,
                         a_schema_version = schema_version, a_storage_kind = storage_kind,
                         a_payload_json = payload_json, a_relative_path = relative_path,
                         a_content_hash = content_hash, a_byte_size = byte_size,
                         a_created_at = now, a_updated_at = now\<rparr>) (working s)
                      else working s);
                new_stage = (if to_status \<in> RUNNING_STATES then Some to_status else j_stage job);
                release = (to_status \<in> TERMINAL_JOB_STATUSES)
            in case update_returning (owned_row job owner now)
                      (\<lambda>r. r\<lparr>j_status := to_status, j_stage := new_stage,
                            j_progress := (case progress of None \<Rightarrow> j_progress job | Some p \<Rightarrow> p),
                            j_error_code := None, j_error_detail := None, j_retryable := False,
                            j_updated_at := now,
                            j_lease_owner := (if release then None else j_lease_owner r),
                            j_lease_expires_at :=
                              (if release then None else Some (now + lease_seconds))\<rparr>)
                      d0 of
                 None \<Rightarrow> RollbackRaise (LeaseLostError job_id)
               | Some d \<Rightarrow> CommitRead d {job_id} {} (get_required job_id)))"

definition save_artifact_inline ::
  "string \<Rightarrow> string \<Rightarrow> time \<Rightarrow> string \<Rightarrow> string \<Rightarrow> string \<Rightarrow> int \<Rightarrow> string \<Rightarrow>
   session \<Rightarrow> unit outcome \<times> session" where
  "save_artifact_inline job_id owner now stage artifact_type input_fingerprint schema_version
     payload_json = write_tx (\<lambda>s.
     case update_returning (\<lambda>r. j_job_id r = job_id \<and> lease_live owner now r)
            (\<lambda>r. r\<lparr>j_updated_at := j_updated_at r\<rparr>) (working s) of
       None \<Rightarrow> RollbackRaise (LeaseLostError job_id)
     | Some d \<Rightarrow>
        (case find_artifact job_id artifact_type input_fingerprint d of
           Some existing \<Rightarrow>
             CommitDone (d\<lparr>artifacts := update_where (\<lambda>a. a_id a = a_id existing)
                (\<lambda>a. a\<lparr>a_payload_json := Some payload_json, a_updated_at := now\<rparr>)
                (artifacts d)\<rparr>) {job_id} {} ()
         | None \<Rightarrow>
             CommitDone (insert_artifact (\<lambda>i.
               \<lparr>a_id = i, a_job_id = job_id, a_stage = stage, a_artifact_type = artifact_type,
                a_input_fingerprint = input_fingerprint, a_schema_version = schema_version,
                a_storage_kind = ''inline_json'', a_payload_json = Some payload_json,
                a_relative_path = None, a_content_hash = None, a_byte_size = None,
                a_created_at = now, a_updated_at = now\<rparr>) d) {job_id} {} ()))"

section \<open>Application settings\<close>

definition get_app_settings :: "database \<Rightarrow> app_settings option" where
  "get_app_settings d = settings_row d"

definition save_app_settings ::
  "bool \<Rightarrow> time \<Rightarrow> string option \<Rightarrow> string option \<Rightarrow> string option \<Rightarrow> string option \<Rightarrow>
   string option \<Rightarrow> string option \<Rightarrow> string option \<Rightarrow> string option \<Rightarrow> bool \<Rightarrow>
   session \<Rightarrow> app_settings outcome \<times> session" where
  "save_app_settings setup_completed now report_directory llm_provider llm_base_url llm_model
     llm_credential_ref llm_credential_origin asr_provider whisper_cpp_executable commit =
     write_tx (\<lambda>s.
       let row = \<lparr>st_setup_completed = setup_completed, st_report_directory = report_directory,
                  st_llm_provider = llm_provider, st_llm_base_url = llm_base_url,
                  st_llm_model = llm_model, st_llm_credential_ref = llm_credential_ref,
                  st_llm_credential_origin = llm_credential_origin,
                  st_asr_provider = asr_provider,
                  st_whisper_cpp_executable = whisper_cpp_executable, st_updated_at = now\<rparr>;
           d = (working s)\<lparr>settings_row := Some row\<rparr>
       in if \<not> commit then KeepWrites d row
          else CommitRead d {} {}
            (\<lambda>d'. case get_app_settings d' of
                    None \<Rightarrow> Inl (RuntimeError ''App settings vanished after write'')
                  | Some r \<Rightarrow> Inr r))"

end
