(* ===== verification/JobProtocol.thy ===== *)
theory JobProtocol
  imports JobRepo
begin

text \<open>
  The job repository as a protocol between workers, clients and the startup sweeps. Every
  repository call is one step on the committed database, taken by some session whose
  identity map may hold stale instances. Each step rewrites rows in one of nine ways
  (\<open>row_write\<close>); the invariant of the jobs table, the conformance of status changes to the
  transition table and the exclusivity of a live lease are read off those nine ways.
\<close>

section \<open>The invariant of the jobs table\<close>

definition job_ok :: "job \<Rightarrow> bool" where
  "job_ok r \<longleftrightarrow>
     (j_lease_owner r = None \<longleftrightarrow> j_lease_expires_at r = None) \<and>
     (j_status r \<in> TERMINAL_JOB_STATUSES \<or> j_status r = QUEUED \<longrightarrow> j_lease_owner r = None) \<and>
     j_attempt r \<le> j_max_attempts r \<and>
     (\<forall>st. j_stage r = Some st \<longrightarrow> st \<in> RUNNING_STATES) \<and>
     (j_status r \<in> RUNNING_STATES \<longrightarrow> j_stage r = Some (j_status r))"

definition jobs_wf :: "database \<Rightarrow> bool" where
  "jobs_wf d \<longleftrightarrow>
     distinct (map j_job_id (jobs d)) \<and> distinct (map j_id (jobs d)) \<and>
     (\<forall>r \<in> set (jobs d). j_id r \<le> job_seq d \<and> job_ok r)"

lemma jobs_wf_unique: "jobs_wf d \<Longrightarrow> jobs_unique d"
  by (simp add: jobs_wf_def jobs_unique_def)

lemma jobs_wf_job_ok: "jobs_wf d \<Longrightarrow> r \<in> set (jobs d) \<Longrightarrow> job_ok r"
  by (simp add: jobs_wf_def)

lemma jobs_wf_same_id:
  "jobs_wf d \<Longrightarrow> r \<in> set (jobs d) \<Longrightarrow> r' \<in> set (jobs d) \<Longrightarrow> j_id r = j_id r' \<Longrightarrow> r = r'"
  by (auto simp: jobs_wf_def intro: distinct_key_unique [where k = j_id])

lemma job_ok_new_job:
  "attempt \<le> max_attempts \<Longrightarrow>
     job_ok (new_job i job_id url rf cf now status mode asr language max_attempts attempt nr)"
  by (simp add: job_ok_def new_job_def)

section \<open>How one row may be rewritten\<close>

text \<open>
  \<open>row_write actor now r r'\<close>: the repository may turn \<open>r\<close> into \<open>r'\<close> at \<open>now\<close> on behalf
  of \<open>actor\<close> (\<open>None\<close> for calls that name no worker).
\<close>

definition same_request :: "job \<Rightarrow> job \<Rightarrow> bool" where
  "same_request r r' \<longleftrightarrow>
     j_id r' = j_id r \<and> j_job_id r' = j_job_id r \<and> j_url r' = j_url r \<and>
     j_request_fingerprint r' = j_request_fingerprint r \<and>
     j_max_attempts r' = j_max_attempts r \<and> j_created_at r' = j_created_at r"

inductive row_write :: "string option \<Rightarrow> time \<Rightarrow> job \<Rightarrow> job \<Rightarrow> bool" where
  claim: "claimable_where now r \<Longrightarrow> st \<in> RUNNING_STATES \<Longrightarrow>
     is_valid_transition (j_status r) st \<or> st = j_status r \<Longrightarrow>
     row_write (Some owner) now r
       (r\<lparr>j_status := st, j_stage := Some st, j_lease_owner := Some owner,
         j_lease_expires_at := Some e, j_attempt := j_attempt r + 1, j_updated_at := now\<rparr>)"
| advance: "lease_live owner now r \<Longrightarrow> same_request r r' \<Longrightarrow> j_attempt r' = j_attempt r \<Longrightarrow>
     j_cancel_requested_at r' = j_cancel_requested_at r \<Longrightarrow>
     is_valid_transition (j_status r) (j_status r') \<or> j_status r' = CANCELLED \<Longrightarrow>
     (if j_status r' \<in> RUNNING_STATES then j_stage r' = Some (j_status r')
      else \<forall>x. j_stage r' = Some x \<longrightarrow> x \<in> RUNNING_STATES) \<Longrightarrow>
     j_lease_owner r' = None \<and> j_lease_expires_at r' = None \<or>
     j_status r' \<notin> TERMINAL_JOB_STATUSES \<and> j_lease_owner r' = j_lease_owner r \<and>
       j_lease_expires_at r' \<noteq> None \<Longrightarrow>
     row_write (Some owner) now r r'"
| failure: "lease_live owner now r \<Longrightarrow> is_valid_transition (j_status r) st \<Longrightarrow>
     st = RETRY_WAIT \<or> st = FAILED \<Longrightarrow>
     row_write (Some owner) now r
       (r\<lparr>j_status := st, j_error_code := ec, j_error_detail := ed, j_retryable := rt,
         j_next_retry_at := nr, j_lease_owner := None, j_lease_expires_at := None,
         j_updated_at := now\<rparr>)"
| cancelled: "lease_live owner now r \<Longrightarrow>
     row_write (Some owner) now r
       (r\<lparr>j_status := CANCELLED, j_error_code := ec, j_lease_owner := None,
         j_lease_expires_at := None, j_updated_at := now\<rparr>)"
| owned: "lease_live owner now r \<Longrightarrow> same_request r r' \<Longrightarrow>
     j_cancel_requested_at r' = j_cancel_requested_at r \<Longrightarrow>
     j_status r' = j_status r \<Longrightarrow> j_stage r' = j_stage r \<Longrightarrow> j_attempt r' = j_attempt r \<Longrightarrow>
     j_lease_owner r' = j_lease_owner r \<Longrightarrow> j_lease_expires_at r' \<noteq> None \<Longrightarrow>
     row_write (Some owner) now r r'"
| release: "due (j_lease_expires_at r) now \<Longrightarrow> j_status r \<notin> TERMINAL_JOB_STATUSES \<Longrightarrow>
     row_write None now r
       (r\<lparr>j_lease_owner := None, j_lease_expires_at := None, j_updated_at := now\<rparr>)"
| land: "j_status r = WAITING_FOR_MODEL \<Longrightarrow> j_cancel_requested_at r \<noteq> None \<Longrightarrow>
     row_write None now r
       (r\<lparr>j_status := CANCELLED, j_error_code := ec, j_retryable := False,
         j_lease_owner := None, j_lease_expires_at := None, j_updated_at := now\<rparr>)"
| resume: "j_status r = WAITING_FOR_MODEL \<Longrightarrow> j_cancel_requested_at r = None \<Longrightarrow>
     row_write None now r
       (r\<lparr>j_status := TRANSCRIBING, j_stage := Some TRANSCRIBING,
         j_asr_recommendation_model_id := None, j_error_code := None, j_error_detail := None,
         j_retryable := False, j_lease_owner := None, j_lease_expires_at := None,
         j_updated_at := now\<rparr>)"
| cancel_parked: "j_status r \<in> {QUEUED, RETRY_WAIT, WAITING_FOR_MODEL} \<Longrightarrow>
     row_write None now r
       (r\<lparr>j_cancel_requested_at := Some now, j_updated_at := now, j_status := CANCELLED,
         j_error_code := ec, j_retryable := False, j_next_retry_at := None,
         j_lease_owner := None, j_lease_expires_at := None\<rparr>)"
| cancel_flag: "j_status r \<in> RUNNING_STATES \<Longrightarrow>
     row_write None now r (r\<lparr>j_cancel_requested_at := Some now, j_updated_at := now\<rparr>)"

text \<open>The sweep that fails exhausted jobs is kept apart: it does not look at leases.\<close>

definition exhausted :: "job \<Rightarrow> bool" where
  "exhausted r \<longleftrightarrow>
     (j_status r = RETRY_WAIT \<or> j_status r \<in> RUNNING_STATES) \<and> j_attempt r \<ge> j_max_attempts r"

definition failed_row :: "time \<Rightarrow> job \<Rightarrow> job" where
  "failed_row now r =
     r\<lparr>j_status := FAILED, j_error_code := Some MAX_ATTEMPTS_EXCEEDED, j_retryable := False,
       j_lease_owner := None, j_lease_expires_at := None, j_next_retry_at := None,
       j_updated_at := now\<rparr>"

lemma row_write_request: "row_write a now r r' \<Longrightarrow> same_request r r'"
  by (induction rule: row_write.induct) (simp_all add: same_request_def)

lemma row_write_keys: "row_write a now r r' \<Longrightarrow> j_job_id r' = j_job_id r \<and> j_id r' = j_id r"
  by (drule row_write_request) (simp add: same_request_def)

lemma row_write_ok: "row_write a now r r' \<Longrightarrow> job_ok r \<Longrightarrow> job_ok r'"
proof (induction rule: row_write.induct)
  case (claim now r st owner e)
  then show ?case by (auto simp: job_ok_def claimable_where_def running_not_terminal)
next
  case (advance owner now r r')
  then have "j_status r' \<noteq> QUEUED" using never_back_to_queued by auto
  with advance show ?case
    by (cases "j_status r' \<in> RUNNING_STATES")
      (simp_all add: job_ok_def same_request_def lease_live_def running_not_terminal, fastforce+)
next
  case (owned owner now r r')
  then show ?case by (simp add: job_ok_def same_request_def lease_live_def)
qed (auto simp: job_ok_def running_iff)

lemma failed_row_ok: "job_ok r \<Longrightarrow> exhausted r \<Longrightarrow> job_ok (failed_row now r)"
  by (auto simp: job_ok_def failed_row_def)

lemma lease_live_not_terminal:
  "lease_live owner now r \<Longrightarrow> job_ok r \<Longrightarrow> j_status r \<notin> TERMINAL_JOB_STATUSES"
  by (auto simp: lease_live_def job_ok_def)

lemma row_write_status:
  "row_write a now r r' \<Longrightarrow> job_ok r \<Longrightarrow>
     j_status r' = j_status r \<or> is_valid_transition (j_status r) (j_status r') \<or>
     j_status r' = CANCELLED \<and> j_status r \<notin> TERMINAL_JOB_STATUSES"
  by (induction rule: row_write.induct)
    (auto simp: build_allowed_idle is_valid_transition_def dest: lease_live_not_terminal)

lemma row_write_terminal:
  "row_write a now r r' \<Longrightarrow> job_ok r \<Longrightarrow> j_status r \<notin> TERMINAL_JOB_STATUSES"
  by (induction rule: row_write.induct)
    (auto simp: claimable_where_def running_not_terminal dest: lease_live_not_terminal)

text \<open>No rewriting clears a cancel request.\<close>

lemma row_write_cancel_kept:
  "row_write a now r r' \<Longrightarrow> j_cancel_requested_at r \<noteq> None \<Longrightarrow> j_cancel_requested_at r' \<noteq> None"
  by (induction rule: row_write.induct) simp_all

text \<open>A parked job with a cancel request and no lease can only be cancelled.\<close>

lemma row_write_parked_cancel:
  "row_write a now r r' \<Longrightarrow> j_status r = WAITING_FOR_MODEL \<Longrightarrow> j_lease_owner r = None \<Longrightarrow>
     j_cancel_requested_at r \<noteq> None \<Longrightarrow> due (j_lease_expires_at r) now = False \<Longrightarrow>
     j_status r' = CANCELLED"
  by (induction rule: row_write.induct) (simp_all add: claimable_where_def lease_live_def)

text \<open>A live lease on a running row admits only its owner's writes and the cancel flag.\<close>

definition held :: "string \<Rightarrow> time \<Rightarrow> job \<Rightarrow> bool" where
  "held owner now r \<longleftrightarrow> lease_live owner now r \<and> j_status r \<in> RUNNING_STATES"

definition same_but_cancel :: "job \<Rightarrow> job \<Rightarrow> bool" where
  "same_but_cancel r r' \<longleftrightarrow>
     (\<exists>c u. r' = r\<lparr>j_cancel_requested_at := c, j_updated_at := u\<rparr>)"

lemma same_but_cancel_refl [simp]: "same_but_cancel r r"
  unfolding same_but_cancel_def
  by (rule exI [of _ "j_cancel_requested_at r"], rule exI [of _ "j_updated_at r"]) simp

lemma same_but_cancel_trans:
  "same_but_cancel r r' \<Longrightarrow> same_but_cancel r' r'' \<Longrightarrow> same_but_cancel r r''"
  by (auto simp: same_but_cancel_def) blast

lemma held_not_due: "held owner now r \<Longrightarrow> \<not> due (j_lease_expires_at r) now"
  by (auto simp: held_def lease_live_def due_def split: option.splits)

lemma held_not_claimable: "held owner now r \<Longrightarrow> \<not> claimable_where now r"
  using held_not_due [of owner now r]
  by (auto simp: held_def lease_live_def claimable_where_def split: option.splits)

lemma held_owner: "lease_live owner' now r \<Longrightarrow> held owner now r \<Longrightarrow> owner' = owner"
  by (simp add: held_def lease_live_def)

lemma held_status: "held owner now r \<Longrightarrow> j_status r \<in> RUNNING_STATES"
  by (simp add: held_def)

lemma row_write_held:
  assumes "row_write a now r r'" "held owner now r" "a \<noteq> Some owner"
  shows "same_but_cancel r r'"
  using assms
proof (induction rule: row_write.induct)
  case (claim now r st owner e)
  then show ?case by (simp add: held_not_claimable)
next
  case (advance owner now r)
  then show ?case using held_owner by blast
next
  case (failure owner now r)
  then show ?case using held_owner by blast
next
  case (cancelled owner now r)
  then show ?case using held_owner by blast
next
  case (owned owner now r)
  then show ?case using held_owner by blast
next
  case (release r now)
  then show ?case by (simp add: held_not_due)
next
  case (land r now)
  from held_status [OF land.prems(1)] land.hyps(1) show ?case by simp
next
  case (resume r now)
  from held_status [OF resume.prems(1)] resume.hyps(1) show ?case by simp
next
  case (cancel_parked r now)
  from held_status [OF cancel_parked.prems(1)] cancel_parked.hyps(1) show ?case by auto
next
  case (cancel_flag r now)
  then show ?case unfolding same_but_cancel_def by blast
qed

end
