(* ===== verification/JobSteps.thy ===== *)
theory JobSteps
  imports JobProtocol
begin

text \<open>
  The repository calls as steps of one shared database: for every call, which of the row
  rewritings of \<open>JobProtocol\<close> it can perform, whatever stale instances its session holds;
  then runs of calls by any number of sessions, and what every run keeps.
\<close>

section \<open>What each call does to the table\<close>

definition job_delta :: "(job \<Rightarrow> job \<Rightarrow> bool) \<Rightarrow> database \<Rightarrow> database \<Rightarrow> bool" where
  "job_delta R d d' \<longleftrightarrow>
     job_seq d' = job_seq d \<and> list_all2 (\<lambda>r r'. r' = r \<or> R r r') (jobs d) (jobs d')"

lemma job_delta_same: "jobs d' = jobs d \<Longrightarrow> job_seq d' = job_seq d \<Longrightarrow> job_delta R d d'"
  by (simp add: job_delta_def list.rel_refl)

lemma job_delta_refl [simp]: "job_delta R d d"
  by (rule job_delta_same) simp_all

lemma job_delta_patch:
  assumes "\<And>r. r \<in> set (jobs d) \<Longrightarrow> P r \<Longrightarrow> R r (f r)"
    "jobs d1 = jobs d" "job_seq d1 = job_seq d"
  shows "job_delta R d (patch_jobs P f d1)"
  using assms
  by (auto simp: job_delta_def patch_jobs_def update_where_def list_all2_conv_all_nth)

lemma job_delta_rows:
  "job_delta R d d' \<Longrightarrow> r' \<in> set (jobs d') \<Longrightarrow> \<exists>r \<in> set (jobs d). r' = r \<or> R r r'"
  by (auto simp: job_delta_def list_all2_conv_all_nth in_set_conv_nth) (metis nth_mem)

lemma job_delta_keys:
  assumes "job_delta R d d'" "\<And>r r'. R r r' \<Longrightarrow> j_job_id r' = j_job_id r \<and> j_id r' = j_id r"
  shows "map j_job_id (jobs d') = map j_job_id (jobs d)" "map j_id (jobs d') = map j_id (jobs d)"
proof -
  have "list_all2 (\<lambda>r r'. j_job_id r' = j_job_id r \<and> j_id r' = j_id r) (jobs d) (jobs d')"
    using assms by (auto simp: job_delta_def elim!: list.rel_mono_strong)
  then show "map j_job_id (jobs d') = map j_job_id (jobs d)" "map j_id (jobs d') = map j_id (jobs d)"
    by (induction rule: list_all2_induct) simp_all
qed

lemma job_delta_wf:
  assumes "jobs_wf d" "job_delta R d d'"
    and "\<And>r r'. R r r' \<Longrightarrow> j_job_id r' = j_job_id r \<and> j_id r' = j_id r"
    and "\<And>r r'. R r r' \<Longrightarrow> job_ok r \<Longrightarrow> job_ok r'"
  shows "jobs_wf d'"
proof -
  have seq: "job_seq d' = job_seq d" using assms(2) by (simp add: job_delta_def)
  have "j_id r' \<le> job_seq d' \<and> job_ok r'" if "r' \<in> set (jobs d')" for r'
  proof -
    from job_delta_rows [OF assms(2) that] obtain r
      where r: "r \<in> set (jobs d)" "r' = r \<or> R r r'" by blast
    from r(1) assms(1) have "j_id r \<le> job_seq d" "job_ok r" by (simp_all add: jobs_wf_def)
    with r(2) assms(3,4) show ?thesis unfolding seq by metis
  qed
  with assms(1) job_delta_keys [OF assms(2,3)] show ?thesis by (simp add: jobs_wf_def)
qed

lemma job_delta_find:
  assumes "job_delta R d d'" "\<And>r r'. R r r' \<Longrightarrow> j_job_id r' = j_job_id r \<and> j_id r' = j_id r"
    and "find_job k d = Some r"
  obtains r' where "find_job k d' = Some r'" "r' = r \<or> R r r'"
proof -
  have "list_all2 (\<lambda>r r'. j_job_id r' = j_job_id r \<and> (r' = r \<or> R r r')) (jobs d) (jobs d')"
    using assms(1,2) by (auto simp: job_delta_def elim!: list.rel_mono_strong)
  then have "\<exists>r'. select_first (\<lambda>r. j_job_id r = k) (jobs d') = Some r' \<and> (r' = r \<or> R r r')"
    using assms(3) unfolding find_job_def
    by (induction arbitrary: rule: list_all2_induct) (auto split: if_splits)
  then show thesis using that by (auto simp: find_job_def)
qed

text \<open>The stale instances a session may hold are old rows, so they satisfy the invariant.\<close>

definition cache_ok :: "session \<Rightarrow> bool" where
  "cache_ok s \<longleftrightarrow> (\<forall>k c. job_cache s k = Some c \<longrightarrow> job_ok c)"

lemma cache_ok_open [simp]: "cache_ok (open_session d)"
  by (simp add: cache_ok_def open_session_def)

lemma snapshot_ok:
  assumes "quiet s" "jobs_wf (committed s)" "cache_ok s" "orm_job (opened s) k = Some c"
  shows "job_ok c"
  using assms(1,4)
proof (rule orm_job_opened)
  fix r assume "find_job k (committed s) = Some r" "c = r \<or> job_cache s k = Some c"
  with assms(2,3) show ?thesis
    by (auto simp: cache_ok_def dest: find_job_in jobs_wf_job_ok)
qed

lemma exit_db_update:
  assumes "exit_db x c = c" "\<And>d'. exit_db (y d') c = d'" "jobs d = jobs c" "job_seq d = job_seq c"
    and "\<And>r. r \<in> set (jobs c) \<Longrightarrow> P r \<Longrightarrow> R r (f r)"
  shows "job_delta R c
    (exit_db (case update_returning P f d of None \<Rightarrow> x | Some d' \<Rightarrow> y d') c)"
  using assms by (simp add: update_returning_def job_delta_patch)

lemma owned_row_live: "owned_row job owner now r \<Longrightarrow> lease_live owner now r"
  by (simp add: owned_row_def)

lemma owned_row_status: "owned_row job owner now r \<Longrightarrow> j_status r = j_status job"
  by (simp add: owned_row_def)

lemma validate_ok: "validate_transition a b = Inr u \<Longrightarrow> is_valid_transition a b"
  by (simp add: validate_transition_def split: if_splits)

lemma delta_orm:
  assumes "orm_job s k = None \<Longrightarrow> exit_db a c = c"
    and "\<And>job. orm_job s k = Some job \<Longrightarrow> job_delta R c (exit_db (b job) c)"
  shows "job_delta R c (exit_db (case orm_job s k of None \<Rightarrow> a | Some job \<Rightarrow> b job) c)"
  using assms by (cases "orm_job s k") simp_all

lemma delta_validate:
  assumes "is_valid_transition a b \<Longrightarrow> job_delta R c (exit_db y c)"
  shows "job_delta R c
    (exit_db (case validate_transition a b of Inl e \<Rightarrow> Raise e | Inr u \<Rightarrow> y) c)"
  using assms by (simp add: validate_transition_def)

lemma delta_update:
  assumes "quiet s" "exit_db x (committed s) = committed s"
    and "\<And>d'. exit_db (y d') (committed s) = d'"
    and "jobs d = jobs (committed s)" "job_seq d = job_seq (committed s)"
    and "\<And>r. r \<in> set (jobs (committed s)) \<Longrightarrow> P r \<Longrightarrow> R r (f r)"
  shows "job_delta R (committed s)
    (exit_db (case update_returning P f d of None \<Rightarrow> x | Some d' \<Rightarrow> y d') (committed s))"
  using assms by (simp add: update_returning_def job_delta_patch)

lemma delta_write_tx:
  assumes "quiet s" "job_delta R (committed s) (exit_db (body (opened s)) (committed s))"
  shows "job_delta R (committed s) (committed (snd (write_tx body s)))"
  using assms by (simp add: committed_write_tx quiet_startable)

lemma advance_job_delta:
  assumes q: "quiet s" and wf: "jobs_wf (committed s)" and ok: "cache_ok s"
  shows "job_delta (row_write (Some owner) now) (committed s)
    (committed (snd (advance_job k owner st now ls None pr s)))"
  unfolding advance_job_def Let_def
  apply (rule delta_write_tx [OF q], rule delta_orm, simp, rule delta_validate,
      rule delta_update [OF q])
  subgoal by simp
  subgoal by simp
  subgoal by (simp add: quiet_working [OF q])
  subgoal by (simp add: quiet_working [OF q])
  subgoal premises prems for job r
    using owned_row_live [OF prems(4)] owned_row_status [OF prems(4)]
      snapshot_ok [OF q wf ok prems(1)] prems(2)
    by (intro row_write.advance) (simp_all add: same_request_def job_ok_def)
  done

lemma commit_artifact_delta:
  assumes q: "quiet s" and wf: "jobs_wf (committed s)" and ok: "cache_ok s"
  shows "job_delta (row_write (Some owner) now) (committed s)
    (committed (snd (commit_artifact_and_advance k owner st now ls sg ty fp sv sk pj rp ch bs pr s)))"
  unfolding commit_artifact_and_advance_def Let_def
  apply (rule delta_write_tx [OF q], rule delta_orm, simp, rule delta_validate,
      rule delta_update [OF q])
  subgoal by simp
  subgoal by simp
  subgoal by (simp add: quiet_working [OF q] insert_artifact_def)
  subgoal by (simp add: quiet_working [OF q] insert_artifact_def)
  subgoal premises prems for job r
    using owned_row_live [OF prems(4)] owned_row_status [OF prems(4)]
      snapshot_ok [OF q wf ok prems(1)] prems(2)
    by (intro row_write.advance) (simp_all add: same_request_def job_ok_def)
  done

lemma mark_failure_delta:
  assumes q: "quiet s"
  shows "job_delta (row_write (Some owner) now) (committed s)
    (committed (snd (mark_failure k owner now ec rt nr ed s)))"
  unfolding mark_failure_def Let_def
  apply (rule delta_write_tx [OF q], rule delta_orm, simp, rule delta_validate,
      rule delta_update [OF q])
  subgoal by simp
  subgoal by simp
  subgoal by (simp add: quiet_working [OF q])
  subgoal by (simp add: quiet_working [OF q])
  subgoal premises prems for job r
    using owned_row_live [OF prems(4)] owned_row_status [OF prems(4)] prems(2)
    by (intro row_write.failure) simp_all
  done

lemma mark_cancelled_delta:
  assumes q: "quiet s"
  shows "job_delta (row_write (Some owner) now) (committed s)
    (committed (snd (mark_cancelled k owner now s)))"
  unfolding mark_cancelled_def
  apply (rule delta_write_tx [OF q], rule delta_orm, simp, rule delta_update [OF q])
  subgoal by simp
  subgoal by simp
  subgoal by (simp add: quiet_working [OF q])
  subgoal by (simp add: quiet_working [OF q])
  subgoal premises prems for job r
    using owned_row_live [OF prems(3)] by (rule row_write.cancelled)
  done

lemma lease_live_expiry: "lease_live owner now r \<Longrightarrow> \<exists>e. j_lease_expires_at r = Some e"
  by (auto simp: lease_live_def split: option.splits)

lemma pin_delta:
  assumes q: "quiet s"
  shows "job_delta (row_write (Some owner) now) (committed s)
    (committed (snd (pin_job_asr_route k owner now p m v rec s)))"
  unfolding pin_job_asr_route_def
  apply (rule delta_write_tx [OF q], rule delta_orm, simp, rule delta_update [OF q])
  subgoal by simp
  subgoal by simp
  subgoal by (simp add: quiet_working [OF q])
  subgoal by (simp add: quiet_working [OF q])
  subgoal premises prems for job r
    using prems(3) lease_live_expiry [of owner now r]
    by (intro row_write.owned) (auto simp: same_request_def)
  done

lemma renew_delta:
  assumes q: "quiet s"
  shows "job_delta (row_write (Some owner) now) (committed s)
    (committed (snd (renew_lease k owner now ls s)))"
  unfolding renew_lease_def
  apply (rule delta_write_tx [OF q], rule delta_update [OF q])
  subgoal by simp
  subgoal by simp
  subgoal by (simp add: quiet_working [OF q])
  subgoal by (simp add: quiet_working [OF q])
  subgoal premises prems for r
    using prems(2) by (intro row_write.owned) (simp_all add: same_request_def)
  done

lemma save_artifact_delta:
  assumes q: "quiet s"
  shows "job_delta (row_write (Some owner) now) (committed s)
    (committed (snd (save_artifact_inline k owner now sg ty fp sv pj s)))"
proof -
  have "job_delta (row_write (Some owner) now) (committed s)
      (patch_jobs (\<lambda>r. j_job_id r = k \<and> lease_live owner now r)
         (\<lambda>r. r\<lparr>j_updated_at := j_updated_at r\<rparr>) (committed s))" (is "job_delta _ _ ?d")
    by (rule job_delta_patch)
      (auto intro!: row_write.owned simp: same_request_def dest: lease_live_expiry)
  then have "job_delta (row_write (Some owner) now) (committed s) (?d\<lparr>artifacts := x, artifact_seq := y\<rparr>)"
    "job_delta (row_write (Some owner) now) (committed s) (?d\<lparr>artifacts := x\<rparr>)" for x y
    by (simp_all add: job_delta_def)
  then show ?thesis
    unfolding save_artifact_inline_def
    by (intro delta_write_tx [OF q])
      (simp add: update_returning_def quiet_working [OF q] insert_artifact_def split: option.split)
qed

lemma exit_db_sweep [simp]: "exit_db (sweep P f s) c = patch_jobs P f (working s)"
  by (simp add: sweep_def Let_def)

lemma recover_delta:
  assumes q: "quiet s"
  shows "job_delta (row_write None now) (committed s) (committed (snd (recover_stale_jobs now s)))"
  unfolding recover_stale_jobs_def
  by (rule delta_write_tx [OF q])
    (auto simp: quiet_working [OF q] intro!: job_delta_patch row_write.release)

lemma land_delta:
  assumes q: "quiet s"
  shows "job_delta (row_write None now) (committed s)
    (committed (snd (land_dangling_cancellations now s)))"
  unfolding land_dangling_cancellations_def
  by (rule delta_write_tx [OF q])
    (auto simp: quiet_working [OF q] intro!: job_delta_patch row_write.land)

lemma fail_exhausted_delta:
  assumes q: "quiet s"
  shows "job_delta (\<lambda>r r'. exhausted r \<and> r' = failed_row now r) (committed s)
    (committed (snd (fail_exhausted_retries now s)))"
  unfolding fail_exhausted_retries_def
  by (rule delta_write_tx [OF q], unfold exit_db_sweep quiet_working [OF q], rule job_delta_patch)
    (simp_all add: exhausted_def failed_row_def)

lemma resume_delta:
  assumes q: "quiet s"
  shows "job_delta (row_write None now) (committed s)
    (committed (snd (resume_waiting_jobs m now s)))"
  unfolding resume_waiting_jobs_def Let_def
  by (rule delta_write_tx [OF q])
    (auto simp: quiet_working [OF q] intro!: job_delta_patch row_write.resume)

lemma request_cancellation_delta:
  assumes q: "quiet s"
  shows "job_delta (row_write None now) (committed s)
    (committed (snd (request_cancellation k now s)))"
  unfolding request_cancellation_def Let_def
  apply (rule delta_write_tx [OF q], rule delta_orm, simp)
  subgoal for job
    apply (cases "j_status job \<in> TERMINAL_JOB_STATUSES", simp)
    apply (subst if_not_P, assumption, rule delta_update [OF q])
    subgoal by simp
    subgoal by simp
    subgoal by (simp add: quiet_working [OF q])
    subgoal by (simp add: quiet_working [OF q])
    subgoal premises prems for r
    proof (cases "j_status job \<in> {QUEUED, RETRY_WAIT, WAITING_FOR_MODEL}")
      case True
      with prems show ?thesis by (simp add: row_write.cancel_parked)
    next
      case False
      then have "j_status r \<in> RUNNING_STATES"
        using prems by (cases "j_status r" rule: status_classes) auto
      with False show ?thesis by (simp add: row_write.cancel_flag)
    qed
    done
  done

section \<open>A claim round\<close>

text \<open>
  A candidate that cannot be claimed leaves the database and the session as good as new,
  so the round goes on with the next one.
\<close>

definition all_claimable :: "time \<Rightarrow> string list \<Rightarrow> database \<Rightarrow> bool" where
  "all_claimable now ks d \<longleftrightarrow> (\<forall>k \<in> set ks. \<forall>r. find_job k d = Some r \<longrightarrow> claimable_where now r)"

lemma claim_job_body:
  assumes q: "quiet s"
  shows "claim_job k owner ls now s = leave_tx
    (case orm_job (opened s) k of
       None \<Rightarrow> Leave None
     | Some job \<Rightarrow>
         if \<not> is_claimable job now then Leave None
         else
           let (new_status, new_stage) = claim_status job
           in case update_returning
                     (\<lambda>r. j_id r = j_id job \<and> j_status r = j_status job \<and>
                          j_lease_expires_at r = j_lease_expires_at job)
                     (\<lambda>r. r\<lparr>j_status := new_status, j_stage := new_stage,
                           j_lease_owner := Some owner,
                           j_lease_expires_at := Some (now + ls),
                           j_attempt := j_attempt r + 1, j_updated_at := now\<rparr>)
                     (committed s) of
                None \<Rightarrow> RollbackDone None
              | Some d \<Rightarrow> CommitRead d {k} {} (\<lambda>d'. Inr (find_job k d')))
    (opened s)"
  unfolding claim_job_def write_tx_ok [OF quiet_startable [OF q]] quiet_working [OF q] ..

lemma claim_job_none:
  assumes "quiet s" "cache_ok s" "claim_job k owner ls now s = (Inr None, s')"
    and "find_job k (committed s) \<noteq> None"
  shows "quiet s' \<and> cache_ok s' \<and> committed s' = committed s"
proof -
  have keep: "quiet (opened s) \<and> cache_ok (opened s) \<and> committed (opened s) = committed s"
    using assms(1,2) by (simp add: quiet_opened cache_ok_def committed_opened quiet_startable)
  have roll: "quiet (rollback_tx (opened s)) \<and> cache_ok (rollback_tx (opened s)) \<and>
      committed (rollback_tx (opened s)) = committed s"
    using assms(1) quiet_rollback [OF assms(1)]
    by (simp add: cache_ok_def rollback_tx_def committed_opened quiet_startable)
  have found: "find_job k d' \<noteq> None"
    if "update_returning P f (committed s) = Some d'" "\<And>r. j_job_id (f r) = j_job_id r" for P f d'
    using assms(4) that
    by (auto simp: update_returning_def job_store.lookup_patch split: if_splits)
  show ?thesis
  proof (cases "orm_job (opened s) k")
    case None
    with assms(3) keep show ?thesis by (auto simp: claim_job_body [OF assms(1)])
  next
    case (Some job)
    note body = assms(3) [unfolded claim_job_body [OF assms(1)] Some option.case Let_def]
    show ?thesis
    proof (cases "is_claimable job now")
      case True
      with body keep roll show ?thesis
        by (auto split: option.splits prod.splits dest!: found)
    next
      case False
      with body keep show ?thesis by auto
    qed
  qed
qed

lemma claim_status_running:
  assumes "is_claimable job now" "job_ok job" "claim_status job = (st, sg)"
  shows "j_status job = WAITING_FOR_MODEL \<or>
    st \<in> RUNNING_STATES \<and> sg = Some st \<and>
    (is_valid_transition (j_status job) st \<or> st = j_status job)"
  using assms
  by (cases "j_status job" rule: status_classes)
    (auto simp: claim_status_def is_claimable_def job_ok_def is_valid_transition_def
      build_allowed_idle Let_def running_not_terminal split: option.splits if_splits)

lemma claim_job_delta:
  assumes q: "quiet s" and wf: "jobs_wf (committed s)" and ok: "cache_ok s"
    and cl: "\<And>r. find_job k (committed s) = Some r \<Longrightarrow> claimable_where now r"
  shows "job_delta (row_write (Some owner) now) (committed s)
    (committed (snd (claim_job k owner ls now s)))"
  unfolding claim_job_def Let_def
  apply (rule delta_write_tx [OF q], rule delta_orm, simp)
  subgoal for job
    apply (cases "is_claimable job now"; cases "claim_status job"; simp)
    apply (rule delta_update [OF q])
    subgoal by simp
    subgoal by simp
    subgoal by (simp add: quiet_working [OF q])
    subgoal by (simp add: quiet_working [OF q])
    subgoal premises prems for st sg r
    proof -
      from orm_job_opened [OF q prems(1)] obtain r0
        where r0: "find_job k (committed s) = Some r0" "j_id job = j_id r0" by blast
      have "r = r0"
        using jobs_wf_same_id [OF wf prems(4)] find_job_in [OF r0(1)] prems(5) r0(2) by simp
      with cl [OF r0(1)] have c: "claimable_where now r" by simp
      then have "j_status job \<noteq> WAITING_FOR_MODEL"
        using prems(5) by (auto simp: claimable_where_def)
      with claim_status_running [OF prems(2) snapshot_ok [OF q wf ok prems(1)] prems(3)]
      have "st \<in> RUNNING_STATES" "sg = Some st"
        "is_valid_transition (j_status r) st \<or> st = j_status r"
        using prems(5) by auto
      then show ?thesis using row_write.claim [OF c, of st owner "now + ls"] by simp
    qed
    done
  done

lemma claim_first_delta:
  assumes "quiet s" "jobs_wf (committed s)" "cache_ok s" "all_claimable now ks (committed s)"
    and "\<And>k. k \<in> set ks \<Longrightarrow> find_job k (committed s) \<noteq> None"
  shows "job_delta (row_write (Some owner) now) (committed s)
    (committed (snd (claim_first ks owner ls now s)))"
  using assms
proof (induction ks arbitrary: s)
  case Nil
  then show ?case by simp
next
  case (Cons k ks)
  have d: "job_delta (row_write (Some owner) now) (committed s)
      (committed (snd (claim_job k owner ls now s)))"
    using Cons.prems by (intro claim_job_delta) (simp_all add: all_claimable_def)
  obtain res s' where c: "claim_job k owner ls now s = (res, s')" by fastforce
  show ?case
  proof (cases "res = Inr None")
    case True
    with c claim_job_none [OF Cons.prems(1,3)] Cons.prems(5)
    have s': "quiet s'" "cache_ok s'" "committed s' = committed s" by auto
    with Cons.IH [of s'] Cons.prems c True show ?thesis by (simp add: all_claimable_def)
  next
    case False
    with c d show ?thesis by (auto split: sum.splits option.splits)
  qed
qed

lemma set_claim_candidates:
  "r \<in> set (claim_candidates now d) \<Longrightarrow> r \<in> set (jobs d) \<and> claimable_where now r"
  unfolding claim_candidates_def
  using set_page [of 16 0 "sort_key (\<lambda>r. (j_created_at r, j_id r)) (filter (claimable_where now) (jobs d))"]
  by auto

lemma claim_next_job_delta:
  assumes q: "quiet s" and wf: "jobs_wf (committed s)" and ok: "cache_ok s"
  shows "job_delta (row_write (Some owner) now) (committed s)
    (committed (snd (claim_next_job owner ls now s)))"
proof -
  let ?ks = "map j_job_id (claim_candidates now (committed s))"
  have f: "find_job (j_job_id r) (committed s) = Some r" if "r \<in> set (jobs (committed s))" for r
    using find_job_unique [OF jobs_wf_unique [OF wf] that] .
  have "job_delta (row_write (Some owner) now) (committed (opened s))
      (committed (snd (claim_first ?ks owner ls now (opened s))))"
    using q wf ok f
    by (intro claim_first_delta)
      (auto simp: quiet_opened committed_opened quiet_startable cache_ok_def all_claimable_def
        dest: set_claim_candidates)
  then show ?thesis
    by (simp add: claim_next_job_def ensure_immediate_ok quiet_startable [OF q]
        quiet_working [OF q] committed_opened)
qed

end
