(* ===== verification/JobRuns.thy ===== *)
theory JobRuns
  imports JobSteps
begin

text \<open>
  Runs of repository calls by any number of workers, clients and startup sweeps. A step is
  one call made through some session; the session's identity map may hold arbitrary stale
  instances of the rows. The theorems say what every such run keeps.
\<close>

section \<open>Calls and runs\<close>

text \<open>
  One constructor per writing call. Every caller in the program leaves the \<open>stage\<close>
  argument of \<open>advance_job\<close> at its default.
\<close>

datatype call =
    Enqueue string utext string string time job_status string string "string option" int int
      "time option"
  | ClaimNext string time time
  | RecoverStale time
  | FailExhausted time
  | LandDangling time
  | Advance string string job_status time time "int option"
  | MarkFailure string string time string bool "time option" "string option"
  | MarkCancelled string string time
  | PinRoute string string time string string string "string option"
  | RenewLease string string time time
  | ResumeWaiting string time
  | RequestCancel string time
  | CommitArtifact string string job_status time time string string string int string
      "string option" "string option" "string option" "int option" "int option"
  | SaveArtifact string string time string string string int string

fun exec :: "call \<Rightarrow> session \<Rightarrow> session" where
  "exec (Enqueue k url rf cf now st mo asr la ma att nr) s =
     snd (enqueue_job k url rf cf now st mo asr la ma att nr s)"
| "exec (ClaimNext owner ls now) s = snd (claim_next_job owner ls now s)"
| "exec (RecoverStale now) s = snd (recover_stale_jobs now s)"
| "exec (FailExhausted now) s = snd (fail_exhausted_retries now s)"
| "exec (LandDangling now) s = snd (land_dangling_cancellations now s)"
| "exec (Advance k owner st now ls pr) s = snd (advance_job k owner st now ls None pr s)"
| "exec (MarkFailure k owner now ec rt nr ed) s = snd (mark_failure k owner now ec rt nr ed s)"
| "exec (MarkCancelled k owner now) s = snd (mark_cancelled k owner now s)"
| "exec (PinRoute k owner now p m v rec) s = snd (pin_job_asr_route k owner now p m v rec s)"
| "exec (RenewLease k owner now ls) s = snd (renew_lease k owner now ls s)"
| "exec (ResumeWaiting m now) s = snd (resume_waiting_jobs m now s)"
| "exec (RequestCancel k now) s = snd (request_cancellation k now s)"
| "exec (CommitArtifact k owner st now ls sg ty fp sv sk pj rp ch bs pr) s =
     snd (commit_artifact_and_advance k owner st now ls sg ty fp sv sk pj rp ch bs pr s)"
| "exec (SaveArtifact k owner now sg ty fp sv pj) s =
     snd (save_artifact_inline k owner now sg ty fp sv pj s)"

text \<open>The worker a call names, and the instant it is made at.\<close>

fun actor :: "call \<Rightarrow> string option" where
  "actor (ClaimNext owner ls now) = Some owner"
| "actor (Advance k owner st now ls pr) = Some owner"
| "actor (MarkFailure k owner now ec rt nr ed) = Some owner"
| "actor (MarkCancelled k owner now) = Some owner"
| "actor (PinRoute k owner now p m v rec) = Some owner"
| "actor (RenewLease k owner now ls) = Some owner"
| "actor (CommitArtifact k owner st now ls sg ty fp sv sk pj rp ch bs pr) = Some owner"
| "actor (SaveArtifact k owner now sg ty fp sv pj) = Some owner"
| "actor _ = None"

fun call_time :: "call \<Rightarrow> time" where
  "call_time (Enqueue k url rf cf now st mo asr la ma att nr) = now"
| "call_time (ClaimNext owner ls now) = now"
| "call_time (RecoverStale now) = now"
| "call_time (FailExhausted now) = now"
| "call_time (LandDangling now) = now"
| "call_time (Advance k owner st now ls pr) = now"
| "call_time (MarkFailure k owner now ec rt nr ed) = now"
| "call_time (MarkCancelled k owner now) = now"
| "call_time (PinRoute k owner now p m v rec) = now"
| "call_time (RenewLease k owner now ls) = now"
| "call_time (ResumeWaiting m now) = now"
| "call_time (RequestCancel k now) = now"
| "call_time (CommitArtifact k owner st now ls sg ty fp sv sk pj rp ch bs pr) = now"
| "call_time (SaveArtifact k owner now sg ty fp sv pj) = now"

text \<open>A job is enqueued with at most as many attempts behind it as it may have.\<close>

fun call_ok :: "call \<Rightarrow> bool" where
  "call_ok (Enqueue k url rf cf now st mo asr la ma att nr) = (att \<le> ma)"
| "call_ok _ = True"

fun sweeps_exhausted :: "call \<Rightarrow> bool" where
  "sweeps_exhausted (FailExhausted now) = True"
| "sweeps_exhausted _ = False"

fun enqueues :: "call \<Rightarrow> bool" where
  "enqueues (Enqueue k url rf cf now st mo asr la ma att nr) = True"
| "enqueues _ = False"

inductive call_step :: "call \<Rightarrow> database \<Rightarrow> database \<Rightarrow> bool" where
  call: "quiet s \<Longrightarrow> cache_ok s \<Longrightarrow> call_ok c \<Longrightarrow> call_step c (committed s) (committed (exec c s))"

inductive_cases call_stepE: "call_step c d d'"

fun call_run :: "call list \<Rightarrow> database \<Rightarrow> database \<Rightarrow> bool" where
  "call_run [] d d' = (d' = d)"
| "call_run (c # cs) d d' = (\<exists>d1. call_step c d d1 \<and> call_run cs d1 d')"

lemma call_step_open:
  "call_ok c \<Longrightarrow> call_step c d (committed (exec c (open_session d)))"
  using call_step.call [of "open_session d" c] by (simp add: idle_quiet)

text \<open>One step, classified.\<close>

lemma enqueue_cases:
  assumes "quiet s"
  shows "committed (exec (Enqueue k url rf cf now st mo asr la ma att nr) s) =
    (if find_job k (committed s) \<noteq> None then committed s
     else insert_job (\<lambda>i. new_job i k url rf cf now st mo asr la ma att nr) (committed s))"
  using assms
  by (simp add: enqueue_job_def committed_write_tx quiet_startable quiet_working)

lemma call_step_classes:
  assumes "call_step c d d'" "jobs_wf d"
  obtains "job_delta (row_write (actor c) (call_time c)) d d'"
  | k mk where "actor c = None" "find_job k d = None" "d' = insert_job mk d"
      "\<And>i. j_job_id (mk i) = k" "\<And>i. j_id (mk i) = i" "\<And>i. job_ok (mk i)" "enqueues c"
  | "sweeps_exhausted c"
      "job_delta (\<lambda>r r'. exhausted r \<and> r' = failed_row (call_time c) r) d d'"
  using assms(1)
proof (rule call_stepE)
  fix s assume s: "d = committed s" "d' = committed (exec c s)" "quiet s" "cache_ok s" "call_ok c"
  have wf: "jobs_wf (committed s)" using assms(2) s(1) by simp
  note deltas = advance_job_delta commit_artifact_delta mark_failure_delta mark_cancelled_delta
    pin_delta renew_delta save_artifact_delta recover_delta land_delta resume_delta
    request_cancellation_delta claim_next_job_delta
  show thesis
  proof (cases c)
    case (Enqueue k url rf cf now st mo asr la ma att nr)
    show thesis
    proof (cases "find_job k d = None")
      case True
      with s Enqueue show thesis
        by (intro that(2) [of k "\<lambda>i. new_job i k url rf cf now st mo asr la ma att nr"])
          (simp_all only: enqueue_cases actor.simps if_False simp_thms,
           simp_all add: new_job_def job_ok_new_job [unfolded new_job_def])
    next
      case False
      with s Enqueue show thesis by (intro that(1)) (simp only: enqueue_cases if_True simp_thms, simp)
    qed
  next
    case (FailExhausted now)
    with s show thesis by (intro that(3)) (simp_all add: fail_exhausted_delta)
  qed (use s wf that(1) deltas in auto)
qed

end
