(* ===== verification/JobTheorems.thy ===== *)
theory JobTheorems
  imports JobRuns
begin

text \<open>
  What every run of the job repository keeps, and what each of its operations does exactly.
  The run theorems quantify over sessions whose identity maps are arbitrarily stale; the
  functional theorems say which row an operation writes, to what, and that it writes
  nothing else.
\<close>

section \<open>Runs\<close>

lemma jobs_wf_insert:
  assumes "jobs_wf d" "find_job k d = None" "\<And>i. j_job_id (mk i) = k" "\<And>i. j_id (mk i) = i"
    "\<And>i. job_ok (mk i)"
  shows "jobs_wf (insert_job mk d)"
proof -
  have "k \<notin> j_job_id ` set (jobs d)"
    using assms(2) by (auto simp: find_job_def select_first_None_iff)
  moreover have "Suc (job_seq d) \<notin> j_id ` set (jobs d)"
    using assms(1) by (fastforce simp: jobs_wf_def)
  ultimately show ?thesis using assms(1,3-5) by (auto simp: jobs_wf_def insert_job_def le_SucI)
qed

lemma find_job_insert:
  "find_job k d = Some r \<Longrightarrow> find_job k (insert_job mk d) = Some r"
  by (simp add: find_job_def insert_job_def select_first_append)

lemma call_step_wf:
  assumes "call_step c d d'" "jobs_wf d"
  shows "jobs_wf d'"
  using assms
proof (rule call_step_classes)
  assume "job_delta (row_write (actor c) (call_time c)) d d'"
  with assms(2) show ?thesis
    by (rule job_delta_wf) (auto dest: row_write_keys intro: row_write_ok)
next
  assume "job_delta (\<lambda>r r'. exhausted r \<and> r' = failed_row (call_time c) r) d d'"
  with assms(2) show ?thesis
    by (rule job_delta_wf) (auto simp: failed_row_def intro: failed_row_ok [unfolded failed_row_def])
qed (auto intro: jobs_wf_insert assms(2))

text \<open>What one step does to one existing row.\<close>

lemma call_step_row:
  assumes "call_step c d d'" "jobs_wf d" "find_job k d = Some r"
  obtains r' where "find_job k d' = Some r'"
    "r' = r \<or> row_write (actor c) (call_time c) r r' \<or>
     sweeps_exhausted c \<and> exhausted r \<and> r' = failed_row (call_time c) r"
  using assms(1,2)
proof (rule call_step_classes)
  assume "job_delta (row_write (actor c) (call_time c)) d d'"
  then show thesis by (rule job_delta_find [OF _ row_write_keys assms(3)]) (auto intro: that)
next
  assume s: "sweeps_exhausted c"
    and d: "job_delta (\<lambda>r r'. exhausted r \<and> r' = failed_row (call_time c) r) d d'"
  from d show thesis
    by (rule job_delta_find [OF _ _ assms(3)]) (auto simp: failed_row_def s intro: that)
next
  fix mk assume "d' = insert_job mk d"
  with assms(3) show thesis by (intro that [of r]) (simp_all add: find_job_insert)
qed

text \<open>Induction over a run for a fact about one row.\<close>

lemma call_run_row:
  assumes "call_run cs d d'" "jobs_wf d" "find_job k d = Some r" "I r"
    and step: "\<And>c r r'. c \<in> set cs \<Longrightarrow> job_ok r \<Longrightarrow> I r \<Longrightarrow>
      row_write (actor c) (call_time c) r r' \<or>
      sweeps_exhausted c \<and> exhausted r \<and> r' = failed_row (call_time c) r \<Longrightarrow> I r'"
  shows "\<exists>r'. find_job k d' = Some r' \<and> I r'"
  using assms
proof (induction cs arbitrary: d r)
  case Nil
  then show ?case by simp
next
  case (Cons c cs)
  from Cons.prems(1) obtain d1 where d1: "call_step c d d1" "call_run cs d1 d'" by auto
  from d1(1) Cons.prems(2,3) obtain r1 where r1: "find_job k d1 = Some r1"
    "r1 = r \<or> row_write (actor c) (call_time c) r r1 \<or>
     sweeps_exhausted c \<and> exhausted r \<and> r1 = failed_row (call_time c) r"
    by (rule call_step_row)
  have "job_ok r" using jobs_wf_job_ok [OF Cons.prems(2)] find_job_in [OF Cons.prems(3)] by simp
  with r1(2) Cons.prems(4) Cons.prems(5) [of c r r1] have "I r1" by auto
  with Cons.IH [OF d1(2) call_step_wf [OF d1(1) Cons.prems(2)] r1(1)] Cons.prems(5)
  show ?case by (meson list.set_intros(2))
qed

lemma call_run_append:
  "call_run (cs @ cs') d d' \<longleftrightarrow> (\<exists>d1. call_run cs d d1 \<and> call_run cs' d1 d')"
  by (induction cs arbitrary: d) auto

lemma call_run_wf: "call_run cs d d' \<Longrightarrow> jobs_wf d \<Longrightarrow> jobs_wf d'"
  by (induction cs arbitrary: d) (auto intro: call_step_wf)

text \<open>A database with one job, for the concrete runs below.\<close>

definition sample_job :: "string \<Rightarrow> job_status \<Rightarrow> string option \<Rightarrow> time option \<Rightarrow> job" where
  "sample_job k st owner expiry =
     (new_job 1 k (codes ''https://example.org/v'') ''rf'' ''cf'' 0 st ''deep'' ''auto'' None 3 1 None)
       \<lparr>j_lease_owner := owner, j_lease_expires_at := expiry\<rparr>"

definition sample_db :: "job \<Rightarrow> database" where
  "sample_db r = empty_database\<lparr>jobs := [r], job_seq := 1\<rparr>"

lemma sample_find [simp]: "find_job k (sample_db r) = (if j_job_id r = k then Some r else None)"
  by (simp add: sample_db_def find_job_def)

lemma sample_fields [simp]:
  "j_id (sample_job k st ow ex) = 1" "j_job_id (sample_job k st ow ex) = k"
  "j_status (sample_job k st ow ex) = st" "j_lease_owner (sample_job k st ow ex) = ow"
  "j_lease_expires_at (sample_job k st ow ex) = ex" "j_attempt (sample_job k st ow ex) = 1"
  "j_max_attempts (sample_job k st ow ex) = 3"
  "j_cancel_requested_at (sample_job k st ow ex) = None"
  by (simp_all add: sample_job_def new_job_def)

lemma sample_wf:
  "j_id r = 1 \<Longrightarrow> job_ok r \<Longrightarrow> jobs_wf (sample_db r)"
  by (simp add: jobs_wf_def sample_db_def)

lemma sample_job_ok:
  "st \<in> RUNNING_STATES \<Longrightarrow> ow = None \<longleftrightarrow> ex = None \<Longrightarrow> job_ok (sample_job k st ow ex)"
  by (cases st rule: status_classes)
    (auto simp: job_ok_def sample_job_def new_job_def running_not_terminal)

section \<open>The run theorems\<close>

text \<open>
  C1. Every run of repository calls keeps the jobs table well formed, whatever stale
  instances the sessions hold: job ids and row ids are unique, an owner and an expiry come
  together, terminal and queued jobs carry no lease, no job has used more attempts than it
  may, and a running job's stage is its status.
\<close>
theorem jobs_invariant:
  assumes "jobs_wf d" "call_run cs d d'"
  shows "jobs_wf d'"
  using call_run_wf assms by blast

definition cancelled_midway :: database where
  "cancelled_midway = committed (exec (RequestCancel ''a'' 2)
     (open_session (sample_db (sample_job ''a'' TRANSCRIBING (Some ''w'') (Some 5)))))"

lemma cancel_step:
  "call_step (RequestCancel ''a'' 2) (sample_db (sample_job ''a'' TRANSCRIBING (Some ''w'') (Some 5)))
     cancelled_midway"
  using call_step_open [of "RequestCancel ''a'' 2"] by (simp add: cancelled_midway_def)

lemma cancel_run:
  "call_run [RequestCancel ''a'' 2] (sample_db (sample_job ''a'' TRANSCRIBING (Some ''w'') (Some 5)))
     cancelled_midway"
  by (simp add: cancel_step)

theorem jobs_invariant_witness: "jobs_wf cancelled_midway"
  by (rule jobs_invariant [OF sample_wf [OF _ sample_job_ok] cancel_run]) simp_all

text \<open>
  C3. No run loses a job or changes the request it stands for, and a job in a terminal state
  is frozen: whatever workers, clients and sweeps do afterwards, its row never changes.
\<close>
theorem terminal_rows_frozen:
  assumes "jobs_wf d" "call_run cs d d'" "find_job k d = Some r"
  shows "\<exists>r'. find_job k d' = Some r' \<and> same_request r r' \<and>
    (j_status r \<in> TERMINAL_JOB_STATUSES \<longrightarrow> r' = r)"
proof (rule call_run_row [OF assms(2,1,3)])
  show "same_request r r \<and> (j_status r \<in> TERMINAL_JOB_STATUSES \<longrightarrow> r = r)"
    by (simp add: same_request_def)
next
  fix c r1 r2
  assume ok: "job_ok r1"
    and I: "same_request r r1 \<and> (j_status r \<in> TERMINAL_JOB_STATUSES \<longrightarrow> r1 = r)"
    and step: "row_write (actor c) (call_time c) r1 r2 \<or>
      sweeps_exhausted c \<and> exhausted r1 \<and> r2 = failed_row (call_time c) r1"
  from step have "same_request r1 r2"
    by (auto simp: same_request_def failed_row_def dest: row_write_request [unfolded same_request_def])
  moreover from step ok have "j_status r1 \<notin> TERMINAL_JOB_STATUSES"
    by (auto simp: exhausted_def running_not_terminal dest: row_write_terminal)
  ultimately show "same_request r r2 \<and> (j_status r \<in> TERMINAL_JOB_STATUSES \<longrightarrow> r2 = r)"
    using I by (auto simp: same_request_def)
qed

definition finished_db :: database where
  "finished_db = sample_db (sample_job ''a'' COMPLETED None None)"

lemma finished_run:
  "call_run [ClaimNext ''w'' 30 7, RequestCancel ''a'' 2] finished_db
     (committed (exec (RequestCancel ''a'' 2)
        (open_session (committed (exec (ClaimNext ''w'' 30 7) (open_session finished_db))))))"
  unfolding call_run.simps
  by (rule exI, rule conjI, rule call_step_open, simp, rule exI, rule conjI,
      rule call_step_open, simp, rule refl)

theorem terminal_rows_frozen_witness:
  "find_job ''a'' (committed (exec (RequestCancel ''a'' 2)
      (open_session (committed (exec (ClaimNext ''w'' 30 7) (open_session finished_db)))))) =
   Some (sample_job ''a'' COMPLETED None None)"
proof -
  have "jobs_wf finished_db"
    unfolding finished_db_def by (rule sample_wf) (simp_all add: job_ok_def sample_job_def new_job_def)
  from terminal_rows_frozen [OF this finished_run, of "''a''" "sample_job ''a'' COMPLETED None None"]
  show ?thesis by (simp add: finished_db_def)
qed

text \<open>
  Every status change any call makes is a transition of the table, or lands a
  cancellation on a job that is not finished, or is the startup sweep failing a job that has
  used up its attempts.
\<close>
theorem status_changes_conform:
  assumes "jobs_wf d" "call_step c d d'" "find_job k d = Some r"
  shows "\<exists>r'. find_job k d' = Some r' \<and>
    (j_status r' = j_status r \<or> is_valid_transition (j_status r) (j_status r') \<or>
     j_status r' = CANCELLED \<and> j_status r \<notin> TERMINAL_JOB_STATUSES \<or>
     sweeps_exhausted c \<and> j_attempt r = j_max_attempts r \<and> j_status r' = FAILED)"
proof -
  have ok: "job_ok r" using jobs_wf_job_ok [OF assms(1)] find_job_in [OF assms(3)] by simp
  from assms(2,1,3) obtain r' where r': "find_job k d' = Some r'"
    "r' = r \<or> row_write (actor c) (call_time c) r r' \<or>
     sweeps_exhausted c \<and> exhausted r \<and> r' = failed_row (call_time c) r"
    by (rule call_step_row)
  with row_write_status [OF _ ok] ok show ?thesis
    by (auto simp: failed_row_def exhausted_def job_ok_def)
qed

theorem status_changes_conform_witness:
  "\<exists>r'. find_job ''a'' cancelled_midway = Some r' \<and>
    (j_status r' = TRANSCRIBING \<or> is_valid_transition TRANSCRIBING (j_status r') \<or>
     j_status r' = CANCELLED \<and> TRANSCRIBING \<notin> TERMINAL_JOB_STATUSES \<or>
     sweeps_exhausted (RequestCancel ''a'' 2) \<and> (1::int) = 3 \<and> j_status r' = FAILED)"
  using status_changes_conform [OF sample_wf [OF _ sample_job_ok] cancel_step, of "''a''"]
  by simp

section \<open>Exclusive leases\<close>

lemma held_earlier: "held owner t r \<Longrightarrow> now \<le> t \<Longrightarrow> held owner now r"
  by (auto simp: held_def lease_live_def split: option.splits)

lemma same_but_cancel_held: "same_but_cancel r r' \<Longrightarrow> held owner t r \<Longrightarrow> held owner t r'"
  by (auto simp: same_but_cancel_def held_def lease_live_def)

lemma lease_exclusive_run:
  assumes "jobs_wf d" "call_run cs d d'" "find_job k d = Some r" "held owner t r"
    and "\<forall>c \<in> set cs. actor c \<noteq> Some owner \<and> call_time c \<le> t \<and> \<not> sweeps_exhausted c"
  shows "\<exists>r'. find_job k d' = Some r' \<and> same_but_cancel r r' \<and> held owner t r'"
proof (rule call_run_row [OF assms(2,1,3)])
  show "same_but_cancel r r \<and> held owner t r" using assms(4) by simp
next
  fix c r1 r2
  assume c: "c \<in> set cs" and I: "same_but_cancel r r1 \<and> held owner t r1"
    and step: "row_write (actor c) (call_time c) r1 r2 \<or>
      sweeps_exhausted c \<and> exhausted r1 \<and> r2 = failed_row (call_time c) r1"
  from c assms(5) have "actor c \<noteq> Some owner" "call_time c \<le> t" "\<not> sweeps_exhausted c" by auto
  with step row_write_held [OF _ held_earlier] I have "same_but_cancel r1 r2" by blast
  with I show "same_but_cancel r r2 \<and> held owner t r2"
    by (blast intro: same_but_cancel_trans same_but_cancel_held)
qed

text \<open>
  C2. A live lease on a running job is exclusive: as long as it has not expired, no run of
  calls by other workers, clients and recovery sweeps (the startup sweep of exhausted jobs
  aside, which never looks at leases) changes anything of the row but the cancel request.
\<close>
theorem lease_exclusive:
  assumes "jobs_wf d" "call_run cs d d'" "find_job k d = Some r" "held owner t r"
    and "\<forall>c \<in> set cs. actor c \<noteq> Some owner \<and> call_time c \<le> t \<and> \<not> sweeps_exhausted c"
  shows "\<exists>r'. find_job k d' = Some r' \<and> same_but_cancel r r' \<and> held owner t r'"
  using lease_exclusive_run [OF assms] .

theorem lease_exclusive_witness:
  "\<exists>r'. find_job ''a'' cancelled_midway = Some r' \<and>
     same_but_cancel (sample_job ''a'' TRANSCRIBING (Some ''w'') (Some 5)) r' \<and> held ''w'' 4 r'"
  by (rule lease_exclusive [OF sample_wf [OF _ sample_job_ok] cancel_run])
    (simp_all add: held_def lease_live_def)

section \<open>Compare-and-swap writes under a lease\<close>

text \<open>An owner's guarded UPDATE that hits, hits exactly the job's own row.\<close>

lemma owned_update:
  assumes "quiet s" "jobs_wf (committed s)" "orm_job (opened s) k = Some job"
    and "update_returning (owned_row job owner now) f d0 = Some d'" "jobs d0 = jobs (committed s)"
    and "\<And>r. j_job_id (f r) = j_job_id r"
  obtains r where "find_job k (committed s) = Some r" "owned_row job owner now r"
    "find_job k d' = Some (f r)" "d' = patch_jobs (owned_row job owner now) f d0"
    "\<And>k'. k' \<noteq> k \<Longrightarrow> find_job k' d' = find_job k' (committed s)"
proof -
  from orm_job_opened [OF assms(1,3)] obtain r
    where r: "find_job k (committed s) = Some r" "j_id job = j_id r" by blast
  have d0: "find_job x d0 = find_job x (committed s)" for x
    by (simp add: find_job_def assms(5))
  from assms(4,5) obtain r1 where r1: "r1 \<in> set (jobs (committed s))" "owned_row job owner now r1"
    and d': "d' = patch_jobs (owned_row job owner now) f d0"
    by (auto simp: update_returning_def list_ex_iff split: if_splits)
  have only: "x = r" if "x \<in> set (jobs (committed s))" "owned_row job owner now x" for x
    using jobs_wf_same_id [OF assms(2) that(1)] find_job_in [OF r(1)] that(2) r(2)
    by (simp add: owned_row_def)
  have "find_job k' d' = find_job k' (committed s)" if "k' \<noteq> k" for k'
    unfolding d' d0 [symmetric]
  proof (rule job_store.lookup_patch_miss [OF assms(6)])
    fix x assume "find_job k' d0 = Some x"
    with only [of x] find_job_in [of k' "committed s" x] find_job_in [OF r(1)] that
    show "\<not> owned_row job owner now x" unfolding d0 by auto
  qed
  moreover have "find_job k d' = Some (f r)"
    unfolding d' using r(1) only [OF r1] r1(2) by (intro job_store.lookup_patch_hit assms(6)) (simp_all add: d0)
  ultimately show thesis using that [OF r(1)] only [OF r1] r1(2) d' by blast
qed

text \<open>The exit \<open>raise LeaseLostError\<close> or commit and re-read, shared by those writes.\<close>

lemma guarded_updateE:
  assumes "exit_result (case update_returning P f d of
      None \<Rightarrow> RollbackRaise e | Some d' \<Rightarrow> CommitRead d' js ds (get_required k)) c = Inr x"
    and "c' = exit_db (case update_returning P f d of
      None \<Rightarrow> RollbackRaise e | Some d' \<Rightarrow> CommitRead d' js ds (get_required k)) c"
  obtains "update_returning P f d = Some c'" "find_job k c' = Some x"
  using assms by (cases "update_returning P f d") (auto simp: get_required_def split: option.splits)

lemma select_rowid:
  assumes "jobs_wf d" "find_job k d = Some r" "j_id job = j_id r"
  shows "select_first (\<lambda>x. j_id x = j_id job) (jobs d) = Some r"
  using distinct_key_select_first [of j_id "jobs d" r] assms find_job_in [OF assms(2)]
  by (simp add: jobs_wf_def)

lemma lease_live_renewed [simp]:
  "lease_live owner now (r\<lparr>j_lease_expires_at := Some e\<rparr>) \<longleftrightarrow> j_lease_owner r = Some owner \<and> now < e"
  by (simp add: lease_live_def)

text \<open>
  Advancing a job is a compare-and-swap that stale reads cannot fool. From any session,
  however stale its instance of the job: if the call returns, the stored job held the
  caller's live lease and the step was a transition of the table from the stored status; a
  cancellation pending in the table wins over parking; the returned job is the stored one,
  keeps the lease exactly when it goes on running, and nothing else was written.
\<close>
theorem advance_job_cas:
  assumes "quiet s" "jobs_wf (committed s)"
    and "advance_job k owner st now ls None pr s = (Inr r', s')"
  shows "\<exists>r. find_job k (committed s) = Some r \<and> lease_live owner now r \<and>
    is_valid_transition (j_status r) st \<and> find_job k (committed s') = Some r' \<and>
    j_status r' = (if st = WAITING_FOR_MODEL \<and> j_cancel_requested_at r \<noteq> None
                   then CANCELLED else st) \<and>
    j_cancel_requested_at r' = j_cancel_requested_at r \<and> j_attempt r' = j_attempt r \<and>
    (if st \<in> TERMINAL_JOB_STATUSES \<or> st = WAITING_FOR_MODEL
     then j_lease_owner r' = None \<and> j_lease_expires_at r' = None
     else lease_live owner now r' \<longleftrightarrow> 0 < ls) \<and>
    (\<forall>k'. k' \<noteq> k \<longrightarrow> find_job k' (committed s') = find_job k' (committed s))"
proof -
  let ?P = "\<lambda>job. select_first (\<lambda>r. j_id r = j_id job) (jobs (committed s))"
  note start = quiet_startable [OF assms(1)] and w = quiet_working [OF assms(1)]
  from assms(3) have res: "fst (advance_job k owner st now ls None pr s) = Inr r'"
    and db: "committed s' = committed (snd (advance_job k owner st now ls None pr s))" by simp_all
  note res = res [unfolded advance_job_def result_write_tx [OF start] w]
  note db = db [unfolded advance_job_def committed_write_tx w if_P [OF start]]
  from res obtain job where job: "orm_job (opened s) k = Some job"
    by (cases "orm_job (opened s) k") auto
  note res = res [unfolded job option.case] and db = db [unfolded job option.case]
  have valid: "is_valid_transition (j_status job) st"
    using res by (cases "validate_transition (j_status job) st") (auto simp: validate_transition_def split: if_splits)
  then have v: "validate_transition (j_status job) st = Inr ()" by (simp add: validate_transition_def)
  note res = res [unfolded v sum.case Let_def option.case] and db = db [unfolded v sum.case Let_def option.case]
  show ?thesis
    apply (rule guarded_updateE [OF res db])
    apply (erule owned_update [OF assms(1,2) job])
    subgoal by simp
    subgoal by simp
    subgoal premises prems for r
      using prems valid owned_row_live [OF prems(3)] owned_row_status [OF prems(3)]
        select_rowid [OF assms(2) prems(2), of job]
      by (auto simp: lease_live_def owned_row_def)
    done
qed

lemma advance_job_succeeds:
  assumes "quiet s" "find_job k (committed s) = Some r" "orm_job (opened s) k = Some r"
    and "lease_live owner now r" "is_valid_transition (j_status r) st"
  shows "\<exists>r'. fst (advance_job k owner st now ls None pr s) = Inr r'"
proof -
  have "list_ex (owned_row r owner now) (jobs (committed s))"
    using assms(4) find_job_in [OF assms(2)] by (auto simp: list_ex_iff owned_row_def)
  with assms show ?thesis
    unfolding advance_job_def result_write_tx [OF quiet_startable [OF assms(1)]]
      quiet_working [OF assms(1)] Let_def update_returning_def assms(3) option.case
    by (simp add: validate_transition_def get_required_def job_store.lookup_patch)
qed

section \<open>Claiming\<close>

definition claimed_row :: "string \<Rightarrow> time \<Rightarrow> time \<Rightarrow> job \<Rightarrow> job" where
  "claimed_row owner ls now r =
     r\<lparr>j_status := fst (claim_status r), j_stage := snd (claim_status r),
       j_lease_owner := Some owner, j_lease_expires_at := Some (now + ls),
       j_attempt := j_attempt r + 1, j_updated_at := now\<rparr>"

lemma claimable_where_is_claimable:
  "is_claimable r now \<longleftrightarrow> claimable_where now r \<or>
     j_status r = WAITING_FOR_MODEL \<and> j_attempt r < j_max_attempts r \<and>
     (j_lease_expires_at r = None \<or> due (j_lease_expires_at r) now)"
  by (cases "j_status r" rule: status_classes)
    (auto simp: is_claimable_def claimable_where_def running_not_terminal)

lemma claim_status_claimable:
  "claimable_where now r \<Longrightarrow> job_ok r \<Longrightarrow>
     fst (claim_status r) \<in> RUNNING_STATES \<and> snd (claim_status r) = Some (fst (claim_status r))"
  using claim_status_running [of r now "fst (claim_status r)" "snd (claim_status r)"]
  by (simp add: claimable_where_is_claimable) (auto simp: claimable_where_def)

lemma claim_job_hit:
  assumes "quiet s" "jobs_wf (committed s)" "job_cache s k = None"
    and "find_job k (committed s) = Some r" "claimable_where now r"
  shows "\<exists>s'. claim_job k owner ls now s = (Inr (Some (claimed_row owner ls now r)), s') \<and>
    committed s' = patch_jobs (\<lambda>x. j_id x = j_id r) (claimed_row owner ls now) (committed s)"
proof -
  have o: "orm_job (opened s) k = Some r"
    using assms(1,3,4) by (simp add: orm_job_fresh quiet_working)
  have r: "r \<in> set (jobs (committed s))" "j_job_id r = k" using find_job_in [OF assms(4)] by simp_all
  have same: "x = r" if "x \<in> set (jobs (committed s))" "j_id x = j_id r" for x
    using jobs_wf_same_id [OF assms(2) that(1) r(1) that(2)] .
  let ?P = "\<lambda>x. j_id x = j_id r \<and> j_status x = j_status r \<and> j_lease_expires_at x = j_lease_expires_at r"
  let ?f = "\<lambda>x. x\<lparr>j_status := fst (claim_status r), j_stage := snd (claim_status r),
       j_lease_owner := Some owner, j_lease_expires_at := Some (now + ls),
       j_attempt := j_attempt x + 1, j_updated_at := now\<rparr>"
  have eq: "patch_jobs ?P ?f (committed s) =
      patch_jobs (\<lambda>x. j_id x = j_id r) (claimed_row owner ls now) (committed s)"
    unfolding patch_jobs_def
    by (subst update_where_cong [where Q = "\<lambda>x. j_id x = j_id r" and g = "claimed_row owner ls now"])
      (auto simp: claimed_row_def dest: same)
  have upd: "update_returning ?P ?f (committed s) =
      Some (patch_jobs (\<lambda>x. j_id x = j_id r) (claimed_row owner ls now) (committed s))"
    using r(1) unfolding update_returning_def eq by (auto simp: list_ex_iff)
  have "find_job k (patch_jobs (\<lambda>x. j_id x = j_id r) (claimed_row owner ls now) (committed s)) =
      Some (claimed_row owner ls now r)"
    by (rule job_store.lookup_patch_hit) (simp_all add: assms(4) claimed_row_def)
  then show ?thesis
    unfolding claim_job_body [OF assms(1)] o option.case prod.case_eq_if Let_def upd
    using assms(5) by (simp add: claimable_where_is_claimable exit_defs)
qed

lemma claim_candidates_Nil:
  "claim_candidates now d = [] \<longleftrightarrow> (\<forall>r \<in> set (jobs d). \<not> claimable_where now r)"
proof -
  have "claim_candidates now d = [] \<longleftrightarrow>
      sort_key (\<lambda>r. (j_created_at r, j_id r)) (filter (claimable_where now) (jobs d)) = []"
    by (simp add: claim_candidates_def page_def Let_def)
  also have "\<dots> \<longleftrightarrow> filter (claimable_where now) (jobs d) = []"
    by (metis set_empty set_sort)
  finally show ?thesis by (simp add: filter_empty_conv)
qed

lemma claim_candidates_first:
  assumes "claim_candidates now d = r # rs"
  shows "r \<in> set (jobs d)" "claimable_where now r"
    "\<And>x. x \<in> set (jobs d) \<Longrightarrow> claimable_where now x \<Longrightarrow>
       (j_created_at r, j_id r) \<le> (j_created_at x, j_id x)"
proof -
  let ?k = "\<lambda>r. (j_created_at r, j_id r)"
  let ?t = "sort_key ?k (filter (claimable_where now) (jobs d))"
  from assms show "r \<in> set (jobs d)" "claimable_where now r"
    using set_claim_candidates [of r now d] by auto
  from assms obtain ts where ts: "?t = r # ts"
    by (cases ?t) (auto simp: claim_candidates_def page_def Let_def)
  have "sorted (map ?k (r # ts))" unfolding ts [symmetric] by simp
  moreover have "set (r # ts) = {x \<in> set (jobs d). claimable_where now x}"
    unfolding ts [symmetric] by auto
  ultimately show "?k r \<le> ?k x" if "x \<in> set (jobs d)" "claimable_where now x" for x
    using that by fastforce
qed

lemma claim_next_result:
  assumes "jobs_wf d" "claim_next_job owner ls now (open_session d) = (res, s')"
  shows "case res of
      Inl e \<Rightarrow> False
    | Inr None \<Rightarrow> (\<forall>r \<in> set (jobs d). \<not> claimable_where now r) \<and> committed s' = d
    | Inr (Some j) \<Rightarrow> (\<exists>r \<in> set (jobs d). claimable_where now r \<and>
        (\<forall>x \<in> set (jobs d). claimable_where now x \<longrightarrow>
           (j_created_at r, j_id r) \<le> (j_created_at x, j_id x)) \<and>
        j = claimed_row owner ls now r \<and> j_status j \<in> RUNNING_STATES \<and>
        committed s' = patch_jobs (\<lambda>x. j_id x = j_id r) (claimed_row owner ls now) d \<and>
        find_job (j_job_id j) (committed s') = Some j)"
proof -
  let ?s = "opened (open_session d)"
  have q: "quiet (open_session d)" "quiet ?s" "committed ?s = d" "job_cache ?s = (\<lambda>_. None)"
    by (simp_all add: quiet_opened committed_opened quiet_startable)
  have eq: "claim_next_job owner ls now (open_session d) =
      claim_first (map j_job_id (claim_candidates now d)) owner ls now ?s"
    by (simp add: claim_next_job_def ensure_immediate_ok quiet_startable q(1) quiet_working)
  show ?thesis
  proof (cases "claim_candidates now d")
    case Nil
    with assms(2) q(3) eq claim_candidates_Nil [of now d] show ?thesis by auto
  next
    case (Cons r rs)
    note r = claim_candidates_first [OF Cons]
    have f: "find_job (j_job_id r) d = Some r"
      using find_job_unique [OF jobs_wf_unique [OF assms(1)] r(1)] .
    with claim_job_hit [OF q(2), of "j_job_id r" r now owner ls] q r(2) assms(1)
    obtain s1 where s1: "claim_job (j_job_id r) owner ls now ?s =
        (Inr (Some (claimed_row owner ls now r)), s1)"
      "committed s1 = patch_jobs (\<lambda>x. j_id x = j_id r) (claimed_row owner ls now) d"
      by auto
    have "find_job (j_job_id r) (committed s1) = Some (claimed_row owner ls now r)"
      unfolding s1(2) by (rule job_store.lookup_patch_hit) (simp_all add: f claimed_row_def)
    moreover have "fst (claim_status r) \<in> RUNNING_STATES"
      using claim_status_claimable [OF r(2)] jobs_wf_job_ok [OF assms(1) r(1)] by simp
    ultimately have "\<exists>x \<in> set (jobs d). claimable_where now x \<and>
        (\<forall>y \<in> set (jobs d). claimable_where now y \<longrightarrow>
           (j_created_at x, j_id x) \<le> (j_created_at y, j_id y)) \<and>
        claimed_row owner ls now r = claimed_row owner ls now x \<and>
        j_status (claimed_row owner ls now r) \<in> RUNNING_STATES \<and>
        committed s1 = patch_jobs (\<lambda>y. j_id y = j_id x) (claimed_row owner ls now) d \<and>
        find_job (j_job_id (claimed_row owner ls now r)) (committed s1) =
          Some (claimed_row owner ls now r)"
      using r s1(2) by (intro bexI [OF _ r(1)]) (simp add: claimed_row_def)
    moreover have "res = Inr (Some (claimed_row owner ls now r))" "s' = s1"
      using assms(2) s1(1) unfolding eq Cons by simp_all
    ultimately show ?thesis by simp
  qed
qed

text \<open>
  C4. From a fresh session, \<open>claim_next_job\<close> never fails and claims exactly the oldest
  claimable job: it returns nothing only when no job is claimable; otherwise the job it
  returns is the earliest created claimable one (ties by row id), now running under the
  caller's lease with one more attempt used, and no other row has changed.
\<close>
theorem claim_next_exact:
  assumes "jobs_wf d" "claim_next_job owner ls now (open_session d) = (res, s')"
  shows "case res of
      Inl e \<Rightarrow> False
    | Inr None \<Rightarrow> (\<forall>r \<in> set (jobs d). \<not> claimable_where now r) \<and> committed s' = d
    | Inr (Some j) \<Rightarrow> (\<exists>r \<in> set (jobs d). claimable_where now r \<and>
        (\<forall>x \<in> set (jobs d). claimable_where now x \<longrightarrow>
           (j_created_at r, j_id r) \<le> (j_created_at x, j_id x)) \<and>
        j = claimed_row owner ls now r \<and> j_status j \<in> RUNNING_STATES \<and>
        committed s' = patch_jobs (\<lambda>x. j_id x = j_id r) (claimed_row owner ls now) d \<and>
        find_job (j_job_id j) (committed s') = Some j)"
  using claim_next_result [OF assms] .

text \<open>
  C33. A claim is worth its whole lease. After a worker claimed a job from a fresh session,
  any run of other callers up to an instant before the expiry leaves the job claimed, and
  the worker's next step from a fresh session then succeeds, whatever the others did.
\<close>
theorem claim_holds_for_lease:
  assumes "jobs_wf d" "claim_next_job owner ls now (open_session d) = (Inr (Some j), s')"
    and "call_run cs (committed s') d'"
    and "\<forall>c \<in> set cs. actor c \<noteq> Some owner \<and> call_time c \<le> t \<and> \<not> sweeps_exhausted c"
    and "t < now + ls" "is_valid_transition (j_status j) st"
  shows "\<exists>r'. fst (advance_job (j_job_id j) owner st t ls' None pr (open_session d')) = Inr r'"
proof -
  from claim_next_result [OF assms(1,2)] obtain r where j: "j = claimed_row owner ls now r"
    "j_status j \<in> RUNNING_STATES" "find_job (j_job_id j) (committed s') = Some j" by auto
  have "call_step (ClaimNext owner ls now) d (committed s')"
    using call_step_open [of "ClaimNext owner ls now" d] assms(2) by simp
  then have wf: "jobs_wf (committed s')" using assms(1) by (rule call_step_wf)
  have "held owner t j" using j assms(5) by (simp add: held_def lease_live_def claimed_row_def)
  from lease_exclusive_run [OF wf assms(3) j(3) this assms(4)] obtain r' where
    r': "find_job (j_job_id j) d' = Some r'" "same_but_cancel j r'" "held owner t r'" by blast
  from r'(2) assms(6) have "is_valid_transition (j_status r') st"
    by (auto simp: same_but_cancel_def)
  with r' show ?thesis
    by (intro advance_job_succeeds [of _ _ r']) (simp_all add: held_def)
qed

lemma transcribing_to_cleaning: "is_valid_transition TRANSCRIBING CLEANING_TRANSCRIPT"
  by (simp add: transition_simps LINEAR_CHAIN_def)

lemma sample_claim:
  "\<exists>s'. claim_next_job ''w'' 30 0 (open_session (sample_db (sample_job ''a'' TRANSCRIBING None None))) =
     (Inr (Some (claimed_row ''w'' 30 0 (sample_job ''a'' TRANSCRIBING None None))), s')"
proof -
  let ?d = "sample_db (sample_job ''a'' TRANSCRIBING None None)"
  have wf: "jobs_wf ?d" by (rule sample_wf [OF _ sample_job_ok]) simp_all
  obtain res s' where c: "claim_next_job ''w'' 30 0 (open_session ?d) = (res, s')" by fastforce
  from claim_next_result [OF wf c] show ?thesis
    by (simp add: c split: sum.splits option.splits) (simp_all add: sample_db_def claimable_where_def)
qed

theorem claim_holds_for_lease_witness:
  "\<exists>r'. fst (advance_job ''a'' ''w'' CLEANING_TRANSCRIPT 8 30 None None (open_session
      (committed (exec (RequestCancel ''a'' 2) (open_session
        (committed (snd (claim_next_job ''w'' 30 0 (open_session
           (sample_db (sample_job ''a'' TRANSCRIBING None None))))))))))) = Inr r'"
proof -
  let ?r = "sample_job ''a'' TRANSCRIBING None None"
  from sample_claim obtain s' where s': "claim_next_job ''w'' 30 0 (open_session (sample_db ?r)) =
    (Inr (Some (claimed_row ''w'' 30 0 ?r)), s')" by blast
  have wf: "jobs_wf (sample_db ?r)" by (rule sample_wf [OF _ sample_job_ok]) simp_all
  have run: "call_run [RequestCancel ''a'' 2] (committed s')
      (committed (exec (RequestCancel ''a'' 2) (open_session (committed s'))))"
    using call_step_open [of "RequestCancel ''a'' 2"] by simp
  from claim_holds_for_lease [OF wf s' run, of 8 CLEANING_TRANSCRIPT 30 None] show ?thesis
    by (simp add: s' claimed_row_def claim_status_def transcribing_to_cleaning)
qed

theorem claim_next_exact_witness:
  "\<exists>s'. claim_next_job ''w'' 30 0 (open_session (sample_db (sample_job ''a'' TRANSCRIBING None None))) =
     (Inr (Some (claimed_row ''w'' 30 0 (sample_job ''a'' TRANSCRIBING None None))), s') \<and>
   find_job ''a'' (committed s') = Some (claimed_row ''w'' 30 0 (sample_job ''a'' TRANSCRIBING None None))"
proof -
  from sample_claim obtain s' where s': "claim_next_job ''w'' 30 0
      (open_session (sample_db (sample_job ''a'' TRANSCRIBING None None))) =
    (Inr (Some (claimed_row ''w'' 30 0 (sample_job ''a'' TRANSCRIBING None None))), s')" by blast
  from claim_next_exact [OF sample_wf [OF _ sample_job_ok] s'] s'
  have "find_job (j_job_id (claimed_row ''w'' 30 0 (sample_job ''a'' TRANSCRIBING None None)))
      (committed s') = Some (claimed_row ''w'' 30 0 (sample_job ''a'' TRANSCRIBING None None))"
    by auto
  moreover have "j_job_id (claimed_row ''w'' 30 0 (sample_job ''a'' TRANSCRIBING None None)) = ''a''"
    by (simp add: claimed_row_def)
  ultimately show ?thesis using s' by auto
qed

theorem advance_job_cas_witness:
  "\<exists>r' s'. advance_job ''a'' ''w'' CLEANING_TRANSCRIPT 3 30 None None
       (open_session (sample_db (sample_job ''a'' TRANSCRIBING (Some ''w'') (Some 5)))) = (Inr r', s') \<and>
     find_job ''a'' (committed s') = Some r' \<and> j_status r' = CLEANING_TRANSCRIPT"
proof -
  let ?d = "sample_db (sample_job ''a'' TRANSCRIBING (Some ''w'') (Some 5))"
  obtain r' s' where a: "advance_job ''a'' ''w'' CLEANING_TRANSCRIPT 3 30 None None (open_session ?d) = (Inr r', s')"
    using advance_job_succeeds [of "open_session ?d" "''a''"
        "sample_job ''a'' TRANSCRIBING (Some ''w'') (Some 5)" "''w''" 3 CLEANING_TRANSCRIPT 30 None]
    by (auto simp: lease_live_def transcribing_to_cleaning) (metis prod.collapse)
  have wf: "jobs_wf ?d" by (rule sample_wf [OF _ sample_job_ok]) simp_all
  from advance_job_cas [OF quiet_open_session, of ?d, simplified, OF wf a] a show ?thesis by auto
qed

end
