(* ===== verification/JobOutcomes.thy ===== *)
theory JobOutcomes
  imports JobTheorems
begin

text \<open>
  What becomes of a job after each outcome of its owner's work: an artifact committed with
  the step, a failure that may be retried, a model that has to be downloaded first, a
  cancellation; and that a refused call leaves nothing behind.
\<close>

section \<open>Refused calls\<close>

lemma owned_tx_error:
  assumes "quiet s" "jobs_wf (committed s)" "orm_job (opened s) k = Some job"
    and "jobs d0 = jobs (committed s)" "\<And>r. j_job_id (f r) = j_job_id r"
    and "exit_result (case update_returning (owned_row job owner now) f d0 of
      None \<Rightarrow> RollbackRaise e | Some d' \<Rightarrow> CommitRead d' js ds (get_required k)) c = Inl e'"
  shows "exit_db (case update_returning (owned_row job owner now) f d0 of
      None \<Rightarrow> RollbackRaise e | Some d' \<Rightarrow> CommitRead d' js ds (get_required k)) c = c"
proof (cases "update_returning (owned_row job owner now) f d0")
  case (Some d')
  from owned_update [OF assms(1-3) Some assms(4,5)] obtain r where "find_job k d' = Some (f r)" by blast
  with assms(6) Some show ?thesis by (simp add: get_required_def)
qed simp

lemma exit_validate:
  "exit_result (case validate_transition a b of Inl e \<Rightarrow> Raise e | Inr _ \<Rightarrow> X) c =
     (if is_valid_transition a b then exit_result X c
      else Inl (IllegalTransition (status_value a) (status_value b)))"
  "exit_db (case validate_transition a b of Inl e \<Rightarrow> Raise e | Inr _ \<Rightarrow> X) c =
     (if is_valid_transition a b then exit_db X c else c)"
  by (simp_all add: validate_transition_def)

lemma advance_job_refused:
  assumes "quiet s" "jobs_wf (committed s)" "fst (advance_job k owner st now ls None pr s) = Inl e"
  shows "committed (snd (advance_job k owner st now ls None pr s)) = committed s"
proof (cases "orm_job (opened s) k")
  case None
  then show ?thesis by (simp add: advance_job_def committed_write_tx)
next
  case (Some job)
  show ?thesis
    using assms(3) quiet_working [OF assms(1)]
    unfolding advance_job_def result_write_tx [OF quiet_startable [OF assms(1)]] committed_write_tx
      Some option.case exit_validate Let_def
    by (auto split: if_split_asm intro!: owned_tx_error [OF assms(1,2) Some])
qed

lemma commit_artifact_refused:
  assumes "quiet s" "jobs_wf (committed s)"
    "fst (commit_artifact_and_advance k owner st now ls sg ty fp sv sk pj rp ch bs pr s) = Inl e"
  shows "committed (snd (commit_artifact_and_advance k owner st now ls sg ty fp sv sk pj rp ch bs pr s)) =
    committed s"
proof (cases "orm_job (opened s) k")
  case None
  then show ?thesis by (simp add: commit_artifact_and_advance_def committed_write_tx)
next
  case (Some job)
  show ?thesis
    using assms(3) quiet_working [OF assms(1)]
    unfolding commit_artifact_and_advance_def result_write_tx [OF quiet_startable [OF assms(1)]]
      committed_write_tx Some option.case exit_validate Let_def
    by (auto simp: insert_artifact_def split: if_split_asm
        intro!: owned_tx_error [OF assms(1,2) Some])
qed

lemma mark_failure_refused:
  assumes "quiet s" "jobs_wf (committed s)" "fst (mark_failure k owner now ec rt nr ed s) = Inl e"
  shows "committed (snd (mark_failure k owner now ec rt nr ed s)) = committed s"
proof (cases "orm_job (opened s) k")
  case None
  then show ?thesis by (simp add: mark_failure_def committed_write_tx)
next
  case (Some job)
  show ?thesis
    using assms(3) quiet_working [OF assms(1)]
    unfolding mark_failure_def result_write_tx [OF quiet_startable [OF assms(1)]] committed_write_tx
      Some option.case exit_validate Let_def
    by (auto split: if_split_asm intro!: owned_tx_error [OF assms(1,2) Some])
qed

lemma mark_cancelled_refused:
  assumes "quiet s" "jobs_wf (committed s)" "fst (mark_cancelled k owner now s) = Inl e"
  shows "committed (snd (mark_cancelled k owner now s)) = committed s"
proof (cases "orm_job (opened s) k")
  case None
  then show ?thesis by (simp add: mark_cancelled_def committed_write_tx)
next
  case (Some job)
  show ?thesis
    using assms(3) quiet_working [OF assms(1)]
    unfolding mark_cancelled_def result_write_tx [OF quiet_startable [OF assms(1)]] committed_write_tx
      Some option.case
    by (auto split: if_split_asm intro!: owned_tx_error [OF assms(1,2) Some])
qed

lemma pin_refused:
  assumes "quiet s" "jobs_wf (committed s)"
    "fst (pin_job_asr_route k owner now p m v rec s) = Inl e"
  shows "committed (snd (pin_job_asr_route k owner now p m v rec s)) = committed s"
proof (cases "orm_job (opened s) k")
  case None
  then show ?thesis by (simp add: pin_job_asr_route_def committed_write_tx)
next
  case (Some job)
  from orm_job_opened [OF assms(1) Some] obtain r
    where r: "find_job k (committed s) = Some r" by blast
  have "find_job k d' \<noteq> None"
    if "update_returning P f (committed s) = Some d'" "\<And>r. j_job_id (f r) = j_job_id r" for P f d'
    using that r by (auto simp: update_returning_def job_store.lookup_patch split: if_splits)
  then show ?thesis
    using assms(3) quiet_working [OF assms(1)]
    unfolding pin_job_asr_route_def result_write_tx [OF quiet_startable [OF assms(1)]]
      committed_write_tx Some option.case
    by (fastforce simp: get_required_def split: option.splits)
qed

lemma enqueue_refused:
  assumes "quiet s" "fst (enqueue_job k url rf cf now st mo asr la ma att nr s) = Inl e"
  shows "committed (snd (enqueue_job k url rf cf now st mo asr la ma att nr s)) = committed s"
  using assms(2)
  by (simp add: enqueue_job_def result_write_tx [OF quiet_startable [OF assms(1)]] committed_write_tx
      get_required_def find_job_def insert_job_def select_first_append new_job_def
      split: if_splits option.splits)

lemma request_cancellation_refused:
  assumes "quiet s" "fst (request_cancellation k now s) = Inl e"
  shows "committed (snd (request_cancellation k now s)) = committed s"
proof (cases "orm_job (opened s) k")
  case None
  then show ?thesis by (simp add: request_cancellation_def committed_write_tx)
next
  case (Some job)
  from orm_job_opened [OF assms(1) Some] obtain r
    where r: "find_job k (committed s) = Some r" by blast
  have "find_job k d' \<noteq> None"
    if "update_returning P f (committed s) = Some d'" "\<And>r. j_job_id (f r) = j_job_id r" for P f d'
    using that r by (auto simp: update_returning_def job_store.lookup_patch split: if_splits)
  then show ?thesis
    using assms(2) quiet_working [OF assms(1)]
    unfolding request_cancellation_def result_write_tx [OF quiet_startable [OF assms(1)]]
      committed_write_tx Some option.case Let_def
    by (fastforce simp: get_required_def split: option.splits if_splits)
qed

lemma claim_job_total: "quiet s \<Longrightarrow> fst (claim_job k owner ls now s) \<noteq> Inl e"
  by (auto simp: claim_job_body Let_def prod.case_eq_if split: option.splits if_splits)

lemma claim_first_total:
  assumes "quiet s" "cache_ok s" "\<And>k. k \<in> set ks \<Longrightarrow> find_job k (committed s) \<noteq> None"
  shows "fst (claim_first ks owner ls now s) \<noteq> Inl e"
  using assms
proof (induction ks arbitrary: s)
  case (Cons k ks)
  obtain res s' where c: "claim_job k owner ls now s = (res, s')" by fastforce
  with claim_job_total [OF Cons.prems(1), of k owner ls now] have ok: "\<nexists>e. res = Inl e" by auto
  show ?case
  proof (cases "res = Inr None")
    case True
    with c claim_job_none [OF Cons.prems(1,2)] Cons.prems(3)
    have "quiet s'" "cache_ok s'" "committed s' = committed s" by auto
    with Cons.IH [of s'] Cons.prems(3) c True show ?thesis by simp
  next
    case False
    with c ok show ?thesis by (auto split: sum.splits option.splits)
  qed
qed simp

lemma claim_next_total:
  assumes "quiet s" "cache_ok s" "jobs_wf (committed s)"
  shows "fst (claim_next_job owner ls now s) \<noteq> Inl e"
proof -
  have "find_job (j_job_id r) (committed s) \<noteq> None"
    if "r \<in> set (claim_candidates now (committed s))" for r
    using find_job_unique [OF jobs_wf_unique [OF assms(3)]] set_claim_candidates [OF that] by auto
  then have "fst (claim_first (map j_job_id (claim_candidates now (committed s))) owner ls now (opened s))
      \<noteq> Inl e"
    using assms by (intro claim_first_total)
      (auto simp: quiet_opened cache_ok_def committed_opened quiet_startable)
  then show ?thesis
    by (simp add: claim_next_job_def ensure_immediate_ok quiet_startable [OF assms(1)]
        quiet_working [OF assms(1)])
qed

lemma renew_refused: "quiet s \<Longrightarrow> fst (renew_lease k owner now ls s) \<noteq> Inl e"
  by (auto simp: renew_lease_def result_write_tx quiet_startable split: option.splits)

lemma save_artifact_refused:
  "quiet s \<Longrightarrow> fst (save_artifact_inline k owner now sg ty fp sv pj s) = Inl e \<Longrightarrow>
     committed (snd (save_artifact_inline k owner now sg ty fp sv pj s)) = committed s"
  by (auto simp: save_artifact_inline_def result_write_tx quiet_startable committed_write_tx
      split: option.splits)

lemma sweep_total: "exit_result (sweep P f s) c \<noteq> Inl e"
  by (simp add: sweep_def Let_def)

lemma sweeps_refused:
  "quiet s \<Longrightarrow> fst (recover_stale_jobs now s) \<noteq> Inl e"
  "quiet s \<Longrightarrow> fst (fail_exhausted_retries now s) \<noteq> Inl e"
  "quiet s \<Longrightarrow> fst (land_dangling_cancellations now s) \<noteq> Inl e"
  "quiet s \<Longrightarrow> fst (resume_waiting_jobs m now s) \<noteq> Inl e"
  by (simp_all add: recover_stale_jobs_def fail_exhausted_retries_def land_dangling_cancellations_def
      resume_waiting_jobs_def result_write_tx quiet_startable sweep_total Let_def)

text \<open>The error a call raises, if it raises one.\<close>

definition error_in :: "'a outcome \<Rightarrow> exn option" where
  "error_in x = (case x of Inl e \<Rightarrow> Some e | Inr _ \<Rightarrow> None)"

fun call_error :: "call \<Rightarrow> session \<Rightarrow> exn option" where
  "call_error (Enqueue k url rf cf now st mo asr la ma att nr) s =
     error_in (fst (enqueue_job k url rf cf now st mo asr la ma att nr s))"
| "call_error (ClaimNext owner ls now) s = error_in (fst (claim_next_job owner ls now s))"
| "call_error (RecoverStale now) s = error_in (fst (recover_stale_jobs now s))"
| "call_error (FailExhausted now) s = error_in (fst (fail_exhausted_retries now s))"
| "call_error (LandDangling now) s = error_in (fst (land_dangling_cancellations now s))"
| "call_error (Advance k owner st now ls pr) s =
     error_in (fst (advance_job k owner st now ls None pr s))"
| "call_error (MarkFailure k owner now ec rt nr ed) s =
     error_in (fst (mark_failure k owner now ec rt nr ed s))"
| "call_error (MarkCancelled k owner now) s = error_in (fst (mark_cancelled k owner now s))"
| "call_error (PinRoute k owner now p m v rec) s =
     error_in (fst (pin_job_asr_route k owner now p m v rec s))"
| "call_error (RenewLease k owner now ls) s = error_in (fst (renew_lease k owner now ls s))"
| "call_error (ResumeWaiting m now) s = error_in (fst (resume_waiting_jobs m now s))"
| "call_error (RequestCancel k now) s = error_in (fst (request_cancellation k now s))"
| "call_error (CommitArtifact k owner st now ls sg ty fp sv sk pj rp ch bs pr) s =
     error_in (fst (commit_artifact_and_advance k owner st now ls sg ty fp sv sk pj rp ch bs pr s))"
| "call_error (SaveArtifact k owner now sg ty fp sv pj) s =
     error_in (fst (save_artifact_inline k owner now sg ty fp sv pj s))"

lemma error_in_Some [simp]: "error_in x = Some e \<longleftrightarrow> x = Inl e"
  by (simp add: error_in_def split: sum.split)

text \<open>
  C5. Every repository call is all or nothing. From any session, however stale its
  instances: when a call raises (unknown job, duplicate id, illegal transition, lost lease,
  stale snapshot), the stored database is exactly what it was; in particular an artifact
  never survives the step it was to be committed with.
\<close>
theorem refused_call_leaves_no_trace:
  assumes "quiet s" "cache_ok s" "jobs_wf (committed s)" "call_error c s = Some e"
  shows "committed (exec c s) = committed s"
  using assms(4) advance_job_refused [OF assms(1,3)] commit_artifact_refused [OF assms(1,3)]
    mark_failure_refused [OF assms(1,3)] mark_cancelled_refused [OF assms(1,3)]
    pin_refused [OF assms(1,3)] enqueue_refused [OF assms(1)]
    request_cancellation_refused [OF assms(1)] save_artifact_refused [OF assms(1)]
    claim_next_total [OF assms(1-3)] renew_refused [OF assms(1)] sweeps_refused [OF assms(1)]
  by (cases c) simp_all

text \<open>A worker whose lease has expired tries to commit an artifact with its step.\<close>

theorem refused_call_leaves_no_trace_witness:
  "committed (exec (CommitArtifact ''a'' ''w'' CLEANING_TRANSCRIPT 9 30 ''transcribing''
       ''raw_transcript'' ''fp'' 1 ''inline_json'' (Some ''[]'') None None None None)
     (open_session (sample_db (sample_job ''a'' TRANSCRIBING (Some ''w'') (Some 5))))) =
   sample_db (sample_job ''a'' TRANSCRIBING (Some ''w'') (Some 5))"
proof -
  let ?r = "sample_job ''a'' TRANSCRIBING (Some ''w'') (Some 5)"
  let ?c = "CommitArtifact ''a'' ''w'' CLEANING_TRANSCRIPT 9 30 ''transcribing''
       ''raw_transcript'' ''fp'' 1 ''inline_json'' (Some ''[]'') None None None None"
  have wf: "jobs_wf (sample_db ?r)" by (rule sample_wf [OF _ sample_job_ok]) simp_all
  have "call_error ?c (open_session (sample_db ?r)) = Some (LeaseLostError ''a'')"
    unfolding call_error.simps error_in_Some commit_artifact_and_advance_def
      result_write_tx [OF quiet_startable [OF quiet_open_session]]
    by (simp add: exit_validate transcribing_to_cleaning update_returning_def insert_artifact_def
        sample_db_def owned_row_def lease_live_def find_job_def find_artifact_def)
  from refused_call_leaves_no_trace [OF quiet_open_session _ _ this] wf show ?thesis
    by (simp add: cache_ok_def)
qed

section \<open>Artifacts committed with a step\<close>

definition artifact_key :: "job_artifact \<Rightarrow> string \<times> string \<times> string" where
  "artifact_key a = (a_job_id a, a_artifact_type a, a_input_fingerprint a)"

lemma find_artifact_insert:
  "find_artifact k ty fp (insert_artifact mk d) =
     (case find_artifact k ty fp d of
        None \<Rightarrow> if artifact_key (mk (artifact_seq d + 1)) = (k, ty, fp)
                then Some (mk (artifact_seq d + 1)) else None
      | Some a \<Rightarrow> Some a)"
  by (simp add: find_artifact_def insert_artifact_def select_first_append artifact_key_def
      split: option.split)

lemma find_artifact_patch [simp]:
  "find_artifact k ty fp (patch_jobs P f d) = find_artifact k ty fp d"
  by (simp add: find_artifact_def patch_jobs_def)

lemma artifacts_writes [simp]:
  "artifacts (patch_jobs P f d) = artifacts d"
  "artifacts (insert_artifact mk d) = artifacts d @ [mk (artifact_seq d + 1)]"
  by (simp_all add: patch_jobs_def insert_artifact_def)

lemma find_artifact_fresh_key:
  "find_artifact k ty fp d = None \<longleftrightarrow> (k, ty, fp) \<notin> artifact_key ` set (artifacts d)"
  by (force simp: find_artifact_def select_first_None_iff artifact_key_def)

text \<open>
  Committing an artifact with the step: when the call returns, the stored job held the
  caller's live lease and made a transition of the table, the artifact with this key is in
  the store, one that was already there is reused untouched, and no second artifact ever
  gets the same key.
\<close>
theorem artifact_committed_with_step:
  assumes "quiet s" "jobs_wf (committed s)" "distinct (map artifact_key (artifacts (committed s)))"
    and "commit_artifact_and_advance k owner st now ls sg ty fp sv sk pj rp ch bs pr s = (Inr r', s')"
  shows "\<exists>r a. find_job k (committed s) = Some r \<and> lease_live owner now r \<and>
    is_valid_transition (j_status r) st \<and> find_job k (committed s') = Some r' \<and>
    j_status r' = st \<and> find_artifact k ty fp (committed s') = Some a \<and>
    (case find_artifact k ty fp (committed s) of
       None \<Rightarrow> a_payload_json a = pj \<and> a_content_hash a = ch \<and>
         artifacts (committed s') = artifacts (committed s) @ [a]
     | Some a0 \<Rightarrow> artifacts (committed s') = artifacts (committed s)) \<and>
    distinct (map artifact_key (artifacts (committed s')))"
proof -
  note start = quiet_startable [OF assms(1)] and w = quiet_working [OF assms(1)]
  from assms(4) have res: "fst (commit_artifact_and_advance k owner st now ls sg ty fp sv sk pj rp ch bs pr s) = Inr r'"
    and db: "committed s' =
      committed (snd (commit_artifact_and_advance k owner st now ls sg ty fp sv sk pj rp ch bs pr s))"
    by simp_all
  note res = res [unfolded commit_artifact_and_advance_def result_write_tx [OF start] w]
  note db = db [unfolded commit_artifact_and_advance_def committed_write_tx w if_P [OF start]]
  from res obtain job where job: "orm_job (opened s) k = Some job"
    by (cases "orm_job (opened s) k") auto
  note res = res [unfolded job option.case exit_validate] and db = db [unfolded job option.case exit_validate]
  have valid: "is_valid_transition (j_status job) st"
    using res by (auto split: if_splits)
  note res = res [unfolded if_P [OF valid] Let_def] and db = db [unfolded if_P [OF valid] Let_def]
  show ?thesis
    apply (rule guarded_updateE [OF res db])
    apply (erule owned_update [OF assms(1,2) job])
    subgoal by (simp add: insert_artifact_def)
    subgoal by simp
    subgoal premises prems for r
    proof (cases "find_artifact k ty fp (committed s)")
      case None
      then have "(k, ty, fp) \<notin> artifact_key ` set (artifacts (committed s))"
        by (simp add: find_artifact_fresh_key)
      with prems valid assms(3) owned_row_live [OF prems(3)] owned_row_status [OF prems(3)] None
      show ?thesis
        unfolding prems(5) by (simp add: find_artifact_insert artifact_key_def
            image_iff)
    next
      case (Some a)
      with prems valid assms(3) owned_row_live [OF prems(3)] owned_row_status [OF prems(3)]
      show ?thesis unfolding prems(5) by simp
    qed
    done
qed

lemma sample_running_wf:
  "st \<in> RUNNING_STATES \<Longrightarrow> ow = None \<longleftrightarrow> ex = None \<Longrightarrow> jobs_wf (sample_db (sample_job k st ow ex))"
  by (rule sample_wf [OF _ sample_job_ok]) simp_all

lemma sample_artifacts [simp]: "artifacts (sample_db r) = []"
  by (simp add: sample_db_def empty_database_def)

theorem artifact_committed_with_step_witness:
  "\<exists>r' s' a. commit_artifact_and_advance ''a'' ''w'' CLEANING_TRANSCRIPT 3 30 ''transcribing''
       ''raw_transcript'' ''fp'' 1 ''inline_json'' (Some ''[]'') None None None None
       (open_session (sample_db (sample_job ''a'' TRANSCRIBING (Some ''w'') (Some 5)))) = (Inr r', s') \<and>
     j_status r' = CLEANING_TRANSCRIPT \<and> artifacts (committed s') = [a] \<and>
     a_payload_json a = Some ''[]''"
proof -
  let ?d = "sample_db (sample_job ''a'' TRANSCRIBING (Some ''w'') (Some 5))"
  let ?call = "commit_artifact_and_advance ''a'' ''w'' CLEANING_TRANSCRIPT 3 30 ''transcribing''
       ''raw_transcript'' ''fp'' 1 ''inline_json'' (Some ''[]'') None None None None (open_session ?d)"
  have "\<exists>r'. fst ?call = Inr r'"
    unfolding commit_artifact_and_advance_def result_write_tx [OF quiet_startable [OF quiet_open_session]]
    by (simp add: exit_validate transcribing_to_cleaning update_returning_def insert_artifact_def
        sample_db_def owned_row_def lease_live_def find_job_def find_artifact_def patch_jobs_def
        empty_database_def get_required_def Let_def)
  then obtain r' s' where c: "?call = (Inr r', s')" by (metis prod.collapse)
  have "jobs_wf ?d" by (rule sample_running_wf) simp_all
  with artifact_committed_with_step [OF quiet_open_session _ _ c] c show ?thesis
    by (auto simp: find_artifact_def)
qed

section \<open>Retries\<close>

text \<open>
  A retryable failure comes back exactly when it may: after \<open>mark_failure\<close> the job waits
  without a lease, and it can be claimed at an instant exactly if the scheduled retry is due
  and attempts are left. A job that fails retryably on its last attempt is therefore never
  claimable again: it stays in \<open>retry_wait\<close> until a startup sweep fails it.
\<close>
theorem retry_comes_back:
  assumes "quiet s" "jobs_wf (committed s)"
    and "mark_failure k owner now ec True nr ed s = (Inr r', s')"
  shows "\<exists>r. find_job k (committed s) = Some r \<and> find_job k (committed s') = Some r' \<and>
    j_status r' = RETRY_WAIT \<and> j_lease_owner r' = None \<and> j_stage r' = j_stage r \<and>
    j_error_code r' = Some ec \<and>
    (claimable_where later r' \<longleftrightarrow> j_attempt r < j_max_attempts r \<and> due nr later) \<and>
    (claimable_where later r' \<longrightarrow>
       fst (claim_status r') = (case j_stage r of None \<Rightarrow> FETCHING_METADATA | Some st \<Rightarrow> st))"
proof -
  note start = quiet_startable [OF assms(1)] and w = quiet_working [OF assms(1)]
  from assms(3) have res: "fst (mark_failure k owner now ec True nr ed s) = Inr r'"
    and db: "committed s' = committed (snd (mark_failure k owner now ec True nr ed s))" by simp_all
  note res = res [unfolded mark_failure_def result_write_tx [OF start] w]
  note db = db [unfolded mark_failure_def committed_write_tx w if_P [OF start]]
  from res obtain job where job: "orm_job (opened s) k = Some job"
    by (cases "orm_job (opened s) k") auto
  note res = res [unfolded job option.case exit_validate Let_def]
    and db = db [unfolded job option.case exit_validate Let_def]
  have valid: "is_valid_transition (j_status job) (if True then RETRY_WAIT else FAILED)"
    using res by (auto split: if_splits)
  note res = res [unfolded if_P [OF valid]] and db = db [unfolded if_P [OF valid]]
  show ?thesis
    apply (rule guarded_updateE [OF res db])
    apply (erule owned_update [OF assms(1,2) job])
    subgoal by simp
    subgoal by simp
    subgoal premises prems for r
      using prems by (auto simp: claimable_where_def claim_status_def Let_def)
    done
qed

theorem retry_comes_back_witness:
  "\<exists>r' s'. mark_failure ''a'' ''w'' 3 ''NETWORK_ERROR'' True (Some 20) None
      (open_session (sample_db (sample_job ''a'' TRANSCRIBING (Some ''w'') (Some 5)))) = (Inr r', s') \<and>
    \<not> claimable_where 19 r' \<and> claimable_where 20 r'"
proof -
  let ?d = "sample_db (sample_job ''a'' TRANSCRIBING (Some ''w'') (Some 5))"
  let ?call = "mark_failure ''a'' ''w'' 3 ''NETWORK_ERROR'' True (Some 20) None (open_session ?d)"
  have "\<exists>r'. fst ?call = Inr r'"
    unfolding mark_failure_def result_write_tx [OF quiet_startable [OF quiet_open_session]]
    by (simp add: exit_validate transition_simps update_returning_def sample_db_def owned_row_def
        lease_live_def find_job_def patch_jobs_def get_required_def)
  then obtain r' s' where c: "?call = (Inr r', s')" by (metis prod.collapse)
  have wf: "jobs_wf ?d" by (rule sample_running_wf) simp_all
  from retry_comes_back [OF quiet_open_session _ c, of 19] retry_comes_back [OF quiet_open_session _ c, of 20]
    c wf show ?thesis by (auto simp: due_def)
qed

section \<open>Cancellation\<close>

text \<open>
  A cancel request is never lost. Once a job carries one, no run of calls clears it; and
  a job parked for a model when the request arrived stays parked or ends cancelled: no
  finished download ever resumes it.
\<close>
theorem cancel_request_survives:
  assumes "jobs_wf d" "call_run cs d d'" "find_job k d = Some r"
    and "j_cancel_requested_at r \<noteq> None"
  shows "\<exists>r'. find_job k d' = Some r' \<and> j_cancel_requested_at r' \<noteq> None \<and>
    (j_status r = WAITING_FOR_MODEL \<and> j_lease_owner r = None \<longrightarrow>
       j_status r' = WAITING_FOR_MODEL \<and> j_lease_owner r' = None \<or> j_status r' = CANCELLED)"
proof (rule call_run_row [OF assms(2,1,3)])
  show "j_cancel_requested_at r \<noteq> None \<and>
    (j_status r = WAITING_FOR_MODEL \<and> j_lease_owner r = None \<longrightarrow>
       j_status r = WAITING_FOR_MODEL \<and> j_lease_owner r = None \<or> j_status r = CANCELLED)"
    using assms(4) by simp
next
  fix c r1 r2
  assume ok: "job_ok r1"
    and I: "j_cancel_requested_at r1 \<noteq> None \<and>
      (j_status r = WAITING_FOR_MODEL \<and> j_lease_owner r = None \<longrightarrow>
         j_status r1 = WAITING_FOR_MODEL \<and> j_lease_owner r1 = None \<or> j_status r1 = CANCELLED)"
    and step: "row_write (actor c) (call_time c) r1 r2 \<or>
      sweeps_exhausted c \<and> exhausted r1 \<and> r2 = failed_row (call_time c) r1"
  have "j_cancel_requested_at r2 \<noteq> None"
    using step I row_write_cancel_kept [of "actor c" "call_time c" r1 r2] by (auto simp: failed_row_def)
  moreover have "j_status r2 = CANCELLED" if "j_status r1 = WAITING_FOR_MODEL" "j_lease_owner r1 = None"
  proof -
    have "\<not> exhausted r1" using that by (simp add: exhausted_def)
    moreover have "\<not> due (j_lease_expires_at r1) (call_time c)"
      using ok that(2) by (simp add: job_ok_def due_def)
    ultimately show ?thesis using step I that row_write_parked_cancel [of _ _ r1 r2] by blast
  qed
  moreover have "j_status r1 \<noteq> CANCELLED"
    using step ok row_write_terminal [of "actor c" "call_time c" r1 r2]
    by (auto simp: exhausted_def running_iff terminal_iff)
  ultimately show "j_cancel_requested_at r2 \<noteq> None \<and>
      (j_status r = WAITING_FOR_MODEL \<and> j_lease_owner r = None \<longrightarrow>
         j_status r2 = WAITING_FOR_MODEL \<and> j_lease_owner r2 = None \<or> j_status r2 = CANCELLED)"
    using I by meson
qed

definition parked_job :: "string \<Rightarrow> string \<Rightarrow> time option \<Rightarrow> job" where
  "parked_job k m cancel = (sample_job k WAITING_FOR_MODEL None None)
     \<lparr>j_asr_recommendation_model_id := Some m, j_cancel_requested_at := cancel\<rparr>"

lemma parked_wf: "jobs_wf (sample_db (parked_job k m cancel))"
  by (rule sample_wf) (simp_all add: parked_job_def job_ok_def sample_job_def new_job_def)

theorem cancel_request_survives_witness:
  "\<exists>r'. find_job ''a'' (committed (exec (ResumeWaiting ''m'' 5)
      (open_session (sample_db (parked_job ''a'' ''m'' (Some 4)))))) = Some r' \<and>
    j_cancel_requested_at r' \<noteq> None \<and> j_status r' \<noteq> TRANSCRIBING"
proof -
  have "call_run [ResumeWaiting ''m'' 5] (sample_db (parked_job ''a'' ''m'' (Some 4)))
      (committed (exec (ResumeWaiting ''m'' 5) (open_session (sample_db (parked_job ''a'' ''m'' (Some 4))))))"
    using call_step_open [of "ResumeWaiting ''m'' 5"] by simp
  from cancel_request_survives [OF parked_wf this, of "''a''" "parked_job ''a'' ''m'' (Some 4)"]
  show ?thesis by (auto simp: parked_job_def)
qed

text \<open>
  What a cancellation request does from a fresh session, by the state of the job: an
  unknown job is reported as absent, a finished one is returned untouched, a job nobody is
  working on (queued, waiting for its retry or for a model) is cancelled at once, and a
  running one only gets the request on record, its lease and status left to its worker.
  No other job is written.
\<close>
theorem request_cancellation_exact:
  assumes "jobs_wf d" "request_cancellation k now (open_session d) = (res, s')"
  shows "(case find_job k d of
      None \<Rightarrow> res = Inr None \<and> committed s' = d
    | Some r \<Rightarrow>
        if j_status r \<in> TERMINAL_JOB_STATUSES then res = Inr (Some r) \<and> committed s' = d
        else (\<exists>r'. res = Inr (Some r') \<and> find_job k (committed s') = Some r' \<and>
          j_cancel_requested_at r' = Some now \<and>
          (if j_status r \<in> RUNNING_STATES then same_but_cancel r r'
           else j_status r' = CANCELLED \<and> j_error_code r' = Some CANCELLED_BY_USER \<and>
             j_next_retry_at r' = None \<and> j_lease_owner r' = None))) \<and>
    (\<forall>k'. k' \<noteq> k \<longrightarrow> find_job k' (committed s') = find_job k' d)"
proof -
  let ?s = "open_session d"
  note start = quiet_startable [OF quiet_open_session, of d]
  have res: "res = fst (request_cancellation k now ?s)"
    and db: "committed s' = committed (snd (request_cancellation k now ?s))" using assms(2) by simp_all
  note eqs = res [unfolded request_cancellation_def result_write_tx [OF start]]
    db [unfolded request_cancellation_def committed_write_tx if_P [OF start]]
  show ?thesis
  proof (cases "find_job k d")
    case None
    with eqs show ?thesis by simp
  next
    case (Some r)
    have r: "r \<in> set (jobs d)" "j_job_id r = k" using find_job_in [OF Some] by simp_all
    show ?thesis
    proof (cases "j_status r \<in> TERMINAL_JOB_STATUSES")
      case True
      with eqs Some show ?thesis by simp
    next
      case False
      let ?P = "\<lambda>x. j_id x = j_id r \<and> j_status x = j_status r"
      let ?f = "\<lambda>x. if j_status r \<in> {QUEUED, RETRY_WAIT, WAITING_FOR_MODEL}
        then x\<lparr>j_cancel_requested_at := Some now, j_updated_at := now, j_status := CANCELLED,
              j_error_code := Some CANCELLED_BY_USER, j_retryable := False,
              j_next_retry_at := None, j_lease_owner := None, j_lease_expires_at := None\<rparr>
        else x\<lparr>j_cancel_requested_at := Some now, j_updated_at := now\<rparr>"
      have key: "\<And>x. j_job_id (?f x) = j_job_id x" by simp
      have "list_ex ?P (jobs d)" using r(1) by (auto simp: list_ex_iff)
      then have upd: "update_returning ?P ?f d = Some (patch_jobs ?P ?f d)"
        by (simp add: update_returning_def)
      have hit: "find_job k (patch_jobs ?P ?f d) = Some (?f r)"
        by (rule job_store.lookup_patch_hit [OF key Some]) simp
      have other: "find_job k' (patch_jobs ?P ?f d) = find_job k' d" if "k' \<noteq> k" for k'
      proof (rule job_store.lookup_patch_miss [OF key])
        fix x assume "find_job k' d = Some x"
        with jobs_wf_same_id [OF assms(1) _ r(1), of x] find_job_in [of k' d x] that r(2)
        show "\<not> ?P x" by auto
      qed
      have outcome: "res = Inr (Some (?f r))" "committed s' = patch_jobs ?P ?f d"
        using eqs False hit unfolding orm_job_open_session working_open_session Some option.case
          if_not_P [OF False] Let_def upd
        by (simp_all add: get_required_def)
      have fields: "j_cancel_requested_at (?f r) = Some now \<and>
          (if j_status r \<in> RUNNING_STATES then same_but_cancel r (?f r)
           else j_status (?f r) = CANCELLED \<and> j_error_code (?f r) = Some CANCELLED_BY_USER \<and>
             j_next_retry_at (?f r) = None \<and> j_lease_owner (?f r) = None)"
      proof (cases "j_status r \<in> RUNNING_STATES")
        case True
        then have "j_status r \<notin> {QUEUED, RETRY_WAIT, WAITING_FOR_MODEL}" by auto
        then show ?thesis using True unfolding same_but_cancel_def by auto
      next
        case False_running: False
        with False have "j_status r \<in> {QUEUED, RETRY_WAIT, WAITING_FOR_MODEL}"
          by (cases "j_status r" rule: status_classes) auto
        with False_running show ?thesis by simp
      qed
      have "\<exists>r'. res = Inr (Some r') \<and> find_job k (committed s') = Some r' \<and>
          j_cancel_requested_at r' = Some now \<and>
          (if j_status r \<in> RUNNING_STATES then same_but_cancel r r'
           else j_status r' = CANCELLED \<and> j_error_code r' = Some CANCELLED_BY_USER \<and>
             j_next_retry_at r' = None \<and> j_lease_owner r' = None)"
        by (rule exI [of _ "?f r"], unfold outcome(2), intro conjI outcome(1) hit fields [THEN conjunct1]
            fields [THEN conjunct2])
      then show ?thesis
        unfolding Some option.case if_not_P [OF False] using other outcome(2) by metis
    qed
  qed
qed

text \<open>A running job under a live lease.\<close>

theorem request_cancellation_exact_witness:
  "\<exists>r' s'. request_cancellation ''a'' 2
      (open_session (sample_db (sample_job ''a'' TRANSCRIBING (Some ''w'') (Some 5)))) =
      (Inr (Some r'), s') \<and>
    same_but_cancel (sample_job ''a'' TRANSCRIBING (Some ''w'') (Some 5)) r'"
proof -
  let ?d = "sample_db (sample_job ''a'' TRANSCRIBING (Some ''w'') (Some 5))"
  obtain res s' where c: "request_cancellation ''a'' 2 (open_session ?d) = (res, s')" by fastforce
  have "jobs_wf ?d" by (rule sample_running_wf) simp_all
  from request_cancellation_exact [OF this c] c show ?thesis by (auto simp: running_not_terminal)
qed

section \<open>Resuming parked jobs\<close>

definition awaits_model :: "string \<Rightarrow> job \<Rightarrow> bool" where
  "awaits_model m r \<longleftrightarrow>
     j_status r = WAITING_FOR_MODEL \<and> j_asr_recommendation_model_id r = Some m \<and>
     j_cancel_requested_at r = None"

text \<open>
  When a model becomes available, exactly the jobs parked for it without a pending
  cancellation are resumed, each back to transcribing with its error cleared and its lease
  free, and every other job is left alone. A resumed job can be claimed at any instant
  exactly if it has attempts left: parking spends no attempt and resuming grants none, so a
  job parked during its last attempt is resumed but never claimable again.
\<close>
theorem resume_exact:
  assumes "jobs_wf d" "resume_waiting_jobs m now (open_session d) = (res, s')" "find_job k d = Some r"
  shows "\<exists>ks r'. res = Inr ks \<and> (k \<in> set ks \<longleftrightarrow> awaits_model m r) \<and>
    find_job k (committed s') = Some r' \<and>
    (if awaits_model m r
     then j_status r' = TRANSCRIBING \<and> j_stage r' = Some TRANSCRIBING \<and>
       j_error_code r' = None \<and> j_lease_owner r' = None \<and> same_request r r' \<and>
       (claimable_where later r' \<longleftrightarrow> j_attempt r < j_max_attempts r)
     else r' = r)"
proof -
  let ?f = "\<lambda>r. r\<lparr>j_status := TRANSCRIBING, j_stage := Some TRANSCRIBING,
      j_asr_recommendation_model_id := None, j_error_code := None, j_error_detail := None,
      j_retryable := False, j_lease_owner := None, j_lease_expires_at := None, j_updated_at := now\<rparr>"
  let ?P = "\<lambda>r. j_status r = WAITING_FOR_MODEL \<and> j_asr_recommendation_model_id r = Some m \<and>
      j_cancel_requested_at r = None"
  note start = quiet_startable [OF quiet_open_session, of d]
  have res: "res = fst (resume_waiting_jobs m now (open_session d))"
    and db: "committed s' = committed (snd (resume_waiting_jobs m now (open_session d)))"
    using assms(2) by simp_all
  have res: "res = Inr (map j_job_id (filter ?P (jobs d)))"
    unfolding res resume_waiting_jobs_def result_write_tx [OF start] by (simp add: Let_def)
  have db: "committed s' = patch_jobs ?P ?f d"
    unfolding db resume_waiting_jobs_def committed_write_tx if_P [OF start] by (simp add: Let_def)
  have found: "find_job k (committed s') = Some (if ?P r then ?f r else r)"
    unfolding db by (subst job_store.lookup_patch) (simp_all add: assms(3))
  have r: "r \<in> set (jobs d)" "j_job_id r = k" using find_job_in [OF assms(3)] by simp_all
  have only: "x = r" if "x \<in> set (jobs d)" "j_job_id x = k" for x
    using distinct_key_unique [of j_job_id "jobs d" x r] assms(1) that r by (simp add: jobs_wf_def)
  have "k \<in> set (map j_job_id (filter ?P (jobs d))) \<longleftrightarrow>
      (\<exists>x \<in> set (jobs d). j_job_id x = k \<and> ?P x)" by auto
  with only r have "k \<in> set (map j_job_id (filter ?P (jobs d))) \<longleftrightarrow> ?P r" by blast
  then have ks: "k \<in> set (map j_job_id (filter ?P (jobs d))) \<longleftrightarrow> awaits_model m r"
    unfolding awaits_model_def .
  show ?thesis
  proof (cases "awaits_model m r")
    case True
    then have "?P r" by (simp add: awaits_model_def)
    then have "find_job k (committed s') = Some (?f r)" unfolding found by simp
    moreover have "same_request r (?f r)" "claimable_where later (?f r) \<longleftrightarrow> j_attempt r < j_max_attempts r"
      by (simp_all add: same_request_def claimable_where_def)
    ultimately show ?thesis
      unfolding if_P [OF True] using res ks
      by (intro exI [of _ "map j_job_id (filter ?P (jobs d))"] exI [of _ "?f r"]) simp
  next
    case False
    then have "\<not> ?P r" by (simp add: awaits_model_def)
    then have "find_job k (committed s') = Some r" unfolding found by (rule if_not_P [THEN arg_cong])
    then show ?thesis
      unfolding if_not_P [OF False] using res ks
      by (intro exI [of _ "map j_job_id (filter ?P (jobs d))"] exI [of _ r]) blast
  qed
qed

theorem resume_exact_witness:
  "\<exists>r'. fst (resume_waiting_jobs ''m'' 5 (open_session (sample_db (parked_job ''a'' ''m'' None)))) =
      Inr [''a''] \<and>
    find_job ''a'' (committed (exec (ResumeWaiting ''m'' 5)
      (open_session (sample_db (parked_job ''a'' ''m'' None))))) = Some r' \<and>
    claimable_where 6 r'"
proof -
  let ?d = "sample_db (parked_job ''a'' ''m'' None)"
  obtain res s' where c: "resume_waiting_jobs ''m'' 5 (open_session ?d) = (res, s')" by fastforce
  have "fst (resume_waiting_jobs ''m'' 5 (open_session ?d)) = Inr [''a'']"
    unfolding resume_waiting_jobs_def result_write_tx [OF quiet_startable [OF quiet_open_session]]
    by (simp add: Let_def sample_db_def parked_job_def)
  with resume_exact [OF parked_wf c, of "''a''" "parked_job ''a'' ''m'' None" 6] c show ?thesis
    by (auto simp: parked_job_def awaits_model_def)
qed

end
