(* ===== verification/Engine.thy ===== *)
theory Engine
  imports JobTheorems
begin

text \<open>
  The recovery sweep of \<open>runtime/engine.py\<close>: before any worker starts, one session releases
  the leases that ran out, fails the jobs that have no attempt left and lands the
  cancellations that nobody consumed.
\<close>

record recovery_report =
  rv_released_leases :: "string list"
  rv_failed_exhausted :: "string list"
  rv_landed_cancellations :: "string list"

definition recover_on_startup :: "time \<Rightarrow> session \<Rightarrow> recovery_report outcome \<times> session" where
  "recover_on_startup now s =
     (case recover_stale_jobs now s of
        (Inl e, s1) \<Rightarrow> (Inl e, s1)
      | (Inr released, s1) \<Rightarrow>
         (case fail_exhausted_retries now s1 of
            (Inl e, s2) \<Rightarrow> (Inl e, s2)
          | (Inr failed, s2) \<Rightarrow>
             (case land_dangling_cancellations now s2 of
                (Inl e, s3) \<Rightarrow> (Inl e, s3)
              | (Inr landed, s3) \<Rightarrow>
                  (Inr \<lparr>rv_released_leases = map j_job_id released,
                        rv_failed_exhausted = map j_job_id failed,
                        rv_landed_cancellations = map j_job_id landed\<rparr>, s3))))"

section \<open>One sweep\<close>

lemma sweep_rows:
  assumes "distinct (map j_id t)" "\<And>r. j_id (f r) = j_id r"
  shows "filter (\<lambda>r. j_id r \<in> set (map j_id (filter P t))) (update_where P f t) = map f (filter P t)"
proof -
  have "filter (\<lambda>r. j_id r \<in> set (map j_id (filter P t))) (update_where P f u) = map f (filter P u)"
    if "set u \<subseteq> set t" for u
    using that
  proof (induction u)
    case (Cons r u)
    have "j_id r \<in> set (map j_id (filter P t)) \<longleftrightarrow> P r"
      using Cons.prems assms(1) distinct_key_unique [of j_id t] by auto
    with Cons show ?case by (simp add: assms(2))
  qed simp
  then show ?thesis by blast
qed

text \<open>
  A sweep on a session without cached instances: it succeeds, reports the rows it matched
  and leaves the session ready for the next one.
\<close>

lemma sweep_run:
  assumes "quiet s" "job_cache s = (\<lambda>_. None)" "distinct (map j_id (jobs (committed s)))"
    and "\<And>r. j_id (f r) = j_id r" "\<And>r. j_job_id (f r) = j_job_id r"
  obtains rows s' where "write_tx (sweep P f) s = (Inr rows, s')" "quiet s'"
    "job_cache s' = (\<lambda>_. None)"
    "map j_job_id rows = map j_job_id (filter P (jobs (committed s)))"
    "jobs (committed s') = update_where P f (jobs (committed s))"
proof -
  let ?c = "committed s" and ?w = "write_tx (sweep P f) s"
  have w: "?w = leave_tx (sweep P f (opened s)) (opened s)" "working (opened s) = ?c"
    using assms(1) by (simp_all add: write_tx_ok quiet_startable quiet_working)
  have d: "committed (snd ?w) = patch_jobs P f ?c"
    using assms(1) by (simp add: committed_write_tx quiet_startable quiet_working)
  have "job_cache (snd ?w) = (\<lambda>_. None) \<and> tx (snd ?w) \<noteq> Immediate \<and> \<not> has_dml (snd ?w) \<and>
      \<not> pending (snd ?w) \<and> locked (snd ?w) = locked s"
    unfolding w(1) sweep_def Let_def using assms(1,2)
    by (auto simp: exit_defs)
  then have q: "quiet (snd ?w)" "job_cache (snd ?w) = (\<lambda>_. None)"
    using assms(1) by (auto simp: quiet_def refused_def cache_wf_def opened_def exit_defs)
  have "fst ?w = Inr (map f (filter P (jobs ?c)))"
    unfolding w(1) result_leave_tx sweep_def Let_def using w(2) assms(3,4)
    by (auto simp: committed_opened quiet_startable [OF assms(1)] patch_jobs_def
        sweep_rows [simplified])
  moreover have "map j_job_id (map f (filter P (jobs ?c))) = map j_job_id (filter P (jobs ?c))"
    using assms(5) by simp
  moreover have "jobs (committed (snd ?w)) = update_where P f (jobs ?c)"
    by (simp add: d patch_jobs_def)
  ultimately show thesis using that [of "map f (filter P (jobs ?c))" "snd ?w"] q
    by (metis prod.collapse)
qed

section \<open>What start-up leaves behind\<close>

definition lease_over :: "time \<Rightarrow> job \<Rightarrow> bool" where
  "lease_over now r \<longleftrightarrow> due (j_lease_expires_at r) now \<and> j_status r \<notin> TERMINAL_JOB_STATUSES"

definition dangling :: "job \<Rightarrow> bool" where
  "dangling r \<longleftrightarrow> j_status r = WAITING_FOR_MODEL \<and> j_cancel_requested_at r \<noteq> None"

definition released_row :: "time \<Rightarrow> job \<Rightarrow> job" where
  "released_row now r =
     r\<lparr>j_lease_owner := None, j_lease_expires_at := None, j_updated_at := now\<rparr>"

definition cancelled_row :: "time \<Rightarrow> job \<Rightarrow> job" where
  "cancelled_row now r =
     r\<lparr>j_status := CANCELLED, j_error_code := Some CANCELLED_BY_USER, j_retryable := False,
       j_lease_owner := None, j_lease_expires_at := None, j_updated_at := now\<rparr>"

text \<open>The row a job has after the recovery, said in one go.\<close>

definition recovered :: "time \<Rightarrow> job \<Rightarrow> job" where
  "recovered now r =
     (if exhausted r then failed_row now r
      else if dangling r then cancelled_row now r
      else if lease_over now r then released_row now r
      else r)"

text \<open>No lease has run out, no attempts are used up, no cancellation is left to land.\<close>

definition settled :: "time \<Rightarrow> job \<Rightarrow> bool" where
  "settled now r \<longleftrightarrow> \<not> lease_over now r \<and> \<not> exhausted r \<and> \<not> dangling r"

lemma settled_recovered: "settled now (recovered now r)"
  by (auto simp: settled_def recovered_def lease_over_def exhausted_def dangling_def failed_row_def
      released_row_def cancelled_row_def
      due_def running_not_terminal running_iff split: option.splits)


text \<open>The three statements, named.\<close>

lemma sweep_eqs:
  "recover_stale_jobs now = write_tx (sweep (lease_over now) (released_row now))"
  "fail_exhausted_retries now = write_tx (sweep exhausted (failed_row now))"
  "land_dangling_cancellations now = write_tx (sweep dangling (cancelled_row now))"
  by (simp_all add: recover_stale_jobs_def fail_exhausted_retries_def land_dangling_cancellations_def
      lease_over_def [abs_def] exhausted_def [abs_def] dangling_def [abs_def]
      released_row_def [abs_def] failed_row_def [abs_def] cancelled_row_def [abs_def])

lemma sweep_row_keys [simp]:
  "j_id (released_row now r) = j_id r" "j_job_id (released_row now r) = j_job_id r"
  "j_id (failed_row now r) = j_id r" "j_job_id (failed_row now r) = j_job_id r"
  "j_id (cancelled_row now r) = j_id r" "j_job_id (cancelled_row now r) = j_job_id r"
  by (simp_all add: released_row_def failed_row_def cancelled_row_def)

text \<open>No sweep changes what a later one looks at in the rows it leaves to it.\<close>

lemma exhausted_released [simp]: "exhausted (released_row now r) = exhausted r"
  by (simp add: exhausted_def released_row_def)

lemma dangling_released [simp]: "dangling (released_row now r) = dangling r"
  by (simp add: dangling_def released_row_def)

lemma dangling_failed [simp]: "\<not> dangling (failed_row now r)"
  by (simp add: dangling_def failed_row_def)

lemma dangling_not_exhausted: "dangling r \<Longrightarrow> \<not> exhausted r"
  by (auto simp: dangling_def exhausted_def running_iff)

lemma overwrite_released [simp]:
  "failed_row now (released_row now r) = failed_row now r"
  "cancelled_row now (released_row now r) = cancelled_row now r"
  by (simp_all add: released_row_def failed_row_def cancelled_row_def)

lemma three_sweeps:
  fixes now :: time and t :: "job list"
  defines "t1 \<equiv> update_where (lease_over now) (released_row now) t"
  defines "t2 \<equiv> update_where exhausted (failed_row now) t1"
  defines "t3 \<equiv> update_where dangling (cancelled_row now) t2"
  shows "t3 = map (recovered now) t"
    "map j_job_id (filter exhausted t1) = map j_job_id (filter exhausted t)"
    "map j_job_id (filter dangling t2) = map j_job_id (filter dangling t)"
    "map j_id t1 = map j_id t" "map j_id t2 = map j_id t"
  unfolding t3_def t2_def t1_def
  by (induction t) (auto simp: recovered_def dest: dangling_not_exhausted)

text \<open>
  C32. Start-up recovery, from any well-formed database: it never fails; every job is
  rewritten exactly as its own state demands (no attempt left: failed; parked with an
  unconsumed cancellation: cancelled; lease over: released; anything else untouched); the
  report lists these jobs; and what the workers then find is settled, so that every running
  or waiting job they see still has an attempt left and no lease that ran out.
\<close>
theorem startup_recovery_exact:
  assumes "jobs_wf d" "recover_on_startup now (open_session d) = (res, s')"
  shows "(\<exists>rep. res = Inr rep \<and>
      rv_released_leases rep = map j_job_id (filter (lease_over now) (jobs d)) \<and>
      rv_failed_exhausted rep = map j_job_id (filter exhausted (jobs d)) \<and>
      rv_landed_cancellations rep = map j_job_id (filter dangling (jobs d))) \<and>
    jobs (committed s') = map (recovered now) (jobs d) \<and>
    list_all (settled now) (jobs (committed s'))"
proof -
  note three = three_sweeps [where t = "jobs d" and now = now]
  have ids: "distinct (map j_id (jobs (committed (open_session d))))"
    using assms(1) by (simp add: jobs_wf_def)
  obtain ra sa where a: "recover_stale_jobs now (open_session d) = (Inr ra, sa)" "quiet sa"
      "job_cache sa = (\<lambda>_. None)" "map j_job_id ra = map j_job_id (filter (lease_over now) (jobs d))"
      "jobs (committed sa) = update_where (lease_over now) (released_row now) (jobs d)"
    by (rule sweep_run [OF _ _ ids, of "released_row now" "lease_over now"]) (simp_all add: sweep_eqs)
  have ids1: "distinct (map j_id (jobs (committed sa)))" using ids by (simp add: a(5) three(4))
  obtain rb sb where b: "fail_exhausted_retries now sa = (Inr rb, sb)" "quiet sb"
      "job_cache sb = (\<lambda>_. None)" "map j_job_id rb = map j_job_id (filter exhausted (jobs (committed sa)))"
      "jobs (committed sb) = update_where exhausted (failed_row now) (jobs (committed sa))"
    by (rule sweep_run [OF a(2,3) ids1, of "failed_row now" exhausted]) (simp_all add: sweep_eqs)
  have ids2: "distinct (map j_id (jobs (committed sb)))" using ids by (simp add: b(5) a(5) three(5))
  obtain rc sc where c: "land_dangling_cancellations now sb = (Inr rc, sc)"
      "map j_job_id rc = map j_job_id (filter dangling (jobs (committed sb)))"
      "jobs (committed sc) = update_where dangling (cancelled_row now) (jobs (committed sb))"
    by (rule sweep_run [OF b(2,3) ids2, of "cancelled_row now" dangling]) (simp_all add: sweep_eqs)
  have all: "jobs (committed sc) = map (recovered now) (jobs d)"
    by (simp only: c(3) b(5) a(5) three)
  have "recover_on_startup now (open_session d) =
      (Inr \<lparr>rv_released_leases = map j_job_id ra, rv_failed_exhausted = map j_job_id rb,
            rv_landed_cancellations = map j_job_id rc\<rparr>, sc)"
    by (simp add: recover_on_startup_def a(1) b(1) c(1))
  moreover have "map j_job_id rb = map j_job_id (filter exhausted (jobs d))"
    "map j_job_id rc = map j_job_id (filter dangling (jobs d))"
    by (simp_all only: b(4,5) a(5) c(2) three)
  ultimately show ?thesis
    using assms(2) a(4) by (simp add: all list_all_iff settled_recovered)
qed

text \<open>Applied to a job stranded by its last worker, whose lease ran out at 8.\<close>

theorem startup_recovery_exact_witness:
  "jobs (committed (snd (recover_on_startup 10 (open_session
      (sample_db (sample_job ''j'' TRANSCRIBING (Some ''w'') (Some 8))))))) =
    [recovered 10 (sample_job ''j'' TRANSCRIBING (Some ''w'') (Some 8))]"
proof -
  have "jobs_wf (sample_db (sample_job ''j'' TRANSCRIBING (Some ''w'') (Some 8)))"
    by (intro sample_wf sample_job_ok) (simp_all add: running_iff)
  from startup_recovery_exact [OF this prod.collapse [symmetric], of 10]
  show ?thesis by (simp add: sample_db_def)
qed

end
