(* ===== verification/Worker.thy ===== *)
theory Worker
  imports JobTheorems
begin

text \<open>
  The worker of \<open>runtime/worker.py\<close>: claim a job, drive it stage by stage through its
  handlers, write each outcome under the lease, and stop when the job ends, parks, waits for
  a retry or the lease is lost. Handlers, the clock and everything other actors do
  meanwhile are arguments of the definitions.
\<close>

section \<open>Outcomes of a stage\<close>

record artifact_record =
  ar_stage :: string
  ar_artifact_type :: string
  ar_input_fingerprint :: string
  ar_schema_version :: int
  ar_storage_kind :: string
  ar_payload_json :: "string option"
  ar_relative_path :: "string option"
  ar_content_hash :: "string option"
  ar_byte_size :: "int option"

text \<open>The \<open>display_update\<close> dictionary: the keys the handlers use, \<open>None\<close> for an absent key.\<close>

record display_update =
  du_title :: "utext option"
  du_platform :: "utext option"
  du_subtitle_probe :: "string option"

record stage_outcome =
  so_target :: "job_status option"
  so_progress :: "int option"
  so_artifact :: "artifact_record option"
  so_error_code :: "string option"
  so_error_detail :: "string option"
  so_retryable :: bool
  so_next_retry_at :: "time option"
  so_display_update :: "display_update option"

definition no_outcome :: stage_outcome where
  "no_outcome = \<lparr>so_target = None, so_progress = None, so_artifact = None, so_error_code = None,
     so_error_detail = None, so_retryable = False, so_next_retry_at = None,
     so_display_update = None\<rparr>"

definition success ::
  "job_status \<Rightarrow> int option \<Rightarrow> artifact_record option \<Rightarrow> display_update option \<Rightarrow> stage_outcome" where
  "success target progress artifact display =
     no_outcome\<lparr>so_target := Some target, so_progress := progress, so_artifact := artifact,
       so_display_update := display\<rparr>"

definition transient ::
  "string \<Rightarrow> time option \<Rightarrow> string option \<Rightarrow> display_update option \<Rightarrow> stage_outcome" where
  "transient error_code next_retry_at error_detail display =
     no_outcome\<lparr>so_error_code := Some error_code, so_error_detail := error_detail,
       so_retryable := True, so_display_update := display, so_next_retry_at := next_retry_at\<rparr>"

definition fatal :: "string \<Rightarrow> string option \<Rightarrow> display_update option \<Rightarrow> stage_outcome" where
  "fatal error_code error_detail display =
     no_outcome\<lparr>so_error_code := Some error_code, so_error_detail := error_detail,
       so_display_update := display\<rparr>"

definition MISSING_HANDLER_ERROR :: string where
  "MISSING_HANDLER_ERROR = ''INTERNAL_ERROR''"

definition DEFAULT_RETRY_DELAY :: time where
  "DEFAULT_RETRY_DELAY = 60"

text \<open>\<open>type(exc).__name__\<close>: the class of an exception, never its arguments.\<close>

fun sanitize_error :: "exn \<Rightarrow> string" where
  "sanitize_error (RuntimeError _) = ''RuntimeError''"
| "sanitize_error (KeyError _) = ''KeyError''"
| "sanitize_error (ValueError _) = ''ValueError''"
| "sanitize_error (IllegalTransition _ _) = ''TransitionError''"
| "sanitize_error (LeaseLostError _) = ''LeaseLostError''"
| "sanitize_error (StaleRevisionError _) = ''StaleRevisionError''"
| "sanitize_error (OperationalError _) = ''OperationalError''"
| "sanitize_error (IntegrityError _) = ''IntegrityError''"
| "sanitize_error (PlatformError _) = ''PlatformError''"
| "sanitize_error (RebuildRootUnavailable _) = ''RebuildRootUnavailable''"
| "sanitize_error (MarkdownParseError _) = ''MarkdownParseError''"
| "sanitize_error (UnsupportedConfigError _) = ''UnsupportedConfigError''"
| "sanitize_error (EntryConflictError _) = ''EntryConflictError''"
| "sanitize_error (ConfigWriteError _) = ''ConfigWriteError''"
| "sanitize_error (OSError _ c) = c"
| "sanitize_error (ArtifactIntegrityError _) = ''ArtifactIntegrityError''"
| "sanitize_error (ReportConflictError _) = ''ReportConflictError''"
| "sanitize_error (SynthesisError _) = ''SynthesisError''"
| "sanitize_error (OtherException c) = c"

section \<open>Display columns\<close>

definition display_row :: "display_update \<Rightarrow> job \<Rightarrow> job" where
  "display_row u r =
     r\<lparr>j_title := (if du_title u = None then j_title r else du_title u),
       j_platform := (if du_platform u = None then j_platform r else du_platform u),
       j_subtitle_probe :=
         (if du_subtitle_probe u = None then j_subtitle_probe r else du_subtitle_probe u)\<rparr>"

text \<open>
  The UPDATE runs in the transaction that is open, and the ORM copies the assigned columns
  to the loaded instance. An empty dictionary issues no statement.
\<close>

definition apply_display_update :: "string \<Rightarrow> stage_outcome \<Rightarrow> session \<Rightarrow> session" where
  "apply_display_update k out s =
     (case so_display_update out of
        None \<Rightarrow> s
      | Some u \<Rightarrow>
          if du_title u = None \<and> du_platform u = None \<and> du_subtitle_probe u = None then s
          else (write_db (patch_jobs (\<lambda>r. j_job_id r = k) (display_row u) (working s)) s)
                 \<lparr>job_cache := (job_cache s)(k := map_option (display_row u) (job_cache s k))\<rparr>)"

section \<open>The world around a worker\<close>

type_synonym handler = "job \<Rightarrow> session \<Rightarrow> stage_outcome outcome \<times> session"

text \<open>
  \<open>wk_now i\<close> is the \<open>i\<close>-th reading of the clock. \<open>wk_meanwhile i\<close> is what other
  connections commit between the reads of round \<open>i\<close> and its write; what they commit while a
  handler runs, its own heartbeat included, is part of the handler's result session.
  \<open>wk_reload s r\<close> is what reading \<open>job.job_id\<close> gives after \<open>session.rollback()\<close> ended a
  failed handler in session \<open>s\<close>: SQLAlchemy expires the instance if a transaction was open,
  and refuses to reload an expired attribute outside its greenlet.
\<close>

record worker =
  wk_owner :: string
  wk_lease_seconds :: time
  wk_handlers :: "job_status \<Rightarrow> handler option"
  wk_now :: "nat \<Rightarrow> time"
  wk_meanwhile :: "nat \<Rightarrow> database \<Rightarrow> database"
  wk_reload :: "session \<Rightarrow> job \<Rightarrow> string outcome"

definition interfere :: "(database \<Rightarrow> database) \<Rightarrow> session \<Rightarrow> session" where
  "interfere f s = s\<lparr>committed := f (committed s)\<rparr>"

text \<open>\<open>async with immediate_write_transaction(sess): ...\<close>, not cancelled, commit durable.\<close>

definition in_write :: "(session \<Rightarrow> 'a outcome \<times> session) \<Rightarrow> session \<Rightarrow> 'a outcome \<times> session" where
  "in_write body s =
     (case immediate_write_transaction None False body s of (r, s', n) \<Rightarrow> (r, s'))"

text \<open>The write of a round: others may have committed since the session last read.\<close>

definition round_write ::
  "worker \<Rightarrow> nat \<Rightarrow> (session \<Rightarrow> 'a outcome \<times> session) \<Rightarrow> session \<Rightarrow> 'a outcome \<times> session" where
  "round_write w i body s = in_write body (interfere (wk_meanwhile w i) s)"

section \<open>One round\<close>

datatype verdict = Stop | Continue job

definition stopping :: "'a outcome \<times> session \<Rightarrow> verdict outcome \<times> session" where
  "stopping = (\<lambda>(r, s). (map_sum id (\<lambda>_. Stop) r, s))"

definition continuing :: "job outcome \<times> session \<Rightarrow> verdict outcome \<times> session" where
  "continuing = (\<lambda>(r, s).
     (map_sum id (\<lambda>j. if j_status j = WAITING_FOR_MODEL then Stop else Continue j) r, s))"

text \<open>The clock is read once for the default retry delay and once in the write itself.\<close>

definition settle :: "worker \<Rightarrow> nat \<Rightarrow> string \<Rightarrow> stage_outcome \<Rightarrow> session \<Rightarrow> verdict outcome \<times> session" where
  "settle w i k out s =
     (let owner = wk_owner w; now = wk_now w (2 * i + 2) in
      case so_error_code out of
        Some ec \<Rightarrow>
          if ec = ''CANCELLED_BY_USER''
          then stopping (round_write w i (mark_cancelled k owner now) s)
          else
           (let next_retry_at =
                  (if so_next_retry_at out = None \<and> so_retryable out
                   then Some (wk_now w (2 * i + 1) + DEFAULT_RETRY_DELAY) else so_next_retry_at out)
            in stopping (round_write w i
                 (\<lambda>s1. mark_failure k owner now ec (so_retryable out) next_retry_at
                          (so_error_detail out) (apply_display_update k out s1)) s))
      | None \<Rightarrow>
         (case so_target out of
            None \<Rightarrow> stopping (round_write w i
                 (\<lambda>s1. mark_failure k owner now MISSING_HANDLER_ERROR False None
                          (Some ''handler returned no target'') (apply_display_update k out s1)) s)
          | Some target \<Rightarrow> continuing (round_write w i
              (\<lambda>s1. case so_artifact out of
                 Some a \<Rightarrow>
                   commit_artifact_and_advance k owner target now (wk_lease_seconds w)
                     (ar_stage a) (ar_artifact_type a) (ar_input_fingerprint a)
                     (ar_schema_version a) (ar_storage_kind a) (ar_payload_json a)
                     (ar_relative_path a) (ar_content_hash a) (ar_byte_size a)
                     (so_progress out) (apply_display_update k out s1)
               | None \<Rightarrow>
                   advance_job k owner target now (wk_lease_seconds w) None (so_progress out)
                     (apply_display_update k out s1)) s)))"

text \<open>\<open>get_job\<close> at the end, and leaving the session.\<close>

definition finish :: "string \<Rightarrow> session \<Rightarrow> job option outcome \<times> session" where
  "finish k s = (case get_job k s of (r, s') \<Rightarrow> (Inr r, rollback_tx s'))"

definition conclude :: "string \<Rightarrow> 'a outcome \<times> session \<Rightarrow> job option outcome \<times> session" where
  "conclude k = (\<lambda>(r, s). case r of Inl e \<Rightarrow> (Inl e, rollback_tx s) | Inr _ \<Rightarrow> finish k s)"

text \<open>
  The loop, \<open>None\<close> when the fuel runs out. \<open>session.refresh\<close> raises when the row is gone.
\<close>

fun drive :: "nat \<Rightarrow> worker \<Rightarrow> nat \<Rightarrow> job \<Rightarrow> session \<Rightarrow> (job option outcome \<times> session) option" where
  "drive 0 w i job s = None"
| "drive (Suc n) w i job s =
     (let k = j_job_id job in
      if j_status job \<in> TERMINAL_JOB_STATUSES then Some (finish k s)
      else
       (case wk_handlers w (j_status job) of
          None \<Rightarrow> Some (conclude k (round_write w i
             (mark_failure k (wk_owner w) (wk_now w (2 * i + 2)) MISSING_HANDLER_ERROR False None
                (Some (''no handler for stage '' @ status_value (j_status job)))) s))
        | Some execute \<Rightarrow>
           (case execute job (commit_tx s) of
              (Inl e, s1) \<Rightarrow> Some (conclude k (round_write w i
                 (\<lambda>s2. case wk_reload w s1 job of
                    Inl e' \<Rightarrow> (Inl e', s2)
                  | Inr k' \<Rightarrow> mark_failure k' (wk_owner w) (wk_now w (2 * i + 2)) ''INTERNAL_ERROR''
                               False None (Some (sanitize_error e)) s2) (rollback_tx s1)))
            | (Inr out, s1) \<Rightarrow>
                if find_job k (working (autobegin s1)) = None
                then Some (Inl (RuntimeError ''InvalidRequestError''), rollback_tx (autobegin s1))
                else
                 (case settle w i k out (refresh_job k s1) of
                    (Inl e, s2) \<Rightarrow> Some (Inl e, rollback_tx s2)
                  | (Inr Stop, s2) \<Rightarrow> Some (finish k s2)
                  | (Inr (Continue j), s2) \<Rightarrow> drive n w (Suc i) j (hold_job j s2)))))"

definition run_worker_once ::
  "nat \<Rightarrow> worker \<Rightarrow> database \<Rightarrow> (job option outcome \<times> session) option" where
  "run_worker_once n w d =
     (case in_write (claim_next_job (wk_owner w) (wk_lease_seconds w) (wk_now w 0))
             (open_session d) of
        (Inl e, s) \<Rightarrow> Some (Inl e, rollback_tx s)
      | (Inr None, s) \<Rightarrow> Some (Inr None, rollback_tx s)
      | (Inr (Some job), s) \<Rightarrow> drive n w 0 job (hold_job job s))"

text \<open>
  \<open>run_worker_loop\<close>: \<open>should_stop i\<close> is the answer before the \<open>i\<close>-th claim, \<open>w i\<close> the world
  of that claim, \<open>others i\<close> what happened since the last one. A lost lease is a normal
  take-over, any other exception ends the loop. Ten rounds per job are always enough.
\<close>

fun run_worker_loop ::
  "nat \<Rightarrow> (nat \<Rightarrow> bool) \<Rightarrow> (nat \<Rightarrow> worker) \<Rightarrow> (nat \<Rightarrow> database \<Rightarrow> database) \<Rightarrow> nat \<Rightarrow> database \<Rightarrow>
   (unit outcome \<times> database) option" where
  "run_worker_loop 0 should_stop w others i d = None"
| "run_worker_loop (Suc n) should_stop w others i d =
     (if should_stop i then Some (Inr (), d)
      else
       (case run_worker_once 10 (w i) (others i d) of
          None \<Rightarrow> None
        | Some (res, s) \<Rightarrow>
           (case res of
              Inr _ \<Rightarrow> run_worker_loop n should_stop w others (Suc i) (committed s)
            | Inl (LeaseLostError _) \<Rightarrow> run_worker_loop n should_stop w others (Suc i) (committed s)
            | Inl e \<Rightarrow> Some (Inl e, committed s))))"

section \<open>The heartbeat\<close>

text \<open>
  One entry per time the wait for the stop event ends: the event was set, or the interval
  timed out, with the clock, the database the renewal finds and whether the write lock
  stays taken for longer than the busy timeout. The result is what the heartbeat committed
  on each tick it lived to see.
\<close>

datatype beat = Stopped | Tick time bool database

fun heartbeat_lease :: "string \<Rightarrow> string \<Rightarrow> time \<Rightarrow> beat list \<Rightarrow> database list" where
  "heartbeat_lease k owner lease_seconds [] = []"
| "heartbeat_lease k owner lease_seconds (Stopped # bs) = []"
| "heartbeat_lease k owner lease_seconds (Tick now busy d # bs) =
     (case renew_lease k owner now lease_seconds ((open_session d)\<lparr>locked := busy\<rparr>) of
        (Inl e, s) \<Rightarrow> committed s # heartbeat_lease k owner lease_seconds bs
      | (Inr renewed, s) \<Rightarrow>
          committed s # (if renewed then heartbeat_lease k owner lease_seconds bs else []))"

end
