(* ===== verification/WorkerSteps.thy ===== *)
theory WorkerSteps
  imports Worker JobOutcomes
begin

text \<open>
  What the proofs about the worker rest on: what other actors can do to a job while its
  worker is busy, and the contract every write of the worker honours when it is staged
  behind a display update inside one transaction.
\<close>

section \<open>Everybody else\<close>

text \<open>
  Calls that may happen while a worker drives a job: any call of other actors, and the
  owner's own renewals, route pins and checkpoints, which its heartbeat and handlers make.
\<close>

fun by_others :: "string \<Rightarrow> call \<Rightarrow> bool" where
  "by_others owner (RenewLease k ow now ls) = True"
| "by_others owner (PinRoute k ow now p m v rec) = True"
| "by_others owner (SaveArtifact k ow now sg ty fp sv pj) = True"
| "by_others owner c = (actor c \<noteq> Some owner)"

inductive background :: "string \<Rightarrow> database \<Rightarrow> database \<Rightarrow> bool" for owner where
  start: "background owner d d"
| call: "background owner d d1 \<Longrightarrow> call_step c d1 d2 \<Longrightarrow> by_others owner c \<Longrightarrow> background owner d d2"
| columns: "background owner d d1 \<Longrightarrow> jobs d2 = update_where P (display_row u) (jobs d1) \<Longrightarrow>
     job_seq d2 = job_seq d1 \<Longrightarrow> background owner d d2"
| elsewhere: "background owner d d1 \<Longrightarrow> jobs d2 = jobs d1 \<Longrightarrow> job_seq d2 = job_seq d1 \<Longrightarrow>
     background owner d d2"

text \<open>What this leaves of a row for its worker.\<close>

definition same_hold :: "job \<Rightarrow> job \<Rightarrow> bool" where
  "same_hold r r' \<longleftrightarrow> same_request r r' \<and> j_status r' = j_status r \<and> j_lease_owner r' = j_lease_owner r"

definition kept_for :: "string \<Rightarrow> job \<Rightarrow> job \<Rightarrow> bool" where
  "kept_for owner r r' \<longleftrightarrow> same_request r r' \<and>
     (j_lease_owner r' = Some owner \<longrightarrow> j_lease_owner r = Some owner \<and> j_status r' = j_status r)"

lemma kept_for_refl [simp]: "kept_for owner r r"
  by (simp add: kept_for_def same_request_def)

lemma kept_for_trans: "kept_for owner r r1 \<Longrightarrow> kept_for owner r1 r2 \<Longrightarrow> kept_for owner r r2"
  by (auto simp: kept_for_def same_request_def)

lemma same_hold_kept: "same_hold r r' \<Longrightarrow> kept_for owner r r'"
  by (auto simp: same_hold_def kept_for_def)

lemma display_row_simps [simp]:
  "j_id (display_row u r) = j_id r" "j_job_id (display_row u r) = j_job_id r"
  "j_status (display_row u r) = j_status r" "j_stage (display_row u r) = j_stage r"
  "j_lease_owner (display_row u r) = j_lease_owner r"
  "j_lease_expires_at (display_row u r) = j_lease_expires_at r"
  "j_cancel_requested_at (display_row u r) = j_cancel_requested_at r"
  "j_attempt (display_row u r) = j_attempt r" "j_max_attempts (display_row u r) = j_max_attempts r"
  by (simp_all add: display_row_def)

lemma display_row_request [simp]: "same_request r (display_row u r)"
  by (simp add: same_request_def display_row_def)

lemma display_row_ok [simp]: "job_ok (display_row u r) = job_ok r"
  by (simp add: job_ok_def)

lemma display_row_live [simp]: "lease_live owner now (display_row u r) = lease_live owner now r"
  by (simp add: lease_live_def)

lemma pin_holds:
  assumes q: "quiet s"
  shows "job_delta same_hold (committed s) (committed (snd (pin_job_asr_route k owner now p m v rec s)))"
  unfolding pin_job_asr_route_def
  apply (rule delta_write_tx [OF q], rule delta_orm, simp, rule delta_update [OF q])
  subgoal by simp
  subgoal by simp
  subgoal by (simp add: quiet_working [OF q])
  subgoal by (simp add: quiet_working [OF q])
  subgoal by (simp add: same_hold_def same_request_def)
  done

lemma renew_holds:
  assumes q: "quiet s"
  shows "job_delta same_hold (committed s) (committed (snd (renew_lease k owner now ls s)))"
  unfolding renew_lease_def
  apply (rule delta_write_tx [OF q], rule delta_update [OF q])
  subgoal by simp
  subgoal by simp
  subgoal by (simp add: quiet_working [OF q])
  subgoal by (simp add: quiet_working [OF q])
  subgoal by (simp add: same_hold_def same_request_def)
  done

text \<open>The checkpoint write touches no job: its guard only rewrites \<open>updated_at\<close> to itself.\<close>

lemma save_holds:
  assumes q: "quiet s"
  shows "job_delta same_hold (committed s)
    (committed (snd (save_artifact_inline k owner now sg ty fp sv pj s)))"
proof -
  have "job_delta same_hold (committed s)
      (patch_jobs (\<lambda>r. j_job_id r = k \<and> lease_live owner now r)
         (\<lambda>r. r\<lparr>j_updated_at := j_updated_at r\<rparr>) (committed s))" (is "job_delta _ _ ?d")
    by (rule job_delta_patch) (simp_all add: same_hold_def same_request_def)
  then have "job_delta same_hold (committed s) (?d\<lparr>artifacts := x, artifact_seq := y\<rparr>)"
    "job_delta same_hold (committed s) (?d\<lparr>artifacts := x\<rparr>)" for x y
    by (simp_all add: job_delta_def)
  then show ?thesis
    unfolding save_artifact_inline_def
    by (intro delta_write_tx [OF q])
      (simp add: update_returning_def quiet_working [OF q] insert_artifact_def split: option.split)
qed

text \<open>A row write made by somebody else leaves the row to its worker or takes it away.\<close>

lemma row_write_kept: "row_write a now r r' \<Longrightarrow> a \<noteq> Some owner \<Longrightarrow> kept_for owner r r'"
proof (induction rule: row_write.induct)
  case (advance owner' now r r')
  then show ?case by (auto simp: kept_for_def lease_live_def)
next
  case (owned owner' now r r')
  then show ?case by (auto simp: kept_for_def)
qed (auto simp: kept_for_def same_request_def lease_live_def)

lemma failed_row_kept: "kept_for owner r (failed_row now r)"
  by (simp add: kept_for_def same_request_def failed_row_def)

lemma others_step:
  assumes "call_step c d d'" "by_others owner c" "jobs_wf d" "find_job k d = Some r"
  shows "\<exists>r'. find_job k d' = Some r' \<and> kept_for owner r r'"
proof (cases "actor c = Some owner")
  case True
  from assms(1) have "job_delta same_hold d d'"
  proof (rule call_stepE)
    fix s assume s: "d = committed s" "d' = committed (exec c s)" "quiet s" "cache_ok s"
    show ?thesis
      unfolding s(1,2) using assms(2) True pin_holds [OF s(3)] renew_holds [OF s(3)] save_holds [OF s(3)]
      by (cases c) simp_all
  qed
  then show ?thesis
    by (rule job_delta_find [OF _ _ assms(4)])
      (auto simp: same_hold_def same_request_def intro: same_hold_kept [unfolded same_hold_def same_request_def])
next
  case False
  from assms(1,3,4) show ?thesis
  proof (rule call_step_row)
    fix r' assume "find_job k d' = Some r'" "r' = r \<or> row_write (actor c) (call_time c) r r' \<or>
      sweeps_exhausted c \<and> exhausted r \<and> r' = failed_row (call_time c) r"
    with row_write_kept [OF _ False] failed_row_kept show ?thesis by auto
  qed
qed

lemma background_wf: "background owner d d' \<Longrightarrow> jobs_wf d \<Longrightarrow> jobs_wf d'"
proof (induction rule: background.induct)
  case (call d d1 c d2)
  then show ?case using call_step_wf by blast
next
  case (columns d d1 d2 P u)
  then show ?case
    by (auto simp: jobs_wf_def map_key_update_where set_update_where)
next
  case (elsewhere d d1 d2)
  then show ?case by (simp add: jobs_wf_def)
qed simp

lemma background_row:
  assumes "background owner d d'" "jobs_wf d" "find_job k d = Some r"
  shows "\<exists>r'. find_job k d' = Some r' \<and> kept_for owner r r'"
  using assms
proof (induction rule: background.induct)
  case (start d)
  then show ?case by simp
next
  case (call d d1 c d2)
  then obtain r1 where r1: "find_job k d1 = Some r1" "kept_for owner r r1" by auto
  have "jobs_wf d1" using call by (blast intro: background_wf)
  from others_step [OF call.hyps(2,3) this r1(1)] r1(2) show ?case by (blast intro: kept_for_trans)
next
  case (columns d d1 d2 P u)
  then obtain r1 where r1: "find_job k d1 = Some r1" "kept_for owner r r1" by auto
  have "find_job k d2 = map_option (\<lambda>r. if P r then display_row u r else r) (find_job k d1)"
    unfolding find_job_def columns.hyps(2) by (rule select_first_update_where) simp
  moreover have "kept_for owner r1 (if P r1 then display_row u r1 else r1)"
    by (simp add: same_hold_kept same_hold_def)
  ultimately show ?case using r1 kept_for_trans [OF r1(2)] by auto
next
  case (elsewhere d d1 d2)
  then show ?case by (simp add: find_job_def)
qed


section \<open>A write staged behind a display update\<close>

text \<open>
  The sessions a round writes from: open for reading at most, without unpublished work, and
  with instances and a snapshot that are older or newer versions of stored rows.
\<close>

definition known :: "job \<Rightarrow> database \<Rightarrow> bool" where
  "known c d \<longleftrightarrow> (\<exists>r. find_job (j_job_id c) d = Some r \<and> j_id r = j_id c)"

definition ready :: "session \<Rightarrow> bool" where
  "ready s \<longleftrightarrow> tx s \<noteq> Immediate \<and> \<not> has_dml s \<and> \<not> pending s \<and> \<not> locked s \<and>
     (\<forall>k c. job_cache s k = Some c \<longrightarrow> j_job_id c = k \<and> job_ok c \<and> known c (committed s)) \<and>
     (tx s = Deferred \<longrightarrow> (\<forall>k c. find_job k (working s) = Some c \<longrightarrow> job_ok c \<and> known c (committed s)))"

text \<open>Right after a write, the session has just begun to read.\<close>

definition fresh :: "session \<Rightarrow> bool" where
  "fresh s \<longleftrightarrow> ready s \<and> tx s = Deferred \<and> working s = committed s"

lemma ready_caches:
  assumes "ready s"
  shows "cache_wf s" "cache_ok s"
  using assms by (fastforce simp: ready_def cache_wf_def known_def, simp add: ready_def cache_ok_def)

lemma ready_quiet: "ready s \<Longrightarrow> quiet s"
  using ready_caches [of s] by (simp add: ready_def quiet_def working_opened startable_def refused_def)

lemma ready_startable: "ready s \<Longrightarrow> startable s"
  by (simp add: ready_quiet quiet_startable)

lemma known_self: "find_job k d = Some r \<Longrightarrow> known r d"
  using find_job_in [of k d r] by (simp add: known_def)

lemma known_background: "known c d \<Longrightarrow> background owner d d' \<Longrightarrow> jobs_wf d \<Longrightarrow> known c d'"
  using background_row [of owner d d'] by (fastforce simp: known_def kept_for_def same_request_def)

lemma known_delta:
  assumes "known c d" "job_delta (row_write a now) d d'"
  shows "known c d'"
proof -
  from assms(1) obtain r where r: "find_job (j_job_id c) d = Some r" "j_id r = j_id c"
    by (auto simp: known_def)
  from assms(2) obtain r' where "find_job (j_job_id c) d' = Some r'" "r' = r \<or> row_write a now r r'"
    by (rule job_delta_find [OF _ row_write_keys r(1)])
  with r(2) show ?thesis by (auto simp: known_def dest: row_write_keys)
qed

lemma known_patch:
  assumes "known c d" "\<And>r. j_job_id (f r) = j_job_id r" "\<And>r. j_id (f r) = j_id r"
  shows "known c (patch_jobs P f d)"
proof -
  from assms(1) obtain r where r: "find_job (j_job_id c) d = Some r" "j_id r = j_id c"
    by (auto simp: known_def)
  have "find_job (j_job_id c) (patch_jobs P f d) = Some (if P r then f r else r)"
    by (simp add: job_store.lookup_patch assms(2) r(1))
  with r(2) assms(3) show ?thesis by (simp add: known_def)
qed

lemma ready_interfere:
  assumes "ready s" "jobs_wf (committed s)" "background owner (committed s) (f (committed s))"
  shows "ready (interfere f s)" "jobs_wf (committed (interfere f s))"
  using assms known_background [OF _ assms(3,2)] background_wf [OF assms(3,2)]
  by (auto simp: ready_def interfere_def)

lemma ready_commit:
  assumes "ready s"
  shows "ready (commit_tx s)" "committed (commit_tx s) = committed s"
  using assms by (auto simp: ready_def commit_tx_def Let_def)

lemma ready_hold: "ready s \<Longrightarrow> find_job k (committed s) = Some j \<Longrightarrow> job_ok j \<Longrightarrow> ready (hold_job j s)"
  using known_self [of k "committed s" j] by (auto simp: ready_def hold_job_def)

lemma fresh_hold:
  "fresh s \<Longrightarrow> find_job k (committed s) = Some j \<Longrightarrow> job_ok j \<Longrightarrow> fresh (hold_job j s)"
  using ready_hold [of s k j] by (simp add: fresh_def, simp add: hold_job_def)

lemma ready_refresh:
  assumes "ready s" "jobs_wf (committed s)"
  shows "ready (refresh_job k s)" "committed (refresh_job k s) = committed s"
proof -
  have fresh: "job_ok c \<and> known c (committed s) \<and> j_job_id c = k'"
    if "find_job k' (committed s) = Some c" for k' c
    using find_job_in [OF that] known_self [OF that] jobs_wf_job_ok [OF assms(2)] by blast
  show "ready (refresh_job k s)" "committed (refresh_job k s) = committed s"
    using assms(1) fresh find_job_in [of k "working s"] tx_state.exhaust [of "tx s"]
    by (auto simp: ready_def refresh_job_def autobegin_def emit_begin_def Let_def)
qed

text \<open>
  The contract of an owner's write \<open>op\<close> on the job \<open>k\<close>: it looks only at the transaction's
  own view, and it either raises, with nothing committed, or commits and re-reads a job that
  is there; a success proves that the stored job held the owner's live lease and moved as
  \<open>moves\<close> says; and whatever it writes to the table is a row write of the protocol.
\<close>

locale owner_write =
  fixes op :: "session \<Rightarrow> job outcome \<times> session"
    and k :: string and owner :: string and now :: time and moves :: "job \<Rightarrow> job \<Rightarrow> bool"
  assumes staged: "tx s = Immediate \<Longrightarrow>
      \<exists>x. (\<forall>c. op (s\<lparr>committed := c\<rparr>) = leave_tx x (s\<lparr>committed := c\<rparr>)) \<and>
          ((\<exists>e. x = Raise e \<or> x = RollbackRaise e) \<or>
           (\<exists>d. x = CommitRead d {k} {} (get_required k) \<and> find_job k d \<noteq> None))"
    and succeeds: "quiet s \<Longrightarrow> cache_ok s \<Longrightarrow> jobs_wf (committed s) \<Longrightarrow> op s = (Inr r', s') \<Longrightarrow>
      \<exists>r. find_job k (committed s) = Some r \<and> find_job k (committed s') = Some r' \<and>
        lease_live owner now r \<and> moves r r'"
    and writes: "quiet s \<Longrightarrow> cache_ok s \<Longrightarrow> jobs_wf (committed s) \<Longrightarrow>
      job_delta (row_write (Some owner) now) (committed s) (committed (snd (op s)))"
begin

text \<open>
  Inside a transaction that has already written, the call behaves as on a database that
  holds these writes, and an error leaves them uncommitted.
\<close>

lemma in_transaction:
  assumes "tx s = Immediate" "\<not> locked s" "cache_ok s" "jobs_wf (working s)"
    and "cache_wf (s\<lparr>committed := working s\<rparr>)" "op s = (res, s')"
  shows "case res of
      Inl e \<Rightarrow> committed s' = committed s
    | Inr r' \<Rightarrow> tx s' = Deferred \<and> \<not> has_dml s' \<and> \<not> pending s' \<and> \<not> locked s' \<and>
        (\<forall>k'. job_cache s' k' = (if k' = k then None else job_cache s k')) \<and>
        (\<exists>r. find_job k (working s) = Some r \<and> find_job k (committed s') = Some r' \<and>
           lease_live owner now r \<and> moves r r') \<and>
        job_delta (row_write (Some owner) now) (working s) (committed s')"
proof -
  let ?q = "s\<lparr>committed := working s\<rparr>"
  from staged [OF assms(1)] obtain x where x: "\<And>c. op (s\<lparr>committed := c\<rparr>) = leave_tx x (s\<lparr>committed := c\<rparr>)"
    and ex: "(\<exists>e. x = Raise e \<or> x = RollbackRaise e) \<or>
      (\<exists>d. x = CommitRead d {k} {} (get_required k) \<and> find_job k d \<noteq> None)"
    by blast
  have ops: "op s = leave_tx x s" using x [of "committed s"] by simp
  show ?thesis
  proof (cases res)
    case (Inl e)
    with ex assms(6) ops show ?thesis by (auto simp: rollback_tx_def get_required_def)
  next
    case (Inr r')
    with ex assms(6) ops obtain d where d: "x = CommitRead d {k} {} (get_required k)" by auto
    have q: "quiet ?q" using assms(1,2,5) by (simp add: quiet_def refused_def opened_def)
    have ok: "cache_ok ?q" using assms(3) by (simp add: cache_ok_def)
    have r: "get_required k d = Inr r'" "s' = autobegin (publish d {k} {} s)"
      using ops assms(6) Inr d by simp_all
    have opq: "op ?q = (Inr r', autobegin (publish d {k} {} ?q))"
      using x [of "working s"] d r(1) by simp
    have c: "committed (autobegin (publish d {k} {} ?q)) = d" "committed s' = d"
      by (simp_all add: r(2) exit_defs)
    from succeeds [OF q ok _ opq] assms(2,4) writes [OF q ok] opq c r show ?thesis
      unfolding Inr sum.case by (auto simp: exit_defs)
  qed
qed

end

text \<open>The row the stage's display update makes of a row.\<close>

definition shown :: "stage_outcome \<Rightarrow> job \<Rightarrow> job" where
  "shown out r = (case so_display_update out of None \<Rightarrow> r | Some u \<Rightarrow> display_row u r)"

lemma shown_simps [simp]:
  "j_id (shown out r) = j_id r" "j_job_id (shown out r) = j_job_id r"
  "j_status (shown out r) = j_status r" "j_lease_owner (shown out r) = j_lease_owner r"
  "lease_live owner now (shown out r) = lease_live owner now r"
  "job_ok (shown out r) = job_ok r" "same_request r (shown out r)"
  "j_cancel_requested_at (shown out r) = j_cancel_requested_at r"
  by (simp_all add: shown_def same_request_def display_row_def job_ok_def lease_live_def
      split: option.split)

lemma display_row_empty:
  "du_title u = None \<Longrightarrow> du_platform u = None \<Longrightarrow> du_subtitle_probe u = None \<Longrightarrow> display_row u r = r"
  by (simp add: display_row_def)

lemma patch_jobs_id: "patch_jobs P (\<lambda>r. r) d = d"
  by (simp add: patch_jobs_def update_where_def)

lemma apply_display_update_fields:
  "tx (apply_display_update k out s) = tx s" "locked (apply_display_update k out s) = locked s"
  "committed (apply_display_update k out s) = committed s"
  "working (apply_display_update k out s) = patch_jobs (\<lambda>r. j_job_id r = k) (shown out) (working s)"
  "job_cache (apply_display_update k out s) =
     (job_cache s)(k := map_option (shown out) (job_cache s k))"
proof -
  show "tx (apply_display_update k out s) = tx s" "locked (apply_display_update k out s) = locked s"
    "committed (apply_display_update k out s) = committed s"
    by (simp_all add: apply_display_update_def write_db_def split: option.split)
  have e: "shown out = (\<lambda>r. r)" if "so_display_update out = None \<or> (\<exists>u. so_display_update out = Some u \<and>
      du_title u = None \<and> du_platform u = None \<and> du_subtitle_probe u = None)"
    using that by (auto simp: shown_def display_row_empty fun_eq_iff)
  show "working (apply_display_update k out s) = patch_jobs (\<lambda>r. j_job_id r = k) (shown out) (working s)"
    using e by (auto simp: apply_display_update_def write_db_def shown_def [abs_def] patch_jobs_id split: option.split)
  show "job_cache (apply_display_update k out s) =
     (job_cache s)(k := map_option (shown out) (job_cache s k))"
    using e by (auto simp: apply_display_update_def write_db_def shown_def [abs_def] option.map_ident fun_upd_idem
        split: option.split)
qed


context owner_write
begin

text \<open>The worker's use of the contract: one IMMEDIATE transaction for columns and status.\<close>

lemma staged_write:
  assumes "ready s" "jobs_wf (committed s)"
    and "in_write (\<lambda>s1. op (apply_display_update k out s1)) s = (res, s')"
  shows "case res of
      Inl e \<Rightarrow> committed s' = committed s
    | Inr r' \<Rightarrow> fresh s' \<and> jobs_wf (committed s') \<and>
        (\<exists>r. find_job k (committed s) = Some r \<and> find_job k (committed s') = Some r' \<and>
           lease_live owner now r \<and> moves (shown out r) r') \<and>
        job_delta (row_write (Some owner) now)
          (patch_jobs (\<lambda>r. j_job_id r = k) (shown out) (committed s)) (committed s')"
proof -
  let ?D = "patch_jobs (\<lambda>r. j_job_id r = k) (shown out) (committed s)"
  let ?s1 = "apply_display_update k out (opened s)"
  obtain r2 s2 where op: "op ?s1 = (r2, s2)" by fastforce
  have start: "ensure_immediate_transaction s = (Inr (), opened s)"
    using assms(1) by (simp add: ensure_immediate_ok ready_startable)
  have w: "working ?s1 = ?D" "committed ?s1 = committed s" "tx ?s1 = Immediate" "\<not> locked ?s1"
    using assms(1) by (simp_all add: apply_display_update_fields quiet_working ready_quiet
        committed_opened ready_startable, simp add: ready_def)
  have cache: "job_cache ?s1 = (job_cache s)(k := map_option (shown out) (job_cache s k))"
    by (simp add: apply_display_update_fields)
  have ok: "cache_ok ?s1"
    using ready_caches(2) [OF assms(1)] by (auto simp: cache_ok_def cache)
  have find: "find_job k' ?D = map_option (\<lambda>r. if j_job_id r = k then shown out r else r)
      (find_job k' (committed s))" for k'
    by (rule job_store.lookup_patch) simp
  have wfD: "jobs_wf ?D"
    using assms(2)
    by (auto simp: jobs_wf_def patch_jobs_def map_key_update_where set_update_where)
  have cwf: "cache_wf (?s1\<lparr>committed := working ?s1\<rparr>)"
    using ready_caches(1) [OF assms(1)] by (auto simp: cache_wf_def cache w find split: if_splits)
  note inside = in_transaction [OF w(3,4) ok _ cwf op, unfolded w(1,2), OF wfD]
  show ?thesis
  proof (cases r2)
    case (Inl e)
    with inside op start assms(3) show ?thesis
      by (auto simp: in_write_def immediate_write_transaction_def restore_deferred_def exit_defs)
  next
    case (Inr r')
    note i = inside [unfolded Inr sum.case]
    have res: "res = Inr r'" "committed s' = committed s2" "tx s' = Deferred" "\<not> has_dml s'"
      "\<not> pending s'" "\<not> locked s'" "job_cache s' = job_cache s2" and w': "working s' = committed s'"
      using i op start assms(3) Inr
      by (auto simp: in_write_def immediate_write_transaction_def restore_deferred_def exit_defs)
    from i have delta: "job_delta (row_write (Some owner) now) ?D (committed s')"
      by (simp add: res)
    have wf: "jobs_wf (committed s')"
      using wfD delta by (rule job_delta_wf) (auto dest: row_write_keys intro: row_write_ok)
    have "job_cache s' k' = (if k' = k then None else job_cache s k')" for k'
      using i by (simp add: res cache)
    moreover have "known c (committed s')" if "known c (committed s)" for c
      using known_delta [OF known_patch [OF that] delta] by simp
    ultimately have "ready s'"
      using assms(1) res(3-6) w' known_self jobs_wf_job_ok [OF wf] find_job_in [of _ "committed s'"]
      by (fastforce simp: ready_def)
    then have "fresh s'" using res(3) w' by (simp add: fresh_def)
    moreover from i find [of k] find_job_in [of k "committed s"] obtain r where
      "find_job k (committed s) = Some r" "find_job k (committed s2) = Some r'"
      "lease_live owner now r" "moves (shown out r) r'" by auto
    ultimately show ?thesis using wf delta by (auto simp: res)
  qed
qed

end


section \<open>The four writes honour the contract\<close>

lemma owner_update_result:
  assumes "quiet s" "jobs_wf (committed s)"
    and "write_tx (\<lambda>s. case orm_job s k of None \<Rightarrow> Raise e | Some job \<Rightarrow> B job s) s = (Inr r', s')"
    and "\<And>job. orm_job (opened s) k = Some job \<Longrightarrow> (\<exists>e. B job (opened s) = Raise e) \<or>
      V job \<and> B job (opened s) = (case update_returning (owned_row job owner now) (f job) base of
        None \<Rightarrow> RollbackRaise e' | Some d \<Rightarrow> CommitRead d {k} {} (get_required k))"
    and "jobs base = jobs (committed s)" "\<And>job r. j_job_id (f job r) = j_job_id r"
  obtains r job where "find_job k (committed s) = Some r" "owned_row job owner now r" "V job"
    "orm_job (opened s) k = Some job" "r' = f job r" "find_job k (committed s') = Some r'"
proof -
  note start = quiet_startable [OF assms(1)]
  let ?w = "write_tx (\<lambda>s. case orm_job s k of None \<Rightarrow> Raise e | Some job \<Rightarrow> B job s) s"
  have res: "exit_result (case orm_job (opened s) k of None \<Rightarrow> Raise e | Some job \<Rightarrow> B job (opened s))
      (committed s) = Inr r'"
    using assms(3) result_write_tx [OF start, of "\<lambda>s. case orm_job s k of None \<Rightarrow> Raise e | Some job \<Rightarrow> B job s"]
    by simp
  then obtain job where job: "orm_job (opened s) k = Some job"
    by (cases "orm_job (opened s) k") auto
  from res job assms(4) [OF job] have V: "V job"
    and B: "B job (opened s) = (case update_returning (owned_row job owner now) (f job) base of
        None \<Rightarrow> RollbackRaise e' | Some d \<Rightarrow> CommitRead d {k} {} (get_required k))"
    by auto
  have "committed s' = committed (snd ?w)" using assms(3) by simp
  also have "\<dots> = exit_db (B job (opened s)) (committed s)"
    using start job by (simp add: committed_write_tx)
  finally have db: "committed s' = exit_db (B job (opened s)) (committed s)" .
  show thesis
    by (rule guarded_updateE [OF res [unfolded job option.case B] db [unfolded B]],
        erule owned_update [OF assms(1,2) job _ assms(5)])
      (use assms(6) V job that in auto)
qed

lemma updated_found:
  assumes "orm_job s k = Some job" "update_returning P f base = Some d"
    and "jobs base = jobs (working s)" "\<And>r. j_job_id (f r) = j_job_id r"
  shows "find_job k d \<noteq> None"
proof -
  have "find_job k base = find_job k (working s)" by (simp add: find_job_def assms(3))
  moreover have "find_job k (working s) \<noteq> None" using assms(1) orm_job_None_iff [of s k] by simp
  ultimately show ?thesis
    using assms(2,4) by (auto simp: update_returning_def job_store.lookup_patch split: if_splits)
qed

text \<open>
  A transaction that reads the job, checks and then updates under the lease is staged: its
  body never looks at the committed database.
\<close>

lemma write_tx_immediate: "tx s = Immediate \<Longrightarrow> write_tx body s = leave_tx (body s) s"
  by (simp add: write_tx_def ensure_immediate_transaction_def)

lemma orm_job_committed [simp]: "orm_job (s\<lparr>committed := c\<rparr>) k = orm_job s k"
  by (auto simp: orm_job_def split: option.split)

lemma owner_update_staged:
  fixes e :: exn and B :: "job \<Rightarrow> session \<Rightarrow> job exit"
  assumes "tx s = Immediate"
    and "\<And>job c. B job (s\<lparr>committed := c\<rparr>) = B job s"
    and "\<And>job. orm_job s k = Some job \<Longrightarrow> (\<exists>e. B job s = Raise e) \<or>
      B job s = (case update_returning (owned_row job owner now) (f job) base of
        None \<Rightarrow> RollbackRaise e' | Some d \<Rightarrow> CommitRead d {k} {} (get_required k))"
    and "jobs base = jobs (working s)" "\<And>job r. j_job_id (f job r) = j_job_id r"
  defines "op \<equiv> write_tx (\<lambda>s. case orm_job s k of None \<Rightarrow> Raise e | Some job \<Rightarrow> B job s)"
  shows "\<exists>x. (\<forall>c. op (s\<lparr>committed := c\<rparr>) = leave_tx x (s\<lparr>committed := c\<rparr>)) \<and>
      ((\<exists>e. x = Raise e \<or> x = RollbackRaise e) \<or>
       (\<exists>d. x = CommitRead d {k} {} (get_required k) \<and> find_job k d \<noteq> None))"
proof -
  let ?x = "case orm_job s k of None \<Rightarrow> Raise e | Some job \<Rightarrow> B job s"
  have "op (s\<lparr>committed := c\<rparr>) = leave_tx ?x (s\<lparr>committed := c\<rparr>)" for c
    using assms(1,2) by (simp add: op_def write_tx_immediate cong: option.case_cong)
  moreover have "(\<exists>e. ?x = Raise e \<or> ?x = RollbackRaise e) \<or>
      (\<exists>d. ?x = CommitRead d {k} {} (get_required k) \<and> find_job k d \<noteq> None)"
  proof (cases "orm_job s k")
    case (Some job)
    from assms(3) [OF Some] updated_found [OF Some _ assms(4,5)] show ?thesis
      unfolding Some option.case
      by (cases "update_returning (owned_row job owner now) (f job) base") auto
  qed simp
  ultimately show ?thesis by blast
qed


text \<open>How each of them moves the row. No one touches the display columns.\<close>

definition same_columns :: "job \<Rightarrow> job \<Rightarrow> bool" where
  "same_columns r r' \<longleftrightarrow> j_title r' = j_title r \<and> j_platform r' = j_platform r \<and>
     j_subtitle_probe r' = j_subtitle_probe r"

definition step_to :: "job_status \<Rightarrow> bool \<Rightarrow> job \<Rightarrow> job \<Rightarrow> bool" where
  "step_to st parks r r' \<longleftrightarrow> same_columns r r' \<and> same_request r r' \<and> is_valid_transition (j_status r) st \<and>
     (j_status r' = st \<or> st = WAITING_FOR_MODEL \<and> j_status r' = CANCELLED) \<and>
     (if st \<in> TERMINAL_JOB_STATUSES \<or> st = WAITING_FOR_MODEL \<and> parks then j_lease_owner r' = None
      else j_lease_owner r' = j_lease_owner r)"

definition fails_with :: "string \<Rightarrow> bool \<Rightarrow> job \<Rightarrow> job \<Rightarrow> bool" where
  "fails_with ec retryable r r' \<longleftrightarrow> same_columns r r' \<and> same_request r r' \<and>
     j_status r' = (if retryable then RETRY_WAIT else FAILED) \<and> j_error_code r' = Some ec \<and>
     j_lease_owner r' = None"

definition ends_cancelled :: "job \<Rightarrow> job \<Rightarrow> bool" where
  "ends_cancelled r r' \<longleftrightarrow> same_columns r r' \<and> same_request r r' \<and> j_status r' = CANCELLED \<and>
     j_error_code r' = Some CANCELLED_BY_USER \<and> j_lease_owner r' = None"

lemmas moves_defs =
  step_to_def fails_with_def ends_cancelled_def same_columns_def same_request_def

lemma validate_cases:
  "(case validate_transition a b of Inl e \<Rightarrow> Raise e | Inr _ \<Rightarrow> X) =
     (if is_valid_transition a b then X
      else Raise (IllegalTransition (status_value a) (status_value b)))"
  by (simp add: validate_transition_def)

lemma owned_row_job:
  "owned_row job owner now r \<Longrightarrow> j_status job = j_status r \<and> lease_live owner now r"
  by (simp add: owned_row_def)

interpretation cancel_write: owner_write "mark_cancelled k owner now" k owner now ends_cancelled
  for k owner now
proof unfold_locales
  show "tx s = Immediate \<Longrightarrow>
      \<exists>x. (\<forall>c. mark_cancelled k owner now (s\<lparr>committed := c\<rparr>) = leave_tx x (s\<lparr>committed := c\<rparr>)) \<and>
          ((\<exists>e. x = Raise e \<or> x = RollbackRaise e) \<or>
           (\<exists>d. x = CommitRead d {k} {} (get_required k) \<and> find_job k d \<noteq> None))" for s
    unfolding mark_cancelled_def
    by (rule owner_update_staged [where owner = owner and now = now and base = "working s"
          and f = "\<lambda>_ r. r\<lparr>j_status := CANCELLED, j_error_code := Some CANCELLED_BY_USER,
                     j_lease_owner := None, j_lease_expires_at := None, j_updated_at := now\<rparr>"
          and e' = "LeaseLostError k"]) auto
  show "\<exists>r. find_job k (committed s) = Some r \<and> find_job k (committed s') = Some r' \<and>
        lease_live owner now r \<and> ends_cancelled r r'"
    if "quiet s" "jobs_wf (committed s)" "mark_cancelled k owner now s = (Inr r', s')" for s s' r'
    by (rule owner_update_result [OF that(1,2) that(3) [unfolded mark_cancelled_def], where base = "committed s"
          and V = "\<lambda>_. True" and owner = owner and now = now
          and f = "\<lambda>_ r. r\<lparr>j_status := CANCELLED, j_error_code := Some CANCELLED_BY_USER,
                     j_lease_owner := None, j_lease_expires_at := None, j_updated_at := now\<rparr>"
          and e' = "LeaseLostError k"])
      (use quiet_working [OF that(1)] in \<open>auto simp: moves_defs dest: owned_row_job\<close>)
qed (rule mark_cancelled_delta)

interpretation fail_write:
  owner_write "mark_failure k owner now ec rt nr ed" k owner now "fails_with ec rt"
  for k owner now ec rt nr ed
proof unfold_locales
  let ?f = "\<lambda>r. r\<lparr>j_status := if rt then RETRY_WAIT else FAILED, j_error_code := Some ec,
      j_error_detail := ed, j_retryable := rt, j_next_retry_at := (if rt then nr else None),
      j_lease_owner := None, j_lease_expires_at := None, j_updated_at := now\<rparr>"
  show "tx s = Immediate \<Longrightarrow>
      \<exists>x. (\<forall>c. mark_failure k owner now ec rt nr ed (s\<lparr>committed := c\<rparr>) = leave_tx x (s\<lparr>committed := c\<rparr>)) \<and>
          ((\<exists>e. x = Raise e \<or> x = RollbackRaise e) \<or>
           (\<exists>d. x = CommitRead d {k} {} (get_required k) \<and> find_job k d \<noteq> None))" for s
    unfolding mark_failure_def Let_def validate_cases
    by (rule owner_update_staged [where owner = owner and now = now and base = "working s"
          and f = "\<lambda>_. ?f" and e' = "LeaseLostError k"]) auto
  show "\<exists>r. find_job k (committed s) = Some r \<and> find_job k (committed s') = Some r' \<and>
        lease_live owner now r \<and> fails_with ec rt r r'"
    if "quiet s" "jobs_wf (committed s)" "mark_failure k owner now ec rt nr ed s = (Inr r', s')" for s s' r'
    by (rule owner_update_result [OF that(1,2) that(3) [unfolded mark_failure_def Let_def validate_cases],
          where base = "committed s" and V = "\<lambda>_. True" and owner = owner and now = now
          and f = "\<lambda>_. ?f" and e' = "LeaseLostError k"])
      (use quiet_working [OF that(1)] in \<open>auto simp: moves_defs dest: owned_row_job\<close>)
qed (rule mark_failure_delta)


text \<open>The UPDATE of a step, with \<open>target\<close> its final status and \<open>release\<close> the fate of the lease.\<close>

definition stepped_row ::
  "job_status \<Rightarrow> bool \<Rightarrow> bool \<Rightarrow> time \<Rightarrow> time \<Rightarrow> int option \<Rightarrow> job \<Rightarrow> job \<Rightarrow> job" where
  "stepped_row target landed release now ls pr job r =
     r\<lparr>j_status := target,
       j_stage := (if target \<in> RUNNING_STATES then Some target else j_stage job),
       j_progress := (case pr of None \<Rightarrow> j_progress job | Some p \<Rightarrow> p),
       j_error_code := (if landed then Some CANCELLED_BY_USER else None),
       j_error_detail := None, j_retryable := False, j_updated_at := now,
       j_lease_owner := (if release then None else j_lease_owner r),
       j_lease_expires_at := (if release then None else Some (now + ls))\<rparr>"

lemma stepped_row_key [simp]: "j_job_id (stepped_row target landed release now ls pr job r) = j_job_id r"
  by (simp add: stepped_row_def)

interpretation advance_write:
  owner_write "advance_job k owner st now ls None pr" k owner now "step_to st True"
  for k owner now st ls pr
proof unfold_locales
  let ?landed = "\<lambda>s job. st = WAITING_FOR_MODEL \<and>
      Option.bind (select_first (\<lambda>r. j_id r = j_id job) (jobs (working s))) j_cancel_requested_at \<noteq> None"
  let ?f = "\<lambda>s job. stepped_row (if ?landed s job then CANCELLED else st) (?landed s job)
      ((if ?landed s job then CANCELLED else st) \<in> TERMINAL_JOB_STATUSES \<or>
       (if ?landed s job then CANCELLED else st) = WAITING_FOR_MODEL) now ls pr job"
  note body = advance_job_def Let_def validate_cases option.case(1)
  show "tx s = Immediate \<Longrightarrow>
      \<exists>x. (\<forall>c. advance_job k owner st now ls None pr (s\<lparr>committed := c\<rparr>) = leave_tx x (s\<lparr>committed := c\<rparr>)) \<and>
          ((\<exists>e. x = Raise e \<or> x = RollbackRaise e) \<or>
           (\<exists>d. x = CommitRead d {k} {} (get_required k) \<and> find_job k d \<noteq> None))" for s
    unfolding body
    by (rule owner_update_staged [where owner = owner and now = now and base = "working s"
          and f = "?f s" and e' = "LeaseLostError k"])
      (simp_all add: stepped_row_def [abs_def])
  show "\<exists>r. find_job k (committed s) = Some r \<and> find_job k (committed s') = Some r' \<and>
        lease_live owner now r \<and> step_to st True r r'"
    if "quiet s" "jobs_wf (committed s)" "advance_job k owner st now ls None pr s = (Inr r', s')" for s s' r'
    by (rule owner_update_result [OF that(1,2) that(3) [unfolded body],
          where base = "committed s" and V = "\<lambda>job. is_valid_transition (j_status job) st"
          and owner = owner and now = now and f = "?f (opened s)" and e' = "LeaseLostError k"])
      (use quiet_working [OF that(1)] in
        \<open>auto simp: stepped_row_def [abs_def] moves_defs dest: owned_row_job\<close>)
qed (rule advance_job_delta)

interpretation artifact_write:
  owner_write "commit_artifact_and_advance k owner st now ls sg ty fp sv sk pj rp ch bs pr"
    k owner now "step_to st False"
  for k owner now st ls sg ty fp sv sk pj rp ch bs pr
proof unfold_locales
  let ?op = "commit_artifact_and_advance k owner st now ls sg ty fp sv sk pj rp ch bs pr"
  let ?base = "\<lambda>d. if find_artifact k ty fp d = None then insert_artifact (\<lambda>i.
      \<lparr>a_id = i, a_job_id = k, a_stage = sg, a_artifact_type = ty, a_input_fingerprint = fp,
       a_schema_version = sv, a_storage_kind = sk, a_payload_json = pj, a_relative_path = rp,
       a_content_hash = ch, a_byte_size = bs, a_created_at = now, a_updated_at = now\<rparr>) d else d"
  have jobs_base: "jobs (?base d) = jobs d" for d by (simp add: insert_artifact_def)
  let ?f = "stepped_row st False (st \<in> TERMINAL_JOB_STATUSES) now ls pr"
  note body = commit_artifact_and_advance_def Let_def validate_cases
  show "tx s = Immediate \<Longrightarrow>
      \<exists>x. (\<forall>c. ?op (s\<lparr>committed := c\<rparr>) = leave_tx x (s\<lparr>committed := c\<rparr>)) \<and>
          ((\<exists>e. x = Raise e \<or> x = RollbackRaise e) \<or>
           (\<exists>d. x = CommitRead d {k} {} (get_required k) \<and> find_job k d \<noteq> None))" for s
    unfolding body
    by (rule owner_update_staged [where owner = owner and now = now and base = "?base (working s)"
          and f = ?f and e' = "LeaseLostError k"])
      (simp_all only: jobs_base stepped_row_key, simp_all add: stepped_row_def [abs_def])
  show "\<exists>r. find_job k (committed s) = Some r \<and> find_job k (committed s') = Some r' \<and>
        lease_live owner now r \<and> step_to st False r r'"
    if "quiet s" "jobs_wf (committed s)" "?op s = (Inr r', s')" for s s' r'
    by (rule owner_update_result [OF that(1,2) that(3) [unfolded body],
          where base = "?base (committed s)" and V = "\<lambda>job. is_valid_transition (j_status job) st"
          and owner = owner and now = now and f = ?f and e' = "LeaseLostError k"])
      (use quiet_working [OF that(1)] jobs_base [of "committed s"] in
        \<open>auto simp: stepped_row_def [abs_def] moves_defs dest: owned_row_job\<close>)
qed (rule commit_artifact_delta)

end
