(* ===== verification/WorkerTheorems.thy ===== *)
theory WorkerTheorems
  imports WorkerSteps
begin

text \<open>
  The properties of the worker: a round writes all of its outcome or nothing, the loop ends
  whatever the handlers and the other actors do, and when it ends the worker holds no lease
  and the jobs table is well formed.
\<close>

section \<open>One round\<close>

text \<open>What the stored job becomes, outcome by outcome.\<close>

definition agrees :: "stage_outcome \<Rightarrow> job \<Rightarrow> job \<Rightarrow> bool" where
  "agrees out r r' \<longleftrightarrow>
     (case so_error_code out of
        Some ec \<Rightarrow>
          if ec = ''CANCELLED_BY_USER'' then ends_cancelled r r'
          else fails_with ec (so_retryable out) (shown out r) r'
      | None \<Rightarrow>
         (case so_target out of
            None \<Rightarrow> fails_with ''INTERNAL_ERROR'' False (shown out r) r'
          | Some st \<Rightarrow> step_to st (so_artifact out = None) (shown out r) r'))"

definition next_verdict :: "stage_outcome \<Rightarrow> job \<Rightarrow> verdict" where
  "next_verdict out r' =
     (if so_error_code out = None \<and> so_target out \<noteq> None \<and> j_status r' \<noteq> WAITING_FOR_MODEL
      then Continue r' else Stop)"

lemma no_display [simp]:
  "apply_display_update k no_outcome s = s" "shown no_outcome r = r"
  by (simp_all add: apply_display_update_def shown_def no_outcome_def)

text \<open>The common shape of the five branches of \<open>settle\<close>.\<close>

definition round_result ::
  "string \<Rightarrow> time \<Rightarrow> string \<Rightarrow> database \<Rightarrow> stage_outcome \<Rightarrow> verdict outcome \<times> session \<Rightarrow> bool" where
  "round_result owner now k d out = (\<lambda>(res, s').
     case res of
       Inl e \<Rightarrow> committed s' = d
     | Inr v \<Rightarrow> fresh s' \<and> jobs_wf (committed s') \<and>
         (\<exists>r r'. find_job k d = Some r \<and> lease_live owner now r \<and>
            find_job k (committed s') = Some r' \<and> agrees out r r' \<and> v = next_verdict out r'))"

context owner_write
begin

lemma staged_round:
  assumes "ready s" "jobs_wf (committed s)"
    and "in_write (\<lambda>s1. op (apply_display_update k shows s1)) s = (res, s')"
    and "\<And>r r'. moves (shown shows r) r' \<Longrightarrow> agrees out r r'"
    and "\<And>r r'. moves (shown shows r) r' \<Longrightarrow> v r' = next_verdict out r'"
  shows "round_result owner now k (committed s) out (map_sum id v res, s')"
  using staged_write [OF assms(1-3)] assms(4,5)
  by (cases res) (auto simp: round_result_def)

end

lemma settle_round:
  assumes "ready s" "jobs_wf (committed s)"
    and "background (wk_owner w) (committed s) (wk_meanwhile w i (committed s))"
  shows "round_result (wk_owner w) (wk_now w (2 * i + 2)) k (wk_meanwhile w i (committed s)) out
    (settle w i k out s)"
proof -
  let ?s = "interfere (wk_meanwhile w i) s" and ?now = "wk_now w (2 * i + 2)" and ?ow = "wk_owner w"
  have r: "ready ?s" "jobs_wf (committed ?s)"
    using ready_interfere [OF assms(1,2), of _ "wk_meanwhile w i"] assms(3) by blast+
  have c: "committed ?s = wk_meanwhile w i (committed s)" by (simp add: interfere_def)
  note unf = settle_def Let_def round_write_def stopping_def continuing_def prod.case_eq_if
  show ?thesis
  proof (cases "so_error_code out")
    case None
    note e = None
    show ?thesis
    proof (cases "so_target out")
      case None
      show ?thesis
        unfolding unf e None option.case c [symmetric]
        by (rule fail_write.staged_round [OF r prod.collapse [symmetric]])
          (simp_all add: agrees_def next_verdict_def e None MISSING_HANDLER_ERROR_def)
    next
      case (Some st)
      show ?thesis
      proof (cases "so_artifact out")
        case None
        show ?thesis
          unfolding unf e Some None option.case c [symmetric]
          by (rule advance_write.staged_round [OF r prod.collapse [symmetric]])
            (simp_all add: agrees_def next_verdict_def e Some None)
      next
        case a: (Some a)
        show ?thesis
          unfolding unf e Some a option.case c [symmetric]
          by (rule artifact_write.staged_round [OF r prod.collapse [symmetric]])
            (simp_all add: agrees_def next_verdict_def e Some a)
      qed
    qed
  next
    case (Some ec)
    show ?thesis
    proof (cases "ec = ''CANCELLED_BY_USER''")
      case True
      have "round_result ?ow ?now k (committed ?s) out
        (map_sum id (\<lambda>_. Stop) (fst (in_write (\<lambda>s1. mark_cancelled k ?ow ?now
            (apply_display_update k no_outcome s1)) ?s)),
         snd (in_write (\<lambda>s1. mark_cancelled k ?ow ?now (apply_display_update k no_outcome s1)) ?s))"
        by (rule cancel_write.staged_round [OF r prod.collapse [symmetric]])
          (simp_all add: agrees_def next_verdict_def Some True)
      then show ?thesis
        unfolding unf Some True option.case c [symmetric] by simp
    next
      case False
      show ?thesis
        unfolding unf Some option.case if_not_P [OF False] c [symmetric]
        by (rule fail_write.staged_round [OF r prod.collapse [symmetric]])
          (simp_all add: agrees_def next_verdict_def Some False)
    qed
  qed
qed


section \<open>The loop\<close>

text \<open>
  What the worker relies on. Other actors, and a handler while it runs, act on the jobs
  table through the repository and on the owner's behalf only renew, pin and checkpoint; a
  handler that returns leaves no unpublished writes in the session, and one that parks the
  job for a model produces no artifact; reloading an expired instance gives its own id or
  raises.
\<close>

definition tame :: "worker \<Rightarrow> bool" where
  "tame w \<longleftrightarrow>
     (\<forall>i d. jobs_wf d \<longrightarrow> background (wk_owner w) d (wk_meanwhile w i d)) \<and>
     (\<forall>st h job s res s1. wk_handlers w st = Some h \<longrightarrow> ready s \<longrightarrow> jobs_wf (committed s) \<longrightarrow>
        h job s = (res, s1) \<longrightarrow>
        background (wk_owner w) (committed s) (committed s1) \<and> \<not> locked s1 \<and>
        (\<forall>out. res = Inr out \<longrightarrow> ready s1 \<and>
           (so_target out = Some WAITING_FOR_MODEL \<longrightarrow> so_artifact out = None))) \<and>
     (\<forall>s job k. wk_reload w s job = Inr k \<longrightarrow> k = j_job_id job)"

text \<open>Handlers exist for running stages only, as \<open>build_handlers\<close> registers them.\<close>

definition stage_handlers_only :: "worker \<Rightarrow> bool" where
  "stage_handlers_only w \<longleftrightarrow> (\<forall>st. wk_handlers w st \<noteq> None \<longrightarrow> st \<in> RUNNING_STATES)"

text \<open>How many rounds a status can still take.\<close>

fun rounds_left :: "job_status \<Rightarrow> nat" where
  "rounds_left FETCHING_METADATA = 10"
| "rounds_left FETCHING_SUBTITLES = 9"
| "rounds_left DOWNLOADING_AUDIO = 8"
| "rounds_left TRANSCRIBING = 7"
| "rounds_left CLEANING_TRANSCRIPT = 6"
| "rounds_left CHUNKING = 5"
| "rounds_left SUMMARIZING_CHUNKS = 4"
| "rounds_left GENERATING_REPORT = 3"
| "rounds_left INDEXING = 2"
| "rounds_left _ = 1"

lemma rounds_left_pos: "0 < rounds_left st"
  by (cases st) simp_all

lemma rounds_left_max: "rounds_left st \<le> 10"
  by (cases st) simp_all

lemma rounds_left_decreases:
  assumes "is_valid_transition st st'" "st \<in> RUNNING_STATES" "st' \<noteq> WAITING_FOR_MODEL"
  shows "rounds_left st' < rounds_left st"
  using assms by (auto simp: transition_simps running_iff LINEAR_CHAIN_def)

text \<open>
  The run returned its job, which is stored without a lease and is no longer running, or it
  raised.
\<close>

definition well_ended :: "string \<Rightarrow> job option outcome \<times> session \<Rightarrow> bool" where
  "well_ended k = (\<lambda>(res, s'). jobs_wf (committed s') \<and>
     (\<forall>oj. res = Inr oj \<longrightarrow> (\<exists>j r. oj = Some j \<and> j_job_id j = k \<and>
        find_job k (committed s') = Some r \<and> j_lease_owner r = None \<and> j_status r \<notin> RUNNING_STATES)))"

lemma well_ended_finish:
  assumes "fresh s" "jobs_wf (committed s)" "find_job k (committed s) = Some r"
    "j_lease_owner r = None" "j_status r \<notin> RUNNING_STATES"
  shows "well_ended k (finish k s)"
proof -
  have a: "autobegin s = s" "working s = committed s"
    using assms(1) by (simp_all add: autobegin_def fresh_def)
  have "case job_cache s k of None \<Rightarrow> True | Some c \<Rightarrow> j_job_id c = k"
    using assms(1) by (auto simp: fresh_def ready_def split: option.split)
  then have "\<exists>j. orm_job s k = Some j \<and> j_job_id j = k"
    using find_job_in [OF assms(3)] assms(3) a by (auto simp: orm_job_def split: option.splits)
  with assms show ?thesis
    by (auto simp: well_ended_def finish_def get_job_def a rollback_tx_def Let_def)
qed

lemma well_ended_error: "jobs_wf (committed s) \<Longrightarrow> well_ended k (Inl e, rollback_tx s)"
  by (simp add: well_ended_def exit_defs)

text \<open>A round that only records a failure.\<close>

lemma failure_round:
  assumes "ready s" "jobs_wf (committed s)"
    and "background (wk_owner w) (committed s) (wk_meanwhile w i (committed s))"
  shows "well_ended k (conclude k (round_write w i
    (mark_failure k (wk_owner w) (wk_now w (2 * i + 2)) ec rt nr ed) s))"
proof -
  let ?s = "interfere (wk_meanwhile w i) s"
  have r: "ready ?s" "jobs_wf (committed ?s)"
    using ready_interfere [OF assms(1,2), of _ "wk_meanwhile w i"] assms(3) by blast+
  obtain res s' where w: "in_write (\<lambda>s1. mark_failure k (wk_owner w) (wk_now w (2 * i + 2)) ec rt nr ed
      (apply_display_update k no_outcome s1)) ?s = (res, s')" by fastforce
  have wf: "jobs_wf (committed ?s)" by (rule r(2))
  from fail_write.staged_write [OF r w] w wf show ?thesis
    by (cases res; cases rt)
      (auto simp: round_write_def conclude_def fails_with_def intro: well_ended_finish well_ended_error)
qed

lemma raising_round:
  assumes "ready s" "jobs_wf (committed s)"
    and "background (wk_owner w) (committed s) (wk_meanwhile w i (committed s))"
  shows "well_ended k (conclude k (round_write w i (\<lambda>s. (Inl e, s)) s))"
proof -
  have r: "ready (interfere (wk_meanwhile w i) s)" "jobs_wf (committed (interfere (wk_meanwhile w i) s))"
    using ready_interfere [OF assms(1,2), of _ "wk_meanwhile w i"] assms(3) by blast+
  then have "committed (opened (interfere (wk_meanwhile w i) s)) = committed (interfere (wk_meanwhile w i) s)"
    by (simp add: committed_opened ready_startable)
  with r show ?thesis
    by (auto simp: round_write_def in_write_def immediate_write_transaction_def conclude_def
        ensure_immediate_ok ready_startable restore_deferred_def exit_defs
        well_ended_def)
qed


lemma agrees_continue:
  assumes "agrees out r r'" "next_verdict out r' = Continue j"
  shows "j = r' \<and> (\<exists>st. is_valid_transition (j_status r) st \<and> (j_status r' = st \<or> j_status r' = CANCELLED)) \<and>
    j_status r' \<noteq> WAITING_FOR_MODEL"
  using assms by (auto simp: agrees_def next_verdict_def step_to_def split: option.splits if_splits)

lemma agrees_stop:
  assumes "agrees out r r'" "next_verdict out r' = Stop"
    and "so_target out = Some WAITING_FOR_MODEL \<longrightarrow> so_artifact out = None"
  shows "j_lease_owner r' = None \<and> j_status r' \<notin> RUNNING_STATES"
  using assms
  by (auto simp: agrees_def next_verdict_def step_to_def fails_with_def ends_cancelled_def
      split: option.splits if_splits)

lemma drive_ends:
  assumes "tame w" "stage_handlers_only w" "fresh s" "jobs_wf (committed s)"
    and "find_job k (committed s) = Some job" "rounds_left (j_status job) \<le> n"
  shows "\<exists>x. drive n w i job s = Some x \<and> well_ended k x"
  using assms(3-6)
proof (induction n arbitrary: i job s)
  case 0
  with rounds_left_pos [of "j_status job"] show ?case by simp
next
  case (Suc n)
  have ready: "ready s" using Suc.prems(1) by (simp add: fresh_def)
  have k: "j_job_id job = k" "job_ok job"
    using find_job_in [OF Suc.prems(3)] jobs_wf_job_ok [OF Suc.prems(2)] by auto
  have bg: "background (wk_owner w) d (wk_meanwhile w i d)" if "jobs_wf d" for d
    using assms(1) that by (simp add: tame_def)
  show ?case
  proof (cases "j_status job \<in> TERMINAL_JOB_STATUSES")
    case True
    with k(2) have "j_lease_owner job = None" by (simp add: job_ok_def)
    moreover have "j_status job \<notin> RUNNING_STATES" using True running_not_terminal by blast
    ultimately show ?thesis using True k(1) well_ended_finish [OF Suc.prems(1-3)] by simp
  next
    case live: False
    show ?thesis
    proof (cases "wk_handlers w (j_status job)")
      case None
      with live k(1) failure_round [OF ready Suc.prems(2) bg [OF Suc.prems(2)]] show ?thesis
        by (simp add: Let_def)
    next
      case (Some h)
      with assms(2) have run: "j_status job \<in> RUNNING_STATES" by (simp add: stage_handlers_only_def)
      obtain res s1 where h: "h job (commit_tx s) = (res, s1)" by fastforce
      note c = ready_commit [OF ready]
      have t: "background (wk_owner w) (committed s) (committed s1)" "\<not> locked s1"
        "\<And>out. res = Inr out \<Longrightarrow> ready s1 \<and>
           (so_target out = Some WAITING_FOR_MODEL \<longrightarrow> so_artifact out = None)"
        using assms(1) Some c Suc.prems(2) h unfolding tame_def by (metis, metis, metis)
      have wf1: "jobs_wf (committed s1)" using background_wf [OF t(1) Suc.prems(2)] .
      from background_row [OF t(1) Suc.prems(2,3)] obtain r1 where
        r1: "find_job k (committed s1) = Some r1" "kept_for (wk_owner w) job r1" by blast
      show ?thesis
      proof (cases res)
        case (Inl e)
        have r: "ready (rollback_tx s1)" "committed (rollback_tx s1) = committed s1"
          using t(2) by (simp_all add: ready_def rollback_tx_def)
        have "well_ended k (conclude k (round_write w i
            (\<lambda>s2. case wk_reload w s1 job of
                Inl e' \<Rightarrow> (Inl e', s2)
              | Inr k' \<Rightarrow> mark_failure k' (wk_owner w) (wk_now w (2 * i + 2)) ''INTERNAL_ERROR''
                           False None (Some (sanitize_error e)) s2) (rollback_tx s1)))"
        proof (cases "wk_reload w s1 job")
          case (Inl e')
          with raising_round [of "rollback_tx s1" w i] r wf1 bg [OF wf1] show ?thesis by simp
        next
          case (Inr k')
          with assms(1) k(1) have "k' = k" unfolding tame_def by metis
          with Inr failure_round [of "rollback_tx s1" w i] r wf1 bg [OF wf1] show ?thesis by simp
        qed
        with live Some h Inl k(1) show ?thesis by (simp add: Let_def)
      next
        case (Inr out)
        from t(3) [OF Inr] have rd: "ready s1"
          and park: "so_target out = Some WAITING_FOR_MODEL \<longrightarrow> so_artifact out = None" by auto
        note rf = ready_refresh [OF rd wf1, of k]
        obtain res2 s2 where st: "settle w i k out (refresh_job k s1) = (res2, s2)" by fastforce
        have wf2: "jobs_wf (committed (refresh_job k s1))" using wf1 rf(2) by simp
        let ?d = "wk_meanwhile w i (committed s1)"
        from settle_round [OF rf(1) wf2, of w i k out] bg [OF wf2] rf(2) st
        have rr: "round_result (wk_owner w) (wk_now w (2 * i + 2)) k ?d out (res2, s2)" by simp
        show ?thesis
        proof (cases "find_job k (working (autobegin s1)) = None")
          case True
          have "jobs_wf (committed (autobegin s1))" using wf1 by (simp add: exit_defs)
          with live Some h Inr k(1) True well_ended_error show ?thesis by (simp add: Let_def)
        next
          case False
          then obtain y where there: "find_job k (working (autobegin s1)) = Some y" by auto
          show ?thesis
          proof (cases res2)
            case e: (Inl e)
            have "jobs_wf (committed s2)"
              using rr e background_wf [OF bg [OF wf1] wf1] by (simp add: round_result_def)
            with live Some h Inr k(1) st there e well_ended_error show ?thesis by (simp add: Let_def)
          next
            case v: (Inr v)
            from rr v obtain r r' where r: "fresh s2" "jobs_wf (committed s2)"
              "find_job k ?d = Some r" "lease_live (wk_owner w) (wk_now w (2 * i + 2)) r"
              "find_job k (committed s2) = Some r'" "agrees out r r'" "v = next_verdict out r'"
              by (auto simp: round_result_def)
            show ?thesis
            proof (cases v)
              case Stop
              with agrees_stop [OF r(6) _ park] r(7) have "j_lease_owner r' = None" "j_status r' \<notin> RUNNING_STATES" by simp_all
              with live Some h Inr k(1) st there v Stop well_ended_finish [OF r(1,2,5)] show ?thesis
                by (simp add: Let_def)
            next
              case (Continue j)
              from background_row [OF bg [OF wf1] wf1 r1(1)] r(3)
              have "kept_for (wk_owner w) r1 r" by simp
              from kept_for_trans [OF r1(2) this] r(4) have same: "j_status r = j_status job"
                by (simp add: kept_for_def lease_live_def)
              from agrees_continue [OF r(6)] r(7) Continue obtain st' where
                j: "j = r'" "is_valid_transition (j_status job) st'"
                "j_status r' = st' \<or> j_status r' = CANCELLED" "j_status r' \<noteq> WAITING_FOR_MODEL"
                unfolding same [symmetric] by metis
              have "rounds_left (j_status r') < rounds_left (j_status job)"
                using j(3)
              proof
                assume "j_status r' = st'"
                with rounds_left_decreases [OF j(2) run] j(4) show ?thesis by simp
              next
                assume "j_status r' = CANCELLED"
                with run show ?thesis by (auto simp: running_iff)
              qed
              with Suc.prems(4) have "rounds_left (j_status j) \<le> n" by (simp add: j(1))
              moreover have "fresh (hold_job j s2)"
                using fresh_hold [OF r(1,5)] jobs_wf_job_ok [OF r(2)] find_job_in [OF r(5)] by (simp add: j(1))
              moreover have "committed (hold_job j s2) = committed s2" by (simp add: hold_job_def)
              ultimately have "\<exists>x. drive n w (Suc i) j (hold_job j s2) = Some x \<and> well_ended k x"
                using Suc.IH [of "hold_job j s2" j "Suc i"] r(2,5) j(1) by simp
              with live Some h Inr k(1) st there v Continue show ?thesis by (simp add: Let_def)
            qed
          qed
        qed
      qed
    qed
  qed
qed


section \<open>The claim that starts the loop\<close>

text \<open>A session that remembers nothing and has published everything.\<close>

definition blank :: "session \<Rightarrow> bool" where
  "blank s \<longleftrightarrow> job_cache s = (\<lambda>_. None) \<and> \<not> has_dml s \<and> \<not> pending s \<and> \<not> locked s"

lemma blank_opened: "blank s \<Longrightarrow> blank (opened s)"
  by (simp add: blank_def opened_def exit_defs)

lemma blank_leave:
  "blank s \<Longrightarrow> (\<And>d x. e \<noteq> KeepWrites d x) \<Longrightarrow> blank (snd (leave_tx e s))"
  by (cases e) (auto simp: blank_def exit_defs)

lemma blank_claim_job:
  assumes "blank s"
  shows "blank (snd (claim_job k owner ls now s))"
proof -
  have "startable s" using assms by (simp add: blank_def startable_def refused_def)
  then show ?thesis
    unfolding claim_job_def
    by (subst write_tx_ok, assumption, intro blank_leave blank_opened assms)
      (auto simp: Let_def prod.case_eq_if split: option.splits if_splits)
qed

lemma blank_claim_first: "blank s \<Longrightarrow> blank (snd (claim_first ks owner ls now s))"
proof (induction ks arbitrary: s)
  case (Cons k ks)
  obtain res s1 where c: "claim_job k owner ls now s = (res, s1)" by fastforce
  with blank_claim_job [OF Cons.prems, of k owner ls now] have "blank s1" by simp
  with Cons.IH [of s1] c show ?case by (auto split: sum.splits option.splits)
qed simp

lemma claim_round:
  assumes "jobs_wf d" "in_write (claim_next_job owner ls now) (open_session d) = (res, s)"
  shows "case res of
      Inl e \<Rightarrow> False
    | Inr None \<Rightarrow> (\<forall>r \<in> set (jobs d). \<not> claimable_where now r) \<and> committed s = d
    | Inr (Some j) \<Rightarrow> fresh s \<and> jobs_wf (committed s) \<and>
        find_job (j_job_id j) (committed s) = Some j \<and> job_ok j"
proof -
  let ?s = "opened (open_session d)"
  obtain r1 s1 where c: "claim_next_job owner ls now (open_session d) = (r1, s1)" by fastforce
  have same: "claim_next_job owner ls now ?s = (r1, s1)"
    using c by (simp add: claim_next_job_def ensure_immediate_ok quiet_startable quiet_opened)
  have "blank (open_session d)" by (simp add: blank_def open_session_def)
  moreover have "s1 = snd (claim_first (map j_job_id (claim_candidates now (working ?s))) owner ls now ?s)"
    using c by (simp add: claim_next_job_def ensure_immediate_ok quiet_startable)
  ultimately have "blank s1" by (simp add: blank_claim_first blank_opened)
  have wf1: "jobs_wf (committed s1)"
    using call_step_wf [OF call_step_open [of "ClaimNext owner ls now" d] assms(1)] c by simp
  from claim_next_result [OF assms(1) c] obtain oj where oj: "r1 = Inr oj" by (cases r1) auto
  have s: "res = Inr oj" "s = restore_deferred (commit_tx s1)"
    using assms(2) same oj
    by (simp_all add: in_write_def immediate_write_transaction_def ensure_immediate_ok quiet_startable)
  have cs: "committed s = committed s1"
    using \<open>blank s1\<close> by (simp add: s(2) blank_def restore_deferred_def exit_defs)
  show ?thesis
  proof (cases oj)
    case None
    with claim_next_result [OF assms(1) c] oj s cs show ?thesis by simp
  next
    case (Some j)
    from claim_next_result [OF assms(1) c] oj Some
    have f: "find_job (j_job_id j) (committed s1) = Some j" by auto
    have t: "tx s = Deferred" "working s = committed s" "job_cache s = (\<lambda>_. None)"
      "\<not> has_dml s" "\<not> pending s" "\<not> locked s"
      using \<open>blank s1\<close> by (simp_all add: s(2) blank_def restore_deferred_def exit_defs)
    then have "ready s"
      using wf1 known_self jobs_wf_job_ok [OF wf1] find_job_in [of _ "committed s1"]
      by (auto simp: ready_def cs)
    with t have "fresh s" by (simp add: fresh_def)
    with Some s cs f wf1 jobs_wf_job_ok [OF wf1] find_job_in [OF f] show ?thesis by simp
  qed
qed

lemma worker_once_ends:
  assumes "jobs_wf d" "tame w" "stage_handlers_only w"
  shows "\<exists>res s'. run_worker_once 10 w d = Some (res, s') \<and>
    ((\<exists>k. well_ended k (res, s')) \<or>
     res = Inr None \<and> (\<forall>r \<in> set (jobs d). \<not> claimable_where (wk_now w 0) r) \<and> committed s' = d)"
proof -
  obtain res s where c: "in_write (claim_next_job (wk_owner w) (wk_lease_seconds w) (wk_now w 0))
      (open_session d) = (res, s)" by fastforce
  note r = claim_round [OF assms(1) c]
  then obtain oj where oj: "res = Inr oj" by (cases res) auto
  show ?thesis
  proof (cases oj)
    case None
    with r oj c show ?thesis by (simp add: run_worker_once_def rollback_tx_def)
  next
    case (Some j)
    with r oj have j: "fresh s" "jobs_wf (committed s)" "find_job (j_job_id j) (committed s) = Some j"
      "job_ok j" by auto
    have "committed (hold_job j s) = committed s" by (simp add: hold_job_def)
    with drive_ends [OF assms(2,3) fresh_hold [OF j(1,3,4)], of "j_job_id j" j 10 0] j(2,3)
      rounds_left_max obtain x where
      x: "drive 10 w 0 j (hold_job j s) = Some x" "well_ended (j_job_id j) x" by auto
    have "run_worker_once 10 w d = Some x"
      by (simp add: run_worker_once_def c oj Some x(1))
    with x(2) show ?thesis by (cases x) blast
  qed
qed


section \<open>The properties\<close>

text \<open>
  A round is all or nothing. Whatever other actors did since the session last read, the
  display columns, the artifact and the status of an outcome are written together, on a job
  that holds this worker's live lease, as the outcome says; or the round raises and the
  database is exactly what the others left.
\<close>
theorem round_all_or_nothing:
  assumes "ready s" "jobs_wf (committed s)"
    and "background (wk_owner w) (committed s) (wk_meanwhile w i (committed s))"
    and "settle w i k out s = (res, s')"
  shows "case res of
      Inl e \<Rightarrow> committed s' = wk_meanwhile w i (committed s)
    | Inr v \<Rightarrow> jobs_wf (committed s') \<and>
        (\<exists>r r'. find_job k (wk_meanwhile w i (committed s)) = Some r \<and>
           lease_live (wk_owner w) (wk_now w (2 * i + 2)) r \<and>
           find_job k (committed s') = Some r' \<and> agrees out r r' \<and> v = next_verdict out r')"
  using settle_round [OF assms(1-3), of k out] assms(4)
  by (cases res) (auto simp: round_result_def)

text \<open>
  A worker all of whose stages succeed at once, alone in the world. Its stages report a
  title, which the worker stores with the step.
\<close>

fun next_stage :: "job_status \<Rightarrow> job_status" where
  "next_stage FETCHING_METADATA = FETCHING_SUBTITLES"
| "next_stage FETCHING_SUBTITLES = CLEANING_TRANSCRIPT"
| "next_stage DOWNLOADING_AUDIO = TRANSCRIBING"
| "next_stage TRANSCRIBING = CLEANING_TRANSCRIPT"
| "next_stage CLEANING_TRANSCRIPT = CHUNKING"
| "next_stage CHUNKING = SUMMARIZING_CHUNKS"
| "next_stage SUMMARIZING_CHUNKS = GENERATING_REPORT"
| "next_stage GENERATING_REPORT = INDEXING"
| "next_stage _ = COMPLETED"

definition smooth_outcome :: "job_status \<Rightarrow> stage_outcome" where
  "smooth_outcome st = success (next_stage st) (Some 50) None
     (Some \<lparr>du_title = Some (codes ''T''), du_platform = None, du_subtitle_probe = None\<rparr>)"

definition smooth_worker :: worker where
  "smooth_worker =
     \<lparr>wk_owner = ''w'', wk_lease_seconds = 30,
      wk_handlers = (\<lambda>st. if st \<in> RUNNING_STATES then Some (\<lambda>job s. (Inr (smooth_outcome st), s)) else None),
      wk_now = (\<lambda>i. of_nat i), wk_meanwhile = (\<lambda>_ d. d), wk_reload = (\<lambda>s job. Inr (j_job_id job))\<rparr>"

lemma smooth_worker_simps [simp]:
  "wk_owner smooth_worker = ''w''" "wk_meanwhile smooth_worker i d = d"
  "wk_now smooth_worker i = of_nat i"
  by (simp_all add: smooth_worker_def)

lemma smooth_tame: "tame smooth_worker" "stage_handlers_only smooth_worker"
  by (auto simp: tame_def stage_handlers_only_def smooth_worker_def smooth_outcome_def success_def
      no_outcome_def ready_def intro: background.start)

theorem round_all_or_nothing_witness:
  "case settle smooth_worker 0 ''a'' (smooth_outcome TRANSCRIBING)
      (open_session (sample_db (sample_job ''a'' TRANSCRIBING (Some ''w'') (Some 9)))) of
     (Inl e, s') \<Rightarrow> committed s' = sample_db (sample_job ''a'' TRANSCRIBING (Some ''w'') (Some 9))
   | (Inr v, s') \<Rightarrow> jobs_wf (committed s') \<and>
       (\<exists>r'. find_job ''a'' (committed s') = Some r' \<and>
          agrees (smooth_outcome TRANSCRIBING) (sample_job ''a'' TRANSCRIBING (Some ''w'') (Some 9)) r' \<and>
          v = next_verdict (smooth_outcome TRANSCRIBING) r')"
proof -
  let ?s = "open_session (sample_db (sample_job ''a'' TRANSCRIBING (Some ''w'') (Some 9)))"
  have "ready ?s" by (simp add: ready_def open_session_def)
  moreover have "jobs_wf (committed ?s)" by (simp add: sample_wf sample_job_ok)
  moreover have "background (wk_owner smooth_worker) (committed ?s) (wk_meanwhile smooth_worker 0 (committed ?s))"
    by (simp add: background.start)
  ultimately show ?thesis
    using round_all_or_nothing [OF _ _ _ prod.collapse [symmetric], of ?s smooth_worker 0 "''a''"
        "smooth_outcome TRANSCRIBING"]
    by (simp add: case_prod_beta split: sum.splits)
qed

lemma worker_once_back:
  assumes "jobs_wf d" "tame w" "stage_handlers_only w"
  shows "\<exists>res s'. run_worker_once 10 w d = Some (res, s') \<and> jobs_wf (committed s') \<and>
    (case res of
       Inl e \<Rightarrow> True
     | Inr None \<Rightarrow> (\<forall>r \<in> set (jobs d). \<not> claimable_where (wk_now w 0) r) \<and> committed s' = d
     | Inr (Some j) \<Rightarrow> (\<exists>r. find_job (j_job_id j) (committed s') = Some r \<and>
         j_lease_owner r = None \<and> j_status r \<notin> RUNNING_STATES))"
proof -
  from worker_once_ends [OF assms] obtain res s' where
    r: "run_worker_once 10 w d = Some (res, s')"
    and e: "(\<exists>k. well_ended k (res, s')) \<or> res = Inr None \<and>
      (\<forall>r \<in> set (jobs d). \<not> claimable_where (wk_now w 0) r) \<and> committed s' = d"
    by blast
  from e show ?thesis
  proof
    assume "\<exists>k. well_ended k (res, s')"
    then obtain k where k: "jobs_wf (committed s')" "\<And>oj. res = Inr oj \<Longrightarrow> \<exists>j r. oj = Some j \<and> j_job_id j = k \<and>
        find_job k (committed s') = Some r \<and> j_lease_owner r = None \<and> j_status r \<notin> RUNNING_STATES"
      by (auto simp: well_ended_def)
    show ?thesis
    proof (cases res)
      case (Inr oj)
      from k(2) [OF this] obtain j r where "oj = Some j" "find_job (j_job_id j) (committed s') = Some r"
        "j_lease_owner r = None" "j_status r \<notin> RUNNING_STATES" by blast
      with r k(1) Inr show ?thesis by auto
    qed (use r k(1) in auto)
  qed (use r assms(1) in auto)
qed

text \<open>
  A worker gives its job back. With handlers for running stages only, and whatever the
  handlers and other actors do, one pass of the worker ends within ten rounds; the jobs
  table stays well formed; and unless it raises, it either found nothing to claim and wrote
  nothing, or its job is no longer running and carries no lease.
\<close>
theorem worker_gives_job_back:
  assumes "jobs_wf d" "tame w" "stage_handlers_only w"
  shows "\<exists>res s'. run_worker_once 10 w d = Some (res, s') \<and> jobs_wf (committed s') \<and>
    (case res of
       Inl e \<Rightarrow> True
     | Inr None \<Rightarrow> (\<forall>r \<in> set (jobs d). \<not> claimable_where (wk_now w 0) r) \<and> committed s' = d
     | Inr (Some j) \<Rightarrow> (\<exists>r. find_job (j_job_id j) (committed s') = Some r \<and>
         j_lease_owner r = None \<and> j_status r \<notin> RUNNING_STATES))"
  using assms by (rule worker_once_back)

theorem worker_gives_job_back_witness:
  "\<exists>res s'. run_worker_once 10 smooth_worker
      (sample_db (sample_job ''a'' TRANSCRIBING None None)) = Some (res, s') \<and> jobs_wf (committed s')"
proof -
  have "jobs_wf (sample_db (sample_job ''a'' TRANSCRIBING None None))"
    by (simp add: sample_wf sample_job_ok)
  from worker_gives_job_back [OF this smooth_tame] show ?thesis by blast
qed

section \<open>The loop over jobs\<close>

lemma worker_once_wf:
  assumes "jobs_wf d" "tame w" "stage_handlers_only w"
  shows "\<exists>res s'. run_worker_once 10 w d = Some (res, s') \<and> jobs_wf (committed s')"
proof -
  from worker_once_ends [OF assms] obtain res s' where "run_worker_once 10 w d = Some (res, s')"
    "(\<exists>k. well_ended k (res, s')) \<or> committed s' = d" by blast
  with assms(1) show ?thesis by (auto simp: well_ended_def)
qed

lemma worker_loop_run:
  assumes "\<And>i. tame (w i)" "\<And>i. stage_handlers_only (w i)" "\<And>i d. jobs_wf d \<Longrightarrow> jobs_wf (others i d)"
    and "should_stop m" "i \<le> m" "m < i + n" "jobs_wf d"
  shows "\<exists>res d'. run_worker_loop n should_stop w others i d = Some (res, d') \<and> jobs_wf d'"
  using assms(5-7)
proof (induction n arbitrary: i d)
  case (Suc n)
  show ?case
  proof (cases "should_stop i")
    case True
    with Suc.prems(3) show ?thesis by simp
  next
    case False
    with assms(4) Suc.prems(1) have im: "Suc i \<le> m" by (metis not_less_eq_eq le_antisym)
    from worker_once_wf [OF assms(3) [OF Suc.prems(3)] assms(1,2)] obtain res s' where
      r: "run_worker_once 10 (w i) (others i d) = Some (res, s')" "jobs_wf (committed s')"
      by blast
    from Suc.IH [OF im _ r(2)] Suc.prems(2)
    have "\<exists>res d'. run_worker_loop n should_stop w others (Suc i) (committed s') = Some (res, d') \<and> jobs_wf d'"
      by simp
    with False r show ?thesis by (cases res; cases "projl res") simp_all
  qed
qed simp

text \<open>
  C31. The worker loop ends when it is told to. If \<open>should_stop\<close> answers yes before the
  \<open>m\<close>-th claim, the loop has ended by then, with its verdict or an exception, however many
  jobs it drove and leases it lost on the way; and it leaves a well-formed jobs table.
\<close>
theorem worker_loop_ends:
  assumes "\<And>i. tame (w i)" "\<And>i. stage_handlers_only (w i)" "\<And>i d. jobs_wf d \<Longrightarrow> jobs_wf (others i d)"
    and "should_stop m" "jobs_wf d"
  shows "\<exists>res d'. run_worker_loop (Suc m) should_stop w others 0 d = Some (res, d') \<and> jobs_wf d'"
  by (rule worker_loop_run [where m = m]) (use assms in simp_all)

theorem worker_loop_ends_witness:
  "\<exists>res d'. run_worker_loop (Suc 2) (\<lambda>i. i = 2) (\<lambda>_. smooth_worker) (\<lambda>_ d. d) 0
     (sample_db (sample_job ''a'' TRANSCRIBING None None)) = Some (res, d') \<and> jobs_wf d'"
  by (rule worker_loop_ends) (simp_all add: smooth_tame sample_wf sample_job_ok)

section \<open>The heartbeat is background\<close>

text \<open>Every tick is a renewal on the owner's behalf or writes nothing.\<close>

lemma heartbeat_tick:
  "background owner d (committed (snd (renew_lease k owner now ls ((open_session d)\<lparr>locked := busy\<rparr>))))"
proof (cases busy)
  case True
  then show ?thesis
    by (simp add: renew_lease_def write_tx_def ensure_immediate_transaction_def begin_immediate_def
        open_session_def background.start)
next
  case False
  then have "(open_session d)\<lparr>locked := busy\<rparr> = open_session d" by (simp add: open_session_def)
  moreover have "call_step (RenewLease k owner now ls) d
      (committed (exec (RenewLease k owner now ls) (open_session d)))"
    by (rule call_step_open) simp
  ultimately show ?thesis
    using background.call [OF background.start, of "RenewLease k owner now ls"] by simp
qed

end
