(* ===== verification/ModelRepo.thy ===== *)
theory ModelRepo
  imports Sessions "HOL-Library.Product_Lexorder"
begin

text \<open>
  Model downloads, installs and the active-version pointers: the model half of
  \<open>storage/repository.py\<close> and the download state machine of \<open>storage/model_download.py\<close>.
  A download row carries a revision; every write is a compare-and-swap on it. Download rows
  are read through the identity map; install and pointer rows are read as stored.
\<close>

section \<open>The download state machine\<close>

definition all_download_statuses :: "download_status list" where
  "all_download_statuses =
     [DL_PENDING, DL_DOWNLOADING, DL_VERIFYING, DL_INSTALLING, DL_COMPLETED, DL_FAILED, DL_CANCELLED]"

fun download_status_value :: "download_status \<Rightarrow> string" where
  "download_status_value DL_PENDING = ''pending''"
| "download_status_value DL_DOWNLOADING = ''downloading''"
| "download_status_value DL_VERIFYING = ''verifying''"
| "download_status_value DL_INSTALLING = ''installing''"
| "download_status_value DL_COMPLETED = ''completed''"
| "download_status_value DL_FAILED = ''failed''"
| "download_status_value DL_CANCELLED = ''cancelled''"

definition TERMINAL_DOWNLOAD_STATUSES :: "download_status set" where
  "TERMINAL_DOWNLOAD_STATUSES = {DL_COMPLETED, DL_FAILED, DL_CANCELLED}"

definition ACTIVE_DOWNLOAD_STATUSES :: "download_status set" where
  "ACTIVE_DOWNLOAD_STATUSES = {DL_PENDING, DL_DOWNLOADING, DL_VERIFYING, DL_INSTALLING}"

definition DOWNLOAD_CHAIN :: "(download_status \<times> download_status) list" where
  "DOWNLOAD_CHAIN =
     [(DL_PENDING, DL_DOWNLOADING), (DL_DOWNLOADING, DL_VERIFYING),
      (DL_VERIFYING, DL_INSTALLING), (DL_INSTALLING, DL_COMPLETED)]"

definition ABORTABLE :: "download_status list" where
  "ABORTABLE = [DL_PENDING, DL_DOWNLOADING, DL_VERIFYING, DL_INSTALLING]"

definition add_download_target ::
  "download_status \<Rightarrow> download_status \<Rightarrow> (download_status \<Rightarrow> download_status set) \<Rightarrow>
   download_status \<Rightarrow> download_status set" where
  "add_download_target src dst allowed = allowed(src := insert dst (allowed src))"

definition build_download_allowed :: "download_status \<Rightarrow> download_status set" where
  "build_download_allowed =
     (let a0 = (\<lambda>_. {});
          a1 = fold (\<lambda>(src, dst). add_download_target src dst) DOWNLOAD_CHAIN a0
      in fold (\<lambda>st a. add_download_target st DL_CANCELLED (add_download_target st DL_FAILED a))
           ABORTABLE a1)"

definition validate_download_transition ::
  "download_status \<Rightarrow> download_status \<Rightarrow> unit outcome" where
  "validate_download_transition src dst =
     (if dst \<in> build_download_allowed src then Inr ()
      else Inl (IllegalTransition (download_status_value src) (download_status_value dst)))"

lemma build_download_allowed_simps [simp]:
  "build_download_allowed DL_PENDING = {DL_DOWNLOADING, DL_FAILED, DL_CANCELLED}"
  "build_download_allowed DL_DOWNLOADING = {DL_VERIFYING, DL_FAILED, DL_CANCELLED}"
  "build_download_allowed DL_VERIFYING = {DL_INSTALLING, DL_FAILED, DL_CANCELLED}"
  "build_download_allowed DL_INSTALLING = {DL_COMPLETED, DL_FAILED, DL_CANCELLED}"
  "build_download_allowed DL_COMPLETED = {}"
  "build_download_allowed DL_FAILED = {}"
  "build_download_allowed DL_CANCELLED = {}"
  by (auto simp: build_download_allowed_def add_download_target_def DOWNLOAD_CHAIN_def
      ABORTABLE_def Let_def)

lemma terminal_download_iff:
  "s \<in> TERMINAL_DOWNLOAD_STATUSES \<longleftrightarrow> s \<notin> ACTIVE_DOWNLOAD_STATUSES"
  by (cases s) (auto simp: TERMINAL_DOWNLOAD_STATUSES_def ACTIVE_DOWNLOAD_STATUSES_def)

interpretation download_machine:
  abortable_machine build_download_allowed TERMINAL_DOWNLOAD_STATUSES DL_FAILED
proof unfold_locales
  show "build_download_allowed s = {}" if "s \<in> TERMINAL_DOWNLOAD_STATUSES" for s
    using that by (auto simp: TERMINAL_DOWNLOAD_STATUSES_def)
  show "DL_FAILED \<in> TERMINAL_DOWNLOAD_STATUSES" by (simp add: TERMINAL_DOWNLOAD_STATUSES_def)
  show "DL_FAILED \<in> build_download_allowed s" if "s \<notin> TERMINAL_DOWNLOAD_STATUSES" for s
    using that by (cases s) (auto simp: TERMINAL_DOWNLOAD_STATUSES_def)
qed

section \<open>Installs and active pointers\<close>

definition get_active_model :: "string \<Rightarrow> database \<Rightarrow> active_model option" where
  "get_active_model model_id d = select_first (\<lambda>a. am_model_id a = model_id) (actives d)"

definition get_installation :: "string \<Rightarrow> string \<Rightarrow> database \<Rightarrow> model_install option" where
  "get_installation model_id version d =
     select_first (\<lambda>i. mi_model_id i = model_id \<and> mi_version i = version) (installs d)"

definition get_installations :: "string option \<Rightarrow> database \<Rightarrow> model_install list" where
  "get_installations model_id d =
     (case model_id of
        None \<Rightarrow> installs d
      | Some m \<Rightarrow> filter (\<lambda>i. mi_model_id i = m) (installs d))"

text \<open>Read the row, add it when it is missing, then assign its columns.\<close>

definition put_active :: "string \<Rightarrow> string \<Rightarrow> time \<Rightarrow> database \<Rightarrow> database" where
  "put_active model_id version now d =
     (let rows = (if get_active_model model_id d = None
                  then actives d @ [\<lparr>am_model_id = model_id, am_active_version = version,
                                     am_updated_at = now\<rparr>]
                  else actives d)
      in d\<lparr>actives := update_where (\<lambda>a. am_model_id a = model_id)
             (\<lambda>a. a\<lparr>am_active_version := version, am_updated_at := now\<rparr>) rows\<rparr>)"

definition put_install :: "string \<Rightarrow> string \<Rightarrow> string \<Rightarrow> time \<Rightarrow> database \<Rightarrow> database" where
  "put_install model_id version installed_path now d =
     (let rows = (if get_installation model_id version d = None
                  then installs d @ [\<lparr>mi_model_id = model_id, mi_version = version,
                                      mi_installed_path = installed_path, mi_installed_at = now\<rparr>]
                  else installs d)
      in d\<lparr>installs := update_where (\<lambda>i. mi_model_id i = model_id \<and> mi_version i = version)
             (\<lambda>i. i\<lparr>mi_installed_path := installed_path, mi_installed_at := now\<rparr>) rows\<rparr>)"

text \<open>The read after a commit: a row that is gone is a \<open>RuntimeError\<close>.\<close>

definition or_vanished :: "'r option \<Rightarrow> 'r outcome" where
  "or_vanished r = (case r of None \<Rightarrow> Inl (RuntimeError ''vanished after write'') | Some x \<Rightarrow> Inr x)"

definition activate_installation ::
  "string \<Rightarrow> string \<Rightarrow> time \<Rightarrow> session \<Rightarrow> active_model outcome \<times> session" where
  "activate_installation model_id version now = write_tx (\<lambda>s.
     if get_installation model_id version (working s) = None
     then Raise (KeyError model_id)
     else CommitRead (put_active model_id version now (working s)) {} {}
       (\<lambda>d'. or_vanished (get_active_model model_id d')))"

definition save_installation ::
  "string \<Rightarrow> string \<Rightarrow> string \<Rightarrow> time \<Rightarrow> session \<Rightarrow> model_install outcome \<times> session" where
  "save_installation model_id version installed_path now = write_tx (\<lambda>s.
     CommitRead (put_install model_id version installed_path now (working s)) {} {}
       (\<lambda>d'. or_vanished (get_installation model_id version d')))"

section \<open>Download operations\<close>

definition get_download_operation :: "string \<Rightarrow> session \<Rightarrow> model_download option \<times> session" where
  "get_download_operation operation_id s =
     (let s' = autobegin s in (orm_download s' operation_id, s'))"

definition find_latest_download_operation ::
  "string \<Rightarrow> string \<Rightarrow> database \<Rightarrow> model_download option" where
  "find_latest_download_operation model_id version d =
     (case page 1 0 (sort_key (\<lambda>r. (- md_created_at r, - md_revision r))
             (filter (\<lambda>r. md_model_id r = model_id \<and> md_version r = version) (downloads d))) of
        [] \<Rightarrow> None
      | r # _ \<Rightarrow> Some r)"

definition find_active_download_operation :: "string \<Rightarrow> database \<Rightarrow> model_download option" where
  "find_active_download_operation model_id d =
     select_first (\<lambda>r. md_model_id r = model_id \<and> md_status r \<in> ACTIVE_DOWNLOAD_STATUSES)
       (downloads d)"

text \<open>
  The primary key and the partial unique index \<open>uq_model_download_active\<close>: one operation
  per id, one unfinished operation per model.
\<close>

definition create_download_operation ::
  "string \<Rightarrow> string \<Rightarrow> string \<Rightarrow> string \<Rightarrow> string \<Rightarrow> string \<Rightarrow> int \<Rightarrow> time \<Rightarrow> string option \<Rightarrow>
   string option \<Rightarrow> session \<Rightarrow> model_download outcome \<times> session" where
  "create_download_operation operation_id model_id version source_url source_kind expected_sha256
     expected_size_bytes now etag last_modified = write_tx (\<lambda>s.
     if find_download operation_id (working s) \<noteq> None \<or>
        find_active_download_operation model_id (working s) \<noteq> None
     then RollbackRaise (IntegrityError operation_id)
     else CommitRead
       ((working s)\<lparr>downloads := downloads (working s) @
          [\<lparr>md_operation_id = operation_id, md_model_id = model_id, md_version = version,
            md_source_url = source_url, md_source_kind = source_kind,
            md_expected_sha256 = expected_sha256, md_expected_size_bytes = expected_size_bytes,
            md_downloaded_bytes = 0, md_temp_path = None, md_etag = etag,
            md_last_modified = last_modified, md_status = DL_PENDING, md_error_code = None,
            md_error_detail = None, md_revision = 0, md_created_at = now, md_updated_at = now\<rparr>]\<rparr>)
       {} {operation_id} (\<lambda>d'. or_vanished (find_download operation_id d')))"

text \<open>The revision compare-and-swap and its exit, the same in all writing operations.\<close>

definition cas_row :: "string \<Rightarrow> int \<Rightarrow> model_download \<Rightarrow> bool" where
  "cas_row operation_id revision r \<longleftrightarrow>
     md_operation_id r = operation_id \<and> md_revision r = revision"

definition cas_exit ::
  "string \<Rightarrow> int \<Rightarrow> (model_download \<Rightarrow> model_download) \<Rightarrow> database \<Rightarrow> model_download exit" where
  "cas_exit operation_id revision f d =
     (if list_ex (cas_row operation_id revision) (downloads d)
      then CommitRead (patch_downloads (cas_row operation_id revision) f d) {} {operation_id}
             (\<lambda>d'. or_vanished (find_download operation_id d'))
      else RollbackRaise (StaleRevisionError operation_id))"

definition override :: "'a option \<Rightarrow> 'a option \<Rightarrow> 'a option" where
  "override new old = (if new \<noteq> None then new else old)"

definition restart_download ::
  "string \<Rightarrow> time \<Rightarrow> session \<Rightarrow> model_download outcome \<times> session" where
  "restart_download operation_id now = write_tx (\<lambda>s.
     case orm_download s operation_id of
       None \<Rightarrow> Raise (KeyError operation_id)
     | Some operation \<Rightarrow>
         if md_status operation \<notin> {DL_PENDING, DL_DOWNLOADING}
         then Raise (ValueError ''restart is only allowed while pending or downloading'')
         else cas_exit operation_id (md_revision operation)
           (\<lambda>r. r\<lparr>md_downloaded_bytes := 0, md_etag := None, md_last_modified := None,
                 md_revision := md_revision operation + 1, md_updated_at := now\<rparr>) (working s))"

definition advance_download_operation ::
  "string \<Rightarrow> download_status \<Rightarrow> time \<Rightarrow> string option \<Rightarrow> string option \<Rightarrow> string option \<Rightarrow>
   string option \<Rightarrow> string option \<Rightarrow> int option \<Rightarrow> session \<Rightarrow> model_download outcome \<times> session" where
  "advance_download_operation operation_id to_status now temp_path etag last_modified error_code
     error_detail expected_revision = write_tx (\<lambda>s.
     case orm_download s operation_id of
       None \<Rightarrow> Raise (KeyError operation_id)
     | Some operation \<Rightarrow>
       (case validate_download_transition (md_status operation) to_status of
          Inl e \<Rightarrow> Raise e
        | Inr _ \<Rightarrow>
            if to_status = DL_VERIFYING \<and>
               md_downloaded_bytes operation \<noteq> md_expected_size_bytes operation
            then Raise (ValueError ''cannot enter verifying before the download is complete'')
            else
             (let revision = (case expected_revision of None \<Rightarrow> md_revision operation | Some r \<Rightarrow> r)
              in cas_exit operation_id revision
                (\<lambda>r. r\<lparr>md_status := to_status, md_revision := revision + 1, md_updated_at := now,
                      md_temp_path := override temp_path (md_temp_path r),
                      md_etag := override etag (md_etag r),
                      md_last_modified := override last_modified (md_last_modified r),
                      md_error_code := override error_code (md_error_code r),
                      md_error_detail := override error_detail (md_error_detail r)\<rparr>)
                (working s))))"

definition update_download_progress ::
  "string \<Rightarrow> int \<Rightarrow> time \<Rightarrow> string option \<Rightarrow> string option \<Rightarrow> string option \<Rightarrow> int option \<Rightarrow>
   session \<Rightarrow> model_download outcome \<times> session" where
  "update_download_progress operation_id downloaded_bytes now temp_path etag last_modified
     expected_revision = write_tx (\<lambda>s.
     case orm_download s operation_id of
       None \<Rightarrow> Raise (KeyError operation_id)
     | Some operation \<Rightarrow>
         if md_status operation \<noteq> DL_DOWNLOADING
         then Raise (ValueError ''progress may only be updated while downloading'')
         else if downloaded_bytes < md_downloaded_bytes operation
         then Raise (ValueError ''downloaded_bytes must not decrease'')
         else if \<not> (0 \<le> downloaded_bytes \<and> downloaded_bytes \<le> md_expected_size_bytes operation)
         then Raise (ValueError ''downloaded_bytes out of range'')
         else
          (let revision = (case expected_revision of None \<Rightarrow> md_revision operation | Some r \<Rightarrow> r)
           in cas_exit operation_id revision
             (\<lambda>r. r\<lparr>md_downloaded_bytes := downloaded_bytes, md_revision := revision + 1,
                   md_updated_at := now, md_temp_path := override temp_path (md_temp_path r),
                   md_etag := override etag (md_etag r),
                   md_last_modified := override last_modified (md_last_modified r)\<rparr>)
             (working s)))"

definition switch_download_source ::
  "string \<Rightarrow> string \<Rightarrow> string \<Rightarrow> time \<Rightarrow> session \<Rightarrow> model_download outcome \<times> session" where
  "switch_download_source operation_id source_url source_kind now = write_tx (\<lambda>s.
     case orm_download s operation_id of
       None \<Rightarrow> Raise (KeyError operation_id)
     | Some operation \<Rightarrow>
         if md_status operation \<notin> {DL_PENDING, DL_DOWNLOADING}
         then Raise (ValueError ''source may only be switched while pending or downloading'')
         else cas_exit operation_id (md_revision operation)
           (\<lambda>r. r\<lparr>md_source_url := source_url, md_source_kind := source_kind,
                 md_downloaded_bytes := 0, md_etag := None, md_last_modified := None,
                 md_revision := md_revision operation + 1, md_updated_at := now\<rparr>) (working s))"

definition complete_installation ::
  "string \<Rightarrow> string \<Rightarrow> string \<Rightarrow> string \<Rightarrow> time \<Rightarrow> session \<Rightarrow> model_download outcome \<times> session" where
  "complete_installation operation_id model_id version installed_path now = write_tx (\<lambda>s.
     case orm_download s operation_id of
       None \<Rightarrow> Raise (KeyError operation_id)
     | Some operation \<Rightarrow>
         if md_model_id operation \<noteq> model_id \<or> md_version operation \<noteq> version
         then Raise (ValueError operation_id)
         else
          (case validate_download_transition (md_status operation) DL_COMPLETED of
             Inl e \<Rightarrow> Raise e
           | Inr _ \<Rightarrow>
               cas_exit operation_id (md_revision operation)
                 (\<lambda>r. r\<lparr>md_status := DL_COMPLETED, md_revision := md_revision operation + 1,
                       md_error_code := None, md_error_detail := None, md_updated_at := now\<rparr>)
                 (put_active model_id version now
                   (put_install model_id version installed_path now (working s)))))"

definition uninstall_model :: "string \<Rightarrow> session \<Rightarrow> string list outcome \<times> session" where
  "uninstall_model model_id = write_tx (\<lambda>s.
     let gone = filter (\<lambda>i. mi_model_id i = model_id) (installs (working s));
         paths = map mi_installed_path gone
     in CommitDone
          ((working s)
             \<lparr>installs := delete_where (\<lambda>i. mi_model_id i = model_id) (installs (working s)),
              actives := delete_where (\<lambda>a. am_model_id a = model_id) (actives (working s)),
              downloads := delete_where (\<lambda>r. md_model_id r = model_id) (downloads (working s))\<rparr>)
          {} (md_operation_id ` set (filter (\<lambda>r. md_model_id r = model_id) (downloads (working s))))
          paths)"

end
