(* ===== verification/ModelSteps.thy ===== *)
theory ModelSteps
  imports ModelRepo
begin

text \<open>
  The model repository as a protocol: how a download row may be rewritten, what each call
  does to the store, the invariant every run of calls keeps, and the revision compare-and-swap
  between racing writers.
\<close>

section \<open>How a download row may be rewritten\<close>

definition same_download :: "model_download \<Rightarrow> model_download \<Rightarrow> bool" where
  "same_download r r' \<longleftrightarrow>
     md_operation_id r' = md_operation_id r \<and> md_model_id r' = md_model_id r \<and>
     md_version r' = md_version r \<and> md_expected_sha256 r' = md_expected_sha256 r \<and>
     md_expected_size_bytes r' = md_expected_size_bytes r \<and> md_created_at r' = md_created_at r"

inductive dl_write :: "model_download \<Rightarrow> model_download \<Rightarrow> bool" where
  restart: "md_status r \<in> {DL_PENDING, DL_DOWNLOADING} \<Longrightarrow> same_download r r' \<Longrightarrow>
     md_status r' = md_status r \<Longrightarrow> md_downloaded_bytes r' = 0 \<Longrightarrow>
     md_revision r' = md_revision r + 1 \<Longrightarrow> dl_write r r'"
| progress: "md_status r = DL_DOWNLOADING \<Longrightarrow> same_download r r' \<Longrightarrow>
     md_status r' = md_status r \<Longrightarrow> md_downloaded_bytes r \<le> md_downloaded_bytes r' \<Longrightarrow>
     0 \<le> md_downloaded_bytes r' \<Longrightarrow> md_downloaded_bytes r' \<le> md_expected_size_bytes r \<Longrightarrow>
     md_revision r' = md_revision r + 1 \<Longrightarrow> dl_write r r'"
| advance: "md_status r' \<in> build_download_allowed (md_status r) \<Longrightarrow> same_download r r' \<Longrightarrow>
     md_downloaded_bytes r' = md_downloaded_bytes r \<Longrightarrow>
     (md_status r' = DL_VERIFYING \<Longrightarrow> md_downloaded_bytes r = md_expected_size_bytes r) \<Longrightarrow>
     md_revision r' = md_revision r + 1 \<Longrightarrow> dl_write r r'"

definition download_ok :: "model_download \<Rightarrow> bool" where
  "download_ok r \<longleftrightarrow>
     0 \<le> md_downloaded_bytes r \<and> md_downloaded_bytes r \<le> md_expected_size_bytes r \<and>
     0 \<le> md_revision r \<and>
     (md_status r \<in> {DL_VERIFYING, DL_INSTALLING, DL_COMPLETED} \<longrightarrow>
        md_downloaded_bytes r = md_expected_size_bytes r)"

lemma dl_write_same: "dl_write r r' \<Longrightarrow> same_download r r'"
  by (induction rule: dl_write.induct) simp_all

lemma dl_write_revision: "dl_write r r' \<Longrightarrow> md_revision r' = md_revision r + 1"
  by (induction rule: dl_write.induct) simp_all

lemma dl_write_active: "dl_write r r' \<Longrightarrow> md_status r \<in> ACTIVE_DOWNLOAD_STATUSES"
  by (induction rule: dl_write.induct, simp_all add: ACTIVE_DOWNLOAD_STATUSES_def)
    (auto split: download_status.splits, (case_tac "md_status r"; simp)+)

lemma dl_write_status:
  "dl_write r r' \<Longrightarrow> md_status r' = md_status r \<or> md_status r' \<in> build_download_allowed (md_status r)"
  by (induction rule: dl_write.induct) simp_all

lemma dl_write_ok: "dl_write r r' \<Longrightarrow> download_ok r \<Longrightarrow> download_ok r'"
proof (induction rule: dl_write.induct)
  case (advance r' r)
  then show ?case
    by (cases "md_status r") (auto simp: download_ok_def same_download_def)
qed (auto simp: download_ok_def same_download_def)

section \<open>The invariant of the model tables\<close>

definition install_key :: "model_install \<Rightarrow> string \<times> string" where
  "install_key i = (mi_model_id i, mi_version i)"

definition in_flight :: "model_download \<Rightarrow> bool" where
  "in_flight r \<longleftrightarrow> md_status r \<in> ACTIVE_DOWNLOAD_STATUSES"

definition models_wf :: "database \<Rightarrow> bool" where
  "models_wf d \<longleftrightarrow>
     downloads_unique d \<and> (\<forall>r \<in> set (downloads d). download_ok r) \<and>
     distinct (map md_model_id (filter in_flight (downloads d))) \<and>
     distinct (map am_model_id (actives d)) \<and> distinct (map install_key (installs d)) \<and>
     (\<forall>a \<in> set (actives d). (am_model_id a, am_active_version a) \<in> install_key ` set (installs d))"

lemma get_installation_None:
  "get_installation m v d = None \<longleftrightarrow> (m, v) \<notin> install_key ` set (installs d)"
  by (force simp: get_installation_def select_first_None_iff install_key_def)

lemma get_active_None: "get_active_model m d = None \<longleftrightarrow> m \<notin> am_model_id ` set (actives d)"
  by (force simp: get_active_model_def select_first_None_iff)

lemma put_install_keys:
  "install_key ` set (installs (put_install m v p now d)) = insert (m, v) (install_key ` set (installs d))"
  "distinct (map install_key (installs d)) \<Longrightarrow>
     distinct (map install_key (installs (put_install m v p now d)))"
proof -
  have k: "map install_key (update_where P (\<lambda>i. i\<lparr>mi_installed_path := p, mi_installed_at := now\<rparr>) t)
      = map install_key t" for P t
    by (rule map_key_update_where) (simp add: install_key_def)
  have s: "install_key ` set (update_where P (\<lambda>i. i\<lparr>mi_installed_path := p, mi_installed_at := now\<rparr>) t)
      = install_key ` set t" for P t
    by (rule image_key_update_where) (simp add: install_key_def)
  show "install_key ` set (installs (put_install m v p now d)) =
      insert (m, v) (install_key ` set (installs d))"
    by (auto simp: put_install_def Let_def s get_installation_None) (simp_all add: install_key_def)
  show "distinct (map install_key (installs (put_install m v p now d)))"
    if "distinct (map install_key (installs d))"
    using that by (simp add: put_install_def Let_def k get_installation_None) (simp add: install_key_def)
qed

lemma put_active_keys:
  "distinct (map am_model_id (actives d)) \<Longrightarrow>
     distinct (map am_model_id (actives (put_active m v now d)))"
  "a \<in> set (actives (put_active m v now d)) \<Longrightarrow>
     am_model_id a = m \<and> am_active_version a = v \<or> a \<in> set (actives d) \<and> am_model_id a \<noteq> m"
proof -
  have k: "map am_model_id (update_where P (\<lambda>a. a\<lparr>am_active_version := v, am_updated_at := now\<rparr>) t)
      = map am_model_id t" for P t
    by (rule map_key_update_where) simp
  show "distinct (map am_model_id (actives (put_active m v now d)))"
    if "distinct (map am_model_id (actives d))"
    using that by (simp add: put_active_def Let_def k get_active_None)
  show "am_model_id a = m \<and> am_active_version a = v \<or> a \<in> set (actives d) \<and> am_model_id a \<noteq> m"
    if "a \<in> set (actives (put_active m v now d))"
    using that by (auto simp: put_active_def Let_def set_update_where split: if_splits)
qed

lemma put_frames [simp]:
  "downloads (put_active m v now d) = downloads d" "installs (put_active m v now d) = installs d"
  "jobs (put_active m v now d) = jobs d"
  "downloads (put_install m v p now d) = downloads d" "actives (put_install m v p now d) = actives d"
  "jobs (put_install m v p now d) = jobs d"
  by (simp_all add: put_active_def put_install_def Let_def)

lemma find_download_put [simp]:
  "find_download k (put_active m v now d) = find_download k d"
  "find_download k (put_install m v p now d) = find_download k d"
  by (simp_all add: find_download_def)

lemma get_active_put:
  assumes "get_active_model m (put_active m v now d) = Some a"
  shows "am_active_version a = v"
proof -
  from assms have "a \<in> set (actives (put_active m v now d))" "am_model_id a = m"
    by (auto simp: get_active_model_def dest: select_first_SomeD)
  with put_active_keys(2) [OF this(1)] show ?thesis by simp
qed

lemma put_active_ids:
  "am_model_id ` set (actives (put_active m v now d)) = insert m (am_model_id ` set (actives d))"
  by (auto simp: put_active_def Let_def image_key_update_where get_active_None)

lemma get_active_put_some: "get_active_model m (put_active m v now d) \<noteq> None"
  by (simp add: get_active_None put_active_ids del: not_None_eq)

lemma models_wf_put_install: "models_wf d \<Longrightarrow> models_wf (put_install m v p now d)"
  by (auto simp: models_wf_def downloads_unique_def put_install_keys)

lemma models_wf_put_active:
  assumes "models_wf d" "get_installation m v d \<noteq> None"
  shows "models_wf (put_active m v now d)"
proof -
  have "(am_model_id a, am_active_version a) \<in> install_key ` set (installs d)"
    if "a \<in> set (actives (put_active m v now d))" for a
    using put_active_keys(2) [OF that] assms by (auto simp: models_wf_def get_installation_None)
  with assms(1) put_active_keys(1) show ?thesis
    by (simp add: models_wf_def downloads_unique_def)
qed

section \<open>What the calls do\<close>

text \<open>
  The identity map a writer may have: an instance with the stored revision is the stored row,
  because every write of a row moves its revision.
\<close>

definition downloads_coherent :: "session \<Rightarrow> bool" where
  "downloads_coherent s \<longleftrightarrow>
     (\<forall>k c r. download_cache s k = Some c \<longrightarrow> find_download k (committed s) = Some r \<longrightarrow>
        md_revision c = md_revision r \<longrightarrow> c = r)"

lemma downloads_coherent_open [simp]: "downloads_coherent (open_session d)"
  by (simp add: downloads_coherent_def)

definition dl_update :: "string \<Rightarrow> database \<Rightarrow> database \<Rightarrow> bool" where
  "dl_update k d d' \<longleftrightarrow>
     d' = d \<or> (\<exists>r r'. find_download k d = Some r \<and> dl_write r r' \<and>
       d' = patch_downloads (\<lambda>x. md_operation_id x = k) (\<lambda>_. r') d)"

lemma orm_download_opened:
  assumes "quiet s" "orm_download (opened s) k = Some c"
  obtains r where "find_download k (committed s) = Some r" "c = r \<or> download_cache s k = Some c"
  using assms by (auto simp: orm_download_def quiet_working split: option.splits)

text \<open>A compare-and-swap on a snapshot's revision that hits, hits the snapshot itself.\<close>

lemma cas_hit:
  assumes "quiet s" "downloads_coherent s" "downloads_unique (committed s)"
    and "orm_download (opened s) k = Some c" "downloads d0 = downloads (committed s)"
  shows "list_ex (cas_row k (md_revision c)) (downloads d0) \<longleftrightarrow> find_download k (committed s) = Some c"
    and "find_download k (committed s) = Some c \<Longrightarrow>
      patch_downloads (cas_row k (md_revision c)) f d0 =
      patch_downloads (\<lambda>x. md_operation_id x = k) (\<lambda>_. f c) d0"
proof -
  from orm_download_opened [OF assms(1,4)] obtain r where
    r: "find_download k (committed s) = Some r" "c = r \<or> download_cache s k = Some c" by blast
  have only: "x = r" if "x \<in> set (downloads (committed s))" "md_operation_id x = k" for x
    using distinct_key_unique [of md_operation_id "downloads (committed s)" x r] assms(3) that
      find_download_in [OF r(1)] by (simp add: downloads_unique_def)
  have coh: "md_revision c = md_revision r \<Longrightarrow> c = r"
    using r assms(2) by (auto simp: downloads_coherent_def)
  have "list_ex (cas_row k (md_revision c)) (downloads d0) \<longleftrightarrow> md_revision r = md_revision c"
    using only find_download_in [OF r(1)]
    unfolding assms(5) list_ex_iff cas_row_def by blast
  then show "list_ex (cas_row k (md_revision c)) (downloads d0) \<longleftrightarrow>
      find_download k (committed s) = Some c" using coh unfolding r(1) option.inject by metis
  assume "find_download k (committed s) = Some c"
  with r(1) have cr: "r = c" by simp
  have "cas_row k (md_revision c) x \<longleftrightarrow> md_operation_id x = k"
    and "md_operation_id x = k \<Longrightarrow> f x = f c" if "x \<in> set (downloads d0)" for x
    using only [unfolded cr, of x] that unfolding cas_row_def assms(5) by metis+
  then show "patch_downloads (cas_row k (md_revision c)) f d0 =
      patch_downloads (\<lambda>x. md_operation_id x = k) (\<lambda>_. f c) d0"
    unfolding patch_downloads_def
    by (intro arg_cong [of _ _ "\<lambda>t. d0\<lparr>downloads := t\<rparr>"] update_where_cong) simp_all
qed

lemma cas_exit_results:
  assumes "quiet s" "downloads_coherent s" "downloads_unique (committed s)"
    and "orm_download (opened s) k = Some c" "downloads d0 = downloads (committed s)"
    and "\<And>r. md_operation_id (f r) = md_operation_id r"
  shows "exit_db (cas_exit k (md_revision c) f d0) c0 =
      (if find_download k (committed s) = Some c
       then patch_downloads (\<lambda>x. md_operation_id x = k) (\<lambda>_. f c) d0 else c0)"
    and "exit_result (cas_exit k (md_revision c) f d0) c0 =
      (if find_download k (committed s) = Some c then Inr (f c) else Inl (StaleRevisionError k))"
proof -
  note hit = cas_hit [OF assms(1-5)]
  show "exit_db (cas_exit k (md_revision c) f d0) c0 =
      (if find_download k (committed s) = Some c
       then patch_downloads (\<lambda>x. md_operation_id x = k) (\<lambda>_. f c) d0 else c0)"
    by (simp add: cas_exit_def hit)
  show "exit_result (cas_exit k (md_revision c) f d0) c0 =
      (if find_download k (committed s) = Some c then Inr (f c) else Inl (StaleRevisionError k))"
  proof (cases "find_download k (committed s) = Some c")
    case True
    have "find_download k d0 = Some c" using True by (simp add: find_download_def assms(5))
    then have "find_download k (patch_downloads (cas_row k (md_revision c)) f d0) = Some (f c)"
      using find_download_in [OF True]
      by (intro download_store.lookup_patch_hit assms(6)) (simp_all add: cas_row_def)
    with True show ?thesis by (simp add: cas_exit_def hit or_vanished_def)
  next
    case False
    then show ?thesis by (simp add: cas_exit_def hit)
  qed
qed

lemma in_flight_update:
  assumes "\<forall>x \<in> set t. md_operation_id x = k \<longrightarrow> x = r" "md_model_id r' = md_model_id r" "in_flight r"
    and "distinct (map md_model_id (filter in_flight t))"
  shows "distinct (map md_model_id (filter in_flight (update_where (\<lambda>x. md_operation_id x = k) (\<lambda>_. r') t))) \<and>
    md_model_id ` set (filter in_flight (update_where (\<lambda>x. md_operation_id x = k) (\<lambda>_. r') t)) \<subseteq>
    md_model_id ` set (filter in_flight t)"
  using assms
proof (induction t)
  case (Cons x t)
  then have IH: "distinct (map md_model_id (filter in_flight (update_where (\<lambda>x. md_operation_id x = k) (\<lambda>_. r') t)))"
    "md_model_id ` set (filter in_flight (update_where (\<lambda>x. md_operation_id x = k) (\<lambda>_. r') t)) \<subseteq>
     md_model_id ` set (filter in_flight t)"
    using Cons.IH Cons.prems by (simp_all split: if_splits)
  show ?case
  proof (cases "md_operation_id x = k")
    case True
    then have "x = r" using Cons.prems(1) by simp
    with True IH Cons.prems(2-4) show ?thesis by auto
  next
    case False
    with IH Cons.prems(4) show ?thesis by (cases "in_flight x") auto
  qed
qed simp

lemma models_wf_dl_write:
  assumes wf: "models_wf d0" and "find_download k d0 = Some r" "dl_write r r'"
  shows "models_wf (patch_downloads (\<lambda>x. md_operation_id x = k) (\<lambda>_. r') d0)"
proof -
  have r: "r \<in> set (downloads d0)" "md_operation_id r = k" using find_download_in [OF assms(2)] by simp_all
  have same: "md_operation_id r' = k" "md_model_id r' = md_model_id r"
    using dl_write_same [OF assms(3)] r by (simp_all add: same_download_def)
  have u: "distinct (map md_operation_id (downloads d0))" using wf by (simp add: models_wf_def downloads_unique_def)
  have only: "\<forall>x \<in> set (downloads d0). md_operation_id x = k \<longrightarrow> x = r"
    using distinct_key_unique [OF u _ r(1)] r(2) by simp
  have keys: "map md_operation_id (update_where (\<lambda>x. md_operation_id x = k) (\<lambda>_. r') t) = map md_operation_id t"
    for t by (induction t) (simp_all add: same)
  have "in_flight r" using dl_write_active [OF assms(3)] by (simp add: in_flight_def)
  with in_flight_update [OF only same(2)] wf
  have fl: "distinct (map md_model_id (filter in_flight
      (update_where (\<lambda>x. md_operation_id x = k) (\<lambda>_. r') (downloads d0))))"
    by (simp add: models_wf_def)
  have "download_ok r'" using dl_write_ok [OF assms(3)] wf r(1) by (simp add: models_wf_def)
  with wf u fl show ?thesis
    by (auto simp: models_wf_def downloads_unique_def keys set_update_where)
qed

text \<open>A call either leaves the downloads alone or rewrites the one it names.\<close>

lemma dl_update_wf: "models_wf d \<Longrightarrow> dl_update k d d' \<Longrightarrow> models_wf d'"
  by (auto simp: dl_update_def intro: models_wf_dl_write)

lemma dl_update_write:
  "find_download k d = Some r \<Longrightarrow> dl_write r r' \<Longrightarrow>
     dl_update k d (patch_downloads (\<lambda>x. md_operation_id x = k) (\<lambda>_. r') d)"
  by (auto simp: dl_update_def)

lemma dl_update_refl [simp]: "dl_update k d d"
  by (simp add: dl_update_def)

end
