(* ===== verification/ModelTheorems.thy ===== *)
theory ModelTheorems
  imports ModelSteps
begin

text \<open>
  Runs of model-repository calls: one constructor per writing call, the effect of each, the
  invariant of every run, and what the compare-and-swap guarantees racing installers.
\<close>

section \<open>Calls\<close>

text \<open>Every caller leaves \<open>expected_revision\<close> at its default.\<close>

datatype model_call =
    Activate string string time
  | SaveInstall string string string time
  | CreateDownload string string string string string string int time "string option" "string option"
  | RestartDownload string time
  | AdvanceDownload string download_status time "string option" "string option" "string option"
      "string option" "string option"
  | Progress string int time "string option" "string option" "string option"
  | SwitchSource string string string time
  | Complete string string string string time
  | Uninstall string

fun model_exec :: "model_call \<Rightarrow> session \<Rightarrow> session" where
  "model_exec (Activate m v now) s = snd (activate_installation m v now s)"
| "model_exec (SaveInstall m v p now) s = snd (save_installation m v p now s)"
| "model_exec (CreateDownload k m v u sk sha sz now et lm) s =
     snd (create_download_operation k m v u sk sha sz now et lm s)"
| "model_exec (RestartDownload k now) s = snd (restart_download k now s)"
| "model_exec (AdvanceDownload k st now tp et lm ec ed) s =
     snd (advance_download_operation k st now tp et lm ec ed None s)"
| "model_exec (Progress k n now tp et lm) s = snd (update_download_progress k n now tp et lm None s)"
| "model_exec (SwitchSource k u sk now) s = snd (switch_download_source k u sk now s)"
| "model_exec (Complete k m v p now) s = snd (complete_installation k m v p now s)"
| "model_exec (Uninstall m) s = snd (uninstall_model m s)"

text \<open>A manifest's size is not negative.\<close>

fun model_call_ok :: "model_call \<Rightarrow> bool" where
  "model_call_ok (CreateDownload k m v u sk sha sz now et lm) = (0 \<le> sz)"
| "model_call_ok _ = True"

inductive model_step :: "model_call \<Rightarrow> database \<Rightarrow> database \<Rightarrow> bool" where
  model_call: "quiet s \<Longrightarrow> downloads_coherent s \<Longrightarrow> model_call_ok c \<Longrightarrow>
     model_step c (committed s) (committed (model_exec c s))"

inductive_cases model_stepE: "model_step c d d'"

fun model_run :: "model_call list \<Rightarrow> database \<Rightarrow> database \<Rightarrow> bool" where
  "model_run [] d d' = (d' = d)"
| "model_run (c # cs) d d' = (\<exists>d1. model_step c d d1 \<and> model_run cs d1 d')"

lemma model_step_open:
  "model_call_ok c \<Longrightarrow> model_step c d (committed (model_exec c (open_session d)))"
  using model_step.model_call [of "open_session d" c] by simp

section \<open>The effect of each call\<close>

lemma exit_validate_download:
  "exit_result (case validate_download_transition a b of Inl e \<Rightarrow> Raise e | Inr _ \<Rightarrow> X) c =
     (if b \<in> build_download_allowed a then exit_result X c
      else Inl (IllegalTransition (download_status_value a) (download_status_value b)))"
  "exit_db (case validate_download_transition a b of Inl e \<Rightarrow> Raise e | Inr _ \<Rightarrow> X) c =
     (if b \<in> build_download_allowed a then exit_db X c else c)"
  by (simp_all add: validate_download_transition_def)

lemma restart_effect:
  assumes q: "quiet s" and co: "downloads_coherent s" and u: "downloads_unique (committed s)"
  shows "dl_update k (committed s) (committed (snd (restart_download k now s)))"
proof (cases "orm_download (opened s) k")
  case None
  then show ?thesis by (simp add: restart_download_def committed_write_tx)
next
  case (Some c)
  show ?thesis
    unfolding restart_download_def committed_write_tx if_P [OF quiet_startable [OF q]] Some option.case
      quiet_working [OF q]
    by (simp add: cas_exit_results [OF q co u Some refl])
      (auto intro!: dl_update_write dl_write.restart simp: same_download_def)
qed

lemma switch_effect:
  assumes q: "quiet s" and co: "downloads_coherent s" and u: "downloads_unique (committed s)"
  shows "dl_update k (committed s) (committed (snd (switch_download_source k url sk now s)))"
proof (cases "orm_download (opened s) k")
  case None
  then show ?thesis by (simp add: switch_download_source_def committed_write_tx)
next
  case (Some c)
  show ?thesis
    unfolding switch_download_source_def committed_write_tx if_P [OF quiet_startable [OF q]] Some
      option.case quiet_working [OF q]
    by (simp add: cas_exit_results [OF q co u Some refl])
      (auto intro!: dl_update_write dl_write.restart simp: same_download_def)
qed

lemma progress_effect:
  assumes q: "quiet s" and co: "downloads_coherent s" and u: "downloads_unique (committed s)"
  shows "dl_update k (committed s) (committed (snd (update_download_progress k n now tp et lm None s)))"
proof (cases "orm_download (opened s) k")
  case None
  then show ?thesis by (simp add: update_download_progress_def committed_write_tx)
next
  case (Some c)
  show ?thesis
    unfolding update_download_progress_def committed_write_tx if_P [OF quiet_startable [OF q]] Some
      option.case quiet_working [OF q] Let_def
    by (simp add: cas_exit_results [OF q co u Some refl])
      (auto intro!: dl_update_write dl_write.progress simp: same_download_def)
qed

lemma advance_effect:
  assumes q: "quiet s" and co: "downloads_coherent s" and u: "downloads_unique (committed s)"
  shows "dl_update k (committed s)
    (committed (snd (advance_download_operation k st now tp et lm ec ed None s)))"
proof (cases "orm_download (opened s) k")
  case None
  then show ?thesis by (simp add: advance_download_operation_def committed_write_tx)
next
  case (Some c)
  show ?thesis
    unfolding advance_download_operation_def committed_write_tx if_P [OF quiet_startable [OF q]] Some
      option.case quiet_working [OF q] exit_validate_download Let_def
    by (simp add: cas_exit_results [OF q co u Some refl])
      (auto intro!: dl_update_write dl_write.advance simp: same_download_def)
qed

lemma complete_effect:
  assumes q: "quiet s" and co: "downloads_coherent s" and u: "downloads_unique (committed s)"
  shows "committed (snd (complete_installation k m v p now s)) = committed s \<or>
    (\<exists>r r'. find_download k (committed s) = Some r \<and> dl_write r r' \<and> md_status r' = DL_COMPLETED \<and>
      md_model_id r = m \<and> md_version r = v \<and> md_status r = DL_INSTALLING \<and>
      committed (snd (complete_installation k m v p now s)) =
        patch_downloads (\<lambda>x. md_operation_id x = k) (\<lambda>_. r')
          (put_active m v now (put_install m v p now (committed s))))"
proof (cases "orm_download (opened s) k")
  case None
  then show ?thesis by (simp add: complete_installation_def committed_write_tx)
next
  case (Some c)
  have from_installing: "DL_COMPLETED \<in> build_download_allowed st \<longleftrightarrow> st = DL_INSTALLING" for st
    by (cases st) simp_all
  let ?c' = "c\<lparr>md_status := DL_COMPLETED, md_revision := md_revision c + 1,
      md_error_code := None, md_error_detail := None, md_updated_at := now\<rparr>"
  have w: "dl_write c ?c' \<and> md_status ?c' = DL_COMPLETED" if "md_status c = DL_INSTALLING"
    using that by (auto intro!: dl_write.advance simp: same_download_def)
  show ?thesis
  proof (cases "find_download k (committed s) = Some c \<and> md_model_id c = m \<and> md_version c = v \<and>
      md_status c = DL_INSTALLING")
    case True
    then have "committed (snd (complete_installation k m v p now s)) =
        patch_downloads (\<lambda>x. md_operation_id x = k) (\<lambda>_. ?c')
          (put_active m v now (put_install m v p now (committed s)))"
      unfolding complete_installation_def committed_write_tx if_P [OF quiet_startable [OF q]] Some
        option.case quiet_working [OF q]
      by (simp add: exit_validate_download cas_exit_results [OF q co u Some])
    with True w show ?thesis by blast
  next
    case False
    then have "committed (snd (complete_installation k m v p now s)) = committed s"
      unfolding complete_installation_def committed_write_tx if_P [OF quiet_startable [OF q]] Some
        option.case quiet_working [OF q]
      by (auto simp: exit_validate_download from_installing cas_exit_results [OF q co u Some])
    then show ?thesis ..
  qed
qed

lemma uninstall_wf:
  assumes "models_wf d"
  shows "models_wf (d\<lparr>installs := delete_where (\<lambda>i. mi_model_id i = m) (installs d),
    actives := delete_where (\<lambda>a. am_model_id a = m) (actives d),
    downloads := delete_where (\<lambda>r. md_model_id r = m) (downloads d)\<rparr>)"
proof -
  have "distinct (map md_model_id (filter in_flight (delete_where (\<lambda>r. md_model_id r = m) (downloads d))))"
  proof -
    have "filter in_flight (delete_where (\<lambda>r. md_model_id r = m) (downloads d)) =
        filter (\<lambda>r. md_model_id r \<noteq> m) (filter in_flight (downloads d))"
      by (simp add: delete_where_def conj_commute)
    then show ?thesis using assms by (simp only: models_wf_def distinct_map_filterI)
  qed
  moreover have "(am_model_id a, am_active_version a) \<in>
      install_key ` {i \<in> set (installs d). mi_model_id i \<noteq> m}"
    if "a \<in> set (actives d)" "am_model_id a \<noteq> m" for a
    using assms that by (fastforce simp: models_wf_def install_key_def)
  ultimately show ?thesis
    using assms by (auto simp: models_wf_def downloads_unique_def intro: distinct_delete_where)
qed

lemma put_install_installed: "get_installation m v (put_install m v p now d) \<noteq> None"
  by (simp add: get_installation_None put_install_keys del: not_None_eq)

lemma put_install_row:
  assumes "i \<in> set (installs (put_install m v p now d))" "mi_model_id i = m" "mi_version i = v"
  shows "mi_installed_path i = p"
proof -
  have "i \<in> set (update_where (\<lambda>i. mi_model_id i = m \<and> mi_version i = v)
        (\<lambda>i. i\<lparr>mi_installed_path := p, mi_installed_at := now\<rparr>)
        (if get_installation m v d = None
         then installs d @ [\<lparr>mi_model_id = m, mi_version = v, mi_installed_path = p, mi_installed_at = now\<rparr>]
         else installs d))"
    using assms(1) unfolding put_install_def Let_def by simp
  then show ?thesis
    by (rule in_update_whereE) (use assms(2,3) in \<open>simp_all\<close>)
qed

section \<open>Runs\<close>

lemma create_effect:
  assumes q: "quiet s" and wf: "models_wf (committed s)" and sz: "0 \<le> sz"
  shows "models_wf (committed (snd (create_download_operation k m v u sk sha sz now et lm s)))"
proof (cases "find_download k (committed s) = None \<and> find_active_download_operation m (committed s) = None")
  case True
  then have "k \<notin> md_operation_id ` set (downloads (committed s))"
    "m \<notin> md_model_id ` set (filter in_flight (downloads (committed s)))"
    by (auto simp: find_download_def find_active_download_operation_def select_first_None_iff in_flight_def)
  with True wf sz show ?thesis
    by (auto simp: create_download_operation_def committed_write_tx quiet_startable [OF q]
        quiet_working [OF q] models_wf_def downloads_unique_def download_ok_def in_flight_def)
next
  case False
  with wf show ?thesis
    by (auto simp: create_download_operation_def committed_write_tx quiet_working [OF q])
qed

lemma activate_effect:
  assumes q: "quiet s" and wf: "models_wf (committed s)"
  shows "models_wf (committed (snd (activate_installation m v now s)))"
  using wf models_wf_put_active [OF wf, of m v now]
  by (simp add: activate_installation_def committed_write_tx quiet_startable [OF q] quiet_working [OF q])

lemma complete_wf:
  assumes q: "quiet s" and co: "downloads_coherent s" and wf: "models_wf (committed s)"
  shows "models_wf (committed (snd (complete_installation k m v p now s)))"
proof -
  have u: "downloads_unique (committed s)" using wf by (simp add: models_wf_def)
  have put: "models_wf (put_active m v now (put_install m v p now (committed s)))"
    by (intro models_wf_put_active models_wf_put_install wf put_install_installed)
  from complete_effect [OF q co u, of k m v p now] show ?thesis
  proof (elim disjE exE conjE)
    fix r r'
    assume r: "find_download k (committed s) = Some r" "dl_write r r'"
      and eq: "committed (snd (complete_installation k m v p now s)) =
        patch_downloads (\<lambda>x. md_operation_id x = k) (\<lambda>_. r')
          (put_active m v now (put_install m v p now (committed s)))"
    show ?thesis unfolding eq by (rule models_wf_dl_write [OF put _ r(2)]) (simp add: r(1))
  qed (simp add: wf)
qed

lemma model_step_wf:
  assumes "model_step c d d'" "models_wf d"
  shows "models_wf d'"
  using assms(1)
proof (rule model_stepE)
  fix s assume s: "d = committed s" "d' = committed (model_exec c s)" "quiet s"
    "downloads_coherent s" "model_call_ok c"
  have wf: "models_wf (committed s)" and u: "downloads_unique (committed s)"
    using assms(2) s(1) by (simp_all add: models_wf_def)
  note effects = restart_effect [OF s(3,4) u, THEN dl_update_wf [OF wf]]
    switch_effect [OF s(3,4) u, THEN dl_update_wf [OF wf]]
    progress_effect [OF s(3,4) u, THEN dl_update_wf [OF wf]]
    advance_effect [OF s(3,4) u, THEN dl_update_wf [OF wf]]
  show ?thesis
  proof (cases c)
    case (SaveInstall m v p now)
    with s(2) show ?thesis
      by (simp add: save_installation_def committed_write_tx quiet_startable [OF s(3)]
          quiet_working [OF s(3)] models_wf_put_install [OF wf])
  next
    case (Uninstall m)
    with s(2) show ?thesis
      by (simp add: uninstall_model_def committed_write_tx quiet_startable [OF s(3)]
          quiet_working [OF s(3)] Let_def uninstall_wf [OF wf])
  qed (use s(2,5) activate_effect [OF s(3) wf] create_effect [OF s(3) wf] complete_wf [OF s(3,4) wf]
      effects in \<open>simp_all\<close>)
qed

text \<open>What one step does to one operation.\<close>

lemma find_download_patch_same:
  assumes "find_download k d = Some r" "md_operation_id r' = md_operation_id r"
  shows "find_download j (patch_downloads (\<lambda>x. md_operation_id x = k) (\<lambda>_. r') d) =
    (if j = k then Some r' else find_download j d)"
proof -
  have r: "md_operation_id r' = k" using find_download_in [OF assms(1)] assms(2) by simp
  have "select_first (\<lambda>x. md_operation_id x = j)
      (update_where (\<lambda>x. md_operation_id x = k) (\<lambda>_. r') t) =
      (if j = k then map_option (\<lambda>_. r') (select_first (\<lambda>x. md_operation_id x = k) t)
       else select_first (\<lambda>x. md_operation_id x = j) t)" for t
    by (induction t) (auto simp: r)
  with assms(1) show ?thesis by (simp add: find_download_def)
qed

lemma dl_update_row:
  assumes "dl_update k d d'" "find_download j d = Some r"
  shows "\<exists>r'. find_download j d' = Some r' \<and> (r' = r \<or> dl_write r r')"
  using assms dl_write_same
  by (auto simp: dl_update_def find_download_patch_same same_download_def)

fun removes :: "model_call \<Rightarrow> string \<Rightarrow> bool" where
  "removes (Uninstall m) m' = (m' = m)"
| "removes _ _ = False"

lemma select_first_delete:
  "select_first P t = Some r \<Longrightarrow> \<not> Q r \<Longrightarrow> select_first P (delete_where Q t) = Some r"
  by (induction t) (auto simp: delete_where_def split: if_splits)

lemma model_step_row:
  assumes "model_step c d d'" "models_wf d" "find_download k d = Some r" "\<not> removes c (md_model_id r)"
  shows "\<exists>r'. find_download k d' = Some r' \<and> (r' = r \<or> dl_write r r')"
  using assms(1)
proof (rule model_stepE)
  fix s assume s: "d = committed s" "d' = committed (model_exec c s)" "quiet s"
    "downloads_coherent s" "model_call_ok c"
  have u: "downloads_unique (committed s)" using assms(2) s(1) by (simp add: models_wf_def)
  note row = assms(3) [unfolded s(1)]
  note effects = restart_effect [OF s(3,4) u, THEN dl_update_row, OF row]
    switch_effect [OF s(3,4) u, THEN dl_update_row, OF row]
    progress_effect [OF s(3,4) u, THEN dl_update_row, OF row]
    advance_effect [OF s(3,4) u, THEN dl_update_row, OF row]
  note tx = committed_write_tx quiet_startable [OF s(3)] quiet_working [OF s(3)]
  show ?thesis
  proof (cases c)
    case (Activate m v now)
    with s(2) row show ?thesis by (simp add: activate_installation_def tx)
  next
    case (SaveInstall m v p now)
    with s(2) row show ?thesis by (simp add: save_installation_def tx)
  next
    case (CreateDownload j m v url sk sha sz now et lm)
    with s(2) row show ?thesis
      by (auto simp: create_download_operation_def tx find_download_def select_first_append)
  next
    case (Complete j m v p now)
    from complete_effect [OF s(3,4) u, of j m v p now] row show ?thesis
      unfolding s(2) Complete model_exec.simps
      using dl_write_same by (fastforce simp: find_download_patch_same same_download_def)
  next
    case (Uninstall m)
    with assms(4) s(2) row show ?thesis
      by (simp add: uninstall_model_def tx Let_def find_download_def select_first_delete)
  qed (use s(2) effects in \<open>simp_all\<close>)
qed

section \<open>The theorems\<close>

definition sample_download :: "download_status \<Rightarrow> int \<Rightarrow> int \<Rightarrow> model_download" where
  "sample_download st bytes revision =
     \<lparr>md_operation_id = ''op'', md_model_id = ''m'', md_version = ''2'',
      md_source_url = ''https://example.org/m'', md_source_kind = ''primary'',
      md_expected_sha256 = ''sha'', md_expected_size_bytes = 10, md_downloaded_bytes = bytes,
      md_temp_path = None, md_etag = None, md_last_modified = None, md_status = st,
      md_error_code = None, md_error_detail = None, md_revision = revision, md_created_at = 0,
      md_updated_at = 0\<rparr>"

definition sample_store :: "model_download \<Rightarrow> database" where
  "sample_store r = empty_database\<lparr>downloads := [r]\<rparr>"

lemma sample_store_simps [simp]:
  "find_download k (sample_store r) = (if md_operation_id r = k then Some r else None)"
  "downloads (sample_store r) = [r]" "installs (sample_store r) = []" "actives (sample_store r) = []"
  "md_operation_id (sample_download st n v) = ''op''" "md_model_id (sample_download st n v) = ''m''"
  "md_version (sample_download st n v) = ''2''" "md_status (sample_download st n v) = st"
  "md_revision (sample_download st n v) = v" "md_downloaded_bytes (sample_download st n v) = n"
  "md_expected_size_bytes (sample_download st n v) = 10"
  by (simp_all add: sample_store_def find_download_def sample_download_def empty_database_def)

lemma sample_store_wf: "download_ok r \<Longrightarrow> models_wf (sample_store r)"
  by (simp add: models_wf_def downloads_unique_def)

text \<open>
  C30. Every run of model calls keeps the model tables well formed, whatever stale instances
  the sessions hold: operation ids are unique, a model has at most one unfinished download,
  its byte count stays within the expected size and is complete once verification starts,
  and every active pointer names a version that is installed.
\<close>
theorem models_invariant:
  assumes "models_wf d" "model_run cs d d'"
  shows "models_wf d'"
  using assms by (induction cs arbitrary: d) (auto intro: model_step_wf)

definition verified_db :: database where
  "verified_db = committed (model_exec (AdvanceDownload ''op'' DL_VERIFYING 3 None None None None None)
     (open_session (sample_store (sample_download DL_DOWNLOADING 10 4))))"

theorem models_invariant_witness: "models_wf verified_db"
proof (rule models_invariant)
  show "models_wf (sample_store (sample_download DL_DOWNLOADING 10 4))"
    by (rule sample_store_wf) (simp add: download_ok_def)
  show "model_run [AdvanceDownload ''op'' DL_VERIFYING 3 None None None None None]
      (sample_store (sample_download DL_DOWNLOADING 10 4)) verified_db"
    by (simp add: verified_db_def del: model_exec.simps) (rule model_step_open, simp)
qed

text \<open>
  Along any run that does not uninstall its model, a download keeps its identity and its
  expected digest and size, its revision never decreases and grows whenever anything of the
  row changes, and a finished download is frozen.
\<close>
theorem download_history:
  assumes "models_wf d" "model_run cs d d'" "find_download k d = Some r"
    and "\<forall>c \<in> set cs. \<not> removes c (md_model_id r)"
  shows "\<exists>r'. find_download k d' = Some r' \<and> same_download r r' \<and>
    (r' = r \<or> md_revision r < md_revision r') \<and>
    (md_status r \<in> TERMINAL_DOWNLOAD_STATUSES \<longrightarrow> r' = r)"
  using assms
proof (induction cs arbitrary: d r)
  case Nil
  then show ?case by (simp add: same_download_def)
next
  case (Cons c cs)
  from Cons.prems(2) obtain d1 where d1: "model_step c d d1" "model_run cs d1 d'" by auto
  from model_step_row [OF d1(1) Cons.prems(1,3)] Cons.prems(4) obtain r1
    where r1: "find_download k d1 = Some r1" "r1 = r \<or> dl_write r r1" by auto
  have one: "same_download r r1" "r1 = r \<or> md_revision r < md_revision r1"
    using r1(2) dl_write_same [of r r1] dl_write_revision [of r r1] by (auto simp: same_download_def)
  have frozen: "md_status r \<in> TERMINAL_DOWNLOAD_STATUSES \<Longrightarrow> r1 = r"
    using r1(2) dl_write_active by (auto simp: terminal_download_iff)
  have "\<forall>c \<in> set cs. \<not> removes c (md_model_id r1)"
    using Cons.prems(4) one(1) by (simp add: same_download_def)
  from Cons.IH [OF model_step_wf [OF d1(1) Cons.prems(1)] d1(2) r1(1) this] obtain r'
    where r': "find_download k d' = Some r'" "same_download r1 r'"
      "r' = r1 \<or> md_revision r1 < md_revision r'"
      "md_status r1 \<in> TERMINAL_DOWNLOAD_STATUSES \<longrightarrow> r' = r1" by blast
  show ?case
  proof (intro exI [of _ r'] conjI impI)
    show "same_download r r'" using one(1) r'(2) by (simp add: same_download_def)
    show "r' = r \<or> md_revision r < md_revision r'" using one(2) r'(3) by auto
    show "r' = r" if "md_status r \<in> TERMINAL_DOWNLOAD_STATUSES" using frozen [OF that] r'(4) that by simp
  qed (rule r'(1))
qed

theorem download_history_witness:
  "\<exists>r'. find_download ''op'' verified_db = Some r' \<and>
     same_download (sample_download DL_DOWNLOADING 10 4) r' \<and>
     (r' = sample_download DL_DOWNLOADING 10 4 \<or> 4 < md_revision r')"
proof -
  have "model_run [AdvanceDownload ''op'' DL_VERIFYING 3 None None None None None]
      (sample_store (sample_download DL_DOWNLOADING 10 4)) verified_db"
    by (simp add: verified_db_def del: model_exec.simps) (rule model_step_open, simp)
  from download_history [OF sample_store_wf this, of "''op''" "sample_download DL_DOWNLOADING 10 4"]
  show ?thesis by (auto simp: download_ok_def)
qed

text \<open>
  Completing an install is atomic. If the call returns, the stored operation was in its
  installing state for exactly this model and version, it is now completed one revision on,
  the install is on record at the given path and the active pointer names it; if it raises,
  nothing changed, so the previously active version stays active.
\<close>
theorem complete_installation_atomic:
  assumes "quiet s" "downloads_coherent s" "models_wf (committed s)"
    and "complete_installation k m v p now s = (res, s')"
  shows "case res of
      Inl e \<Rightarrow> committed s' = committed s
    | Inr r' \<Rightarrow> \<exists>r i a. find_download k (committed s) = Some r \<and> md_status r = DL_INSTALLING \<and>
        md_model_id r = m \<and> md_version r = v \<and> find_download k (committed s') = Some r' \<and>
        md_status r' = DL_COMPLETED \<and> md_revision r' = md_revision r + 1 \<and>
        get_installation m v (committed s') = Some i \<and> mi_installed_path i = p \<and>
        get_active_model m (committed s') = Some a \<and> am_active_version a = v"
proof -
  note q = assms(1) and co = assms(2)
  have u: "downloads_unique (committed s)" using assms(3) by (simp add: models_wf_def)
  have res: "res = fst (complete_installation k m v p now s)"
    and db: "committed s' = committed (snd (complete_installation k m v p now s))" using assms(4) by simp_all
  show ?thesis
  proof (cases "orm_download (opened s) k")
    case None
    then show ?thesis unfolding res db
      by (simp add: complete_installation_def committed_write_tx result_write_tx quiet_startable [OF q])
  next
    case (Some c)
    let ?f = "\<lambda>r. r\<lparr>md_status := DL_COMPLETED, md_revision := md_revision c + 1,
        md_error_code := None, md_error_detail := None, md_updated_at := now\<rparr>"
    let ?d0 = "put_active m v now (put_install m v p now (committed s))"
    have from_installing: "DL_COMPLETED \<in> build_download_allowed st \<longleftrightarrow> st = DL_INSTALLING" for st
      by (cases st) simp_all
    have d0: "downloads ?d0 = downloads (committed s)" by simp
    note cas = cas_exit_results [OF q co u Some d0, of ?f]
    let ?ok = "md_model_id c = m \<and> md_version c = v \<and> md_status c = DL_INSTALLING \<and>
        find_download k (committed s) = Some c"
    have out: "?ok \<Longrightarrow> res = Inr (?f c) \<and>
          committed s' = patch_downloads (\<lambda>x. md_operation_id x = k) (\<lambda>_. ?f c) ?d0"
      "\<not> ?ok \<Longrightarrow> (\<exists>e. res = Inl e) \<and> committed s' = committed s"
      unfolding res db complete_installation_def committed_write_tx if_P [OF quiet_startable [OF q]]
        result_write_tx [OF quiet_startable [OF q]] Some option.case quiet_working [OF q]
      by (auto simp: exit_validate_download from_installing cas)
    show ?thesis
    proof (cases ?ok)
      case True
      then have k: "md_operation_id c = k" using find_download_in [of k "committed s" c] by simp
      have "find_download k ?d0 = Some c" using True by simp
      from find_download_patch_same [OF this, of "?f c" k] out(1) [OF True]
      have f: "find_download k (committed s') = Some (?f c)" by simp
      obtain a where a: "get_active_model m ?d0 = Some a" using get_active_put_some by blast
      obtain i where i: "get_installation m v (put_install m v p now (committed s)) = Some i"
        using put_install_installed by blast
      then have "mi_installed_path i = p"
        using put_install_row [of i m v p now "committed s"]
        by (auto simp: get_installation_def dest!: select_first_SomeD)
      moreover have "get_active_model m (committed s') = Some a" "get_installation m v (committed s') = Some i"
        using a i out(1) [OF True]
        by (simp_all add: get_active_model_def get_installation_def)
      ultimately show ?thesis
        using True f out(1) [OF True] get_active_put [OF a] by auto
    next
      case False
      with out(2) show ?thesis by auto
    qed
  qed
qed

theorem complete_installation_atomic_witness:
  "\<exists>r' s' a. complete_installation ''op'' ''m'' ''2'' ''/models/m/2'' 9
      (open_session (sample_store (sample_download DL_INSTALLING 10 6))) = (Inr r', s') \<and>
    md_status r' = DL_COMPLETED \<and> get_active_model ''m'' (committed s') = Some a \<and>
    am_active_version a = ''2''"
proof -
  let ?s = "open_session (sample_store (sample_download DL_INSTALLING 10 6))"
  obtain res s' where c: "complete_installation ''op'' ''m'' ''2'' ''/models/m/2'' 9 ?s = (res, s')"
    by fastforce
  have "\<exists>r'. fst (complete_installation ''op'' ''m'' ''2'' ''/models/m/2'' 9 ?s) = Inr r'"
    unfolding complete_installation_def result_write_tx [OF quiet_startable [OF quiet_open_session]]
    by (simp add: exit_validate_download cas_exit_def cas_row_def or_vanished_def
        download_store.lookup_patch)
  moreover have "models_wf (committed ?s)"
    by (simp, rule sample_store_wf) (simp add: download_ok_def)
  ultimately show ?thesis
    using complete_installation_atomic [OF quiet_open_session _ _ c] c by auto
qed

section \<open>Racing writers\<close>

fun download_of :: "model_call \<Rightarrow> string option" where
  "download_of (RestartDownload k now) = Some k"
| "download_of (AdvanceDownload k st now tp et lm ec ed) = Some k"
| "download_of (Progress k n now tp et lm) = Some k"
| "download_of (SwitchSource k u sk now) = Some k"
| "download_of (Complete k m v p now) = Some k"
| "download_of _ = None"

fun model_result :: "model_call \<Rightarrow> session \<Rightarrow> model_download outcome" where
  "model_result (RestartDownload k now) s = fst (restart_download k now s)"
| "model_result (AdvanceDownload k st now tp et lm ec ed) s =
     fst (advance_download_operation k st now tp et lm ec ed None s)"
| "model_result (Progress k n now tp et lm) s = fst (update_download_progress k n now tp et lm None s)"
| "model_result (SwitchSource k u sk now) s = fst (switch_download_source k u sk now s)"
| "model_result (Complete k m v p now) s = fst (complete_installation k m v p now s)"
| "model_result _ s = Inl (RuntimeError ''not a call on a download'')"

lemma cas_call_results:
  assumes q: "quiet s" and co: "downloads_coherent s" and wf: "models_wf (committed s)"
    and k: "download_of c = Some k" and snap: "orm_download (opened s) k = Some x"
    and stale: "find_download k (committed s) \<noteq> Some x"
  shows "(\<exists>e. model_result c s = Inl e) \<and> committed (model_exec c s) = committed s"
proof -
  have u: "downloads_unique (committed s)" using wf by (simp add: models_wf_def)
  note cas = cas_exit_results [OF q co u snap]
  note tx = committed_write_tx if_P [OF quiet_startable [OF q]] result_write_tx [OF quiet_startable [OF q]]
    snap option.case quiet_working [OF q] Let_def
  show ?thesis
  proof (cases c)
    case (RestartDownload j now)
    with k have j: "j = k" by simp
    show ?thesis unfolding RestartDownload j model_result.simps model_exec.simps restart_download_def tx
      by (simp add: cas stale)
  next
    case (AdvanceDownload j st now tp et lm ec ed)
    with k have j: "j = k" by simp
    show ?thesis unfolding AdvanceDownload j model_result.simps model_exec.simps
        advance_download_operation_def tx exit_validate_download
      by (simp add: cas stale)
  next
    case (Progress j n now tp et lm)
    with k have j: "j = k" by simp
    show ?thesis unfolding Progress j model_result.simps model_exec.simps update_download_progress_def tx
      by (simp add: cas stale)
  next
    case (SwitchSource j url sk now)
    with k have j: "j = k" by simp
    show ?thesis unfolding SwitchSource j model_result.simps model_exec.simps switch_download_source_def tx
      by (simp add: cas stale)
  next
    case (Complete j m v p now)
    with k have j: "j = k" by simp
    show ?thesis unfolding Complete j model_result.simps model_exec.simps complete_installation_def tx
        exit_validate_download
      by (simp add: cas stale exit_validate_download)
  qed (use k in simp_all)
qed

text \<open>
  A writer working from a stale read always loses. If the session's instance of the
  download is not the stored row (somebody else wrote since it was read), every further
  write through it raises, and the store, the install records and the active pointer
  included, is left exactly as the other writer left it.
\<close>
theorem stale_writer_loses:
  assumes "quiet s" "downloads_coherent s" "models_wf (committed s)"
    and "download_of c = Some k" "orm_download (opened s) k = Some x"
    and "find_download k (committed s) \<noteq> Some x"
  shows "(\<exists>e. model_result c s = Inl e) \<and> committed (model_exec c s) = committed s"
  using cas_call_results [OF assms] .

definition stale_session :: session where
  "stale_session = (open_session (sample_store (sample_download DL_INSTALLING 10 6)))
     \<lparr>download_cache := (\<lambda>k. if k = ''op'' then Some (sample_download DL_VERIFYING 10 5) else None)\<rparr>"

theorem stale_writer_loses_witness:
  "(\<exists>e. model_result (AdvanceDownload ''op'' DL_INSTALLING 8 None None None None None) stale_session = Inl e) \<and>
   committed (model_exec (AdvanceDownload ''op'' DL_INSTALLING 8 None None None None None) stale_session) =
     sample_store (sample_download DL_INSTALLING 10 6)"
proof -
  have c: "committed stale_session = sample_store (sample_download DL_INSTALLING 10 6)"
    by (simp add: stale_session_def)
  have q: "quiet stale_session"
    by (rule idle_quiet) (simp add: stale_session_def idle_def open_session_def cache_wf_def)
  have "orm_download (opened stale_session) ''op'' = Some (sample_download DL_VERIFYING 10 5)"
    using q c by (simp add: orm_download_def quiet_working) (simp add: stale_session_def)
  moreover have "downloads_coherent stale_session"
    by (simp add: downloads_coherent_def c) (simp add: stale_session_def)
  moreover have "sample_download DL_INSTALLING 10 6 \<noteq> sample_download DL_VERIFYING 10 5"
    by (simp add: sample_download_def)
  ultimately show ?thesis
    using stale_writer_loses [OF q, of "AdvanceDownload ''op'' DL_INSTALLING 8 None None None None None" "''op''"
        "sample_download DL_VERIFYING 10 5"] c sample_store_wf [of "sample_download DL_INSTALLING 10 6"]
    by (simp add: download_ok_def)
qed

end
