(* ===== verification/FtsText.thy ===== *)
theory FtsText
  imports Texts
begin

text \<open>
  The frozen text contract of the full-text index, \<open>storage/fts.py\<close>: normalisation of
  indexed text, its display inverse, and the compilation of a user query into a MATCH
  expression. The regular-expression class \<open>\w\<close> is a parameter (\<open>word_char\<close>).
\<close>

section \<open>Normalisation\<close>

definition space_cjk :: "utext \<Rightarrow> utext" where
  "space_cjk t = concat (map (\<lambda>c. if is_cjk c then [32, c, 32] else [c]) t)"

text \<open>\<open>re.sub(r"\s+", " ", ..)\<close>\<close>

function collapse_spaces :: "utext \<Rightarrow> utext" where
  "collapse_spaces [] = []"
| "collapse_spaces (c # cs) =
     (if is_space c then 32 # collapse_spaces (dropWhile is_space cs) else c # collapse_spaces cs)"
  by pat_completeness auto

termination
  by (relation "measure length") (auto simp: le_imp_less_Suc length_dropWhile_le)

definition normalize_for_fts :: "utext \<Rightarrow> utext" where
  "normalize_for_fts t = strip (collapse_spaces (space_cjk t))"

section \<open>Words\<close>

text \<open>\<open>str.split()\<close>: the maximal runs of non-space characters.\<close>

function split_words :: "utext \<Rightarrow> utext list" where
  "split_words [] = []"
| "split_words (c # cs) =
     (if is_space c then split_words cs
      else (c # takeWhile (\<lambda>x. \<not> is_space x) cs) # split_words (dropWhile (\<lambda>x. \<not> is_space x) cs))"
  by pat_completeness auto

termination
  by (relation "measure length") (auto simp: le_imp_less_Suc length_dropWhile_le)

text \<open>\<open>str.split(" ")\<close> and \<open>sep.join(parts)\<close>.\<close>

fun split_on :: "nat \<Rightarrow> utext \<Rightarrow> utext list" where
  "split_on d [] = [[]]"
| "split_on d (c # cs) =
     (if c = d then [] # split_on d cs
      else (case split_on d cs of [] \<Rightarrow> [[c]] | w # ws \<Rightarrow> (c # w) # ws))"

fun join :: "utext \<Rightarrow> utext list \<Rightarrow> utext" where
  "join sep [] = []"
| "join sep [w] = w"
| "join sep (w # v # ws) = w @ sep @ join sep (v # ws)"

section \<open>Match queries\<close>

definition searchable :: "(nat \<Rightarrow> bool) \<Rightarrow> utext \<Rightarrow> bool" where
  "searchable word_char t \<longleftrightarrow> list_ex (\<lambda>c. word_char c \<or> is_cjk c) t"

definition quote_phrase :: "utext list \<Rightarrow> utext" where
  "quote_phrase tokens = 34 # replace_char 34 [34, 34] (join [32] tokens) @ [34]"

definition query_phrases :: "(nat \<Rightarrow> bool) \<Rightarrow> utext \<Rightarrow> utext list list" where
  "query_phrases word_char query =
     filter (\<lambda>tokens. tokens \<noteq> [])
       (map (\<lambda>w. filter (searchable word_char) (split_on 32 (normalize_for_fts w)))
          (split_words query))"

definition build_match_query :: "(nat \<Rightarrow> bool) \<Rightarrow> utext \<Rightarrow> utext outcome" where
  "build_match_query word_char query =
     (let phrases = map quote_phrase (query_phrases word_char query)
      in if phrases = [] then Inl (ValueError ''QUERY_INVALID'')
         else Inr (join (codes '' AND '') phrases))"

section \<open>Display\<close>

text \<open>
  The two substitutions of \<open>denormalize_for_display\<close>: spaces right after a CJK character go,
  then spaces right before one. The first scans with the character before the position.
\<close>

function drop_after_cjk :: "bool \<Rightarrow> utext \<Rightarrow> utext" where
  "drop_after_cjk prev [] = []"
| "drop_after_cjk prev (c # cs) =
     (if prev \<and> is_space c then drop_after_cjk False (dropWhile is_space cs)
      else c # drop_after_cjk (is_cjk c) cs)"
  by pat_completeness auto

termination
  by (relation "measure (\<lambda>(_, t). length t)") (auto simp: le_imp_less_Suc length_dropWhile_le)

function drop_before_cjk :: "utext \<Rightarrow> utext" where
  "drop_before_cjk [] = []"
| "drop_before_cjk (c # cs) =
     (if is_space c
      then (case dropWhile is_space cs of
              [] \<Rightarrow> c # takeWhile is_space cs
            | d # ds \<Rightarrow>
                (if is_cjk d then drop_before_cjk (d # ds)
                 else (c # takeWhile is_space cs) @ drop_before_cjk (d # ds)))
      else c # drop_before_cjk cs)"
  by pat_completeness auto

termination
proof (relation "measure length")
  fix c :: nat and cs d ds
  assume "dropWhile is_space cs = d # ds"
  then have "length (d # ds) \<le> length cs" by (metis length_dropWhile_le)
  then show "(d # ds, c # cs) \<in> measure length" by simp
  then show "(d # ds, c # cs) \<in> measure length" by simp
qed auto

definition denormalize_for_display :: "utext \<Rightarrow> utext" where
  "denormalize_for_display t = drop_before_cjk (drop_after_cjk False t)"

section \<open>Normal forms are words joined by single spaces\<close>

lemma join_Cons: "join sep (w # ws) = (if ws = [] then w else w @ sep @ join sep ws)"
  by (cases ws) simp_all

lemma dropWhile_space_words: "split_words (dropWhile is_space t) = split_words t"
  by (induction t) auto

lemma split_words_ne: "w \<in> set (split_words t) \<Longrightarrow> w \<noteq> [] \<and> (\<forall>c \<in> set w. \<not> is_space c)"
proof (induction t rule: split_words.induct)
  case (2 c cs)
  show ?case
  proof (cases "is_space c")
    case True
    with 2 show ?thesis by simp
  next
    case False
    with 2 show ?thesis using set_takeWhileD [of _ "\<lambda>x. \<not> is_space x" cs] by fastforce
  qed
qed simp

lemma split_words_concat: "concat (split_words t) = filter (\<lambda>c. \<not> is_space c) t"
proof (induction t rule: split_words.induct)
  case (2 c cs)
  have "filter (\<lambda>c. \<not> is_space c) cs =
      takeWhile (\<lambda>x. \<not> is_space x) cs @ filter (\<lambda>c. \<not> is_space c) (dropWhile (\<lambda>x. \<not> is_space x) cs)"
    by (metis (no_types, lifting) filter_append filter_True set_takeWhileD takeWhile_dropWhile_id)
  with 2 show ?case by simp
qed simp

lemma dropWhile_non_space:
  "dropWhile (\<lambda>x. \<not> is_space x) t = [] \<or> is_space (hd (dropWhile (\<lambda>x. \<not> is_space x) t))"
  using hd_dropWhile [of "\<lambda>x. \<not> is_space x" t] by blast

lemma collapse_append:
  "\<forall>c \<in> set w. \<not> is_space c \<Longrightarrow> collapse_spaces (w @ t) = w @ collapse_spaces t"
  by (induction w) simp_all

lemma collapse_space:
  "t \<noteq> [] \<Longrightarrow> is_space (hd t) \<Longrightarrow> collapse_spaces t = 32 # collapse_spaces (dropWhile is_space t)"
  by (cases t) simp_all

lemma lstrip_collapse: "lstrip (collapse_spaces t) = collapse_spaces (dropWhile is_space t)"
proof (cases t)
  case (Cons c cs)
  have "lstrip (collapse_spaces (dropWhile is_space cs)) = collapse_spaces (dropWhile is_space cs)"
  proof (cases "dropWhile is_space cs")
    case Nil
    then show ?thesis by (simp only: Nil) (simp add: lstrip_def)
  next
    case (Cons d ds)
    then have "\<not> is_space d" using hd_dropWhile [of is_space cs] by simp
    then show ?thesis by (simp add: Cons lstrip_def)
  qed
  with Cons show ?thesis by (simp add: lstrip_def)
qed (simp add: lstrip_def)

definition rstrip :: "utext \<Rightarrow> utext" where
  "rstrip t = rev (lstrip (rev t))"

lemma rstrip_append: "rstrip (t @ u) = (if rstrip u = [] then rstrip t else t @ rstrip u)"
  by (simp add: rstrip_def lstrip_def dropWhile_append dropWhile_eq_Nil_conv)

lemma rstrip_word: "w \<noteq> [] \<Longrightarrow> \<not> is_space (last w) \<Longrightarrow> rstrip w = w"
  by (cases w rule: rev_cases) (simp_all add: rstrip_def lstrip_def)

lemma rstrip_Cons_space: "rstrip (32 # u) = (if rstrip u = [] then [] else 32 # rstrip u)"
  using rstrip_append [of "[32]" u] by (simp add: rstrip_def lstrip_def)

lemma join_Nil: "(\<And>w. w \<in> set ws \<Longrightarrow> w \<noteq> []) \<Longrightarrow> join [32] ws = [] \<longleftrightarrow> ws = []"
  by (cases ws) (auto simp: join_Cons)

lemma join_words_Nil: "join [32] (split_words t) = [] \<longleftrightarrow> split_words t = []"
  using split_words_ne by (intro join_Nil) blast

lemma strip_collapse: "strip (collapse_spaces t) = join [32] (split_words t)"
proof -
  have "rstrip (collapse_spaces (dropWhile is_space t)) = join [32] (split_words t)"
  proof (induction t rule: split_words.induct)
    case (2 c cs)
    show ?case
    proof (cases "is_space c")
      case True
      with 2 show ?thesis by simp
    next
      case False
      note ns = this
      let ?w = "c # takeWhile (\<lambda>x. \<not> is_space x) cs"
      let ?r = "dropWhile (\<lambda>x. \<not> is_space x) cs"
      have w: "\<forall>x \<in> set ?w. \<not> is_space x" using False set_takeWhileD by fastforce
      have "collapse_spaces (c # cs) = ?w @ collapse_spaces ?r"
        using collapse_append [OF w, of ?r] by simp
      moreover have "rstrip (?w @ collapse_spaces ?r) =
          (if split_words ?r = [] then ?w else ?w @ 32 # join [32] (split_words ?r))"
      proof (cases "?r = []")
        case True
        then show ?thesis
          using rstrip_word [of ?w] w by (simp only: True) (simp add: rstrip_word)
      next
        case False
        then have c: "collapse_spaces ?r = 32 # collapse_spaces (dropWhile is_space ?r)"
          using dropWhile_non_space [of cs] by (intro collapse_space) auto
        show ?thesis
          unfolding c rstrip_append rstrip_Cons_space 2(2) [OF ns] join_words_Nil
          using rstrip_word [of ?w] w by auto
      qed
      ultimately show ?thesis using ns by (simp add: join_Cons)
    qed
  qed (simp add: rstrip_def lstrip_def)
  then show ?thesis unfolding strip_def lstrip_collapse rstrip_def .
qed

lemma normalize_words: "normalize_for_fts t = join [32] (split_words (space_cjk t))"
  unfolding normalize_for_fts_def by (rule strip_collapse)

section \<open>The tokens of an indexed text\<close>

definition ordinary :: "nat \<Rightarrow> bool" where
  "ordinary c \<longleftrightarrow> \<not> is_space c \<and> \<not> is_cjk c"

text \<open>The intended tokens: every CJK character alone, every run of other characters whole.\<close>

function fts_tokens :: "utext \<Rightarrow> utext list" where
  "fts_tokens [] = []"
| "fts_tokens (c # cs) =
     (if is_space c then fts_tokens cs
      else if is_cjk c then [c] # fts_tokens cs
      else (c # takeWhile ordinary cs) # fts_tokens (dropWhile ordinary cs))"
  by pat_completeness auto

termination
  by (relation "measure length") (auto simp: le_imp_less_Suc length_dropWhile_le)

lemma space_cjk_simps [simp]:
  "space_cjk [] = []"
  "space_cjk (c # t) = (if is_cjk c then [32, c, 32] else [c]) @ space_cjk t"
  by (simp_all add: space_cjk_def)

lemma space_cjk_scan:
  "takeWhile (\<lambda>x. \<not> is_space x) (space_cjk t) = takeWhile ordinary t"
  "dropWhile (\<lambda>x. \<not> is_space x) (space_cjk t) = space_cjk (dropWhile ordinary t)"
  by (induction t) (auto simp: ordinary_def cjk_not_space)

lemma split_space_cjk: "split_words (space_cjk t) = fts_tokens t"
  by (induction t rule: fts_tokens.induct) (simp_all add: cjk_not_space space_cjk_scan)

definition token :: "utext \<Rightarrow> bool" where
  "token w \<longleftrightarrow> (\<exists>c. w = [c] \<and> is_cjk c) \<or> w \<noteq> [] \<and> (\<forall>c \<in> set w. ordinary c)"

lemma token_cjk: "is_cjk c \<Longrightarrow> token [c]"
  by (simp add: token_def)

lemma token_run:
  assumes "ordinary c"
  shows "token (c # takeWhile ordinary cs)"
proof -
  have "ordinary x" if "x \<in> set (c # takeWhile ordinary cs)" for x
    using that assms set_takeWhileD [of x ordinary cs] by (cases "x = c") simp_all
  then show ?thesis unfolding token_def by blast
qed

lemma fts_tokens_token: "w \<in> set (fts_tokens t) \<Longrightarrow> token w"
proof (induction t rule: fts_tokens.induct)
  case (2 c cs)
  show ?case
  proof (cases "is_space c")
    case True
    with 2 show ?thesis by simp
  next
    case False
    note space = this
    show ?thesis
    proof (cases "is_cjk c")
      case True
      with 2 space show ?thesis by (auto simp: token_cjk)
    next
      case False
      with space have "token (c # takeWhile ordinary cs)" by (intro token_run) (simp add: ordinary_def)
      with 2 space False show ?thesis by auto
    qed
  qed
qed simp

lemma token_facts:
  assumes "token w"
  shows "w \<noteq> []" "\<forall>c \<in> set w. \<not> is_space c" "32 \<notin> set w"
proof -
  show n: "w \<noteq> []" "\<forall>c \<in> set w. \<not> is_space c"
    using assms by (auto simp: token_def ordinary_def cjk_not_space)
  show "32 \<notin> set w" using n(2) space_32 by blast
qed

lemma fts_tokens_word:
  assumes "token w" "u = [] \<or> is_space (hd u)"
  shows "fts_tokens (w @ u) = w # fts_tokens u"
proof (cases "\<exists>c. w = [c] \<and> is_cjk c")
  case True
  then show ?thesis by (auto simp: cjk_not_space)
next
  case False
  then obtain c cs where w: "w = c # cs" "\<forall>x \<in> set w. ordinary x"
    using assms(1) by (cases w) (auto simp: token_def)
  have stop: "u = [] \<or> \<not> ordinary (hd u)" using assms(2) by (auto simp: ordinary_def)
  then have t: "takeWhile ordinary u = []" "dropWhile ordinary u = u" by (cases u; simp)+
  have "takeWhile ordinary (cs @ u) = cs" "dropWhile ordinary (cs @ u) = u"
    using w t by (simp_all add: takeWhile_append2 dropWhile_append2)
  with w show ?thesis by (simp add: ordinary_def)
qed

lemma fts_tokens_join:
  "(\<And>w. w \<in> set ws \<Longrightarrow> token w) \<Longrightarrow> fts_tokens (join [32] ws) = ws"
proof (induction ws)
  case (Cons w ws)
  then have w: "token w" and IH: "fts_tokens (join [32] ws) = ws" by simp_all
  show ?case
    using fts_tokens_word [OF w, of "[]"] fts_tokens_word [OF w, of "32 # join [32] ws"] IH
    by (auto simp: join_Cons)
qed simp

lemma split_on_ne [simp]: "split_on d t \<noteq> []"
  by (induction t) (auto split: list.split)

lemma split_on_word: "d \<notin> set w \<Longrightarrow> split_on d (w @ d # u) = w # split_on d u"
  by (induction w) auto

lemma split_on_last: "d \<notin> set w \<Longrightarrow> split_on d w = [w]"
  by (induction w) auto

lemma split_on_join:
  "ws \<noteq> [] \<Longrightarrow> (\<And>w. w \<in> set ws \<Longrightarrow> d \<notin> set w) \<Longrightarrow> split_on d (join [d] ws) = ws"
  by (induction ws) (auto simp: join_Cons split_on_word split_on_last)

text \<open>
  C29. The normal form of an indexed text: it is its tokens joined by single spaces, each
  token being one CJK character or a whole run of other non-space characters in the order of
  the text; splitting the normal form at spaces gives back exactly these tokens, no
  character but white space is lost, and normalising again changes nothing.
\<close>
theorem fts_normal_form:
  "normalize_for_fts t = join [32] (fts_tokens t) \<and>
   split_on 32 (normalize_for_fts t) = (if fts_tokens t = [] then [[]] else fts_tokens t) \<and>
   list_all token (fts_tokens t) \<and>
   concat (fts_tokens t) = filter (\<lambda>c. \<not> is_space c) t \<and>
   normalize_for_fts (normalize_for_fts t) = normalize_for_fts t"
proof (intro conjI)
  show n: "normalize_for_fts t = join [32] (fts_tokens t)" for t
    by (simp add: normalize_words split_space_cjk)
  show "split_on 32 (normalize_for_fts t) = (if fts_tokens t = [] then [[]] else fts_tokens t)"
    unfolding n using token_facts(3) [OF fts_tokens_token] by (auto intro: split_on_join)
  show "list_all token (fts_tokens t)" by (auto simp: list_all_iff intro: fts_tokens_token)
  have "filter (\<lambda>c. \<not> is_space c) (space_cjk t) = filter (\<lambda>c. \<not> is_space c) t"
    by (induction t) (simp_all add: cjk_not_space)
  then show "concat (fts_tokens t) = filter (\<lambda>c. \<not> is_space c) t"
    using split_words_concat [of "space_cjk t"] by (simp add: split_space_cjk)
  show "normalize_for_fts (normalize_for_fts t) = normalize_for_fts t"
    unfolding n by (simp add: fts_tokens_join fts_tokens_token)
qed

section \<open>No query text escapes its quotes\<close>

text \<open>
  A reader for what \<open>build_match_query\<close> writes, following SQLite's rule for quoted strings:
  two quotes stand for one, a single quote ends the string. \<open>read_match\<close> reads strings
  separated by \<open> AND \<close> to the end of the text and rejects everything else.
\<close>

fun read_quoted :: "utext \<Rightarrow> (utext \<times> utext) option" where
  "read_quoted [] = None"
| "read_quoted [c] = (if c = 34 then Some ([], []) else None)"
| "read_quoted (c # d # r) =
     (if c = 34 then
        (if d = 34 then map_option (\<lambda>(w, u). (34 # w, u)) (read_quoted r) else Some ([], d # r))
      else map_option (\<lambda>(w, u). (c # w, u)) (read_quoted (d # r)))"

lemma read_quoted_shorter: "read_quoted t = Some (w, u) \<Longrightarrow> length u < length t"
  by (induction t arbitrary: w u rule: read_quoted.induct) (fastforce split: if_splits)+

function read_match :: "utext \<Rightarrow> utext list option" where
  "read_match t =
     (case t of
        [] \<Rightarrow> None
      | c # r \<Rightarrow>
          if c \<noteq> 34 then None
          else (case read_quoted r of
                  None \<Rightarrow> None
                | Some (w, u) \<Rightarrow>
                    if u = [] then Some [w]
                    else if take 5 u = codes '' AND '' then map_option ((#) w) (read_match (drop 5 u))
                    else None))"
  by pat_completeness auto

termination
  by (relation "measure length") (auto dest!: read_quoted_shorter)

declare read_match.simps [simp del]

lemma read_quoted_phrase:
  "u = [] \<or> hd u \<noteq> 34 \<Longrightarrow> read_quoted (replace_char 34 [34, 34] w @ 34 # u) = Some (w, u)"
proof (induction w)
  case Nil
  then show ?case by (cases u) simp_all
next
  case (Cons c w)
  have ne: "replace_char 34 [34, 34] w @ 34 # u \<noteq> []" by simp
  show ?case
  proof (cases "c = 34")
    case False
    obtain d r where "replace_char 34 [34, 34] w @ 34 # u = d # r" using ne by (cases "replace_char 34 [34, 34] w @ 34 # u") auto
    with Cons False show ?thesis by simp
  qed (use Cons in simp)
qed

lemma read_match_phrases:
  "ps \<noteq> [] \<Longrightarrow> read_match (join (codes '' AND '') (map quote_phrase ps)) = Some (map (join [32]) ps)"
proof (induction ps)
  case (Cons p ps)
  have sep: "codes '' AND '' = [32, 65, 78, 68, 32]" by (simp add: codes_def)
  show ?case
  proof (cases "ps = []")
    case True
    then show ?thesis
      by (subst read_match.simps) (simp add: quote_phrase_def read_quoted_phrase)
  next
    case False
    then show ?thesis
      using Cons.IH
      by (subst read_match.simps) (simp add: join_Cons quote_phrase_def [of p] read_quoted_phrase sep)
  qed
qed simp

text \<open>
  The compiled query is exactly the user's words: it is refused precisely when no word
  has a searchable token, and otherwise reading it by the rule for quoted strings returns the
  phrases of the words, in order, joined by nothing but \<open>AND\<close>. Quotes and operators in the
  user's text stay inside the phrases.
\<close>
theorem match_query_is_quoted:
  "case build_match_query word_char q of
     Inl e \<Rightarrow> query_phrases word_char q = [] \<and> e = ValueError ''QUERY_INVALID''
   | Inr m \<Rightarrow> query_phrases word_char q \<noteq> [] \<and>
       read_match m = Some (map (join [32]) (query_phrases word_char q))"
  by (simp add: build_match_query_def Let_def read_match_phrases)

section \<open>Trimmed texts\<close>

lemma strip_rstrip: "strip t = rstrip (lstrip t)"
  by (simp add: strip_def rstrip_def)

lemma split_words_append_space:
  "is_space c \<Longrightarrow> split_words (u @ c # v) = split_words u @ split_words v"
proof (induction u rule: split_words.induct)
  case (2 x xs)
  show ?case
  proof (cases "is_space x")
    case False
    have "takeWhile (\<lambda>y. \<not> is_space y) (xs @ c # v) = takeWhile (\<lambda>y. \<not> is_space y) xs"
      "dropWhile (\<lambda>y. \<not> is_space y) (xs @ c # v) = dropWhile (\<lambda>y. \<not> is_space y) xs @ c # v"
      using 2(3) by (induction xs) auto
    with 2 False show ?thesis by simp
  qed (use 2 in simp)
qed simp

lemma split_words_spaces: "\<forall>c \<in> set t. is_space c \<Longrightarrow> split_words t = []"
  by (induction t) simp_all

lemma rstrip_parts: "\<exists>z. t = rstrip t @ z \<and> (\<forall>c \<in> set z. is_space c)"
proof -
  have "rev t = takeWhile is_space (rev t) @ dropWhile is_space (rev t)" by simp
  then have "t = rstrip t @ rev (takeWhile is_space (rev t))"
    by (metis lstrip_def rev_append rev_rev_ident rstrip_def)
  then show ?thesis using set_takeWhileD by fastforce
qed

lemma split_words_strip: "split_words (strip t) = split_words t"
proof -
  obtain z where z: "lstrip t = rstrip (lstrip t) @ z" "\<forall>c \<in> set z. is_space c"
    using rstrip_parts by blast
  have "split_words (rstrip (lstrip t) @ z) = split_words (rstrip (lstrip t))"
    using z(2) split_words_append_space split_words_spaces by (cases z) fastforce+
  with z(1) show ?thesis by (simp add: strip_rstrip lstrip_def dropWhile_space_words)
qed

lemma set_strip: "set (strip t) \<subseteq> set t"
proof -
  have "set (rstrip u) \<subseteq> set u" for u using rstrip_parts [of u] by (metis Un_upper1 set_append)
  then show ?thesis unfolding strip_rstrip lstrip_def using set_dropWhileD by fastforce
qed

definition trimmed :: "utext \<Rightarrow> bool" where
  "trimmed t \<longleftrightarrow> t \<noteq> [] \<longrightarrow> \<not> is_space (hd t) \<and> \<not> is_space (last t)"

lemma trimmed_strip: "trimmed (strip t)"
proof -
  have "\<not> is_space (last (rstrip u))" if "rstrip u \<noteq> []" for u
    using that hd_dropWhile [of is_space "rev u"] by (simp add: rstrip_def lstrip_def last_rev)
  moreover have "\<not> is_space (hd (rstrip (lstrip t)))" if "rstrip (lstrip t) \<noteq> []"
  proof -
    obtain z where z: "lstrip t = rstrip (lstrip t) @ z" using rstrip_parts by blast
    then have "hd (lstrip t) = hd (rstrip (lstrip t))" "lstrip t \<noteq> []"
      using that by (metis hd_append2, metis Nil_is_append_conv)
    then show ?thesis using hd_dropWhile [of is_space t] by (simp add: lstrip_def)
  qed
  ultimately show ?thesis by (simp add: trimmed_def strip_rstrip)
qed

lemma strip_trimmed: "trimmed t \<Longrightarrow> strip t = t"
proof (cases "t = []")
  case False
  assume "trimmed t"
  with False have "lstrip t = t" by (cases t) (simp_all add: trimmed_def lstrip_def)
  moreover from \<open>trimmed t\<close> False have "rstrip t = t" by (simp add: trimmed_def rstrip_word)
  ultimately have "lstrip t = t" "rstrip t = t" .
  then show ?thesis by (simp add: strip_rstrip)
qed (simp add: strip_def lstrip_def)

lemma strip_eq_Nil: "strip t = [] \<longleftrightarrow> (\<forall>c \<in> set t. is_space c)"
proof
  assume "strip t = []"
  then have "split_words t = []" using split_words_strip [of t] by simp
  then show "\<forall>c \<in> set t. is_space c"
    using split_words_concat [of t] by (metis concat.simps(1) filter_empty_conv)
next
  assume "\<forall>c \<in> set t. is_space c"
  then have "dropWhile is_space t = []" by (simp only: dropWhile_eq_Nil_conv)
  then show "strip t = []" unfolding strip_def lstrip_def by (simp only: rev.simps dropWhile.simps)
qed

end
