(* ===== verification/Reports.thy ===== *)
theory Reports
  imports Database FtsText "HOL-Library.Product_Lexorder" "HOL-Library.List_Lexorder"
begin

text \<open>
  The report index, \<open>storage/report_repository.py\<close>: documents paired with full-text rows,
  index issues and the rebuild state. The functions of the source run inside the caller's
  transaction and never commit, so they are functions on the database of that transaction.
  A SAVEPOINT block that raises leaves the database as it was when the block began.
  \<open>str.lower\<close> is the parameter \<open>lower\<close>. The JSON text of the tags column is modelled by the
  list it encodes.
\<close>

section \<open>Entries\<close>

record report_entry =
  re_job_id :: string
  re_analysis_id :: string
  re_title :: utext
  re_platform :: utext
  re_author :: utext
  re_video_id :: string
  re_source_url :: utext
  re_published_at :: "time option"
  re_analyzed_at :: time
  re_summary_mode :: string
  re_language :: string
  re_asr_provider :: string
  re_asr_model :: string
  re_asr_model_version :: string
  re_tags :: "utext list"
  re_summary_preview :: utext
  re_relative_path :: string
  re_content_hash :: string
  re_byte_size :: "int option"
  re_doc_source :: string

record fts_body =
  fb_summary :: utext
  fb_transcript :: utext

definition DOC_SOURCES :: "string list" where
  "DOC_SOURCES = [''pipeline'', ''rebuild'']"

definition SUMMARY_MODES :: "string list" where
  "SUMMARY_MODES = [''auto'', ''standard'', ''unboxing'']"

text \<open>
  The construction check. Instants are finite here, so only their sign is checked. Of
  \<open>urlsplit\<close> the check needs the scheme and whether there is a host; mismatched brackets in
  the host, on which \<open>urlsplit\<close> raises the same \<open>ValueError\<close>, are refused with it. The host
  checks newer Python versions add (bracketed hosts, NFKC) are not modelled.
\<close>

definition scheme_char :: "nat \<Rightarrow> bool" where
  "scheme_char c \<longleftrightarrow> 97 \<le> c \<and> c \<le> 122 \<or> 65 \<le> c \<and> c \<le> 90 \<or> 48 \<le> c \<and> c \<le> 57 \<or>
     c \<in> {43, 45, 46}"

definition url_scheme_rest :: "utext \<Rightarrow> utext \<times> utext" where
  "url_scheme_rest url =
     (let u = filter (\<lambda>c. c \<notin> {9, 10, 13}) (dropWhile (\<lambda>c. c \<le> 32) url);
          scheme = takeWhile (\<lambda>c. c \<noteq> 58) u;
          rest = dropWhile (\<lambda>c. c \<noteq> 58) u
      in if rest \<noteq> [] \<and> scheme \<noteq> [] \<and> list_all scheme_char scheme \<and>
            (97 \<le> hd scheme \<and> hd scheme \<le> 122 \<or> 65 \<le> hd scheme \<and> hd scheme \<le> 90)
         then (sql_lower scheme, tl rest) else ([], u))"

definition absolute_http :: "utext \<Rightarrow> bool" where
  "absolute_http url =
     (let (scheme, rest) = url_scheme_rest url;
          netloc = (if take 2 rest = [47, 47]
                    then takeWhile (\<lambda>c. c \<notin> {47, 63, 35}) (drop 2 rest) else [])
      in scheme \<in> {codes ''http'', codes ''https''} \<and> netloc \<noteq> [] \<and>
         (91 \<in> set netloc \<longleftrightarrow> 93 \<in> set netloc))"

definition positive :: "time option \<Rightarrow> bool" where
  "positive t = (case t of None \<Rightarrow> True | Some x \<Rightarrow> 0 < x)"

definition check_entry :: "(utext \<Rightarrow> utext) \<Rightarrow> report_entry \<Rightarrow> unit outcome" where
  "check_entry lower e =
     (if re_job_id e = [] then Inl (ValueError ''job_id must not be empty'')
      else if re_analysis_id e \<noteq> re_job_id e
        then Inl (ValueError ''Markdown Schema v1 mandates analysis_id == job_id'')
      else if re_title e = [] then Inl (ValueError ''title must not be empty'')
      else if re_platform e = [] then Inl (ValueError ''platform must not be empty'')
      else if re_video_id e = [] then Inl (ValueError ''video_id must not be empty'')
      else if re_source_url e = [] then Inl (ValueError ''source_url must not be empty'')
      else if re_relative_path e = [] then Inl (ValueError ''relative_path must not be empty'')
      else if re_doc_source e \<notin> set DOC_SOURCES then Inl (ValueError ''doc_source'')
      else if length (re_content_hash e) \<noteq> 64 \<or>
              list_ex (\<lambda>c. c \<notin> set ''0123456789abcdef'') (re_content_hash e)
        then Inl (ValueError ''content_hash must be a lowercase sha-256 hex digest'')
      else if (case re_byte_size e of None \<Rightarrow> False | Some n \<Rightarrow> n < 0)
        then Inl (ValueError ''byte_size must be non-negative'')
      else if length (re_summary_preview e) > 200
        then Inl (ValueError ''summary_preview must be at most 200 characters'')
      else if re_summary_mode e \<notin> set SUMMARY_MODES then Inl (ValueError ''summary_mode'')
      else if \<not> absolute_http (re_source_url e)
        then Inl (ValueError ''source_url must be an absolute HTTP(S) URL'')
      else if re_platform e \<noteq> lower (re_platform e)
        then Inl (ValueError ''platform must be lowercase'')
      else if \<not> 0 < re_analyzed_at e \<or> \<not> positive (re_published_at e)
        then Inl (ValueError ''timestamps must be finite positive epoch seconds'')
      else Inr ())"

section \<open>Documents and their full-text rows\<close>

definition fts_row_values :: "(utext \<Rightarrow> utext) \<Rightarrow> nat \<Rightarrow> report_entry \<Rightarrow> fts_body \<Rightarrow> fts_row" where
  "fts_row_values lower doc_id e b =
     \<lparr>f_rowid = doc_id, f_title = normalize_for_fts (re_title e),
      f_tags = normalize_for_fts (join [32] (re_tags e)),
      f_author = normalize_for_fts (re_author e),
      f_summary = normalize_for_fts (fb_summary b),
      f_transcript = normalize_for_fts (fb_transcript b),
      f_url = lower (re_source_url e)\<rparr>"

definition new_document :: "nat \<Rightarrow> report_entry \<Rightarrow> time \<Rightarrow> report_document" where
  "new_document doc_id e now =
     \<lparr>rd_id = doc_id, rd_job_id = re_job_id e, rd_analysis_id = re_analysis_id e,
      rd_title = re_title e, rd_platform = re_platform e, rd_author = re_author e,
      rd_video_id = re_video_id e, rd_source_url = re_source_url e,
      rd_published_at = re_published_at e, rd_analyzed_at = re_analyzed_at e,
      rd_language = re_language e, rd_summary_mode = re_summary_mode e,
      rd_asr_provider = re_asr_provider e, rd_asr_model = re_asr_model e,
      rd_asr_model_version = re_asr_model_version e, rd_tags = re_tags e,
      rd_summary_preview = re_summary_preview e, rd_relative_path = re_relative_path e,
      rd_content_hash = re_content_hash e, rd_byte_size = re_byte_size e,
      rd_doc_source = re_doc_source e, rd_doc_status = ''active'', rd_indexed_at = now,
      rd_updated_at = now\<rparr>"

text \<open>The UPDATE of an existing row sets every column but the three identities.\<close>

definition refresh_document :: "report_entry \<Rightarrow> time \<Rightarrow> report_document \<Rightarrow> report_document" where
  "refresh_document e now r =
     (new_document (rd_id r) e now)\<lparr>rd_job_id := rd_job_id r, rd_analysis_id := rd_analysis_id r\<rparr>"

definition find_document :: "string \<Rightarrow> database \<Rightarrow> report_document option" where
  "find_document job_id d = select_first (\<lambda>r. rd_job_id r = job_id) (documents d)"

text \<open>DELETE of the old full-text row, INSERT of the new one.\<close>

definition put_fts :: "fts_row \<Rightarrow> database \<Rightarrow> database" where
  "put_fts row d = d\<lparr>fts := delete_where (\<lambda>f. f_rowid f = f_rowid row) (fts d) @ [row]\<rparr>"

definition upsert_report_document ::
  "(utext \<Rightarrow> utext) \<Rightarrow> report_entry \<Rightarrow> fts_body \<Rightarrow> time \<Rightarrow> database \<Rightarrow> nat outcome \<times> database" where
  "upsert_report_document lower e b now d =
     (case find_document (re_job_id e) d of
        None \<Rightarrow>
          if list_ex (\<lambda>r. rd_analysis_id r = re_analysis_id e) (documents d)
          then (Inl (IntegrityError (re_analysis_id e)), d)
          else
           (let i = document_seq d + 1
            in (Inr i, put_fts (fts_row_values lower i e b)
                  (d\<lparr>documents := documents d @ [new_document i e now], document_seq := i\<rparr>)))
      | Some r \<Rightarrow>
          (let i = rd_id r
           in (Inr i, put_fts (fts_row_values lower i e b)
                 (d\<lparr>documents := update_where (\<lambda>r. rd_id r = i) (refresh_document e now)
                      (documents d)\<rparr>))))"

definition get_report_document :: "string \<Rightarrow> database \<Rightarrow> report_document option" where
  "get_report_document job_id d = find_document job_id d"

definition mark_report_stale :: "string \<Rightarrow> time \<Rightarrow> database \<Rightarrow> bool \<times> database" where
  "mark_report_stale job_id now d =
     (case find_document job_id d of
        None \<Rightarrow> (False, d)
      | Some doc \<Rightarrow>
          if rd_doc_status doc \<noteq> ''active'' then (False, d)
          else (True, d\<lparr>documents := update_where
                  (\<lambda>r. rd_id r = rd_id doc \<and> rd_doc_status r = ''active'')
                  (\<lambda>r. r\<lparr>rd_doc_status := ''stale'', rd_updated_at := now\<rparr>) (documents d)\<rparr>))"

definition mark_report_missing :: "string \<Rightarrow> time \<Rightarrow> database \<Rightarrow> bool \<times> database" where
  "mark_report_missing job_id now d =
     (case find_document job_id d of
        None \<Rightarrow> (False, d)
      | Some doc \<Rightarrow>
          if rd_doc_status doc = ''missing'' then (False, d)
          else (True, d\<lparr>documents := update_where (\<lambda>r. rd_id r = rd_id doc)
                  (\<lambda>r. r\<lparr>rd_doc_status := ''missing'', rd_updated_at := now\<rparr>) (documents d),
                fts := delete_where (\<lambda>f. f_rowid f = rd_id doc) (fts d)\<rparr>))"

definition purge_report_document :: "string \<Rightarrow> database \<Rightarrow> bool \<times> database" where
  "purge_report_document job_id d =
     (case find_document job_id d of
        None \<Rightarrow> (False, d)
      | Some doc \<Rightarrow>
          (True, d\<lparr>fts := delete_where (\<lambda>f. f_rowid f = rd_id doc) (fts d),
                   documents := delete_where (\<lambda>r. rd_id r = rd_id doc) (documents d)\<rparr>))"

definition list_document_paths :: "database \<Rightarrow> (string \<times> string) list" where
  "list_document_paths d =
     map (\<lambda>r. (rd_job_id r, rd_relative_path r))
       (sort_key (\<lambda>r. map (of_char :: char \<Rightarrow> nat) (rd_job_id r)) (documents d))"

section \<open>The completeness check\<close>

definition in_index :: "report_document \<Rightarrow> bool" where
  "in_index r \<longleftrightarrow> rd_doc_status r \<in> {''active'', ''stale''}"

record fts_verification =
  fv_consistent :: bool
  fv_document_count :: nat
  fv_fts_row_count :: nat
  fv_documents_missing_fts :: "nat list"
  fv_fts_orphan_rows :: "nat list"

definition verify_fts :: "database \<Rightarrow> fts_verification" where
  "verify_fts d =
     (let document_count = length (filter in_index (documents d));
          fts_row_count = length (fts d);
          missing = sort (map rd_id (filter (\<lambda>r. in_index r \<and>
            \<not> list_ex (\<lambda>f. f_rowid f = rd_id r) (fts d)) (documents d)));
          orphans = sort (map f_rowid (filter (\<lambda>f.
            \<not> list_ex (\<lambda>r. rd_id r = f_rowid f \<and> in_index r) (documents d)) (fts d)))
      in \<lparr>fv_consistent = (document_count = fts_row_count \<and> missing = [] \<and> orphans = []),
          fv_document_count = document_count, fv_fts_row_count = fts_row_count,
          fv_documents_missing_fts = missing, fv_fts_orphan_rows = orphans\<rparr>)"

section \<open>Lists and search\<close>

text \<open>
  \<open>platform\<close> matches as given; \<open>query\<close> only when it is not blank. \<open>\<open>analysis_id NOT IN\<close>\<close>
  excludes the reports whose job has not completed.
\<close>

definition document_filter ::
  "(utext \<Rightarrow> utext) \<Rightarrow> utext option \<Rightarrow> string option \<Rightarrow> string option \<Rightarrow> utext option \<Rightarrow> bool \<Rightarrow>
   database \<Rightarrow> report_document \<Rightarrow> bool" where
  "document_filter lower platform language asr_provider query exclude_unfinished_jobs d r \<longleftrightarrow>
     in_index r \<and>
     (case platform of None \<Rightarrow> True | Some p \<Rightarrow> sql_lower (rd_platform r) = sql_lower p) \<and>
     (case query of None \<Rightarrow> True
      | Some q \<Rightarrow> strip q = [] \<or>
          like 92 (37 # lower (escape_like (strip q)) @ [37]) (sql_lower (rd_title r)) \<or>
          like 92 (37 # lower (escape_like (strip q)) @ [37]) (sql_lower (rd_source_url r))) \<and>
     (exclude_unfinished_jobs \<longrightarrow>
        \<not> list_ex (\<lambda>j. j_job_id j = rd_analysis_id r \<and> j_status j \<noteq> COMPLETED) (jobs d)) \<and>
     (case language of None \<Rightarrow> True | Some l \<Rightarrow> rd_language r = l) \<and>
     (case asr_provider of None \<Rightarrow> True | Some a \<Rightarrow> rd_asr_provider r = a)"

definition list_report_documents ::
  "(utext \<Rightarrow> utext) \<Rightarrow> utext option \<Rightarrow> string option \<Rightarrow> string option \<Rightarrow> utext option \<Rightarrow> bool \<Rightarrow>
   int \<Rightarrow> int \<Rightarrow> database \<Rightarrow> report_document list \<times> nat" where
  "list_report_documents lower platform language asr_provider query exclude_unfinished_jobs
     cnt off d =
     (let rows = filter (document_filter lower platform language asr_provider query
                           exclude_unfinished_jobs d) (documents d)
      in (page cnt off (sort_key (\<lambda>r. (- rd_analyzed_at r, - int (rd_id r))) rows), length rows))"

record search_hit =
  sh_job_id :: string
  sh_title :: utext
  sh_platform :: utext
  sh_analyzed_at :: time
  sh_snippet :: utext
  sh_matched_fields :: "string list"
  sh_doc_status :: string

definition FTS_FIELDS :: "string list" where
  "FTS_FIELDS = [''title'', ''tags'', ''author'', ''summary'', ''transcript'', ''url'']"

text \<open>
  The FTS5 engine is a parameter: whether a row matches an expression, whether one of its
  columns does, the rank of a match, and the snippet of a column.
\<close>

record fts_engine =
  fe_match :: "utext \<Rightarrow> fts_row \<Rightarrow> bool"
  fe_column_match :: "utext \<Rightarrow> string \<Rightarrow> fts_row \<Rightarrow> bool"
  fe_rank :: "utext \<Rightarrow> fts_row \<Rightarrow> rat"
  fe_snippet :: "utext \<Rightarrow> string \<Rightarrow> fts_row \<Rightarrow> utext"

definition search_rows :: "fts_engine \<Rightarrow> utext \<Rightarrow> database \<Rightarrow> (fts_row \<times> report_document) list" where
  "search_rows eng match_query d =
     concat (map (\<lambda>f. map (Pair f) (filter (\<lambda>r. rd_id r = f_rowid f \<and> in_index r) (documents d)))
       (filter (fe_match eng match_query) (fts d)))"

definition search_hit_of :: "fts_engine \<Rightarrow> utext \<Rightarrow> utext \<Rightarrow> fts_row \<times> report_document \<Rightarrow> search_hit" where
  "search_hit_of eng match_query or_query = (\<lambda>(f, r).
     let matched = filter (\<lambda>c. fe_column_match eng or_query c f) FTS_FIELDS;
         raw = fe_snippet eng match_query
                 (case matched of [] \<Rightarrow> ''summary'' | c # _ \<Rightarrow> c) f
     in \<lparr>sh_job_id = rd_job_id r, sh_title = rd_title r, sh_platform = rd_platform r,
         sh_analyzed_at = rd_analyzed_at r, sh_snippet = denormalize_for_display raw,
         sh_matched_fields = matched, sh_doc_status = rd_doc_status r\<rparr>)"

definition search_reports ::
  "fts_engine \<Rightarrow> utext \<Rightarrow> utext \<Rightarrow> int \<Rightarrow> int \<Rightarrow> database \<Rightarrow> search_hit list \<times> nat" where
  "search_reports eng match_query or_query cnt off d =
     (let rows = search_rows eng match_query d
      in (map (search_hit_of eng match_query or_query)
            (page cnt off (sort_key (\<lambda>(f, r). (fe_rank eng match_query f, - rd_analyzed_at r)) rows)),
          length rows))"

section \<open>Index issues\<close>

definition open_issue :: "string \<Rightarrow> string \<Rightarrow> index_issue \<Rightarrow> bool" where
  "open_issue issue_code relative_path x \<longleftrightarrow>
     ix_issue_code x = issue_code \<and> ix_relative_path x = relative_path \<and> ix_resolved_at x = None"

definition record_index_issue ::
  "string \<Rightarrow> string \<Rightarrow> string \<Rightarrow> time \<Rightarrow> database \<Rightarrow> nat \<times> database" where
  "record_index_issue issue_code relative_path detail now d =
     (case select_first (open_issue issue_code relative_path) (issues d) of
        Some x \<Rightarrow>
          (ix_id x, d\<lparr>issues := update_where (\<lambda>y. ix_id y = ix_id x)
             (\<lambda>y. y\<lparr>ix_last_seen_at := now\<rparr>) (issues d)\<rparr>)
      | None \<Rightarrow>
          (let i = issue_seq d + 1
           in (i, d\<lparr>issues := issues d @
                 [\<lparr>ix_id = i, ix_issue_code = issue_code, ix_relative_path = relative_path,
                   ix_detail = Some detail, ix_first_seen_at = now, ix_last_seen_at = now,
                   ix_resolved_at = None\<rparr>], issue_seq := i\<rparr>)))"

definition resolve_index_issue :: "string \<Rightarrow> string \<Rightarrow> time \<Rightarrow> database \<Rightarrow> nat \<times> database" where
  "resolve_index_issue issue_code relative_path now d =
     (let open_rows = map ix_id (filter (open_issue issue_code relative_path) (issues d))
      in if open_rows = [] then (0, d)
         else (length open_rows,
               d\<lparr>issues := update_where (\<lambda>x. ix_id x \<in> set open_rows)
                   (\<lambda>x. x\<lparr>ix_resolved_at := Some now\<rparr>) (issues d)\<rparr>))"

definition issue_filter :: "string option \<Rightarrow> bool \<Rightarrow> index_issue \<Rightarrow> bool" where
  "issue_filter issue_code open_only x \<longleftrightarrow>
     (open_only \<longrightarrow> ix_resolved_at x = None) \<and>
     (case issue_code of None \<Rightarrow> True | Some c \<Rightarrow> ix_issue_code x = c)"

definition list_open_issues ::
  "string option \<Rightarrow> bool \<Rightarrow> int \<Rightarrow> int \<Rightarrow> database \<Rightarrow> index_issue list" where
  "list_open_issues issue_code open_only cnt off d =
     page cnt off (sort_key (\<lambda>x. - ix_last_seen_at x)
       (filter (issue_filter issue_code open_only) (issues d)))"

definition count_open_issues :: "database \<Rightarrow> nat" where
  "count_open_issues d = length (filter (\<lambda>x. ix_resolved_at x = None) (issues d))"

definition count_index_issues :: "string option \<Rightarrow> bool \<Rightarrow> database \<Rightarrow> nat" where
  "count_index_issues issue_code open_only d =
     length (filter (issue_filter issue_code open_only) (issues d))"

definition resolve_issues_for_absent_paths ::
  "string list \<Rightarrow> time \<Rightarrow> database \<Rightarrow> nat \<times> database" where
  "resolve_issues_for_absent_paths present_paths now d =
     (let P = (\<lambda>x. ix_resolved_at x = None \<and>
                   (present_paths \<noteq> [] \<longrightarrow> ix_relative_path x \<notin> set present_paths));
          affected = length (filter P (issues d))
      in (affected,
          if affected = 0 then d
          else d\<lparr>issues := update_where P (\<lambda>x. x\<lparr>ix_resolved_at := Some now\<rparr>) (issues d)\<rparr>))"

section \<open>The rebuild state\<close>

definition set_index_state ::
  "string \<Rightarrow> time \<Rightarrow> string option \<Rightarrow> database \<Rightarrow> unit outcome \<times> database" where
  "set_index_state state now error_code d =
     (if state \<notin> {''idle'', ''running'', ''needs_rebuild''}
      then (Inl (ValueError ''unknown index state''), d)
      else if state = ''running'' then
        (Inr (), d\<lparr>index_row :=
           \<lparr>is_state = ''running'', is_started_at = Some now, is_finished_at = None,
            is_scanned = 0, is_indexed = 0, is_unchanged = 0, is_quarantined = 0,
            is_duplicates = 0, is_removed = 0, is_purged = 0, is_last_error_code = None\<rparr>\<rparr>)
      else if state = ''idle'' then
        (Inr (), d\<lparr>index_row := (index_row d)\<lparr>is_state := ''idle'', is_finished_at := Some now,
           is_last_error_code := error_code\<rparr>\<rparr>)
      else
        (Inr (), d\<lparr>index_row := (index_row d)\<lparr>is_state := ''needs_rebuild'',
           is_last_error_code := error_code\<rparr>\<rparr>))"

definition get_index_status :: "database \<Rightarrow> index_status_row" where
  "get_index_status d = index_row d"

definition record_rebuild_counters ::
  "int \<Rightarrow> int \<Rightarrow> int \<Rightarrow> int \<Rightarrow> int \<Rightarrow> int \<Rightarrow> int \<Rightarrow> database \<Rightarrow> database" where
  "record_rebuild_counters scanned indexed unchanged quarantined duplicates removed purged d =
     d\<lparr>index_row := (index_row d)
        \<lparr>is_scanned := is_scanned (index_row d) + scanned,
         is_indexed := is_indexed (index_row d) + indexed,
         is_unchanged := is_unchanged (index_row d) + unchanged,
         is_quarantined := is_quarantined (index_row d) + quarantined,
         is_duplicates := is_duplicates (index_row d) + duplicates,
         is_removed := is_removed (index_row d) + removed,
         is_purged := is_purged (index_row d) + purged\<rparr>\<rparr>"

end
