(* ===== verification/ReportTheorems.thy ===== *)
theory ReportTheorems
  imports Reports
begin

text \<open>
  The pairing of report documents and full-text rows as an invariant of the repository's
  operations, the completeness check against it, and the protocol of open issues.
\<close>

section \<open>The pairing invariant\<close>

definition paired_text :: "(utext \<Rightarrow> utext) \<Rightarrow> report_document \<Rightarrow> fts_row \<Rightarrow> bool" where
  "paired_text lower r f \<longleftrightarrow>
     f_title f = normalize_for_fts (rd_title r) \<and>
     f_tags f = normalize_for_fts (join [32] (rd_tags r)) \<and>
     f_author f = normalize_for_fts (rd_author r) \<and> f_url f = lower (rd_source_url r)"

definition documents_wf :: "database \<Rightarrow> bool" where
  "documents_wf d \<longleftrightarrow>
     distinct (map rd_id (documents d)) \<and> (\<forall>r \<in> set (documents d). rd_id r \<le> document_seq d) \<and>
     distinct (map rd_job_id (documents d)) \<and> distinct (map rd_analysis_id (documents d))"

definition fts_paired :: "(utext \<Rightarrow> utext) \<Rightarrow> database \<Rightarrow> bool" where
  "fts_paired lower d \<longleftrightarrow>
     distinct (map f_rowid (fts d)) \<and>
     (\<forall>f \<in> set (fts d). \<exists>r \<in> set (documents d).
        rd_id r = f_rowid f \<and> in_index r \<and> paired_text lower r f) \<and>
     (\<forall>r \<in> set (documents d). in_index r \<longrightarrow> (\<exists>f \<in> set (fts d). f_rowid f = rd_id r))"

definition index_wf :: "(utext \<Rightarrow> utext) \<Rightarrow> database \<Rightarrow> bool" where
  "index_wf lower d \<longleftrightarrow> documents_wf d \<and> fts_paired lower d"

lemma find_document_in: "find_document k d = Some r \<Longrightarrow> r \<in> set (documents d) \<and> rd_job_id r = k"
  by (auto simp: find_document_def dest: select_first_SomeD)

lemma find_document_None: "find_document k d = None \<longleftrightarrow> k \<notin> rd_job_id ` set (documents d)"
  by (force simp: find_document_def select_first_None_iff)

lemma documents_wf_id:
  "documents_wf d \<Longrightarrow> r \<in> set (documents d) \<Longrightarrow> r' \<in> set (documents d) \<Longrightarrow> rd_id r = rd_id r' \<Longrightarrow> r = r'"
  by (auto simp: documents_wf_def intro: distinct_key_unique [where k = rd_id])

lemma put_fts_simps [simp]:
  "documents (put_fts row d) = documents d" "document_seq (put_fts row d) = document_seq d"
  "set (fts (put_fts row d)) = {f \<in> set (fts d). f_rowid f \<noteq> f_rowid row} \<union> {row}"
  by (auto simp: put_fts_def)

lemma put_fts_distinct:
  "distinct (map f_rowid (fts d)) \<Longrightarrow> distinct (map f_rowid (fts (put_fts row d)))"
  by (auto simp: put_fts_def intro: distinct_delete_where)

lemma fts_rowids_below:
  "fts_paired lower d \<Longrightarrow> documents_wf d \<Longrightarrow> f \<in> set (fts d) \<Longrightarrow> f_rowid f \<le> document_seq d"
  by (fastforce simp: fts_paired_def documents_wf_def)

lemma paired_new [simp]: "paired_text lower (new_document i e now) (fts_row_values lower j e b)"
  by (simp add: paired_text_def new_document_def fts_row_values_def)

lemma fts_row_values_rowid [simp]: "f_rowid (fts_row_values lower i e b) = i"
  by (simp add: fts_row_values_def)

lemma new_document_simps [simp]:
  "rd_id (new_document i e now) = i" "rd_job_id (new_document i e now) = re_job_id e"
  "rd_analysis_id (new_document i e now) = re_analysis_id e" "in_index (new_document i e now)"
  "rd_doc_status (new_document i e now) = ''active''"
  by (simp_all add: new_document_def in_index_def)

lemma refresh_document_simps [simp]:
  "rd_id (refresh_document e now r) = rd_id r" "rd_job_id (refresh_document e now r) = rd_job_id r"
  "rd_analysis_id (refresh_document e now r) = rd_analysis_id r" "in_index (refresh_document e now r)"
  "rd_doc_status (refresh_document e now r) = ''active''"
  "paired_text lower (refresh_document e now r) (fts_row_values lower j e b)"
  by (simp_all add: refresh_document_def new_document_def in_index_def paired_text_def fts_row_values_def)

lemma documents_wf_update:
  assumes "documents_wf d" "\<And>r. rd_id (g r) = rd_id r" "\<And>r. rd_job_id (g r) = rd_job_id r"
    "\<And>r. rd_analysis_id (g r) = rd_analysis_id r"
  shows "documents_wf (d\<lparr>documents := update_where P g (documents d)\<rparr>)"
proof -
  have "map rd_id (update_where P g t) = map rd_id t"
    "map rd_job_id (update_where P g t) = map rd_job_id t"
    "map rd_analysis_id (update_where P g t) = map rd_analysis_id t" for t
    by (simp_all add: map_key_update_where assms(2-4))
  with assms(1) show ?thesis
    by (auto simp: documents_wf_def set_update_where assms(2))
qed

lemma upsert_wf:
  assumes "index_wf lower d" "upsert_report_document lower e b now d = (res, d')"
  shows "index_wf lower d'"
proof (cases "find_document (re_job_id e) d")
  case None
  show ?thesis
  proof (cases "list_ex (\<lambda>r. rd_analysis_id r = re_analysis_id e) (documents d)")
    case True
    with None assms show ?thesis by (simp add: upsert_report_document_def)
  next
    case False
    let ?i = "Suc (document_seq d)"
    let ?d1 = "d\<lparr>documents := documents d @ [new_document ?i e now], document_seq := ?i\<rparr>"
    have d': "d' = put_fts (fts_row_values lower ?i e b) ?d1"
      using assms(2) None False by (simp add: upsert_report_document_def Let_def)
    have below: "rd_id r \<le> document_seq d" if "r \<in> set (documents d)" for r
      using assms(1) that by (simp add: index_wf_def documents_wf_def)
    then have fresh: "?i \<notin> rd_id ` set (documents d)" by fastforce
    have "documents_wf d'"
      using assms(1) None False fresh below unfolding d'
      by (auto simp: index_wf_def documents_wf_def find_document_None list_ex_iff le_SucI image_iff)
    moreover have "fts_paired lower d'"
    proof -
      have p: "fts_paired lower d" using assms(1) by (simp add: index_wf_def)
      have "f_rowid f \<noteq> ?i" if "f \<in> set (fts d)" for f
        using fts_rowids_below [OF p _ that] assms(1) by (auto simp: index_wf_def)
      with p show ?thesis
        unfolding d' by (auto simp: fts_paired_def put_fts_distinct Bex_def) metis
    qed
    ultimately show ?thesis by (simp add: index_wf_def)
  qed
next
  case (Some r)
  let ?d1 = "d\<lparr>documents := update_where (\<lambda>x. rd_id x = rd_id r) (refresh_document e now) (documents d)\<rparr>"
  have d': "d' = put_fts (fts_row_values lower (rd_id r) e b) ?d1"
    using assms(2) Some by (simp add: upsert_report_document_def Let_def)
  have r: "r \<in> set (documents d)" using find_document_in [OF Some] by simp
  have p: "fts_paired lower d" and wf: "documents_wf d" using assms(1) by (simp_all add: index_wf_def)
  have docs: "set (documents ?d1) = {x \<in> set (documents d). rd_id x \<noteq> rd_id r} \<union> {refresh_document e now r}"
    using documents_wf_id [OF wf _ r] r by (auto simp: set_update_where image_iff)
  have "documents_wf d'"
    using documents_wf_update [OF wf, of "refresh_document e now"] unfolding d'
    by (simp add: documents_wf_def)
  moreover have "fts_paired lower d'"
    using p unfolding fts_paired_def d' put_fts_simps docs
    by (auto simp: put_fts_distinct) (metis, metis)
  ultimately show ?thesis by (simp add: index_wf_def)
qed

lemma stale_wf:
  assumes "index_wf lower d"
  shows "index_wf lower (snd (mark_report_stale k now d))"
proof (cases "find_document k d")
  case (Some doc)
  let ?g = "\<lambda>r. r\<lparr>rd_doc_status := ''stale'', rd_updated_at := now\<rparr>"
  let ?P = "\<lambda>r. rd_id r = rd_id doc \<and> rd_doc_status r = ''active''"
  let ?d = "d\<lparr>documents := update_where ?P ?g (documents d)\<rparr>"
  have p: "fts_paired lower d" and wf: "documents_wf d" using assms by (simp_all add: index_wf_def)
  have g: "in_index (?g r)" "?P r \<Longrightarrow> in_index r" "paired_text lower (?g r) f = paired_text lower r f" for r f
    by (simp_all add: in_index_def paired_text_def)
  have row: "\<exists>r' \<in> set (documents ?d). rd_id r' = rd_id r \<and> in_index r' \<and> paired_text lower r' f"
    if "r \<in> set (documents d)" "in_index r" "paired_text lower r f" for r f
    using that g(1,3) by (intro bexI [of _ "if ?P r then ?g r else r"]) (auto simp: set_update_where)
  have origin: "\<exists>r \<in> set (documents d). rd_id r' = rd_id r \<and> in_index r"
    if "r' \<in> set (documents ?d)" "in_index r'" for r'
    using that by (auto simp: set_update_where in_index_def split: if_splits) metis
  have "fts_paired lower ?d"
    unfolding fts_paired_def
  proof (intro conjI ballI impI)
    show "distinct (map f_rowid (fts ?d))" using p by (simp add: fts_paired_def)
  next
    fix f assume "f \<in> set (fts ?d)"
    with p obtain r where "r \<in> set (documents d)" "rd_id r = f_rowid f" "in_index r" "paired_text lower r f"
      by (auto simp: fts_paired_def)
    with row [of r f] show "\<exists>r \<in> set (documents ?d). rd_id r = f_rowid f \<and> in_index r \<and> paired_text lower r f"
      by simp
  next
    fix r' assume r': "r' \<in> set (documents ?d)" "in_index r'"
    from origin [OF this] p show "\<exists>f \<in> set (fts ?d). f_rowid f = rd_id r'" by (auto simp: fts_paired_def)
  qed
  with documents_wf_update [OF wf, of ?g ?P] have "index_wf lower ?d" by (simp add: index_wf_def)
  with assms Some show ?thesis by (simp add: mark_report_stale_def)
qed (simp add: mark_report_stale_def assms)

text \<open>Taking one document out of the index together with its full-text row.\<close>

lemma fts_paired_drop:
  assumes p: "fts_paired lower d"
    and docs: "\<And>r. rd_id r \<noteq> i \<Longrightarrow> r \<in> set docs \<longleftrightarrow> r \<in> set (documents d)"
    and out: "\<And>r. r \<in> set docs \<Longrightarrow> rd_id r = i \<Longrightarrow> \<not> in_index r"
  shows "fts_paired lower (d\<lparr>documents := docs, fts := delete_where (\<lambda>f. f_rowid f = i) (fts d)\<rparr>)"
proof -
  have "\<exists>r \<in> set docs. rd_id r = f_rowid f \<and> in_index r \<and> paired_text lower r f"
    if "f \<in> set (fts d)" "f_rowid f \<noteq> i" for f
  proof -
    from p that obtain r where r: "r \<in> set (documents d)" "rd_id r = f_rowid f" "in_index r" "paired_text lower r f"
      by (auto simp: fts_paired_def)
    with docs [of r] that show ?thesis by auto
  qed
  moreover have "\<exists>f \<in> set (fts d). f_rowid f \<noteq> i \<and> f_rowid f = rd_id r" if "r \<in> set docs" "in_index r" for r
  proof -
    have "rd_id r \<noteq> i" using out that by blast
    with docs [of r] that have "r \<in> set (documents d)" by simp
    with p that(2) obtain f where "f \<in> set (fts d)" "f_rowid f = rd_id r" by (auto simp: fts_paired_def)
    with \<open>rd_id r \<noteq> i\<close> show ?thesis by (intro bexI [of _ f]) simp_all
  qed
  ultimately show ?thesis
    using p by (auto simp: fts_paired_def intro: distinct_delete_where) blast
qed

lemma missing_wf:
  assumes "index_wf lower d"
  shows "index_wf lower (snd (mark_report_missing k now d))"
proof (cases "find_document k d")
  case (Some doc)
  let ?g = "\<lambda>r. r\<lparr>rd_doc_status := ''missing'', rd_updated_at := now\<rparr>"
  have p: "fts_paired lower d" and wf: "documents_wf d" using assms by (simp_all add: index_wf_def)
  have "documents_wf (d\<lparr>documents := update_where (\<lambda>r. rd_id r = rd_id doc) ?g (documents d)\<rparr>)"
    by (rule documents_wf_update [OF wf]) simp_all
  moreover have "fts_paired lower (d\<lparr>documents := update_where (\<lambda>r. rd_id r = rd_id doc) ?g (documents d),
      fts := delete_where (\<lambda>f. f_rowid f = rd_id doc) (fts d)\<rparr>)"
    by (rule fts_paired_drop [OF p]) (auto simp: set_update_where in_index_def image_iff)
  ultimately show ?thesis
    using assms Some by (simp add: mark_report_missing_def index_wf_def documents_wf_def)
qed (simp add: mark_report_missing_def assms)

lemma purge_wf:
  assumes "index_wf lower d"
  shows "index_wf lower (snd (purge_report_document k d))"
proof (cases "find_document k d")
  case (Some doc)
  have p: "fts_paired lower d" and wf: "documents_wf d" using assms by (simp_all add: index_wf_def)
  have "documents_wf (d\<lparr>documents := delete_where (\<lambda>r. rd_id r = rd_id doc) (documents d)\<rparr>)"
    using wf by (auto simp: documents_wf_def intro: distinct_delete_where)
  moreover have "fts_paired lower (d\<lparr>documents := delete_where (\<lambda>r. rd_id r = rd_id doc) (documents d),
      fts := delete_where (\<lambda>f. f_rowid f = rd_id doc) (fts d)\<rparr>)"
    by (rule fts_paired_drop [OF p]) auto
  moreover have "snd (purge_report_document k d) =
      d\<lparr>documents := delete_where (\<lambda>r. rd_id r = rd_id doc) (documents d),
        fts := delete_where (\<lambda>f. f_rowid f = rd_id doc) (fts d)\<rparr>"
    using Some by (simp add: purge_report_document_def)
  ultimately show ?thesis by (simp add: index_wf_def documents_wf_def)
qed (simp add: purge_report_document_def assms)

section \<open>Runs of index operations\<close>

datatype index_call =
    Upsert report_entry fts_body time
  | MarkStale string time
  | MarkMissing string time
  | Purge string
  | RecordIssue string string string time
  | ResolveIssue string string time
  | ResolveAbsent "string list" time
  | SetState string time "string option"
  | Counters int int int int int int int

fun index_exec :: "(utext \<Rightarrow> utext) \<Rightarrow> index_call \<Rightarrow> database \<Rightarrow> database" where
  "index_exec lower (Upsert e b now) d = snd (upsert_report_document lower e b now d)"
| "index_exec lower (MarkStale k now) d = snd (mark_report_stale k now d)"
| "index_exec lower (MarkMissing k now) d = snd (mark_report_missing k now d)"
| "index_exec lower (Purge k) d = snd (purge_report_document k d)"
| "index_exec lower (RecordIssue c p t now) d = snd (record_index_issue c p t now d)"
| "index_exec lower (ResolveIssue c p now) d = snd (resolve_index_issue c p now d)"
| "index_exec lower (ResolveAbsent ps now) d = snd (resolve_issues_for_absent_paths ps now d)"
| "index_exec lower (SetState st now c) d = snd (set_index_state st now c d)"
| "index_exec lower (Counters a b c e f g h) d = record_rebuild_counters a b c e f g h d"

definition index_run :: "(utext \<Rightarrow> utext) \<Rightarrow> index_call list \<Rightarrow> database \<Rightarrow> database" where
  "index_run lower cs d = fold (index_exec lower) cs d"

definition same_documents :: "database \<Rightarrow> database \<Rightarrow> bool" where
  "same_documents d d' \<longleftrightarrow>
     documents d' = documents d \<and> document_seq d' = document_seq d \<and> fts d' = fts d"

lemma same_documents_wf: "same_documents d d' \<Longrightarrow> index_wf lower d \<Longrightarrow> index_wf lower d'"
  by (simp add: same_documents_def index_wf_def documents_wf_def fts_paired_def)

lemma index_exec_wf: "index_wf lower d \<Longrightarrow> index_wf lower (index_exec lower c d)"
proof (cases c)
  case (Upsert e b now)
  assume "index_wf lower d"
  with Upsert show ?thesis using upsert_wf [of lower d e b now] by (auto simp: prod_eq_iff)
next
  case (RecordIssue x p t now)
  assume wf: "index_wf lower d"
  have "same_documents d (snd (record_index_issue x p t now d))"
    by (simp add: same_documents_def record_index_issue_def Let_def split: option.split)
  with RecordIssue wf show ?thesis by (simp add: same_documents_wf)
next
  case (ResolveIssue x p now)
  assume wf: "index_wf lower d"
  have "same_documents d (snd (resolve_index_issue x p now d))"
    by (simp add: same_documents_def resolve_index_issue_def Let_def)
  with ResolveIssue wf show ?thesis by (simp add: same_documents_wf)
next
  case (ResolveAbsent ps now)
  assume wf: "index_wf lower d"
  have "same_documents d (snd (resolve_issues_for_absent_paths ps now d))"
    by (simp add: same_documents_def resolve_issues_for_absent_paths_def Let_def)
  with ResolveAbsent wf show ?thesis by (simp add: same_documents_wf)
next
  case (SetState st now x)
  assume wf: "index_wf lower d"
  have "same_documents d (snd (set_index_state st now x d))"
    by (simp add: same_documents_def set_index_state_def)
  with SetState wf show ?thesis by (simp add: same_documents_wf)
next
  case (Counters a b x e f g h)
  assume wf: "index_wf lower d"
  have "same_documents d (record_rebuild_counters a b x e f g h d)"
    by (simp add: same_documents_def record_rebuild_counters_def)
  with Counters wf show ?thesis by (simp add: same_documents_wf)
qed (simp_all add: stale_wf missing_wf purge_wf)

lemma index_run_wf: "index_wf lower d \<Longrightarrow> index_wf lower (index_run lower cs d)"
  unfolding index_run_def by (induction cs arbitrary: d) (simp_all add: index_exec_wf)

lemma index_wf_empty: "index_wf lower empty_database"
  by (simp add: index_wf_def documents_wf_def fts_paired_def empty_database_def)

section \<open>The completeness check\<close>

lemma sort_Nil_iff: "sort xs = [] \<longleftrightarrow> xs = []" for xs :: "nat list"
  by (metis length_0_conv length_sort)

lemma verify_consistent:
  assumes "index_wf lower d"
  shows "fv_consistent (verify_fts d)"
proof -
  have p: "fts_paired lower d" and wf: "documents_wf d" using assms by (simp_all add: index_wf_def)
  have "f_rowid ` set (fts d) = rd_id ` set (filter in_index (documents d))"
  proof (intro equalityI subsetI)
    fix i assume "i \<in> f_rowid ` set (fts d)"
    then obtain f where "f \<in> set (fts d)" "i = f_rowid f" by blast
    with p obtain r where "r \<in> set (documents d)" "rd_id r = i" "in_index r" by (auto simp: fts_paired_def)
    then show "i \<in> rd_id ` set (filter in_index (documents d))" by auto
  next
    fix i assume "i \<in> rd_id ` set (filter in_index (documents d))"
    then obtain r where "r \<in> set (documents d)" "i = rd_id r" "in_index r" by auto
    with p obtain f where "f \<in> set (fts d)" "f_rowid f = i" by (auto simp: fts_paired_def)
    then show "i \<in> f_rowid ` set (fts d)" by blast
  qed
  moreover have "distinct (map f_rowid (fts d))" "distinct (map rd_id (filter in_index (documents d)))"
    using p wf by (simp_all add: fts_paired_def documents_wf_def distinct_map_filterI)
  ultimately have "length (fts d) = length (filter in_index (documents d))"
    by (metis distinct_card length_map set_map)
  moreover have "filter (\<lambda>r. in_index r \<and> \<not> list_ex (\<lambda>f. f_rowid f = rd_id r) (fts d)) (documents d) = []"
    using p by (auto simp: fts_paired_def filter_empty_conv list_ex_iff)
  moreover have "filter (\<lambda>f. \<not> list_ex (\<lambda>r. rd_id r = f_rowid f \<and> in_index r) (documents d)) (fts d) = []"
    using p by (auto simp: fts_paired_def filter_empty_conv list_ex_iff)
  ultimately show ?thesis by (simp add: verify_fts_def Let_def)
qed

text \<open>
  C27. The index never drifts. Starting from an empty database, after any sequence of index
  operations (refreshing, marking, purging, recording issues) every searchable document has
  exactly one full-text row, with the normalised text of the document's own metadata, every
  full-text row belongs to a searchable document, and the completeness check reports no
  inconsistency.
\<close>
theorem index_never_drifts:
  "index_wf lower (index_run lower cs empty_database) \<and>
   fv_consistent (verify_fts (index_run lower cs empty_database))"
  using index_run_wf [OF index_wf_empty] verify_consistent by blast

text \<open>
  The completeness check is sound. With unique document ids, a database it calls
  consistent has for every searchable document a full-text row under its id, for every
  full-text row a searchable document, and no two full-text rows under one id.
\<close>
theorem verify_fts_sound:
  assumes "distinct (map rd_id (documents d))" "fv_consistent (verify_fts d)"
  shows "f_rowid ` set (fts d) = rd_id ` set (filter in_index (documents d)) \<and>
    distinct (map f_rowid (fts d))"
proof -
  have len: "length (filter in_index (documents d)) = length (fts d)"
    and miss: "filter (\<lambda>r. in_index r \<and> \<not> list_ex (\<lambda>f. f_rowid f = rd_id r) (fts d)) (documents d) = []"
    and orph: "filter (\<lambda>f. \<not> list_ex (\<lambda>r. rd_id r = f_rowid f \<and> in_index r) (documents d)) (fts d) = []"
    using assms(2) by (simp_all add: verify_fts_def Let_def sort_Nil_iff)
  have eq: "f_rowid ` set (fts d) = rd_id ` set (filter in_index (documents d))"
  proof (intro equalityI subsetI)
    fix i assume "i \<in> f_rowid ` set (fts d)"
    then obtain f where f: "f \<in> set (fts d)" "i = f_rowid f" by blast
    with orph have "list_ex (\<lambda>r. rd_id r = f_rowid f \<and> in_index r) (documents d)"
      by (simp add: filter_empty_conv)
    with f show "i \<in> rd_id ` set (filter in_index (documents d))" by (force simp: list_ex_iff)
  next
    fix i assume "i \<in> rd_id ` set (filter in_index (documents d))"
    then obtain r where r: "r \<in> set (documents d)" "i = rd_id r" "in_index r" by auto
    with miss have "list_ex (\<lambda>f. f_rowid f = rd_id r) (fts d)"
      by (simp add: filter_empty_conv)
    with r show "i \<in> f_rowid ` set (fts d)" by (force simp: list_ex_iff)
  qed
  have "card (set (map f_rowid (fts d))) = length (map f_rowid (fts d))"
  proof -
    have "distinct (map rd_id (filter in_index (documents d)))"
      using assms(1) by (rule distinct_map_filterI)
    then have "card (rd_id ` set (filter in_index (documents d))) = length (filter in_index (documents d))"
      by (metis distinct_card length_map set_map)
    with eq len show ?thesis by (metis length_map set_map)
  qed
  with eq show ?thesis using card_distinct by blast
qed

definition sample_entry :: report_entry where
  "sample_entry =
     \<lparr>re_job_id = ''j'', re_analysis_id = ''j'', re_title = codes ''A talk'', re_platform = codes ''bilibili'',
      re_author = [], re_video_id = ''BV1'', re_source_url = codes ''https://example.org/v'',
      re_published_at = None, re_analyzed_at = 7, re_summary_mode = ''auto'', re_language = [],
      re_asr_provider = [], re_asr_model = [], re_asr_model_version = [], re_tags = [],
      re_summary_preview = [], re_relative_path = ''a.md'',
      re_content_hash = replicate 64 CHR ''0'', re_byte_size = None, re_doc_source = ''pipeline''\<rparr>"

definition indexed_db :: database where
  "indexed_db = index_run sql_lower
     [Upsert sample_entry \<lparr>fb_summary = [], fb_transcript = []\<rparr> 8, MarkStale ''j'' 9] empty_database"

theorem verify_fts_sound_witness:
  "f_rowid ` set (fts indexed_db) = rd_id ` set (filter in_index (documents indexed_db)) \<and>
   distinct (map f_rowid (fts indexed_db))"
proof (rule verify_fts_sound)
  have "index_wf sql_lower indexed_db"
    unfolding indexed_db_def by (rule index_run_wf [OF index_wf_empty])
  then show "distinct (map rd_id (documents indexed_db))" "fv_consistent (verify_fts indexed_db)"
    by (simp_all add: verify_consistent) (simp add: index_wf_def documents_wf_def)
qed

section \<open>Open issues\<close>

definition unresolved :: "index_issue \<Rightarrow> bool" where
  "unresolved x \<longleftrightarrow> ix_resolved_at x = None"

definition issue_key :: "index_issue \<Rightarrow> string \<times> string" where
  "issue_key x = (ix_issue_code x, ix_relative_path x)"

definition issues_wf :: "database \<Rightarrow> bool" where
  "issues_wf d \<longleftrightarrow>
     distinct (map ix_id (issues d)) \<and> (\<forall>x \<in> set (issues d). ix_id x \<le> issue_seq d) \<and>
     distinct (map issue_key (filter unresolved (issues d)))"

text \<open>Resolving issues keeps the open ones unique: fewer stay open.\<close>

lemma filter_unresolved_update:
  assumes "\<And>x. \<not> unresolved (g x)"
  shows "filter unresolved (update_where P g t) = filter (\<lambda>x. \<not> P x) (filter unresolved t)"
  using assms by (induction t) auto

lemma issues_wf_resolve:
  assumes "issues_wf d"
  shows "issues_wf (d\<lparr>issues := update_where P (\<lambda>x. x\<lparr>ix_resolved_at := Some now\<rparr>) (issues d)\<rparr>)"
proof -
  let ?g = "\<lambda>x. x\<lparr>ix_resolved_at := Some now\<rparr>"
  have "map ix_id (update_where P ?g t) = map ix_id t" for t by (rule map_key_update_where) simp
  moreover have "filter unresolved (update_where P ?g t) = filter (\<lambda>x. \<not> P x) (filter unresolved t)" for t
    by (rule filter_unresolved_update) (simp add: unresolved_def)
  ultimately show ?thesis
    using assms by (auto simp: issues_wf_def set_update_where distinct_map_filterI simp del: filter_filter)
qed

lemma issues_wf_seen:
  assumes "issues_wf d"
  shows "issues_wf (d\<lparr>issues := update_where P (\<lambda>x. x\<lparr>ix_last_seen_at := now\<rparr>) (issues d)\<rparr>)"
proof -
  let ?g = "\<lambda>x. x\<lparr>ix_last_seen_at := now\<rparr>"
  have "map ix_id (update_where P ?g t) = map ix_id t" for t by (rule map_key_update_where) simp
  moreover have "map issue_key (filter unresolved (update_where P ?g t)) = map issue_key (filter unresolved t)" for t
    by (induction t) (auto simp: unresolved_def issue_key_def)
  ultimately show ?thesis using assms by (auto simp: issues_wf_def set_update_where)
qed

lemma open_issue_iff: "open_issue c p x \<longleftrightarrow> unresolved x \<and> issue_key x = (c, p)"
  by (auto simp: open_issue_def unresolved_def issue_key_def)

lemma record_issue_wf:
  assumes "issues_wf d"
  shows "issues_wf (snd (record_index_issue c p t now d))"
proof (cases "select_first (open_issue c p) (issues d)")
  case None
  then have "(c, p) \<notin> issue_key ` set (filter unresolved (issues d))"
    by (auto simp: select_first_None_iff open_issue_iff)
  moreover have "Suc (issue_seq d) \<notin> ix_id ` set (issues d)"
    using assms by (fastforce simp: issues_wf_def)
  ultimately show ?thesis
    using assms None
    by (auto simp: record_index_issue_def Let_def issues_wf_def unresolved_def issue_key_def le_SucI)
next
  case (Some x)
  with issues_wf_seen [OF assms] show ?thesis by (simp add: record_index_issue_def)
qed

lemma index_exec_issues: "issues_wf d \<Longrightarrow> issues_wf (index_exec lower c d)"
proof (cases c)
  case (Upsert e b now)
  assume "issues_wf d"
  moreover have "issues (snd (upsert_report_document lower e b now d)) = issues d"
    "issue_seq (snd (upsert_report_document lower e b now d)) = issue_seq d"
    by (simp_all add: upsert_report_document_def put_fts_def Let_def split: option.split)
  ultimately show ?thesis by (simp add: Upsert issues_wf_def)
next
  case (ResolveIssue x p now)
  assume "issues_wf d"
  then show ?thesis by (simp add: ResolveIssue resolve_index_issue_def Let_def issues_wf_resolve)
next
  case (ResolveAbsent ps now)
  assume "issues_wf d"
  then show ?thesis
    by (simp add: ResolveAbsent resolve_issues_for_absent_paths_def Let_def issues_wf_resolve)
next
  case (RecordIssue x p t now)
  assume "issues_wf d"
  then show ?thesis by (simp add: RecordIssue record_issue_wf)
qed (simp_all add: issues_wf_def mark_report_stale_def mark_report_missing_def
    purge_report_document_def set_index_state_def record_rebuild_counters_def split: option.split)

lemma index_run_issues: "issues_wf (index_run lower cs empty_database)"
proof -
  have "issues_wf (fold (index_exec lower) cs d)" if "issues_wf d" for d
    using that by (induction cs arbitrary: d) (simp_all add: index_exec_issues)
  moreover have "issues_wf empty_database" by (simp add: issues_wf_def empty_database_def)
  ultimately show ?thesis by (simp add: index_run_def)
qed

text \<open>
  The open-issue protocol. After any sequence of index operations there is at most one
  open issue per code and path; recording an issue answers with the id of an open issue for
  this code and path, last seen now, and resolved issues keep their resolution: a recurrence
  is a new row.
\<close>
theorem issue_protocol:
  "case record_index_issue c p t now (index_run lower cs empty_database) of (i, d') \<Rightarrow>
     distinct (map issue_key (filter unresolved (issues d'))) \<and>
     list_ex (\<lambda>x. ix_id x = i \<and> open_issue c p x \<and> ix_last_seen_at x = now) (issues d') \<and>
     filter (\<lambda>x. \<not> unresolved x) (issues d') =
       filter (\<lambda>x. \<not> unresolved x) (issues (index_run lower cs empty_database))"
proof -
  let ?d = "index_run lower cs empty_database"
  have wf: "issues_wf ?d" by (rule index_run_issues)
  have d: "distinct (map issue_key (filter unresolved (issues (snd (record_index_issue c p t now ?d)))))"
    using record_issue_wf [OF wf] by (simp add: issues_wf_def)
  show ?thesis
  proof (cases "select_first (open_issue c p) (issues ?d)")
    case None
    with d show ?thesis by (simp add: record_index_issue_def Let_def open_issue_def unresolved_def)
  next
    case (Some x)
    then have x: "x \<in> set (issues ?d)" "open_issue c p x" by (auto dest: select_first_SomeD)
    have only: "y = x" if "y \<in> set (issues ?d)" "ix_id y = ix_id x" for y
      using distinct_key_unique [of ix_id "issues ?d" y x] wf x(1) that by (simp add: issues_wf_def)
    have "filter (\<lambda>y. \<not> unresolved y)
        (update_where (\<lambda>y. ix_id y = ix_id x) (\<lambda>y. y\<lparr>ix_last_seen_at := now\<rparr>) ys) =
        filter (\<lambda>y. \<not> unresolved y) ys" if "set ys \<subseteq> set (issues ?d)" for ys
      using that
    proof (induction ys)
      case (Cons y ys)
      then have "ix_id y = ix_id x \<Longrightarrow> unresolved y" using only [of y] x(2) by (simp add: open_issue_iff)
      with Cons show ?case by (auto simp: unresolved_def)
    qed simp
    moreover have "list_ex (\<lambda>y. ix_id y = ix_id x \<and> open_issue c p y \<and> ix_last_seen_at y = now)
        (update_where (\<lambda>y. ix_id y = ix_id x) (\<lambda>y. y\<lparr>ix_last_seen_at := now\<rparr>) (issues ?d))"
      using x unfolding list_ex_iff set_update_where
      by (intro bexI [of _ "x\<lparr>ix_last_seen_at := now\<rparr>"]) (auto simp: open_issue_def image_iff)
    ultimately show ?thesis
      using d Some by (simp add: record_index_issue_def)
  qed
qed

end
