(* ===== verification/JobList.thy ===== *)
theory JobList
  imports Reports
begin

text \<open>
  The list views: \<open>list_jobs\<close> of \<open>storage/repository.py\<close> and the unified list of
  \<open>web/app.py\<close>, which answers the default view from one read snapshot. Python's
  \<open>str.lower\<close> is the parameter \<open>lower\<close>.
\<close>

section \<open>Jobs\<close>

definition job_filter ::
  "(utext \<Rightarrow> utext) \<Rightarrow> job_status option \<Rightarrow> string option \<Rightarrow> utext option \<Rightarrow> utext option \<Rightarrow>
   job \<Rightarrow> bool" where
  "job_filter lower status status_group platform query r \<longleftrightarrow>
     (case status of None \<Rightarrow> True | Some st \<Rightarrow> j_status r = st) \<and>
     (status_group = Some ''non_completed'' \<longrightarrow> j_status r \<noteq> COMPLETED) \<and>
     (case platform of None \<Rightarrow> True
      | Some p \<Rightarrow> strip p = [] \<or>
          map_option sql_lower (j_platform r) = Some (lower (strip p))) \<and>
     (case query of None \<Rightarrow> True
      | Some q \<Rightarrow> strip q = [] \<or>
          (case j_title r of None \<Rightarrow> False | Some t \<Rightarrow> contains_filter (strip q) t) \<or>
          contains_filter (strip q) (j_url r))"

definition terminal_rank :: "job \<Rightarrow> nat" where
  "terminal_rank r = (if j_status r \<in> {COMPLETED, FAILED, CANCELLED} then 1 else 0)"

definition job_order :: "job \<Rightarrow> nat \<times> time \<times> int" where
  "job_order r = (terminal_rank r, - j_created_at r, - int (j_id r))"

definition list_jobs ::
  "(utext \<Rightarrow> utext) \<Rightarrow> int \<Rightarrow> int \<Rightarrow> job_status option \<Rightarrow> string option \<Rightarrow> utext option \<Rightarrow>
   utext option \<Rightarrow> database \<Rightarrow> job list \<times> nat" where
  "list_jobs lower cnt off status status_group platform query d =
     (let rows = filter (job_filter lower status status_group platform query) (jobs d)
      in (page cnt off (sort_key job_order rows), length rows))"

section \<open>The unified list\<close>

record list_item =
  li_kind :: string
  li_job_id :: string
  li_status :: string
  li_stage :: "string option"
  li_progress :: int
  li_error_code :: "string option"
  li_created_at :: "time option"
  li_title :: "utext option"
  li_platform :: "utext option"
  li_url :: "utext option"

definition job_item :: "job \<Rightarrow> list_item" where
  "job_item r =
     \<lparr>li_kind = ''job'', li_job_id = j_job_id r, li_status = status_value (j_status r),
      li_stage = map_option status_value (j_stage r), li_progress = j_progress r,
      li_error_code = j_error_code r, li_created_at = Some (j_created_at r),
      li_title = j_title r, li_platform = j_platform r, li_url = Some (j_url r)\<rparr>"

definition history_item :: "report_document \<Rightarrow> list_item" where
  "history_item r =
     \<lparr>li_kind = ''history'', li_job_id = rd_job_id r, li_status = ''completed'',
      li_stage = None, li_progress = 100, li_error_code = None, li_created_at = None,
      li_title = Some (rd_title r), li_platform = Some (rd_platform r),
      li_url = Some (rd_source_url r)\<rparr>"

record unified_response =
  ur_items :: "list_item list"
  ur_total :: int
  ur_jobs_total :: int
  ur_history_total :: int
  ur_limit :: int
  ur_offset :: int

definition jobs_unified_list ::
  "(utext \<Rightarrow> utext) \<Rightarrow> int \<Rightarrow> int \<Rightarrow> utext option \<Rightarrow> utext option \<Rightarrow> database \<Rightarrow> unified_response" where
  "jobs_unified_list lower cnt off platform query d =
     (let segment = (\<lambda>n k. list_jobs lower n k None (Some ''non_completed'') platform query d);
          history = (\<lambda>n k. list_report_documents lower platform None None query True n k d);
          jobs_total = int (snd (segment 1 0));
          js = (if off < jobs_total then fst (segment (min cnt (jobs_total - off)) off) else []);
          remaining = cnt - int (length js);
          (hs, history_total) =
            (if remaining > 0
             then history remaining (if off < jobs_total then 0 else off - jobs_total)
             else ([], snd (history 1 0)))
      in \<lparr>ur_items = map job_item js @ map history_item hs,
          ur_total = jobs_total + int history_total, ur_jobs_total = jobs_total,
          ur_history_total = int history_total, ur_limit = cnt, ur_offset = off\<rparr>)"

section \<open>Paging\<close>

lemma page_take_drop: "0 \<le> cnt \<Longrightarrow> page cnt off t = take (nat cnt) (drop (nat off) t)"
  by (simp add: page_def Let_def)

definition jobs_segment :: "(utext \<Rightarrow> utext) \<Rightarrow> utext option \<Rightarrow> utext option \<Rightarrow> database \<Rightarrow> job list" where
  "jobs_segment lower platform query d =
     sort_key job_order (filter (job_filter lower None (Some ''non_completed'') platform query) (jobs d))"

definition history_segment ::
  "(utext \<Rightarrow> utext) \<Rightarrow> utext option \<Rightarrow> utext option \<Rightarrow> database \<Rightarrow> report_document list" where
  "history_segment lower platform query d =
     sort_key (\<lambda>r. (- rd_analyzed_at r, - int (rd_id r)))
       (filter (document_filter lower platform None None query True d) (documents d))"

definition unified_view :: "(utext \<Rightarrow> utext) \<Rightarrow> utext option \<Rightarrow> utext option \<Rightarrow> database \<Rightarrow> list_item list" where
  "unified_view lower platform query d =
     map job_item (jobs_segment lower platform query d) @
     map history_item (history_segment lower platform query d)"

lemma list_jobs_segment:
  "list_jobs lower cnt off None (Some ''non_completed'') platform query d =
     (page cnt off (jobs_segment lower platform query d), length (jobs_segment lower platform query d))"
  by (simp add: list_jobs_def jobs_segment_def Let_def)

lemma list_history_segment:
  "list_report_documents lower platform None None query True cnt off d =
     (page cnt off (history_segment lower platform query d),
      length (history_segment lower platform query d))"
  by (simp add: list_report_documents_def history_segment_def Let_def)

text \<open>The endpoint's answer is the window of one list, and its totals are the segments' lengths.\<close>

lemma unified_slice:
  assumes "0 \<le> cnt" "0 \<le> off"
  shows "ur_items (jobs_unified_list lower cnt off platform query d) =
      take (nat cnt) (drop (nat off) (unified_view lower platform query d)) \<and>
    ur_jobs_total (jobs_unified_list lower cnt off platform query d) =
      int (length (jobs_segment lower platform query d)) \<and>
    ur_total (jobs_unified_list lower cnt off platform query d) =
      int (length (unified_view lower platform query d))"
proof -
  let ?J = "jobs_segment lower platform query d"
  let ?H = "history_segment lower platform query d"
  let ?n = "nat cnt" and ?k = "nat off"
  have k: "off < int (length ?J) \<longleftrightarrow> ?k < length ?J" using assms by linarith
  have js: "(if off < int (length ?J) then page (min cnt (int (length ?J) - off)) off ?J else [])
      = take ?n (drop ?k ?J)"
    using assms by (auto simp: page_take_drop nat_diff_distrib min_def)
  have rem: "cnt - int (length (take ?n (drop ?k ?J))) = int (?n - length (drop ?k ?J))"
    using assms by auto
  have hs: "page (int (?n - length (drop ?k ?J))) (if off < int (length ?J) then 0 else off - int (length ?J)) ?H
      = take (?n - length (drop ?k ?J)) (drop (?k - length ?J) ?H)"
    using assms by (auto simp: page_take_drop nat_diff_distrib)
  show ?thesis
    unfolding jobs_unified_list_def Let_def list_jobs_segment list_history_segment fst_conv snd_conv
      js rem hs
    by (simp add: unified_view_def drop_map take_map)
qed

end
