(* ===== verification/Json.thy ===== *)
theory Json
  imports Texts
begin

text \<open>
  JSON values as \<open>json.loads\<close> returns them. An object is the list of its members in the order
  of the document. The type of the member names is a parameter: the bodies of the HTTP API and
  the benchmark reports only have the ASCII names the program looks up, configuration files
  have any text. Numbers with a fraction or an exponent are floats in Python and rationals
  here; \<open>NaN\<close> and the infinities, which Python's reader accepts, are values of their own.
\<close>

datatype 'k jtree =
    JNull
  | JBool bool
  | JInt int
  | JFloat rat
  | JStr utext
  | JNan
  | JInf bool
  | JArr "'k jtree list"
  | JObj "('k \<times> 'k jtree) list"

type_synonym json = "string jtree"

text \<open>\<open>value.get(k)\<close>, \<open>None\<close> when the member is absent.\<close>

definition member :: "'k \<Rightarrow> 'k jtree \<Rightarrow> 'k jtree option" where
  "member k v = (case v of JObj f \<Rightarrow> map_of f k | _ \<Rightarrow> None)"

text \<open>\<open>isinstance(value, (int, float))\<close> and \<open>float(value)\<close>: a bool is an int.\<close>

definition number :: "'k jtree option \<Rightarrow> rat option" where
  "number v =
     (case v of
        Some (JInt i) \<Rightarrow> Some (of_int i)
      | Some (JFloat x) \<Rightarrow> Some x
      | Some (JBool b) \<Rightarrow> Some (if b then 1 else 0)
      | _ \<Rightarrow> None)"

text \<open>A list of dictionaries under a key, anything else dropped.\<close>

definition object_list :: "'k jtree option \<Rightarrow> 'k jtree list" where
  "object_list v =
     (case v of
        Some (JArr xs) \<Rightarrow> filter (\<lambda>x. case x of JObj _ \<Rightarrow> True | _ \<Rightarrow> False) xs
      | _ \<Rightarrow> [])"

end
