(* ===== verification/Listing.thy ===== *)
theory Listing
  imports JobList Json "HOL-Library.Monad_Syntax"
begin

text \<open>
  The bridge's strict reading of the engine's list pages, \<open>mcp/listing.py\<close>. A body is parsed
  JSON; the pydantic wire models in strict mode are readers of JSON objects that either
  return the typed row or fail. Every failure is an \<open>EngineListFormatError\<close>, here the
  \<open>ValueError\<close> it is a subclass of.
\<close>

section \<open>Strict fields\<close>

definition req_str :: "string \<Rightarrow> (string \<times> json) list \<Rightarrow> utext option" where
  "req_str k f = (case map_of f k of Some (JStr s) \<Rightarrow> Some s | _ \<Rightarrow> None)"

definition opt_str :: "string \<Rightarrow> (string \<times> json) list \<Rightarrow> utext option option" where
  "opt_str k f =
     (case map_of f k of
        None \<Rightarrow> Some None
      | Some JNull \<Rightarrow> Some None
      | Some (JStr s) \<Rightarrow> Some (Some s)
      | _ \<Rightarrow> None)"

text \<open>\<open>int = Field(ge=0)\<close>; a bool is not an int in strict mode.\<close>

definition req_count :: "string \<Rightarrow> (string \<times> json) list \<Rightarrow> int option" where
  "req_count k f = (case map_of f k of Some (JInt n) \<Rightarrow> (if 0 \<le> n then Some n else None) | _ \<Rightarrow> None)"

text \<open>A strict float field takes integers too.\<close>

definition req_float :: "string \<Rightarrow> (string \<times> json) list \<Rightarrow> rat option" where
  "req_float k f =
     (case map_of f k of
        Some (JInt n) \<Rightarrow> Some (of_int n)
      | Some (JFloat x) \<Rightarrow> Some x
      | _ \<Rightarrow> None)"

definition opt_float :: "string \<Rightarrow> (string \<times> json) list \<Rightarrow> rat option option" where
  "opt_float k f =
     (case map_of f k of
        None \<Rightarrow> Some None
      | Some JNull \<Rightarrow> Some None
      | _ \<Rightarrow> map_option Some (req_float k f))"

definition req_strs :: "string \<Rightarrow> (string \<times> json) list \<Rightarrow> utext list option" where
  "req_strs k f =
     (case map_of f k of
        Some (JArr xs) \<Rightarrow>
          if list_all (\<lambda>x. case x of JStr _ \<Rightarrow> True | _ \<Rightarrow> False) xs
          then Some (map (\<lambda>x. case x of JStr s \<Rightarrow> s | _ \<Rightarrow> []) xs) else None
      | _ \<Rightarrow> None)"

section \<open>Wire rows\<close>

record wire_job_row =
  wj_job_id :: utext
  wj_status :: utext
  wj_progress :: int
  wj_error_code :: "utext option"
  wj_title :: "utext option"
  wj_platform :: "utext option"
  wj_url :: "utext option"

text \<open>\<open>_WireJobRow\<close>; \<open>created_at\<close> and \<open>stage\<close> are checked and not used.\<close>

definition read_job_row :: "json \<Rightarrow> wire_job_row option" where
  "read_job_row raw =
     (case raw of
        JObj f \<Rightarrow>
          do {
            job_id \<leftarrow> req_str ''job_id'' f;
            status \<leftarrow> req_str ''status'' f;
            progress \<leftarrow> req_count ''progress'' f;
            _ \<leftarrow> req_float ''created_at'' f;
            _ \<leftarrow> opt_str ''stage'' f;
            error_code \<leftarrow> opt_str ''error_code'' f;
            title \<leftarrow> opt_str ''title'' f;
            platform \<leftarrow> opt_str ''platform'' f;
            url \<leftarrow> opt_str ''url'' f;
            Some \<lparr>wj_job_id = job_id, wj_status = status, wj_progress = progress,
                  wj_error_code = error_code, wj_title = title, wj_platform = platform,
                  wj_url = url\<rparr>
          }
      | _ \<Rightarrow> None)"

record wire_history_row =
  wh_job_id :: utext
  wh_title :: utext
  wh_platform :: utext
  wh_source_url :: utext

text \<open>\<open>_WireHistoryRow\<close>: the full contract is checked, four fields are used.\<close>

definition read_history_row :: "json \<Rightarrow> wire_history_row option" where
  "read_history_row raw =
     (case raw of
        JObj f \<Rightarrow>
          do {
            job_id \<leftarrow> req_str ''job_id'' f;
            _ \<leftarrow> req_str ''analysis_id'' f;
            title \<leftarrow> req_str ''title'' f;
            platform \<leftarrow> req_str ''platform'' f;
            _ \<leftarrow> req_str ''author'' f;
            _ \<leftarrow> req_str ''video_id'' f;
            source_url \<leftarrow> req_str ''source_url'' f;
            _ \<leftarrow> opt_float ''published_at'' f;
            _ \<leftarrow> req_float ''analyzed_at'' f;
            _ \<leftarrow> req_str ''language'' f;
            _ \<leftarrow> req_str ''summary_mode'' f;
            _ \<leftarrow> req_str ''asr_provider'' f;
            _ \<leftarrow> req_str ''asr_model'' f;
            _ \<leftarrow> req_str ''asr_model_version'' f;
            _ \<leftarrow> req_strs ''tags'' f;
            _ \<leftarrow> req_str ''summary_preview'' f;
            _ \<leftarrow> req_str ''file_path'' f;
            _ \<leftarrow> req_str ''content_hash'' f;
            _ \<leftarrow> req_str ''doc_status'' f;
            _ \<leftarrow> req_float ''indexed_at'' f;
            Some \<lparr>wh_job_id = job_id, wh_title = title, wh_platform = platform,
                  wh_source_url = source_url\<rparr>
          }
      | _ \<Rightarrow> None)"

text \<open>\<open>_WireUnifiedRow\<close>: its kind and the fields of a job row.\<close>

definition read_unified_row :: "json \<Rightarrow> (utext \<times> wire_job_row) option" where
  "read_unified_row raw =
     (case raw of
        JObj f \<Rightarrow>
          do {
            kind \<leftarrow> req_str ''kind'' f;
            job_id \<leftarrow> req_str ''job_id'' f;
            status \<leftarrow> req_str ''status'' f;
            progress \<leftarrow> req_count ''progress'' f;
            _ \<leftarrow> opt_str ''stage'' f;
            error_code \<leftarrow> opt_str ''error_code'' f;
            _ \<leftarrow> opt_float ''created_at'' f;
            title \<leftarrow> opt_str ''title'' f;
            platform \<leftarrow> opt_str ''platform'' f;
            url \<leftarrow> opt_str ''url'' f;
            Some (kind, \<lparr>wj_job_id = job_id, wj_status = status, wj_progress = progress,
                  wj_error_code = error_code, wj_title = title, wj_platform = platform,
                  wj_url = url\<rparr>)
          }
      | _ \<Rightarrow> None)"

definition format_error :: "'a outcome" where
  "format_error = Inl (ValueError ''EngineListFormatError'')"

definition wire :: "(json \<Rightarrow> 'r option) \<Rightarrow> json \<Rightarrow> 'r outcome" where
  "wire reader raw = (case reader raw of None \<Rightarrow> format_error | Some r \<Rightarrow> Inr r)"

section \<open>Projection to the tool's output\<close>

record analysis_item =
  ai_job_id :: utext
  ai_title :: "utext option"
  ai_platform :: "utext option"
  ai_status :: job_status
  ai_progress :: int
  ai_error_code :: "utext option"
  ai_url :: "utext option"

record list_output =
  lo_items :: "analysis_item list"
  lo_limit :: int
  lo_offset :: int
  lo_total :: int

definition wire_status :: "utext \<Rightarrow> job_status option" where
  "wire_status t = List.find (\<lambda>s. codes (status_value s) = t) all_statuses"

text \<open>The output schema caps the progress at 100.\<close>

definition mcp_job :: "wire_job_row \<Rightarrow> analysis_item outcome" where
  "mcp_job w =
     (case wire_status (wj_status w) of
        None \<Rightarrow> format_error
      | Some st \<Rightarrow>
          if 0 \<le> wj_progress w \<and> wj_progress w \<le> 100
          then Inr \<lparr>ai_job_id = wj_job_id w, ai_title = wj_title w, ai_platform = wj_platform w,
                    ai_status = st, ai_progress = wj_progress w,
                    ai_error_code = wj_error_code w, ai_url = wj_url w\<rparr>
          else format_error)"

definition mcp_history_item ::
  "utext \<Rightarrow> utext option \<Rightarrow> utext option \<Rightarrow> utext option \<Rightarrow> analysis_item" where
  "mcp_history_item job_id title platform url =
     \<lparr>ai_job_id = job_id, ai_title = title, ai_platform = platform, ai_status = COMPLETED,
      ai_progress = 100, ai_error_code = None, ai_url = url\<rparr>"

section \<open>The window\<close>

definition strict_window :: "json \<Rightarrow> int \<Rightarrow> int \<Rightarrow> (json list \<times> int) outcome" where
  "strict_window body cnt off =
     (case body of
        JObj f \<Rightarrow>
          (case (map_of f ''items'', map_of f ''total'') of
             (Some (JArr raw_items), Some (JInt total_count)) \<Rightarrow>
               if total_count < 0 then format_error
               else if map_of f ''limit'' \<noteq> Some (JInt cnt) \<or> map_of f ''offset'' \<noteq> Some (JInt off)
               then format_error
               else if int (length raw_items) \<noteq> min cnt (max 0 (total_count - off)) then format_error
               else Inr (raw_items, total_count)
           | _ \<Rightarrow> format_error)
      | _ \<Rightarrow> format_error)"

text \<open>Stop at the first failing item, as the loop and the comprehension do.\<close>

fun collect :: "('a \<Rightarrow> 'b outcome) \<Rightarrow> 'a list \<Rightarrow> 'b list outcome" where
  "collect f [] = Inr []"
| "collect f (x # xs) =
     (case f x of
        Inl e \<Rightarrow> Inl e
      | Inr y \<Rightarrow> (case collect f xs of Inl e \<Rightarrow> Inl e | Inr ys \<Rightarrow> Inr (y # ys)))"

text \<open>The output model: \<open>limit\<close> between 1 and 100, \<open>offset\<close> and \<open>total\<close> not negative; an
  illegal window is pydantic's own \<open>ValidationError\<close>, which is a \<open>ValueError\<close>.\<close>

definition list_output_of :: "analysis_item list \<Rightarrow> int \<Rightarrow> int \<Rightarrow> int \<Rightarrow> list_output outcome" where
  "list_output_of items cnt off total_count =
     (if 1 \<le> cnt \<and> cnt \<le> 100 \<and> 0 \<le> off \<and> 0 \<le> total_count
      then Inr \<lparr>lo_items = items, lo_limit = cnt, lo_offset = off, lo_total = total_count\<rparr>
      else Inl (ValueError ''ValidationError''))"

section \<open>The three pages\<close>

definition single_source_row :: "utext \<Rightarrow> json \<Rightarrow> analysis_item outcome" where
  "single_source_row status raw =
     (case wire read_job_row raw of
        Inl e \<Rightarrow> Inl e
      | Inr w \<Rightarrow>
         (case mcp_job w of
            Inl e \<Rightarrow> Inl e
          | Inr item \<Rightarrow>
              if codes (status_value (ai_status item)) \<noteq> status then format_error else Inr item))"

definition single_source_page :: "json \<Rightarrow> utext \<Rightarrow> int \<Rightarrow> int \<Rightarrow> list_output outcome" where
  "single_source_page jobs_body status cnt off =
     (case strict_window jobs_body cnt off of
        Inl e \<Rightarrow> Inl e
      | Inr (raw_items, total_count) \<Rightarrow>
         (case collect (single_source_row status) raw_items of
            Inl e \<Rightarrow> Inl e
          | Inr page_items \<Rightarrow> list_output_of page_items cnt off total_count))"

definition completed_row :: "json \<Rightarrow> analysis_item outcome" where
  "completed_row raw =
     (case wire read_history_row raw of
        Inl e \<Rightarrow> Inl e
      | Inr w \<Rightarrow> Inr (mcp_history_item (wh_job_id w) (Some (wh_title w)) (Some (wh_platform w))
                   (Some (wh_source_url w))))"

definition completed_page :: "json \<Rightarrow> int \<Rightarrow> int \<Rightarrow> list_output outcome" where
  "completed_page history_body cnt off =
     (case strict_window history_body cnt off of
        Inl e \<Rightarrow> Inl e
      | Inr (raw_items, total_count) \<Rightarrow>
         (case collect completed_row raw_items of
            Inl e \<Rightarrow> Inl e
          | Inr page_items \<Rightarrow> list_output_of page_items cnt off total_count))"

definition unified_row :: "int \<Rightarrow> int \<Rightarrow> nat \<times> json \<Rightarrow> analysis_item outcome" where
  "unified_row jobs_total off = (\<lambda>(index, raw).
     case wire read_unified_row raw of
       Inl e \<Rightarrow> Inl e
     | Inr (kind, w) \<Rightarrow>
         let expected_kind = (if off + int index < jobs_total then ''job'' else ''history'')
         in if kind \<noteq> codes expected_kind then format_error
            else if kind = codes ''history'' then
              (if wj_status w \<noteq> codes (status_value COMPLETED) then format_error
               else Inr (mcp_history_item (wj_job_id w) (wj_title w) (wj_platform w) (wj_url w)))
            else
              (case mcp_job w of
                 Inl e \<Rightarrow> Inl e
               | Inr item \<Rightarrow> if ai_status item = COMPLETED then format_error else Inr item))"

definition unified_page :: "json \<Rightarrow> int \<Rightarrow> int \<Rightarrow> list_output outcome" where
  "unified_page body cnt off =
     (case strict_window body cnt off of
        Inl e \<Rightarrow> Inl e
      | Inr (raw_items, total_count) \<Rightarrow>
         (case body of
            JObj f \<Rightarrow>
             (case (map_of f ''jobs_total'', map_of f ''history_total'') of
                (Some (JInt jobs_total), Some (JInt history_total)) \<Rightarrow>
                  if jobs_total < 0 \<or> history_total < 0 then format_error
                  else if total_count \<noteq> jobs_total + history_total then format_error
                  else
                   (case collect (unified_row jobs_total off) (enumerate 0 raw_items) of
                      Inl e \<Rightarrow> Inl e
                    | Inr page_items \<Rightarrow> list_output_of page_items cnt off total_count)
              | _ \<Rightarrow> format_error)
          | _ \<Rightarrow> format_error))"

end
