(* ===== verification/ListTheorems.thy ===== *)
theory ListTheorems
  imports Listing
begin

text \<open>
  The list views end to end: the engine's unified answer, serialised, is accepted by the
  bridge and arrives as one slice of one list; no job is shown twice; and whatever a
  (possibly broken) engine sends, what the bridge lets through is a well-formed page.
\<close>

section \<open>Serialisation of the engine's answer\<close>

definition json_opt :: "('a \<Rightarrow> json) \<Rightarrow> 'a option \<Rightarrow> json" where
  "json_opt f x = (case x of None \<Rightarrow> JNull | Some y \<Rightarrow> f y)"

definition json_item :: "list_item \<Rightarrow> json" where
  "json_item i = JObj
     [(''kind'', JStr (codes (li_kind i))), (''job_id'', JStr (codes (li_job_id i))),
      (''status'', JStr (codes (li_status i))), (''progress'', JInt (li_progress i)),
      (''stage'', json_opt (JStr \<circ> codes) (li_stage i)),
      (''error_code'', json_opt (JStr \<circ> codes) (li_error_code i)),
      (''created_at'', json_opt JFloat (li_created_at i)), (''title'', json_opt JStr (li_title i)),
      (''platform'', json_opt JStr (li_platform i)), (''url'', json_opt JStr (li_url i))]"

definition json_unified :: "unified_response \<Rightarrow> json" where
  "json_unified u = JObj
     [(''items'', JArr (map json_item (ur_items u))), (''total'', JInt (ur_total u)),
      (''jobs_total'', JInt (ur_jobs_total u)), (''history_total'', JInt (ur_history_total u)),
      (''limit'', JInt (ur_limit u)), (''offset'', JInt (ur_offset u))]"

lemma wire_status_value [simp]: "wire_status (codes (status_value s)) = Some s"
  by (cases s) (simp_all add: wire_status_def all_statuses_def)

lemma read_opt_str: "map_of f k = Some (json_opt JStr x) \<Longrightarrow> opt_str k f = Some x"
  "map_of f k = Some (json_opt (JStr \<circ> codes) y) \<Longrightarrow> opt_str k f = Some (map_option codes y)"
  by (cases x; simp add: opt_str_def json_opt_def) (cases y; simp add: opt_str_def json_opt_def)

lemma read_opt_float: "map_of f k = Some (json_opt JFloat x) \<Longrightarrow> opt_float k f = Some x"
  by (cases x) (simp_all add: opt_float_def req_float_def json_opt_def)

lemma read_json_item:
  "0 \<le> li_progress i \<Longrightarrow> read_unified_row (json_item i) = Some (codes (li_kind i),
     \<lparr>wj_job_id = codes (li_job_id i), wj_status = codes (li_status i), wj_progress = li_progress i,
      wj_error_code = map_option codes (li_error_code i), wj_title = li_title i,
      wj_platform = li_platform i, wj_url = li_url i\<rparr>)"
  by (simp add: read_unified_row_def json_item_def req_str_def req_count_def read_opt_str read_opt_float)

definition shown_job :: "job \<Rightarrow> analysis_item" where
  "shown_job r =
     \<lparr>ai_job_id = codes (j_job_id r), ai_title = j_title r, ai_platform = j_platform r,
      ai_status = j_status r, ai_progress = j_progress r,
      ai_error_code = map_option codes (j_error_code r), ai_url = Some (j_url r)\<rparr>"

definition shown_report :: "report_document \<Rightarrow> analysis_item" where
  "shown_report r =
     \<lparr>ai_job_id = codes (rd_job_id r), ai_title = Some (rd_title r), ai_platform = Some (rd_platform r),
      ai_status = COMPLETED, ai_progress = 100, ai_error_code = None, ai_url = Some (rd_source_url r)\<rparr>"

lemma unified_row_job:
  assumes "0 \<le> j_progress r" "j_progress r \<le> 100" "j_status r \<noteq> COMPLETED" "off + int n < jobs_total"
  shows "unified_row jobs_total off (n, json_item (job_item r)) = Inr (shown_job r)"
  using assms
  by (simp add: unified_row_def wire_def read_json_item job_item_def mcp_job_def shown_job_def Let_def)

lemma unified_row_history:
  assumes "\<not> off + int n < jobs_total"
  shows "unified_row jobs_total off (n, json_item (history_item r)) = Inr (shown_report r)"
  using assms
  by (simp add: unified_row_def wire_def read_json_item history_item_def mcp_history_item_def
      shown_report_def Let_def)

lemma collect_all:
  "(\<And>x. x \<in> set xs \<Longrightarrow> f x = Inr (g x)) \<Longrightarrow> collect f xs = Inr (map g xs)"
  by (induction xs) simp_all

lemma collect_nth:
  assumes "collect f xs = Inr ys"
  shows "length ys = length xs" "\<And>i. i < length xs \<Longrightarrow> f (xs ! i) = Inr (ys ! i)"
proof -
  have "length ys = length xs \<and> (\<forall>i < length xs. f (xs ! i) = Inr (ys ! i))"
    using assms
  proof (induction xs arbitrary: ys)
    case (Cons x xs)
    then obtain y zs where y: "f x = Inr y" "collect f xs = Inr zs" "ys = y # zs"
      by (auto split: sum.splits)
    from Cons.IH [OF y(2)] y show ?case by (auto simp: nth_Cons split: nat.splits)
  qed simp
  then show "length ys = length xs" "\<And>i. i < length xs \<Longrightarrow> f (xs ! i) = Inr (ys ! i)" by blast+
qed

lemma collect_Inr_iff:
  assumes "length ys = length xs" "\<And>i. i < length xs \<Longrightarrow> f (xs ! i) = Inr (ys ! i)"
  shows "collect f xs = Inr ys"
  using assms
proof (induction xs arbitrary: ys)
  case (Cons x xs)
  then obtain y zs where ys: "ys = y # zs" by (cases ys) auto
  have "collect f xs = Inr zs"
    using Cons.prems ys by (intro Cons.IH) (auto dest!: meta_spec [of _ "Suc _"])
  with Cons.prems(2) [of 0] ys show ?case by simp
qed simp

section \<open>The theorems\<close>

lemma jobs_segment_member:
  "r \<in> set (jobs_segment lower platform query d) \<Longrightarrow> r \<in> set (jobs d) \<and> j_status r \<noteq> COMPLETED"
  by (auto simp: jobs_segment_def job_filter_def)

lemma unified_slice_length:
  "0 \<le> cnt \<Longrightarrow> 0 \<le> off \<Longrightarrow>
     int (length (take (nat cnt) (drop (nat off) t))) = min cnt (max 0 (int (length t) - off))"
  by simp

lemma strict_window_ok:
  "0 \<le> n \<Longrightarrow> int (length xs) = min cnt (max 0 (n - off)) \<Longrightarrow>
     strict_window (JObj [(''items'', JArr xs), (''total'', JInt n), (''jobs_total'', a),
       (''history_total'', b), (''limit'', JInt cnt), (''offset'', JInt off)]) cnt off = Inr (xs, n)"
  by (simp add: strict_window_def)

lemma unified_page_ok:
  assumes "0 \<le> a" "0 \<le> b" "int (length xs) = min cnt (max 0 (a + b - off))"
    and "collect (unified_row a off) (enumerate 0 xs) = Inr ys" "1 \<le> cnt" "cnt \<le> 100" "0 \<le> off"
  shows "unified_page (JObj [(''items'', JArr xs), (''total'', JInt (a + b)), (''jobs_total'', JInt a),
       (''history_total'', JInt b), (''limit'', JInt cnt), (''offset'', JInt off)]) cnt off =
     Inr \<lparr>lo_items = ys, lo_limit = cnt, lo_offset = off, lo_total = a + b\<rparr>"
  using assms by (simp add: unified_page_def strict_window_ok list_output_of_def)

lemma enumerate_map_nth: "i < length xs \<Longrightarrow> enumerate 0 (map f xs) ! i = (i, f (xs ! i))"
  by (simp add: nth_enumerate_eq)

text \<open>
  C28. The default view end to end. Whatever the window, the engine's answer serialised is
  accepted by the bridge, and the tool's output is exactly that slice of the unfinished jobs
  followed by the indexed reports, with the length of the whole list as its total.
\<close>
theorem unified_view_end_to_end:
  assumes "1 \<le> cnt" "cnt \<le> 100" "0 \<le> off"
    and "\<forall>r \<in> set (jobs d). 0 \<le> j_progress r \<and> j_progress r \<le> 100"
  shows "unified_page (json_unified (jobs_unified_list lower cnt off platform query d)) cnt off = Inr
    \<lparr>lo_items = take (nat cnt) (drop (nat off)
        (map shown_job (jobs_segment lower platform query d) @
         map shown_report (history_segment lower platform query d))),
     lo_limit = cnt, lo_offset = off,
     lo_total = int (length (jobs_segment lower platform query d)) +
                int (length (history_segment lower platform query d))\<rparr>"
proof -
  let ?J = "jobs_segment lower platform query d"
  let ?H = "history_segment lower platform query d"
  let ?u = "jobs_unified_list lower cnt off platform query d"
  let ?V = "map job_item ?J @ map history_item ?H"
  let ?W = "map shown_job ?J @ map shown_report ?H"
  let ?items = "take (nat cnt) (drop (nat off) ?V)"
  have u: "ur_items ?u = ?items" "ur_jobs_total ?u = int (length ?J)"
    "ur_total ?u = int (length ?J) + int (length ?H)"
    using unified_slice [of cnt off lower platform query d] assms
    by (simp_all add: unified_view_def)
  have u': "ur_history_total ?u = int (length ?H)" "ur_limit ?u = cnt" "ur_offset ?u = off"
    by (simp_all add: jobs_unified_list_def Let_def list_jobs_segment list_history_segment)
  have len: "int (length ?items) = min cnt (max 0 (int (length ?J) + int (length ?H) - off))"
    using unified_slice_length [of cnt off ?V] assms by simp
  have row: "unified_row (int (length ?J)) off (i, json_item (?items ! i)) =
      Inr (take (nat cnt) (drop (nat off) ?W) ! i)" if "i < length ?items" for i
  proof -
    from that have i: "nat off + i < length ?V" unfolding length_take length_drop by linarith
    have n: "i < nat cnt" using that unfolding length_take length_drop by linarith
    have "length ?W = length ?V" by simp
    then have eqs: "?items ! i = ?V ! (nat off + i)"
      "take (nat cnt) (drop (nat off) ?W) ! i = ?W ! (nat off + i)"
      using i n by (simp_all only: nth_take nth_drop order.strict_implies_order)
    show ?thesis
    proof (cases "nat off + i < length ?J")
      case True
      let ?r = "?J ! (nat off + i)"
      have "?r \<in> set ?J" using True by simp
      with jobs_segment_member assms(4) have "0 \<le> j_progress ?r" "j_progress ?r \<le> 100" "j_status ?r \<noteq> COMPLETED"
        by blast+
      moreover have "off + int i < int (length ?J)" using True assms(3) by linarith
      ultimately show ?thesis unfolding eqs using True by (simp add: nth_append unified_row_job)
    next
      case False
      then have "\<not> off + int i < int (length ?J)" using assms(3) by linarith
      then show ?thesis unfolding eqs using False i by (simp add: nth_append unified_row_history)
    qed
  qed
  have coll: "collect (unified_row (int (length ?J)) off) (enumerate 0 (map json_item ?items)) =
      Inr (take (nat cnt) (drop (nat off) ?W))"
  proof (rule collect_Inr_iff)
    fix i assume "i < length (enumerate 0 (map json_item ?items))"
    then have i: "i < length ?items" by (simp only: length_enumerate length_map)
    show "unified_row (int (length ?J)) off (enumerate 0 (map json_item ?items) ! i) =
        Inr (take (nat cnt) (drop (nat off) ?W) ! i)"
      unfolding enumerate_map_nth [OF i] by (rule row [OF i])
  qed simp
  have size: "int (length (map json_item ?items)) =
      min cnt (max 0 (int (length ?J) + int (length ?H) - off))"
    unfolding length_map by (rule len)
  show ?thesis
    unfolding json_unified_def u u'
    by (rule unified_page_ok [OF of_nat_0_le_iff of_nat_0_le_iff size coll assms(1-3)])
qed

definition list_job :: "string \<Rightarrow> job_status \<Rightarrow> job" where
  "list_job k st =
     \<lparr>j_id = 1, j_job_id = k, j_request_fingerprint = ''rf'', j_url = codes ''https://example.org/v'',
      j_mode = ''auto'', j_asr = ''auto'', j_language = None, j_asr_provider_id = None,
      j_asr_model_id = None, j_asr_model_version = None, j_asr_recommendation_model_id = None,
      j_config_fingerprint = ''cf'', j_title = None, j_platform = Some (codes ''bilibili''),
      j_subtitle_probe = None, j_status = st, j_stage = None, j_progress = 40, j_attempt = 1,
      j_max_attempts = 3, j_lease_owner = None, j_lease_expires_at = None,
      j_cancel_requested_at = None, j_next_retry_at = None, j_error_code = None,
      j_error_detail = None, j_retryable = False, j_created_at = 5, j_updated_at = 6\<rparr>"

definition list_entry :: "string \<Rightarrow> report_entry" where
  "list_entry k =
     \<lparr>re_job_id = k, re_analysis_id = k, re_title = codes ''A talk'', re_platform = codes ''bilibili'',
      re_author = [], re_video_id = ''BV1'', re_source_url = codes ''https://example.org/v'',
      re_published_at = None, re_analyzed_at = 7, re_summary_mode = ''auto'', re_language = [],
      re_asr_provider = [], re_asr_model = [], re_asr_model_version = [], re_tags = [],
      re_summary_preview = [], re_relative_path = ''a.md'',
      re_content_hash = replicate 64 CHR ''0'', re_byte_size = None, re_doc_source = ''pipeline''\<rparr>"

text \<open>One failed job, and one report whose job completed.\<close>

definition list_db :: database where
  "list_db = empty_database\<lparr>jobs := [list_job ''a'' FAILED, (list_job ''b'' COMPLETED)\<lparr>j_id := 2\<rparr>],
     documents := [new_document 1 (list_entry ''b'') 8]\<rparr>"

theorem unified_view_end_to_end_witness:
  "\<exists>out. unified_page (json_unified (jobs_unified_list sql_lower 20 0 None None list_db)) 20 0 = Inr out \<and>
     map ai_status (lo_items out) = [FAILED, COMPLETED] \<and> lo_total out = 2"
proof -
  have j: "jobs_segment sql_lower None None list_db = [list_job ''a'' FAILED]"
    by (simp add: jobs_segment_def list_db_def job_filter_def list_job_def)
  have h: "history_segment sql_lower None None list_db = [new_document 1 (list_entry ''b'') 8]"
    by (simp add: history_segment_def list_db_def document_filter_def list_job_def new_document_def
        list_entry_def in_index_def)
  have p: "\<forall>r \<in> set (jobs list_db). 0 \<le> j_progress r \<and> j_progress r \<le> 100"
    by (simp add: list_db_def list_job_def)
  from unified_view_end_to_end [of 20 0 list_db sql_lower None None] p show ?thesis
    by (simp add: j h shown_job_def shown_report_def list_job_def)
qed

section \<open>What the bridge lets through\<close>

lemma format_error_ne [simp]: "format_error \<noteq> Inr x" "Inr x \<noteq> format_error"
  by (simp_all add: format_error_def)

lemma wire_Inr [simp]: "wire reader raw = Inr r \<longleftrightarrow> reader raw = Some r"
  by (auto simp: wire_def split: option.splits)

lemma mcp_job_Inr:
  "mcp_job w = Inr item \<Longrightarrow> 0 \<le> ai_progress item \<and> ai_progress item \<le> 100"
  by (auto simp: mcp_job_def split: option.splits if_splits)

lemma unified_row_Inr:
  assumes "unified_row jt off (n, raw) = Inr item"
  shows "(ai_status item = COMPLETED \<longleftrightarrow> jt \<le> off + int n) \<and> 0 \<le> ai_progress item \<and> ai_progress item \<le> 100"
proof -
  from assms obtain kind w where w: "read_unified_row raw = Some (kind, w)"
    by (cases "read_unified_row raw") (auto simp: unified_row_def wire_def format_error_def)
  show ?thesis
  proof (cases "off + int n < jt")
    case True
    with assms w show ?thesis
      by (auto simp: unified_row_def wire_def Let_def split: if_splits sum.splits dest: mcp_job_Inr)
  next
    case False
    with assms w show ?thesis
      by (auto simp: unified_row_def wire_def Let_def mcp_history_item_def split: if_splits)
  qed
qed

text \<open>
  Whatever the engine sends, what the bridge lets through as the default view is a
  well-formed page of the window that was asked for: exactly the rows the window must hold
  given the total, unfinished jobs strictly before completed ones with the border at the
  engine's job count, and every progress a percentage. Everything else is an error.
\<close>
theorem bridge_page_well_formed:
  assumes "unified_page body cnt off = Inr out"
  shows "lo_limit out = cnt \<and> lo_offset out = off \<and>
    int (length (lo_items out)) = min cnt (max 0 (lo_total out - off)) \<and>
    (\<exists>jobs_total. 0 \<le> jobs_total \<and> jobs_total \<le> lo_total out \<and>
      (\<forall>i < length (lo_items out).
         (ai_status (lo_items out ! i) = COMPLETED \<longleftrightarrow> jobs_total \<le> off + int i) \<and>
         0 \<le> ai_progress (lo_items out ! i) \<and> ai_progress (lo_items out ! i) \<le> 100))"
proof -
  from assms obtain f where f: "body = JObj f"
    by (cases body) (auto simp: unified_page_def strict_window_def split: sum.splits)
  from assms obtain raw ttl where w: "strict_window body cnt off = Inr (raw, ttl)"
    by (auto simp: unified_page_def split: sum.splits)
  from w f have len: "int (length raw) = min cnt (max 0 (ttl - off))"
    by (auto simp: strict_window_def split: option.splits jtree.splits if_splits)
  from assms w f obtain a b items where c: "0 \<le> a" "0 \<le> b" "ttl = a + b"
    "collect (unified_row a off) (enumerate 0 raw) = Inr items" "list_output_of items cnt off ttl = Inr out"
    by (auto simp: unified_page_def not_less split: option.splits jtree.splits if_splits sum.splits)
  from c(5) have o: "lo_items out = items" "lo_limit out = cnt" "lo_offset out = off" "lo_total out = ttl"
    by (auto simp: list_output_of_def split: if_splits)
  have n: "length items = length raw" using collect_nth(1) [OF c(4)] by simp
  have "(ai_status (items ! i) = COMPLETED \<longleftrightarrow> a \<le> off + int i) \<and>
      0 \<le> ai_progress (items ! i) \<and> ai_progress (items ! i) \<le> 100" if "i < length items" for i
    using collect_nth(2) [OF c(4), of i] that n unified_row_Inr [of a off i "raw ! i"]
    by (simp add: nth_enumerate_eq)
  with o n len c(1-3) show ?thesis by auto
qed

theorem bridge_page_well_formed_witness:
  "\<exists>out jobs_total. unified_page (JObj [(''items'', JArr [JObj [(''kind'', JStr (codes ''history'')),
       (''job_id'', JStr (codes ''b'')), (''status'', JStr (codes ''completed'')), (''progress'', JInt 100)]]),
       (''total'', JInt 1), (''jobs_total'', JInt 0), (''history_total'', JInt 1), (''limit'', JInt 20),
       (''offset'', JInt 0)]) 20 0 = Inr out \<and>
     length (lo_items out) = 1 \<and> (ai_status (lo_items out ! 0) = COMPLETED \<longleftrightarrow> jobs_total \<le> (0::int))"
proof -
  let ?row = "JObj [(''kind'', JStr (codes ''history'')), (''job_id'', JStr (codes ''b'')),
       (''status'', JStr (codes ''completed'')), (''progress'', JInt 100)]"
  let ?body = "JObj [(''items'', JArr [?row]), (''total'', JInt 1), (''jobs_total'', JInt 0),
       (''history_total'', JInt 1), (''limit'', JInt 20), (''offset'', JInt 0)]"
  have "unified_row 0 0 (0, ?row) = Inr (mcp_history_item (codes ''b'') None None None)"
    by (simp add: unified_row_def wire_def read_unified_row_def req_str_def req_count_def opt_str_def
        opt_float_def Let_def)
  then obtain out where out: "unified_page ?body 20 0 = Inr out"
    using unified_page_ok [of 0 1 "[?row]" 20 0] by (auto simp: enumerate_eq_zip)
  from bridge_page_well_formed [OF out] out show ?thesis
    by (auto simp: unified_page_def strict_window_def list_output_of_def split: if_splits sum.splits)
qed

section \<open>No job twice\<close>

text \<open>
  The default list shows no job twice: with unique job ids and reports filed under their
  job's id, all rows of the whole list have different job ids; in particular a report whose
  job is not completed is represented by the job alone.
\<close>
theorem unified_view_no_duplicates:
  assumes "jobs_unique d" "distinct (map rd_job_id (documents d))"
    and "\<forall>r \<in> set (documents d). rd_analysis_id r = rd_job_id r"
  shows "distinct (map li_job_id (unified_view lower platform query d))"
proof -
  let ?J = "jobs_segment lower platform query d"
  let ?H = "history_segment lower platform query d"
  have "distinct (map j_job_id ?J)" "distinct (map rd_job_id ?H)"
    using assms(1,2)
    by (auto simp: jobs_segment_def history_segment_def jobs_unique_def distinct_map
        intro: inj_on_subset)
  moreover have "j_job_id j \<noteq> rd_job_id r" if j: "j \<in> set ?J" and r: "r \<in> set ?H" for j r
  proof -
    have "j \<in> set (jobs d)" "j_status j \<noteq> COMPLETED" using jobs_segment_member [OF j] by simp_all
    moreover have "r \<in> set (documents d)" "document_filter lower platform None None query True d r"
      using r by (auto simp: history_segment_def)
    ultimately show ?thesis using assms(3) by (auto simp: document_filter_def list_ex_iff)
  qed
  moreover have "map li_job_id (unified_view lower platform query d) = map j_job_id ?J @ map rd_job_id ?H"
    by (simp add: unified_view_def job_item_def history_item_def)
  ultimately show ?thesis by auto
qed

theorem unified_view_no_duplicates_witness:
  "distinct (map li_job_id (unified_view sql_lower None None
     (empty_database\<lparr>jobs := [list_job ''b'' INDEXING],
        documents := [new_document 1 (list_entry ''b'') 8]\<rparr>)))"
  by (rule unified_view_no_duplicates)
    (simp_all add: jobs_unique_def new_document_def list_entry_def)

section \<open>The platform filter of the two segments\<close>

text \<open>
  The jobs segment strips the platform filter and ignores a blank one; the history segment
  compares it as given. A filter with a trailing space keeps the jobs of the platform and
  drops its reports.
\<close>

lemma platform_filter_divergence:
  "jobs_segment sql_lower (Some (codes ''bilibili '')) None list_db = [list_job ''a'' FAILED] \<and>
   history_segment sql_lower (Some (codes ''bilibili '')) None list_db = [] \<and>
   history_segment sql_lower (Some (codes ''bilibili'')) None list_db = [new_document 1 (list_entry ''b'') 8]"
  by (simp add: jobs_segment_def history_segment_def list_db_def job_filter_def document_filter_def
      list_job_def new_document_def list_entry_def in_index_def codes_def strip_def lstrip_def
      is_space_def sql_lower_def sql_lower_char_def)

end
