(* ===== verification/Scoring.thy ===== *)
theory Scoring
  imports FtsText
begin

text \<open>
  The benchmark metrics of \<open>asr/benchmark/metrics.py\<close>. Unicode normalisation (NFKC), the
  class \<open>\w\<close> and \<open>str.lower\<close> are parameters; quotients are exact rationals where Python
  rounds to a float. The dynamic programme for the edit distance keeps two rows, as the code
  does; it is proved to compute the cheapest sequence of edits.
\<close>

section \<open>Normalisation\<close>

text \<open>\<open>re.sub("[^\w..]+", r, text)\<close>: every maximal run of dropped characters becomes \<open>r\<close>.\<close>

function sub_runs :: "(nat \<Rightarrow> bool) \<Rightarrow> utext \<Rightarrow> utext \<Rightarrow> utext" where
  "sub_runs keep r [] = []"
| "sub_runs keep r (c # cs) =
     (if keep c then c # sub_runs keep r cs
      else r @ sub_runs keep r (dropWhile (\<lambda>x. \<not> keep x) cs))"
  by pat_completeness auto

termination
  by (relation "measure (\<lambda>(_, _, t). length t)") (auto simp: le_imp_less_Suc length_dropWhile_le)

definition normalize_for_scoring ::
  "(utext \<Rightarrow> utext) \<Rightarrow> (nat \<Rightarrow> bool) \<Rightarrow> (utext \<Rightarrow> utext) \<Rightarrow> utext \<Rightarrow> utext" where
  "normalize_for_scoring nfkc word_char lower t =
     lower (sub_runs (\<lambda>c. word_char c \<or> is_cjk c) [] (nfkc t))"

definition normalize_words ::
  "(utext \<Rightarrow> utext) \<Rightarrow> (nat \<Rightarrow> bool) \<Rightarrow> (utext \<Rightarrow> utext) \<Rightarrow> utext \<Rightarrow> utext" where
  "normalize_words nfkc word_char lower t =
     strip (lower (sub_runs (\<lambda>c. word_char c \<or> is_cjk c) [32] (nfkc t)))"

section \<open>The edit distance\<close>

text \<open>One row: \<open>cur\<close> starts as \<open>[i]\<close> and grows by one cell for every \<open>y\<close>.\<close>

definition levenshtein_row :: "'a list \<Rightarrow> nat list \<Rightarrow> nat \<Rightarrow> 'a \<Rightarrow> nat list" where
  "levenshtein_row b prev i x =
     fold (\<lambda>(j, y) cur.
         cur @ [min (min (prev ! j + 1) (cur ! (j - 1) + 1)) (prev ! (j - 1) + (if x \<noteq> y then 1 else 0))])
       (enumerate 1 b) [i]"

definition levenshtein :: "'a list \<Rightarrow> 'a list \<Rightarrow> nat" where
  "levenshtein a b =
     (if a = b then 0
      else last (fold (\<lambda>(i, x) prev. levenshtein_row b prev i x) (enumerate 1 a) [0..<length b + 1]))"

section \<open>Rates\<close>

definition character_error_rate :: "utext \<Rightarrow> utext \<Rightarrow> rat" where
  "character_error_rate reference hypothesis =
     (if reference = [] then (if hypothesis = [] then 0 else 1)
      else of_nat (levenshtein reference hypothesis) / of_nat (length reference))"

definition word_error_rate :: "utext \<Rightarrow> utext \<Rightarrow> rat" where
  "word_error_rate reference hypothesis =
     (let ref = split_words reference in
      if ref = [] then (if split_words hypothesis = [] then 0 else 1)
      else of_nat (levenshtein ref (split_words hypothesis)) / of_nat (length ref))"

record segment_boundary =
  sb_start :: rat
  sb_end :: rat

definition segment_boundary_error :: "segment_boundary list \<Rightarrow> segment_boundary list \<Rightarrow> rat" where
  "segment_boundary_error reference hypothesis =
     (if reference = [] then (if hypothesis = [] then 0 else 1)
      else
       (let n_ref = length reference; n_hyp = length hypothesis;
            total = (\<Sum>(r, h) \<leftarrow> zip reference hypothesis.
              \<bar>sb_start r - sb_start h\<bar> + \<bar>sb_end r - sb_end h\<bar>);
            unmatched = nat \<bar>int n_ref - int n_hyp\<bar>;
            mean_duration = (\<Sum>s \<leftarrow> reference. sb_end s - sb_start s) / of_nat n_ref;
            total = (if unmatched \<noteq> 0 then total + of_nat unmatched * 2 * mean_duration else total)
        in total / (2 * of_nat (max n_ref n_hyp))))"

text \<open>The class \<open>_PUNCT\<close>: white space and the listed punctuation.\<close>

definition is_punct :: "nat \<Rightarrow> bool" where
  "is_punct c \<longleftrightarrow> is_space c \<or> c \<in> {0xFF0C, 0x3002, 0xFF01, 0xFF1F, 0x3001, 0xFF1B, 0xFF1A, 0x22, 0x27,
     0x201C, 0x201D, 0x2018, 0x2019, 0xFF08, 0xFF09, 0x28, 0x29, 0x5B, 0x5D, 0x3010, 0x3011, 0x2C,
     0x2E, 0x21, 0x3F, 0x3B, 0x3A}"

definition entity_recall :: "(utext \<Rightarrow> utext) \<Rightarrow> utext list \<Rightarrow> utext \<Rightarrow> rat" where
  "entity_recall lower entities hypothesis =
     (if entities = [] then 0
      else
       (let normalized = lower (sub_runs (\<lambda>c. \<not> is_punct c) [] hypothesis)
        in of_nat (length (filter
             (\<lambda>e. sublist (lower (sub_runs (\<lambda>c. \<not> is_punct c) [] e)) normalized) entities)) /
           of_nat (length entities)))"


section \<open>The cheapest edits\<close>

text \<open>\<open>edits a b n\<close>: \<open>a\<close> can be turned into \<open>b\<close>, front to back, at cost \<open>n\<close>.\<close>

inductive edits :: "'a list \<Rightarrow> 'a list \<Rightarrow> nat \<Rightarrow> bool" where
  stop: "edits [] [] 0"
| keep: "edits a b n \<Longrightarrow> edits (x # a) (x # b) n"
| substitute: "edits a b n \<Longrightarrow> edits (x # a) (y # b) (n + 1)"
| delete: "edits a b n \<Longrightarrow> edits (x # a) b (n + 1)"
| insert: "edits a b n \<Longrightarrow> edits a (y # b) (n + 1)"

fun cheapest :: "'a list \<Rightarrow> 'a list \<Rightarrow> nat" where
  "cheapest [] b = length b"
| "cheapest (x # a) [] = length a + 1"
| "cheapest (x # a) (y # b) =
     min (min (cheapest a (y # b) + 1) (cheapest (x # a) b + 1)) (cheapest a b + (if x \<noteq> y then 1 else 0))"

lemma edits_inserts: "edits [] b (length b)"
  by (induction b) (auto intro: edits.stop dest: edits.insert)

lemma edits_deletes: "edits a [] (length a)"
  by (induction a) (auto intro: edits.stop dest: edits.delete)

lemma edits_cheapest: "edits a b (cheapest a b)"
proof (induction a b rule: cheapest.induct)
  case (3 x a y b)
  then show ?case
    using edits.delete [OF 3(1), of x] edits.insert [OF 3(2), of y] edits.substitute [OF 3(3), of x y]
      edits.keep [OF 3(3), of x]
    by (auto simp: min_def)
next
  case (2 x a)
  from edits_deletes [of "x # a"] show ?case by simp
qed (use edits_inserts in simp)

lemma cheapest_Nil [simp]: "cheapest a [] = length a"
  by (cases a) simp_all

lemma cheapest_delete: "cheapest (x # a) b \<le> cheapest a b + 1"
  by (cases b) (auto simp: min_le_iff_disj)

lemma cheapest_insert: "cheapest a (y # b) \<le> cheapest a b + 1"
  by (cases a) (auto simp: min_le_iff_disj)

lemma cheapest_least: "edits a b n \<Longrightarrow> cheapest a b \<le> n"
proof (induction rule: edits.induct)
  case (delete a b n x)
  with cheapest_delete [of x a b] show ?case by simp
next
  case (insert a b n y)
  with cheapest_insert [of a y b] show ?case by simp
qed (auto simp: min_le_iff_disj)

lemma cheapest_self [simp]: "cheapest a a = 0"
proof -
  have "edits a a 0" by (induction a) (auto intro: edits.stop edits.keep)
  then show ?thesis using cheapest_least by fastforce
qed

lemma cheapest_0: "cheapest a b = 0 \<Longrightarrow> a = b"
  by (induction a b rule: cheapest.induct) (auto simp: min_def split: if_splits)

text \<open>Edits can be read from either end.\<close>

lemma edits_append: "edits a b n \<Longrightarrow> edits a' b' n' \<Longrightarrow> edits (a @ a') (b @ b') (n + n')"
proof (induction rule: edits.induct)
  case (substitute a b n x y)
  then show ?case using edits.substitute by fastforce
next
  case (delete a b n x)
  then show ?case using edits.delete by fastforce
next
  case (insert a b n y)
  then show ?case using edits.insert by fastforce
qed (simp_all add: edits.keep)

lemma edits_rev: "edits a b n \<Longrightarrow> edits (rev a) (rev b) n"
proof (induction rule: edits.induct)
  case (keep a b n x)
  from edits_append [OF keep.IH edits.keep [OF edits.stop, of x]] show ?case by simp
next
  case (substitute a b n x y)
  from edits_append [OF substitute.IH edits.substitute [OF edits.stop, of x y]] show ?case by simp
next
  case (delete a b n x)
  from edits_append [OF delete.IH edits.delete [OF edits.stop, of x]] show ?case by simp
next
  case (insert a b n y)
  from edits_append [OF insert.IH edits.insert [OF edits.stop, of y]] show ?case by simp
qed (simp add: edits.stop)

lemma cheapest_rev: "cheapest (rev a) (rev b) = cheapest a b"
  using cheapest_least [OF edits_rev [OF edits_cheapest, of a b]]
    cheapest_least [OF edits_rev [OF edits_cheapest, of "rev a" "rev b"]] by simp

lemma cheapest_snoc:
  "cheapest (a @ [x]) (b @ [y]) =
     min (min (cheapest a (b @ [y]) + 1) (cheapest (a @ [x]) b + 1)) (cheapest a b + (if x \<noteq> y then 1 else 0))"
  using cheapest.simps(3) [of x "rev a" y "rev b"]
  by (simp add: cheapest_rev [of "a @ [x]" "b @ [y]", symmetric] cheapest_rev [of a "b @ [y]", symmetric]
      cheapest_rev [of "a @ [x]" b, symmetric] cheapest_rev [of a b, symmetric])

section \<open>The two rows\<close>

text \<open>The row for the prefix \<open>a\<close>: its distances to all prefixes of \<open>b\<close>.\<close>

definition cheapest_row :: "'a list \<Rightarrow> 'a list \<Rightarrow> nat \<Rightarrow> nat list" where
  "cheapest_row a b n = map (\<lambda>j. cheapest a (take j b)) [0..<n + 1]"

lemma nth_cheapest_row: "j \<le> n \<Longrightarrow> cheapest_row a b n ! j = cheapest a (take j b)"
  by (simp add: cheapest_row_def del: upt_Suc)

lemma levenshtein_cells:
  assumes "b = ys @ zs"
  shows "fold (\<lambda>(j, y) cur.
      cur @ [min (min (cheapest_row a b (length b) ! j + 1) (cur ! (j - 1) + 1))
        (cheapest_row a b (length b) ! (j - 1) + (if x \<noteq> y then 1 else 0))])
    (enumerate (length ys + 1) zs) (cheapest_row (a @ [x]) b (length ys)) = cheapest_row (a @ [x]) b (length b)"
  using assms
proof (induction zs arbitrary: ys)
  case (Cons z zs)
  let ?m = "length ys"
  have t: "take (?m + 1) b = ys @ [z]" "take ?m b = ys" using Cons.prems by simp_all
  have "cheapest_row (a @ [x]) b (?m + 1) = cheapest_row (a @ [x]) b ?m @ [cheapest (a @ [x]) (ys @ [z])]"
    by (simp add: cheapest_row_def t(1) [simplified])
  also have "cheapest (a @ [x]) (ys @ [z]) =
      min (min (cheapest_row a b (length b) ! (?m + 1) + 1) (cheapest_row (a @ [x]) b ?m ! ?m + 1))
        (cheapest_row a b (length b) ! ?m + (if x \<noteq> z then 1 else 0))"
    using Cons.prems t by (simp add: cheapest_snoc nth_cheapest_row)
  finally show ?case
    using Cons.IH [of "ys @ [z]"] Cons.prems by simp
qed simp

lemma levenshtein_row_dist:
  "levenshtein_row b (cheapest_row a b (length b)) (length a + 1) x = cheapest_row (a @ [x]) b (length b)"
  using levenshtein_cells [of b "[]" b a x] by (simp add: levenshtein_row_def cheapest_row_def)

lemma levenshtein_rows:
  "fold (\<lambda>(i, x) prev. levenshtein_row b prev i x) (enumerate (length xs + 1) ys)
     (cheapest_row xs b (length b)) = cheapest_row (xs @ ys) b (length b)"
proof (induction ys arbitrary: xs)
  case (Cons y ys)
  from Cons.IH [of "xs @ [y]"] show ?case by (simp add: levenshtein_row_dist [simplified])
qed simp

lemma levenshtein_cheapest: "levenshtein a b = cheapest a b"
proof -
  have "[0..<length b + 1] = cheapest_row [] b (length b)"
    by (rule nth_equalityI) (simp_all add: cheapest_row_def min_def del: upt_Suc)
  then have "fold (\<lambda>(i, x) prev. levenshtein_row b prev i x) (enumerate 1 a) [0..<length b + 1] =
      cheapest_row a b (length b)"
    using levenshtein_rows [of b "[]" a] by simp
  then show ?thesis by (simp add: levenshtein_def cheapest_row_def)
qed

text \<open>
  C40. The two-row programme computes the edit distance: its result is the cost of some
  sequence of keeping, substituting, deleting and inserting that turns the reference into
  the hypothesis, it is the least such cost, and it is 0 exactly on equal texts. The
  character error rate is this cost per reference character.
\<close>
theorem levenshtein_is_edit_distance:
  "edits a b (levenshtein a b) \<and> levenshtein a b = (LEAST n. edits a b n) \<and>
   (levenshtein a b = 0 \<longleftrightarrow> a = b) \<and>
   character_error_rate (c # r) h * of_nat (length (c # r)) = of_nat (LEAST n. edits (c # r) h n)"
proof -
  have least: "(LEAST n. edits x y n) = cheapest x y" for x y :: "'z list"
    by (rule Least_equality) (simp_all add: edits_cheapest cheapest_least)
  have "character_error_rate (c # r) h * of_nat (length (c # r)) = of_nat (cheapest (c # r) h)"
    by (simp add: character_error_rate_def levenshtein_cheapest del: of_nat_Suc)
  then show ?thesis
    using edits_cheapest [of a b] cheapest_0 [of a b] by (auto simp: levenshtein_cheapest least)
qed

end
