(* ===== verification/ReleaseGate.thy ===== *)
theory ReleaseGate
  imports Json
begin

text \<open>
  The release gate of \<open>asr/release_gate.py\<close>: a benchmark report is judged against frozen
  thresholds, line by line. Means are exact rationals; the texts of the details are left out.
\<close>

record gate_thresholds =
  gt_version :: string
  gt_languages :: "string list"
  gt_max_cer :: rat
  gt_max_wer :: rat
  gt_min_entity_recall :: rat
  gt_max_rtf :: rat
  gt_max_hallucination_rate :: rat

definition STANDARD_THRESHOLDS :: gate_thresholds where
  "STANDARD_THRESHOLDS =
     \<lparr>gt_version = ''v1'', gt_languages = [''zh'', ''en''], gt_max_cer = 10 / 100,
      gt_max_wer = 15 / 100, gt_min_entity_recall = 80 / 100, gt_max_rtf = 30 / 100,
      gt_max_hallucination_rate = 0\<rparr>"

definition LITE_THRESHOLDS :: gate_thresholds where
  "LITE_THRESHOLDS =
     \<lparr>gt_version = ''v1'', gt_languages = [''zh''], gt_max_cer = 25 / 100,
      gt_max_wer = 25 / 100, gt_min_entity_recall = 60 / 100, gt_max_rtf = 15 / 100,
      gt_max_hallucination_rate = 0\<rparr>"

record gate_item =
  gi_name :: string
  gi_passed :: bool

record gate_verdict =
  gv_passed :: bool
  gv_items :: "gate_item list"

definition result_dicts :: "json \<Rightarrow> json list" where
  "result_dicts report = object_list (member ''results'' report)"

text \<open>(mean, worst, count) of the measured values; a value is a number, a missing or other one is skipped.\<close>

definition summary :: "rat list \<Rightarrow> rat \<times> rat \<times> nat" where
  "summary values =
     (if values = [] then (0, 0, 0)
      else (sum_list values / of_nat (length values), fold (\<lambda>v worst. max worst v) values 0, length values))"

definition values_of :: "string \<Rightarrow> (json \<Rightarrow> bool) \<Rightarrow> json \<Rightarrow> rat list" where
  "values_of key P report =
     concat (map (\<lambda>s. case number (member key s) of Some v \<Rightarrow> [v] | None \<Rightarrow> [])
       (filter P (result_dicts report)))"

definition aggregate :: "json \<Rightarrow> string \<Rightarrow> rat \<times> rat \<times> nat" where
  "aggregate report key = summary (values_of key (\<lambda>_. True) report)"

definition aggregate_entities :: "json \<Rightarrow> rat \<times> rat \<times> nat" where
  "aggregate_entities report =
     summary (values_of ''entity_recall''
       (\<lambda>s. case number (member ''entity_count'' s) of None \<Rightarrow> False | Some n \<Rightarrow> \<not> n < 1) report)"

definition aggregate_language :: "json \<Rightarrow> string \<Rightarrow> string list \<Rightarrow> rat \<times> rat \<times> nat" where
  "aggregate_language report key languages =
     summary (values_of key
       (\<lambda>s. (case member ''language'' s of Some (JStr l) \<Rightarrow> l \<in> codes ` set languages | _ \<Rightarrow> False) \<and>
            member ''empty_reference'' s \<noteq> Some (JBool True)) report)"

definition hallucination_rate :: "json \<Rightarrow> rat option" where
  "hallucination_rate report =
     (let empties = filter (\<lambda>s. member ''empty_reference'' s = Some (JBool True)) (result_dicts report);
          hallucinated = filter (\<lambda>s. member ''hallucinated'' s = Some (JBool True)) empties
      in if length empties = 0 then None
         else Some (of_nat (length hallucinated) / of_nat (length empties)))"

definition measured_item :: "string \<Rightarrow> (rat \<Rightarrow> bool) \<Rightarrow> rat \<times> rat \<times> nat \<Rightarrow> gate_item" where
  "measured_item name ok = (\<lambda>(mean, worst, count).
     \<lparr>gi_name = name, gi_passed = (if count \<noteq> 0 then ok mean else False)\<rparr>)"

definition evaluate_gate :: "json \<Rightarrow> gate_thresholds \<Rightarrow> gate_verdict" where
  "evaluate_gate report th =
     (let zh = (if ''zh'' \<in> set (gt_languages th)
                then [measured_item ''chinese_cer'' (\<lambda>m. m \<le> gt_max_cer th)
                        (aggregate_language report ''cer'' [''zh''])] else []);
          en = (if ''en'' \<in> set (gt_languages th)
                then [measured_item ''english_wer'' (\<lambda>m. m \<le> gt_max_wer th)
                        (aggregate_language report ''wer'' [''en''])] else []);
          rest =
            [measured_item ''entity_recall'' (\<lambda>m. m \<ge> gt_min_entity_recall th) (aggregate_entities report),
             measured_item ''rtf'' (\<lambda>m. m \<le> gt_max_rtf th) (aggregate report ''rtf''),
             \<lparr>gi_name = ''hallucination_rate'',
              gi_passed = (case hallucination_rate report of
                 None \<Rightarrow> False | Some h \<Rightarrow> h \<le> gt_max_hallucination_rate th)\<rparr>];
          its = zh @ en @ rest
      in \<lparr>gv_passed = list_all gi_passed its, gv_items = its\<rparr>)"

section \<open>The gate fails closed\<close>

text \<open>Some sample measured the key, and the sum of the measurements is within the bound.\<close>

definition mean_at_most :: "rat \<Rightarrow> rat list \<Rightarrow> bool" where
  "mean_at_most bound vs \<longleftrightarrow> vs \<noteq> [] \<and> sum_list vs \<le> bound * of_nat (length vs)"

definition at_least :: "rat \<Rightarrow> rat list \<Rightarrow> bool" where
  "at_least bound vs \<longleftrightarrow> vs \<noteq> [] \<and> bound * of_nat (length vs) \<le> sum_list vs"

lemma measured_le [simp]:
  "gi_passed (measured_item nm (\<lambda>m. m \<le> b) (summary vs)) \<longleftrightarrow> mean_at_most b vs"
  by (auto simp: measured_item_def summary_def mean_at_most_def pos_divide_le_eq)

lemma measured_ge [simp]:
  "gi_passed (measured_item nm (\<lambda>m. b \<le> m) (summary vs)) \<longleftrightarrow> at_least b vs"
  by (auto simp: measured_item_def summary_def at_least_def pos_le_divide_eq)

definition speech :: "string \<Rightarrow> json \<Rightarrow> bool" where
  "speech l s \<longleftrightarrow> member ''language'' s = Some (JStr (codes l)) \<and>
     member ''empty_reference'' s \<noteq> Some (JBool True)"

lemma aggregate_speech:
  "aggregate_language report key [l] = summary (values_of key (speech l) report)"
  unfolding aggregate_language_def
  by (rule arg_cong [of _ _ summary], rule arg_cong [of _ _ "\<lambda>P. values_of key P report"])
    (auto simp: fun_eq_iff speech_def split: option.splits jtree.splits)

lemma silent_ok:
  "(case hallucination_rate report of None \<Rightarrow> False | Some h \<Rightarrow> h \<le> 0) \<longleftrightarrow>
     list_ex (\<lambda>s. member ''empty_reference'' s = Some (JBool True)) (result_dicts report) \<and>
     \<not> list_ex (\<lambda>s. member ''empty_reference'' s = Some (JBool True) \<and>
        member ''hallucinated'' s = Some (JBool True)) (result_dicts report)"
  by (auto simp: hallucination_rate_def Let_def list_ex_iff list_all_iff filter_empty_conv
      divide_le_0_iff)

lemma none_or_less:
  "(case x of None \<Rightarrow> False | Some n \<Rightarrow> \<not> n < 1) = (case x of None \<Rightarrow> False | Some n \<Rightarrow> 1 \<le> n)"
  for x :: "rat option"
  by (cases x) auto

lemma gate_lines:
  "gt_languages th = [''zh'', ''en''] \<Longrightarrow>
   gv_passed (evaluate_gate report th) =
     (mean_at_most (gt_max_cer th) (values_of ''cer'' (speech ''zh'') report) \<and>
      mean_at_most (gt_max_wer th) (values_of ''wer'' (speech ''en'') report) \<and>
      at_least (gt_min_entity_recall th) (values_of ''entity_recall''
        (\<lambda>s. case number (member ''entity_count'' s) of None \<Rightarrow> False | Some n \<Rightarrow> 1 \<le> n) report) \<and>
      mean_at_most (gt_max_rtf th) (values_of ''rtf'' (\<lambda>_. True) report) \<and>
      (case hallucination_rate report of None \<Rightarrow> False | Some h \<Rightarrow> h \<le> gt_max_hallucination_rate th))"
  by (simp add: evaluate_gate_def Let_def aggregate_speech aggregate_def aggregate_entities_def none_or_less)

text \<open>
  What a passing verdict means for the Standard tier: Chinese and English speech were
  both measured and their mean error rates are within the frozen marks, samples with
  entities and timings were measured and pass, some sample without speech was measured and
  none of these produced text. A report that measured nothing never passes, for any tier.
\<close>
theorem standard_gate_exact:
  "gv_passed (evaluate_gate report STANDARD_THRESHOLDS) =
     (mean_at_most (1 / 10) (values_of ''cer'' (speech ''zh'') report) \<and>
      mean_at_most (3 / 20) (values_of ''wer'' (speech ''en'') report) \<and>
      at_least (4 / 5) (values_of ''entity_recall''
        (\<lambda>s. case number (member ''entity_count'' s) of None \<Rightarrow> False | Some n \<Rightarrow> 1 \<le> n) report) \<and>
      mean_at_most (3 / 10) (values_of ''rtf'' (\<lambda>_. True) report) \<and>
      list_ex (\<lambda>s. member ''empty_reference'' s = Some (JBool True)) (result_dicts report) \<and>
      \<not> list_ex (\<lambda>s. member ''empty_reference'' s = Some (JBool True) \<and>
        member ''hallucinated'' s = Some (JBool True)) (result_dicts report)) \<and>
   \<not> gv_passed (evaluate_gate (JObj []) th)"
proof -
  have s: "gt_languages STANDARD_THRESHOLDS = [''zh'', ''en'']" "gt_max_cer STANDARD_THRESHOLDS = 1 / 10"
    "gt_max_wer STANDARD_THRESHOLDS = 3 / 20" "gt_min_entity_recall STANDARD_THRESHOLDS = 4 / 5"
    "gt_max_rtf STANDARD_THRESHOLDS = 3 / 10" "gt_max_hallucination_rate STANDARD_THRESHOLDS = 0"
    by (simp_all add: STANDARD_THRESHOLDS_def)
  have "\<not> gv_passed (evaluate_gate (JObj []) th)"
    by (simp add: evaluate_gate_def Let_def hallucination_rate_def result_dicts_def member_def object_list_def)
  then show ?thesis by (simp only: gate_lines [OF s(1)] s silent_ok simp_thms)
qed

end
