(* ===== verification/Utf8.thy ===== *)
theory Utf8
  imports Texts
begin

text \<open>
  \<open>bytes.decode("utf-8")\<close> with the error handlers \<open>strict\<close> and \<open>replace\<close>, and
  \<open>str.encode("utf-8")\<close>. A byte is a number below 256. A malformed sequence is consumed up
  to its longest well-formed prefix, which is what one replacement character stands for.
\<close>

definition continuation :: "nat \<Rightarrow> bool" where
  "continuation b \<longleftrightarrow> 0x80 \<le> b \<and> b \<le> 0xBF"

text \<open>The second byte, by the first one: no overlong form, no surrogate, nothing past U+10FFFF.\<close>

definition second_ok :: "nat \<Rightarrow> nat \<Rightarrow> bool" where
  "second_ok lead b \<longleftrightarrow>
     continuation b \<and> (lead = 0xE0 \<longrightarrow> 0xA0 \<le> b) \<and> (lead = 0xED \<longrightarrow> b \<le> 0x9F) \<and>
     (lead = 0xF0 \<longrightarrow> 0x90 \<le> b) \<and> (lead = 0xF4 \<longrightarrow> b \<le> 0x8F)"

fun trailing :: "nat \<Rightarrow> nat \<Rightarrow> nat list \<Rightarrow> nat option \<times> nat list" where
  "trailing 0 acc bs = (Some acc, bs)"
| "trailing (Suc n) acc [] = (None, [])"
| "trailing (Suc n) acc (b # bs) =
     (if continuation b then trailing n (64 * acc + (b - 0x80)) bs else (None, b # bs))"

text \<open>The first character, \<open>None\<close> for a malformed sequence, and the bytes after it.\<close>

definition utf8_char :: "nat \<Rightarrow> nat list \<Rightarrow> nat option \<times> nat list" where
  "utf8_char lead bs =
     (let tail = (\<lambda>n bits. case bs of
            [] \<Rightarrow> (None, [])
          | b # cs \<Rightarrow> if second_ok lead b then trailing n (64 * bits + (b - 0x80)) cs else (None, bs))
      in if lead < 0x80 then (Some lead, bs)
         else if 0xC2 \<le> lead \<and> lead \<le> 0xDF then tail 0 (lead - 0xC0)
         else if 0xE0 \<le> lead \<and> lead \<le> 0xEF then tail 1 (lead - 0xE0)
         else if 0xF0 \<le> lead \<and> lead \<le> 0xF4 then tail 2 (lead - 0xF0)
         else (None, bs))"

lemma trailing_length: "length (snd (trailing n acc bs)) \<le> length bs"
  by (induction n acc bs rule: trailing.induct) auto

lemma utf8_char_length: "length (snd (utf8_char lead bs)) \<le> length bs"
  using trailing_length [THEN le_trans]
  by (auto simp: utf8_char_def Let_def split: list.split)

function utf8_replace :: "nat list \<Rightarrow> utext" where
  "utf8_replace [] = []"
| "utf8_replace (b # bs) =
     (case fst (utf8_char b bs) of None \<Rightarrow> 0xFFFD | Some c \<Rightarrow> c) # utf8_replace (snd (utf8_char b bs))"
  by pat_completeness auto

termination
  by (relation "measure length") (auto simp: le_imp_less_Suc utf8_char_length)

function utf8_decode :: "nat list \<Rightarrow> utext option" where
  "utf8_decode [] = Some []"
| "utf8_decode (b # bs) =
     (case fst (utf8_char b bs) of
        None \<Rightarrow> None
      | Some c \<Rightarrow> map_option ((#) c) (utf8_decode (snd (utf8_char b bs))))"
  by pat_completeness auto

termination
  by (relation "measure length") (auto simp: le_imp_less_Suc utf8_char_length)

text \<open>A lone surrogate cannot be encoded; the program never holds one.\<close>

definition scalar :: "nat \<Rightarrow> bool" where
  "scalar c \<longleftrightarrow> c < 0xD800 \<or> 0xE000 \<le> c \<and> c \<le> 0x10FFFF"

definition utf8_bytes :: "nat \<Rightarrow> nat list" where
  "utf8_bytes c =
     (if c < 0x80 then [c]
      else if c < 0x800 then [0xC0 + c div 64, 0x80 + c mod 64]
      else if c < 0x10000 then [0xE0 + c div 4096, 0x80 + c div 64 mod 64, 0x80 + c mod 64]
      else [0xF0 + c div 262144, 0x80 + c div 4096 mod 64, 0x80 + c div 64 mod 64, 0x80 + c mod 64])"

definition utf8_encode :: "utext \<Rightarrow> nat list" where
  "utf8_encode t = concat (map utf8_bytes t)"

text \<open>
  Text as the program stores it in a column or uses it as a file name: the bytes of its
  encoding, as a string, and back.
\<close>

definition ident :: "utext \<Rightarrow> string" where
  "ident t = map char_of (utf8_encode t)"

definition text_of :: "string \<Rightarrow> utext" where
  "text_of s = (case utf8_decode (codes s) of None \<Rightarrow> [] | Some t \<Rightarrow> t)"

section \<open>Decoding undoes encoding\<close>

lemma base64_digits:
  fixes c :: nat
  obtains (digits) n p q r where "c div 262144 = n" "c div 4096 = 64 * n + p" "c div 4096 mod 64 = p"
    "c div 64 mod 64 = q" "c mod 64 = r" "c div 64 = 4096 * n + 64 * p + q"
    "c = 262144 * n + 4096 * p + 64 * q + r" "p < 64" "q < 64" "r < 64"
proof
  have d: "c div 4096 = c div 64 div 64" "c div 262144 = c div 64 div 64 div 64"
    using div_mult2_eq [of c 64 64] div_mult2_eq [of "c div 64" 64 64] div_mult2_eq [of c 64 4096]
    by simp_all
  have e: "x = 64 * (x div 64) + x mod 64" for x :: nat by simp
  show 1: "c div 4096 = 64 * (c div 262144) + c div 4096 mod 64" unfolding d by (rule e)
  have 2: "x = 4096 * A + 64 * B + C" if "x = 64 * y + C" "y = 64 * A + B" for x y A B C :: nat
    using that by simp
  show 3: "c div 64 = 4096 * (c div 262144) + 64 * (c div 4096 mod 64) + c div 64 mod 64"
    using 1 unfolding d by (rule 2 [OF e])
  have 4: "x = 262144 * A + 4096 * B + 64 * C + D"
    if "x = 64 * y + D" "y = 4096 * A + 64 * B + C" for x y A B C D :: nat
    using that by simp
  show "c = 262144 * (c div 262144) + 4096 * (c div 4096 mod 64) + 64 * (c div 64 mod 64) + c mod 64"
    using 3 by (rule 4 [OF e])
qed simp_all

lemma continuation_add [simp]: "x < 64 \<Longrightarrow> continuation (0x80 + x)"
  by (auto simp: continuation_def)

lemma utf8_bytes_decode:
  assumes "scalar c"
  shows "\<exists>b bs. utf8_bytes c @ rest = b # bs \<and> utf8_char b bs = (Some c, rest)"
proof (cases c rule: base64_digits)
  case (digits n p q r)
  note sum = digits(7-10)
  consider "c < 0x80" | "0x80 \<le> c" "c < 0x800" | "0x800 \<le> c" "c < 0x10000" | "0x10000 \<le> c"
    by linarith
  then show ?thesis
  proof cases
    case 1
    then show ?thesis by (simp add: utf8_bytes_def utf8_char_def Let_def)
  next
    case 2
    with sum have z: "n = 0" "p = 0" by linarith+
    with 2 sum have "2 \<le> q" "q < 32" by linarith+
    with z have z: "n = 0" "p = 0" "2 \<le> q" "q < 32" by simp_all
    have "second_ok (0xC0 + q) (0x80 + r)" using sum z by (simp add: second_ok_def)
    moreover have "utf8_bytes c = [0xC0 + q, 0x80 + r]"
      using 2 digits(5,6) z by (simp add: utf8_bytes_def)
    moreover have "64 * q + r = c" using digits(7) z by simp
    ultimately show ?thesis using z(3,4) by (simp add: utf8_char_def Let_def)
  next
    case 3
    with sum have z: "n = 0" "p < 16" by linarith+
    moreover from 3 sum z have "32 \<le> q" if "p = 0" using that by linarith
    moreover have "p = 13 \<longrightarrow> q < 32" using assms sum z by (auto simp: scalar_def)
    ultimately have "second_ok (0xE0 + p) (0x80 + q)" using sum by (auto simp: second_ok_def)
    moreover have "utf8_bytes c = [0xE0 + p, 0x80 + q, 0x80 + r]"
      using 3 digits(2,4,5) z(1) by (simp add: utf8_bytes_def)
    moreover have "trailing (Suc 0) (64 * p + q) ((0x80 + r) # rest) = (Some c, rest)"
      using digits(7,10) z(1) by simp
    ultimately show ?thesis using z(2) by (simp add: utf8_char_def Let_def)
  next
    case 4
    from assms have "c \<le> 0x10FFFF" by (auto simp: scalar_def)
    with 4 sum have z: "n \<le> 4" "n = 0 \<longrightarrow> 16 \<le> p" "n = 4 \<longrightarrow> p < 16" by linarith+
    then have "second_ok (0xF0 + n) (0x80 + p)" using sum by (auto simp: second_ok_def)
    moreover have "utf8_bytes c = [0xF0 + n, 0x80 + p, 0x80 + q, 0x80 + r]"
      using 4 digits(1,3,4,5) by (simp add: utf8_bytes_def)
    moreover have "trailing (Suc (Suc 0)) (64 * n + p) ((0x80 + q) # (0x80 + r) # rest) = (Some c, rest)"
      using digits(7,9,10) by simp
    ultimately show ?thesis using z(1) by (simp add: utf8_char_def Let_def numeral_2_eq_2)
  qed
qed

lemma utf8_roundtrip: "list_all scalar t \<Longrightarrow> utf8_decode (utf8_encode t) = Some t"
proof (induction t)
  case Nil
  then show ?case by (simp add: utf8_encode_def)
next
  case (Cons c t)
  then obtain b bs where "utf8_bytes c @ utf8_encode t = b # bs" "utf8_char b bs = (Some c, utf8_encode t)"
    using utf8_bytes_decode by (metis list.pred_inject(2))
  with Cons show ?case by (simp add: utf8_encode_def)
qed

text \<open>An ASCII text is its own encoding.\<close>

lemma utf8_replace_ascii [simp]: "list_all (\<lambda>c. c < 128) t \<Longrightarrow> utf8_replace t = t"
  by (induction t) (simp_all add: utf8_char_def Let_def)

section \<open>Stored text\<close>

lemma ident_ascii: "list_all (\<lambda>c. of_char c < (128 :: nat)) s \<Longrightarrow> ident (codes s) = s"
  by (induction s) (simp_all add: ident_def codes_def utf8_encode_def utf8_bytes_def)

lemma ident_Nil [simp]: "ident t = [] \<longleftrightarrow> t = []"
  by (cases t) (auto simp: ident_def utf8_encode_def utf8_bytes_def)

lemma utf8_bytes_byte: "c < 0x110000 \<Longrightarrow> b \<in> set (utf8_bytes c) \<Longrightarrow> b < 256"
  by (auto simp: utf8_bytes_def less_mult_imp_div_less split: if_splits)

lemma codes_char_of: "(\<And>b. b \<in> set bs \<Longrightarrow> b < 256) \<Longrightarrow> codes (map char_of bs) = bs"
  by (induction bs) (simp_all add: codes_def)

lemma char_of_codes [simp]: "map char_of (codes s) = s"
  by (simp add: codes_def o_def)

lemma scalar_bound: "scalar c \<Longrightarrow> c < 0x110000"
  unfolding scalar_def by linarith

lemma scalar_bytes: "list_all scalar t \<Longrightarrow> b \<in> set (utf8_encode t) \<Longrightarrow> b < 256"
  using utf8_bytes_byte [OF scalar_bound] unfolding utf8_encode_def list_all_iff by auto

lemma text_of_ident: "list_all scalar t \<Longrightarrow> text_of (ident t) = t"
  by (simp add: text_of_def ident_def codes_char_of scalar_bytes utf8_roundtrip)

text \<open>A byte below 128 stands for itself and nothing else.\<close>

lemma ascii_utf8_bytes: "b < 128 \<Longrightarrow> b \<in> set (utf8_bytes c) \<longleftrightarrow> b = c"
  by (auto simp: utf8_bytes_def)

lemma ascii_utf8_encode: "b < 128 \<Longrightarrow> b \<in> set (utf8_encode t) \<longleftrightarrow> b \<in> set t"
  by (auto simp: utf8_encode_def ascii_utf8_bytes)

text \<open>What \<open>hashlib.sha256(..).hexdigest()\<close> looks like.\<close>

definition hex_digest :: "string \<Rightarrow> bool" where
  "hex_digest h \<longleftrightarrow> length h = 64 \<and> list_all (\<lambda>c. c \<in> set ''0123456789abcdef'') h"

end
