(* ===== verification/Platforms.thy ===== *)
theory Platforms
  imports FtsText Utf8
begin

text \<open>
  Video URLs: \<open>urlparse\<close> and \<open>parse_qs\<close> as far as \<open>platforms/detector.py\<close> reads their
  results, the host tables and id patterns, and \<open>detect_video\<close>. Two checks of the standard
  library are parameters, because they rest on tables: whether a bracketed host is a literal
  address (\<open>bad_bracket\<close>) and whether a host outside ASCII changes its delimiters under NFKC
  (\<open>bad_nfkc\<close>); each says that \<open>urlparse\<close> raises \<open>ValueError\<close>.
\<close>

section \<open>Splitting a URL\<close>

text \<open>\<open>t.partition(c)\<close>: the part before the first \<open>c\<close>, and the part after it.\<close>

definition before_char :: "nat \<Rightarrow> utext \<Rightarrow> utext" where
  "before_char c t = takeWhile (\<lambda>x. x \<noteq> c) t"

definition after_char :: "nat \<Rightarrow> utext \<Rightarrow> utext" where
  "after_char c t = drop 1 (dropWhile (\<lambda>x. x \<noteq> c) t)"

text \<open>Letters, digits and \<open>+-.\<close> before the first colon, a letter first.\<close>

definition split_scheme :: "utext \<Rightarrow> utext \<times> utext" where
  "split_scheme url =
     (let s = before_char 58 url
      in if 58 \<in> set url \<and> s \<noteq> [] \<and> is_alpha (hd s) \<and>
            list_all (\<lambda>c. is_alpha c \<or> is_digit c \<or> c = 43 \<or> c = 45 \<or> c = 46) s
         then (sql_lower s, after_char 58 url) else ([], url))"

record parsed_url =
  pu_scheme :: utext
  pu_netloc :: utext
  pu_path :: utext
  pu_query :: utext

text \<open>\<open>;params\<close> of the last path segment are cut off. (Only http(s) paths are ever read.)\<close>

definition cut_params :: "utext \<Rightarrow> utext" where
  "cut_params path =
     (let seg = rev (takeWhile (\<lambda>c. c \<noteq> 47) (rev path))
      in take (length path - length seg) path @ before_char 59 seg)"

definition urlparse :: "(utext \<Rightarrow> bool) \<Rightarrow> (utext \<Rightarrow> bool) \<Rightarrow> utext \<Rightarrow> parsed_url option" where
  "urlparse bad_bracket bad_nfkc raw =
     (let url = filter (\<lambda>c. c \<notin> {9, 10, 13}) (dropWhile (\<lambda>c. c \<le> 32) raw);
          (scheme, rest) = split_scheme url;
          netloc = (if take 2 rest = [47, 47] then takeWhile (\<lambda>c. c \<notin> {47, 63, 35}) (drop 2 rest) else []);
          rest = (if take 2 rest = [47, 47] then drop (2 + length netloc) rest else rest);
          rest = before_char 35 rest
      in if (91 \<in> set netloc) \<noteq> (93 \<in> set netloc) then None
         else if 91 \<in> set netloc \<and> bad_bracket netloc then None
         else if list_ex (\<lambda>c. 128 \<le> c) netloc \<and> bad_nfkc netloc then None
         else Some \<lparr>pu_scheme = scheme, pu_netloc = netloc, pu_path = cut_params (before_char 63 rest),
                    pu_query = after_char 63 rest\<rparr>)"

text \<open>
  The property \<open>hostname\<close>: after the last \<open>@\<close>, without the port, in lower case up to a zone
  id. The hosts it is compared with are ASCII, and no character outside ASCII lowers to one
  of their letters, so lowering ASCII letters decides the same comparisons.
\<close>

definition hostname :: "parsed_url \<Rightarrow> utext" where
  "hostname p =
     (let info = rev (takeWhile (\<lambda>c. c \<noteq> 64) (rev (pu_netloc p)));
          host = (if 91 \<in> set info then before_char 93 (after_char 91 info) else before_char 58 info)
      in sql_lower (before_char 37 host) @ dropWhile (\<lambda>c. c \<noteq> 37) host)"

section \<open>Query strings\<close>

fun unquote_to_bytes :: "utext \<Rightarrow> nat list" where
  "unquote_to_bytes (c # a # b # t) =
     (if c = 37 then
        (case (hex_digit a, hex_digit b) of
           (Some x, Some y) \<Rightarrow> (16 * x + y) # unquote_to_bytes t
         | _ \<Rightarrow> 37 # unquote_to_bytes (a # b # t))
      else c # unquote_to_bytes (a # b # t))"
| "unquote_to_bytes t = t"

text \<open>Every run of ASCII characters is decoded on its own; the others stand for themselves.\<close>

function unquote :: "utext \<Rightarrow> utext" where
  "unquote [] = []"
| "unquote (c # cs) =
     (if 128 \<le> c then c # unquote cs
      else utf8_replace (unquote_to_bytes (c # takeWhile (\<lambda>x. x < 128) cs)) @
           unquote (dropWhile (\<lambda>x. x < 128) cs))"
  by pat_completeness auto

termination
  by (relation "measure length") (auto simp: le_imp_less_Suc length_dropWhile_le)

definition parse_qs :: "utext \<Rightarrow> (utext \<times> utext) list" where
  "parse_qs query =
     (let decode = (\<lambda>t. unquote (map (\<lambda>c. if c = 43 then 32 else c) t))
      in concat (map (\<lambda>nv. if 61 \<notin> set nv \<or> after_char 61 nv = [] then []
                          else [(decode (before_char 61 nv), decode (after_char 61 nv))])
           (split_on 38 query)))"

section \<open>The detector\<close>

datatype platform = YOUTUBE | BILIBILI

record video_ref =
  vr_platform :: platform
  vr_video_id :: utext
  vr_url :: utext

definition INVALID_URL :: string where
  "INVALID_URL = ''INVALID_URL''"

definition UNSUPPORTED_PLATFORM :: string where
  "UNSUPPORTED_PLATFORM = ''UNSUPPORTED_PLATFORM''"

definition YOUTUBE_HOSTS :: "utext list" where
  "YOUTUBE_HOSTS = map codes [''youtube.com'', ''www.youtube.com'', ''m.youtube.com'', ''youtu.be'']"

definition BILIBILI_HOSTS :: "utext list" where
  "BILIBILI_HOSTS = map codes [''bilibili.com'', ''www.bilibili.com'', ''m.bilibili.com'']"

definition youtube_id :: "utext \<Rightarrow> bool" where
  "youtube_id t \<longleftrightarrow> length t = 11 \<and> list_all (\<lambda>c. is_alpha c \<or> is_digit c \<or> c = 95 \<or> c = 45) t"

definition bilibili_id :: "utext \<Rightarrow> bool" where
  "bilibili_id t \<longleftrightarrow> length t = 12 \<and> take 2 t = codes ''BV'' \<and>
     list_all (\<lambda>c. is_alpha c \<or> is_digit c) (drop 2 t)"

fun canonical_url :: "platform \<Rightarrow> utext \<Rightarrow> utext" where
  "canonical_url YOUTUBE video_id = codes ''https://www.youtube.com/watch?v='' @ video_id"
| "canonical_url BILIBILI video_id = codes ''https://www.bilibili.com/video/'' @ video_id"

definition path_parts :: "parsed_url \<Rightarrow> utext list" where
  "path_parts p = filter (\<lambda>w. w \<noteq> []) (split_on 47 (pu_path p))"

definition youtube_video_id :: "parsed_url \<Rightarrow> utext outcome" where
  "youtube_video_id p =
     (let parts = path_parts p;
          video_id =
            (if hostname p = codes ''youtu.be'' \<and> parts \<noteq> [] then Some (parts ! 0)
             else if parts \<noteq> [] \<and> parts ! 0 = codes ''shorts'' \<and> length parts \<ge> 2 then Some (parts ! 1)
             else map_of (parse_qs (pu_query p)) (codes ''v''))
      in case video_id of
           None \<Rightarrow> Inl (PlatformError INVALID_URL)
         | Some v \<Rightarrow> if youtube_id v then Inr v else Inl (PlatformError INVALID_URL))"

definition bilibili_video_id :: "parsed_url \<Rightarrow> utext outcome" where
  "bilibili_video_id p =
     (let parts = path_parts p
      in if length parts \<ge> 2 \<and> parts ! 0 = codes ''video''
         then (if bilibili_id (parts ! 1) then Inr (parts ! 1) else Inl (PlatformError INVALID_URL))
         else Inl (PlatformError INVALID_URL))"

definition video_at :: "platform \<Rightarrow> utext outcome \<Rightarrow> video_ref outcome" where
  "video_at pl r =
     (case r of
        Inl e \<Rightarrow> Inl e
      | Inr v \<Rightarrow> Inr \<lparr>vr_platform = pl, vr_video_id = v, vr_url = canonical_url pl v\<rparr>)"

definition detect_video :: "(utext \<Rightarrow> bool) \<Rightarrow> (utext \<Rightarrow> bool) \<Rightarrow> utext \<Rightarrow> video_ref outcome" where
  "detect_video bad_bracket bad_nfkc url =
     (case urlparse bad_bracket bad_nfkc url of
        None \<Rightarrow> Inl (PlatformError INVALID_URL)
      | Some p \<Rightarrow>
          if pu_scheme p \<notin> {codes ''http'', codes ''https''} \<or> hostname p = []
          then Inl (PlatformError INVALID_URL)
          else if hostname p \<in> set YOUTUBE_HOSTS then video_at YOUTUBE (youtube_video_id p)
          else if hostname p \<in> set BILIBILI_HOSTS then video_at BILIBILI (bilibili_video_id p)
          else Inl (PlatformError UNSUPPORTED_PLATFORM))"

section \<open>Canonical URLs\<close>

text \<open>The characters of an id.\<close>

definition id_char :: "nat \<Rightarrow> bool" where
  "id_char c \<longleftrightarrow> is_alpha c \<or> is_digit c \<or> c = 95 \<or> c = 45"

abbreviation id_text :: "utext \<Rightarrow> bool" where
  "id_text \<equiv> list_all id_char"

lemma id_char_bounds: "id_char c \<Longrightarrow> 45 \<le> c \<and> c < 128"
  by (auto simp: id_char_def is_alpha_def is_digit_def)

lemma not_id_char [simp]:
  "\<not> id_char 9" "\<not> id_char 10" "\<not> id_char 13" "\<not> id_char 35" "\<not> id_char 37" "\<not> id_char 38"
  "\<not> id_char 43" "\<not> id_char 47" "\<not> id_char 59" "\<not> id_char 61" "\<not> id_char 63"
  by (simp_all add: id_char_def is_alpha_def is_digit_def)

lemma id_text_notin: "id_text v \<Longrightarrow> \<not> id_char d \<Longrightarrow> d \<notin> set v"
  by (auto simp: list_all_iff)

lemma id_text_scan:
  assumes "id_text v" "\<not> id_char d"
  shows "takeWhile (\<lambda>x. x \<noteq> d) v = v" "dropWhile (\<lambda>x. x \<noteq> d) v = []" "split_on d v = [v]"
    "takeWhile (\<lambda>x. x \<noteq> d) (rev v @ t) = rev v @ takeWhile (\<lambda>x. x \<noteq> d) t"
    "before_char d v = v"
proof -
  have d: "d \<notin> set v" using assms by (rule id_text_notin)
  then show "takeWhile (\<lambda>x. x \<noteq> d) v = v" "dropWhile (\<lambda>x. x \<noteq> d) v = []"
    "takeWhile (\<lambda>x. x \<noteq> d) (rev v @ t) = rev v @ takeWhile (\<lambda>x. x \<noteq> d) t"
    by (auto simp: takeWhile_append intro: takeWhile_eq_all_conv [THEN iffD2])
  then show "before_char d v = v" by (simp add: before_char_def)
  from d show "split_on d v = [v]" by (induction v) auto
qed

lemma id_text_filter: "id_text v \<Longrightarrow> filter (\<lambda>c. c \<noteq> 9 \<and> c \<noteq> 10 \<and> c \<noteq> 13) v = v"
  by (induction v) (auto dest: id_char_bounds)

lemma unquote_to_bytes_plain: "37 \<notin> set t \<Longrightarrow> unquote_to_bytes t = t"
  by (induction t rule: unquote_to_bytes.induct) auto

lemma unquote_id: "id_text v \<Longrightarrow> unquote v = v"
proof (cases v)
  case (Cons a w)
  moreover assume v: "id_text v"
  ultimately have "a < 128" "list_all (\<lambda>c. c < 128) w" "37 \<notin> set (a # w)"
    using id_text_notin [OF v, of 37] by (auto simp: list_all_iff dest: id_char_bounds)
  moreover from this(2) have tw: "takeWhile (\<lambda>c. c < 128) w = w" "dropWhile (\<lambda>c. c < 128) w = []"
    by (auto simp: list_all_iff takeWhile_eq_all_conv)
  ultimately show ?thesis using Cons by (simp add: unquote_to_bytes_plain tw del: utf8_replace.simps)
qed simp

lemma plus_id: "id_text v \<Longrightarrow> map (\<lambda>c. if c = 43 then 32 else c) v = v"
  by (induction v) (auto dest: id_char_bounds)

lemma youtube_canonical:
  assumes "youtube_id v"
  shows "urlparse bad_bracket bad_nfkc (canonical_url YOUTUBE v) =
    Some \<lparr>pu_scheme = codes ''https'', pu_netloc = codes ''www.youtube.com'', pu_path = codes ''/watch'',
      pu_query = codes ''v='' @ v\<rparr>"
proof -
  from assms have "id_text v" by (simp add: youtube_id_def id_char_def [abs_def])
  note scans = id_text_scan [OF this] id_text_filter [OF this]
  show ?thesis
    by (simp add: urlparse_def split_scheme_def codes_def is_alpha_def is_digit_def scans before_char_def
        after_char_def cut_params_def sql_lower_def sql_lower_char_def)
qed

lemma bilibili_id_text:
  assumes "bilibili_id v"
  shows "id_text v"
proof -
  have "id_text (take 2 v @ drop 2 v)"
    using assms unfolding bilibili_id_def list_all_append
    by (auto simp: codes_def id_char_def is_alpha_def list_all_iff)
  then show ?thesis by simp
qed

lemma bilibili_canonical:
  assumes "bilibili_id v"
  shows "urlparse bad_bracket bad_nfkc (canonical_url BILIBILI v) =
    Some \<lparr>pu_scheme = codes ''https'', pu_netloc = codes ''www.bilibili.com'',
      pu_path = codes ''/video/'' @ v, pu_query = []\<rparr>"
proof -
  from assms have "id_text v" by (rule bilibili_id_text)
  note scans = id_text_scan [OF this] id_text_filter [OF this]
  show ?thesis
    by (simp add: urlparse_def split_scheme_def codes_def is_alpha_def is_digit_def scans before_char_def
        after_char_def cut_params_def sql_lower_def sql_lower_char_def)
qed

fun valid_id :: "platform \<Rightarrow> utext \<Rightarrow> bool" where
  "valid_id YOUTUBE v = youtube_id v"
| "valid_id BILIBILI v = bilibili_id v"

lemma detect_canonical:
  assumes "valid_id pl v"
  shows "detect_video bad_bracket bad_nfkc (canonical_url pl v) =
    Inr \<lparr>vr_platform = pl, vr_video_id = v, vr_url = canonical_url pl v\<rparr>"
proof (cases pl)
  case YOUTUBE
  with assms have v: "youtube_id v" by simp
  then have i: "id_text v" "v \<noteq> []" by (auto simp: youtube_id_def id_char_def [abs_def])
  note scans = id_text_scan [OF i(1)] plus_id [OF i(1)] unquote_id [OF i(1)]
  have "path_parts \<lparr>pu_scheme = codes ''https'', pu_netloc = codes ''www.youtube.com'', pu_path = codes ''/watch'',
      pu_query = codes ''v='' @ v\<rparr> = [codes ''watch'']"
    by (simp add: path_parts_def codes_def)
  moreover have "parse_qs (codes ''v='' @ v) = [(codes ''v'', v)]"
    using i(2) by (simp add: parse_qs_def codes_def scans before_char_def after_char_def utf8_char_def)
  moreover have "hostname \<lparr>pu_scheme = codes ''https'', pu_netloc = codes ''www.youtube.com'', pu_path = codes ''/watch'',
      pu_query = codes ''v='' @ v\<rparr> = codes ''www.youtube.com''"
    by (simp add: hostname_def codes_def before_char_def sql_lower_def sql_lower_char_def)
  ultimately show ?thesis
    using YOUTUBE v
    by (simp add: detect_video_def youtube_canonical youtube_video_id_def video_at_def YOUTUBE_HOSTS_def codes_def
        del: canonical_url.simps)
next
  case BILIBILI
  with assms have v: "bilibili_id v" by simp
  from v have "id_text v" by (rule bilibili_id_text)
  moreover have "v \<noteq> []" using v by (auto simp: bilibili_id_def)
  ultimately have "path_parts \<lparr>pu_scheme = codes ''https'', pu_netloc = codes ''www.bilibili.com'',
      pu_path = codes ''/video/'' @ v, pu_query = []\<rparr> = [codes ''video'', v]"
    using id_text_scan [of v 47] by (simp add: path_parts_def codes_def)
  moreover have "hostname \<lparr>pu_scheme = codes ''https'', pu_netloc = codes ''www.bilibili.com'',
      pu_path = codes ''/video/'' @ v, pu_query = []\<rparr> = codes ''www.bilibili.com''"
    by (simp add: hostname_def codes_def before_char_def sql_lower_def sql_lower_char_def)
  ultimately show ?thesis
    using BILIBILI v
    by (simp add: detect_video_def bilibili_canonical bilibili_video_id_def video_at_def
        YOUTUBE_HOSTS_def BILIBILI_HOSTS_def codes_def del: canonical_url.simps)
qed

lemma detect_video_Inr:
  assumes "detect_video bad_bracket bad_nfkc url = Inr r"
  obtains pl v where "r = \<lparr>vr_platform = pl, vr_video_id = v, vr_url = canonical_url pl v\<rparr>"
    "valid_id pl v"
proof -
  from assms obtain p pl where "video_at pl (case pl of YOUTUBE \<Rightarrow> youtube_video_id p | BILIBILI \<Rightarrow> bilibili_video_id p) = Inr r"
    by (auto simp: detect_video_def split: option.splits if_splits intro: that [of YOUTUBE] that [of BILIBILI])
  then obtain v where r: "r = \<lparr>vr_platform = pl, vr_video_id = v, vr_url = canonical_url pl v\<rparr>"
    and v: "(case pl of YOUTUBE \<Rightarrow> youtube_video_id p | BILIBILI \<Rightarrow> bilibili_video_id p) = Inr v"
    by (auto simp: video_at_def split: sum.splits)
  moreover have "valid_id pl v"
    using v by (cases pl)
      (auto simp: youtube_video_id_def bilibili_video_id_def Let_def split: option.splits if_splits)
  ultimately show thesis using that by blast
qed

lemma detect_video_Inl:
  assumes "detect_video bad_bracket bad_nfkc url = Inl e"
  shows "e = PlatformError INVALID_URL \<or> e = PlatformError UNSUPPORTED_PLATFORM"
  using assms
  by (auto simp: detect_video_def video_at_def youtube_video_id_def bilibili_video_id_def Let_def
      split: option.splits if_splits sum.splits)

text \<open>
  The detector is total and canonical. Whatever text is submitted, it either raises one
  of the two documented platform errors or resolves to a canonical URL of the platform and
  a video id of its pattern; and the canonical URL resolves to exactly the same reference,
  so resubmitting what the service stored never changes the video.
\<close>
theorem canonical_urls_resolve_to_themselves:
  "case detect_video bad_bracket bad_nfkc url of
     Inl e \<Rightarrow> e = PlatformError INVALID_URL \<or> e = PlatformError UNSUPPORTED_PLATFORM
   | Inr r \<Rightarrow>
       vr_url r = canonical_url (vr_platform r) (vr_video_id r) \<and>
       valid_id (vr_platform r) (vr_video_id r) \<and>
       detect_video bad_bracket bad_nfkc (vr_url r) = Inr r"
proof (cases "detect_video bad_bracket bad_nfkc url")
  case (Inl e)
  then show ?thesis using detect_video_Inl [OF Inl] by simp
next
  case (Inr r)
  then show ?thesis
    by (rule detect_video_Inr) (simp add: Inr detect_canonical del: canonical_url.simps)
qed

end
