(* ===== verification/Submission.thy ===== *)
theory Submission
  imports JobTheorems Platforms
begin

text \<open>
  Submitting a video: \<open>application/submit.py\<close> and the endpoint \<open>POST /api/jobs\<close> of
  \<open>web/app.py\<close> around it. \<open>digest\<close> is the SHA-256 hex digest of the UTF-8 form of a text,
  and the job id drawn by \<open>uuid4\<close> is an argument.
\<close>

section \<open>Fingerprints\<close>

definition compute_request_fingerprint ::
  "(utext \<Rightarrow> string) \<Rightarrow> utext \<Rightarrow> string \<Rightarrow> string \<Rightarrow> string option \<Rightarrow> string \<Rightarrow> string" where
  "compute_request_fingerprint digest url mode asr language config_fingerprint =
     digest (join [124] [url, codes mode, codes asr,
       codes (case language of None \<Rightarrow> [] | Some l \<Rightarrow> l), codes config_fingerprint])"

definition compute_config_fingerprint ::
  "(utext \<Rightarrow> string) \<Rightarrow> string \<Rightarrow> string \<Rightarrow> string \<Rightarrow> string \<Rightarrow> string" where
  "compute_config_fingerprint digest provider model base_url asr_provider =
     digest (codes (''pipeline-v1|report-v1|chunks-4000|'' @ provider @ ''|'' @ base_url @ ''|'' @
       model @ ''|'' @ asr_provider))"

section \<open>Reuse\<close>

definition first_row :: "'r list \<Rightarrow> 'r option" where
  "first_row rows = (case page 1 0 rows of [] \<Rightarrow> None | r # _ \<Rightarrow> Some r)"

definition active_request :: "string \<Rightarrow> job \<Rightarrow> bool" where
  "active_request fingerprint r \<longleftrightarrow>
     j_request_fingerprint r = fingerprint \<and> j_status r \<notin> TERMINAL_JOB_STATUSES"

text \<open>
  Two queries, newest first. Rows with equal instants come in rowid order, which is what
  SQLite's sorter gives; the code does not depend on it.
\<close>

definition find_reusable :: "string \<Rightarrow> time \<Rightarrow> time \<Rightarrow> database \<Rightarrow> job option" where
  "find_reusable fingerprint now reuse_window_seconds d =
     (case first_row (sort_key (\<lambda>r. - j_created_at r) (filter (active_request fingerprint) (jobs d))) of
        Some active \<Rightarrow> Some active
      | None \<Rightarrow>
          first_row (sort_key (\<lambda>r. - j_updated_at r)
            (filter (\<lambda>r. j_request_fingerprint r = fingerprint \<and> j_status r = COMPLETED \<and>
               j_updated_at r \<ge> now - reuse_window_seconds) (jobs d))))"

section \<open>Submission\<close>

text \<open>
  The session is rolled back first, so the lookup reads rows, not stale instances. An
  exception inside the block rolls back and propagates.
\<close>

definition submit_video ::
  "(utext \<Rightarrow> string) \<Rightarrow> (utext \<Rightarrow> video_ref outcome) \<Rightarrow> utext \<Rightarrow> string \<Rightarrow> string \<Rightarrow> string option \<Rightarrow>
   string \<Rightarrow> time \<Rightarrow> time \<Rightarrow> string \<Rightarrow> session \<Rightarrow> (job \<times> bool) outcome \<times> session" where
  "submit_video digest detect url mode asr language config_fingerprint now reuse_window_seconds new_id s =
     (case detect url of
        Inl e \<Rightarrow> (Inl e, s)
      | Inr ref \<Rightarrow>
          let fingerprint = compute_request_fingerprint digest (vr_url ref) mode asr language config_fingerprint
          in case begin_immediate (rollback_tx s) of
               (Inl e, s1) \<Rightarrow> (Inl e, rollback_tx s1)
             | (Inr _, s1) \<Rightarrow>
                (case find_reusable fingerprint now reuse_window_seconds (working s1) of
                   Some existing \<Rightarrow> (Inr (existing, True), commit_tx s1)
                 | None \<Rightarrow>
                     if find_job new_id (working s1) \<noteq> None
                     then (Inl (IntegrityError new_id), rollback_tx s1)
                     else
                       let s2 = publish (insert_job (\<lambda>i. new_job i new_id (vr_url ref) fingerprint
                                  config_fingerprint now QUEUED mode asr language 3 0 None) (working s1))
                                  {new_id} {} s1;
                           (created, s3) = get_job new_id s2
                       in case created of
                            None \<Rightarrow> (Inl (RuntimeError new_id), rollback_tx s3)
                          | Some j \<Rightarrow> (Inr (j, False), s3)))"

datatype http_reply = Submitted string job_status bool | HttpError nat string | Crashed exn

definition or_empty :: "string option \<Rightarrow> string" where
  "or_empty x = (case x of None \<Rightarrow> [] | Some v \<Rightarrow> v)"

definition submit_job ::
  "(utext \<Rightarrow> string) \<Rightarrow> (utext \<Rightarrow> video_ref outcome) \<Rightarrow> utext \<Rightarrow> string \<Rightarrow> string \<Rightarrow> string option \<Rightarrow>
   time \<Rightarrow> string \<Rightarrow> session \<Rightarrow> http_reply \<times> session" where
  "submit_job digest detect url mode asr language now new_id s =
     (let s1 = autobegin s; st = get_app_settings (working s1);
          field = (\<lambda>f. or_empty (Option.bind st f));
          asr_provider = (if field st_asr_provider = [] then ''auto'' else field st_asr_provider);
          config_fp = compute_config_fingerprint digest (field st_llm_provider) (field st_llm_model)
            (field st_llm_base_url) asr_provider
      in case submit_video digest detect url mode asr language config_fp now 3600 new_id s1 of
           (Inr (job, reused), s2) \<Rightarrow> (Submitted (j_job_id job) (j_status job) reused, s2)
         | (Inl (PlatformError code), s2) \<Rightarrow> (HttpError 422 code, s2)
         | (Inl e, s2) \<Rightarrow> (Crashed e, s2))"

section \<open>One active job per request\<close>

definition single_active :: "database \<Rightarrow> bool" where
  "single_active d \<longleftrightarrow>
     distinct (map j_request_fingerprint (filter (\<lambda>r. j_status r \<notin> TERMINAL_JOB_STATUSES) (jobs d)))"

text \<open>
  The calls of the running service: every repository call but \<open>enqueue_job\<close>, which no
  component calls, and submissions, each through any session.
\<close>

inductive service_step :: "(utext \<Rightarrow> string) \<Rightarrow> (utext \<Rightarrow> video_ref outcome) \<Rightarrow> database \<Rightarrow> database \<Rightarrow> bool"
  for digest detect where
  repository: "call_step c d d' \<Longrightarrow> \<not> enqueues c \<Longrightarrow> service_step digest detect d d'"
| submission: "service_step digest detect (committed s) (committed (snd
    (submit_video digest detect url mode asr language cfg now window new_id s)))"

text \<open>What a submission does, by the session's lock and the rows it finds.\<close>

definition submission :: "(utext \<Rightarrow> string) \<Rightarrow> utext \<Rightarrow> string \<Rightarrow> string \<Rightarrow> string option \<Rightarrow> string \<Rightarrow> time \<Rightarrow> string \<Rightarrow> nat \<Rightarrow> job" where
  "submission digest url mode asr language cfg now new_id i =
     new_job i new_id url (compute_request_fingerprint digest url mode asr language cfg) cfg now QUEUED
       mode asr language 3 0 None"

lemma submit_video_cases:
  "(fst (submit_video digest detect url mode asr language cfg now window new_id s),
    committed (snd (submit_video digest detect url mode asr language cfg now window new_id s))) =
   (case detect url of
      Inl e \<Rightarrow> (Inl e, committed s)
    | Inr ref \<Rightarrow>
       if locked s then (Inl (OperationalError ''database is locked''), committed s)
       else
        (case find_reusable (compute_request_fingerprint digest (vr_url ref) mode asr language cfg) now window
            (committed s) of
           Some r \<Rightarrow> (Inr (r, True), committed s)
         | None \<Rightarrow>
            if find_job new_id (committed s) \<noteq> None then (Inl (IntegrityError new_id), committed s)
            else (Inr (submission digest (vr_url ref) mode asr language cfg now new_id (job_seq (committed s) + 1), False),
                  insert_job (submission digest (vr_url ref) mode asr language cfg now new_id) (committed s))))"
proof (cases "detect url")
  case (Inl e)
  then show ?thesis by (simp add: submit_video_def)
next
  case (Inr ref)
  let ?mk = "submission digest (vr_url ref) mode asr language cfg now new_id"
  have get: "find_job new_id (insert_job ?mk d) = Some (?mk (job_seq d + 1))"
    if "find_job new_id d = None" for d
    using that by (simp add: find_job_def insert_job_def select_first_append submission_def new_job_def)
  show ?thesis
  proof (cases "locked s")
    case True
    then show ?thesis by (simp add: submit_video_def Inr begin_immediate_def exit_defs)
  next
    case False
    then show ?thesis
      using get [of "committed s"]
      by (auto simp: submit_video_def Inr begin_immediate_def exit_defs get_job_def orm_job_def
          submission_def [abs_def] split: option.split)
  qed
qed

lemma first_row_sorted:
  "first_row (sort_key k rows) = None \<longleftrightarrow> rows = []"
  "first_row (sort_key k rows) = Some r \<Longrightarrow> r \<in> set rows"
proof -
  show "first_row (sort_key k rows) = None \<longleftrightarrow> rows = []"
    using length_sort [of k rows] by (cases "sort_key k rows") (auto simp: first_row_def page_def)
  show "r \<in> set rows" if "first_row (sort_key k rows) = Some r"
    using that set_sort [of k rows] by (cases "sort_key k rows") (auto simp: first_row_def page_def)
qed

lemma find_reusable_None:
  "find_reusable fp now window d = None \<Longrightarrow> filter (active_request fp) (jobs d) = []"
  by (auto simp: find_reusable_def first_row_sorted split: option.splits)

lemma find_reusable_in:
  assumes "find_reusable fp now window d = Some r"
  shows "r \<in> set (jobs d) \<and> j_request_fingerprint r = fp \<and>
    (j_status r \<notin> TERMINAL_JOB_STATUSES \<or> j_status r = COMPLETED \<and> now - window \<le> j_updated_at r)"
  using assms
  by (auto simp: find_reusable_def active_request_def dest!: first_row_sorted(2) split: option.splits)

abbreviation unfinished :: "job list \<Rightarrow> job list" where
  "unfinished js \<equiv> filter (\<lambda>r. j_status r \<notin> TERMINAL_JOB_STATUSES) js"

text \<open>A row that is rewritten keeps its fingerprint, and never comes back from a final status.\<close>

lemma unfinished_delta:
  assumes "list_all2 (\<lambda>r r'. j_request_fingerprint r' = j_request_fingerprint r \<and>
    (j_status r' \<notin> TERMINAL_JOB_STATUSES \<longrightarrow> j_status r \<notin> TERMINAL_JOB_STATUSES)) js js'"
    and "distinct (map j_request_fingerprint (unfinished js))"
  shows "distinct (map j_request_fingerprint (unfinished js')) \<and>
    (\<forall>r' \<in> set (unfinished js'). \<exists>r \<in> set (unfinished js). j_request_fingerprint r' = j_request_fingerprint r)"
  using assms
proof (induction rule: list_all2_induct)
  case (Cons x xs y ys)
  have d: "distinct (map j_request_fingerprint (unfinished ys))"
    and s: "\<forall>r' \<in> set (unfinished ys). \<exists>r \<in> set (unfinished xs). j_request_fingerprint r' = j_request_fingerprint r"
    using Cons.IH Cons.prems by (auto split: if_splits)
  have xy: "j_request_fingerprint y = j_request_fingerprint x"
    "j_status y \<notin> TERMINAL_JOB_STATUSES \<Longrightarrow> j_status x \<notin> TERMINAL_JOB_STATUSES" using Cons.hyps by auto
  have "j_request_fingerprint y \<notin> j_request_fingerprint ` set (unfinished ys)"
    if "j_status y \<notin> TERMINAL_JOB_STATUSES"
  proof
    assume "j_request_fingerprint y \<in> j_request_fingerprint ` set (unfinished ys)"
    then obtain r' where "r' \<in> set (unfinished ys)" "j_request_fingerprint r' = j_request_fingerprint x"
      using xy(1) by (metis imageE)
    with s obtain r where "r \<in> set (unfinished xs)" "j_request_fingerprint r = j_request_fingerprint x"
      by metis
    then have "j_request_fingerprint x \<in> j_request_fingerprint ` set (unfinished xs)" by (metis imageI)
    with xy(2) [OF that] Cons.prems show False by simp
  qed
  with d have "distinct (map j_request_fingerprint (unfinished (y # ys)))" by simp
  moreover have "\<exists>r \<in> set (unfinished (x # xs)). j_request_fingerprint r' = j_request_fingerprint r"
    if "r' \<in> set (unfinished (y # ys))" for r'
    using that s xy by (cases "r' = y") (auto split: if_splits)
  ultimately show ?case by blast
qed simp

lemma single_active_delta:
  assumes "job_delta R d d'" "jobs_wf d" "single_active d"
    and "\<And>r r'. R r r' \<Longrightarrow> job_ok r \<Longrightarrow> same_request r r' \<and> j_status r \<notin> TERMINAL_JOB_STATUSES"
  shows "single_active d'"
proof -
  have "list_all2 (\<lambda>r r'. j_request_fingerprint r' = j_request_fingerprint r \<and>
      (j_status r' \<notin> TERMINAL_JOB_STATUSES \<longrightarrow> j_status r \<notin> TERMINAL_JOB_STATUSES)) (jobs d) (jobs d')"
    using assms(1) assms(4) jobs_wf_job_ok [OF assms(2)]
    by (auto simp: job_delta_def same_request_def elim!: list.rel_mono_strong)
  with assms(3) show ?thesis by (auto simp: single_active_def dest: unfinished_delta)
qed

lemma single_active_step:
  assumes "service_step digest detect d d'" "jobs_wf d" "single_active d"
  shows "jobs_wf d' \<and> single_active d'"
  using assms(1)
proof cases
  case (repository c)
  from this(1) assms(2) have "single_active d'"
  proof (rule call_step_classes)
    assume "job_delta (row_write (actor c) (call_time c)) d d'"
    then show ?thesis
      by (rule single_active_delta [OF _ assms(2,3)]) (auto dest: row_write_request row_write_terminal)
  next
    assume "job_delta (\<lambda>r r'. exhausted r \<and> r' = failed_row (call_time c) r) d d'"
    then show ?thesis
      by (rule single_active_delta [OF _ assms(2,3)])
        (auto simp: exhausted_def failed_row_def same_request_def running_not_terminal)
  qed (use repository(2) in simp)
  with call_step_wf [OF repository(1) assms(2)] show ?thesis by simp
next
  case (submission s url mode asr language cfg now window new_id)
  let ?mk = "\<lambda>ref. submission digest (vr_url ref) mode asr language cfg now new_id"
  note cs = submit_video_cases [of digest detect url mode asr language cfg now window new_id s]
  consider "d' = d"
    | ref :: video_ref where "find_job new_id d = None" "d' = insert_job (?mk ref) d"
      "find_reusable (compute_request_fingerprint digest (vr_url ref) mode asr language cfg) now window d = None"
  proof (cases "detect url")
    case (Inl e)
    with cs submission that(1) show thesis by simp
  next
    case (Inr ref)
    with cs submission that(1) that(2) [of ref] show thesis by (auto split: if_splits option.splits)
  qed
  then show ?thesis
  proof cases
    case 1
    with assms show ?thesis by simp
  next
    case 2
    have "jobs_wf d'"
      unfolding 2(2) using assms(2) 2(1)
      by (rule jobs_wf_insert)
        (simp_all add: submission_def job_ok_new_job, simp_all add: new_job_def)
    moreover have "single_active d'"
      using assms(3) find_reusable_None [OF 2(3)]
      by (auto simp: 2(2) single_active_def insert_job_def submission_def new_job_def
          filter_empty_conv active_request_def)
    ultimately show ?thesis by simp
  qed
qed

text \<open>A concrete submission.\<close>

abbreviation sample_detect :: "utext \<Rightarrow> video_ref outcome" where
  "sample_detect \<equiv> detect_video (\<lambda>_. False) (\<lambda>_. False)"

abbreviation sample_url :: utext where
  "sample_url \<equiv> canonical_url YOUTUBE (codes ''dQw4w9WgXcQ'')"

abbreviation sample_submit :: "string \<Rightarrow> session \<Rightarrow> (job \<times> bool) outcome \<times> session" where
  "sample_submit \<equiv> submit_video (map char_of) sample_detect sample_url ''auto'' ''auto'' None ''cfg'' 10 3600"

lemma sample_detected:
  "sample_detect sample_url =
     Inr \<lparr>vr_platform = YOUTUBE, vr_video_id = codes ''dQw4w9WgXcQ'', vr_url = sample_url\<rparr>"
  by (rule detect_canonical) (simp add: codes_def youtube_id_def is_alpha_def is_digit_def)

lemma sample_submitted:
  "fst (sample_submit ''j1'' (open_session empty_database)) =
     Inr (submission (map char_of) sample_url ''auto'' ''auto'' None ''cfg'' 10 ''j1'' 1, False)"
  "jobs (committed (snd (sample_submit ''j1'' (open_session empty_database)))) =
     [submission (map char_of) sample_url ''auto'' ''auto'' None ''cfg'' 10 ''j1'' 1]"
  using submit_video_cases [of "map char_of" sample_detect sample_url "''auto''" "''auto''" None "''cfg''" 10 3600
      "''j1''" "open_session empty_database"]
  by (simp_all add: sample_detected find_reusable_def first_row_def page_def find_job_def insert_job_def
      empty_database_def open_session_def del: canonical_url.simps)

text \<open>
  C6. At most one active job per request. Whatever the repository calls and submissions of
  any number of sessions, concurrent submissions of one request included, two jobs that are
  not finished never carry the same request fingerprint, and the table stays well formed.
\<close>
theorem one_active_job_per_request:
  assumes "(service_step digest detect)\<^sup>*\<^sup>* d d'" "jobs_wf d" "single_active d"
  shows "jobs_wf d' \<and> single_active d'"
  using assms(1)
proof induction
  case base
  with assms(2,3) show ?case by simp
next
  case (step d1 d2)
  then show ?case using single_active_step by blast
qed

theorem one_active_job_per_request_witness:
  "jobs_wf (committed (snd (sample_submit ''j1'' (open_session empty_database)))) \<and>
   single_active (committed (snd (sample_submit ''j1'' (open_session empty_database))))"
proof (rule one_active_job_per_request)
  show "(service_step (map char_of) sample_detect)\<^sup>*\<^sup>* empty_database
      (committed (snd (sample_submit ''j1'' (open_session empty_database))))"
    using service_step.submission [of "map char_of" sample_detect "open_session empty_database"] by auto
qed (simp_all add: jobs_wf_def single_active_def empty_database_def)

text \<open>
  Submitting the same request again gives the same job, marked as reused, and writes
  nothing; a finished job is returned as long as the clock has not moved, an unfinished one
  always. This holds in whatever session, once the first submission is committed.
\<close>
theorem resubmission_returns_the_job:
  assumes "fst (submit_video digest detect url mode asr language cfg now window new_id s) = Inr (j, b)"
    and "committed s' = committed (snd (submit_video digest detect url mode asr language cfg now window new_id s))"
    and "\<not> locked s'" "now' = now \<or> j_status j \<notin> TERMINAL_JOB_STATUSES"
  shows "fst (submit_video digest detect url mode asr language cfg now' window new_id' s') = Inr (j, True) \<and>
    committed (snd (submit_video digest detect url mode asr language cfg now' window new_id' s')) = committed s'"
proof -
  from assms(1) submit_video_cases [of digest detect url mode asr language cfg now window new_id s]
  obtain ref where ref: "detect url = Inr ref"
    by (cases "detect url") auto
  let ?fp = "compute_request_fingerprint digest (vr_url ref) mode asr language cfg"
  have "find_reusable ?fp now' window (committed s') = Some j"
  proof (cases "find_reusable ?fp now window (committed s)")
    case (Some r)
    with assms ref submit_video_cases [of digest detect url mode asr language cfg now window new_id s]
    have j: "j = r" "committed s' = committed s" by (auto split: if_splits)
    show ?thesis
    proof (cases "now' = now")
      case True
      with Some j show ?thesis by simp
    next
      case False
      with assms(4) j have "j_status r \<notin> TERMINAL_JOB_STATUSES" by simp
      with Some j show ?thesis
        by (auto simp: find_reusable_def split: option.splits dest!: first_row_sorted(2)) 
    qed
  next
    case None
    let ?new = "submission digest (vr_url ref) mode asr language cfg now new_id (job_seq (committed s) + 1)"
    from None assms ref submit_video_cases [of digest detect url mode asr language cfg now window new_id s]
    have "j = ?new" "jobs (committed s') = jobs (committed s) @ [?new]"
      by (auto simp: insert_job_def split: if_splits)
    then show ?thesis
      using find_reusable_None [OF None]
      by (simp add: find_reusable_def active_request_def submission_def new_job_def first_row_def page_def)
  qed
  with assms(3) ref submit_video_cases [of digest detect url mode asr language cfg now' window new_id' s']
  show ?thesis by simp
qed

theorem resubmission_returns_the_job_witness:
  "fst (sample_submit ''j2'' (open_session (committed (snd (sample_submit ''j1'' (open_session empty_database)))))) =
     Inr (submission (map char_of) sample_url ''auto'' ''auto'' None ''cfg'' 10 ''j1'' 1, True)"
  by (rule resubmission_returns_the_job [OF sample_submitted(1), THEN conjunct1])
    (simp_all add: open_session_def)

end
