(* ===== verification/JsonText.thy ===== *)
theory JsonText
  imports Json FtsText
begin

text \<open>
  The text of a JSON value: \<open>json.dumps(.., ensure_ascii=False)\<close>, compact or with an indent,
  and \<open>json.loads\<close>. The two conversions between a double and its decimal text are parameters:
  \<open>rd\<close> reads a literal (\<open>None\<close>: it overflows to an infinity), \<open>wr\<close> is \<open>float.__repr__\<close>.
  The limits of Python's reader on nesting and on the digits of an integer are not modelled.
\<close>

section \<open>Writing\<close>

fun nat_digits :: "nat \<Rightarrow> utext" where
  "nat_digits n = (if n < 10 then [48 + n] else nat_digits (n div 10) @ [48 + n mod 10])"

declare nat_digits.simps [simp del]

definition int_text :: "int \<Rightarrow> utext" where
  "int_text i = (if i < 0 then 45 # nat_digits (nat (- i)) else nat_digits (nat i))"

definition hex_char :: "nat \<Rightarrow> nat" where
  "hex_char n = (if n < 10 then 48 + n else 87 + n)"

definition escape_char :: "nat \<Rightarrow> utext" where
  "escape_char c =
     (if c = 34 then [92, 34] else if c = 92 then [92, 92]
      else if c = 8 then [92, 98] else if c = 12 then [92, 102] else if c = 10 then [92, 110]
      else if c = 13 then [92, 114] else if c = 9 then [92, 116]
      else if c < 32 then [92, 117, 48, 48, hex_char (c div 16), hex_char (c mod 16)]
      else [c])"

definition string_text :: "utext \<Rightarrow> utext" where
  "string_text s = 34 # concat (map escape_char s) @ [34]"

text \<open>
  With an indent every item goes on a line of its own; without one, items are separated by
  a comma and a space.
\<close>

definition line_break :: "nat option \<Rightarrow> nat \<Rightarrow> utext" where
  "line_break indent level =
     (case indent of None \<Rightarrow> [] | Some w \<Rightarrow> 10 # replicate (w * level) 32)"

definition item_sep :: "nat option \<Rightarrow> nat \<Rightarrow> utext" where
  "item_sep indent level =
     (case indent of None \<Rightarrow> [44, 32] | Some w \<Rightarrow> 44 # line_break (Some w) level)"

fun dumps_at :: "(rat \<Rightarrow> utext) \<Rightarrow> nat option \<Rightarrow> nat \<Rightarrow> utext jtree \<Rightarrow> utext" where
  "dumps_at wr ind lv JNull = codes ''null''"
| "dumps_at wr ind lv (JBool b) = (if b then codes ''true'' else codes ''false'')"
| "dumps_at wr ind lv (JInt i) = int_text i"
| "dumps_at wr ind lv (JFloat x) = wr x"
| "dumps_at wr ind lv (JStr s) = string_text s"
| "dumps_at wr ind lv JNan = codes ''NaN''"
| "dumps_at wr ind lv (JInf neg) = (if neg then codes ''-Infinity'' else codes ''Infinity'')"
| "dumps_at wr ind lv (JArr xs) =
     (if xs = [] then [91, 93]
      else 91 # line_break ind (Suc lv) @
        join (item_sep ind (Suc lv)) (map (dumps_at wr ind (Suc lv)) xs) @ line_break ind lv @ [93])"
| "dumps_at wr ind lv (JObj f) =
     (if f = [] then [123, 125]
      else 123 # line_break ind (Suc lv) @
        join (item_sep ind (Suc lv))
          (map (\<lambda>p. string_text (fst p) @ [58, 32] @ dumps_at wr ind (Suc lv) (snd p)) f) @
        line_break ind lv @ [125])"

definition dumps :: "(rat \<Rightarrow> utext) \<Rightarrow> nat option \<Rightarrow> utext jtree \<Rightarrow> utext" where
  "dumps wr indent v = dumps_at wr indent 0 v"

section \<open>Reading\<close>

definition json_space :: "nat \<Rightarrow> bool" where
  "json_space c \<longleftrightarrow> c = 32 \<or> c = 9 \<or> c = 10 \<or> c = 13"

definition skip_space :: "utext \<Rightarrow> utext" where
  "skip_space t = dropWhile json_space t"

text \<open>\<open>uXXXX\<close>, and the second half of a surrogate pair when one follows.\<close>

definition hex4 :: "utext \<Rightarrow> (nat \<times> utext) option" where
  "hex4 t =
     (case t of
        a # b # c # d # r \<Rightarrow>
          (case (hex_digit a, hex_digit b, hex_digit c, hex_digit d) of
             (Some w, Some x, Some y, Some z) \<Rightarrow> Some (4096 * w + 256 * x + 16 * y + z, r)
           | _ \<Rightarrow> None)
      | _ \<Rightarrow> None)"

definition low_half :: "utext \<Rightarrow> (nat \<times> utext) option" where
  "low_half t =
     (if take 2 t = [92, 117] then
        (case hex4 (drop 2 t) of
           Some (u, r) \<Rightarrow> if 0xDC00 \<le> u \<and> u \<le> 0xDFFF then Some (u, r) else None
         | None \<Rightarrow> None)
      else None)"

definition unicode_escape :: "utext \<Rightarrow> (nat \<times> utext) option" where
  "unicode_escape t =
     (case hex4 t of
        None \<Rightarrow> None
      | Some (u, r) \<Rightarrow>
          if 0xD800 \<le> u \<and> u \<le> 0xDBFF then
            (case low_half r of
               Some (l, r') \<Rightarrow> Some (0x10000 + 0x400 * (u - 0xD800) + (l - 0xDC00), r')
             | None \<Rightarrow> Some (u, r))
          else Some (u, r))"

definition simple_escape :: "nat \<Rightarrow> nat option" where
  "simple_escape e =
     map_of [(34, 34), (92, 92), (47, 47), (98, 8), (102, 12), (110, 10), (114, 13), (116, 9)] e"

lemma hex4_length: "hex4 t = Some (u, r) \<Longrightarrow> length r < length t"
  by (auto simp: hex4_def split: list.splits option.splits)

lemma low_half_length: "low_half t = Some (u, r) \<Longrightarrow> length r < length t"
  by (auto simp: low_half_def split: if_splits option.splits dest!: hex4_length)

lemma unicode_escape_length: "unicode_escape t = Some (u, r) \<Longrightarrow> length r < length t"
  by (auto simp: unicode_escape_def split: if_splits option.splits dest!: hex4_length low_half_length)

text \<open>The characters up to the closing quote, and the rest after it.\<close>

function read_string :: "utext \<Rightarrow> (utext \<times> utext) option" where
  "read_string [] = None"
| "read_string (c # t) =
     (if c = 34 then Some ([], t)
      else if c = 92 then
        (case t of
           [] \<Rightarrow> None
         | e # t' \<Rightarrow>
             if e = 117 then
               (case unicode_escape t' of
                  None \<Rightarrow> None
                | Some (u, r) \<Rightarrow> map_option (apfst ((#) u)) (read_string r))
             else
               (case simple_escape e of
                  None \<Rightarrow> None
                | Some v \<Rightarrow> map_option (apfst ((#) v)) (read_string t')))
      else if c < 32 then None
      else map_option (apfst ((#) c)) (read_string t))"
  by pat_completeness auto

termination
  by (relation "measure length") (auto dest: unicode_escape_length)

definition exponent :: "utext \<Rightarrow> utext" where
  "exponent t =
     (case t of
        c # d # r \<Rightarrow>
          if c = 69 \<or> c = 101 then
            (if is_digit d then c # takeWhile is_digit (d # r)
             else if (d = 43 \<or> d = 45) \<and> takeWhile is_digit r \<noteq> [] then c # d # takeWhile is_digit r
             else [])
          else []
      | _ \<Rightarrow> [])"

definition fraction :: "utext \<Rightarrow> utext" where
  "fraction t =
     (case t of
        c # r \<Rightarrow> if c = 46 \<and> takeWhile is_digit r \<noteq> [] then c # takeWhile is_digit r else []
      | [] \<Rightarrow> [])"

text \<open>Sign, digits, fraction and exponent, and the rest; no leading zeros.\<close>

definition scan_number :: "utext \<Rightarrow> (utext \<times> utext \<times> utext \<times> utext) option" where
  "scan_number t =
     (let sign = takeWhile (\<lambda>c. c = 45) (take 1 t);
          body = drop (length sign) t;
          digits = (if take 1 body = [48] then [48] else takeWhile is_digit body);
          body = drop (length digits) body;
          tail = fraction body @ exponent (drop (length (fraction body)) body)
      in if digits = [] then None else Some (sign, digits, tail, drop (length tail) body))"

definition digits_value :: "utext \<Rightarrow> int" where
  "digits_value ds = foldl (\<lambda>a d. 10 * a + (int d - 48)) 0 ds"

definition starts :: "string \<Rightarrow> utext \<Rightarrow> bool" where
  "starts w t \<longleftrightarrow> take (length w) t = codes w"

definition read_literal :: "(utext \<Rightarrow> rat option) \<Rightarrow> utext \<Rightarrow> (utext jtree \<times> utext) option" where
  "read_literal rd t =
     (if starts ''null'' t then Some (JNull, drop 4 t)
      else if starts ''true'' t then Some (JBool True, drop 4 t)
      else if starts ''false'' t then Some (JBool False, drop 5 t)
      else if starts ''NaN'' t then Some (JNan, drop 3 t)
      else if starts ''Infinity'' t then Some (JInf False, drop 8 t)
      else if starts ''-Infinity'' t then Some (JInf True, drop 9 t)
      else
        (case scan_number t of
           None \<Rightarrow> None
         | Some (sign, digits, tail, r) \<Rightarrow>
             Some (if tail = [] then JInt (if sign = [] then digits_value digits else - digits_value digits)
                   else (case rd (sign @ digits @ tail) of Some x \<Rightarrow> JFloat x | None \<Rightarrow> JInf (sign \<noteq> [])), r)))"

text \<open>
  A value, the elements of a non-empty array and the members of a non-empty object, from
  their first character on. Each call is on a shorter text or goes from elements to a
  value, so fuel of twice the length is enough (\<open>read_value_fuel\<close>).
\<close>

fun read_value :: "(utext \<Rightarrow> rat option) \<Rightarrow> nat \<Rightarrow> utext \<Rightarrow> (utext jtree \<times> utext) option"
and read_elements :: "(utext \<Rightarrow> rat option) \<Rightarrow> nat \<Rightarrow> utext \<Rightarrow> (utext jtree list \<times> utext) option"
and read_members :: "(utext \<Rightarrow> rat option) \<Rightarrow> nat \<Rightarrow> utext \<Rightarrow> ((utext \<times> utext jtree) list \<times> utext) option"
where
  "read_value rd 0 t = None"
| "read_value rd (Suc n) t =
     (case t of
        [] \<Rightarrow> None
      | c # cs \<Rightarrow>
          if c = 34 then map_option (apfst JStr) (read_string cs)
          else if c = 91 then
            (if take 1 (skip_space cs) = [93] then Some (JArr [], drop 1 (skip_space cs))
             else map_option (apfst JArr) (read_elements rd n (skip_space cs)))
          else if c = 123 then
            (if take 1 (skip_space cs) = [125] then Some (JObj [], drop 1 (skip_space cs))
             else map_option (apfst JObj) (read_members rd n (skip_space cs)))
          else read_literal rd t)"
| "read_elements rd 0 t = None"
| "read_elements rd (Suc n) t =
     (case read_value rd n t of
        None \<Rightarrow> None
      | Some (x, r) \<Rightarrow>
         (case skip_space r of
            [] \<Rightarrow> None
          | d # ds \<Rightarrow>
              if d = 93 then Some ([x], ds)
              else if d = 44 then map_option (apfst ((#) x)) (read_elements rd n (skip_space ds))
              else None))"
| "read_members rd 0 t = None"
| "read_members rd (Suc n) t =
     (case t of
        [] \<Rightarrow> None
      | c # cs \<Rightarrow>
          if c \<noteq> 34 then None
          else
           (case read_string cs of
              None \<Rightarrow> None
            | Some (k, r) \<Rightarrow>
                if take 1 (skip_space r) \<noteq> [58] then None
                else
                 (case read_value rd n (skip_space (drop 1 (skip_space r))) of
                    None \<Rightarrow> None
                  | Some (x, r') \<Rightarrow>
                     (case skip_space r' of
                        [] \<Rightarrow> None
                      | d # ds \<Rightarrow>
                          if d = 125 then Some ([(k, x)], ds)
                          else if d = 44 then map_option (apfst ((#) (k, x))) (read_members rd n (skip_space ds))
                          else None))))"

text \<open>The raw pairs of an object, in the order of the text, are what \<open>object_pairs_hook\<close> sees.\<close>

definition loads :: "(utext \<Rightarrow> rat option) \<Rightarrow> utext \<Rightarrow> utext jtree option" where
  "loads rd t =
     (case read_value rd (2 * length t + 2) (skip_space t) of
        None \<Rightarrow> None
      | Some (v, r) \<Rightarrow> if skip_space r = [] then Some v else None)"

section \<open>Reading undoes writing\<close>

lemma nat_digits_digits: "c \<in> set (nat_digits n) \<Longrightarrow> is_digit c"
proof (induction n rule: nat_digits.induct)
  case (1 n)
  then show ?case
    by (subst (asm) nat_digits.simps [of n]) (auto simp: is_digit_def split: if_splits)
qed

lemma nat_digits_first: "\<exists>c cs. nat_digits n = c # cs \<and> (c = 48 \<longrightarrow> cs = [])"
proof (induction n rule: nat_digits.induct)
  case (1 n)
  show ?case
  proof (cases "n < 10")
    case True
    then show ?thesis by (simp add: nat_digits.simps [of n])
  next
    case False
    with 1 obtain c cs where "nat_digits (n div 10) = c # cs" "c = 48 \<longrightarrow> cs = []" by blast
    moreover have "c \<noteq> 48"
    proof
      assume "c = 48"
      with calculation have "nat_digits (n div 10) = [48]" by simp
      moreover have "n div 10 \<noteq> 0" using False by simp
      ultimately show False
        by (subst (asm) nat_digits.simps [of "n div 10"])
          (auto split: if_splits, metis append_is_Nil_conv list.distinct(1) nat_digits.simps)
    qed
    ultimately show ?thesis using False by (simp add: nat_digits.simps [of n])
  qed
qed

lemma digits_value_snoc: "digits_value (ds @ [d]) = 10 * digits_value ds + (int d - 48)"
  by (simp add: digits_value_def)

lemma digits_value_nat [simp]: "digits_value (nat_digits n) = int n"
proof (induction n rule: nat_digits.induct)
  case (1 n)
  show ?case
  proof (cases "n < 10")
    case True
    then show ?thesis by (simp add: nat_digits.simps [of n] digits_value_def)
  next
    case False
    with 1 have "digits_value (nat_digits n) = 10 * int (n div 10) + int (n mod 10)"
      by (simp add: nat_digits.simps [of n] digits_value_snoc)
    then show ?thesis by (simp add: zdiv_int zmod_int)
  qed
qed

text \<open>What may follow a value.\<close>

definition stop :: "utext \<Rightarrow> bool" where
  "stop rest \<longleftrightarrow> rest = [] \<or> hd rest \<in> {44, 32, 10, 93, 125}"

lemma takeWhile_stop: "stop rest \<Longrightarrow> takeWhile is_digit (t @ rest) = takeWhile is_digit t"
  by (induction t) (cases rest; auto simp: stop_def is_digit_def)+

lemma fraction_stop: "stop rest \<Longrightarrow> fraction (t @ rest) = fraction t"
  using takeWhile_stop [of rest] 
  by (cases t) (cases rest; auto simp: fraction_def stop_def is_digit_def)+

lemma exponent_stop:
  assumes "stop rest"
  shows "exponent (t @ rest) = exponent t"
proof -
  consider "t = []" | c where "t = [c]" | c d r where "t = c # d # r" by (metis list.exhaust)
  then show ?thesis
  proof cases
    case 1
    then show ?thesis using assms by (cases rest) (auto simp: exponent_def stop_def split: list.split)
  next
    case 2
    then show ?thesis
      using assms by (cases rest) (auto simp: exponent_def stop_def is_digit_def)
  next
    case 3
    then show ?thesis using takeWhile_stop [OF assms, of r] takeWhile_stop [OF assms, of "d # r"]
      by (auto simp: exponent_def)
  qed
qed

lemma tails_length: "length (fraction t) \<le> length t" "length (exponent t) \<le> length t"
  using length_takeWhile_le [of is_digit] le_SucI
  by (auto simp: fraction_def exponent_def split: list.split)

lemma scan_number_stop:
  assumes "scan_number t = Some (sg, ds, tail, r)" "stop rest"
  shows "scan_number (t @ rest) = Some (sg, ds, tail, r @ rest)"
proof -
  define b where "b = drop (length sg) t"
  define u where "u = drop (length ds) b"
  from assms(1) have sg: "sg = takeWhile (\<lambda>c. c = 45) (take 1 t)"
    and ds: "ds = (if take 1 b = [48] then [48] else takeWhile is_digit b)" "ds \<noteq> []"
    and tail: "tail = fraction u @ exponent (drop (length (fraction u)) u)"
    and r: "r = drop (length tail) u"
    by (auto simp: scan_number_def Let_def b_def u_def split: if_splits)
  from ds have b: "b \<noteq> []" by auto
  then have t: "t \<noteq> []" by (auto simp: b_def)
  have len: "length sg \<le> length t" "length ds \<le> length b" "length (fraction u) \<le> length u"
      "length tail \<le> length u"
  proof -
    show "length sg \<le> length t" unfolding sg by (metis le_trans length_take length_takeWhile_le min.cobounded1)
    show "length ds \<le> length b" using b unfolding ds(1) by (auto simp: length_takeWhile_le Suc_leI)
    show f: "length (fraction u) \<le> length u" by (rule tails_length)
    show "length tail \<le> length u"
      using f tails_length(2) [of "drop (length (fraction u)) u"] unfolding tail by simp
  qed
  have "takeWhile (\<lambda>c. c = 45) (take 1 (t @ rest)) = sg" using t sg by (cases t) auto
  moreover have "drop (length sg) (t @ rest) = b @ rest" using len(1) by (simp add: b_def)
  moreover have "(if take 1 (b @ rest) = [48] then [48] else takeWhile is_digit (b @ rest)) = ds"
    using b ds(1) takeWhile_stop [OF assms(2), of b] by (cases b) auto
  moreover have "drop (length ds) (b @ rest) = u @ rest" using len(2) by (simp add: u_def)
  moreover have "fraction (u @ rest) @ exponent (drop (length (fraction (u @ rest))) (u @ rest)) = tail"
    using fraction_stop [OF assms(2), of u] exponent_stop [OF assms(2), of "drop (length (fraction u)) u"]
      len(3) by (simp add: tail)
  moreover have "drop (length tail) (u @ rest) = r @ rest" using len(4) by (simp add: r)
  ultimately show ?thesis using ds(2) by (simp only: scan_number_def Let_def if_False)
qed

lemma takeWhile_digits: "(\<And>c. c \<in> set t \<Longrightarrow> is_digit c) \<Longrightarrow> takeWhile is_digit t = t"
  by (simp add: takeWhile_eq_all_conv)

lemma scan_nat: "scan_number (nat_digits n) = Some ([], nat_digits n, [], [])"
proof -
  from nat_digits_first [of n] obtain c cs where c: "nat_digits n = c # cs" "c = 48 \<longrightarrow> cs = []" by blast
  then have "takeWhile is_digit (c # cs) = c # cs"
    by (metis nat_digits_digits takeWhile_digits)
  moreover have "c \<noteq> 45" using nat_digits_digits [of c n] c by (auto simp: is_digit_def)
  ultimately show ?thesis using c by (auto simp: scan_number_def fraction_def exponent_def)
qed

lemma scan_neg: "scan_number (45 # nat_digits n) = Some ([45], nat_digits n, [], [])"
proof -
  from nat_digits_first [of n] obtain c cs where c: "nat_digits n = c # cs" "c = 48 \<longrightarrow> cs = []" by blast
  then have "takeWhile is_digit (c # cs) = c # cs"
    by (metis nat_digits_digits takeWhile_digits)
  then show ?thesis using c by (auto simp: scan_number_def fraction_def exponent_def)
qed

lemma scan_first:
  assumes "scan_number t = Some (sg, ds, tail, r)"
  shows "\<exists>c cs. t = c # cs \<and> (is_digit c \<or> c = 45 \<and> (\<exists>d cs'. cs = d # cs' \<and> is_digit d))"
proof -
  let ?sg = "takeWhile (\<lambda>c. c = 45) (take 1 t)" and ?b = "drop (length (takeWhile (\<lambda>c. c = 45) (take 1 t))) t"
  from assms have "(if take 1 ?b = [48] then [48] else takeWhile is_digit ?b) \<noteq> []"
    by (auto simp: scan_number_def Let_def split: if_splits)
  then have "\<exists>d cs'. ?b = d # cs' \<and> is_digit d"
    by (cases ?b) (auto simp: is_digit_def split: if_splits)
  then show ?thesis by (cases t) (auto split: if_splits)
qed

lemma read_literal_number:
  assumes "scan_number t = Some (sg, ds, tail, [])" "stop rest"
  shows "read_literal rd (t @ rest) =
    Some (if tail = [] then JInt (if sg = [] then digits_value ds else - digits_value ds)
          else (case rd (sg @ ds @ tail) of Some x \<Rightarrow> JFloat x | None \<Rightarrow> JInf (sg \<noteq> [])), rest)"
proof -
  from scan_first [OF assms(1)] obtain c cs where c: "t = c # cs"
    "is_digit c \<or> c = 45 \<and> (\<exists>d cs'. cs = d # cs' \<and> is_digit d)" by blast
  have "\<not> starts w (t @ rest)" if "w \<in> {''null'', ''true'', ''false'', ''NaN'', ''Infinity'', ''-Infinity''}" for w
    using that c by (auto simp: starts_def codes_def is_digit_def)
  then show ?thesis
    using scan_number_stop [OF assms] unfolding read_literal_def by simp
qed

lemma read_literal_int: "stop rest \<Longrightarrow> read_literal rd (int_text i @ rest) = Some (JInt i, rest)"
  using read_literal_number [OF scan_nat, of rest rd "nat i"] read_literal_number [OF scan_neg, of rest rd "nat (- i)"]
  by (simp add: int_text_def)

lemma hex_digit_char [simp]: "n < 16 \<Longrightarrow> hex_digit (hex_char n) = Some n"
  by (auto simp: hex_digit_def hex_char_def is_digit_def)

lemma read_escape: "read_string (escape_char c @ t) = map_option (apfst ((#) c)) (read_string t)"
proof -
  have esc: "unicode_escape (48 # 48 # hex_char (c div 16) # hex_char (c mod 16) # t) = Some (c, t)" if "c < 32"
  proof -
    have "c div 16 < 16" "c mod 16 < 16" "16 * (c div 16) + c mod 16 = c" using that by auto
    then show ?thesis using that by (simp add: unicode_escape_def hex4_def hex_digit_def [of 48] is_digit_def)
  qed
  show ?thesis by (auto simp: escape_char_def simple_escape_def esc)
qed

lemma read_string_text: "read_string (concat (map escape_char s) @ 34 # rest) = Some (s, rest)"
  by (induction s) (simp_all add: read_escape)

text \<open>A printed value starts with a character that is neither white space nor a separator.\<close>

fun floats :: "'k jtree \<Rightarrow> rat list" where
  "floats (JFloat x) = [x]"
| "floats (JArr xs) = concat (map floats xs)"
| "floats (JObj f) = concat (map (\<lambda>p. floats (snd p)) f)"
| "floats v = []"

definition float_ok :: "(utext \<Rightarrow> rat option) \<Rightarrow> (rat \<Rightarrow> utext) \<Rightarrow> rat \<Rightarrow> bool" where
  "float_ok rd wr x =
     (case scan_number (wr x) of
        Some (sg, ds, tail, r) \<Rightarrow> r = [] \<and> tail \<noteq> [] \<and> sg @ ds @ tail = wr x \<and> rd (wr x) = Some x
      | None \<Rightarrow> False)"

abbreviation floats_ok :: "(utext \<Rightarrow> rat option) \<Rightarrow> (rat \<Rightarrow> utext) \<Rightarrow> utext jtree \<Rightarrow> bool" where
  "floats_ok rd wr v \<equiv> list_all (float_ok rd wr) (floats v)"

definition value_start :: "utext \<Rightarrow> bool" where
  "value_start t \<longleftrightarrow> (case t of [] \<Rightarrow> False | c # _ \<Rightarrow> \<not> json_space c \<and> c \<noteq> 93 \<and> c \<noteq> 125 \<and> c \<noteq> 44 \<and> c \<noteq> 58)"

lemma value_start_append [simp]: "value_start t \<Longrightarrow> value_start (t @ r)"
  by (auto simp: value_start_def split: list.splits)

lemma skip_space_start [simp]: "value_start t \<Longrightarrow> skip_space (t @ r) = t @ r" "value_start t \<Longrightarrow> skip_space t = t"
  by (auto simp: value_start_def skip_space_def split: list.splits)

lemma dumps_at_start:
  assumes "floats_ok rd wr v"
  shows "value_start (dumps_at wr ind lv v)"
proof (cases v)
  case (JInt i)
  with nat_digits_first [of "nat i"] nat_digits_digits [of _ "nat i"] show ?thesis
    by (force simp: int_text_def value_start_def json_space_def is_digit_def)
next
  case (JFloat x)
  with assms obtain sg ds tail where "scan_number (wr x) = Some (sg, ds, tail, [])"
    by (auto simp: float_ok_def split: option.splits)
  from scan_first [OF this] JFloat show ?thesis
    by (auto simp: value_start_def json_space_def is_digit_def)
next
  case (JStr s)
  then show ?thesis by (simp add: string_text_def value_start_def json_space_def)
qed (auto simp: value_start_def json_space_def codes_def)

lemma skip_space_simps [simp]:
  "skip_space [] = []"
  "skip_space (c # t) = (if json_space c then skip_space t else c # t)"
  by (simp_all add: skip_space_def)

lemma json_space_simps [simp]:
  "json_space 32" "json_space 10" "\<not> json_space 34" "\<not> json_space 44" "\<not> json_space 58"
  "\<not> json_space 93" "\<not> json_space 125"
  by (simp_all add: json_space_def)

lemma skip_blanks [simp]: "skip_space (replicate n 32 @ t) = skip_space t"
  by (induction n) simp_all

lemma skip_break [simp]: "skip_space (line_break ind lv @ t) = skip_space t"
  by (simp add: line_break_def split: option.split)

lemma item_sep_comma: "\<exists>w. item_sep ind lv = 44 # w \<and> (\<forall>t. skip_space (w @ t) = skip_space t)"
  by (cases ind) (auto simp: item_sep_def line_break_def)

lemma stop_break: "stop (line_break ind lv @ c # t)" if "c = 93 \<or> c = 125"
  using that by (auto simp: stop_def line_break_def split: option.split)

lemma stop_sep: "stop (item_sep ind lv @ t)"
  using item_sep_comma [of ind lv] by (auto simp: stop_def)

text \<open>The readers of the items, for whatever printer the value reader undoes.\<close>

lemma read_elements_text:
  assumes "xs \<noteq> []"
    and "\<And>x n rest. x \<in> set xs \<Longrightarrow> stop rest \<Longrightarrow> 2 * length (D x) + 1 \<le> n \<Longrightarrow>
      read_value rd n (D x @ rest) = Some (x, rest)"
    and "\<And>x. x \<in> set xs \<Longrightarrow> value_start (D x)"
    and "2 * length (join (item_sep ind lv) (map D xs)) + 2 \<le> n"
  shows "read_elements rd n (join (item_sep ind lv) (map D xs) @ line_break ind lv' @ 93 # rest) = Some (xs, rest)"
  using assms
proof (induction xs arbitrary: n)
  case Nil
  then show ?case by simp
next
  case (Cons x xs)
  then obtain m where n: "n = Suc m" by (cases n) auto
  show ?case
  proof (cases "xs = []")
    case True
    have "read_value rd m (D x @ line_break ind lv' @ 93 # rest) = Some (x, line_break ind lv' @ 93 # rest)"
      by (rule Cons.prems(2)) (use Cons.prems(4) True n in \<open>simp_all add: stop_break\<close>)
    then show ?thesis using True n by simp
  next
    case False
    obtain w where w: "item_sep ind lv = 44 # w" "\<And>t. skip_space (w @ t) = skip_space t"
      using item_sep_comma by blast
    let ?more = "join (item_sep ind lv) (map D xs) @ line_break ind lv' @ 93 # rest"
    have len: "length (D x) + 1 + length (join (item_sep ind lv) (map D xs)) \<le>
        length (join (item_sep ind lv) (map D (x # xs)))"
      using False w(1) by (simp add: join_Cons)
    have "read_value rd m (D x @ item_sep ind lv @ ?more) = Some (x, item_sep ind lv @ ?more)"
      by (rule Cons.prems(2)) (use Cons.prems(4) len n in \<open>simp_all add: stop_sep\<close>)
    moreover have "read_elements rd m ?more = Some (xs, rest)"
      by (rule Cons.IH) (use False Cons.prems len n in auto)
    moreover have "skip_space ?more = ?more"
    proof -
      obtain y ys where "xs = y # ys" using False by (cases xs) auto
      with Cons.prems(3) [of y] show ?thesis by (simp add: join_Cons)
    qed
    ultimately show ?thesis
      using False n w by (simp add: join_Cons)
  qed
qed

lemma read_members_text:
  assumes "f \<noteq> []"
    and "\<And>p n rest. p \<in> set f \<Longrightarrow> stop rest \<Longrightarrow> 2 * length (D (snd p)) + 1 \<le> n \<Longrightarrow>
      read_value rd n (D (snd p) @ rest) = Some (snd p, rest)"
    and "\<And>p. p \<in> set f \<Longrightarrow> value_start (D (snd p))"
    and "2 * length (join (item_sep ind lv) (map (\<lambda>p. string_text (fst p) @ [58, 32] @ D (snd p)) f)) + 2 \<le> n"
  shows "read_members rd n (join (item_sep ind lv) (map (\<lambda>p. string_text (fst p) @ [58, 32] @ D (snd p)) f) @
      line_break ind lv' @ 125 # rest) = Some (f, rest)"
  using assms
proof (induction f arbitrary: n)
  case Nil
  then show ?case by simp
next
  case (Cons p f)
  let ?P = "\<lambda>p. string_text (fst p) @ [58, 32] @ D (snd p)"
  from Cons obtain m where n: "n = Suc m" by (cases n) auto
  obtain k x where p: "p = (k, x)" by (cases p)
  have start: "skip_space (32 # D x @ r) = D x @ r" for r
    using skip_space_start(1) [OF Cons.prems(3) [of p, simplified p], of r] p by simp
  have key: "read_string (concat (map escape_char k) @ 34 # r) = Some (k, r)" for r
    by (rule read_string_text)
  have step: "read_members rd n (?P p @ r) =
      (case skip_space r of
         [] \<Rightarrow> None
       | d # ds \<Rightarrow>
           if d = 125 then Some ([(k, x)], ds)
           else if d = 44 then map_option (apfst ((#) (k, x))) (read_members rd m (skip_space ds))
           else None)"
    if "stop r" "2 * length (D x) + 1 \<le> m" for r
  proof -
    have "read_value rd m (D x @ r) = Some (x, r)"
      using Cons.prems(2) [of p r m] that p by simp
    then show ?thesis
      using n start by (simp add: p string_text_def key)
  qed
  show ?case
  proof (cases "f = []")
    case True
    then have "2 * length (D x) + 1 \<le> m" using Cons.prems(4) n p by (simp add: string_text_def)
    with step [OF stop_break, of 125 ind lv' rest] True show ?thesis by (simp add: p)
  next
    case False
    obtain w where w: "item_sep ind lv = 44 # w" "\<And>t. skip_space (w @ t) = skip_space t"
      using item_sep_comma by blast
    let ?more = "join (item_sep ind lv) (map ?P f) @ line_break ind lv' @ 125 # rest"
    have len: "length (D x) + 1 + length (join (item_sep ind lv) (map ?P f)) \<le>
        length (join (item_sep ind lv) (map ?P (p # f)))"
      using False w(1) p by (simp add: join_Cons)
    have "read_members rd m ?more = Some (f, rest)"
      by (rule Cons.IH) (use False Cons.prems len n in auto)
    moreover have "skip_space ?more = ?more"
    proof -
      obtain q qs where "f = q # qs" using False by (cases f) auto
      then show ?thesis by (simp add: join_Cons string_text_def)
    qed
    moreover have "2 * length (D x) + 1 \<le> m" using len Cons.prems(4) n by simp
    note step [OF stop_sep this, of ind lv ?more]
    ultimately show ?thesis
      using False w by (simp add: join_Cons p)
  qed
qed

lemma read_value_number:
  "scan_number t = Some (sg, ds, tail, r) \<Longrightarrow> read_value rd (Suc m) (t @ rest) = read_literal rd (t @ rest)"
  using scan_first [of t sg ds tail r] by (auto simp: is_digit_def)

lemma read_value_scalar:
  "0 < n \<Longrightarrow> c \<noteq> 34 \<Longrightarrow> c \<noteq> 91 \<Longrightarrow> c \<noteq> 123 \<Longrightarrow> read_value rd n (c # t) = read_literal rd (c # t)"
  "0 < n \<Longrightarrow> read_value rd n (34 # t) = map_option (apfst JStr) (read_string t)"
  by (cases n; simp)+

lemma read_dumps_at:
  assumes "floats_ok rd wr v" "stop rest" "2 * length (dumps_at wr ind lv v) + 1 \<le> n"
  shows "read_value rd n (dumps_at wr ind lv v @ rest) = Some (v, rest)"
  using assms
proof (induction v arbitrary: lv n rest)
  case (JArr xs)
  then obtain m where n: "n = Suc m" by (cases n) auto
  show ?case
  proof (cases "xs = []")
    case True
    then show ?thesis using n by simp
  next
    case False
    let ?D = "dumps_at wr ind (Suc lv)"
    let ?items = "join (item_sep ind (Suc lv)) (map ?D xs)"
    have x: "floats_ok rd wr x" if "x \<in> set xs" for x using JArr.prems(1) that by (auto simp: list_all_iff)
    have "read_elements rd m (?items @ line_break ind lv @ 93 # rest) = Some (xs, rest)"
      by (rule read_elements_text [OF False])
        (use JArr.IH JArr.prems x n False in \<open>auto intro: dumps_at_start [OF x]\<close>)
    moreover have "value_start ?items"
    proof -
      obtain y ys where "xs = y # ys" using False by (cases xs) auto
      with x [of y] show ?thesis using dumps_at_start by (simp add: join_Cons)
    qed
    ultimately show ?thesis using False n by (auto simp: value_start_def split: list.splits)
  qed
next
  case (JObj f)
  then obtain m where n: "n = Suc m" by (cases n) auto
  show ?case
  proof (cases "f = []")
    case True
    then show ?thesis using n by simp
  next
    case False
    let ?P = "\<lambda>p. string_text (fst p) @ [58, 32] @ dumps_at wr ind (Suc lv) (snd p)"
    let ?items = "join (item_sep ind (Suc lv)) (map ?P f)"
    have x: "floats_ok rd wr (snd p)" if "p \<in> set f" for p using JObj.prems(1) that by (auto simp: list_all_iff)
    have "read_members rd m (?items @ line_break ind lv @ 125 # rest) = Some (f, rest)"
      by (rule read_members_text [OF False])
        (use JObj.IH JObj.prems x n False in \<open>auto intro: dumps_at_start [OF x]\<close>)
    moreover have "\<exists>r. ?items = 34 # r"
    proof -
      obtain y ys where "f = y # ys" using False by (cases f) auto
      then show ?thesis by (simp add: join_Cons string_text_def)
    qed
    ultimately show ?thesis using False n by auto
  qed
next
  case (JInt i)
  then show ?case
    using read_literal_int [of rest rd i] read_value_number [OF scan_nat] read_value_number [OF scan_neg]
    by (cases n) (auto simp: int_text_def)
next
  case (JFloat x)
  then obtain sg ds tail where s: "scan_number (wr x) = Some (sg, ds, tail, [])" "tail \<noteq> []"
    "sg @ ds @ tail = wr x" "rd (wr x) = Some x"
    by (auto simp: float_ok_def split: option.splits)
  from read_literal_number [OF s(1) JFloat.prems(2)] s
  have "read_literal rd (wr x @ rest) = Some (JFloat x, rest)" by simp
  with read_value_number [OF s(1)] JFloat.prems show ?case by (cases n) auto
qed (auto simp: string_text_def read_string_text codes_def read_value_scalar read_literal_def starts_def)

lemma loads_dumps:
  assumes "floats_ok rd wr v" "stop rest" "skip_space rest = []"
  shows "loads rd (dumps wr ind v @ rest) = Some v"
proof -
  have "read_value rd (2 * length (dumps wr ind v @ rest) + 2) (dumps wr ind v @ rest) = Some (v, rest)"
    unfolding dumps_def by (rule read_dumps_at [OF assms(1,2)]) simp
  moreover have "skip_space (dumps wr ind v @ rest) = dumps wr ind v @ rest"
    unfolding dumps_def by (rule skip_space_start(1)) (rule dumps_at_start [OF assms(1)])
  ultimately show ?thesis using assms(3) by (simp add: loads_def)
qed

section \<open>The fuel is enough\<close>

lemma skip_space_length: "length (skip_space t) \<le> length t"
  by (simp add: skip_space_def length_dropWhile_le)

lemma read_string_length: "read_string t = Some (s, r) \<Longrightarrow> length r < length t"
  by (induction t arbitrary: s r rule: read_string.induct)
    (fastforce split: if_splits list.splits option.splits dest: unicode_escape_length)+

lemma read_literal_length: "read_literal rd t = Some (v, r) \<Longrightarrow> length r < length t"
proof -
  assume a: "read_literal rd t = Some (v, r)"
  show ?thesis
  proof (cases "scan_number t")
    case None
    with a show ?thesis
      by (cases t) (auto simp: read_literal_def starts_def codes_def split: if_splits)
  next
    case (Some q)
    then obtain sg ds tail r' where q: "scan_number t = Some (sg, ds, tail, r')" by (cases q) auto
    then have "length r' < length t"
      using scan_first [OF q] by (auto simp: scan_number_def Let_def split: if_splits)
    moreover have "t \<noteq> []" using scan_first [OF q] by auto
    ultimately show ?thesis
      using a q by (auto simp: read_literal_def split: if_splits option.splits)
  qed
qed

lemma skip_space_Cons_length: "skip_space t = d # ds \<Longrightarrow> length ds < length t"
  using skip_space_length [of t] by simp

lemma read_length:
  "read_value rd n t = Some (v, r) \<Longrightarrow> length r < length t"
  "read_elements rd n t = Some (xs, r) \<Longrightarrow> length r < length t"
  "read_members rd n t = Some (f, r) \<Longrightarrow> length r < length t"
proof (induction n arbitrary: t v xs f r)
  case (Suc n)
  {
    case 1
    then show ?case
      using skip_space_length [of "tl t"] Suc.IH(2,3) read_string_length [of "tl t"] read_literal_length [of rd t v r]
      by (cases t) (fastforce split: if_splits)+
  next
    case 2
    then obtain x r1 d ds where x: "read_value rd n t = Some (x, r1)" "skip_space r1 = d # ds"
      by (auto split: option.splits list.splits)
    have l: "length r1 < length t" "length ds < length r1"
      using Suc.IH(1) [OF x(1)] skip_space_Cons_length [OF x(2)] .
    show ?case
      using 2 x l Suc.IH(2) [of "skip_space ds"] skip_space_length [of ds]
      by (fastforce split: if_splits)
  next
    case 3
    then obtain cs k r1 x r2 d ds where x: "t = 34 # cs" "read_string cs = Some (k, r1)"
      "read_value rd n (skip_space (drop 1 (skip_space r1))) = Some (x, r2)" "skip_space r2 = d # ds"
      by (auto split: option.splits list.splits if_splits)
    have l: "length r1 < length cs" "length r2 < length cs" "length ds < length r2"
      using read_string_length [OF x(2)] Suc.IH(1) [OF x(3)] skip_space_Cons_length [OF x(4)]
        skip_space_length [of "drop 1 (skip_space r1)"] skip_space_length [of r1] by simp_all
    show ?case
      using 3 x l Suc.IH(3) [of "skip_space ds"] skip_space_length [of ds]
      by (fastforce split: if_splits)
  }
qed simp_all

text \<open>Any two amounts of fuel past the bound give the same result: running out never shows.\<close>

lemma read_value_fuel:
  "2 * length t + 1 \<le> n \<Longrightarrow> 2 * length t + 1 \<le> m \<Longrightarrow> read_value rd n t = read_value rd m t"
  "2 * length t + 2 \<le> n \<Longrightarrow> 2 * length t + 2 \<le> m \<Longrightarrow> read_elements rd n t = read_elements rd m t"
  "2 * length t + 2 \<le> n \<Longrightarrow> 2 * length t + 2 \<le> m \<Longrightarrow> read_members rd n t = read_members rd m t"
proof (induction n arbitrary: t m)
  case (Suc n)
  {
    case 1
    then obtain m' where m: "m = Suc m'" by (cases m) auto
    show ?case
    proof (cases t)
      case (Cons c cs)
      have "read_elements rd n (skip_space cs) = read_elements rd m' (skip_space cs)"
        "read_members rd n (skip_space cs) = read_members rd m' (skip_space cs)"
        using 1 m Cons skip_space_length [of cs] by (intro Suc.IH(2,3); simp)+
      then show ?thesis by (simp add: m Cons)
    qed (simp add: m)
  next
    case 2
    then obtain m' where m: "m = Suc m'" by (cases m) auto
    have v: "read_value rd n t = read_value rd m' t" using 2 m by (intro Suc.IH(1)) auto
    have "read_elements rd n (skip_space ds) = read_elements rd m' (skip_space ds)"
      if "read_value rd m' t = Some (x, r)" "skip_space r = d # ds" for x r d ds
      using 2 m read_length(1) [OF that(1)] skip_space_Cons_length [OF that(2)] skip_space_length [of ds]
      by (intro Suc.IH(2)) auto
    then show ?case by (auto simp: m v split: option.split list.split)
  next
    case 3
    then obtain m' where m: "m = Suc m'" by (cases m) auto
    show ?case
    proof (cases t)
      case (Cons c cs)
      have v: "read_value rd n (skip_space (drop 1 (skip_space r))) = read_value rd m' (skip_space (drop 1 (skip_space r)))"
        if "read_string cs = Some (k, r)" for k r
        using 3 m Cons read_string_length [OF that] skip_space_length [of r]
          skip_space_length [of "drop 1 (skip_space r)"]
        by (intro Suc.IH(1)) auto
      have "read_members rd n (skip_space ds) = read_members rd m' (skip_space ds)"
        if "read_string cs = Some (k, r)"
          "read_value rd m' (skip_space (drop 1 (skip_space r))) = Some (x, r')" "skip_space r' = d # ds"
        for k r x r' d ds
        using 3 m Cons read_string_length [OF that(1)] read_length(1) [OF that(2)]
          skip_space_Cons_length [OF that(3)] skip_space_length [of ds] skip_space_length [of r]
          skip_space_length [of "drop 1 (skip_space r)"]
        by (intro Suc.IH(3)) auto
      with v show ?thesis by (auto simp: m Cons split: option.split list.split)
    qed (simp add: m)
  }
qed simp_all

end
