(* ===== verification/ClientConfig.thy ===== *)
theory ClientConfig
  imports JsonText Utf8 "HOL-Library.AList" "HOL-Library.List_Lexorder"
begin

text \<open>
  The structured merge of our entry into a client's JSON configuration,
  \<open>application/client_config/merge_json.py\<close>. A dictionary is its list of items in insertion
  order: assignment is \<open>AList.update\<close>, which keeps the place of a known key and appends a
  new one, and removal is \<open>AList.delete\<close>.
\<close>

type_synonym dict = "(utext \<times> utext jtree) list"

record entry_payload =
  ep_command :: utext
  ep_args :: "utext list"
  ep_env :: "(utext \<times> utext) list"

definition SERVERS_KEY :: utext where
  "SERVERS_KEY = codes ''mcpServers''"

definition MANAGED_KEYS :: "utext list" where
  "MANAGED_KEYS = map codes [''command'', ''args'', ''env'']"

definition payload_entry :: "entry_payload \<Rightarrow> dict" where
  "payload_entry p =
     [(codes ''command'', JStr (ep_command p)), (codes ''args'', JArr (map JStr (ep_args p)))] @
     (if ep_env p = [] then []
      else [(codes ''env'', JObj (fold (\<lambda>(k, v). AList.update k (JStr v)) (ep_env p) []))])"

section \<open>Parsing, fail closed\<close>

text \<open>\<open>_reject_duplicates\<close> runs on every object of the document.\<close>

fun no_duplicates :: "utext jtree \<Rightarrow> bool" where
  "no_duplicates (JArr xs) = list_all no_duplicates xs"
| "no_duplicates (JObj f) = (distinct (map fst f) \<and> list_all (\<lambda>p. no_duplicates (snd p)) f)"
| "no_duplicates v = True"

definition parse_config :: "(utext \<Rightarrow> rat option) \<Rightarrow> utext \<Rightarrow> dict outcome" where
  "parse_config rd original =
     (if take 1 original = [0xFEFF] then Inl (UnsupportedConfigError ''target json has a BOM; clients reject it too'')
      else if strip original = [] then Inl (UnsupportedConfigError ''target json is empty'')
      else
        (case loads rd original of
           None \<Rightarrow> Inl (UnsupportedConfigError ''target json does not parse'')
         | Some v \<Rightarrow>
             if \<not> no_duplicates v then Inl (UnsupportedConfigError ''target json has a duplicate key'')
             else (case v of JObj doc \<Rightarrow> Inr doc
                   | _ \<Rightarrow> Inl (UnsupportedConfigError ''target json root is not an object''))))"

section \<open>Equality of parsed values\<close>

text \<open>
  Python's \<open>==\<close>: numbers compare across types, dictionaries without regard to the order of
  their items, and a NaN is not equal to the NaN of another parse.
\<close>

fun py_eq :: "utext jtree \<Rightarrow> utext jtree \<Rightarrow> bool" where
  "py_eq JNull w = (w = JNull)"
| "py_eq (JStr s) w = (w = JStr s)"
| "py_eq JNan w = False"
| "py_eq (JInf b) w = (w = JInf b)"
| "py_eq (JBool b) w = (number (Some w) = number (Some (JBool b :: utext jtree)))"
| "py_eq (JInt i) w = (number (Some w) = number (Some (JInt i :: utext jtree)))"
| "py_eq (JFloat x) w = (number (Some w) = number (Some (JFloat x :: utext jtree)))"
| "py_eq (JArr xs) w = (case w of JArr ys \<Rightarrow> list_all2 py_eq xs ys | _ \<Rightarrow> False)"
| "py_eq (JObj f) w =
     (case w of
        JObj g \<Rightarrow> length f = length g \<and>
          list_all (\<lambda>p. case map_of g (fst p) of None \<Rightarrow> False | Some y \<Rightarrow> py_eq (snd p) y) f
      | _ \<Rightarrow> False)"

section \<open>The merge\<close>

text \<open>\<open>disabled: false\<close> reads as an absent field.\<close>

definition effective_entry :: "dict \<Rightarrow> dict" where
  "effective_entry entry = filter (\<lambda>p. \<not> (fst p = codes ''disabled'' \<and> snd p = JBool False)) entry"

definition servers_of :: "dict \<Rightarrow> dict option" where
  "servers_of doc = (case map_of doc SERVERS_KEY of Some (JObj sv) \<Rightarrow> Some sv | _ \<Rightarrow> None)"

definition read_entry :: "(utext \<Rightarrow> rat option) \<Rightarrow> utext \<Rightarrow> utext \<Rightarrow> dict option outcome" where
  "read_entry rd original key =
     (case parse_config rd original of
        Inl e \<Rightarrow> Inl e
      | Inr doc \<Rightarrow>
          Inr (case servers_of doc of
                 None \<Rightarrow> None
               | Some sv \<Rightarrow> (case map_of sv key of Some (JObj entry) \<Rightarrow> Some (effective_entry entry) | _ \<Rightarrow> None)))"

text \<open>The document without our entry; a registry left empty counts as none.\<close>

definition prune :: "dict \<Rightarrow> utext \<Rightarrow> dict" where
  "prune doc key =
     (case servers_of doc of
        None \<Rightarrow> doc
      | Some sv \<Rightarrow>
          if AList.delete key sv = [] then AList.delete SERVERS_KEY doc
          else AList.update SERVERS_KEY (JObj (AList.delete key sv)) doc)"

definition server_keys :: "dict \<Rightarrow> utext list" where
  "server_keys doc = (case servers_of doc of None \<Rightarrow> [] | Some sv \<Rightarrow> map fst sv)"

definition prove_intact :: "dict \<Rightarrow> dict \<Rightarrow> utext \<Rightarrow> bool \<Rightarrow> unit outcome" where
  "prove_intact before after key removing =
     (let before_keys = server_keys before;
          expected_keys =
            (if removing then filter (\<lambda>n. n \<noteq> key) before_keys
             else if key \<in> set before_keys then before_keys else before_keys @ [key])
      in if \<not> py_eq (JObj (prune before key)) (JObj (prune after key))
         then Inl (ConfigWriteError ''something outside the entry changed'')
         else if server_keys after \<noteq> expected_keys then Inl (ConfigWriteError ''registry order changed'')
         else Inr ())"

definition prove_merge ::
  "(utext \<Rightarrow> rat option) \<Rightarrow> utext \<Rightarrow> utext \<Rightarrow> utext \<Rightarrow> dict \<Rightarrow> unit outcome" where
  "prove_merge rd original_text merged_text key expected =
     (case parse_config rd original_text of
        Inl e \<Rightarrow> Inl e
      | Inr before \<Rightarrow>
         (case parse_config rd merged_text of
            Inl e \<Rightarrow> Inl e
          | Inr after \<Rightarrow>
              if (case servers_of after of None \<Rightarrow> False
                  | Some sv \<Rightarrow> (case map_of sv key of None \<Rightarrow> False | Some c \<Rightarrow> py_eq c (JObj expected)))
              then prove_intact before after key False
              else Inl (ConfigWriteError ''entry does not equal the target payload'')))"

definition prove_removal :: "(utext \<Rightarrow> rat option) \<Rightarrow> utext \<Rightarrow> utext \<Rightarrow> utext \<Rightarrow> unit outcome" where
  "prove_removal rd original_text merged_text key =
     (case parse_config rd original_text of
        Inl e \<Rightarrow> Inl e
      | Inr before \<Rightarrow>
         (case parse_config rd merged_text of
            Inl e \<Rightarrow> Inl e
          | Inr after \<Rightarrow>
              if (case servers_of after of None \<Rightarrow> False | Some sv \<Rightarrow> key \<in> set (map fst sv))
              then Inl (ConfigWriteError ''entry still present'')
              else prove_intact before after key True))"

text \<open>The write: assign our key, print the document, prove the result.\<close>

definition write_entry ::
  "(utext \<Rightarrow> rat option) \<Rightarrow> (rat \<Rightarrow> utext) \<Rightarrow> utext \<Rightarrow> dict \<Rightarrow> dict \<Rightarrow> utext \<Rightarrow> dict \<Rightarrow> nat option \<Rightarrow>
   (utext \<times> bool) outcome" where
  "write_entry rd wr original doc sv key expected indent =
     (let merged_text = dumps wr indent
            (JObj (AList.update SERVERS_KEY (JObj (AList.update key (JObj expected) sv)) doc)) @ [10]
      in case prove_merge rd original merged_text key expected of
           Inl e \<Rightarrow> Inl e
         | Inr _ \<Rightarrow> Inr (merged_text, True))"

definition merge_json ::
  "(utext \<Rightarrow> rat option) \<Rightarrow> (rat \<Rightarrow> utext) \<Rightarrow> utext \<Rightarrow> utext \<Rightarrow> entry_payload \<Rightarrow> nat option \<Rightarrow> bool \<Rightarrow>
   (utext \<times> bool) outcome" where
  "merge_json rd wr original key payload indent force =
     (case parse_config rd original of
        Inl e \<Rightarrow> Inl e
      | Inr doc \<Rightarrow>
         (let servers = (case map_of doc SERVERS_KEY of None \<Rightarrow> JObj [] | Some JNull \<Rightarrow> JObj [] | Some s \<Rightarrow> s);
              expected = payload_entry payload
          in case servers of
               JObj sv \<Rightarrow>
                 (let write = write_entry rd wr original doc sv key expected indent
                  in case map_of sv key of
                       None \<Rightarrow> write
                     | Some JNull \<Rightarrow> write
                     | Some (JObj entry) \<Rightarrow>
                         if py_eq (JObj entry) (JObj expected) then Inr (original, False)
                         else if py_eq (JObj (effective_entry entry)) (JObj expected) then Inr (original, False)
                         else
                           (let extra = sort (filter (\<lambda>k. k \<notin> set MANAGED_KEYS) (map fst (effective_entry entry)))
                            in if extra \<noteq> [] \<and> \<not> force then Inl (EntryConflictError extra) else write)
                     | Some _ \<Rightarrow> Inl (UnsupportedConfigError ''existing entry is not an object''))
             | _ \<Rightarrow> Inl (UnsupportedConfigError ''mcpServers is not an object'')))"

definition remove_entry_json ::
  "(utext \<Rightarrow> rat option) \<Rightarrow> (rat \<Rightarrow> utext) \<Rightarrow> utext \<Rightarrow> utext \<Rightarrow> nat option \<Rightarrow> (utext \<times> bool) outcome" where
  "remove_entry_json rd wr original key indent =
     (case parse_config rd original of
        Inl e \<Rightarrow> Inl e
      | Inr doc \<Rightarrow>
         (case servers_of doc of
            None \<Rightarrow> Inr (original, False)
          | Some sv \<Rightarrow>
              if key \<notin> set (map fst sv) then Inr (original, False)
              else
               (let merged_text = dumps wr indent (JObj (AList.update SERVERS_KEY (JObj (AList.delete key sv)) doc)) @ [10]
                in case prove_removal rd original merged_text key of
                     Inl e \<Rightarrow> Inl e
                   | Inr _ \<Rightarrow> Inr (merged_text, True))))"

section \<open>Documents the writer renders faithfully\<close>

text \<open>
  No NaN, no duplicate key, and every float is read back from its own text, which is what
  Python documents of \<open>repr\<close>.
\<close>

fun faithful :: "(utext \<Rightarrow> rat option) \<Rightarrow> (rat \<Rightarrow> utext) \<Rightarrow> utext jtree \<Rightarrow> bool" where
  "faithful rd wr (JFloat x) = float_ok rd wr x"
| "faithful rd wr JNan = False"
| "faithful rd wr (JArr xs) = list_all (faithful rd wr) xs"
| "faithful rd wr (JObj f) = (distinct (map fst f) \<and> list_all (\<lambda>p. faithful rd wr (snd p)) f)"
| "faithful rd wr v = True"

lemma faithful_no_duplicates: "faithful rd wr v \<Longrightarrow> no_duplicates v"
  by (induction v) (auto simp: list_all_iff)

lemma faithful_floats: "faithful rd wr v \<Longrightarrow> floats_ok rd wr v"
  by (induction v) (auto simp: list_all_iff)

lemma py_eq_refl: "faithful rd wr v \<Longrightarrow> py_eq v v"
proof (induction v)
  case (JObj f)
  have "py_eq (snd p) (snd p)" if "p \<in> set f" for p
    using JObj.IH [of p "snd p"] JObj.prems that by (cases p) (auto simp: list_all_iff)
  moreover have "map_of f (fst p) = Some (snd p)" if "p \<in> set f" for p
    using JObj.prems that by simp
  ultimately show ?case by (simp add: list_all_iff)
qed (auto simp: list_all_iff list_all2_same)

lemma set_update_subset: "set (AList.update k v al) \<subseteq> insert (k, v) (set al)"
  by (induction al) auto

lemma faithful_update:
  "faithful rd wr (JObj d) \<Longrightarrow> faithful rd wr v \<Longrightarrow> faithful rd wr (JObj (AList.update k v d))"
  using set_update_subset [of k v d] by (auto simp: list_all_iff AList.distinct_update)

lemma faithful_delete: "faithful rd wr (JObj d) \<Longrightarrow> faithful rd wr (JObj (AList.delete k d))"
  by (auto simp: list_all_iff AList.delete_eq intro: distinct_map_filterI)

lemma faithful_member: "faithful rd wr (JObj d) \<Longrightarrow> map_of d k = Some v \<Longrightarrow> faithful rd wr v"
  by (auto simp: list_all_iff dest!: map_of_SomeD)

lemma faithful_env: "faithful rd wr (JObj acc) \<Longrightarrow>
    faithful rd wr (JObj (fold (\<lambda>(k, v). AList.update k (JStr v)) env acc))"
proof (induction env arbitrary: acc)
  case (Cons kv env)
  show ?case
    using Cons.IH [OF faithful_update [OF Cons.prems, of "JStr (snd kv)" "fst kv"]]
    by (cases kv) simp
qed simp

lemma faithful_payload: "faithful rd wr (JObj (payload_entry p))"
  using faithful_env [of rd wr "[]" "ep_env p"]
  by (auto simp: payload_entry_def codes_def list_all_iff)

lemma faithful_servers: "faithful rd wr (JObj doc) \<Longrightarrow> servers_of doc = Some sv \<Longrightarrow> faithful rd wr (JObj sv)"
  by (auto simp: servers_of_def split: option.splits jtree.splits dest: faithful_member simp del: faithful.simps(4))

lemma faithful_prune: "faithful rd wr (JObj doc) \<Longrightarrow> faithful rd wr (JObj (prune doc key))"
  by (auto simp: prune_def intro!: faithful_update faithful_delete dest: faithful_servers
      split: option.split simp del: faithful.simps(4))

section \<open>The printed document parses back\<close>

lemma parse_dumps:
  assumes "faithful rd wr (JObj doc)"
  shows "parse_config rd (dumps wr indent (JObj doc) @ [10]) = Inr doc"
proof -
  have "loads rd (dumps wr indent (JObj doc) @ [10]) = Some (JObj doc)"
    by (rule loads_dumps) (use faithful_floats [OF assms] in \<open>simp_all add: stop_def\<close>)
  moreover obtain t where t: "dumps wr indent (JObj doc) @ [10] = 123 # t"
    by (cases "doc = []") (simp_all add: dumps_def)
  moreover have "strip (123 # t) \<noteq> []"
    by (simp add: strip_def lstrip_def is_space_def dropWhile_eq_Nil_conv)
  ultimately show ?thesis
    using faithful_no_duplicates [OF assms] by (simp add: parse_config_def del: no_duplicates.simps)
qed

lemma servers_of_update [simp]: "servers_of (AList.update SERVERS_KEY (JObj sv) doc) = Some sv"
  by (simp add: servers_of_def AList.update_conv)

lemma prune_update:
  assumes "servers_of doc = Some sv \<or> map_of doc SERVERS_KEY = None \<and> sv = []"
  shows "prune (AList.update SERVERS_KEY (JObj (AList.update key e sv)) doc) key = prune doc key"
proof -
  have d: "AList.delete key (AList.update key e sv) = AList.delete key sv"
    by (rule AList.delete_update_same)
  from assms show ?thesis
  proof
    assume "servers_of doc = Some sv"
    then show ?thesis by (simp add: prune_def d AList.delete_update_same)
  next
    assume a: "map_of doc SERVERS_KEY = None \<and> sv = []"
    then have "SERVERS_KEY \<notin> fst ` set doc" by (simp add: map_of_eq_None_iff)
    with a show ?thesis by (simp add: prune_def servers_of_def AList.update_conv AList.delete_update_same)
  qed
qed

lemma prove_intact_ok:
  assumes "faithful rd wr (JObj before)" "prune after key = prune before key"
    and "server_keys after = (if removing then filter (\<lambda>n. n \<noteq> key) (server_keys before)
      else if key \<in> set (server_keys before) then server_keys before else server_keys before @ [key])"
  shows "prove_intact before after key removing = Inr ()"
  using assms py_eq_refl [OF faithful_prune [OF assms(1)]] by (simp add: prove_intact_def Let_def del: py_eq.simps)

section \<open>Merging and removing\<close>

lemma payload_keys: "fst p = codes ''disabled'' \<Longrightarrow> p \<notin> set (payload_entry payload)"
  by (auto simp: payload_entry_def codes_def split: if_splits)

lemma effective_payload [simp]: "effective_entry (payload_entry payload) = payload_entry payload"
  unfolding effective_entry_def by (rule filter_True) (use payload_keys in blast)

lemma effective_entry_eq:
  assumes "py_eq (JObj entry) (JObj (payload_entry payload))"
  shows "effective_entry entry = entry"
  unfolding effective_entry_def
proof (rule filter_True, intro ballI)
  fix p assume "p \<in> set entry"
  with assms have "map_of (payload_entry payload) (fst p) \<noteq> None"
    by (auto simp: list_all_iff split: option.splits)
  then obtain v where "(fst p, v) \<in> set (payload_entry payload)" by (auto dest: map_of_SomeD)
  then show "\<not> (fst p = codes ''disabled'' \<and> snd p = JBool False)"
    using payload_keys [of "(fst p, v)" payload] by auto
qed

abbreviation with_entry :: "dict \<Rightarrow> dict \<Rightarrow> utext \<Rightarrow> dict \<Rightarrow> dict" where
  "with_entry doc sv key expected \<equiv>
     AList.update SERVERS_KEY (JObj (AList.update key (JObj expected) sv)) doc"

lemma server_keys_with_entry:
  assumes "servers_of doc = Some sv \<or> map_of doc SERVERS_KEY = None \<and> sv = []"
  shows "server_keys (with_entry doc sv key e) =
    (if key \<in> set (server_keys doc) then server_keys doc else server_keys doc @ [key])"
  using assms
proof
  assume "servers_of doc = Some sv"
  then show ?thesis by (simp add: server_keys_def AList.update_keys)
next
  assume "map_of doc SERVERS_KEY = None \<and> sv = []"
  moreover from this have "servers_of doc = None" by (simp add: servers_of_def)
  ultimately show ?thesis by (simp add: server_keys_def)
qed

lemma write_entry_ok:
  assumes "parse_config rd original = Inr doc" "faithful rd wr (JObj doc)"
    and sv: "servers_of doc = Some sv \<or> map_of doc SERVERS_KEY = None \<and> sv = []"
    and "faithful rd wr (JObj expected)"
  obtains out where "write_entry rd wr original doc sv key expected indent = Inr (out, True)"
    "parse_config rd out = Inr (with_entry doc sv key expected)"
proof -
  have "faithful rd wr (JObj sv)" using sv faithful_servers [OF assms(2)] by auto
  then have "faithful rd wr (JObj (with_entry doc sv key expected))"
    using assms(2,4) by (intro faithful_update)
  note parsed = parse_dumps [OF this, of indent]
  have "prove_merge rd original (dumps wr indent (JObj (with_entry doc sv key expected)) @ [10]) key expected = Inr ()"
    using assms(1) parsed py_eq_refl [OF assms(4)]
      prove_intact_ok [OF assms(2) prune_update [OF sv], where removing = False] server_keys_with_entry [OF sv]
    by (simp add: prove_merge_def AList.update_conv del: py_eq.simps)
  with parsed that show thesis by (simp add: write_entry_def)
qed

lemma merge_json_outcome:
  assumes "parse_config rd original = Inr doc" "faithful rd wr (JObj doc)"
    and "map_of doc SERVERS_KEY \<noteq> Some JNull"
  shows "case merge_json rd wr original key payload indent force of
      Inl e \<Rightarrow> (\<exists>m. e = UnsupportedConfigError m) \<or> (\<exists>ks. e = EntryConflictError ks \<and> ks \<noteq> [] \<and> \<not> force)
    | Inr (text, changed) \<Rightarrow>
        (\<exists>doc' entry. parse_config rd text = Inr doc' \<and> prune doc' key = prune doc key \<and>
           server_keys doc' = (if key \<in> set (server_keys doc) then server_keys doc else server_keys doc @ [key]) \<and>
           read_entry rd text key = Inr (Some entry) \<and>
           py_eq (JObj entry) (JObj (payload_entry payload)) \<and> (changed \<or> text = original)) \<and>
        merge_json rd wr text key payload indent force = Inr (text, False)"
proof -
  let ?e = "payload_entry payload"
  let ?merge = "merge_json rd wr original key payload indent force"
  have refl: "py_eq (JObj ?e) (JObj ?e)" by (rule py_eq_refl) (rule faithful_payload [of rd wr])
  have written: ?thesis
    if sv: "servers_of doc = Some sv \<or> map_of doc SERVERS_KEY = None \<and> sv = []"
      and m: "?merge = write_entry rd wr original doc sv key ?e indent" for sv
  proof -
    obtain out where t: "?merge = Inr (out, True)" "parse_config rd out = Inr (with_entry doc sv key ?e)"
      using write_entry_ok [OF assms(1,2) sv faithful_payload] m by metis
    have "merge_json rd wr out key payload indent force = Inr (out, False)"
      using refl by (simp add: merge_json_def t(2) AList.update_conv del: py_eq.simps)
    moreover have "read_entry rd out key = Inr (Some ?e)"
      by (simp add: read_entry_def t(2) AList.update_conv)
    ultimately show ?thesis
      using refl t prune_update [OF sv] server_keys_with_entry [OF sv] by (simp del: py_eq.simps)
  qed
  have kept: ?thesis
    if "servers_of doc = Some sv" "map_of sv key = Some (JObj entry)"
      "py_eq (JObj (effective_entry entry)) (JObj ?e)" "?merge = Inr (original, False)" for sv entry
  proof -
    have "key \<in> set (server_keys doc)"
      using that(1,2) by (auto simp: server_keys_def dest!: map_of_SomeD intro: rev_image_eqI)
    then show ?thesis
      using that assms(1) by (simp add: read_entry_def del: py_eq.simps)
  qed
  show ?thesis
  proof (cases "map_of doc SERVERS_KEY")
    case None
    then show ?thesis using assms(1) by (intro written [of "[]"]) (simp_all add: merge_json_def)
  next
    case (Some s)
    show ?thesis
    proof (cases s)
      case (JObj sv)
      with Some have sv: "servers_of doc = Some sv" by (simp add: servers_of_def)
      consider "map_of sv key = None \<or> map_of sv key = Some JNull"
        | entry where "map_of sv key = Some (JObj entry)"
        | "\<exists>m. ?merge = Inl (UnsupportedConfigError m)"
      proof (cases "map_of sv key")
        case (Some c)
        then show thesis
          using that assms(1) \<open>map_of doc SERVERS_KEY = Some s\<close> JObj
          by (cases c) (auto simp: merge_json_def)
      qed (use that(1) in blast)
      then show ?thesis
      proof cases
        case 1
        then show ?thesis using assms(1) Some JObj sv by (intro written [of sv]) (auto simp: merge_json_def)
      next
        case (2 entry)
        let ?eff = "effective_entry entry"
        let ?extra = "sort (filter (\<lambda>k. k \<notin> set MANAGED_KEYS) (map fst ?eff))"
        have m: "?merge =
            (if py_eq (JObj entry) (JObj ?e) then Inr (original, False)
             else if py_eq (JObj ?eff) (JObj ?e) then Inr (original, False)
             else if ?extra \<noteq> [] \<and> \<not> force then Inl (EntryConflictError ?extra)
             else write_entry rd wr original doc sv key ?e indent)"
          using assms(1) Some JObj 2 by (simp add: merge_json_def Let_def del: py_eq.simps)
        show ?thesis
        proof (cases "py_eq (JObj ?eff) (JObj ?e)")
          case True
          then show ?thesis using sv 2 m by (intro kept) auto
        next
          case False
          then have "\<not> py_eq (JObj entry) (JObj ?e)" using effective_entry_eq by metis
          with False m have m': "?merge = (if ?extra \<noteq> [] \<and> \<not> force then Inl (EntryConflictError ?extra)
              else write_entry rd wr original doc sv key ?e indent)" by (simp only: if_False)
          show ?thesis
          proof (cases "?extra \<noteq> [] \<and> \<not> force")
            case True
            with m' have "?merge = Inl (EntryConflictError ?extra)" by (simp only: if_True simp_thms)
            with True show ?thesis by (simp only: sum.case) blast
          next
            case False
            with m' have "?merge = write_entry rd wr original doc sv key ?e indent" by (simp only: if_False)
            with sv show ?thesis by (intro written [of sv]) simp_all
          qed
        qed
      next
        case 3
        then show ?thesis by auto
      qed
    qed (use assms Some in \<open>simp_all add: merge_json_def\<close>)
  qed
qed

text \<open>
  A registry that is \<open>null\<close>: the merge replaces it by an object, and the proof then compares
  a document that has the key with one whose emptied registry was dropped.
\<close>

lemma merge_json_null:
  assumes "parse_config rd original = Inr doc" "faithful rd wr (JObj doc)"
    and "map_of doc SERVERS_KEY = Some JNull"
  shows "merge_json rd wr original key payload indent force =
    Inl (ConfigWriteError ''something outside the entry changed'')"
proof -
  let ?e = "payload_entry payload"
  have "faithful rd wr (JObj (with_entry doc [] key ?e))"
    using assms(2) faithful_payload by (intro faithful_update) auto
  note parsed = parse_dumps [OF this, of indent]
  have "servers_of doc = None" using assms(3) by (simp add: servers_of_def)
  then have "\<not> py_eq (JObj (prune doc key)) (JObj (prune (with_entry doc [] key ?e) key))"
    using assms(3) map_of_SomeD [OF assms(3)]
    by (auto simp: prune_def AList.delete_update_same list_all_iff AList.delete_conv intro!: bexI)
  then have "prove_merge rd original (dumps wr indent (JObj (with_entry doc [] key ?e)) @ [10]) key ?e =
      Inl (ConfigWriteError ''something outside the entry changed'')"
    using assms(1) parsed py_eq_refl [OF faithful_payload [of rd wr payload]]
    by (simp add: prove_merge_def prove_intact_def Let_def del: py_eq.simps)
  then show ?thesis using assms(1,3) by (simp add: merge_json_def write_entry_def)
qed

text \<open>
  C34. The merge touches only our entry, and its proof fails in one case only. For every
  document the writer renders faithfully, a merge that succeeds leaves a text that parses,
  in which our entry reads as the wanted payload, everything outside it is unchanged and the
  registry keeps its order; a second merge changes nothing. It is refused only for an
  unsupported shape, or, unless forced, for unmanaged keys in our entry; the proof after the
  merge never fails, except on a registry that is \<open>null\<close>, where it always does.
\<close>
theorem merge_touches_only_our_entry:
  assumes "parse_config rd original = Inr doc" "faithful rd wr (JObj doc)"
  shows "if map_of doc SERVERS_KEY = Some JNull
    then merge_json rd wr original key payload indent force =
      Inl (ConfigWriteError ''something outside the entry changed'')
    else (case merge_json rd wr original key payload indent force of
      Inl e \<Rightarrow> (\<exists>m. e = UnsupportedConfigError m) \<or> (\<exists>ks. e = EntryConflictError ks \<and> ks \<noteq> [] \<and> \<not> force)
    | Inr (text, changed) \<Rightarrow>
        (\<exists>doc' entry. parse_config rd text = Inr doc' \<and> prune doc' key = prune doc key \<and>
           server_keys doc' = (if key \<in> set (server_keys doc) then server_keys doc else server_keys doc @ [key]) \<and>
           read_entry rd text key = Inr (Some entry) \<and>
           py_eq (JObj entry) (JObj (payload_entry payload)) \<and> (changed \<or> text = original)) \<and>
        merge_json rd wr text key payload indent force = Inr (text, False))"
  using assms merge_json_null merge_json_outcome by (cases "map_of doc SERVERS_KEY = Some JNull") simp_all

text \<open>
  Removing takes out our entry and nothing else, never fails on such a document, and leaves
  the text alone when there is nothing to remove.
\<close>

lemma prune_delete:
  assumes "servers_of doc = Some sv"
  shows "prune (AList.update SERVERS_KEY (JObj (AList.delete key sv)) doc) key = prune doc key"
  using assms by (simp add: prune_def AList.delete_idem AList.delete_update_same)

lemma remove_entry_outcome:
  assumes "parse_config rd original = Inr doc" "faithful rd wr (JObj doc)"
  shows "\<exists>out doc'. remove_entry_json rd wr original key indent = Inr (out, key \<in> set (server_keys doc)) \<and>
    (key \<in> set (server_keys doc) \<or> out = original) \<and>
    parse_config rd out = Inr doc' \<and> prune doc' key = prune doc key \<and>
    server_keys doc' = filter (\<lambda>n. n \<noteq> key) (server_keys doc) \<and> read_entry rd out key = Inr None"
proof (cases "key \<in> set (server_keys doc)")
  case False
  then have "remove_entry_json rd wr original key indent = Inr (original, False)" "read_entry rd original key = Inr None"
    using assms(1)
    by (auto simp: remove_entry_json_def read_entry_def server_keys_def map_of_eq_None_iff [THEN iffD2]
        split: option.splits)
  moreover have "filter (\<lambda>n. n \<noteq> key) (server_keys doc) = server_keys doc"
    using False by (intro filter_True) auto
  ultimately show ?thesis using assms(1) False by auto
next
  case True
  then obtain sv where sv: "servers_of doc = Some sv" "key \<in> set (map fst sv)"
    by (cases "servers_of doc") (simp_all add: server_keys_def)
  let ?doc' = "AList.update SERVERS_KEY (JObj (AList.delete key sv)) doc"
  have "faithful rd wr (JObj ?doc')"
    using assms(2) faithful_servers [OF assms(2) sv(1)] by (intro faithful_update faithful_delete)
  note parsed = parse_dumps [OF this, of indent]
  have keys: "server_keys ?doc' = filter (\<lambda>n. n \<noteq> key) (server_keys doc)"
    by (simp add: server_keys_def sv(1) AList.delete_keys removeAll_filter_not_eq eq_commute)
  have gone: "key \<notin> fst ` set (AList.delete key sv)" by (auto simp: AList.delete_eq)
  have "prove_removal rd original (dumps wr indent (JObj ?doc') @ [10]) key = Inr ()"
    using assms(1) parsed gone prove_intact_ok [OF assms(2) prune_delete [OF sv(1)], where removing = True] keys
    by (simp add: prove_removal_def)
  then have "remove_entry_json rd wr original key indent = Inr (dumps wr indent (JObj ?doc') @ [10], True)"
    using assms(1) sv by (simp add: remove_entry_json_def)
  moreover have "read_entry rd (dumps wr indent (JObj ?doc') @ [10]) key = Inr None"
    using gone by (simp add: read_entry_def parsed map_of_eq_None_iff [THEN iffD2])
  ultimately show ?thesis using True parsed keys prune_delete [OF sv(1)] by auto
qed

definition sample_doc :: dict where
  "sample_doc = [(codes ''theme'', JStr (codes ''dark'')),
     (SERVERS_KEY, JObj [(codes ''other'', JObj [(codes ''url'', JInt 7)])])]"

definition sample_payload :: entry_payload where
  "sample_payload = \<lparr>ep_command = codes ''python'', ep_args = [codes ''-m''], ep_env = []\<rparr>"

lemma sample_faithful: "faithful rd wr (JObj sample_doc)"
  by (simp add: sample_doc_def SERVERS_KEY_def codes_def)

lemma sample_parsed: "parse_config rd (dumps wr ind (JObj sample_doc) @ [10]) = Inr sample_doc"
  by (rule parse_dumps [OF sample_faithful])

lemma sample_registry:
  "map_of sample_doc SERVERS_KEY = Some (JObj [(codes ''other'', JObj [(codes ''url'', JInt 7)])])"
  "server_keys sample_doc = [codes ''other'']" "codes ''evoblue-video'' \<noteq> codes ''other''"
  by (simp_all add: sample_doc_def server_keys_def servers_of_def SERVERS_KEY_def codes_def)

theorem merge_touches_only_our_entry_witness:
  "case merge_json (\<lambda>_. None) (\<lambda>_. []) (dumps (\<lambda>_. []) (Some 2) (JObj sample_doc) @ [10])
      (codes ''evoblue-video'') sample_payload (Some 2) False of
    Inl e \<Rightarrow> (\<exists>m. e = UnsupportedConfigError m) \<or> (\<exists>ks. e = EntryConflictError ks \<and> ks \<noteq> [])
  | Inr (text, changed) \<Rightarrow> (\<exists>doc'. parse_config (\<lambda>_. None) text = Inr doc' \<and>
      server_keys doc' = [codes ''other'', codes ''evoblue-video''])"
  using merge_touches_only_our_entry [OF sample_parsed [where wr = "\<lambda>_. []" and ind = "Some 2"] sample_faithful,
      of "\<lambda>_. None" "\<lambda>_. []" "codes ''evoblue-video''" sample_payload "Some 2" False]
  unfolding sample_registry if_not_P [OF jtree.distinct(6)]
  by (auto simp: sample_registry simp del: py_eq.simps split: sum.splits)

end
