(* ===== verification/ReportFiles.thy ===== *)
theory ReportFiles
  imports JsonText Platforms
begin

text \<open>
  A report as a Markdown file: the document of \<open>reports/schema.py\<close>, its text by
  \<open>reports/renderer.py\<close>, and the strict reader of \<open>reports/parser.py\<close>. A file is the list of
  its bytes. What the standard library does from tables is an argument: the conversions
  between a datetime and its text, \<open>str.lower\<close>, the decimal digits past ASCII, and the two
  host checks of \<open>urlsplit\<close>. The type of a datetime stays open.
\<close>

record 'dt pylib =
  isoformat :: "'dt \<Rightarrow> utext"
  fromisoformat :: "utext \<Rightarrow> 'dt option"
  has_offset :: "'dt \<Rightarrow> bool"
  lib_lower :: "utext \<Rightarrow> utext"
  lib_decimal :: "nat \<Rightarrow> nat option"
  lib_bad_bracket :: "utext \<Rightarrow> bool"
  lib_bad_nfkc :: "utext \<Rightarrow> bool"

section \<open>The document\<close>

record 'dt report_doc =
  dc_schema_version :: int
  dc_analysis_id :: utext
  dc_source_url :: utext
  dc_platform :: utext
  dc_video_id :: utext
  dc_title :: utext
  dc_author :: utext
  dc_published_at :: "'dt option"
  dc_analyzed_at :: 'dt
  dc_summary_mode :: utext
  dc_language :: utext
  dc_asr_provider :: utext
  dc_asr_model :: utext
  dc_asr_model_version :: utext
  dc_tags :: "utext list"
  dc_core_summary :: utext
  dc_key_takeaways :: "utext list"
  dc_timeline_outline :: utext
  dc_content_analysis :: utext
  dc_comment_sentiment :: utext
  dc_video_information :: utext
  dc_transcript :: "utext option"

definition PARSER_MODES :: "utext list" where
  "PARSER_MODES = map codes [''auto'', ''standard'', ''unboxing'']"

text \<open>The constraints of the schema. The text of a validated URL stands for \<open>HttpUrl\<close>.\<close>

definition valid_document :: "'dt pylib \<Rightarrow> 'dt report_doc \<Rightarrow> bool" where
  "valid_document L d \<longleftrightarrow>
     dc_schema_version d = 1 \<and> dc_analysis_id d \<noteq> [] \<and> dc_platform d \<noteq> [] \<and> dc_video_id d \<noteq> [] \<and>
     dc_title d \<noteq> [] \<and> dc_summary_mode d \<in> set PARSER_MODES \<and> has_offset L (dc_analyzed_at d) \<and>
     (case dc_published_at d of None \<Rightarrow> True | Some t \<Rightarrow> has_offset L t)"

section \<open>The renderer\<close>

text \<open>No float occurs in a report, so the text of one does not matter.\<close>

definition dumps_text :: "utext jtree \<Rightarrow> utext" where
  "dumps_text v = dumps (\<lambda>_. []) None v"

definition yaml_text :: "utext \<Rightarrow> utext" where
  "yaml_text value = dumps_text (JStr value)"

definition published_text :: "'dt pylib \<Rightarrow> 'dt option \<Rightarrow> utext" where
  "published_text L p = (case p of None \<Rightarrow> codes ''null'' | Some t \<Rightarrow> isoformat L t)"

text \<open>Keys and values of the frontmatter, in order; each line is \<open>key: value\<close>.\<close>

definition frontmatter_fields :: "'dt pylib \<Rightarrow> 'dt report_doc \<Rightarrow> (string \<times> utext) list" where
  "frontmatter_fields L d =
     [(''schema_version'', int_text (dc_schema_version d)),
      (''analysis_id'', yaml_text (dc_analysis_id d)),
      (''source_url'', yaml_text (dc_source_url d)),
      (''platform'', yaml_text (dc_platform d)),
      (''video_id'', yaml_text (dc_video_id d)),
      (''title'', yaml_text (dc_title d)),
      (''author'', yaml_text (dc_author d)),
      (''published_at'', published_text L (dc_published_at d)),
      (''analyzed_at'', yaml_text (isoformat L (dc_analyzed_at d))),
      (''summary_mode'', yaml_text (dc_summary_mode d)),
      (''language'', yaml_text (dc_language d)),
      (''asr_provider'', yaml_text (dc_asr_provider d)),
      (''asr_model'', yaml_text (dc_asr_model d)),
      (''asr_model_version'', yaml_text (dc_asr_model_version d)),
      (''tags'', dumps_text (JArr (map JStr (dc_tags d))))]"

definition field_line :: "string \<times> utext \<Rightarrow> utext" where
  "field_line p = codes (fst p) @ [58, 32] @ snd p"

definition render_frontmatter :: "'dt pylib \<Rightarrow> 'dt report_doc \<Rightarrow> utext" where
  "render_frontmatter L d =
     codes ''---'' @ [10] @ join [10] (map field_line (frontmatter_fields L d)) @ [10] @ codes ''---''"

text \<open>The frozen headings: \<open>##\<close>, a space and the Chinese title of the section.\<close>

definition heading :: "utext \<Rightarrow> utext" where
  "heading title = codes ''## '' @ title"

definition SECTIONS :: "(utext \<times> string) list" where
  "SECTIONS =
     [(heading [0x6838, 0x5FC3, 0x6458, 0x8981], ''core_summary''),
      (heading [0x6838, 0x5FC3, 0x6536, 0x83B7], ''key_takeaways''),
      (heading [0x65F6, 0x95F4, 0x8F74, 0x5927, 0x7EB2], ''timeline_outline''),
      (heading [0x5185, 0x5BB9, 0x5206, 0x6790], ''content_analysis''),
      (heading [0x8BC4, 0x8BBA, 0x98CE, 0x5411], ''comment_sentiment''),
      (heading [0x89C6, 0x9891, 0x4FE1, 0x606F], ''video_information''),
      (heading [0x539F, 0x59CB, 0x94FE, 0x63A5], ''_link''),
      (heading [0x5B8C, 0x6574, 0x5B57, 0x5E55], ''transcript'')]"

definition takeaways_text :: "utext list \<Rightarrow> utext" where
  "takeaways_text ts = join [10] (map ((@) (codes ''- '')) ts)"

text \<open>
  The content under each heading, in the order of the headings. A section without content
  is left out, the link never is.
\<close>

definition section_contents :: "'dt report_doc \<Rightarrow> utext list" where
  "section_contents d =
     [dc_core_summary d, takeaways_text (dc_key_takeaways d), dc_timeline_outline d,
      dc_content_analysis d, dc_comment_sentiment d, dc_video_information d, dc_source_url d,
      (case dc_transcript d of None \<Rightarrow> [] | Some t \<Rightarrow> t)]"

definition emitted :: "'dt report_doc \<Rightarrow> ((utext \<times> string) \<times> utext) list" where
  "emitted d =
     filter (\<lambda>p. snd (fst p) = ''_link'' \<or>
         (if snd (fst p) = ''key_takeaways'' then dc_key_takeaways d \<noteq> [] else snd p \<noteq> []))
       (zip SECTIONS (section_contents d))"

definition section_text :: "(utext \<times> string) \<times> utext \<Rightarrow> utext" where
  "section_text p = fst (fst p) @ [10, 10] @ snd p"

definition render_sections :: "'dt report_doc \<Rightarrow> utext" where
  "render_sections d =
     join [10, 10] ((codes ''# '' @ dc_title d) # map section_text (emitted d))"

definition render_markdown :: "'dt pylib \<Rightarrow> 'dt report_doc \<Rightarrow> utext" where
  "render_markdown L d = render_frontmatter L d @ [10, 10] @ render_sections d @ [10]"

section \<open>The reader\<close>

definition MD_FRONTMATTER_INVALID :: string where
  "MD_FRONTMATTER_INVALID = ''MD_FRONTMATTER_INVALID''"

definition MD_UNKNOWN_SCHEMA_VERSION :: string where
  "MD_UNKNOWN_SCHEMA_VERSION = ''MD_UNKNOWN_SCHEMA_VERSION''"

definition MD_MISSING_FIELD :: string where
  "MD_MISSING_FIELD = ''MD_MISSING_FIELD''"

definition MD_BODY_STRUCTURE_INVALID :: string where
  "MD_BODY_STRUCTURE_INVALID = ''MD_BODY_STRUCTURE_INVALID''"

definition MD_ENCODING_ERROR :: string where
  "MD_ENCODING_ERROR = ''MD_ENCODING_ERROR''"

definition MD_EMPTY_BODY :: string where
  "MD_EMPTY_BODY = ''MD_EMPTY_BODY''"

record 'dt parsed_report =
  pr_schema_version :: int
  pr_analysis_id :: utext
  pr_source_url :: utext
  pr_platform :: utext
  pr_video_id :: utext
  pr_title :: utext
  pr_author :: utext
  pr_published_at :: "'dt option"
  pr_analyzed_at :: 'dt
  pr_summary_mode :: utext
  pr_language :: utext
  pr_asr_provider :: utext
  pr_asr_model :: utext
  pr_asr_model_version :: utext
  pr_tags :: "utext list"
  pr_core_summary :: utext
  pr_key_takeaways :: "utext list"
  pr_timeline_outline :: utext
  pr_content_analysis :: utext
  pr_comment_sentiment :: utext
  pr_video_information :: utext
  pr_transcript :: "utext option"
  pr_has_analysis_content :: bool

text \<open>An exception ends the reading.\<close>

definition and_then :: "'a outcome \<Rightarrow> ('a \<Rightarrow> 'b outcome) \<Rightarrow> 'b outcome" where
  "and_then m f = (case m of Inl e \<Rightarrow> Inl e | Inr x \<Rightarrow> f x)"

definition require :: "bool \<Rightarrow> string \<Rightarrow> unit outcome" where
  "require ok code = (if ok then Inr () else Inl (MarkdownParseError code))"

lemma and_then_simps [simp]:
  "and_then (Inl e) f = Inl e" "and_then (Inr x) f = f x"
  by (simp_all add: and_then_def)

lemma and_then_Inr: "and_then m f = Inr y \<longleftrightarrow> (\<exists>x. m = Inr x \<and> f x = Inr y)"
  by (cases m) simp_all

lemma require_Inr [simp]: "require ok code = Inr u \<longleftrightarrow> ok"
  by (simp add: require_def)

subsection \<open>Searching text\<close>

text \<open>\<open>t.find(p)\<close>, and \<open>t.partition(sep)\<close> when the separator occurs.\<close>

fun find_text :: "utext \<Rightarrow> utext \<Rightarrow> nat option" where
  "find_text p [] = (if p = [] then Some 0 else None)"
| "find_text p (c # cs) =
     (if take (length p) (c # cs) = p then Some 0 else map_option Suc (find_text p cs))"

definition partition_text :: "utext \<Rightarrow> utext \<Rightarrow> (utext \<times> utext) option" where
  "partition_text sep t =
     map_option (\<lambda>i. (take i t, drop (i + length sep) t)) (find_text sep t)"

definition opener :: utext where
  "opener = codes ''---'' @ [10]"

definition closer :: utext where
  "closer = 10 # codes ''---'' @ [10]"

definition frontmatter_block :: "utext \<Rightarrow> utext" where
  "frontmatter_block t =
     (if take 4 t \<noteq> opener then []
      else (case find_text closer (drop 4 t) of
              None \<Rightarrow> []
            | Some i \<Rightarrow> take (4 + i + 5) t))"

subsection \<open>Frontmatter\<close>

text \<open>One line: \<open>None\<close> for a blank one, else a key and its raw value.\<close>

definition frontmatter_line :: "utext \<Rightarrow> (utext \<times> utext) option outcome" where
  "frontmatter_line line =
     (if strip line = [] then Inr None
      else
       (case partition_text [58, 32] line of
          Some (key, raw) \<Rightarrow> Inr (Some (strip key, raw))
        | None \<Rightarrow>
            if last line = 58 then Inr (Some (strip (butlast line), []))
            else Inl (MarkdownParseError MD_FRONTMATTER_INVALID)))"

fun parse_lines :: "utext list \<Rightarrow> (utext \<rightharpoonup> utext) \<Rightarrow> (utext \<rightharpoonup> utext) outcome" where
  "parse_lines [] fm = Inr fm"
| "parse_lines (line # ls) fm =
     and_then (frontmatter_line line)
       (\<lambda>p. parse_lines ls (case p of None \<Rightarrow> fm | Some (k, v) \<Rightarrow> fm(k \<mapsto> v)))"

definition parse_frontmatter :: "utext \<Rightarrow> (utext \<rightharpoonup> utext) outcome" where
  "parse_frontmatter block = parse_lines (split_on 10 block) Map.empty"

subsection \<open>Sections\<close>

text \<open>The lines under each heading seen so far; a heading that comes again starts afresh.\<close>

fun scan_sections ::
  "string option \<Rightarrow> (string \<rightharpoonup> utext list) \<Rightarrow> utext list \<Rightarrow> (string \<rightharpoonup> utext list)" where
  "scan_sections current chunks [] = chunks"
| "scan_sections current chunks (line # ls) =
     (case map_of SECTIONS line of
        Some attr \<Rightarrow> scan_sections (Some attr) (chunks(attr \<mapsto> [])) ls
      | None \<Rightarrow>
         (case current of
            None \<Rightarrow> scan_sections current chunks ls
          | Some attr \<Rightarrow>
              scan_sections current
                (chunks(attr \<mapsto> (case chunks attr of None \<Rightarrow> [] | Some xs \<Rightarrow> xs) @ [line])) ls))"

definition parse_sections :: "utext \<Rightarrow> (string \<Rightarrow> utext) \<times> (string \<Rightarrow> bool)" where
  "parse_sections body =
     (let chunks = scan_sections None Map.empty (split_on 10 body)
      in (\<lambda>attr. case chunks attr of None \<Rightarrow> [] | Some ls \<Rightarrow> strip (join [10] ls),
          \<lambda>attr. chunks attr \<noteq> None))"

subsection \<open>Scalars\<close>

text \<open>
  \<open>int(text)\<close>: spaces around, a sign, decimal digits with single underscores between them.
  Below 128 only the six blanks of C count as spaces. The limit of 4300 digits is not
  modelled; it raises the same exception.
\<close>

definition int_space :: "nat \<Rightarrow> bool" where
  "int_space c \<longleftrightarrow> is_space c \<and> \<not> (28 \<le> c \<and> c \<le> 31)"

definition decimal_value :: "(nat \<Rightarrow> nat option) \<Rightarrow> nat \<Rightarrow> nat option" where
  "decimal_value dec c = (if is_digit c then Some (c - 48) else if c < 128 then None else dec c)"

fun decimal_digits :: "(nat \<Rightarrow> nat option) \<Rightarrow> int \<Rightarrow> utext \<Rightarrow> int option" where
  "decimal_digits dec acc [] = None"
| "decimal_digits dec acc (c # cs) =
     (case decimal_value dec c of
        None \<Rightarrow> None
      | Some v \<Rightarrow>
          if cs = [] then Some (10 * acc + int v)
          else decimal_digits dec (10 * acc + int v) (if hd cs = 95 then tl cs else cs))"

definition int_of_text :: "(nat \<Rightarrow> nat option) \<Rightarrow> utext \<Rightarrow> int option" where
  "int_of_text dec t =
     (let u = rev (dropWhile int_space (rev (dropWhile int_space t)))
      in case u of
           [] \<Rightarrow> None
         | c # cs \<Rightarrow>
             if c = 43 then decimal_digits dec 0 cs
             else if c = 45 then map_option uminus (decimal_digits dec 0 cs)
             else decimal_digits dec 0 u)"

text \<open>Only the kind of a value and its strings are looked at, never a float.\<close>

definition loads_text :: "utext \<Rightarrow> utext jtree option" where
  "loads_text raw = loads (\<lambda>_. None) raw"

definition raw_field :: "(utext \<rightharpoonup> utext) \<Rightarrow> string \<Rightarrow> utext" where
  "raw_field fm key = (case fm (codes key) of None \<Rightarrow> [] | Some raw \<Rightarrow> raw)"

definition json_str :: "(utext \<rightharpoonup> utext) \<Rightarrow> string \<Rightarrow> utext outcome" where
  "json_str fm key =
     (if raw_field fm key = [] then Inr []
      else
       (case loads_text (raw_field fm key) of
          Some (JStr s) \<Rightarrow> Inr s
        | _ \<Rightarrow> Inl (MarkdownParseError MD_FRONTMATTER_INVALID)))"

definition tag_texts :: "utext jtree list \<Rightarrow> utext list option" where
  "tag_texts xs = those (map (\<lambda>x. case x of JStr s \<Rightarrow> Some s | _ \<Rightarrow> None) xs)"

definition json_tags :: "(utext \<rightharpoonup> utext) \<Rightarrow> utext list outcome" where
  "json_tags fm =
     (if raw_field fm ''tags'' = [] then Inr []
      else
       (case loads_text (raw_field fm ''tags'') of
          Some (JArr xs) \<Rightarrow>
            (case tag_texts xs of
               Some ts \<Rightarrow> Inr ts
             | None \<Rightarrow> Inl (MarkdownParseError MD_FRONTMATTER_INVALID))
        | _ \<Rightarrow> Inl (MarkdownParseError MD_FRONTMATTER_INVALID)))"

definition json_datetime ::
  "'dt pylib \<Rightarrow> (utext \<rightharpoonup> utext) \<Rightarrow> string \<Rightarrow> bool \<Rightarrow> 'dt option outcome" where
  "json_datetime L fm key required =
     (let raw = raw_field fm key
      in if raw = [] \<or> raw = codes ''null'' then
           (if required then Inl (MarkdownParseError MD_MISSING_FIELD) else Inr None)
         else
          (let t = (case loads_text raw of Some (JStr s) \<Rightarrow> s | _ \<Rightarrow> raw)
           in case fromisoformat L t of
                None \<Rightarrow> Inl (MarkdownParseError MD_MISSING_FIELD)
              | Some v \<Rightarrow>
                  if has_offset L v then Inr (Some v) else Inl (MarkdownParseError MD_MISSING_FIELD)))"

fun read_values :: "(utext \<rightharpoonup> utext) \<Rightarrow> string list \<Rightarrow> (string \<Rightarrow> utext) outcome" where
  "read_values fm [] = Inr (\<lambda>_. [])"
| "read_values fm (key # keys) =
     and_then (json_str fm key)
       (\<lambda>v. and_then (read_values fm keys) (\<lambda>f. Inr (f(key := v))))"

definition VALUE_KEYS :: "string list" where
  "VALUE_KEYS =
     [''analysis_id'', ''source_url'', ''platform'', ''video_id'', ''title'', ''summary_mode'',
      ''author'', ''language'', ''asr_provider'', ''asr_model'', ''asr_model_version'']"

definition REQUIRED_FIELDS :: "string list" where
  "REQUIRED_FIELDS = [''analysis_id'', ''source_url'', ''platform'', ''video_id'', ''title'', ''analyzed_at'']"

definition ANALYSIS_SECTIONS :: "string list" where
  "ANALYSIS_SECTIONS =
     [''core_summary'', ''key_takeaways'', ''timeline_outline'', ''content_analysis'',
      ''comment_sentiment'', ''video_information'']"

definition first_line :: "utext \<Rightarrow> utext" where
  "first_line body =
     (case filter (\<lambda>l. strip l \<noteq> []) (split_on 10 body) of [] \<Rightarrow> [] | l # _ \<Rightarrow> l)"

text \<open>
  \<open>urlsplit\<close> itself raises a bare \<open>ValueError\<close> on a malformed host, and nothing between here
  and the caller turns it into a \<open>MarkdownParseError\<close>.
\<close>

definition check_url :: "'dt pylib \<Rightarrow> utext \<Rightarrow> unit outcome" where
  "check_url L url =
     (case urlparse (lib_bad_bracket L) (lib_bad_nfkc L) url of
        None \<Rightarrow> Inl (ValueError ''urlsplit'')
      | Some u \<Rightarrow>
          require (pu_scheme u \<in> {codes ''http'', codes ''https''} \<and> pu_netloc u \<noteq> []) MD_MISSING_FIELD)"

definition takeaway_lines :: "utext \<Rightarrow> utext list" where
  "takeaway_lines t =
     map (\<lambda>l. strip (drop 2 l)) (filter (\<lambda>l. take 2 l = codes ''- '') (split_on 10 t))"

definition check_version :: "'dt pylib \<Rightarrow> (utext \<rightharpoonup> utext) \<Rightarrow> unit outcome" where
  "check_version L fm =
     require
       (case fm (codes ''schema_version'') of
          None \<Rightarrow> False
        | Some raw \<Rightarrow> int_of_text (lib_decimal L) raw = Some 1)
       MD_UNKNOWN_SCHEMA_VERSION"

text \<open>The checks of the values against the schema and the body, in the order of the source.\<close>

definition check_values :: "'dt pylib \<Rightarrow> (string \<Rightarrow> utext) \<Rightarrow> utext \<Rightarrow> (string \<Rightarrow> bool) \<Rightarrow> unit outcome" where
  "check_values L v body present =
     and_then (require (list_all (\<lambda>key. key = ''analyzed_at'' \<or> v key \<noteq> []) REQUIRED_FIELDS) MD_MISSING_FIELD)
       (\<lambda>_. and_then (check_url L (v ''source_url''))
       (\<lambda>_. and_then (require (v ''platform'' = lib_lower L (v ''platform'')) MD_MISSING_FIELD)
       (\<lambda>_. and_then (require (first_line body = codes ''# '' @ v ''title'') MD_BODY_STRUCTURE_INVALID)
       (\<lambda>_. and_then (require (present ''_link'') MD_BODY_STRUCTURE_INVALID)
       (\<lambda>_. and_then (require (v ''summary_mode'' \<noteq> []) MD_MISSING_FIELD)
       (\<lambda>_. require (v ''summary_mode'' \<in> set PARSER_MODES) MD_MISSING_FIELD))))))"

definition build_report ::
  "(string \<Rightarrow> utext) \<Rightarrow> (string \<Rightarrow> utext) \<Rightarrow> utext list \<Rightarrow> 'dt option \<Rightarrow> 'dt \<Rightarrow> 'dt parsed_report" where
  "build_report v sections tags published_at analyzed_at =
     \<lparr>pr_schema_version = 1, pr_analysis_id = v ''analysis_id'', pr_source_url = v ''source_url'',
      pr_platform = v ''platform'', pr_video_id = v ''video_id'', pr_title = v ''title'',
      pr_author = v ''author'', pr_published_at = published_at, pr_analyzed_at = analyzed_at,
      pr_summary_mode = v ''summary_mode'', pr_language = v ''language'',
      pr_asr_provider = v ''asr_provider'', pr_asr_model = v ''asr_model'',
      pr_asr_model_version = v ''asr_model_version'', pr_tags = tags,
      pr_core_summary = sections ''core_summary'',
      pr_key_takeaways = takeaway_lines (sections ''key_takeaways''),
      pr_timeline_outline = sections ''timeline_outline'',
      pr_content_analysis = sections ''content_analysis'',
      pr_comment_sentiment = sections ''comment_sentiment'',
      pr_video_information = sections ''video_information'',
      pr_transcript = (if sections ''transcript'' = [] then None else Some (sections ''transcript'')),
      pr_has_analysis_content = list_ex (\<lambda>name. sections name \<noteq> []) ANALYSIS_SECTIONS\<rparr>"

definition parse_markdown_report :: "'dt pylib \<Rightarrow> utext \<Rightarrow> 'dt parsed_report outcome" where
  "parse_markdown_report L t =
     and_then (require (take 4 t = opener) MD_FRONTMATTER_INVALID) (\<lambda>_.
     (case find_text closer (drop 4 t) of
        None \<Rightarrow> Inl (MarkdownParseError MD_FRONTMATTER_INVALID)
      | Some i \<Rightarrow>
          and_then (parse_frontmatter (take i (drop 4 t))) (\<lambda>fm.
          let body = drop (4 + i + 5) t;
              (sections, present) = parse_sections body
          in and_then (check_version L fm) (\<lambda>_.
             and_then (read_values fm VALUE_KEYS) (\<lambda>v.
             and_then (check_values L v body present) (\<lambda>_.
             and_then (json_tags fm) (\<lambda>tags.
             and_then (json_datetime L fm ''published_at'' False) (\<lambda>published_at.
             and_then (json_datetime L fm ''analyzed_at'' True) (\<lambda>analyzed_at.
               Inr (build_report v sections tags published_at (the analyzed_at))))))))))) "

text \<open>\<open>replace("\r\n", "\n").replace("\r", "\n")\<close>\<close>

fun crlf_to_lf :: "utext \<Rightarrow> utext" where
  "crlf_to_lf (a # b # t) = (if a = 13 \<and> b = 10 then 10 # crlf_to_lf t else a # crlf_to_lf (b # t))"
| "crlf_to_lf t = t"

definition unix_newlines :: "utext \<Rightarrow> utext" where
  "unix_newlines t = map (\<lambda>c. if c = 13 then 10 else c) (crlf_to_lf t)"

definition decode_report_bytes :: "'dt pylib \<Rightarrow> nat list \<Rightarrow> 'dt parsed_report outcome" where
  "decode_report_bytes L data =
     (if take 3 data = [0xEF, 0xBB, 0xBF] then Inl (MarkdownParseError MD_ENCODING_ERROR)
      else
       (case utf8_decode data of
          None \<Rightarrow> Inl (MarkdownParseError MD_ENCODING_ERROR)
        | Some t \<Rightarrow> parse_markdown_report L (unix_newlines t)))"

end
