(* ===== verification/Rebuild.thy ===== *)
theory Rebuild
  imports ReportFiles ReportTheorems
begin

text \<open>
  The rescan of the report directory, \<open>storage/rebuild.py\<close>: the resolution of the directory,
  the sorted collection of its Markdown files, batches that reconcile them with the index
  tables, the pass over the documents no file claimed, the start-up decision and the
  single-flight service. The disk is a value that says what each look at it sees, so it may
  change while the rescan runs; between two transactions other writers may do anything to
  the database. Paths and identifiers are the UTF-8 bytes of their text.
\<close>

text \<open>Library facts: POSIX timestamps, SHA-256, the text of an exception and of a float.\<close>

record 'dt rescan_lib =
  rl_py :: "'dt pylib"
  rl_timestamp :: "'dt \<Rightarrow> time"
  rl_sha256 :: "nat list \<Rightarrow> string"
  rl_message :: "nat list \<Rightarrow> string"
  rl_float :: "time \<Rightarrow> string"

section \<open>The directory\<close>

datatype pointer_file = NoPointer | UnreadablePointer | PointerText utext

text \<open>The three moments at which the directory is probed.\<close>

datatype probe = AtStart | AfterRead string | AtEnd

record disk =
  dk_pointer :: pointer_file
  dk_fallback :: "string option"
  dk_usable :: "probe \<Rightarrow> string \<Rightarrow> bool"
  dk_entries :: "string \<Rightarrow> (string \<times> bool) list"
  dk_read :: "string \<Rightarrow> string \<Rightarrow> string + nat list"

definition ROOT_UNAVAILABLE :: string where
  "ROOT_UNAVAILABLE = ''ROOT_UNAVAILABLE''"

definition REPORT_POINTER_UNAVAILABLE :: string where
  "REPORT_POINTER_UNAVAILABLE = ''REPORT_POINTER_UNAVAILABLE''"

definition read_report_pointer :: "pointer_file \<Rightarrow> string option outcome" where
  "read_report_pointer p =
     (case p of
        NoPointer \<Rightarrow> Inr None
      | UnreadablePointer \<Rightarrow> Inl (RebuildRootUnavailable REPORT_POINTER_UNAVAILABLE)
      | PointerText raw \<Rightarrow> Inr (if strip raw = [] then None else Some (ident (strip raw))))"

definition resolve_report_root :: "disk \<Rightarrow> database \<Rightarrow> string option outcome" where
  "resolve_report_root dk d =
     (case Option.bind (settings_row d) st_report_directory of
        Some (c # cs) \<Rightarrow> Inr (Some (c # cs))
      | _ \<Rightarrow>
         and_then (read_report_pointer (dk_pointer dk))
           (\<lambda>p. Inr (case p of Some dir \<Rightarrow> Some dir | None \<Rightarrow> dk_fallback dk)))"

definition root_is_usable :: "disk \<Rightarrow> probe \<Rightarrow> string option \<Rightarrow> bool" where
  "root_is_usable dk when dir = (case dir of None \<Rightarrow> False | Some r \<Rightarrow> dk_usable dk when r)"

text \<open>
  No part of the relative path begins with a dot, and the name ends in \<open>.md\<close> in any case. No
  letter outside ASCII has a lower case among these letters.
\<close>

definition is_report_file :: "string \<times> bool \<Rightarrow> bool" where
  "is_report_file entry =
     (let (rel, is_file) = entry;
          parts = split_on 47 (codes rel);
          name = sql_lower (last parts)
      in is_file \<and> \<not> list_ex (\<lambda>p. take 1 p = codes ''.'') parts \<and>
         suffix (codes ''.md'') name \<and> \<not> suffix (codes ''.tmp'') name)"

definition path_key :: "string \<Rightarrow> nat list" where
  "path_key rel = map of_char rel"

definition collect :: "(string \<times> bool) list \<Rightarrow> string list" where
  "collect entries = sort_key path_key (map fst (filter is_report_file entries))"

section \<open>Phase one: reading and parsing\<close>

record 'dt file_outcome =
  fo_rel_path :: string
  fo_raw :: "nat list option"
  fo_parsed :: "'dt parsed_report option"
  fo_parse_error :: "(string \<times> string) option"
  fo_read_error_type :: "string option"

text \<open>Only a \<open>MarkdownParseError\<close> is caught; anything else leaves the scan.\<close>

definition scan_file :: "'dt rescan_lib \<Rightarrow> disk \<Rightarrow> string \<Rightarrow> string \<Rightarrow> 'dt file_outcome outcome" where
  "scan_file lib dk dir rel =
     (case dk_read dk dir rel of
        Inl error_type \<Rightarrow>
          if \<not> dk_usable dk (AfterRead rel) dir then Inl (RebuildRootUnavailable ROOT_UNAVAILABLE)
          else Inr \<lparr>fo_rel_path = rel, fo_raw = None, fo_parsed = None, fo_parse_error = None,
                    fo_read_error_type = Some error_type\<rparr>
      | Inr raw \<Rightarrow>
         (case decode_report_bytes (rl_py lib) raw of
            Inr parsed \<Rightarrow>
              Inr \<lparr>fo_rel_path = rel, fo_raw = Some raw, fo_parsed = Some parsed, fo_parse_error = None,
                   fo_read_error_type = None\<rparr>
          | Inl (MarkdownParseError code) \<Rightarrow>
              Inr \<lparr>fo_rel_path = rel, fo_raw = Some raw, fo_parsed = None,
                   fo_parse_error = Some (code, rl_message lib raw), fo_read_error_type = None\<rparr>
          | Inl e \<Rightarrow> Inl e))"

fun scan_files :: "'dt rescan_lib \<Rightarrow> disk \<Rightarrow> string \<Rightarrow> string list \<Rightarrow> 'dt file_outcome list outcome" where
  "scan_files lib dk dir [] = Inr []"
| "scan_files lib dk dir (rel # rels) =
     and_then (scan_file lib dk dir rel)
       (\<lambda>x. and_then (scan_files lib dk dir rels) (\<lambda>xs. Inr (x # xs)))"

section \<open>Phase two: reconciling one file\<close>

record claim =
  cl_analysis_id :: string
  cl_rel_path :: string
  cl_analyzed_at :: time
  cl_content_hash :: string

record counters =
  ct_scanned :: int
  ct_indexed :: int
  ct_unchanged :: int
  ct_quarantined :: int
  ct_duplicates :: int
  ct_removed :: int
  ct_purged :: int

record rescan_state =
  rs_claims :: "string \<rightharpoonup> claim"
  rs_scanned :: "string list"
  rs_counts :: counters

definition MD_DIAGNOSTIC_CODES :: "string list" where
  "MD_DIAGNOSTIC_CODES =
     [MD_FRONTMATTER_INVALID, MD_UNKNOWN_SCHEMA_VERSION, MD_MISSING_FIELD, MD_BODY_STRUCTURE_INVALID,
      MD_ENCODING_ERROR, MD_EMPTY_BODY]"

definition DUPLICATE_ANALYSIS_ID :: string where
  "DUPLICATE_ANALYSIS_ID = ''DUPLICATE_ANALYSIS_ID''"

definition record_issue :: "string \<Rightarrow> string \<Rightarrow> string \<Rightarrow> time \<Rightarrow> database \<Rightarrow> database" where
  "record_issue code rel detail now d = snd (record_index_issue code rel detail now d)"

definition resolve_codes :: "string list \<Rightarrow> string \<Rightarrow> time \<Rightarrow> database \<Rightarrow> database" where
  "resolve_codes cs rel now d = fold (\<lambda>code d. snd (resolve_index_issue code rel now d)) cs d"

definition index_entry ::
  "('dt, 'z) rescan_lib_scheme \<Rightarrow> string \<Rightarrow> nat list \<Rightarrow> 'dt parsed_report \<Rightarrow> report_entry" where
  "index_entry lib rel raw p =
     \<lparr>re_job_id = ident (pr_analysis_id p), re_analysis_id = ident (pr_analysis_id p),
      re_title = pr_title p, re_platform = pr_platform p, re_author = pr_author p,
      re_video_id = ident (pr_video_id p), re_source_url = pr_source_url p,
      re_published_at = map_option (rl_timestamp lib) (pr_published_at p),
      re_analyzed_at = rl_timestamp lib (pr_analyzed_at p),
      re_summary_mode = ident (pr_summary_mode p), re_language = ident (pr_language p),
      re_asr_provider = ident (pr_asr_provider p), re_asr_model = ident (pr_asr_model p),
      re_asr_model_version = ident (pr_asr_model_version p), re_tags = pr_tags p,
      re_summary_preview = take 200 (pr_core_summary p), re_relative_path = rel,
      re_content_hash = rl_sha256 lib raw, re_byte_size = Some (int (length raw)),
      re_doc_source = ''rebuild''\<rparr>"

definition index_body :: "'dt parsed_report \<Rightarrow> fts_body" where
  "index_body p =
     \<lparr>fb_summary = pr_core_summary p,
      fb_transcript = (case pr_transcript p of None \<Rightarrow> [] | Some t \<Rightarrow> t)\<rparr>"

definition duplicate_detail :: "'dt rescan_lib \<Rightarrow> claim \<Rightarrow> claim \<Rightarrow> string" where
  "duplicate_detail lib winner loser =
     ''analysis_id '' @ cl_analysis_id loser @ '': winner '' @ cl_rel_path winner @ '' (analyzed_at='' @
     rl_float lib (cl_analyzed_at winner) @ '', sha256='' @ take 12 (cl_content_hash winner) @
     ''); this file '' @ cl_rel_path loser @ '' (analyzed_at='' @ rl_float lib (cl_analyzed_at loser) @
     '', sha256='' @ take 12 (cl_content_hash loser) @ '')''"

definition claim_of :: "'dt rescan_lib \<Rightarrow> string \<Rightarrow> nat list \<Rightarrow> 'dt parsed_report \<Rightarrow> claim" where
  "claim_of lib rel raw p =
     \<lparr>cl_analysis_id = ident (pr_analysis_id p), cl_rel_path = rel,
      cl_analyzed_at = rl_timestamp lib (pr_analyzed_at p), cl_content_hash = rl_sha256 lib raw\<rparr>"

text \<open>The issues of a file that parsed: only an empty body may stay open.\<close>

definition settle_issues :: "string \<Rightarrow> 'dt parsed_report \<Rightarrow> time \<Rightarrow> database \<Rightarrow> database" where
  "settle_issues rel p now d =
     (let d1 = (if pr_has_analysis_content p then resolve_codes [MD_EMPTY_BODY] rel now d
                else record_issue MD_EMPTY_BODY rel ''no analysis sections in body'' now d);
          d2 = resolve_codes (filter (\<lambda>c. c \<noteq> MD_EMPTY_BODY) MD_DIAGNOSTIC_CODES) rel now d1
      in resolve_codes [DUPLICATE_ANALYSIS_ID] rel now d2)"

definition is_unchanged :: "claim \<Rightarrow> report_document option \<Rightarrow> bool" where
  "is_unchanged c doc =
     (case doc of
        None \<Rightarrow> False
      | Some r \<Rightarrow> rd_relative_path r = cl_rel_path c \<and> rd_content_hash r = cl_content_hash c \<and>
          rd_doc_status r = ''active'')"

definition claim_file ::
  "'dt rescan_lib \<Rightarrow> time \<Rightarrow> string \<Rightarrow> nat list \<Rightarrow> 'dt parsed_report \<Rightarrow>
   rescan_state \<times> database \<Rightarrow> (rescan_state \<times> database) outcome" where
  "claim_file lib now rel raw p = (\<lambda>(st, d0).
     let c = claim_of lib rel raw p;
         d = settle_issues rel p now d0;
         counts = rs_counts st
     in case rs_claims st (cl_analysis_id c) of
          Some incumbent \<Rightarrow>
            Inr (st\<lparr>rs_counts := counts\<lparr>ct_duplicates := ct_duplicates counts + 1\<rparr>\<rparr>,
                 record_issue DUPLICATE_ANALYSIS_ID rel (duplicate_detail lib incumbent c) now d)
        | None \<Rightarrow>
            let st = st\<lparr>rs_claims := (rs_claims st)(cl_analysis_id c \<mapsto> c)\<rparr>
            in if is_unchanged c (get_report_document (cl_analysis_id c) d)
               then Inr (st\<lparr>rs_counts := counts\<lparr>ct_unchanged := ct_unchanged counts + 1\<rparr>\<rparr>, d)
               else
                 and_then (check_entry (lib_lower (rl_py lib)) (index_entry lib rel raw p)) (\<lambda>_.
                  (case upsert_report_document (lib_lower (rl_py lib)) (index_entry lib rel raw p)
                          (index_body p) now d of
                     (Inl e, _) \<Rightarrow> Inl e
                   | (Inr _, d') \<Rightarrow>
                       Inr (st\<lparr>rs_counts := counts\<lparr>ct_indexed := ct_indexed counts + 1\<rparr>\<rparr>, d'))))"

definition quarantine :: "rescan_state \<Rightarrow> rescan_state" where
  "quarantine st =
     st\<lparr>rs_counts := (rs_counts st)\<lparr>ct_quarantined := ct_quarantined (rs_counts st) + 1\<rparr>\<rparr>"

definition reconcile_file ::
  "'dt rescan_lib \<Rightarrow> time \<Rightarrow> 'dt file_outcome \<Rightarrow> rescan_state \<times> database \<Rightarrow>
   (rescan_state \<times> database) outcome" where
  "reconcile_file lib now fo = (\<lambda>(st0, d).
     let rel = fo_rel_path fo;
         st = st0\<lparr>rs_scanned := rs_scanned st0 @ [rel],
                  rs_counts := (rs_counts st0)\<lparr>ct_scanned := ct_scanned (rs_counts st0) + 1\<rparr>\<rparr>
     in case fo_read_error_type fo of
          Some error_type \<Rightarrow>
            Inr (quarantine st,
                 record_issue MD_FRONTMATTER_INVALID rel (''unreadable ('' @ error_type @ '')'') now d)
        | None \<Rightarrow>
           (case fo_parse_error fo of
              Some (code, message) \<Rightarrow>
                Inr (quarantine st,
                     resolve_codes (filter (\<lambda>c. c \<noteq> code) MD_DIAGNOSTIC_CODES) rel now
                       (record_issue code rel message now d))
            | None \<Rightarrow>
               (case fo_parsed fo of
                  None \<Rightarrow> Inr (quarantine st, d)
                | Some p \<Rightarrow>
                   (case fo_raw fo of
                      None \<Rightarrow> Inl (RuntimeError ''AssertionError'')
                    | Some raw \<Rightarrow> claim_file lib now rel raw p (st, d)))))"

fun reconcile_files ::
  "'dt rescan_lib \<Rightarrow> time \<Rightarrow> 'dt file_outcome list \<Rightarrow> rescan_state \<times> database \<Rightarrow>
   (rescan_state \<times> database) outcome" where
  "reconcile_files lib now [] s = Inr s"
| "reconcile_files lib now (fo # fos) s =
     and_then (reconcile_file lib now fo s) (reconcile_files lib now fos)"

text \<open>
  One batch. The files are read before the transaction; what others commit meanwhile is
  already in \<open>d\<close>. An exception inside the transaction rolls it back.
\<close>

definition process_batch ::
  "'dt rescan_lib \<Rightarrow> disk \<Rightarrow> string \<Rightarrow> time \<Rightarrow> string list \<Rightarrow> rescan_state \<Rightarrow> database \<Rightarrow>
   rescan_state outcome \<times> database" where
  "process_batch lib dk dir now rels st d =
     (case and_then (scan_files lib dk dir rels) (\<lambda>fos. reconcile_files lib now fos (st, d)) of
        Inl e \<Rightarrow> (Inl e, d)
      | Inr (st', d') \<Rightarrow> (Inr st', d'))"

section \<open>The absence pass\<close>

definition claimed :: "(string \<rightharpoonup> claim) \<Rightarrow> string \<times> string \<Rightarrow> bool" where
  "claimed claims row =
     (case claims (fst row) of None \<Rightarrow> False | Some c \<Rightarrow> cl_rel_path c = snd row)"

definition absent_row ::
  "(string \<rightharpoonup> claim) \<Rightarrow> string list \<Rightarrow> bool \<Rightarrow> time \<Rightarrow> string \<times> string \<Rightarrow>
   nat \<times> nat \<times> database \<Rightarrow> nat \<times> nat \<times> database" where
  "absent_row claims scanned purge now row = (\<lambda>(removed, purged, d).
     if claimed claims row then (removed, purged, d)
     else if purge \<and> snd row \<notin> set scanned then
       (let (hit, d') = purge_report_document (fst row) d
        in (removed, if hit then purged + 1 else purged, d'))
     else (removed + 1, purged, snd (mark_report_missing (fst row) now d)))"

definition mark_absent ::
  "(string \<rightharpoonup> claim) \<Rightarrow> string list \<Rightarrow> bool \<Rightarrow> time \<Rightarrow> database \<Rightarrow> nat \<times> nat \<times> database" where
  "mark_absent claims scanned purge now d =
     (let (removed, purged, d') =
            fold (absent_row claims scanned purge now) (list_document_paths d) (0, 0, d)
      in (removed, purged, snd (resolve_issues_for_absent_paths scanned now d')))"

section \<open>One rescan\<close>

record rescan_env =
  env_now :: "nat \<Rightarrow> time"
  env_others :: "nat \<Rightarrow> database \<Rightarrow> database"

record rebuild_outcome =
  ro_counts :: counters
  ro_consistent :: bool

definition BATCH_SIZE :: nat where
  "BATCH_SIZE = 50"

function chunks_of :: "nat \<Rightarrow> 'a list \<Rightarrow> 'a list list" where
  "chunks_of n xs = (if xs = [] \<or> n = 0 then [] else take n xs # chunks_of n (drop n xs))"
  by pat_completeness auto

termination
  by (relation "measure (\<lambda>(_, xs). length xs)") auto

declare chunks_of.simps [simp del]

definition no_counts :: counters where
  "no_counts =
     \<lparr>ct_scanned = 0, ct_indexed = 0, ct_unchanged = 0, ct_quarantined = 0, ct_duplicates = 0,
      ct_removed = 0, ct_purged = 0\<rparr>"

definition start_state :: rescan_state where
  "start_state = \<lparr>rs_claims = Map.empty, rs_scanned = [], rs_counts = no_counts\<rparr>"

text \<open>The batches in turn; \<open>k\<close> counts the transactions of the rescan.\<close>

fun run_batches ::
  "'dt rescan_lib \<Rightarrow> disk \<Rightarrow> rescan_env \<Rightarrow> string \<Rightarrow> nat \<Rightarrow> string list list \<Rightarrow> rescan_state \<Rightarrow> database \<Rightarrow>
   nat \<times> rescan_state outcome \<times> database" where
  "run_batches lib dk env dir k [] st d = (k, Inr st, d)"
| "run_batches lib dk env dir k (rels # chunks) st d =
     (case process_batch lib dk dir (env_now env k) rels st (env_others env k d) of
        (Inl e, d') \<Rightarrow> (Suc k, Inl e, d')
      | (Inr st', d') \<Rightarrow> run_batches lib dk env dir (Suc k) chunks st' d')"

definition park_needs_rebuild :: "rescan_env \<Rightarrow> nat \<Rightarrow> string \<Rightarrow> database \<Rightarrow> database" where
  "park_needs_rebuild env k code d =
     snd (set_index_state ''needs_rebuild'' (env_now env k) (Some code) (env_others env k d))"

definition error_code :: "exn \<Rightarrow> string" where
  "error_code e = (case e of RebuildRootUnavailable code \<Rightarrow> code | _ \<Rightarrow> ''REBUILD_FAILED'')"

definition fail_run :: "rescan_env \<Rightarrow> nat \<Rightarrow> exn \<Rightarrow> database \<Rightarrow> rebuild_outcome outcome \<times> database" where
  "fail_run env k e d = (Inl e, park_needs_rebuild env k (error_code e) d)"

definition finish_run ::
  "rescan_env \<Rightarrow> nat \<Rightarrow> counters \<Rightarrow> bool \<Rightarrow> database \<Rightarrow> rebuild_outcome outcome \<times> database" where
  "finish_run env k c consistent d =
     (Inr \<lparr>ro_counts = c, ro_consistent = consistent\<rparr>,
      snd (set_index_state (if consistent then ''idle'' else ''needs_rebuild'') (env_now env k)
             (if consistent then None else Some ''FTS_DRIFT'')
             (record_rebuild_counters (ct_scanned c) (ct_indexed c) (ct_unchanged c) (ct_quarantined c)
                (ct_duplicates c) (ct_removed c) (ct_purged c) (env_others env k d))))"

definition rescan ::
  "'dt rescan_lib \<Rightarrow> disk \<Rightarrow> rescan_env \<Rightarrow> bool \<Rightarrow> database \<Rightarrow> rebuild_outcome outcome \<times> database" where
  "rescan lib dk env purge d =
     (case resolve_report_root dk d of
        Inl e \<Rightarrow> fail_run env 0 e d
      | Inr dir \<Rightarrow>
         if \<not> root_is_usable dk AtStart dir
         then fail_run env 0 (RebuildRootUnavailable ROOT_UNAVAILABLE) d
         else
          (let d1 = snd (set_index_state ''running'' (env_now env 0) None (env_others env 0 d));
               (k, result, d2) = run_batches lib dk env (the dir) 1
                 (chunks_of BATCH_SIZE (collect (dk_entries dk (the dir)))) start_state d1
           in case result of
                Inl e \<Rightarrow> fail_run env k e d2
              | Inr st \<Rightarrow>
                 if \<not> root_is_usable dk AtEnd dir
                 then fail_run env k (RebuildRootUnavailable ROOT_UNAVAILABLE) d2
                 else
                  (let (removed, purged, d3) =
                         mark_absent (rs_claims st) (rs_scanned st) purge (env_now env k) (env_others env k d2);
                       counts = (rs_counts st)\<lparr>ct_removed := int removed, ct_purged := int purged\<rparr>;
                       d4 = env_others env (k + 1) d3
                   in finish_run env (k + 2) counts (fv_consistent (verify_fts d4)) d4)))"

section \<open>The service\<close>

text \<open>\<open>scheduled\<close> is the flag claimed before the first await, \<open>locked\<close> the mutex of a run.\<close>

record rebuild_service =
  sv_scheduled :: bool
  sv_locked :: bool

definition start_rebuild ::
  "disk \<Rightarrow> rescan_env \<Rightarrow> rebuild_service \<Rightarrow> database \<Rightarrow> bool outcome \<times> rebuild_service \<times> database" where
  "start_rebuild dk env sv d =
     (if sv_scheduled sv \<or> sv_locked sv then (Inr False, sv, d)
      else
       (case resolve_report_root dk d of
          Inl e \<Rightarrow> (Inl e, sv, park_needs_rebuild env 0 (error_code e) d)
        | Inr dir \<Rightarrow>
            if \<not> root_is_usable dk AtStart dir
            then (Inl (RebuildRootUnavailable ROOT_UNAVAILABLE), sv,
                  park_needs_rebuild env 0 ROOT_UNAVAILABLE d)
            else (Inr True, sv\<lparr>sv_scheduled := True\<rparr>, d)))"

text \<open>The background task, once it has the lock, and what is left when it ends.\<close>

definition scheduled_run ::
  "'dt rescan_lib \<Rightarrow> disk \<Rightarrow> rescan_env \<Rightarrow> bool \<Rightarrow> rebuild_service \<Rightarrow> database \<Rightarrow>
   rebuild_outcome outcome \<times> rebuild_service \<times> database" where
  "scheduled_run lib dk env purge sv d =
     (let (res, d') = rescan lib dk env purge d
      in (res, \<lparr>sv_scheduled = False, sv_locked = False\<rparr>, d'))"

definition startup_needs_rebuild :: "disk \<Rightarrow> rescan_env \<Rightarrow> database \<Rightarrow> bool \<times> database" where
  "startup_needs_rebuild dk env d =
     (let document_count = length (documents d);
          d1 = (if is_state (get_index_status d) = ''running''
                then snd (set_index_state ''needs_rebuild'' (env_now env 0) (Some ''ORPHANED_BY_RESTART'') d)
                else d)
      in if is_state (get_index_status d1) = ''needs_rebuild'' then (True, d1)
         else if document_count \<noteq> 0 then (False, d1)
         else
          (case resolve_report_root dk d1 of
             Inl e \<Rightarrow>
               (False, snd (set_index_state ''needs_rebuild'' (env_now env 0) (Some (error_code e)) d1))
           | Inr dir \<Rightarrow>
               if root_is_usable dk AtStart dir then (collect (dk_entries dk (the dir)) \<noteq> [], d1)
               else
                 (False, snd (set_index_state ''needs_rebuild'' (env_now env 0) (Some ROOT_UNAVAILABLE) d1))))"

definition locked_run ::
  "'dt rescan_lib \<Rightarrow> disk \<Rightarrow> rescan_env \<Rightarrow> bool \<Rightarrow> rebuild_service \<Rightarrow> database \<Rightarrow> unit outcome \<times> database" where
  "locked_run lib dk env purge sv d =
     (if sv_locked sv \<or> sv_scheduled sv then (Inr (), d)
      else
       (case rescan lib dk env purge d of
          (Inl e, d') \<Rightarrow> (Inl e, d')
        | (Inr _, d') \<Rightarrow> (Inr (), d')))"

text \<open>
  The start-up reconciliation never raises. A failed run has parked its own code already; the
  handler parks it again, \<open>REBUILD_FAILED\<close> for anything but an unusable directory.
\<close>

definition reconcile_on_startup ::
  "'dt rescan_lib \<Rightarrow> disk \<Rightarrow> rescan_env \<Rightarrow> rebuild_service \<Rightarrow> database \<Rightarrow> database" where
  "reconcile_on_startup lib dk env sv d =
     (let (needed, d1) = startup_needs_rebuild dk env d
      in if \<not> needed then d1
         else
          (case locked_run lib dk env False sv d1 of
             (Inr _, d2) \<Rightarrow> d2
           | (Inl e, d2) \<Rightarrow>
               snd (set_index_state ''needs_rebuild'' (env_now env 0) (Some (error_code e)) d2)))"

end
