(* ===== verification/Files.thy ===== *)
theory Files
  imports Utf8 FtsText
begin

text \<open>
  The two directories the pipeline writes to: the store of stage artifacts
  (\<open>storage/artifact_store.py\<close>) and the report directory (\<open>reports/writer.py\<close>). Both write to
  a temporary file beside the target, flush it and rename it into place. A path is the list of
  its parts, each a list of bytes; roots are absolute, resolved and free of symbolic links.
  Directories are not modelled, so \<open>mkdir\<close> is not either. \<open>sha256\<close> and the names drawn from
  \<open>uuid4\<close> are arguments.
\<close>

type_synonym path = "nat list list"

text \<open>
  \<open>sr_fault\<close> says of a target that the next write to it fails, with \<open>errno\<close>, the class of the
  exception, and how much of the content the temporary file holds by then (\<open>None\<close>: it was not
  created). A crash in the middle of a write is a fault that nobody sees. \<open>sr_unreadable\<close> says
  the same of reads.
\<close>

record write_fault =
  wf_errno :: int
  wf_class :: string
  wf_left :: "nat option"

record store =
  sr_root :: path
  sr_files :: "path \<rightharpoonup> nat list"
  sr_fault :: "path \<Rightarrow> write_fault option"
  sr_unreadable :: "path \<Rightarrow> (int \<times> string) option"

section \<open>Paths\<close>

text \<open>\<open>(root / name).resolve()\<close>: empty parts and \<open>.\<close> vanish, \<open>..\<close> goes up.\<close>

fun resolve_parts :: "path \<Rightarrow> path \<Rightarrow> path" where
  "resolve_parts acc [] = acc"
| "resolve_parts acc (p # ps) =
     (if p = [] \<or> p = codes ''.'' then resolve_parts acc ps
      else if p = codes ''..'' then resolve_parts (butlast acc) ps
      else resolve_parts (acc @ [p]) ps)"

definition resolve :: "path \<Rightarrow> string \<Rightarrow> path" where
  "resolve base name =
     resolve_parts (if take 1 (codes name) = [47] then [] else base) (split_on 47 (codes name))"

text \<open>\<open>_resolve\<close> of both classes.\<close>

definition resolve_inside :: "string \<Rightarrow> store \<Rightarrow> string \<Rightarrow> path outcome" where
  "resolve_inside what st name =
     (let candidate = resolve (sr_root st) name
      in if take (length (sr_root st)) candidate = sr_root st then Inr candidate
         else Inl (ValueError (what @ '' path escapes root'')))"

text \<open>\<open>final.relative_to(root).as_posix()\<close> and \<open>path.with_name(name)\<close>\<close>

definition relative_name :: "store \<Rightarrow> path \<Rightarrow> string" where
  "relative_name st p = map char_of (join [47] (drop (length (sr_root st)) p))"

definition with_name :: "path \<Rightarrow> nat list \<Rightarrow> path" where
  "with_name p name = butlast p @ [name]"

definition temporary :: "path \<Rightarrow> string \<Rightarrow> path" where
  "temporary p uuid = with_name p (last p @ codes ''.'' @ codes uuid @ codes ''.tmp'')"

section \<open>Reading and replacing a file\<close>

definition read_bytes :: "store \<Rightarrow> path \<Rightarrow> nat list outcome" where
  "read_bytes st p =
     (case sr_unreadable st p of
        Some (errno, c) \<Rightarrow> Inl (OSError errno c)
      | None \<Rightarrow>
         (case sr_files st p of
            None \<Rightarrow> Inl (OSError 2 ''FileNotFoundError'')
          | Some bs \<Rightarrow> Inr bs))"

text \<open>Write the temporary file, flush, \<open>os.replace\<close>.\<close>

definition replace_file :: "string \<Rightarrow> path \<Rightarrow> nat list \<Rightarrow> store \<Rightarrow> unit outcome \<times> store" where
  "replace_file uuid final content st =
     (case sr_fault st final of
        Some f \<Rightarrow>
          (Inl (OSError (wf_errno f) (wf_class f)),
           case wf_left f of
             None \<Rightarrow> st
           | Some n \<Rightarrow> st\<lparr>sr_files := (sr_files st)(temporary final uuid \<mapsto> take n content)\<rparr>)
      | None \<Rightarrow>
          (Inr (), st\<lparr>sr_files := ((sr_files st)(temporary final uuid := None))(final \<mapsto> content)\<rparr>))"

section \<open>The artifact store\<close>

definition write_file ::
  "(nat list \<Rightarrow> string) \<Rightarrow> string \<Rightarrow> string \<Rightarrow> nat list \<Rightarrow> store \<Rightarrow> (string \<times> int) outcome \<times> store" where
  "write_file sha256 uuid relative_path content st =
     (case resolve_inside ''artifact'' st relative_path of
        Inl e \<Rightarrow> (Inl e, st)
      | Inr final \<Rightarrow>
         (case replace_file uuid final content st of
            (Inl e, st') \<Rightarrow> (Inl e, st')
          | (Inr _, st') \<Rightarrow> (Inr (sha256 content, int (length content)), st')))"

definition read_file :: "store \<Rightarrow> string \<Rightarrow> nat list outcome" where
  "read_file st relative_path =
     (case resolve_inside ''artifact'' st relative_path of
        Inl e \<Rightarrow> Inl e
      | Inr final \<Rightarrow> read_bytes st final)"

definition read_file_verified :: "(nat list \<Rightarrow> string) \<Rightarrow> store \<Rightarrow> string \<Rightarrow> string \<Rightarrow> nat list outcome" where
  "read_file_verified sha256 st relative_path expected_hash =
     (case read_file st relative_path of
        Inl e \<Rightarrow> Inl e
      | Inr content \<Rightarrow>
          if sha256 content \<noteq> expected_hash then Inl (ArtifactIntegrityError (sha256 content))
          else Inr content)"

section \<open>Report file names\<close>

definition INVALID_FILENAME_CHARS :: "nat list" where
  "INVALID_FILENAME_CHARS = codes ''<>:\"/'' @ [92] @ codes ''|?*'' @ [0..<32]"

definition WINDOWS_RESERVED :: "utext list" where
  "WINDOWS_RESERVED =
     map codes [''con'', ''prn'', ''aux'', ''nul''] @
     map (\<lambda>i. codes ''com'' @ [48 + i]) [1..<10] @ map (\<lambda>i. codes ''lpt'' @ [48 + i]) [1..<10]"

definition MAX_COMPONENT :: nat where
  "MAX_COMPONENT = 200"

text \<open>\<open>t.rstrip(". ")\<close>. A reserved name has no letter that another script lowers to.\<close>

definition rstrip_dots :: "utext \<Rightarrow> utext" where
  "rstrip_dots t = rev (dropWhile (\<lambda>c. c = 46 \<or> c = 32) (rev t))"

definition safe_filename :: "utext \<Rightarrow> utext \<Rightarrow> utext" where
  "safe_filename title analysis_id =
     (let cleaned0 = rstrip_dots (strip (filter (\<lambda>c. c \<notin> set INVALID_FILENAME_CHARS) title));
          cleaned1 = (if cleaned0 = [] then codes ''analysis-'' @ analysis_id else cleaned0);
          cleaned2 = (if sql_lower cleaned1 \<in> set WINDOWS_RESERVED then cleaned1 @ [45] @ analysis_id
                      else cleaned1);
          cleaned3 = (if length cleaned2 > MAX_COMPONENT then rstrip_dots (take MAX_COMPONENT cleaned2)
                      else cleaned2)
      in cleaned3 @ codes ''.md'')"

text \<open>\<open>f"{base[:-3]}-{content_hash[:8]}.md"\<close>\<close>

definition report_filename :: "utext \<Rightarrow> utext \<Rightarrow> string \<Rightarrow> utext" where
  "report_filename title analysis_id content_hash =
     (let stem = safe_filename title analysis_id
      in take (length stem - 3) stem @ [45] @ codes (take 8 content_hash) @ codes ''.md'')"

section \<open>The report writer\<close>

record report_write_result =
  rw_path :: string
  rw_content_hash :: string
  rw_conflict :: bool

text \<open>\<open>pathlib\<close>: the name up to its last point and the rest, if the point is inside.\<close>

definition stem_suffix :: "nat list \<Rightarrow> nat list \<times> nat list" where
  "stem_suffix name =
     (let ext = rev (takeWhile (\<lambda>c. c \<noteq> 46) (rev name));
          stem = take (length name - length ext - 1) name
      in if 46 \<notin> set name \<or> stem = [] \<or> ext = [] then (name, []) else (stem, 46 # ext))"

definition conflict_path :: "path \<Rightarrow> string \<Rightarrow> path" where
  "conflict_path final uuid =
     with_name final (fst (stem_suffix (last final)) @ codes ''.conflict-'' @ codes (take 8 uuid) @
       snd (stem_suffix (last final)))"

definition put_report ::
  "(nat list \<Rightarrow> string) \<Rightarrow> string \<Rightarrow> path \<Rightarrow> bool \<Rightarrow> nat list \<Rightarrow> store \<Rightarrow>
   report_write_result outcome \<times> store" where
  "put_report sha256 uuid final conflict content st =
     (case replace_file uuid final content st of
        (Inl e, st') \<Rightarrow> (Inl e, st')
      | (Inr _, st') \<Rightarrow>
          (Inr \<lparr>rw_path = relative_name st final, rw_content_hash = sha256 content, rw_conflict = conflict\<rparr>, st'))"

text \<open>\<open>uuids\<close> are the two draws of \<open>uuid4\<close>, for the conflict copy and the temporary file.\<close>

definition write_report ::
  "(nat list \<Rightarrow> string) \<Rightarrow> string \<times> string \<Rightarrow> string \<Rightarrow> nat list \<Rightarrow> string option \<Rightarrow> store \<Rightarrow>
   report_write_result outcome \<times> store" where
  "write_report sha256 uuids filename content previous_hash st =
     (case resolve_inside ''report'' st filename of
        Inl e \<Rightarrow> (Inl e, st)
      | Inr final \<Rightarrow>
          if sr_files st final = None then put_report sha256 (snd uuids) final False content st
          else
           (case read_bytes st final of
              Inl e \<Rightarrow> (Inl e, st)
            | Inr existing \<Rightarrow>
                if sha256 existing = sha256 content
                then (Inr \<lparr>rw_path = relative_name st final, rw_content_hash = sha256 content,
                           rw_conflict = False\<rparr>, st)
                else
                 (case previous_hash of
                    None \<Rightarrow> (Inl (ReportConflictError filename), st)
                  | Some h \<Rightarrow>
                      if sha256 existing \<noteq> h
                      then put_report sha256 (snd uuids) (conflict_path final (fst uuids)) True content st
                      else put_report sha256 (snd uuids) final False content st)))"

text \<open>\<open>ReportWriter.read_file_verified\<close>, up to the decoding of the text.\<close>

definition read_report_verified :: "(nat list \<Rightarrow> string) \<Rightarrow> store \<Rightarrow> string \<Rightarrow> string \<Rightarrow> nat list outcome" where
  "read_report_verified sha256 st filename expected_hash =
     (case resolve_inside ''report'' st filename of
        Inl e \<Rightarrow> Inl e
      | Inr final \<Rightarrow>
         (case read_bytes st final of
            Inl e \<Rightarrow> Inl e
          | Inr content \<Rightarrow>
              if sha256 content \<noteq> expected_hash then Inl (ArtifactIntegrityError (sha256 content))
              else Inr content))"

end
