(* ===== verification/Transcripts.thy ===== *)
theory Transcripts
  imports FtsText
begin

text \<open>
  From platform subtitles to chunks for the language model: \<open>transcript/cleaner.py\<close> and
  \<open>transcript/chunker.py\<close>. \<open>html.unescape\<close> is a parameter.
\<close>

record segment =
  sg_start :: rat
  sg_end :: rat
  sg_text :: utext

record transcript =
  ts_segments :: "segment list"
  ts_language :: utext
  ts_source :: utext

section \<open>Cleaning\<close>

text \<open>
  One character under \<open>re.IGNORECASE\<close>: ASCII letters without case, and the three other
  characters that Unicode folds to \<open>i\<close> and \<open>s\<close>.
\<close>

definition fold_case :: "nat \<Rightarrow> nat" where
  "fold_case c =
     (if c = 0x130 \<or> c = 0x131 then 105 else if c = 0x17F then 115 else sql_lower_char c)"

definition noise_words :: "utext list" where
  "noise_words = [codes ''music'', codes ''applause'', codes ''laughter'']"

text \<open>\<open>\[(Music|Applause|Laughter)\s*\]\<close> at the head of a text: what follows the match.\<close>

definition match_marker :: "utext \<Rightarrow> utext \<Rightarrow> utext option" where
  "match_marker w t =
     (if map fold_case (take (length w) t) = w then
        (case dropWhile is_space (drop (length w) t) of
           [] \<Rightarrow> None
         | c # rest \<Rightarrow> if c = 93 then Some rest else None)
      else None)"

definition match_noise :: "utext \<Rightarrow> utext option" where
  "match_noise t =
     (case t of
        [] \<Rightarrow> None
      | c # cs \<Rightarrow>
          if c = 91 then
            (case filter (\<lambda>m. m \<noteq> None) (map (\<lambda>w. match_marker w cs) noise_words) of
               [] \<Rightarrow> None
             | m # _ \<Rightarrow> m)
          else None)"

lemma match_marker_shorter: "match_marker w t = Some u \<Longrightarrow> length u < length t"
  using length_dropWhile_le [of is_space "drop (length w) t"]
  by (auto simp: match_marker_def split: if_splits list.splits)

lemma match_noise_shorter: "match_noise t = Some u \<Longrightarrow> length u < length t"
  by (auto simp: match_noise_def noise_words_def less_Suc_eq dest!: match_marker_shorter
      split: list.splits if_splits)

text \<open>\<open>_NOISE_MARKER_RE.sub("", text)\<close>\<close>

function remove_noise :: "utext \<Rightarrow> utext" where
  "remove_noise t =
     (case match_noise t of
        Some u \<Rightarrow> remove_noise u
      | None \<Rightarrow> (case t of [] \<Rightarrow> [] | c # cs \<Rightarrow> c # remove_noise cs))"
  by pat_completeness auto

termination
  by (relation "measure length") (auto dest: match_noise_shorter)

definition clean_text :: "(utext \<Rightarrow> utext) \<Rightarrow> utext \<Rightarrow> utext" where
  "clean_text unescape t = join [32] (split_words (remove_noise (unescape t)))"

definition clean_segments :: "(utext \<Rightarrow> utext) \<Rightarrow> segment list \<Rightarrow> segment list" where
  "clean_segments unescape segments =
     fold (\<lambda>g cleaned.
         let t = clean_text unescape (sg_text g)
         in if t = [] then cleaned
            else if cleaned \<noteq> [] \<and> sg_text (last cleaned) = t then cleaned
            else cleaned @ [\<lparr>sg_start = sg_start g, sg_end = sg_end g, sg_text = t\<rparr>])
       segments []"

definition clean_transcript :: "(utext \<Rightarrow> utext) \<Rightarrow> transcript \<Rightarrow> transcript" where
  "clean_transcript unescape t =
     \<lparr>ts_segments = clean_segments unescape (ts_segments t), ts_language = ts_language t,
      ts_source = ts_source t\<rparr>"

section \<open>Chunking\<close>

text \<open>\<open>text.rfind(" ", 0, end)\<close>\<close>

definition rfind_space :: "utext \<Rightarrow> nat \<Rightarrow> int" where
  "rfind_space t n =
     (case filter (\<lambda>i. t ! i = 32) [0..<min n (length t)] of
        [] \<Rightarrow> - 1
      | i # is \<Rightarrow> int (last (i # is)))"

definition split_at :: "utext \<Rightarrow> nat \<Rightarrow> nat" where
  "split_at t n = (if rfind_space t n \<le> 0 then n else nat (rfind_space t n))"

lemma split_at_bounds: "0 < n \<Longrightarrow> n < length t \<Longrightarrow> 0 < split_at t n \<and> split_at t n \<le> n"
proof -
  assume n: "0 < n" "n < length t"
  have "rfind_space t n < int n"
  proof (cases "filter (\<lambda>i. t ! i = 32) [0..<min n (length t)]")
    case (Cons i "is")
    then have "last (i # is) \<in> set (filter (\<lambda>i. t ! i = 32) [0..<min n (length t)])"
      by (metis last_in_set list.distinct(1))
    then have "last (i # is) < n" by auto
    with Cons show ?thesis by (simp add: rfind_space_def)
  qed (use n in \<open>simp add: rfind_space_def\<close>)
  with n show ?thesis by (auto simp: split_at_def)
qed

lemma length_strip: "length (strip t) \<le> length t"
  unfolding strip_def lstrip_def
  by (metis length_dropWhile_le length_rev order_trans)

text \<open>The loop, entered with a positive bound only.\<close>

function split_chunks :: "nat \<Rightarrow> utext \<Rightarrow> utext list" where
  "split_chunks n remaining =
     (if n = 0 \<or> length remaining \<le> n then (if remaining = [] then [] else [remaining])
      else strip (take (split_at remaining n) remaining) #
           split_chunks n (strip (drop (split_at remaining n) remaining)))"
  by pat_completeness auto

termination
proof (relation "measure (\<lambda>(_, t). length t)")
  fix n and remaining :: utext assume n: "\<not> (n = 0 \<or> length remaining \<le> n)"
  then have "0 < split_at remaining n" "split_at remaining n < length remaining"
    using split_at_bounds [of n remaining] by auto
  then have "length (drop (split_at remaining n) remaining) < length remaining" by simp
  then show "((n, strip (drop (split_at remaining n) remaining)), (n, remaining)) \<in> measure (\<lambda>(_, t). length t)"
    using length_strip [of "drop (split_at remaining n) remaining"] by simp
qed simp

declare split_chunks.simps [simp del] remove_noise.simps [simp del]

definition chunk_text :: "utext \<Rightarrow> int \<Rightarrow> utext list outcome" where
  "chunk_text t max_chars =
     (if max_chars \<le> 0 then Inl (ValueError ''max_chars must be positive'')
      else Inr (split_chunks (nat max_chars) (strip t)))"

definition chunk_transcript :: "transcript \<Rightarrow> int \<Rightarrow> utext list outcome" where
  "chunk_transcript t max_chars = chunk_text (join [32] (map sg_text (ts_segments t))) max_chars"


section \<open>Chunks\<close>

text \<open>
  A cut either falls on a space or, when the first word fills the chunk, right behind it.
\<close>

definition single_spaced :: "utext \<Rightarrow> bool" where
  "single_spaced t \<longleftrightarrow> list_all (\<lambda>c. is_space c \<longrightarrow> c = 32) t"

definition words_fit :: "nat \<Rightarrow> utext \<Rightarrow> bool" where
  "words_fit n t \<longleftrightarrow> list_all (\<lambda>w. length w \<le> n) (split_words t)"

lemma le_last: "sorted xs \<Longrightarrow> x \<in> set xs \<Longrightarrow> x \<le> last xs"
  by (induction xs) auto

lemma rfind_cases:
  fixes t :: utext and n :: nat
  defines "hits \<equiv> filter (\<lambda>i. t ! i = 32) [0..<min n (length t)]"
  obtains (none) "hits = []" "rfind_space t n = - 1"
    | (some) "last hits \<in> set hits" "rfind_space t n = int (last hits)"
      "\<And>i. i \<in> set hits \<Longrightarrow> i \<le> last hits"
proof (cases hits)
  case Nil
  then show thesis by (intro none) (simp_all add: hits_def rfind_space_def)
next
  case (Cons i js)
  have "sorted hits" unfolding hits_def by (rule sorted_wrt_filter) simp
  moreover have "last hits \<in> set hits" using Cons by (metis last_in_set list.distinct(1))
  moreover have "rfind_space t n = int (last hits)"
    unfolding rfind_space_def hits_def [symmetric] Cons by simp
  ultimately show thesis by (intro some le_last)
qed

lemma rfind_hit: "0 < rfind_space t n \<Longrightarrow> t ! nat (rfind_space t n) = 32"
  by (cases rule: rfind_cases [of t n]) auto

lemma rfind_miss:
  assumes "rfind_space t n \<le> 0" "0 < i" "i < n" "i < length t"
  shows "t ! i \<noteq> 32"
proof
  assume "t ! i = 32"
  with assms(3,4) have i: "i \<in> set (filter (\<lambda>i. t ! i = 32) [0..<min n (length t)])" by simp
  show False
  proof (cases rule: rfind_cases [of t n])
    case none
    with i show False by simp
  next
    case some
    with i assms(1,2) show False by fastforce
  qed
qed

lemma cut_at_space:
  assumes "0 < n" "n < length t" "trimmed t" "single_spaced t" "words_fit n t"
  shows "is_space (t ! split_at t n)"
proof (cases "rfind_space t n \<le> 0")
  case False
  then show ?thesis using rfind_hit [of t n] by (simp add: split_at_def)
next
  case True
  show ?thesis
  proof (rule ccontr)
    assume "\<not> is_space (t ! split_at t n)"
    with True have n: "\<not> is_space (t ! n)" by (simp add: split_at_def)
    have "\<not> is_space (t ! i)" if "i \<le> n" for i
    proof (cases "i = 0 \<or> i = n")
      case True
      with assms(2,3) n show ?thesis by (auto simp: trimmed_def hd_conv_nth)
    next
      case False
      with that rfind_miss [OF \<open>rfind_space t n \<le> 0\<close>, of i] assms(2,4) show ?thesis
        by (auto simp: single_spaced_def list_all_iff)
    qed
    then have "\<forall>x \<in> set (take (n + 1) t). \<not> is_space x"
      using assms(2) by (auto simp: in_set_conv_nth)
    then have "length (takeWhile (\<lambda>x. \<not> is_space x) t) \<ge> n + 1"
      using assms(2) takeWhile_append2 [of "take (n + 1) t" "\<lambda>x. \<not> is_space x" "drop (n + 1) t"]
      by simp
    moreover have "takeWhile (\<lambda>x. \<not> is_space x) t \<in> set (split_words t)"
      using assms(2) n \<open>\<And>i. i \<le> n \<Longrightarrow> \<not> is_space (t ! i)\<close> [of 0] by (cases t) simp_all
    ultimately show False using assms(5) by (auto simp: words_fit_def list_all_iff)
  qed
qed

lemma filter_nonspace_strip: "filter (\<lambda>c. \<not> is_space c) (strip t) = filter (\<lambda>c. \<not> is_space c) t"
  by (simp flip: split_words_concat add: split_words_strip)

lemma split_chunks_facts:
  assumes "0 < n" "trimmed t"
  shows "list_all (\<lambda>c. c \<noteq> [] \<and> length c \<le> n \<and> strip c = c) (split_chunks n t) \<and>
    concat (map (filter (\<lambda>c. \<not> is_space c)) (split_chunks n t)) = filter (\<lambda>c. \<not> is_space c) t \<and>
    (single_spaced t \<and> words_fit n t \<longrightarrow> concat (map split_words (split_chunks n t)) = split_words t)"
  using assms
proof (induction n t rule: split_chunks.induct)
  case (1 n t)
  show ?case
  proof (cases "length t \<le> n")
    case True
    with 1(2,3) show ?thesis by (subst (1 2 3) split_chunks.simps) (simp add: strip_trimmed)
  next
    case False
    let ?k = "split_at t n"
    let ?a = "strip (take ?k t)" and ?b = "strip (drop ?k t)"
    have k: "0 < ?k" "?k \<le> n" "?k < length t" using split_at_bounds [of n t] 1(2) False by auto
    have eq: "split_chunks n t = ?a # split_chunks n ?b"
      using 1(2) False by (subst split_chunks.simps) simp
    have "t \<noteq> []" using k by auto
    with 1(3) have "\<not> is_space (t ! 0)" by (simp add: trimmed_def hd_conv_nth)
    moreover have "t ! 0 \<in> set (take ?k t)" using k by (auto simp: in_set_conv_nth)
    ultimately have a: "?a \<noteq> []" by (auto simp: strip_eq_Nil)
    have la: "length ?a \<le> n" using length_strip [of "take ?k t"] k by simp
    note IH = 1(1) [OF _ 1(2) trimmed_strip] 1(2) False
    have content: "filter (\<lambda>c. \<not> is_space c) ?a @ filter (\<lambda>c. \<not> is_space c) ?b = filter (\<lambda>c. \<not> is_space c) t"
      by (simp add: filter_nonspace_strip flip: filter_append)
    have words: "concat (map split_words (?a # split_chunks n ?b)) = split_words t"
      if "single_spaced t" "words_fit n t"
    proof -
      have sp: "is_space (t ! ?k)" using cut_at_space [OF 1(2) _ 1(3) that] False by simp
      have "t = take ?k t @ t ! ?k # drop (Suc ?k) t" using k id_take_nth_drop by blast
      then have w: "split_words t = split_words (take ?k t) @ split_words (drop (Suc ?k) t)"
        using split_words_append_space [OF sp] by metis
      have b: "split_words ?b = split_words (drop (Suc ?k) t)"
        using k sp by (simp add: split_words_strip Cons_nth_drop_Suc [symmetric])
      have "single_spaced ?b"
        using that(1) set_strip [of "drop ?k t"] set_drop_subset [of ?k t]
        by (auto simp: single_spaced_def list_all_iff)
      moreover have "words_fit n ?b" using that(2) w b by (simp add: words_fit_def)
      ultimately show ?thesis using IH b w by (simp add: split_words_strip)
    qed
    show ?thesis
      unfolding eq using a la content words IH
      by (simp add: strip_trimmed [OF trimmed_strip])
  qed
qed


section \<open>Clean segments\<close>

text \<open>The text of a clean segment: words joined by single blanks, at least one.\<close>

definition clean :: "utext \<Rightarrow> bool" where
  "clean t \<longleftrightarrow> t \<noteq> [] \<and> t = join [32] (split_words t)"

lemma split_words_word:
  assumes "w \<noteq> []" "\<forall>c \<in> set w. \<not> is_space c"
  shows "split_words w = [w]"
proof (cases w)
  case (Cons a u)
  with assms have "takeWhile (\<lambda>x. \<not> is_space x) u = u" "dropWhile (\<lambda>x. \<not> is_space x) u = []"
    by (simp_all add: takeWhile_eq_all_conv)
  moreover have "split_words w = (a # takeWhile (\<lambda>x. \<not> is_space x) u) #
      split_words (dropWhile (\<lambda>x. \<not> is_space x) u)"
    using assms Cons by simp
  ultimately show ?thesis using Cons by (simp only: split_words.simps)
qed (use assms in simp)

lemma split_words_join_words:
  "(\<And>w. w \<in> set ws \<Longrightarrow> w \<noteq> [] \<and> (\<forall>c \<in> set w. \<not> is_space c)) \<Longrightarrow> split_words (join [32] ws) = ws"
proof (induction ws rule: induct_list012)
  case (3 w v ws)
  have "split_words (join [32] (v # ws)) = v # ws" by (rule 3(2)) (use 3(3) in auto)
  moreover have "split_words w = [w]" using 3(3) [of w] split_words_word by simp
  ultimately show ?case
    using split_words_append_space [of 32 w "join [32] (v # ws)"] by simp
qed (simp_all add: split_words_word)

lemma clean_clean_text: "clean_text unescape t \<noteq> [] \<Longrightarrow> clean (clean_text unescape t)"
  unfolding clean_def clean_text_def by (simp add: split_words_join_words split_words_ne)

lemma split_words_join: "split_words (join [32] ts) = concat (map split_words ts)"
proof (induction ts rule: induct_list012)
  case (3 t u ts)
  then show ?case using split_words_append_space [of 32 t "join [32] (u # ts)"] by simp
qed simp_all

lemma single_spaced_join:
  "(\<And>t. t \<in> set ts \<Longrightarrow> single_spaced t) \<Longrightarrow> single_spaced (join [32] ts)"
  by (induction ts rule: induct_list012) (auto simp: single_spaced_def)

lemma clean_single_spaced:
  assumes "clean t"
  shows "single_spaced t"
proof -
  have "single_spaced w" if "w \<in> set (split_words t)" for w
    using split_words_ne [OF that] by (auto simp: single_spaced_def list_all_iff)
  then have "single_spaced (join [32] (split_words t))" by (rule single_spaced_join)
  with assms show ?thesis by (simp add: clean_def)
qed

text \<open>No two neighbours with the same text, and nothing but cleaned input segments, in order.\<close>

fun no_repeats :: "utext list \<Rightarrow> bool" where
  "no_repeats (t # u # ts) = (t \<noteq> u \<and> no_repeats (u # ts))"
| "no_repeats _ = True"

lemma no_repeats_snoc: "no_repeats (ts @ [t]) \<longleftrightarrow> no_repeats ts \<and> (ts \<noteq> [] \<longrightarrow> last ts \<noteq> t)"
  by (induction ts rule: no_repeats.induct) auto

definition cleaned_copy :: "(utext \<Rightarrow> utext) \<Rightarrow> segment \<Rightarrow> segment" where
  "cleaned_copy unescape g =
     \<lparr>sg_start = sg_start g, sg_end = sg_end g, sg_text = clean_text unescape (sg_text g)\<rparr>"

lemma clean_segments_facts:
  "list_all (\<lambda>g. clean (sg_text g)) (clean_segments unescape gs) \<and>
   no_repeats (map sg_text (clean_segments unescape gs)) \<and>
   subseq (clean_segments unescape gs) (map (cleaned_copy unescape) gs)"
proof (induction gs rule: rev_induct)
  case (snoc g gs)
  let ?c = "clean_segments unescape gs" and ?t = "clean_text unescape (sg_text g)"
  have step: "clean_segments unescape (gs @ [g]) =
      (if ?t = [] \<or> ?c \<noteq> [] \<and> sg_text (last ?c) = ?t then ?c else ?c @ [cleaned_copy unescape g])"
    by (simp add: clean_segments_def cleaned_copy_def Let_def)
  have "subseq (?c @ [cleaned_copy unescape g]) (map (cleaned_copy unescape) (gs @ [g]))"
    using snoc by (simp add: list_emb_append_mono)
  moreover have "subseq ?c (map (cleaned_copy unescape) (gs @ [g]))"
    using snoc by (simp add: subseq_rev_drop_many)
  ultimately show ?case
    using snoc clean_clean_text [of unescape "sg_text g"]
    by (auto simp: step no_repeats_snoc last_map cleaned_copy_def)
qed (simp add: clean_segments_def)

text \<open>
  From subtitles to chunks. The cleaned transcript keeps segments of the input in
  order, each with single blanks between its words, none empty and no two neighbours equal;
  and for any positive limit chunking it succeeds with chunks that are non-empty, trimmed
  and within the limit and lose no character but blanks. When every word fits a chunk, the
  words of the chunks are exactly the words of the transcript: no word is cut.
\<close>
theorem clean_then_chunk:
  fixes n :: int and unescape :: "utext \<Rightarrow> utext" and t :: transcript
  assumes "0 < n"
  defines "ct \<equiv> clean_transcript unescape t"
  defines "wds \<equiv> concat (map (\<lambda>g. split_words (sg_text g)) (ts_segments ct))"
  shows "list_all (\<lambda>g. clean (sg_text g)) (ts_segments ct) \<and>
    no_repeats (map sg_text (ts_segments ct)) \<and>
    subseq (ts_segments ct) (map (cleaned_copy unescape) (ts_segments t)) \<and>
    (\<exists>cs. chunk_transcript ct n = Inr cs \<and>
       list_all (\<lambda>c. c \<noteq> [] \<and> int (length c) \<le> n \<and> strip c = c) cs \<and>
       concat (map (filter (\<lambda>c. \<not> is_space c)) cs) = concat wds \<and>
       (list_all (\<lambda>w. int (length w) \<le> n) wds \<longrightarrow> concat (map split_words cs) = wds))"
proof -
  let ?text = "join [32] (map sg_text (ts_segments ct))"
  have facts: "list_all (\<lambda>g. clean (sg_text g)) (ts_segments ct)"
    "no_repeats (map sg_text (ts_segments ct))"
    "subseq (ts_segments ct) (map (cleaned_copy unescape) (ts_segments t))"
    using clean_segments_facts [of unescape "ts_segments t"] by (simp_all add: ct_def clean_transcript_def)
  have words: "split_words ?text = wds" by (simp add: split_words_join wds_def comp_def)
  have "single_spaced ?text"
    using facts(1) clean_single_spaced by (intro single_spaced_join) (auto simp: list_all_iff)
  then have sp: "single_spaced (strip ?text)"
    using set_strip [of ?text] by (auto simp: single_spaced_def list_all_iff)
  from assms(1) have n: "0 < nat n" by simp
  from assms(1) have le: "length x \<le> nat n \<longleftrightarrow> int (length x) \<le> n" for x :: utext by linarith
  from split_chunks_facts [OF n trimmed_strip, of ?text] sp
  have "list_all (\<lambda>c. c \<noteq> [] \<and> int (length c) \<le> n \<and> strip c = c) (split_chunks (nat n) (strip ?text)) \<and>
    concat (map (filter (\<lambda>c. \<not> is_space c)) (split_chunks (nat n) (strip ?text))) = concat wds \<and>
    (list_all (\<lambda>w. int (length w) \<le> n) wds \<longrightarrow>
       concat (map split_words (split_chunks (nat n) (strip ?text))) = wds)"
    by (simp add: le filter_nonspace_strip split_words_strip words words_fit_def
        flip: split_words_concat)
  moreover have "chunk_transcript ct n = Inr (split_chunks (nat n) (strip ?text))"
    using assms(1) by (simp add: chunk_transcript_def chunk_text_def)
  ultimately show ?thesis using facts by auto
qed

text \<open>Applied to two subtitles and chunks of at most 8 characters.\<close>

theorem clean_then_chunk_witness:
  "\<exists>cs. chunk_transcript (clean_transcript (\<lambda>t. t)
      \<lparr>ts_segments = [\<lparr>sg_start = 0, sg_end = 1, sg_text = codes ''[Music] hello ''\<rparr>,
                      \<lparr>sg_start = 1, sg_end = 2, sg_text = codes ''big  world''\<rparr>],
       ts_language = codes ''en'', ts_source = []\<rparr>) 8 = Inr cs \<and>
     list_all (\<lambda>c. int (length c) \<le> 8) cs"
proof -
  have "list_all (\<lambda>c. int (length c) \<le> 8) cs"
    if "list_all (\<lambda>c. c \<noteq> [] \<and> int (length c) \<le> 8 \<and> strip c = c) cs" for cs
    using that by (auto simp: list_all_iff)
  with clean_then_chunk [of 8 "\<lambda>t. t"
      "\<lparr>ts_segments = [\<lparr>sg_start = 0, sg_end = 1, sg_text = codes ''[Music] hello ''\<rparr>,
                      \<lparr>sg_start = 1, sg_end = 2, sg_text = codes ''big  world''\<rparr>],
       ts_language = codes ''en'', ts_source = []\<rparr>"]
  show ?thesis by auto
qed

end
