(* ===== verification/Routing.thy ===== *)
theory Routing
  imports Database FtsText "HOL-Library.List_Lexorder"
begin

text \<open>
  Which recogniser transcribes a job: the recorded approvals of \<open>asr/approvals.py\<close>, the
  registry of \<open>asr/registry.py\<close>, the options \<open>runtime/handlers.py\<close> builds from the registry
  and the installed models, and the decision of \<open>asr/routing.py\<close>. Language tags are user
  text, so \<open>str.lower\<close> is a parameter.
\<close>

section \<open>Approvals\<close>

record model_approval =
  ma_tier :: string
  ma_approved :: bool
  ma_thresholds_version :: string
  ma_evidence :: string

definition FORMAL_DEFAULTS :: "((string \<times> string) \<times> model_approval) list" where
  "FORMAL_DEFAULTS =
     [((''sensevoice-small-int8'', ''2024-07-17''),
        \<lparr>ma_tier = ''standard'', ma_approved = True, ma_thresholds_version = ''v1'',
         ma_evidence = ''benchmarks/results/standard-v1.json''\<rparr>),
      ((''zipformer-ctc-small-zh-int8'', ''2025-07-16''),
        \<lparr>ma_tier = ''lite'', ma_approved = False, ma_thresholds_version = ''v1'',
         ma_evidence = ''benchmarks/results/lite-v1.json''\<rparr>),
      ((''whisper-cpp-base'', ''80da2d8''),
        \<lparr>ma_tier = ''multilingual'', ma_approved = False, ma_thresholds_version = ''v1'',
         ma_evidence = ''docs/ASR_RELEASE_GATE.md (no benchmark run: no pinned CLI runtime)''\<rparr>)]"

definition get_approval :: "string \<Rightarrow> string \<Rightarrow> model_approval option" where
  "get_approval model_id version = map_of FORMAL_DEFAULTS (model_id, version)"

definition is_formal_default :: "string \<Rightarrow> string \<Rightarrow> bool" where
  "is_formal_default model_id version =
     (case map_of FORMAL_DEFAULTS (model_id, version) of None \<Rightarrow> False | Some a \<Rightarrow> ma_approved a)"

section \<open>The registry\<close>

text \<open>
  What \<open>provider.inspect()\<close> reports. The registry is a dict, in insertion order; its values are
  whatever stands for a provider.
\<close>

record capabilities =
  cp_model_id :: string
  cp_model_version :: string
  cp_languages :: "utext list"

type_synonym registry = "(string \<times> capabilities) list"

definition register_provider :: "string \<Rightarrow> 'p \<Rightarrow> (string \<times> 'p) list \<Rightarrow> (string \<times> 'p) list" where
  "register_provider k c reg =
     (if k \<in> set (map fst reg) then map (\<lambda>(k', c'). if k' = k then (k', c) else (k', c')) reg
      else reg @ [(k, c)])"

definition unregister_provider :: "string \<Rightarrow> (string \<times> 'p) list \<Rightarrow> (string \<times> 'p) list" where
  "unregister_provider k reg = filter (\<lambda>(k', c'). k' \<noteq> k) reg"

definition get_provider :: "string \<Rightarrow> (string \<times> 'p) list \<Rightarrow> 'p option" where
  "get_provider k reg = map_of reg k"

definition list_providers :: "(string \<times> 'p) list \<Rightarrow> string list" where
  "list_providers reg = sort_key (map (of_char :: char \<Rightarrow> nat)) (map fst reg)"

section \<open>Routing\<close>

record provider_option =
  po_provider_id :: string
  po_model_id :: string
  po_model_version :: string
  po_tier :: string
  po_languages :: "utext list"
  po_installed :: bool
  po_formal_default :: bool

record routing_decision =
  rt_provider_id :: string
  rt_model_id :: string
  rt_model_version :: string
  rt_tier :: string
  rt_installed :: bool
  rt_recommendation :: bool
  rt_formal_default :: bool

definition SENSEVOICE_LANGUAGES :: "utext list" where
  "SENSEVOICE_LANGUAGES = map codes [''zh'', ''en'', ''ja'', ''ko'', ''yue'']"

definition QWEN3_LANGUAGES :: "utext list" where
  "QWEN3_LANGUAGES = map codes
     [''zh'', ''en'', ''yue'', ''ar'', ''de'', ''fr'', ''es'', ''pt'', ''id'', ''it'', ''ko'', ''ru'',
      ''th'', ''vi'', ''ja'', ''tr'', ''hi'', ''ms'', ''nl'', ''sv'', ''da'', ''fi'', ''pl'', ''cs'',
      ''fil'', ''fa'', ''el'', ''hu'', ''mk'', ''ro'']"

text \<open>\<open>token.replace("_", "-").split("-", 1)[0]\<close>, then the aliases.\<close>

definition normalize_language :: "(utext \<Rightarrow> utext) \<Rightarrow> utext option \<Rightarrow> utext option" where
  "normalize_language lower language =
     (case language of
        None \<Rightarrow> None
      | Some l \<Rightarrow>
          if l = [] \<or> lower l \<in> {codes ''auto'', codes ''unknown'', codes ''und''} then None
          else
           (let token = takeWhile (\<lambda>c. c \<noteq> 45) (replace_char 95 [45] (lower (strip l)))
            in Some (if token = codes ''cmn'' \<or> token = codes ''zho'' then codes ''zh''
                     else if token = codes ''cantonese'' then codes ''yue'' else token)))"

definition supports :: "provider_option \<Rightarrow> utext option \<Rightarrow> bool" where
  "supports opt language =
     (case language of
        None \<Rightarrow> True
      | Some l \<Rightarrow> codes ''*'' \<in> set (po_languages opt) \<or> l \<in> set (po_languages opt))"

definition decision :: "provider_option \<Rightarrow> routing_decision" where
  "decision opt =
     \<lparr>rt_provider_id = po_provider_id opt, rt_model_id = po_model_id opt,
      rt_model_version = po_model_version opt, rt_tier = po_tier opt,
      rt_installed = po_installed opt, rt_recommendation = (\<not> po_installed opt),
      rt_formal_default = po_formal_default opt\<rparr>"

text \<open>A dictionary comprehension keeps the last option of an id, a scan finds the first.\<close>

definition by_provider :: "provider_option list \<Rightarrow> string \<Rightarrow> provider_option option" where
  "by_provider options k = select_first (\<lambda>p. po_provider_id p = k) (rev options)"

fun first_of :: "(string \<Rightarrow> provider_option option) \<Rightarrow> string list \<Rightarrow> provider_option option" where
  "first_of f [] = None"
| "first_of f (k # ks) = (case f k of Some p \<Rightarrow> Some p | None \<Rightarrow> first_of f ks)"

definition covered :: "utext option \<Rightarrow> bool" where
  "covered lang = (case lang of None \<Rightarrow> True | Some l \<Rightarrow> l \<in> set SENSEVOICE_LANGUAGES)"

definition preferred_ids :: "utext option \<Rightarrow> string list" where
  "preferred_ids lang =
     (if covered lang
      then [''sherpa-onnx-standard'', ''sherpa-onnx-qwen3'', ''sherpa-onnx-lite'', ''whisper-cpp-base'']
      else [''sherpa-onnx-qwen3'', ''whisper-cpp-base''])"

definition recommended_ids :: "utext option \<Rightarrow> string list" where
  "recommended_ids lang =
     (if covered lang then [''sherpa-onnx-standard''] else [''whisper-cpp-base''])"

definition route_asr ::
  "(utext \<Rightarrow> utext) \<Rightarrow> utext option \<Rightarrow> string \<Rightarrow> provider_option list \<Rightarrow> routing_decision outcome" where
  "route_asr lower language preference options =
     (let lang = normalize_language lower language in
      if preference \<noteq> ''auto'' then
        (case by_provider options preference of
           None \<Rightarrow> Inl (ValueError ''unknown ASR provider'')
         | Some pinned \<Rightarrow>
             if \<not> supports pinned lang then Inl (ValueError ''language not supported'')
             else Inr (decision pinned))
      else
        (let installed = filter po_installed (filter (\<lambda>p. supports p lang) options)
         in case first_of (\<lambda>k. select_first (\<lambda>p. po_provider_id p = k) installed) (preferred_ids lang) of
              Some p \<Rightarrow> Inr (decision p)
            | None \<Rightarrow>
               (case first_of (by_provider options) (recommended_ids lang) of
                  Some p \<Rightarrow> Inr (decision p)
                | None \<Rightarrow> Inl (ValueError ''no ASR provider supports language''))))"

section \<open>The options of the pipeline\<close>

definition catalog_option ::
  "string \<Rightarrow> string \<Rightarrow> string \<Rightarrow> string \<Rightarrow> utext list \<Rightarrow> string list \<Rightarrow> string list \<Rightarrow> provider_option" where
  "catalog_option provider_id model_id model_version tier languages installed_ids installed_models =
     \<lparr>po_provider_id = provider_id, po_model_id = model_id, po_model_version = model_version,
      po_tier = tier, po_languages = languages,
      po_installed = (provider_id \<in> set installed_ids \<and> model_id \<in> set installed_models),
      po_formal_default = is_formal_default model_id model_version\<rparr>"

definition catalog :: "string list \<Rightarrow> string list \<Rightarrow> provider_option list" where
  "catalog ids ms =
     [catalog_option ''sherpa-onnx-lite'' ''zipformer-ctc-small-zh-int8'' ''2025-07-16'' ''lite''
        [codes ''zh''] ids ms,
      catalog_option ''sherpa-onnx-standard'' ''sensevoice-small-int8'' ''2024-07-17'' ''standard''
        (map codes [''zh'', ''en'', ''ja'', ''ko'', ''yue'']) ids ms,
      catalog_option ''sherpa-onnx-qwen3'' ''qwen3-asr-0.6b-int8'' ''2026-03-25'' ''qwen3''
        QWEN3_LANGUAGES ids ms,
      catalog_option ''whisper-cpp-base'' ''whisper-cpp-base'' ''80da2d8'' ''multilingual''
        [codes ''*''] ids ms]"

definition custom_option :: "string \<Rightarrow> capabilities \<Rightarrow> provider_option" where
  "custom_option k c =
     \<lparr>po_provider_id = k, po_model_id = cp_model_id c, po_model_version = cp_model_version c,
      po_tier = ''custom'', po_languages = cp_languages c, po_installed = True,
      po_formal_default = False\<rparr>"

definition provider_options :: "registry \<Rightarrow> database \<Rightarrow> provider_option list" where
  "provider_options reg d =
     (let installed_ids = list_providers reg;
          installed_models = map mi_model_id (installs d);
          options = catalog installed_ids installed_models;
          known = map po_provider_id options
      in options @ concat (map (\<lambda>k. case get_provider k reg of None \<Rightarrow> [] | Some c \<Rightarrow> [custom_option k c])
           (filter (\<lambda>k. k \<notin> set known) installed_ids)))"


section \<open>Automatic routing\<close>

lemma first_of_Some: "first_of f ks = Some p \<Longrightarrow> \<exists>k \<in> set ks. f k = Some p"
  by (induction ks) (auto split: option.splits)

lemma first_of_None: "first_of f ks = None \<longleftrightarrow> (\<forall>k \<in> set ks. f k = None)"
  by (induction ks) (auto split: option.splits)

lemma catalog_ids:
  "map po_provider_id (catalog ids ms) =
     [''sherpa-onnx-lite'', ''sherpa-onnx-standard'', ''sherpa-onnx-qwen3'', ''whisper-cpp-base'']"
  by (simp add: catalog_def catalog_option_def)

lemma select_first_map_id:
  "select_first (\<lambda>p. po_provider_id p = k) (t @ u) =
     (if k \<in> set (map po_provider_id t) then select_first (\<lambda>p. po_provider_id p = k) t
      else select_first (\<lambda>p. po_provider_id p = k) u)"
  by (induction t) auto

text \<open>Custom providers never shadow the catalogue.\<close>

lemma custom_ids:
  assumes "k \<in> set (map po_provider_id (catalog ids ms))"
  shows "k \<notin> set (map po_provider_id (concat (map (\<lambda>k. case get_provider k reg of None \<Rightarrow> []
    | Some c \<Rightarrow> [custom_option k c]) (filter (\<lambda>k. k \<notin> set (map po_provider_id (catalog ids ms))) is))))"
  using assms by (auto simp: custom_option_def split: option.splits)

lemma by_provider_catalog:
  assumes "k \<in> set (map po_provider_id (catalog (list_providers reg) (map mi_model_id (installs d))))"
  shows "by_provider (provider_options reg d) k =
    by_provider (catalog (list_providers reg) (map mi_model_id (installs d))) k"
  using custom_ids [OF assms, of reg "list_providers reg"]
  unfolding by_provider_def provider_options_def Let_def rev_append select_first_map_id
  by (simp only: set_map set_rev if_False)

lemma recommended_option:
  "\<exists>p \<in> set (provider_options reg d). first_of (by_provider (provider_options reg d)) (recommended_ids lang) = Some p \<and>
     supports p lang \<and> po_provider_id p = hd (recommended_ids lang) \<and>
     po_formal_default p = covered lang"
proof -
  let ?ids = "list_providers reg" and ?ms = "map mi_model_id (installs d)"
  let ?standard = "catalog ?ids ?ms ! 1" and ?whisper = "catalog ?ids ?ms ! 3"
  have s: "by_provider (provider_options reg d) ''sherpa-onnx-standard'' = Some ?standard"
    by (subst by_provider_catalog) (simp_all add: catalog_ids, simp add: catalog_def catalog_option_def by_provider_def)
  have w: "by_provider (provider_options reg d) ''whisper-cpp-base'' = Some ?whisper"
    by (subst by_provider_catalog) (simp_all add: catalog_ids, simp add: catalog_def catalog_option_def by_provider_def)
  have m: "?standard \<in> set (provider_options reg d)" "?whisper \<in> set (provider_options reg d)"
    by (simp_all add: provider_options_def Let_def catalog_def)
  show ?thesis
  proof (cases "covered lang")
    case True
    then have "supports ?standard lang"
      by (auto simp: covered_def supports_def catalog_def catalog_option_def SENSEVOICE_LANGUAGES_def
          split: option.splits)
    moreover have "po_provider_id ?standard = ''sherpa-onnx-standard''" "po_formal_default ?standard"
      by (simp_all add: catalog_def catalog_option_def is_formal_default_def FORMAL_DEFAULTS_def)
    ultimately show ?thesis using True s m(1) by (auto simp: recommended_ids_def)
  next
    case False
    have "supports ?whisper lang"
      by (simp add: supports_def catalog_def catalog_option_def split: option.split)
    moreover have "po_provider_id ?whisper = ''whisper-cpp-base''" "\<not> po_formal_default ?whisper"
      by (simp_all add: catalog_def catalog_option_def is_formal_default_def FORMAL_DEFAULTS_def)
    ultimately show ?thesis using False w m(2) by (auto simp: recommended_ids_def)
  qed
qed

text \<open>
  Automatic routing always decides. Whatever is registered and installed and whatever
  the language tag, the pipeline's options give a decision for one of them, and it supports
  the language; it is an installed one exactly when some preferred provider for the language
  is installed and supports it; otherwise it is a recommendation, of the formally approved
  Standard model for its languages and of the multilingual fallback for the others, never
  of Lite.
\<close>
theorem auto_route_total:
  "\<exists>p \<in> set (provider_options reg d). route_asr lower language ''auto'' (provider_options reg d) = Inr (decision p) \<and>
     supports p (normalize_language lower language) \<and>
     rt_recommendation (decision p) = (\<not> po_installed p) \<and>
     po_installed p = list_ex (\<lambda>q. po_installed q \<and> supports q (normalize_language lower language) \<and>
       po_provider_id q \<in> set (preferred_ids (normalize_language lower language))) (provider_options reg d) \<and>
     (if po_installed p then po_provider_id p \<in> set (preferred_ids (normalize_language lower language))
      else if covered (normalize_language lower language)
      then po_provider_id p = ''sherpa-onnx-standard'' \<and> po_formal_default p
      else po_provider_id p = ''whisper-cpp-base'')"
proof -
  let ?opts = "provider_options reg d" and ?lang = "normalize_language lower language"
  let ?inst = "filter po_installed (filter (\<lambda>p. supports p ?lang) ?opts)"
  let ?find = "\<lambda>k. select_first (\<lambda>p. po_provider_id p = k) ?inst"
  let ?some = "list_ex (\<lambda>q. po_installed q \<and> supports q ?lang \<and> po_provider_id q \<in> set (preferred_ids ?lang)) ?opts"
  show ?thesis
  proof (cases "first_of ?find (preferred_ids ?lang)")
    case (Some p)
    then obtain k where k: "k \<in> set (preferred_ids ?lang)" "?find k = Some p"
      using first_of_Some by blast
    from select_first_SomeD [OF k(2)] have p: "p \<in> set ?opts" "po_installed p" "supports p ?lang"
      "po_provider_id p = k" by auto
    then have ?some using k(1) by (auto simp: list_ex_iff)
    with p k(1) Some show ?thesis
      by (intro bexI [of _ p]) (simp_all add: route_asr_def Let_def decision_def)
  next
    case None
    then have none: "\<not> ?some"
      by (auto simp: first_of_None select_first_None_iff list_ex_iff)
    from recommended_option [of reg d ?lang] obtain p where p: "p \<in> set ?opts"
      "first_of (by_provider ?opts) (recommended_ids ?lang) = Some p" "supports p ?lang"
      "po_provider_id p = hd (recommended_ids ?lang)" "po_formal_default p = covered ?lang" by blast
    have "hd (recommended_ids ?lang) \<in> set (preferred_ids ?lang)"
      by (simp add: recommended_ids_def preferred_ids_def)
    with none p(1,3,4) have "\<not> po_installed p" by (auto simp: list_ex_iff)
    with p none None show ?thesis
      by (intro bexI [of _ p])
        (simp_all add: route_asr_def Let_def decision_def recommended_ids_def)
  qed
qed

end
