(* ===== verification/Handlers.thy ===== *)
theory Handlers
  imports Rebuild Files Transcripts Routing Worker
begin

text \<open>
  The stages of the pipeline, \<open>runtime/handlers.py\<close>, with \<open>reports/synthesis.py\<close> and the
  table of \<open>runtime/assembly.py\<close>. A handler takes the job and the state it can touch: the
  worker's session, the artifact store, the report directory and the prompts sent to the
  language model so far. The platform adapter, the recognisers, the language model, the clock
  and what other connections commit at each await are arguments. Payloads are stored as the
  bytes of their text.
\<close>

section \<open>The services\<close>

text \<open>\<open>AdapterError\<close>, \<open>LLMError\<close> and \<open>ASRError\<close> have the same three parts.\<close>

record service_error =
  se_error_code :: string
  se_message :: string
  se_retryable :: bool

record video_metadata =
  vm_video_id :: utext
  vm_platform :: platform
  vm_title :: utext
  vm_author :: utext
  vm_duration :: "rat option"
  vm_published_at :: "utext option"

record asr_result =
  rs_segments :: "segment list"
  rs_detected_language :: utext
  rs_provider_id :: string
  rs_model_id :: string
  rs_model_version :: string
  rs_warnings :: "utext list"

text \<open>
  Library facts beyond those of the rescan: the decimal text of a float and its value, a float
  with three decimals, \<open>html.unescape\<close>, the normal form of a URL that \<open>HttpUrl\<close> accepts, and
  the text of an exception.
\<close>

record 'dt stage_lib = "'dt rescan_lib" +
  sl_float_text :: "rat \<Rightarrow> utext"
  sl_read_float :: "utext \<Rightarrow> rat option"
  sl_fixed :: "rat \<Rightarrow> string"
  sl_unescape :: "utext \<Rightarrow> utext"
  sl_http_url :: "utext \<Rightarrow> utext option"
  sl_message :: "exn \<Rightarrow> string"
  sl_url_message :: "utext \<Rightarrow> string"

text \<open>
  \<open>sw_now k\<close> and \<open>sw_others k\<close> are the clock and what other connections commit at the \<open>k\<close>-th
  step of a handler. A recogniser gets the audio, the language and the keys to skip; it reports
  segments one by one, then fails or returns. The answer of the model may depend on the
  prompts before. \<open>sw_uuids\<close> are the draws for file names.
\<close>

record 'dt stage_world =
  sw_owner :: string
  sw_lease_seconds :: time
  sw_now :: "nat \<Rightarrow> time"
  sw_others :: "nat \<Rightarrow> database \<Rightarrow> database"
  sw_today :: 'dt
  sw_uuids :: "string \<times> string"
  sw_metadata :: "video_ref \<Rightarrow> service_error + video_metadata"
  sw_transcript :: "video_ref \<Rightarrow> service_error + transcript"
  sw_audio :: "video_ref \<Rightarrow> service_error + nat list"
  sw_registry :: registry
  sw_recognise :: "string \<Rightarrow> nat list \<Rightarrow> utext option \<Rightarrow> string set \<Rightarrow>
    segment list \<times> (service_error + asr_result)"
  sw_complete :: "utext list \<Rightarrow> utext \<Rightarrow> service_error + utext"

record stage_state =
  ss_session :: session
  ss_artifacts :: store
  ss_reports :: store
  ss_prompts :: "utext list"

type_synonym stage = "job \<Rightarrow> stage_state \<Rightarrow> stage_outcome outcome \<times> stage_state"

definition METADATA_ARTIFACT_TYPE :: string where
  "METADATA_ARTIFACT_TYPE = ''video_metadata''"

definition TRANSCRIPT_ARTIFACT_TYPE :: string where
  "TRANSCRIPT_ARTIFACT_TYPE = ''platform_transcript''"

definition CLEANED_ARTIFACT_TYPE :: string where
  "CLEANED_ARTIFACT_TYPE = ''cleaned_transcript''"

definition CHUNKS_ARTIFACT_TYPE :: string where
  "CHUNKS_ARTIFACT_TYPE = ''chunks''"

definition SUMMARIES_ARTIFACT_TYPE :: string where
  "SUMMARIES_ARTIFACT_TYPE = ''chunk_summaries''"

definition CHUNK_SUMMARY_ARTIFACT_TYPE :: string where
  "CHUNK_SUMMARY_ARTIFACT_TYPE = ''chunk_summary''"

definition REPORT_ARTIFACT_TYPE :: string where
  "REPORT_ARTIFACT_TYPE = ''report''"

definition AUDIO_ARTIFACT_TYPE :: string where
  "AUDIO_ARTIFACT_TYPE = ''audio''"

definition ASR_SEGMENT_ARTIFACT_TYPE :: string where
  "ASR_SEGMENT_ARTIFACT_TYPE = ''asr_segment''"

section \<open>Outcomes\<close>

definition stage_fingerprint :: "('dt, 'z) rescan_lib_scheme \<Rightarrow> utext \<Rightarrow> string" where
  "stage_fingerprint lib value = rl_sha256 lib (utf8_encode value)"

definition service_outcome :: "service_error \<Rightarrow> stage_outcome" where
  "service_outcome e =
     (if se_retryable e then transient (se_error_code e) None (Some (se_message e)) None
      else fatal (se_error_code e) (Some (se_message e)) None)"

definition asr_outcome :: "service_error \<Rightarrow> stage_outcome" where
  "asr_outcome e =
     (if se_error_code e = ''ASR_CANCELLED'' then fatal ''CANCELLED_BY_USER'' (Some ''cancelled'') None
      else service_outcome e)"

definition inline_artifact :: "string \<Rightarrow> string \<Rightarrow> string \<Rightarrow> utext \<Rightarrow> artifact_record" where
  "inline_artifact stage artifact_type fingerprint payload =
     \<lparr>ar_stage = stage, ar_artifact_type = artifact_type, ar_input_fingerprint = fingerprint,
      ar_schema_version = 1, ar_storage_kind = ''inline_json'', ar_payload_json = Some (ident payload),
      ar_relative_path = None, ar_content_hash = None, ar_byte_size = None\<rparr>"

definition file_artifact ::
  "string \<Rightarrow> string \<Rightarrow> string \<Rightarrow> string \<Rightarrow> string \<Rightarrow> int \<Rightarrow> artifact_record" where
  "file_artifact stage artifact_type fingerprint relative_path content_hash byte_size =
     \<lparr>ar_stage = stage, ar_artifact_type = artifact_type, ar_input_fingerprint = fingerprint,
      ar_schema_version = 1, ar_storage_kind = ''file'', ar_payload_json = None,
      ar_relative_path = Some relative_path, ar_content_hash = Some content_hash,
      ar_byte_size = Some byte_size\<rparr>"

definition internal_error :: "string \<Rightarrow> stage_outcome" where
  "internal_error detail = fatal ''INTERNAL_ERROR'' (Some detail) None"

definition probe_update :: "string \<Rightarrow> display_update" where
  "probe_update p = \<lparr>du_title = None, du_platform = None, du_subtitle_probe = Some p\<rparr>"

section \<open>Payloads\<close>

fun platform_value :: "platform \<Rightarrow> utext" where
  "platform_value YOUTUBE = codes ''youtube''"
| "platform_value BILIBILI = codes ''bilibili''"

definition metadata_to_json :: "('dt, 'z) stage_lib_scheme \<Rightarrow> video_metadata \<Rightarrow> utext" where
  "metadata_to_json lib m =
     dumps (sl_float_text lib) None
       (JObj [(codes ''video_id'', JStr (vm_video_id m)),
              (codes ''platform'', JStr (platform_value (vm_platform m))),
              (codes ''title'', JStr (vm_title m)),
              (codes ''author'', JStr (vm_author m)),
              (codes ''duration'', case vm_duration m of None \<Rightarrow> JNull | Some x \<Rightarrow> JFloat x),
              (codes ''published_at'', case vm_published_at m of None \<Rightarrow> JNull | Some t \<Rightarrow> JStr t)])"

definition segment_tree :: "segment \<Rightarrow> utext jtree" where
  "segment_tree g =
     JObj [(codes ''start'', JFloat (sg_start g)), (codes ''end'', JFloat (sg_end g)),
           (codes ''text'', JStr (sg_text g))]"

definition transcript_to_json :: "('dt, 'z) stage_lib_scheme \<Rightarrow> transcript \<Rightarrow> utext" where
  "transcript_to_json lib t =
     dumps (sl_float_text lib) None
       (JObj [(codes ''language'', JStr (ts_language t)), (codes ''source'', JStr (ts_source t)),
              (codes ''segments'', JArr (map segment_tree (ts_segments t)))])"

definition asr_segments_to_json :: "('dt, 'z) stage_lib_scheme \<Rightarrow> segment list \<Rightarrow> utext" where
  "asr_segments_to_json lib gs = dumps (sl_float_text lib) None (JArr (map segment_tree gs))"

definition texts_to_json :: "('dt, 'z) stage_lib_scheme \<Rightarrow> utext list \<Rightarrow> utext" where
  "texts_to_json lib ts = dumps (sl_float_text lib) None (JArr (map JStr ts))"

text \<open>
  A dictionary keeps the last of equal keys. A payload of another shape than the writers above
  give is refused at once; Python would fail when it first uses the odd value.
\<close>

definition MALFORMED :: exn where
  "MALFORMED = OtherException ''TypeError''"

definition json_payload :: "('dt, 'z) stage_lib_scheme \<Rightarrow> utext \<Rightarrow> utext jtree outcome" where
  "json_payload lib raw =
     (case loads (sl_read_float lib) raw of
        None \<Rightarrow> Inl (OtherException ''JSONDecodeError'')
      | Some v \<Rightarrow> Inr v)"

definition field_of :: "string \<Rightarrow> utext jtree \<Rightarrow> utext jtree option" where
  "field_of k v = (case v of JObj f \<Rightarrow> map_of (rev f) (codes k) | _ \<Rightarrow> None)"

definition text_field :: "string \<Rightarrow> utext jtree \<Rightarrow> utext outcome" where
  "text_field k v =
     (case field_of k v of
        None \<Rightarrow> Inl (KeyError k)
      | Some (JStr t) \<Rightarrow> Inr t
      | Some _ \<Rightarrow> Inl MALFORMED)"

definition text_or_empty :: "string \<Rightarrow> utext jtree \<Rightarrow> utext outcome" where
  "text_or_empty k v = (if field_of k v = None then Inr [] else text_field k v)"

definition number_field :: "string \<Rightarrow> utext jtree \<Rightarrow> rat outcome" where
  "number_field k v =
     (case field_of k v of
        None \<Rightarrow> Inl (KeyError k)
      | Some x \<Rightarrow> (case number (Some x) of None \<Rightarrow> Inl MALFORMED | Some q \<Rightarrow> Inr q))"

definition segment_of :: "utext jtree \<Rightarrow> segment outcome" where
  "segment_of v =
     and_then (number_field ''start'' v) (\<lambda>a. and_then (number_field ''end'' v) (\<lambda>b.
     and_then (text_field ''text'' v) (\<lambda>t. Inr \<lparr>sg_start = a, sg_end = b, sg_text = t\<rparr>)))"

fun segments_of :: "utext jtree list \<Rightarrow> segment list outcome" where
  "segments_of [] = Inr []"
| "segments_of (v # vs) =
     and_then (segment_of v) (\<lambda>g. and_then (segments_of vs) (\<lambda>gs. Inr (g # gs)))"

definition items_of :: "utext jtree \<Rightarrow> utext jtree list outcome" where
  "items_of v = (case v of JArr xs \<Rightarrow> Inr xs | _ \<Rightarrow> Inl MALFORMED)"

definition transcript_from_json :: "('dt, 'z) stage_lib_scheme \<Rightarrow> utext \<Rightarrow> transcript outcome" where
  "transcript_from_json lib raw =
     and_then (json_payload lib raw) (\<lambda>v.
     and_then (text_or_empty ''language'' v) (\<lambda>language.
     and_then (text_or_empty ''source'' v) (\<lambda>source.
     and_then (case field_of ''segments'' v of None \<Rightarrow> Inr [] | Some x \<Rightarrow> items_of x) (\<lambda>xs.
     and_then (segments_of xs) (\<lambda>gs.
       Inr \<lparr>ts_segments = gs, ts_language = language, ts_source = source\<rparr>)))))"

text \<open>The constraints of \<open>ASRSegment\<close>.\<close>

definition asr_segment_ok :: "segment \<Rightarrow> bool" where
  "asr_segment_ok g \<longleftrightarrow> 0 \<le> sg_start g \<and> sg_start g \<le> sg_end g"

definition asr_segments_from_json :: "('dt, 'z) stage_lib_scheme \<Rightarrow> utext \<Rightarrow> segment list outcome" where
  "asr_segments_from_json lib raw =
     and_then (json_payload lib raw) (\<lambda>v. and_then (items_of v) (\<lambda>xs. and_then (segments_of xs) (\<lambda>gs.
       if list_all asr_segment_ok gs then Inr gs else Inl (OtherException ''ValidationError''))))"

definition texts_of :: "utext jtree \<Rightarrow> utext list outcome" where
  "texts_of v =
     and_then (items_of v) (\<lambda>xs. case tag_texts xs of None \<Rightarrow> Inl MALFORMED | Some ts \<Rightarrow> Inr ts)"

definition segment_key :: "('dt, 'z) stage_lib_scheme \<Rightarrow> segment \<Rightarrow> string" where
  "segment_key lib g = sl_fixed lib (sg_start g) @ '':'' @ sl_fixed lib (sg_end g)"

section \<open>Awaiting\<close>

text \<open>Other connections commit; the session commits; a repository call on the session.\<close>

definition let_others :: "('dt, 'y) stage_world_scheme \<Rightarrow> nat \<Rightarrow> stage_state \<Rightarrow> stage_state" where
  "let_others w k st = st\<lparr>ss_session := interfere (sw_others w k) (ss_session st)\<rparr>"

definition commit_stage :: "stage_state \<Rightarrow> stage_state" where
  "commit_stage st = st\<lparr>ss_session := commit_tx (ss_session st)\<rparr>"

definition in_session :: "(session \<Rightarrow> 'a \<times> session) \<Rightarrow> stage_state \<Rightarrow> 'a \<times> stage_state" where
  "in_session f st = (case f (ss_session st) of (x, s) \<Rightarrow> (x, st\<lparr>ss_session := s\<rparr>))"

definition load_json_artifact ::
  "('dt, 'z) stage_lib_scheme \<Rightarrow> string \<Rightarrow> string \<Rightarrow> string \<Rightarrow> stage_state \<Rightarrow>
   utext option outcome \<times> stage_state" where
  "load_json_artifact lib job_id artifact_type fingerprint st =
     (case in_session (get_artifact job_id artifact_type fingerprint) st of
        (None, st') \<Rightarrow> (Inr None, st')
      | (Some a, st') \<Rightarrow>
          (if a_storage_kind a = ''inline_json'' then Inr (map_option text_of (a_payload_json a))
           else
            (case (a_relative_path a, a_content_hash a) of
               (Some p, Some h) \<Rightarrow>
                 and_then (read_file_verified (rl_sha256 lib) (ss_artifacts st') p h) (\<lambda>bs.
                   case utf8_decode bs of
                     None \<Rightarrow> Inl (OtherException ''UnicodeDecodeError'')
                   | Some t \<Rightarrow> Inr (Some t))
             | _ \<Rightarrow> Inr None), st'))"

definition detect ::
  "('dt, 'z) stage_lib_scheme \<Rightarrow> job \<Rightarrow> (video_ref \<Rightarrow> stage_state \<Rightarrow> stage_outcome outcome \<times> stage_state) \<Rightarrow>
   stage_state \<Rightarrow> stage_outcome outcome \<times> stage_state" where
  "detect lib job k st =
     (case detect_video (lib_bad_bracket (rl_py lib)) (lib_bad_nfkc (rl_py lib)) (j_url job) of
        Inr ref \<Rightarrow> k ref st
      | Inl (PlatformError code) \<Rightarrow> (Inr (fatal code (Some (sl_url_message lib (j_url job))) None), st)
      | Inl e \<Rightarrow> (Inl e, st))"

section \<open>Metadata, subtitles, audio\<close>

definition fetching_metadata ::
  "('dt, 'z) stage_lib_scheme \<Rightarrow> ('dt, 'y) stage_world_scheme \<Rightarrow> stage" where
  "fetching_metadata lib w job = detect lib job (\<lambda>ref st.
     let st = let_others w 0 st
     in case sw_metadata w ref of
          Inl e \<Rightarrow> (Inr (service_outcome e), st)
        | Inr m \<Rightarrow>
            (Inr (success FETCHING_SUBTITLES None
               (Some (inline_artifact ''fetching_metadata'' METADATA_ARTIFACT_TYPE
                  (stage_fingerprint lib (j_url job)) (metadata_to_json lib m)))
               (Some \<lparr>du_title = Some (vm_title m), du_platform = Some (platform_value (vm_platform m)),
                      du_subtitle_probe = None\<rparr>)), st))"

text \<open>\<open>OSError\<close> is an outcome, anything else propagates. \<open>ENOSPC\<close> is 28.\<close>

definition store_outcome ::
  "('dt, 'z) stage_lib_scheme \<Rightarrow> (string \<times> int \<Rightarrow> stage_outcome) \<Rightarrow> (string \<times> int) outcome \<Rightarrow>
   stage_outcome outcome" where
  "store_outcome lib ok r =
     (case r of
        Inr x \<Rightarrow> Inr (ok x)
      | Inl (OSError errno c) \<Rightarrow>
          Inr (fatal (if errno = 28 then ''DISK_SPACE_LOW'' else ''INTERNAL_ERROR'')
            (Some (sl_message lib (OSError errno c))) None)
      | Inl e \<Rightarrow> Inl e)"

definition store_artifact ::
  "('dt, 'z) stage_lib_scheme \<Rightarrow> ('dt, 'y) stage_world_scheme \<Rightarrow> string \<Rightarrow> nat list \<Rightarrow>
   (string \<times> int \<Rightarrow> stage_outcome) \<Rightarrow> stage_state \<Rightarrow> stage_outcome outcome \<times> stage_state" where
  "store_artifact lib w relative_path content ok st =
     (case write_file (rl_sha256 lib) (snd (sw_uuids w)) relative_path content (ss_artifacts st) of
        (r, fs) \<Rightarrow> (store_outcome lib ok r, st\<lparr>ss_artifacts := fs\<rparr>))"

definition subtitle_failure :: "job \<Rightarrow> service_error \<Rightarrow> stage_outcome" where
  "subtitle_failure job e =
     (if se_error_code e = ''SUBTITLE_MISSING'' then
        (if j_asr job = ''disabled'' then
           fatal ''ASR_DISABLED''
             (Some ''no subtitles and ASR disabled; some subtitles require a logged-in cookie browser'')
             (Some (probe_update ''none''))
         else success DOWNLOADING_AUDIO None None (Some (probe_update ''none'')))
      else if se_error_code e = ''SUBTITLE_UNAVAILABLE'' then
        no_outcome\<lparr>so_error_code := Some (se_error_code e), so_error_detail := Some (se_message e),
          so_retryable := se_retryable e, so_display_update := Some (probe_update ''unavailable'')\<rparr>
      else service_outcome e)"

definition fetching_subtitles ::
  "('dt, 'z) stage_lib_scheme \<Rightarrow> ('dt, 'y) stage_world_scheme \<Rightarrow> stage" where
  "fetching_subtitles lib w job = detect lib job (\<lambda>ref st.
     let st = let_others w 0 st
     in case sw_transcript w ref of
          Inl e \<Rightarrow> (Inr (subtitle_failure job e), st)
        | Inr t \<Rightarrow>
            let content = utf8_encode (transcript_to_json lib t);
                relative_path = j_job_id job @ ''/'' @ TRANSCRIPT_ARTIFACT_TYPE @ ''_'' @
                  rl_sha256 lib content @ ''.json''
            in store_artifact lib w relative_path content
                 (\<lambda>(h, n). success CLEANING_TRANSCRIPT None
                    (Some (file_artifact ''fetching_subtitles'' TRANSCRIPT_ARTIFACT_TYPE
                       (stage_fingerprint lib (j_url job)) relative_path h n))
                    (Some (probe_update ''found''))) st)"

definition downloading_audio ::
  "('dt, 'z) stage_lib_scheme \<Rightarrow> ('dt, 'y) stage_world_scheme \<Rightarrow> stage" where
  "downloading_audio lib w job = detect lib job (\<lambda>ref st.
     let st = let_others w 0 st
     in case sw_audio w ref of
          Inl e \<Rightarrow> (Inr (service_outcome e), st)
        | Inr content \<Rightarrow>
            let relative_path = j_job_id job @ ''/audio_'' @ rl_sha256 lib content @ ''.wav''
            in store_artifact lib w relative_path content
                 (\<lambda>(h, n). success TRANSCRIBING None
                    (Some (file_artifact ''downloading_audio'' AUDIO_ARTIFACT_TYPE
                       (stage_fingerprint lib (j_url job)) relative_path h n)) None) st)"

section \<open>Transcription\<close>

text \<open>\<open>on_segment\<close>: each reported segment is saved with all before it.\<close>

fun checkpoint_segments ::
  "('dt, 'z) stage_lib_scheme \<Rightarrow> ('dt, 'y) stage_world_scheme \<Rightarrow> string \<Rightarrow> string \<Rightarrow> nat \<Rightarrow>
   segment list \<Rightarrow> segment list \<Rightarrow> stage_state \<Rightarrow> unit outcome \<times> stage_state" where
  "checkpoint_segments lib w job_id fingerprint k done [] st = (Inr (), st)"
| "checkpoint_segments lib w job_id fingerprint k done (g # gs) st =
     (case in_session (save_artifact_inline job_id (sw_owner w) (sw_now w k) ''transcribing''
             ASR_SEGMENT_ARTIFACT_TYPE fingerprint 1 (ident (asr_segments_to_json lib (done @ [g]))))
             (let_others w k st) of
        (Inl e, st') \<Rightarrow> (Inl e, st')
      | (Inr _, st') \<Rightarrow> checkpoint_segments lib w job_id fingerprint (Suc k) (done @ [g]) gs st')"

definition asr_transcript :: "job \<Rightarrow> segment list \<Rightarrow> asr_result \<Rightarrow> transcript" where
  "asr_transcript job done result =
     \<lparr>ts_segments = done @ rs_segments result,
      ts_language = (if rs_detected_language result \<noteq> [] then rs_detected_language result
                     else case j_language job of None \<Rightarrow> [] | Some l \<Rightarrow> text_of l),
      ts_source = text_of (rs_provider_id result) @ codes ''-asr''\<rparr>"

definition recognise ::
  "('dt, 'z) stage_lib_scheme \<Rightarrow> ('dt, 'y) stage_world_scheme \<Rightarrow> string \<Rightarrow> job \<Rightarrow> nat list \<Rightarrow>
   segment list \<Rightarrow> stage_state \<Rightarrow> stage_outcome outcome \<times> stage_state" where
  "recognise lib w provider_id job audio done st =
     (let fingerprint = stage_fingerprint lib (j_url job);
          (reported, answer) = sw_recognise w provider_id audio (map_option text_of (j_language job))
             (set (map (segment_key lib) done));
          (r, st) = checkpoint_segments lib w (j_job_id job) fingerprint 2 done reported (commit_stage st)
      in case r of
           Inl e \<Rightarrow> (Inl e, st)
         | Inr _ \<Rightarrow>
            (case answer of
               Inl e \<Rightarrow> (Inr (asr_outcome e), st)
             | Inr result \<Rightarrow>
                 (Inr (success CLEANING_TRANSCRIPT None
                    (Some (inline_artifact ''transcribing'' TRANSCRIPT_ARTIFACT_TYPE fingerprint
                       (transcript_to_json lib (asr_transcript job done result)))) None), st)))"

text \<open>The checkpoint of an earlier attempt: its segments are skipped and kept.\<close>

definition resume_checkpoint ::
  "('dt, 'z) stage_lib_scheme \<Rightarrow> job \<Rightarrow> stage_state \<Rightarrow> segment list outcome \<times> stage_state" where
  "resume_checkpoint lib job st =
     (case in_session (get_artifact (j_job_id job) ASR_SEGMENT_ARTIFACT_TYPE
             (stage_fingerprint lib (j_url job))) st of
        (checkpoint, st') \<Rightarrow>
          (case Option.bind checkpoint a_payload_json of
             None \<Rightarrow> Inr []
           | Some raw \<Rightarrow> asr_segments_from_json lib (text_of raw), st'))"

definition transcribe_with ::
  "('dt, 'z) stage_lib_scheme \<Rightarrow> ('dt, 'y) stage_world_scheme \<Rightarrow> string \<Rightarrow> stage" where
  "transcribe_with lib w provider_id job st =
     (case in_session (get_artifact (j_job_id job) AUDIO_ARTIFACT_TYPE (stage_fingerprint lib (j_url job))) st of
        (artifact, st1) \<Rightarrow>
          (case (Option.bind artifact a_relative_path, Option.bind artifact a_content_hash) of
             (Some p, Some h) \<Rightarrow>
               (case read_file_verified (rl_sha256 lib) (ss_artifacts st1) p h of
                  Inl e \<Rightarrow> (Inl e, st1)
                | Inr audio \<Rightarrow>
                   (case resume_checkpoint lib job st1 of
                      (Inl e, st2) \<Rightarrow> (Inl e, st2)
                    | (Inr done, st2) \<Rightarrow> recognise lib w provider_id job audio done st2))
           | _ \<Rightarrow> (Inr (internal_error ''missing audio artifact''), st1)))"

definition transcribing ::
  "('dt, 'z) stage_lib_scheme \<Rightarrow> ('dt, 'y) stage_world_scheme \<Rightarrow> string \<Rightarrow> stage" where
  "transcribing lib w default_provider job st =
     (let st0 = (let_others w 0 st)\<lparr>ss_session := autobegin (ss_session (let_others w 0 st))\<rparr>;
          preference = (case j_asr_provider_id job of
              Some (c # cs) \<Rightarrow> c # cs
            | _ \<Rightarrow> default_provider)
      in case route_asr (lib_lower (rl_py lib)) (map_option text_of (j_language job)) preference
                (provider_options (sw_registry w) (working (ss_session st0))) of
           Inl e \<Rightarrow> (Inr (fatal ''ASR_LANGUAGE_UNSUPPORTED'' (Some (sl_message lib e)) None), st0)
         | Inr d \<Rightarrow>
            (case in_session (in_write (pin_job_asr_route (j_job_id job) (sw_owner w) (sw_now w 1)
                    (rt_provider_id d) (rt_model_id d) (rt_model_version d)
                    (if rt_recommendation d then Some (rt_model_id d) else None)))
                    (let_others w 1 (commit_stage st0)) of
               (Inl e, st1) \<Rightarrow> (Inl e, st1)
             | (Inr _, st1) \<Rightarrow>
                 if \<not> rt_installed d \<or> get_provider (rt_provider_id d) (sw_registry w) = None
                 then (Inr (success WAITING_FOR_MODEL None None None), st1)
                 else transcribe_with lib w (rt_provider_id d) job st1))"

section \<open>Cleaning and chunking\<close>

text \<open>A stage that turns the payload of one artifact into that of the next.\<close>

definition convert_artifact ::
  "('dt, 'z) stage_lib_scheme \<Rightarrow> string \<Rightarrow> string \<Rightarrow> (utext \<Rightarrow> stage_outcome outcome) \<Rightarrow> stage" where
  "convert_artifact lib artifact_type missing f job st =
     (case load_json_artifact lib (j_job_id job) artifact_type (stage_fingerprint lib (j_url job)) st of
        (Inl e, st') \<Rightarrow> (Inl e, st')
      | (Inr None, st') \<Rightarrow> (Inr (internal_error missing), st')
      | (Inr (Some raw), st') \<Rightarrow> (f raw, st'))"

definition cleaning_transcript ::
  "('dt, 'z) stage_lib_scheme \<Rightarrow> ('dt, 'y) stage_world_scheme \<Rightarrow> stage" where
  "cleaning_transcript lib w job st =
     convert_artifact lib TRANSCRIPT_ARTIFACT_TYPE ''missing transcript artifact''
       (\<lambda>raw. and_then (transcript_from_json lib raw) (\<lambda>t.
          Inr (success CHUNKING None
            (Some (inline_artifact ''cleaning_transcript'' CLEANED_ARTIFACT_TYPE
               (stage_fingerprint lib (j_url job))
               (transcript_to_json lib (clean_transcript (sl_unescape lib) t)))) None)))
       job (let_others w 0 st)"

definition MAX_CHUNK_CHARS :: int where
  "MAX_CHUNK_CHARS = 4000"

definition chunking ::
  "('dt, 'z) stage_lib_scheme \<Rightarrow> ('dt, 'y) stage_world_scheme \<Rightarrow> stage" where
  "chunking lib w job st =
     convert_artifact lib CLEANED_ARTIFACT_TYPE ''missing cleaned transcript''
       (\<lambda>raw. and_then (transcript_from_json lib raw) (\<lambda>t.
          and_then (chunk_transcript t MAX_CHUNK_CHARS) (\<lambda>chunks.
          Inr (success SUMMARIZING_CHUNKS None
            (Some (inline_artifact ''chunking'' CHUNKS_ARTIFACT_TYPE
               (stage_fingerprint lib (j_url job)) (texts_to_json lib chunks))) None))))
       job (let_others w 0 st)"

section \<open>Summaries\<close>

definition summary_prompt :: "utext \<Rightarrow> utext" where
  "summary_prompt chunk =
     codes ''Summarize the following transcript chunk concisely:'' @ [10, 10] @ chunk"

definition chunk_fingerprint :: "('dt, 'z) rescan_lib_scheme \<Rightarrow> job \<Rightarrow> utext \<Rightarrow> string" where
  "chunk_fingerprint lib job chunk =
     stage_fingerprint lib
       (codes (stage_fingerprint lib chunk) @ codes ''|'' @ text_of (j_config_fingerprint job))"

text \<open>One call of the model, with what others commit while it runs.\<close>

definition complete ::
  "('dt, 'y) stage_world_scheme \<Rightarrow> nat \<Rightarrow> utext \<Rightarrow> stage_state \<Rightarrow> (service_error + utext) \<times> stage_state" where
  "complete w k prompt st =
     (sw_complete w (ss_prompts st) prompt, (let_others w k st)\<lparr>ss_prompts := ss_prompts st @ [prompt]\<rparr>)"

text \<open>
  The context's services use sessions of their own. \<open>Inl\<close> inside is the outcome that ends the
  stage early.
\<close>

definition cancelled_now :: "job \<Rightarrow> stage_state \<Rightarrow> bool" where
  "cancelled_now job st =
     fst (is_cancel_requested (j_job_id job) (open_session (committed (ss_session st))))"

definition renew_now ::
  "('dt, 'y) stage_world_scheme \<Rightarrow> nat \<Rightarrow> job \<Rightarrow> stage_state \<Rightarrow> bool outcome \<times> stage_state" where
  "renew_now w k job st =
     (case renew_lease (j_job_id job) (sw_owner w) (sw_now w k) (sw_lease_seconds w)
             ((open_session (committed (ss_session st)))\<lparr>locked := locked (ss_session st)\<rparr>) of
        (r, s) \<Rightarrow> (r, st\<lparr>ss_session := (ss_session st)\<lparr>committed := committed s\<rparr>\<rparr>))"

text \<open>The summary of one chunk, from its checkpoint or from the model.\<close>

definition summarize_chunk ::
  "('dt, 'z) stage_lib_scheme \<Rightarrow> ('dt, 'y) stage_world_scheme \<Rightarrow> nat \<Rightarrow> job \<Rightarrow> utext \<Rightarrow> stage_state \<Rightarrow>
   (stage_outcome + utext) outcome \<times> stage_state" where
  "summarize_chunk lib w k job chunk st =
     (case in_session (get_artifact (j_job_id job) CHUNK_SUMMARY_ARTIFACT_TYPE (chunk_fingerprint lib job chunk)) st of
        (existing, st0) \<Rightarrow>
          let st1 = commit_stage st0 in
          (case Option.bind existing a_payload_json of
             Some summary \<Rightarrow> (Inr (Inr (text_of summary)), st1)
           | None \<Rightarrow>
              (case complete w k (summary_prompt chunk) st1 of
                 (Inl e, st2) \<Rightarrow> (Inr (Inl (service_outcome e)), st2)
               | (Inr summary, st2) \<Rightarrow>
                  (case in_session (save_artifact_inline (j_job_id job) (sw_owner w) (sw_now w k)
                          ''summarizing_chunks'' CHUNK_SUMMARY_ARTIFACT_TYPE (chunk_fingerprint lib job chunk)
                          1 (ident summary)) st2 of
                     (Inl e, st3) \<Rightarrow> (Inl e, st3)
                   | (Inr _, st3) \<Rightarrow> (Inr (Inr summary), st3)))))"

fun summarize_chunks ::
  "('dt, 'z) stage_lib_scheme \<Rightarrow> ('dt, 'y) stage_world_scheme \<Rightarrow> nat \<Rightarrow> job \<Rightarrow> utext list \<Rightarrow> utext list \<Rightarrow>
   stage_state \<Rightarrow> (stage_outcome + utext list) outcome \<times> stage_state" where
  "summarize_chunks lib w k job summaries [] st = (Inr (Inr summaries), st)"
| "summarize_chunks lib w k job summaries (chunk # chunks) st =
     (let st0 = let_others w k st in
      if cancelled_now job st0 then (Inr (Inl (fatal ''CANCELLED_BY_USER'' (Some ''cancelled'') None)), st0)
      else
       (case summarize_chunk lib w (k + 1) job chunk st0 of
          (Inl e, st1) \<Rightarrow> (Inl e, st1)
        | (Inr (Inl out), st1) \<Rightarrow> (Inr (Inl out), st1)
        | (Inr (Inr summary), st1) \<Rightarrow>
           (case renew_now w (k + 2) job (let_others w (k + 2) st1) of
              (Inl e, st2) \<Rightarrow> (Inl e, st2)
            | (Inr False, st2) \<Rightarrow> (Inr (Inl (fatal ''ENGINE_RESTARTED'' (Some ''lease lost'') None)), st2)
            | (Inr True, st2) \<Rightarrow> summarize_chunks lib w (k + 3) job (summaries @ [summary]) chunks st2)))"

definition summarizing_chunks ::
  "('dt, 'z) stage_lib_scheme \<Rightarrow> ('dt, 'y) stage_world_scheme \<Rightarrow> stage" where
  "summarizing_chunks lib w job st =
     (let fingerprint = stage_fingerprint lib (j_url job) in
      case load_json_artifact lib (j_job_id job) CHUNKS_ARTIFACT_TYPE fingerprint (let_others w 0 st) of
        (Inl e, st1) \<Rightarrow> (Inl e, st1)
      | (Inr None, st1) \<Rightarrow> (Inr (internal_error ''missing chunks artifact''), st1)
      | (Inr (Some raw), st1) \<Rightarrow>
         (case and_then (json_payload lib raw) texts_of of
            Inl e \<Rightarrow> (Inl e, st1)
          | Inr chunks \<Rightarrow>
             (case summarize_chunks lib w 1 job [] chunks (commit_stage st1) of
                (Inl e, st2) \<Rightarrow> (Inl e, st2)
              | (Inr (Inl out), st2) \<Rightarrow> (Inr out, st2)
              | (Inr (Inr summaries), st2) \<Rightarrow>
                  (Inr (success GENERATING_REPORT None
                     (Some (inline_artifact ''summarizing_chunks'' SUMMARIES_ARTIFACT_TYPE fingerprint
                        (texts_to_json lib summaries))) None), st2))))"

section \<open>Synthesis\<close>

record synthesis_result =
  sy_core_summary :: utext
  sy_key_takeaways :: "utext list"
  sy_timeline_outline :: utext
  sy_content_analysis :: utext

text \<open>
  \<open>^```(?:json)?\s*(.*?)\s*```$\<close> on a stripped text: the fence is taken off if the text is long
  enough to hold both ends. The name of the language has no backquote, so trying it first
  decides.
\<close>

definition fence :: utext where
  "fence = [96, 96, 96]"

definition strip_fence :: "utext \<Rightarrow> utext" where
  "strip_fence t =
     (if length t \<ge> 6 \<and> take 3 t = fence \<and> drop (length t - 3) t = fence then
        (let inner = drop 3 (take (length t - 3) t)
         in strip (if take 4 inner = codes ''json'' then drop 4 inner else inner))
      else t)"

definition SYNTHESIS_KEYS :: "utext list" where
  "SYNTHESIS_KEYS = map codes [''core_summary'', ''key_takeaways'', ''timeline_outline'', ''content_analysis'']"

text \<open>Strict validation: exactly these keys, non-empty texts, a non-empty list of texts.\<close>

definition synthesis_of :: "utext jtree \<Rightarrow> synthesis_result option" where
  "synthesis_of v =
     (case v of
        JObj f \<Rightarrow>
          (case (field_of ''core_summary'' v, field_of ''key_takeaways'' v, field_of ''timeline_outline'' v,
                 field_of ''content_analysis'' v) of
             (Some (JStr a), Some (JArr xs), Some (JStr b), Some (JStr c)) \<Rightarrow>
               (case tag_texts xs of
                  Some ts \<Rightarrow>
                    if a \<noteq> [] \<and> ts \<noteq> [] \<and> b \<noteq> [] \<and> c \<noteq> [] \<and> list_all (\<lambda>k. k \<in> set SYNTHESIS_KEYS) (map fst f)
                    then Some \<lparr>sy_core_summary = a, sy_key_takeaways = ts, sy_timeline_outline = b,
                               sy_content_analysis = c\<rparr>
                    else None
                | None \<Rightarrow> None)
           | _ \<Rightarrow> None)
      | _ \<Rightarrow> None)"

definition parse_synthesis :: "('dt, 'z) stage_lib_scheme \<Rightarrow> utext \<Rightarrow> synthesis_result outcome" where
  "parse_synthesis lib raw =
     (case Option.bind (loads (sl_read_float lib) (strip (strip_fence (strip raw)))) synthesis_of of
        None \<Rightarrow> Inl (SynthesisError ''synthesis'')
      | Some r \<Rightarrow> Inr r)"

definition synthesis_prompt :: "utext list \<Rightarrow> utext" where
  "synthesis_prompt summaries =
     codes ''You are producing the sections of a structured video analysis report. '' @
     codes ''Given the chunk summaries below, return a JSON object with these keys:'' @ [10] @
     codes ''- \"core_summary\": a concise summary of the whole video'' @ [10] @
     codes ''- \"key_takeaways\": a list of 3-5 short key takeaways'' @ [10] @
     codes ''- \"timeline_outline\": a markdown outline of the video structure'' @ [10] @
     codes ''- \"content_analysis\": analysis of the argument and structure'' @ [10] @
     codes ''Return only the JSON object, no commentary.'' @ [10, 10] @
     codes ''Chunk summaries:'' @ [10] @ takeaways_text summaries"

section \<open>The report\<close>

definition pipeline_document ::
  "('dt, 'z) stage_lib_scheme \<Rightarrow> ('dt, 'y) stage_world_scheme \<Rightarrow> job \<Rightarrow> utext \<Rightarrow> utext \<Rightarrow> utext \<Rightarrow> utext \<Rightarrow>
   transcript option \<Rightarrow> synthesis_result \<Rightarrow> 'dt report_doc outcome" where
  "pipeline_document lib w job platform video_id title author transcript r =
     (case sl_http_url lib (j_url job) of
        None \<Rightarrow> Inl (OtherException ''ValidationError'')
      | Some url \<Rightarrow>
          let d = \<lparr>dc_schema_version = 1, dc_analysis_id = text_of (j_job_id job), dc_source_url = url,
                dc_platform = platform, dc_video_id = video_id, dc_title = title, dc_author = author,
                dc_published_at = None, dc_analyzed_at = sw_today w,
                dc_summary_mode = text_of (j_mode job),
                dc_language = (case transcript of None \<Rightarrow> [] | Some t \<Rightarrow> ts_language t),
                dc_asr_provider = (case j_asr_provider_id job of None \<Rightarrow> [] | Some p \<Rightarrow> text_of p),
                dc_asr_model = (case j_asr_model_id job of None \<Rightarrow> [] | Some m \<Rightarrow> text_of m),
                dc_asr_model_version = (case j_asr_model_version job of None \<Rightarrow> [] | Some v \<Rightarrow> text_of v),
                dc_tags = [], dc_core_summary = sy_core_summary r,
                dc_key_takeaways = sy_key_takeaways r, dc_timeline_outline = sy_timeline_outline r,
                dc_content_analysis = sy_content_analysis r, dc_comment_sentiment = [],
                dc_video_information = [], dc_transcript = None\<rparr>
          in if valid_document (rl_py lib) d then Inr d else Inl (OtherException ''ValidationError''))"

definition publish_report ::
  "('dt, 'z) stage_lib_scheme \<Rightarrow> ('dt, 'y) stage_world_scheme \<Rightarrow> job \<Rightarrow> 'dt report_doc \<Rightarrow> stage_state \<Rightarrow>
   stage_outcome outcome \<times> stage_state" where
  "publish_report lib w job d st =
     (let fingerprint = stage_fingerprint lib (j_url job);
          content = utf8_encode (render_markdown (rl_py lib) d);
          filename = ident (report_filename (dc_title d) (text_of (j_job_id job)) (rl_sha256 lib content));
          (previous, st1) = in_session (get_artifact (j_job_id job) REPORT_ARTIFACT_TYPE fingerprint) st
      in case write_report (rl_sha256 lib) (sw_uuids w) filename content
                (Option.bind previous a_content_hash) (ss_reports st1) of
           (r, fs) \<Rightarrow>
             (case r of
                Inr x \<Rightarrow>
                  Inr (success INDEXING None
                    (Some (file_artifact ''generating_report'' REPORT_ARTIFACT_TYPE fingerprint
                       (rw_path x) (rw_content_hash x) (int (length content)))) None)
              | Inl (ReportConflictError name) \<Rightarrow>
                  Inr (fatal ''REPORT_CONFLICT'' (Some (sl_message lib (ReportConflictError name))) None)
              | Inl e \<Rightarrow> Inl e,
              st1\<lparr>ss_reports := fs\<rparr>))"

text \<open>Reading the metadata happens after the model has answered, as in the source.\<close>

definition write_synthesis ::
  "('dt, 'z) stage_lib_scheme \<Rightarrow> ('dt, 'y) stage_world_scheme \<Rightarrow> job \<Rightarrow> utext jtree \<Rightarrow> transcript option \<Rightarrow>
   utext \<Rightarrow> stage_state \<Rightarrow> stage_outcome outcome \<times> stage_state" where
  "write_synthesis lib w job metadata transcript answer st =
     (case parse_synthesis lib answer of
        Inl e \<Rightarrow> (Inr (internal_error (sl_message lib e)), st)
      | Inr r \<Rightarrow>
         (case and_then (text_field ''platform'' metadata) (\<lambda>platform.
               and_then (text_field ''video_id'' metadata) (\<lambda>video_id.
               and_then (text_field ''title'' metadata) (\<lambda>title.
               and_then (text_or_empty ''author'' metadata) (\<lambda>author.
                 pipeline_document lib w job platform video_id title author transcript r)))) of
            Inl e \<Rightarrow> (Inl e, st)
          | Inr d \<Rightarrow> publish_report lib w job d st))"

definition load_three ::
  "('dt, 'z) stage_lib_scheme \<Rightarrow> job \<Rightarrow> stage_state \<Rightarrow>
   (utext jtree \<times> utext list \<times> transcript option) option outcome \<times> stage_state" where
  "load_three lib job st =
     (let fingerprint = stage_fingerprint lib (j_url job);
          (metadata, st1) = load_json_artifact lib (j_job_id job) METADATA_ARTIFACT_TYPE fingerprint st;
          (summaries, st2) = load_json_artifact lib (j_job_id job) SUMMARIES_ARTIFACT_TYPE fingerprint st1;
          (transcript, st3) = load_json_artifact lib (j_job_id job) CLEANED_ARTIFACT_TYPE fingerprint st2
      in (and_then metadata (\<lambda>m. and_then summaries (\<lambda>s.
            case (m, s) of
              (Some m, Some s) \<Rightarrow>
                and_then (json_payload lib m) (\<lambda>m. and_then (and_then (json_payload lib s) texts_of) (\<lambda>s.
                and_then transcript (\<lambda>t.
                  case t of
                    Some (c # cs) \<Rightarrow>
                      and_then (transcript_from_json lib (c # cs)) (\<lambda>t. Inr (Some (m, s, Some t)))
                  | _ \<Rightarrow> Inr (Some (m, s, None)))))
            | _ \<Rightarrow> Inr None)), st3))"

definition generating_report ::
  "('dt, 'z) stage_lib_scheme \<Rightarrow> ('dt, 'y) stage_world_scheme \<Rightarrow> stage" where
  "generating_report lib w job st =
     (case load_three lib job (let_others w 0 st) of
        (Inl e, st1) \<Rightarrow> (Inl e, st1)
      | (Inr None, st1) \<Rightarrow> (Inr (internal_error ''missing metadata or summaries artifact''), st1)
      | (Inr (Some (metadata, summaries, transcript)), st1) \<Rightarrow>
         (case complete w 1 (synthesis_prompt summaries) (commit_stage st1) of
            (Inl e, st2) \<Rightarrow> (Inr (service_outcome e), st2)
          | (Inr answer, st2) \<Rightarrow> write_synthesis lib w job metadata transcript answer st2))"

section \<open>Indexing\<close>

definition pipeline_entry ::
  "('dt, 'z) stage_lib_scheme \<Rightarrow> job \<Rightarrow> string \<Rightarrow> string \<Rightarrow> int option \<Rightarrow> 'dt parsed_report \<Rightarrow> report_entry" where
  "pipeline_entry lib job relative_path content_hash byte_size p =
     \<lparr>re_job_id = j_job_id job, re_analysis_id = ident (pr_analysis_id p),
      re_title = pr_title p, re_platform = pr_platform p, re_author = pr_author p,
      re_video_id = ident (pr_video_id p), re_source_url = pr_source_url p,
      re_published_at = map_option (rl_timestamp lib) (pr_published_at p),
      re_analyzed_at = rl_timestamp lib (pr_analyzed_at p),
      re_summary_mode = ident (pr_summary_mode p), re_language = ident (pr_language p),
      re_asr_provider = ident (pr_asr_provider p), re_asr_model = ident (pr_asr_model p),
      re_asr_model_version = ident (pr_asr_model_version p), re_tags = pr_tags p,
      re_summary_preview = take 200 (pr_core_summary p), re_relative_path = relative_path,
      re_content_hash = content_hash, re_byte_size = byte_size, re_doc_source = ''pipeline''\<rparr>"

definition index_report ::
  "('dt, 'z) stage_lib_scheme \<Rightarrow> report_entry \<Rightarrow> 'dt parsed_report \<Rightarrow> time \<Rightarrow> session \<Rightarrow> unit outcome \<times> session" where
  "index_report lib entry p now = in_write (\<lambda>s.
     case upsert_report_document (lib_lower (rl_py lib)) entry (index_body p) now (working s) of
       (Inl e, _) \<Rightarrow> (Inl e, s)
     | (Inr _, d) \<Rightarrow> (Inr (), write_db d s))"

definition index_file ::
  "('dt, 'z) stage_lib_scheme \<Rightarrow> ('dt, 'y) stage_world_scheme \<Rightarrow> job \<Rightarrow> string \<Rightarrow> string \<Rightarrow> int option \<Rightarrow>
   utext \<Rightarrow> stage_state \<Rightarrow> stage_outcome outcome \<times> stage_state" where
  "index_file lib w job relative_path content_hash byte_size content st =
     (case decode_report_bytes (rl_py lib) (utf8_encode content) of
        Inl (MarkdownParseError code) \<Rightarrow>
          (Inr (fatal ''INDEX_PARSE_FAILED''
             (Some (code @ '': '' @ rl_message lib (utf8_encode content))) None), st)
      | Inl e \<Rightarrow> (Inl e, st)
      | Inr p \<Rightarrow>
          let entry = pipeline_entry lib job relative_path content_hash byte_size p in
          (case check_entry (lib_lower (rl_py lib)) entry of
             Inl e \<Rightarrow> (Inl e, st)
           | Inr _ \<Rightarrow>
              (case in_session (index_report lib entry p (sw_now w 1)) (let_others w 1 (commit_stage st)) of
                 (Inl e, st') \<Rightarrow> (Inl e, st')
               | (Inr _, st') \<Rightarrow> (Inr (success COMPLETED None None None), st'))))"

definition indexing ::
  "('dt, 'z) stage_lib_scheme \<Rightarrow> ('dt, 'y) stage_world_scheme \<Rightarrow> stage" where
  "indexing lib w job st =
     (case in_session (get_artifact (j_job_id job) REPORT_ARTIFACT_TYPE (stage_fingerprint lib (j_url job)))
             (let_others w 0 st) of
        (artifact, st1) \<Rightarrow>
          (case (Option.bind artifact a_relative_path, Option.bind artifact a_content_hash) of
             (Some p, Some h) \<Rightarrow>
               (case read_report_verified (rl_sha256 lib) (ss_reports st1) p h of
                  Inl (ArtifactIntegrityError x) \<Rightarrow>
                    (Inr (fatal ''INDEX_FAILED'' (Some (sl_message lib (ArtifactIntegrityError x))) None), st1)
                | Inl e \<Rightarrow> (Inl e, st1)
                | Inr bs \<Rightarrow>
                   (case utf8_decode bs of
                      None \<Rightarrow> (Inl (OtherException ''UnicodeDecodeError''), st1)
                    | Some content \<Rightarrow>
                        index_file lib w job p h (Option.bind artifact a_byte_size) content st1))
           | _ \<Rightarrow> (Inr (internal_error ''missing report artifact''), st1)))"

section \<open>The pipeline\<close>

definition build_handlers ::
  "('dt, 'z) stage_lib_scheme \<Rightarrow> ('dt, 'y) stage_world_scheme \<Rightarrow> string \<Rightarrow> job_status \<Rightarrow> stage option" where
  "build_handlers lib w asr_provider_id st =
     (case st of
        FETCHING_METADATA \<Rightarrow> Some (fetching_metadata lib w)
      | FETCHING_SUBTITLES \<Rightarrow> Some (fetching_subtitles lib w)
      | DOWNLOADING_AUDIO \<Rightarrow> Some (downloading_audio lib w)
      | TRANSCRIBING \<Rightarrow> Some (transcribing lib w asr_provider_id)
      | CLEANING_TRANSCRIPT \<Rightarrow> Some (cleaning_transcript lib w)
      | CHUNKING \<Rightarrow> Some (chunking lib w)
      | SUMMARIZING_CHUNKS \<Rightarrow> Some (summarizing_chunks lib w)
      | GENERATING_REPORT \<Rightarrow> Some (generating_report lib w)
      | INDEXING \<Rightarrow> Some (indexing lib w)
      | _ \<Rightarrow> None)"

text \<open>A stage as the worker of \<open>Worker\<close> runs it, with the directories in some state.\<close>

definition as_handler :: "stage_state \<Rightarrow> stage \<Rightarrow> handler" where
  "as_handler st h job s =
     (case h job (st\<lparr>ss_session := s\<rparr>) of (r, st') \<Rightarrow> (r, ss_session st'))"

text \<open>The worker over these handlers; \<open>fs st\<close> is what the stage \<open>st\<close> finds in the directories.\<close>

definition pipeline_worker ::
  "('dt, 'z) stage_lib_scheme \<Rightarrow> ('dt, 'y) stage_world_scheme \<Rightarrow> string \<Rightarrow> (job_status \<Rightarrow> stage_state) \<Rightarrow>
   (nat \<Rightarrow> time) \<Rightarrow> (nat \<Rightarrow> database \<Rightarrow> database) \<Rightarrow> (session \<Rightarrow> job \<Rightarrow> string outcome) \<Rightarrow> worker" where
  "pipeline_worker lib w asr_provider_id fs clock meanwhile reload =
     \<lparr>wk_owner = sw_owner w, wk_lease_seconds = sw_lease_seconds w,
      wk_handlers = (\<lambda>st. map_option (as_handler (fs st)) (build_handlers lib w asr_provider_id st)),
      wk_now = clock, wk_meanwhile = meanwhile, wk_reload = reload\<rparr>"

end
