(* ===== verification/HandlerSteps.thy ===== *)
theory HandlerSteps
  imports Handlers WorkerTheorems
begin

text \<open>
  The handlers of the pipeline keep the contract the worker relies on: whatever a stage does
  to the database is background for its own worker, the session it leaves can be written
  from, and the target it names is a legal step.
\<close>

section \<open>Sessions a stage leaves\<close>

lemma ready_new:
  assumes "ready s" "jobs_wf (committed s)" "background owner (committed s) (committed s')"
    and "tx s' \<noteq> Immediate" "\<not> has_dml s'" "\<not> pending s'" "\<not> locked s'"
    and "\<And>k c. job_cache s' k = Some c \<Longrightarrow> job_cache s k = Some c" "working s' = committed s'"
  shows "ready s'"
proof -
  have "j_job_id c = k \<and> job_ok c \<and> known c (committed s')" if "job_cache s' k = Some c" for k c
    using assms(1) assms(8) [OF that] known_background [OF _ assms(3,2)] by (auto simp: ready_def)
  moreover have "job_ok c \<and> known c (committed s')" if "find_job k (committed s') = Some c" for k c
    using known_self [OF that] jobs_wf_job_ok [OF background_wf [OF assms(3,2)]] find_job_in [OF that] by blast
  ultimately show ?thesis using assms(4-7,9) by (simp add: ready_def)
qed

text \<open>What is left of a session \<open>s\<close> when a step ends in \<open>x\<close>.\<close>

definition behaves :: "string \<Rightarrow> session \<Rightarrow> 'a outcome \<times> session \<Rightarrow> bool" where
  "behaves owner s x \<longleftrightarrow>
     (ready s \<longrightarrow> jobs_wf (committed s) \<longrightarrow>
        background owner (committed s) (committed (snd x)) \<and> \<not> locked (snd x) \<and>
        (is_ok (fst x) \<longrightarrow> ready (snd x)))"

lemma background_trans:
  assumes "background owner d1 d2" "background owner d0 d1"
  shows "background owner d0 d2"
  using assms by (induction rule: background.induct) (blast intro: background.intros)+

lemma behaves_here: "behaves owner s (r, s)"
  by (simp add: behaves_def background.start) (simp add: ready_def)

lemma behaves_then: "behaves owner s (Inr x, s') \<Longrightarrow> behaves owner s' y \<Longrightarrow> behaves owner s y"
  using background_trans background_wf by (fastforce simp: behaves_def)

lemma behaves_result: "behaves owner s (Inr x, s') \<Longrightarrow> behaves owner s (r, s')"
  by (simp add: behaves_def)

lemma leave_tx_clean:
  assumes "fst (leave_tx x s) = Inr y" "\<And>v d. x \<noteq> Leave v \<and> x \<noteq> KeepWrites d v"
  shows "tx (snd (leave_tx x s)) \<noteq> Immediate" "\<not> has_dml (snd (leave_tx x s))"
    "\<not> pending (snd (leave_tx x s))" "working (snd (leave_tx x s)) = committed (snd (leave_tx x s))"
    "job_cache (snd (leave_tx x s)) k = Some c \<Longrightarrow> job_cache s k = Some c"
  using assms by (cases x; auto simp: exit_defs split: if_splits)+

lemma write_tx_behaves:
  assumes "ready s \<Longrightarrow> jobs_wf (committed s) \<Longrightarrow> background owner (committed s) (committed (snd (write_tx body s)))"
    and "\<And>x d. body (opened s) \<noteq> Leave x \<and> body (opened s) \<noteq> KeepWrites d x"
  shows "behaves owner s (write_tx body s)"
  unfolding behaves_def
proof (intro impI)
  assume r: "ready s" "jobs_wf (committed s)"
  note b = assms(1) [OF r]
  have w: "write_tx body s = leave_tx (body (opened s)) (opened s)" by (rule write_tx_ok [OF ready_startable [OF r(1)]])
  have f: "\<not> locked (opened s)" "\<And>k. job_cache (opened s) k = job_cache s k" using r(1) by (simp_all add: ready_def)
  have "\<not> locked (snd (write_tx body s))"
    unfolding w using f(1) by (cases "body (opened s)") (simp_all add: exit_defs)
  moreover have "ready (snd (write_tx body s))" if "is_ok (fst (write_tx body s))"
  proof (rule ready_new [OF r b])
    from that obtain y where y: "fst (leave_tx (body (opened s)) (opened s)) = Inr y"
      unfolding w is_ok_iff by blast
    note clean = leave_tx_clean [OF y assms(2)]
    show "tx (snd (write_tx body s)) \<noteq> Immediate" "\<not> has_dml (snd (write_tx body s))"
      "\<not> pending (snd (write_tx body s))" "working (snd (write_tx body s)) = committed (snd (write_tx body s))"
      unfolding w by (rule clean)+
    show "job_cache s k = Some c" if "job_cache (snd (write_tx body s)) k = Some c" for k c
      using clean(5) that f(2) unfolding w by fastforce
  qed fact
  ultimately show "background owner (committed s) (committed (snd (write_tx body s))) \<and>
      \<not> locked (snd (write_tx body s)) \<and> (is_ok (fst (write_tx body s)) \<longrightarrow> ready (snd (write_tx body s)))"
    using b by blast
qed

lemma call_behaves:
  assumes "call_ok c" "by_others owner c" "\<And>s. exec c s = snd (write_tx body s)"
    and "\<And>x d. body (opened s) \<noteq> Leave x \<and> body (opened s) \<noteq> KeepWrites d x"
  shows "behaves owner s (write_tx body s)"
proof (rule write_tx_behaves)
  show "body (opened s) \<noteq> Leave x \<and> body (opened s) \<noteq> KeepWrites d x" for x d by (rule assms(4))
  assume r: "ready s" "jobs_wf (committed s)"
  have "call_step c (committed s) (committed (exec c s))"
    by (rule call_step.call [OF ready_quiet [OF r(1)] ready_caches(2) [OF r(1)] assms(1)])
  from background.call [OF background.start this assms(2)]
  show "background owner (committed s) (committed (snd (write_tx body s)))" by (simp add: assms(3))
qed

lemma save_behaves: "behaves owner s (save_artifact_inline k owner now sg ty fp sv pj s)"
  unfolding save_artifact_inline_def
  by (rule call_behaves [where c = "SaveArtifact k owner now sg ty fp sv pj"])
    (auto simp: save_artifact_inline_def split: option.splits)

section \<open>Steps of a stage\<close>

definition helpful :: "('dt, 'y) stage_world_scheme \<Rightarrow> bool" where
  "helpful w \<longleftrightarrow> (\<forall>k d. jobs_wf d \<longrightarrow> background (sw_owner w) d (sw_others w k d))"

lemma interfere_behaves:
  assumes "helpful w"
  shows "behaves (sw_owner w) s (Inr x, interfere (sw_others w k) s)"
  unfolding behaves_def
proof (intro impI)
  assume r: "ready s" "jobs_wf (committed s)"
  have b: "background (sw_owner w) (committed s) (sw_others w k (committed s))"
    using assms r(2) by (simp add: helpful_def)
  with ready_interfere [where f = "sw_others w k", OF r b] r(1)
  show "background (sw_owner w) (committed s) (committed (snd (Inr x, interfere (sw_others w k) s))) \<and>
      \<not> locked (snd (Inr x, interfere (sw_others w k) s)) \<and>
      (is_ok (fst (Inr x, interfere (sw_others w k) s)) \<longrightarrow> ready (snd (Inr x, interfere (sw_others w k) s)))"
    by (simp add: interfere_def) (simp add: ready_def)
qed

lemma commit_behaves: "behaves owner s (Inr x, commit_tx s)"
  unfolding behaves_def
proof (intro impI)
  assume r: "ready s" "jobs_wf (committed s)"
  have "\<not> locked (commit_tx s)" using r(1) by (simp add: ready_def commit_tx_def Let_def)
  with ready_commit [OF r(1)]
  show "background owner (committed s) (committed (snd (Inr x, commit_tx s))) \<and>
      \<not> locked (snd (Inr x, commit_tx s)) \<and> (is_ok (fst (Inr x, commit_tx s)) \<longrightarrow> ready (snd (Inr x, commit_tx s)))"
    by (simp add: background.start)
qed

lemma autobegin_behaves: "behaves owner s (Inr x, autobegin s)"
  unfolding behaves_def
proof (intro impI)
  assume r: "ready s" "jobs_wf (committed s)"
  have c: "committed (autobegin s) = committed s" by (simp add: autobegin_def emit_begin_def)
  have "ready (autobegin s)"
  proof (cases "tx s = NoTx")
    case True
    show ?thesis
      by (rule ready_new [OF r]) (use r(1) True in \<open>simp_all add: c background.start\<close>,
        simp_all add: autobegin_def emit_begin_def ready_def)
  qed (use r(1) in \<open>simp add: autobegin_def\<close>)
  then show "background owner (committed s) (committed (snd (Inr x, autobegin s))) \<and>
      \<not> locked (snd (Inr x, autobegin s)) \<and> (is_ok (fst (Inr x, autobegin s)) \<longrightarrow> ready (snd (Inr x, autobegin s)))"
    using r(1) by (simp add: c background.start) (simp add: ready_def)
qed

text \<open>\<open>immediate_write_transaction\<close> around a body.\<close>

lemma in_write_behaves:
  assumes "\<And>s1 r s2. tx s1 = Immediate \<Longrightarrow> \<not> has_dml s1 \<Longrightarrow> working s1 = committed s1 \<Longrightarrow> quiet s1 \<Longrightarrow> cache_ok s1 \<Longrightarrow>
      jobs_wf (committed s1) \<Longrightarrow> body s1 = (r, s2) \<Longrightarrow>
      background owner (committed s1) (committed (case r of Inl e \<Rightarrow> s2 | Inr _ \<Rightarrow> commit_tx s2)) \<and> \<not> locked s2 \<and>
      (\<forall>k c. job_cache s2 k = Some c \<longrightarrow> job_cache s1 k = Some c)"
  shows "behaves owner s (in_write body s)"
  unfolding behaves_def
proof (intro impI)
  assume r: "ready s" "jobs_wf (committed s)"
  let ?o = "opened s"
  note st = ready_startable [OF r(1)]
  have o: "tx ?o = Immediate" "working ?o = committed s" "committed ?o = committed s" "\<not> locked ?o" "job_cache ?o = job_cache s"
    using r(1) working_opened [OF st] committed_opened [OF st] by (simp_all add: ready_def)
  have d: "\<not> has_dml ?o" using r(1) by (cases "tx s") (simp_all add: opened_def emit_begin_def ready_def)
  have q: "quiet ?o" "cache_ok ?o"
    using o ready_caches [OF r(1)]
    by (simp_all add: quiet_def refused_def opened_def [of ?o] cache_wf_def cache_ok_def)
  obtain x s2 where x: "body ?o = (x, s2)" by fastforce
  have wf: "jobs_wf (committed ?o)" using r(2) o(3) by simp
  note b = assms [OF o(1) d _ q wf x]
  have w: "in_write body s = (case x of Inl e \<Rightarrow> (Inl e, restore_deferred (rollback_tx s2))
      | Inr v \<Rightarrow> (Inr v, restore_deferred (commit_tx s2)))"
    using x by (simp add: in_write_def immediate_write_transaction_def ensure_immediate_ok [OF st] split: sum.split)
  have bg: "background owner (committed s) (committed (snd (in_write body s)))" and l: "\<not> locked (snd (in_write body s))"
    using b o unfolding w by (auto simp: restore_deferred_def exit_defs split: sum.splits)
  moreover have "ready (snd (in_write body s))"
    by (rule ready_new [OF r bg])
      (use b o in \<open>auto simp: w restore_deferred_def exit_defs split: sum.splits\<close>)
  ultimately show "background owner (committed s) (committed (snd (in_write body s))) \<and>
      \<not> locked (snd (in_write body s)) \<and> (is_ok (fst (in_write body s)) \<longrightarrow> ready (snd (in_write body s)))"
    by blast
qed

section \<open>How a stage ends\<close>

definition step :: "string \<Rightarrow> stage_state \<Rightarrow> stage_state \<Rightarrow> bool" where
  "step owner st st' \<longleftrightarrow> behaves owner (ss_session st) (Inr (), ss_session st')"

definition ends :: "string \<Rightarrow> ('a \<Rightarrow> bool) \<Rightarrow> stage_state \<Rightarrow> 'a outcome \<times> stage_state \<Rightarrow> bool" where
  "ends owner P st x \<longleftrightarrow>
     behaves owner (ss_session st) (fst x, ss_session (snd x)) \<and> (\<forall>v. fst x = Inr v \<longrightarrow> P v)"

lemma behaves_unit: "behaves owner s (Inr x, s') \<longleftrightarrow> behaves owner s (Inr (), s')"
  by (simp add: behaves_def)

lemma ends_Inl: "ends owner P st (Inl e, st)"
  by (simp add: ends_def behaves_here)

lemma ends_Inr: "P v \<Longrightarrow> ends owner P st (Inr v, st)"
  by (simp add: ends_def behaves_here)

lemma ends_same:
  assumes "ss_session st' = ss_session st" "\<And>v. r = Inr v \<Longrightarrow> P v"
  shows "ends owner P st (r, st')"
  using assms by (simp add: ends_def behaves_here)

lemma ends_after: "step owner st st' \<Longrightarrow> ends owner P st' x \<Longrightarrow> ends owner P st x"
  using behaves_then by (fastforce simp: step_def ends_def)

lemma ends_fail: "ends owner Q st (Inl e, st') \<Longrightarrow> ends owner P st (Inl e', st')"
  by (simp add: ends_def behaves_def)

lemma ends_step: "ends owner Q st (Inr v, st') \<Longrightarrow> step owner st st'"
  by (simp add: ends_def step_def behaves_def)

lemma ends_value: "ends owner Q st (Inr v, st') \<Longrightarrow> Q v"
  by (simp add: ends_def)

lemma step_refl [simp]: "step owner st st"
  by (simp add: step_def behaves_here)

lemma step_trans: "step owner st1 st2 \<Longrightarrow> step owner st2 st3 \<Longrightarrow> step owner st1 st3"
  unfolding step_def by (rule behaves_then)

lemma step_others: "helpful w \<Longrightarrow> step (sw_owner w) st (let_others w k st)"
  by (simp add: step_def let_others_def interfere_behaves)

lemma ends_others:
  "helpful w \<Longrightarrow> ends (sw_owner w) P (let_others w k st) x \<Longrightarrow> ends (sw_owner w) P st x"
  using step_others by (rule ends_after)

lemma step_commit: "step owner st (commit_stage st)"
  by (simp add: step_def commit_stage_def commit_behaves)

lemma step_artifact: "in_session (get_artifact k ty fp) st = (a, st') \<Longrightarrow> step owner st st'"
  by (auto simp: step_def in_session_def get_artifact_def Let_def autobegin_behaves)

lemma step_same_session: "ss_session st' = ss_session st \<Longrightarrow> step owner st st'"
  by (simp add: step_def behaves_here)

lemma ends_session:
  assumes "behaves owner (ss_session st) (f (ss_session st))"
  shows "ends owner (\<lambda>_. True) st (in_session f st)"
  using assms by (simp add: ends_def in_session_def case_prod_beta)

lemma ends_save:
  "ends (sw_owner w) (\<lambda>_. True) st (in_session (save_artifact_inline k (sw_owner w) now sg ty fp sv pj) st)"
  by (rule ends_session) (rule save_behaves)

lemma load_behaves: "ends owner (\<lambda>_. True) st (load_json_artifact lib k ty fp st)"
proof -
  obtain a st' where a: "in_session (get_artifact k ty fp) st = (a, st')" by fastforce
  have "ends owner (\<lambda>_. True) st (r, st')" for r :: "utext option outcome"
    by (rule ends_after [OF step_artifact [OF a]]) (cases r; simp add: ends_Inl ends_Inr)
  then show ?thesis by (simp add: load_json_artifact_def a split: option.split)
qed

section \<open>Outcomes a stage may give\<close>

text \<open>A legal step, and no artifact with a parked job.\<close>

definition good_outcome :: "job_status \<Rightarrow> stage_outcome \<Rightarrow> bool" where
  "good_outcome stage out \<longleftrightarrow>
     (case so_target out of
        None \<Rightarrow> so_error_code out \<noteq> None
      | Some target \<Rightarrow> so_error_code out = None \<and> is_valid_transition stage target \<and>
          (target = WAITING_FOR_MODEL \<longrightarrow> so_artifact out = None))"

lemma good_failures [simp]:
  "good_outcome stage (fatal c m u)" "good_outcome stage (transient c t m u)"
  "good_outcome stage (service_outcome e)" "good_outcome stage (asr_outcome e)"
  "good_outcome stage (internal_error detail)"
  by (simp_all add: good_outcome_def fatal_def transient_def service_outcome_def asr_outcome_def
      internal_error_def no_outcome_def)

lemma good_success [simp]:
  "good_outcome stage (success target p a u) \<longleftrightarrow>
     is_valid_transition stage target \<and> (target = WAITING_FOR_MODEL \<longrightarrow> a = None)"
  by (simp add: good_outcome_def success_def no_outcome_def)

lemma detect_ends:
  assumes "\<And>ref st. ends owner P st (k ref st)" "\<And>c m. P (fatal c m None)"
  shows "ends owner P st (detect lib job k st)"
  using assms by (auto simp: detect_def ends_Inl ends_Inr split: sum.split exn.split)

lemma store_outcome_cases:
  "store_outcome lib ok r = Inr out \<Longrightarrow> (\<exists>x. out = ok x) \<or> (\<exists>c m. out = fatal c m None)"
  by (auto simp: store_outcome_def split: sum.splits exn.splits)

lemma store_ends:
  assumes "\<And>x. P (ok x)" "\<And>c m. P (fatal c m None)"
  shows "ends owner P st (store_artifact lib w p c ok st)"
proof -
  obtain r fs where r: "write_file (rl_sha256 lib) (snd (sw_uuids w)) p c (ss_artifacts st) = (r, fs)" by fastforce
  show ?thesis
    unfolding store_artifact_def r prod.case
    by (rule ends_same) (use assms store_outcome_cases [of lib ok r] in auto)
qed

lemma pipeline_steps [simp]:
  "is_valid_transition FETCHING_METADATA FETCHING_SUBTITLES"
  "is_valid_transition FETCHING_SUBTITLES DOWNLOADING_AUDIO"
  "is_valid_transition FETCHING_SUBTITLES CLEANING_TRANSCRIPT"
  "is_valid_transition DOWNLOADING_AUDIO TRANSCRIBING"
  "is_valid_transition TRANSCRIBING WAITING_FOR_MODEL"
  "is_valid_transition TRANSCRIBING CLEANING_TRANSCRIPT"
  "is_valid_transition CLEANING_TRANSCRIPT CHUNKING"
  "is_valid_transition CHUNKING SUMMARIZING_CHUNKS"
  "is_valid_transition SUMMARIZING_CHUNKS GENERATING_REPORT"
  "is_valid_transition GENERATING_REPORT INDEXING" "is_valid_transition INDEXING COMPLETED"
  by (simp_all add: transition_simps LINEAR_CHAIN_def running_iff)

section \<open>The handlers\<close>

lemma metadata_ends:
  "helpful w \<Longrightarrow> ends (sw_owner w) (good_outcome FETCHING_METADATA) st (fetching_metadata lib w job st)"
  unfolding fetching_metadata_def Let_def
  by (rule detect_ends, rule ends_others [where k = 0], assumption)
    (auto intro: ends_Inr split: sum.split)

lemma good_subtitle_failure: "good_outcome FETCHING_SUBTITLES (subtitle_failure job e)"
  by (simp add: subtitle_failure_def) (simp add: good_outcome_def no_outcome_def)

lemma subtitles_ends:
  "helpful w \<Longrightarrow> ends (sw_owner w) (good_outcome FETCHING_SUBTITLES) st (fetching_subtitles lib w job st)"
  unfolding fetching_subtitles_def Let_def
  by (rule detect_ends, rule ends_others [where k = 0], assumption)
    (auto intro: ends_Inr good_subtitle_failure intro!: store_ends split: sum.split)

lemma audio_ends:
  "helpful w \<Longrightarrow> ends (sw_owner w) (good_outcome DOWNLOADING_AUDIO) st (downloading_audio lib w job st)"
  unfolding downloading_audio_def Let_def
  by (rule detect_ends, rule ends_others [where k = 0], assumption)
    (auto intro: ends_Inr intro!: store_ends split: sum.split)

lemma convert_ends:
  assumes "\<And>raw out. f raw = Inr out \<Longrightarrow> P out" "P (internal_error missing)"
  shows "ends owner P st (convert_artifact lib ty missing f job st)"
proof -
  let ?fp = "stage_fingerprint lib (j_url job)"
  obtain r st' where r: "load_json_artifact lib (j_job_id job) ty ?fp st = (r, st')" by fastforce
  note l = load_behaves [of owner st lib "j_job_id job" ty ?fp, unfolded r]
  show ?thesis
  proof (cases r)
    case (Inl e)
    with l ends_fail show ?thesis by (auto simp: convert_artifact_def r)
  next
    case (Inr raw)
    with l have s: "step owner st st'" by (auto intro: ends_step)
    show ?thesis
    proof (cases raw)
      case None
      with Inr show ?thesis
        by (simp add: convert_artifact_def r) (rule ends_after [OF s], rule ends_Inr, rule assms(2))
    next
      case (Some t)
      have "ends owner P st' (f t, st')"
        using assms(1) [of t] by (cases "f t") (simp_all add: ends_Inl ends_Inr)
      with Inr Some s show ?thesis by (simp add: convert_artifact_def r ends_after)
    qed
  qed
qed

lemma cleaning_ends:
  "helpful w \<Longrightarrow> ends (sw_owner w) (good_outcome CLEANING_TRANSCRIPT) st (cleaning_transcript lib w job st)"
  unfolding cleaning_transcript_def
  by (rule ends_after [OF step_others], assumption, rule convert_ends) (auto simp: and_then_Inr)

lemma chunking_ends:
  "helpful w \<Longrightarrow> ends (sw_owner w) (good_outcome CHUNKING) st (chunking lib w job st)"
  unfolding chunking_def
  by (rule ends_after [OF step_others], assumption, rule convert_ends) (auto simp: and_then_Inr)

text \<open>Transcription: the pin, the checkpoints, the result.\<close>

lemma pin_behaves: "behaves owner s (in_write (pin_job_asr_route k owner now p m v rec) s)"
proof (rule in_write_behaves)
  fix s1 r s2
  assume s1: "tx s1 = Immediate" "\<not> has_dml s1" "working s1 = committed s1" "quiet s1" "cache_ok s1"
    "jobs_wf (committed s1)" and p: "pin_job_asr_route k owner now p m v rec s1 = (r, s2)"
  let ?c = "PinRoute k owner now p m v rec"
  have "call_step ?c (committed s1) (committed (exec ?c s1))"
    by (rule call_step.call [OF s1(4,5)]) simp
  then have b: "background owner (committed s1) (committed s2)"
    using background.call [OF background.start, of ?c] p by simp
  have l: "\<not> locked s1" using s1(4) by (simp add: quiet_def)
  have o: "opened s1 = s1" using s1(1) by (simp add: opened_def)
  have st: "startable s1" using s1(4) by (rule quiet_startable)
  have "\<not> locked s2 \<and> (\<forall>k c. job_cache s2 k = Some c \<longrightarrow> job_cache s1 k = Some c) \<and>
      (is_ok r \<longrightarrow> \<not> has_dml s2)"
    using p l unfolding pin_job_asr_route_def write_tx_ok [OF st] o
    by (auto simp: exit_defs split: option.splits if_splits)
  with b show "background owner (committed s1) (committed (case r of Inl e \<Rightarrow> s2 | Inr _ \<Rightarrow> commit_tx s2)) \<and>
      \<not> locked s2 \<and> (\<forall>k c. job_cache s2 k = Some c \<longrightarrow> job_cache s1 k = Some c)"
    by (auto simp: commit_tx_def Let_def split: sum.splits)
qed

lemma checkpoint_ends:
  assumes "helpful w"
  shows "ends (sw_owner w) (\<lambda>_. True) st (checkpoint_segments lib w job_id fp k acc gs st)"
proof (induction gs arbitrary: k acc st)
  case Nil
  show ?case by (simp add: ends_Inr)
next
  case (Cons g gs)
  let ?save = "in_session (save_artifact_inline job_id (sw_owner w) (sw_now w k) ''transcribing''
      ASR_SEGMENT_ARTIFACT_TYPE fp 1 (ident (asr_segments_to_json lib (acc @ [g])))) (let_others w k st)"
  obtain r st' where r: "?save = (r, st')" by fastforce
  have e: "ends (sw_owner w) (\<lambda>_. True) st (r, st')"
    unfolding r [symmetric] by (rule ends_others [OF assms ends_save])
  show ?case
  proof (cases r)
    case (Inl x)
    with e r show ?thesis by (simp add: ends_fail)
  next
    case (Inr u)
    with e have "step (sw_owner w) st st'" by (auto intro: ends_step)
    then show ?thesis using r Inr by (simp add: ends_after [OF _ Cons.IH])
  qed
qed

lemma recognise_ends:
  assumes "helpful w"
  shows "ends (sw_owner w) (good_outcome TRANSCRIBING) st (recognise lib w pid job audio acc st)"
proof -
  obtain reported answer where a: "sw_recognise w pid audio (map_option text_of (j_language job))
      (set (map (segment_key lib) acc)) = (reported, answer)" by fastforce
  let ?c = "checkpoint_segments lib w (j_job_id job) (stage_fingerprint lib (j_url job)) 2 acc reported (commit_stage st)"
  obtain r st' where r: "?c = (r, st')" by fastforce
  have e: "ends (sw_owner w) (\<lambda>_. True) st (r, st')"
    unfolding r [symmetric] by (rule ends_after [OF step_commit checkpoint_ends [OF assms]])
  show ?thesis
  proof (cases r)
    case (Inl x)
    with e show ?thesis by (simp only: recognise_def a r Let_def prod.case sum.case) (rule ends_fail)
  next
    case (Inr u)
    with e have "step (sw_owner w) st st'" by (auto intro: ends_step)
    then have "ends (sw_owner w) (good_outcome TRANSCRIBING) st (Inr out, st')"
      if "good_outcome TRANSCRIBING out" for out
      using that by (rule ends_after [OF _ ends_Inr])
    then show ?thesis
      unfolding recognise_def a r Let_def prod.case Inr sum.case by (simp split: sum.split)
  qed
qed

lemma transcribe_ends:
  assumes "helpful w"
  shows "ends (sw_owner w) (good_outcome TRANSCRIBING) st (transcribe_with lib w pid job st)"
proof -
  let ?fp = "stage_fingerprint lib (j_url job)"
  obtain a st1 where a: "in_session (get_artifact (j_job_id job) AUDIO_ARTIFACT_TYPE ?fp) st = (a, st1)" by fastforce
  obtain c st2 where c: "in_session (get_artifact (j_job_id job) ASR_SEGMENT_ARTIFACT_TYPE ?fp) st1 = (c, st2)"
    by fastforce
  have s: "step (sw_owner w) st st1" "step (sw_owner w) st st2"
    using step_artifact [OF a] step_trans [OF step_artifact [OF a] step_artifact [OF c]] by blast+
  have "ends (sw_owner w) (good_outcome TRANSCRIBING) st (Inr (internal_error m), st1)" for m
    by (rule ends_after [OF s(1) ends_Inr]) simp
  moreover have "ends (sw_owner w) (good_outcome TRANSCRIBING) st (Inl x, st1)"
    "ends (sw_owner w) (good_outcome TRANSCRIBING) st (Inl x, st2)" for x
    by (rule ends_after [OF s(1) ends_Inl], rule ends_after [OF s(2) ends_Inl])
  moreover have "ends (sw_owner w) (good_outcome TRANSCRIBING) st (recognise lib w pid job audio acc st2)" for audio acc
    by (rule ends_after [OF s(2) recognise_ends [OF assms]])
  ultimately show ?thesis
    by (simp add: transcribe_with_def a resume_checkpoint_def c split: option.split sum.split)
qed

lemma transcribing_ends:
  assumes "helpful w"
  shows "ends (sw_owner w) (good_outcome TRANSCRIBING) st (transcribing lib w dflt job st)"
proof -
  let ?st1 = "let_others w 0 st"
  define st0 where "st0 = ?st1\<lparr>ss_session := autobegin (ss_session ?st1)\<rparr>"
  have s0: "step (sw_owner w) st st0"
    by (rule step_trans [OF step_others [OF assms, where k = 0]]) (simp add: st0_def step_def autobegin_behaves)
  have s1: "step (sw_owner w) st (let_others w 1 (commit_stage st0))"
    by (rule step_trans [OF step_trans [OF s0 step_commit] step_others [OF assms]])
  have pin: "ends (sw_owner w) (\<lambda>_. True) st (in_session (in_write (pin_job_asr_route k (sw_owner w) now p m v rec))
      (let_others w 1 (commit_stage st0)))" for k now p m v rec
    by (rule ends_after [OF s1]) (rule ends_session, rule pin_behaves)
  have fin: "ends (sw_owner w) (good_outcome TRANSCRIBING) st
      (case in_session (in_write (pin_job_asr_route k (sw_owner w) now p m v rec)) (let_others w 1 (commit_stage st0)) of
         (Inl e, st1) \<Rightarrow> (Inl e, st1)
       | (Inr _, st1) \<Rightarrow> if park then (Inr (success WAITING_FOR_MODEL None None None), st1)
           else transcribe_with lib w pid job st1)" for k now p m v rec park pid
  proof -
    obtain r st' where r: "in_session (in_write (pin_job_asr_route k (sw_owner w) now p m v rec))
        (let_others w 1 (commit_stage st0)) = (r, st')" by fastforce
    note e = pin [of k now p m v rec, unfolded r]
    show ?thesis
    proof (cases r)
      case (Inl x)
      with e r show ?thesis by (simp add: ends_fail)
    next
      case (Inr u)
      with e have "step (sw_owner w) st st'" by (auto intro: ends_step)
      then show ?thesis using r Inr by (simp add: ends_after ends_Inr transcribe_ends [OF assms])
    qed
  qed
  have "ends (sw_owner w) (good_outcome TRANSCRIBING) st (Inr (fatal c m u), st0)" for c m u
    by (rule ends_after [OF s0 ends_Inr]) simp
  with fin show ?thesis
    unfolding transcribing_def st0_def [symmetric] Let_def by (auto split: sum.split)
qed

section \<open>Summaries, the report, the index\<close>

lemma complete_step: "helpful w \<Longrightarrow> complete w k p st = (r, st') \<Longrightarrow> step (sw_owner w) st st'"
  by (auto simp: complete_def intro: step_trans [OF step_others [of w st k] step_same_session])

lemma renew_ends:
  assumes "helpful w"
  shows "ends (sw_owner w) (\<lambda>_. True) st (renew_now w k job st)"
proof -
  let ?s = "ss_session st"
  let ?d = "committed (snd (renew_lease (j_job_id job) (sw_owner w) (sw_now w k) (sw_lease_seconds w)
      ((open_session (committed ?s))\<lparr>locked := locked ?s\<rparr>)))"
  have b: "background (sw_owner w) (committed ?s) ?d" by (rule heartbeat_tick)
  have "behaves (sw_owner w) ?s (r, ?s\<lparr>committed := ?d\<rparr>)" for r :: "bool outcome"
    unfolding behaves_def
  proof (intro impI)
    assume r: "ready ?s" "jobs_wf (committed ?s)"
    have "ready (interfere (\<lambda>_. ?d) ?s)" by (rule ready_interfere(1) [where f = "\<lambda>_. ?d", OF r b])
    moreover have "\<not> locked ?s" using r(1) by (simp add: ready_def)
    ultimately show "background (sw_owner w) (committed ?s) (committed (snd (r, ?s\<lparr>committed := ?d\<rparr>))) \<and>
        \<not> locked (snd (r, ?s\<lparr>committed := ?d\<rparr>)) \<and>
        (is_ok (fst (r, ?s\<lparr>committed := ?d\<rparr>)) \<longrightarrow> ready (snd (r, ?s\<lparr>committed := ?d\<rparr>)))"
      using b by (simp add: interfere_def)
  qed
  then show ?thesis by (simp add: renew_now_def ends_def case_prod_beta)
qed

text \<open>A stage that stops early gives an outcome without a target.\<close>

definition stops_well :: "(stage_outcome + 'b) \<Rightarrow> bool" where
  "stops_well x \<longleftrightarrow> (case x of Inl out \<Rightarrow> \<forall>stage. good_outcome stage out | Inr _ \<Rightarrow> True)"

lemma stops_well_simps [simp]: "stops_well (Inl out) \<longleftrightarrow> (\<forall>stage. good_outcome stage out)" "stops_well (Inr x)"
  by (simp_all add: stops_well_def)

lemma summarize_chunk_ends:
  assumes "helpful w"
  shows "ends (sw_owner w) stops_well st (summarize_chunk lib w k job chunk st)"
proof -
  let ?fp = "chunk_fingerprint lib job chunk"
  obtain a st0 where a: "in_session (get_artifact (j_job_id job) CHUNK_SUMMARY_ARTIFACT_TYPE ?fp) st = (a, st0)"
    by fastforce
  have s1: "step (sw_owner w) st (commit_stage st0)"
    by (rule step_trans [OF step_artifact [OF a] step_commit])
  obtain r st2 where r: "complete w k (summary_prompt chunk) (commit_stage st0) = (r, st2)" by fastforce
  have s2: "step (sw_owner w) st st2" by (rule step_trans [OF s1 complete_step [OF assms r]])
  have save: "ends (sw_owner w) stops_well st
      (case in_session (save_artifact_inline (j_job_id job) (sw_owner w) (sw_now w k) ''summarizing_chunks''
          CHUNK_SUMMARY_ARTIFACT_TYPE ?fp 1 (ident summary)) st2 of
         (Inl e, st3) \<Rightarrow> (Inl e, st3) | (Inr _, st3) \<Rightarrow> (Inr (Inr summary), st3))" for summary
  proof -
    obtain x st3 where x: "in_session (save_artifact_inline (j_job_id job) (sw_owner w) (sw_now w k)
        ''summarizing_chunks'' CHUNK_SUMMARY_ARTIFACT_TYPE ?fp 1 (ident summary)) st2 = (x, st3)" by fastforce
    have e: "ends (sw_owner w) (\<lambda>_. True) st (x, st3)"
      unfolding x [symmetric] by (rule ends_after [OF s2 ends_save])
    show ?thesis
    proof (cases x)
      case (Inl y)
      with e x show ?thesis by (simp add: ends_fail)
    next
      case (Inr u)
      with e have "step (sw_owner w) st st3" by (auto intro: ends_step)
      with x Inr show ?thesis by (simp add: ends_after ends_Inr)
    qed
  qed
  have stop: "ends (sw_owner w) stops_well st (Inr v, commit_stage st0)"
    "ends (sw_owner w) stops_well st (Inr v, st2)" if "stops_well v" for v :: "stage_outcome + utext"
    using that by (rule ends_after [OF s1 ends_Inr], rule ends_after [OF s2 ends_Inr])
  show ?thesis
    unfolding summarize_chunk_def a prod.case Let_def r
    using save stop by (auto split: option.split sum.split)
qed

lemma summarize_chunks_ends:
  assumes "helpful w"
  shows "ends (sw_owner w) stops_well st (summarize_chunks lib w k job acc chunks st)"
proof (induction chunks arbitrary: k acc st)
  case Nil
  show ?case by (simp add: ends_Inr)
next
  case (Cons chunk chunks)
  let ?st0 = "let_others w k st"
  obtain r st1 where r: "summarize_chunk lib w (k + 1) job chunk ?st0 = (r, st1)" by fastforce
  have e: "ends (sw_owner w) stops_well st (r, st1)"
    unfolding r [symmetric] by (rule ends_others [OF assms summarize_chunk_ends [OF assms]])
  obtain x st2 where x: "renew_now w (k + 2) job (let_others w (k + 2) st1) = (x, st2)" by fastforce
  have cancel: "ends (sw_owner w) stops_well st (Inr (Inl (fatal c m u) :: stage_outcome + utext list), ?st0)" for c m u
    by (rule ends_others [OF assms, where k = k]) (simp add: ends_Inr)
  show ?case
  proof (cases r)
    case (Inl y)
    then show ?thesis using e cancel r by (simp add: Let_def ends_fail)
  next
    case (Inr z)
    show ?thesis
    proof (cases z)
      case (Inl out)
      have "step (sw_owner w) st st1" using e \<open>r = Inr z\<close> by (auto intro: ends_step)
      moreover have "stops_well (Inl out :: stage_outcome + utext list)"
        using e Inr Inl by (auto dest: ends_value)
      ultimately have "ends (sw_owner w) stops_well st (Inr (Inl out :: stage_outcome + utext list), st1)"
        by (rule ends_after [OF _ ends_Inr])
      then show ?thesis using cancel r Inr Inl by (simp add: Let_def)
    next
      case (Inr summary)
      have "step (sw_owner w) st st1" using e \<open>r = Inr z\<close> by (auto intro: ends_step)
      then have e2: "ends (sw_owner w) (\<lambda>_. True) st (x, st2)"
        unfolding x [symmetric] by (rule ends_after) (rule ends_others [OF assms renew_ends [OF assms]])
      show ?thesis
      proof (cases x)
        case (Inl y)
        then show ?thesis using e2 cancel r x Inr \<open>r = Inr z\<close> by (simp add: Let_def ends_fail)
      next
        case (Inr go)
        with e2 have "step (sw_owner w) st st2" by (auto intro: ends_step)
        then show ?thesis
          using cancel r x Inr \<open>r = Inr z\<close> \<open>z = Inr summary\<close>
          by (cases go) (simp_all add: Let_def ends_after ends_Inr Cons.IH)
      qed
    qed
  qed
qed

lemma summarizing_ends:
  assumes "helpful w"
  shows "ends (sw_owner w) (good_outcome SUMMARIZING_CHUNKS) st (summarizing_chunks lib w job st)"
proof -
  let ?fp = "stage_fingerprint lib (j_url job)" and ?stage = "good_outcome SUMMARIZING_CHUNKS"
  obtain r st1 where r: "load_json_artifact lib (j_job_id job) CHUNKS_ARTIFACT_TYPE ?fp (let_others w 0 st) = (r, st1)"
    by fastforce
  have e: "ends (sw_owner w) (\<lambda>_. True) st (r, st1)"
    unfolding r [symmetric] by (rule ends_others [OF assms load_behaves])
  show ?thesis
  proof (cases r)
    case (Inl x)
    with e r show ?thesis by (simp add: summarizing_chunks_def Let_def ends_fail)
  next
    case (Inr raw)
    with e have s1: "step (sw_owner w) st st1" by (auto intro: ends_step)
    have missing: "ends (sw_owner w) ?stage st (Inr (internal_error m), st1)" for m
      by (rule ends_after [OF s1 ends_Inr]) simp
    have fail: "ends (sw_owner w) ?stage st (Inl x, st1)" for x by (rule ends_after [OF s1 ends_Inl])
    have run: "ends (sw_owner w) ?stage st
        (case summarize_chunks lib w 1 job [] chunks (commit_stage st1) of
           (Inl e, st2) \<Rightarrow> (Inl e, st2)
         | (Inr (Inl out), st2) \<Rightarrow> (Inr out, st2)
         | (Inr (Inr summaries), st2) \<Rightarrow>
             (Inr (success GENERATING_REPORT None (Some (f summaries)) None), st2))" for chunks f
    proof -
      obtain x st2 where x: "summarize_chunks lib w 1 job [] chunks (commit_stage st1) = (x, st2)" by fastforce
      have e2: "ends (sw_owner w) stops_well st (x, st2)"
        unfolding x [symmetric]
        by (rule ends_after [OF step_trans [OF s1 step_commit]]) (rule summarize_chunks_ends [OF assms])
      show ?thesis
      proof (cases x)
        case (Inl y)
        with e2 x show ?thesis by (simp add: ends_fail)
      next
        case (Inr v)
        with e2 have s2: "step (sw_owner w) st st2" and v: "stops_well v" by (auto intro: ends_step dest: ends_value)
        have "ends (sw_owner w) ?stage st (Inr out, st2)" if "?stage out" for out
          using that by (rule ends_after [OF s2 ends_Inr])
        with x Inr v show ?thesis by (cases v) simp_all
      qed
    qed
    show ?thesis
      using missing fail run Inr r unfolding summarizing_chunks_def Let_def
      by (auto split: option.split sum.split)
  qed
qed

text \<open>Loading never leaves the session unfit, whatever it finds.\<close>

lemma load_step: "load_json_artifact lib k ty fp st = (r, st') \<Longrightarrow> step owner st st'"
  unfolding load_json_artifact_def
  by (auto split: prod.splits option.splits intro: step_artifact)

lemma publish_ends: "ends owner (good_outcome GENERATING_REPORT) st (publish_report lib w job d st)"
proof -
  let ?fp = "stage_fingerprint lib (j_url job)"
  obtain a st1 where a: "in_session (get_artifact (j_job_id job) REPORT_ARTIFACT_TYPE ?fp) st = (a, st1)" by fastforce
  have "ends owner (good_outcome GENERATING_REPORT) st1 (r, st1\<lparr>ss_reports := fs\<rparr>)"
    if "\<And>out. r = Inr out \<Longrightarrow> good_outcome GENERATING_REPORT out" for r fs
    using that by (intro ends_same) simp_all
  then have put: "ends owner (good_outcome GENERATING_REPORT) st (r, st1\<lparr>ss_reports := fs\<rparr>)"
    if "\<And>out. r = Inr out \<Longrightarrow> good_outcome GENERATING_REPORT out" for r fs
    using that by (intro ends_after [OF step_artifact [OF a]]) blast
  show ?thesis
    unfolding publish_report_def Let_def a prod.case
    by (auto split: prod.split sum.split exn.split intro!: put)
qed

lemma generating_ends:
  assumes "helpful w"
  shows "ends (sw_owner w) (good_outcome GENERATING_REPORT) st (generating_report lib w job st)"
proof -
  let ?stage = "good_outcome GENERATING_REPORT"
  obtain r st1 where r: "load_three lib job (let_others w 0 st) = (r, st1)" by fastforce
  have s1: "step (sw_owner w) st st1"
    using r unfolding load_three_def Let_def
    by (auto split: prod.splits intro: step_trans [OF step_others [OF assms, where k = 0]]
        step_trans [OF step_trans [OF load_step load_step] load_step])
  have run: "ends (sw_owner w) ?stage st
      (case complete w 1 p (commit_stage st1) of
         (Inl e, st2) \<Rightarrow> (Inr (service_outcome e), st2)
       | (Inr answer, st2) \<Rightarrow> write_synthesis lib w job metadata transcript answer st2)" for p metadata transcript
  proof -
    obtain x st2 where x: "complete w 1 p (commit_stage st1) = (x, st2)" by fastforce
    have s2: "step (sw_owner w) st st2"
      by (rule step_trans [OF step_trans [OF s1 step_commit] complete_step [OF assms x]])
    have "ends (sw_owner w) ?stage st (write_synthesis lib w job metadata transcript answer st2)" for answer
      unfolding write_synthesis_def
      by (rule ends_after [OF s2]) (auto split: sum.split intro: ends_Inl ends_Inr publish_ends)
    moreover have "ends (sw_owner w) ?stage st (Inr (service_outcome e), st2)" for e
      by (rule ends_after [OF s2 ends_Inr]) simp
    ultimately show ?thesis using x by (auto split: sum.split)
  qed
  have "ends (sw_owner w) ?stage st (Inr (internal_error m), st1)" "ends (sw_owner w) ?stage st (Inl e, st1)" for m e
    by (rule ends_after [OF s1 ends_Inr], simp, rule ends_after [OF s1 ends_Inl])
  with run show ?thesis
    unfolding generating_report_def r by (auto split: sum.split option.split prod.split)
qed

lemma index_behaves: "behaves owner s (index_report lib entry p now s)"
  unfolding index_report_def
proof (rule in_write_behaves)
  fix s1 s2 :: session and r :: "unit outcome"
  obtain x d where x: "upsert_report_document (lib_lower (rl_py lib)) entry (index_body p) now (working s1) = (x, d)"
    by fastforce
  have d: "jobs d = jobs (working s1) \<and> job_seq d = job_seq (working s1)"
    using x by (auto simp: upsert_report_document_def put_fts_def Let_def split: option.splits if_splits)
  assume w: "working s1 = committed s1" and n: "\<not> has_dml s1" and q: "quiet s1"
    and b: "(case upsert_report_document (lib_lower (rl_py lib)) entry (index_body p) now (working s1) of
       (Inl e, _) \<Rightarrow> (Inl e, s1) | (Inr _, d) \<Rightarrow> (Inr (), write_db d s1)) = (r, s2)"
  have l: "\<not> locked s1" using q by (simp add: quiet_def)
  have bg: "background owner (committed s1) d"
    using d w background.elsewhere [OF background.start, of d "committed s1"] by simp
  show "background owner (committed s1) (committed (case r of Inl e \<Rightarrow> s2 | Inr _ \<Rightarrow> commit_tx s2)) \<and>
      \<not> locked s2 \<and> (\<forall>k c. job_cache s2 k = Some c \<longrightarrow> job_cache s1 k = Some c)"
  proof (cases x)
    case (Inl e)
    with b x l show ?thesis by (auto simp: background.start)
  next
    case (Inr i)
    with b x have "r = Inr ()" "s2 = write_db d s1" by auto
    with bg l show ?thesis by (simp add: commit_tx_def write_db_def Let_def)
  qed
qed

lemma indexing_ends:
  assumes "helpful w"
  shows "ends (sw_owner w) (good_outcome INDEXING) st (indexing lib w job st)"
proof -
  let ?stage = "good_outcome INDEXING"
  obtain a st1 where a: "in_session (get_artifact (j_job_id job) REPORT_ARTIFACT_TYPE (stage_fingerprint lib (j_url job)))
      (let_others w 0 st) = (a, st1)" by fastforce
  have s1: "step (sw_owner w) st st1" by (rule step_trans [OF step_others [OF assms] step_artifact [OF a]])
  have stop: "ends (sw_owner w) ?stage st (Inl e, st1)" "?stage out \<Longrightarrow> ends (sw_owner w) ?stage st (Inr out, st1)" for e out
    by (rule ends_after [OF s1 ends_Inl], rule ends_after [OF s1 ends_Inr])
  have run: "ends (sw_owner w) ?stage st
      (case in_session (index_report lib entry p (sw_now w 1)) (let_others w 1 (commit_stage st1)) of
         (Inl e, st') \<Rightarrow> (Inl e, st') | (Inr _, st') \<Rightarrow> (Inr (success COMPLETED None None None), st'))" for entry p
  proof -
    obtain x st2 where x: "in_session (index_report lib entry p (sw_now w 1)) (let_others w 1 (commit_stage st1)) = (x, st2)"
      by fastforce
    have e: "ends (sw_owner w) (\<lambda>_. True) st (x, st2)"
      unfolding x [symmetric]
      by (rule ends_after [OF step_trans [OF step_trans [OF s1 step_commit] step_others [OF assms]]])
        (rule ends_session, rule index_behaves)
    show ?thesis
    proof (cases x)
      case (Inl y)
      with e x show ?thesis by (simp add: ends_fail)
    next
      case (Inr u)
      with e have "step (sw_owner w) st st2" by (auto intro: ends_step)
      then have "ends (sw_owner w) ?stage st (Inr (success COMPLETED None None None), st2)"
        by (rule ends_after [OF _ ends_Inr]) simp
      with x Inr show ?thesis by simp
    qed
  qed
  have "ends (sw_owner w) ?stage st (index_file lib w job p h n c st1)" for p h n c
    unfolding index_file_def Let_def using stop run by (auto split: sum.split exn.split)
  with stop show ?thesis
    unfolding indexing_def a prod.case by (auto split: option.split sum.split exn.split)
qed

end
