(* ===== verification/FilesTheorems.thy ===== *)
theory FilesTheorems
  imports Files
begin

text \<open>
  The report writer never destroys a file it does not know, never leaves its directory and
  never leaves a half-written report behind; names of reports are single parts of a path.
\<close>

section \<open>Single names\<close>

text \<open>A name that is one part of a path of its own.\<close>

definition plain_name :: "nat list \<Rightarrow> bool" where
  "plain_name n \<longleftrightarrow> n \<noteq> [] \<and> 47 \<notin> set n \<and> n \<noteq> codes ''.'' \<and> n \<noteq> codes ''..''"

lemma resolve_plain:
  assumes "plain_name (codes n)"
  shows "resolve base n = base @ [codes n]"
proof -
  have "take 1 (codes n) \<noteq> [47]" using assms by (cases "codes n") (auto simp: plain_name_def)
  with assms show ?thesis by (simp add: resolve_def plain_name_def split_on_last)
qed

lemma resolve_inside_plain:
  "plain_name (codes n) \<Longrightarrow> resolve_inside what st n = Inr (sr_root st @ [codes n])"
  by (simp add: resolve_inside_def resolve_plain)

lemma relative_name_plain [simp]: "relative_name st (sr_root st @ [codes n]) = n"
  by (simp add: relative_name_def)

lemma with_name_plain [simp]: "with_name (base @ [n]) m = base @ [m]"
  by (simp add: with_name_def)

text \<open>The names of reports.\<close>

lemma rstrip_dots_set: "set (rstrip_dots t) \<subseteq> set t"
  unfolding rstrip_dots_def by (metis set_dropWhileD set_rev subsetI)

lemma strip_set: "set (strip t) \<subseteq> set t"
  unfolding strip_def lstrip_def by (metis set_dropWhileD set_rev subsetI)

lemma safe_filename_set:
  assumes "c \<in> set (safe_filename title i)"
  shows "c \<in> set title \<and> c \<notin> set INVALID_FILENAME_CHARS \<or> c \<in> set i \<or> c \<in> set (codes ''analysis-.md'')"
proof -
  define c0 where "c0 = rstrip_dots (strip (filter (\<lambda>c. c \<notin> set INVALID_FILENAME_CHARS) title))"
  define c1 where "c1 = (if c0 = [] then codes ''analysis-'' @ i else c0)"
  define c2 where "c2 = (if sql_lower c1 \<in> set WINDOWS_RESERVED then c1 @ [45] @ i else c1)"
  define c3 where "c3 = (if length c2 > MAX_COMPONENT then rstrip_dots (take MAX_COMPONENT c2) else c2)"
  have n: "safe_filename title i = c3 @ codes ''.md''"
    by (simp add: safe_filename_def Let_def c0_def c1_def c2_def c3_def)
  have 0: "c \<in> set title \<and> c \<notin> set INVALID_FILENAME_CHARS" if "c \<in> set c0"
    using that rstrip_dots_set strip_set unfolding c0_def by fastforce
  have "set c3 \<subseteq> set c2"
    unfolding c3_def using rstrip_dots_set [of "take MAX_COMPONENT c2"] set_take_subset [of MAX_COMPONENT c2] by auto
  moreover have "set c2 \<subseteq> set c1 \<union> set i \<union> {45}" by (auto simp: c2_def)
  moreover have "set c1 \<subseteq> set c0 \<union> set i \<union> set (codes ''analysis-'')" by (auto simp: c1_def)
  moreover have "set (codes ''analysis-'') \<union> {45} \<union> set (codes ''.md'') \<subseteq> set (codes ''analysis-.md'')"
    by (simp add: codes_def)
  ultimately show ?thesis using assms 0 unfolding n set_append by blast
qed

lemma safe_filename_end: "\<exists>u. safe_filename title i = u @ codes ''.md''"
  by (simp add: safe_filename_def Let_def)

lemma report_filename_end:
  "\<exists>u. report_filename title i h = u @ [45] @ codes (take 8 h) @ codes ''.md'' \<and> set u \<subseteq> set (safe_filename title i)"
  by (auto simp: report_filename_def Let_def dest: in_set_takeD)

lemma report_filename_plain:
  assumes "47 \<notin> set i" "CHR ''/'' \<notin> set h" "list_all scalar (report_filename title i h)"
  shows "plain_name (codes (ident (report_filename title i h)))"
proof -
  let ?n = "report_filename title i h"
  have c: "codes (ident ?n) = utf8_encode ?n"
    using scalar_bytes [OF assms(3)] by (simp add: ident_def codes_char_of)
  obtain u where u: "?n = u @ [45] @ codes (take 8 h) @ codes ''.md''" "set u \<subseteq> set (safe_filename title i)"
    using report_filename_end by blast
  have "47 \<notin> set (safe_filename title i)"
    using safe_filename_set [of 47 title i] assms(1) by (auto simp: INVALID_FILENAME_CHARS_def codes_def)
  moreover have "47 \<notin> set (codes (take 8 h))"
  proof
    assume "47 \<in> set (codes (take 8 h))"
    then obtain x where "x \<in> set h" "of_char x = (47 :: nat)" by (auto simp: codes_def dest: in_set_takeD)
    then have "x = CHR ''/''" using of_char_eq_iff [of x "CHR ''/''", where ?'a = nat] by simp
    with \<open>x \<in> set h\<close> assms(2) show False by simp
  qed
  ultimately have "47 \<notin> set (utf8_encode ?n)"
    using u by (auto simp: ascii_utf8_encode codes_def)
  moreover have "length (utf8_encode ?n) \<ge> 4"
  proof -
    have "utf8_encode ?n = utf8_encode u @ [45] @ utf8_encode (codes (take 8 h)) @ codes ''.md''"
      unfolding u(1) by (simp add: utf8_encode_def utf8_bytes_def codes_def)
    then show ?thesis by (simp add: codes_def)
  qed
  ultimately show ?thesis unfolding c by (auto simp: plain_name_def codes_def)
qed

section \<open>One write\<close>

text \<open>
  What any write to a file does to the others, whether it succeeds, fails or is cut short.
\<close>

definition replaced :: "string \<Rightarrow> path \<Rightarrow> nat list \<Rightarrow> store \<Rightarrow> store \<Rightarrow> bool" where
  "replaced uuid final content st st' \<longleftrightarrow>
     sr_root st' = sr_root st \<and> sr_unreadable st' = sr_unreadable st \<and>
     (\<forall>p. p \<noteq> temporary final uuid \<longrightarrow>
        sr_files st' p = sr_files st p \<or> p = final \<and> sr_files st' p = Some content)"

lemma replace_file_effect:
  assumes "replace_file uuid final content st = (res, st')" "temporary final uuid \<noteq> final"
  shows "replaced uuid final content st st'"
    and "res = Inr () \<Longrightarrow> sr_files st' final = Some content"
    and "res = Inl e \<Longrightarrow> p \<noteq> temporary final uuid \<Longrightarrow> sr_files st' p = sr_files st p"
  using assms by (auto simp: replace_file_def replaced_def split: option.splits if_splits)

lemma temporary_plain: "temporary (base @ [n]) uuid = base @ [n @ codes ''.'' @ codes uuid @ codes ''.tmp'']"
  by (simp add: temporary_def)

lemma temporary_other: "temporary (base @ [n]) uuid \<noteq> base @ [n]"
  by (simp add: temporary_plain codes_def)

lemma conflict_plain:
  assumes "plain_name n" "CHR ''/'' \<notin> set uuid" "set n \<subseteq> {..<256}"
  obtains m where "conflict_path (base @ [n]) uuid = base @ [codes m]" "plain_name (codes m)"
proof -
  let ?m = "fst (stem_suffix n) @ codes ''.conflict-'' @ codes (take 8 uuid) @ snd (stem_suffix n)"
  have sub: "set (fst (stem_suffix n)) \<subseteq> set n" "set (snd (stem_suffix n)) \<subseteq> set n"
    using set_take_subset [of "length n - length (rev (takeWhile (\<lambda>c. c \<noteq> 46) (rev n))) - 1" n]
      set_takeWhileD [of _ "\<lambda>c. c \<noteq> 46" "rev n"]
    by (auto simp: stem_suffix_def Let_def)
  have u: "47 \<notin> set (codes (take 8 uuid))"
  proof
    assume "47 \<in> set (codes (take 8 uuid))"
    then obtain x where "x \<in> set uuid" "of_char x = (47 :: nat)" by (auto simp: codes_def dest: in_set_takeD)
    then have "x = CHR ''/''" using of_char_eq_iff [of x "CHR ''/''", where ?'a = nat] by simp
    with \<open>x \<in> set uuid\<close> assms(2) show False by simp
  qed
  have c: "set ?m \<subseteq> {..<256}"
    using sub assms(3) by (auto simp: codes_def)
  then have m: "codes (map char_of ?m) = ?m" by (intro codes_char_of) blast
  have "plain_name ?m"
    using sub assms(1) u by (auto simp: plain_name_def codes_def append_eq_Cons_conv)
  with m that [of "map char_of ?m"] show ?thesis by (simp add: conflict_path_def)
qed

section \<open>The writer\<close>

text \<open>The two draws give names that no file has yet.\<close>

definition fresh_draws :: "string \<times> string \<Rightarrow> path \<Rightarrow> store \<Rightarrow> bool" where
  "fresh_draws uuids final st \<longleftrightarrow>
     CHR ''/'' \<notin> set (fst uuids) \<and>
     list_all (\<lambda>p. sr_files st p = None)
       [conflict_path final (fst uuids), temporary final (snd uuids),
        temporary (conflict_path final (fst uuids)) (snd uuids)]"

definition temporaries :: "string \<times> string \<Rightarrow> path \<Rightarrow> path set" where
  "temporaries uuids final =
     {temporary final (snd uuids), temporary (conflict_path final (fst uuids)) (snd uuids)}"

text \<open>
  Every path but a temporary one keeps its file or holds the whole report, and a file that
  gave way had the hash of the report generated before.
\<close>

definition known_files_only ::
  "(nat list \<Rightarrow> string) \<Rightarrow> string option \<Rightarrow> nat list \<Rightarrow> path set \<Rightarrow> store \<Rightarrow> store \<Rightarrow> bool" where
  "known_files_only sha256 previous content temps st st' \<longleftrightarrow>
     (\<forall>p. p \<notin> temps \<longrightarrow> sr_files st' p = sr_files st p \<or>
        butlast p = sr_root st \<and> sr_files st' p = Some content \<and>
        (sr_files st p = None \<or> (\<exists>old. sr_files st p = Some old \<and> previous = Some (sha256 old))))"

lemma put_report_effect:
  assumes "put_report sha256 uuid (sr_root st @ [codes n]) conflict content st = (res, st')"
  shows "replaced uuid (sr_root st @ [codes n]) content st st'"
    and "res = Inr r \<Longrightarrow> rw_path r = n \<and> rw_content_hash r = sha256 content \<and> rw_conflict r = conflict \<and>
      sr_files st' (sr_root st @ [codes n]) = Some content"
    and "res = Inl e \<Longrightarrow> p \<noteq> temporary (sr_root st @ [codes n]) uuid \<Longrightarrow> sr_files st' p = sr_files st p"
proof -
  obtain x s where x: "replace_file uuid (sr_root st @ [codes n]) content st = (x, s)" by fastforce
  note eff = replace_file_effect [OF x temporary_other]
  have s: "st' = s" "x = Inr () \<longleftrightarrow> (\<exists>r. res = Inr r)" "\<And>e. x = Inl e \<longleftrightarrow> res = Inl e"
    using assms x by (auto simp: put_report_def split: sum.splits)
  show "replaced uuid (sr_root st @ [codes n]) content st st'" using eff(1) s(1) by simp
  show "sr_files st' p = sr_files st p" if "res = Inl e" "p \<noteq> temporary (sr_root st @ [codes n]) uuid"
    using that eff(3) [of e] s by auto
  show "rw_path r = n \<and> rw_content_hash r = sha256 content \<and> rw_conflict r = conflict \<and>
      sr_files st' (sr_root st @ [codes n]) = Some content" if "res = Inr r"
    using that assms x eff(2) by (auto simp: put_report_def split: sum.splits)
qed

lemma write_report_effect:
  assumes "plain_name (codes n)" "fresh_draws uuids (sr_root st @ [codes n]) st"
    and "write_report sha256 uuids n content previous st = (res, st')"
  shows "known_files_only sha256 previous content (temporaries uuids (sr_root st @ [codes n])) st st'"
    and "case res of
        Inl e \<Rightarrow> \<forall>p. p \<notin> temporaries uuids (sr_root st @ [codes n]) \<longrightarrow> sr_files st' p = sr_files st p
      | Inr r \<Rightarrow> rw_content_hash r = sha256 content \<and> plain_name (codes (rw_path r)) \<and>
          (rw_conflict r = False \<longrightarrow> rw_path r = n) \<and>
          (\<exists>bs. sr_files st' (sr_root st @ [codes (rw_path r)]) = Some bs \<and> sha256 bs = sha256 content)"
    and "sr_root st' = sr_root st" "sr_unreadable st' = sr_unreadable st"
proof -
  let ?f = "sr_root st @ [codes n]"
  let ?goal = "known_files_only sha256 previous content (temporaries uuids ?f) st st' \<and>
     (case res of
        Inl e \<Rightarrow> \<forall>p. p \<notin> temporaries uuids ?f \<longrightarrow> sr_files st' p = sr_files st p
      | Inr r \<Rightarrow> rw_content_hash r = sha256 content \<and> plain_name (codes (rw_path r)) \<and>
          (rw_conflict r = False \<longrightarrow> rw_path r = n) \<and>
          (\<exists>bs. sr_files st' (sr_root st @ [codes (rw_path r)]) = Some bs \<and> sha256 bs = sha256 content)) \<and>
     sr_root st' = sr_root st \<and> sr_unreadable st' = sr_unreadable st"
  have draws: "CHR ''/'' \<notin> set (fst uuids)" using assms(2) by (simp add: fresh_draws_def)
  have bytes: "set (codes n) \<subseteq> {..<256}" by (auto simp: codes_def)
  obtain m where m: "conflict_path ?f (fst uuids) = sr_root st @ [codes m]" "plain_name (codes m)"
    using conflict_plain [OF assms(1) draws bytes] by blast
  have put: ?goal
    if w: "put_report sha256 (snd uuids) (sr_root st @ [codes x]) conflict content st = (res, st')"
      and x: "x = n \<and> \<not> conflict \<or> x = m \<and> conflict"
      and old: "sr_files st (sr_root st @ [codes x]) = None \<or>
        (\<exists>w. sr_files st (sr_root st @ [codes x]) = Some w \<and> previous = Some (sha256 w))" for x conflict
  proof -
    note eff = put_report_effect [OF w]
    have t: "temporary (sr_root st @ [codes x]) (snd uuids) \<in> temporaries uuids ?f"
      using x m(1) by (auto simp: temporaries_def)
    have k: "known_files_only sha256 previous content (temporaries uuids ?f) st st'"
      unfolding known_files_only_def
    proof (intro allI impI)
      fix p assume "p \<notin> temporaries uuids ?f"
      with t have "p \<noteq> temporary (sr_root st @ [codes x]) (snd uuids)" by blast
      with eff(1) have "sr_files st' p = sr_files st p \<or>
          p = sr_root st @ [codes x] \<and> sr_files st' p = Some content"
        unfolding replaced_def by blast
      with old show "sr_files st' p = sr_files st p \<or>
          butlast p = sr_root st \<and> sr_files st' p = Some content \<and>
          (sr_files st p = None \<or> (\<exists>old. sr_files st p = Some old \<and> previous = Some (sha256 old)))"
        by auto
    qed
    have r: "sr_root st' = sr_root st" "sr_unreadable st' = sr_unreadable st"
      using eff(1) by (simp_all add: replaced_def)
    show ?goal
    proof (cases res)
      case (Inl e)
      have "sr_files st' p = sr_files st p" if "p \<notin> temporaries uuids ?f" for p
        using that t by (intro eff(3) [OF Inl]) blast
      with Inl k r show ?thesis by simp
    next
      case (Inr r')
      with k r eff(2) [OF Inr] x assms(1) m(2) show ?thesis by auto
    qed
  qed
  have same: ?goal if "st' = st" "\<And>r. res = Inr r \<Longrightarrow> r = \<lparr>rw_path = n, rw_content_hash = sha256 content, rw_conflict = False\<rparr> \<and>
      (\<exists>bs. sr_files st ?f = Some bs \<and> sha256 bs = sha256 content)"
    using that assms(1) by (cases res) (auto simp: known_files_only_def)
  have free: "sr_files st (sr_root st @ [codes m]) = None"
    using assms(2) m(1) by (simp add: fresh_draws_def)
  have ?goal
  proof (cases "sr_files st ?f")
    case None
    with assms(3) show ?thesis
      by (intro put [where x = n and conflict = False])
        (simp_all add: write_report_def resolve_inside_plain [OF assms(1)])
  next
    case (Some existing)
    note w = assms(3) [unfolded write_report_def resolve_inside_plain [OF assms(1)] sum.case Some option.simps if_False]
    show ?thesis
    proof (cases "read_bytes st ?f")
      case (Inl e)
      with w show ?thesis by (intro same) auto
    next
      case (Inr bs)
      then have bs: "bs = existing" using Some by (simp add: read_bytes_def split: option.splits prod.splits)
      show ?thesis
      proof (cases "sha256 existing = sha256 content \<or> previous = None")
        case True
        with w Inr bs Some show ?thesis by (intro same) (auto split: if_splits)
      next
        case False
        then obtain h where h: "previous = Some h" by blast
        show ?thesis
        proof (cases "sha256 existing = h")
          case True
          with w Inr bs False h Some show ?thesis
            by (intro put [where x = n and conflict = False]) auto
        next
          case other: False
          with w Inr bs False h m(1) free show ?thesis
            by (intro put [where x = m and conflict = True]) auto
        qed
      qed
    qed
  qed
  then show "known_files_only sha256 previous content (temporaries uuids ?f) st st'"
    "case res of
        Inl e \<Rightarrow> \<forall>p. p \<notin> temporaries uuids ?f \<longrightarrow> sr_files st' p = sr_files st p
      | Inr r \<Rightarrow> rw_content_hash r = sha256 content \<and> plain_name (codes (rw_path r)) \<and>
          (rw_conflict r = False \<longrightarrow> rw_path r = n) \<and>
          (\<exists>bs. sr_files st' (sr_root st @ [codes (rw_path r)]) = Some bs \<and> sha256 bs = sha256 content)"
    "sr_root st' = sr_root st" "sr_unreadable st' = sr_unreadable st" by simp_all
qed

text \<open>
  C25. The report writer never destroys work. Whatever is in the directory and whatever fails
  on the way, after a write every file it finds is still there, unless it had exactly the hash
  of the report generated before; every file it made is complete, apart from a temporary one,
  and lies in the report directory itself. When it succeeds, the name it returns holds the
  report and reads back under the hash it returns; when it raises, nothing has changed but a
  temporary file.
\<close>
theorem report_writer_never_destroys:
  assumes "\<And>bs. hex_digest (sha256 bs)" "47 \<notin> set analysis_id"
    and "list_all scalar (report_filename title analysis_id (sha256 content))"
    and "fresh_draws uuids (sr_root st @ [codes name]) st"
    and "name = ident (report_filename title analysis_id (sha256 content))"
    and "write_report sha256 uuids name content previous st = (res, st')"
  shows "known_files_only sha256 previous content (temporaries uuids (sr_root st @ [codes name])) st st' \<and>
    (case res of
       Inl e \<Rightarrow> \<forall>p. p \<notin> temporaries uuids (sr_root st @ [codes name]) \<longrightarrow> sr_files st' p = sr_files st p
     | Inr r \<Rightarrow> rw_content_hash r = sha256 content \<and>
         (sr_unreadable st (sr_root st @ [codes (rw_path r)]) = None \<longrightarrow>
           (\<exists>bs. read_report_verified sha256 st' (rw_path r) (rw_content_hash r) = Inr bs)))"
proof -
  have "CHR ''/'' \<notin> set (sha256 content)" using assms(1) [of content] by (auto simp: hex_digest_def list_all_iff)
  then have n: "plain_name (codes name)"
    unfolding assms(5) by (rule report_filename_plain [OF assms(2) _ assms(3)])
  note eff = write_report_effect [OF n assms(4,6)]
  show ?thesis
  proof (cases res)
    case (Inl e)
    with eff(1,2) show ?thesis by simp
  next
    case (Inr r)
    with eff(2) obtain bs where r: "rw_content_hash r = sha256 content" "plain_name (codes (rw_path r))"
      "sr_files st' (sr_root st @ [codes (rw_path r)]) = Some bs" "sha256 bs = sha256 content" by auto
    have "read_report_verified sha256 st' (rw_path r) (rw_content_hash r) = Inr bs"
      if "sr_unreadable st (sr_root st @ [codes (rw_path r)]) = None"
      unfolding read_report_verified_def resolve_inside_plain [OF r(2)] sum.case eff(3) read_bytes_def eff(4) that
      using r by simp
    with Inr eff(1) r(1) show ?thesis by simp
  qed
qed

text \<open>A user edited the report of an earlier run: the new one goes beside it.\<close>

definition flat_digest :: "nat list \<Rightarrow> string" where
  "flat_digest bs = replicate (64 - min 64 (length bs)) (CHR ''0'') @ replicate (min 64 (length bs)) (CHR ''1'')"

definition edited_store :: store where
  "edited_store =
     \<lparr>sr_root = [codes ''r''], sr_files = [[codes ''r'', codes ''T-00000000.md''] \<mapsto> [1, 2, 3]],
      sr_fault = (\<lambda>_. None), sr_unreadable = (\<lambda>_. None)\<rparr>"

lemma flat_digest_hex: "hex_digest (flat_digest bs)"
  by (auto simp: hex_digest_def flat_digest_def list_all_iff)

lemma reserved_length: "n \<in> set WINDOWS_RESERVED \<Longrightarrow> 3 \<le> length n"
  by (auto simp: WINDOWS_RESERVED_def codes_def)

lemma edited_name: "report_filename (codes ''T'') (codes ''j'') (flat_digest [5]) = codes ''T-00000000.md''"
proof -
  have "sql_lower [84] \<notin> set WINDOWS_RESERVED"
    using reserved_length [of "sql_lower [84]"] by (auto simp: sql_lower_def)
  then have "safe_filename (codes ''T'') (codes ''j'') = codes ''T.md''"
    by (simp add: safe_filename_def Let_def INVALID_FILENAME_CHARS_def codes_def strip_def lstrip_def
        is_space_def rstrip_dots_def MAX_COMPONENT_def)
  moreover have "take 8 (flat_digest [5]) = ''00000000''"
    by (simp add: flat_digest_def eval_nat_numeral)
  ultimately show ?thesis by (simp add: report_filename_def codes_def)
qed

theorem report_writer_never_destroys_witness:
  "sr_files (snd (write_report flat_digest (''a'', ''b'') ''T-00000000.md'' [5] (Some (flat_digest [5])) edited_store))
     [codes ''r'', codes ''T-00000000.md''] = Some [1, 2, 3]"
proof -
  let ?name = "ident (report_filename (codes ''T'') (codes ''j'') (flat_digest [5]))"
  have n: "?name = ''T-00000000.md''" unfolding edited_name by (rule ident_ascii) simp
  let ?w = "write_report flat_digest (''a'', ''b'') ?name [5] (Some (flat_digest [5])) edited_store"
  have "known_files_only flat_digest (Some (flat_digest [5])) [5]
      (temporaries (''a'', ''b'') (sr_root edited_store @ [codes ?name])) edited_store (snd ?w)"
  proof (rule report_writer_never_destroys [THEN conjunct1])
    show "write_report flat_digest (''a'', ''b'') ?name [5] (Some (flat_digest [5])) edited_store = (fst ?w, snd ?w)"
      by simp
    show "fresh_draws (''a'', ''b'') (sr_root edited_store @ [codes ?name]) edited_store"
      unfolding n
      by (simp add: fresh_draws_def edited_store_def conflict_path_def temporary_def with_name_def
          stem_suffix_def Let_def codes_def)
    show "list_all scalar (report_filename (codes ''T'') (codes ''j'') (flat_digest [5]))"
      unfolding edited_name by (simp add: codes_def scalar_def)
    show "47 \<notin> set (codes ''j'')" by (simp add: codes_def)
  qed (rule flat_digest_hex, rule refl)
  then have "[codes ''r'', codes ''T-00000000.md''] \<notin> temporaries (''a'', ''b'') [codes ''r'', codes ''T-00000000.md''] \<longrightarrow>
      sr_files (snd ?w) [codes ''r'', codes ''T-00000000.md''] = Some [1, 2, 3] \<or>
      flat_digest [5] = flat_digest [1, 2, 3]"
    unfolding n by (auto simp: known_files_only_def edited_store_def)
  moreover have "[codes ''r'', codes ''T-00000000.md''] \<notin> temporaries (''a'', ''b'') [codes ''r'', codes ''T-00000000.md'']"
    by (simp add: temporaries_def conflict_path_def temporary_def with_name_def stem_suffix_def Let_def codes_def)
  moreover have "flat_digest [5] \<noteq> flat_digest [1, 2, 3]"
    by (simp add: flat_digest_def numeral_eq_Suc)
  ultimately show ?thesis by (simp add: n)
qed

end
