(* ===== verification/ReportFileTheorems.thy ===== *)
theory ReportFileTheorems
  imports ReportFiles
begin

text \<open>
  What the strict reader accepts is well formed, and it reads back what the renderer wrote.
\<close>

section \<open>Lines\<close>

lemma find_text_fresh:
  "c \<notin> set w \<Longrightarrow> find_text (c # p) (w @ t) = map_option ((+) (length w)) (find_text (c # p) t)"
  by (induction w; cases "find_text (c # p) t") auto

lemma partition_text_fresh:
  "c \<notin> set w \<Longrightarrow> partition_text (c # p) (w @ (c # p) @ t) = Some (w, t)"
  by (simp add: partition_text_def find_text_fresh)

lemma split_on_append: "split_on d (a @ d # b) = split_on d a @ split_on d b"
proof (induction a)
  case (Cons x a)
  then show ?case by (auto split: list.split)
qed simp

lemma join_split_on: "join [d] (split_on d t) = t"
proof (induction t)
  case (Cons x t)
  have "split_on d t \<noteq> []" by simp
  then obtain w ws where "split_on d t = w # ws" by (cases "split_on d t") auto
  with Cons show ?case by (cases ws) (auto simp: join_Cons)
qed simp

text \<open>The closing fence is found behind the last line of the frontmatter.\<close>

lemma find_closer:
  assumes "ls \<noteq> []" "\<And>l. l \<in> set ls \<Longrightarrow> l \<noteq> [] \<and> hd l \<noteq> 45 \<and> 10 \<notin> set l"
  shows "find_text closer (join [10] ls @ closer @ rest) = Some (length (join [10] ls))"
  using assms
proof (induction ls)
  case (Cons l ls)
  then have l: "10 \<notin> set l" by simp
  show ?case
  proof (cases ls)
    case Nil
    with l show ?thesis by (simp add: closer_def find_text_fresh)
  next
    case (Cons k ks)
    have k: "k \<noteq> []" "hd k \<noteq> 45" using Cons.prems Cons by auto
    then obtain x xs where x: "k = x # xs" "x \<noteq> 45" by (cases k) auto
    have "find_text closer (10 # join [10] ls @ closer @ rest) =
        map_option Suc (find_text closer (join [10] ls @ closer @ rest))"
      using x Cons by (auto simp: closer_def codes_def join_Cons)
    with Cons.IH Cons.prems Cons l show ?thesis
      by (simp add: closer_def find_text_fresh join_Cons)
  qed
qed simp

section \<open>Trimmed pieces\<close>

lemma strip_lines: "strip (10 # t @ [10]) = strip t"
proof (cases "\<forall>c \<in> set t. is_space c")
  case True
  then have "strip (10 # t @ [10]) = []" "strip t = []"
    by (simp_all add: strip_eq_Nil) (simp add: is_space_def)
  then show ?thesis by simp
next
  case False
  have nl: "is_space 10" by (simp add: is_space_def)
  from False nl have "lstrip (10 # t @ [10]) = lstrip t @ [10]"
    by (simp add: lstrip_def dropWhile_append)
  with nl show ?thesis by (simp add: strip_def lstrip_def)
qed

lemma trimmed_iff: "strip t = t \<longleftrightarrow> trimmed t"
  by (metis strip_trimmed trimmed_strip)

section \<open>Reading the frontmatter back\<close>

definition plain_key :: "string \<Rightarrow> bool" where
  "plain_key k \<longleftrightarrow> k \<noteq> [] \<and> list_all (\<lambda>c. c = 95 \<or> 97 \<le> c \<and> c \<le> 122) (codes k)"

lemma plain_key:
  assumes "plain_key k"
  shows "codes k \<noteq> []" "58 \<notin> set (codes k)" "10 \<notin> set (codes k)" "trimmed (codes k)"
    "hd (codes k) \<noteq> 45" "\<not> (\<forall>c \<in> set (codes k). is_space c)"
proof -
  have c: "c = 95 \<or> 97 \<le> c \<and> c \<le> 122" if "c \<in> set (codes k)" for c
    using assms that by (auto simp: plain_key_def list_all_iff)
  show ne: "codes k \<noteq> []" using assms by (simp add: plain_key_def codes_def)
  show "58 \<notin> set (codes k)" "10 \<notin> set (codes k)" using c by fastforce+
  have "\<not> is_space c" if "c \<in> set (codes k)" for c using c [OF that] by (auto simp: is_space_def)
  then show "trimmed (codes k)" "\<not> (\<forall>c \<in> set (codes k). is_space c)"
    using ne hd_in_set [OF ne] by (auto simp: trimmed_def)
  show "hd (codes k) \<noteq> 45" using c [OF hd_in_set [OF ne]] by auto
qed

lemma frontmatter_field:
  assumes "plain_key k"
  shows "frontmatter_line (field_line (k, v)) = Inr (Some (codes k, v))"
proof -
  have "partition_text [58, 32] (field_line (k, v)) = Some (codes k, v)"
    using partition_text_fresh [of 58 "codes k" "[32]" v] plain_key(2) [OF assms] by (simp add: field_line_def)
  then show ?thesis
    using plain_key(4,6) [OF assms] by (auto simp: frontmatter_line_def strip_eq_Nil strip_trimmed field_line_def)
qed

definition put_fields :: "(string \<times> utext) list \<Rightarrow> (utext \<rightharpoonup> utext) \<Rightarrow> (utext \<rightharpoonup> utext)" where
  "put_fields ps fm = foldl (\<lambda>m p. m(codes (fst p) \<mapsto> snd p)) fm ps"

lemma parse_field_lines:
  "list_all plain_key (map fst ps) \<Longrightarrow> parse_lines (map field_line ps) fm = Inr (put_fields ps fm)"
proof (induction ps arbitrary: fm)
  case (Cons p ps)
  then show ?case by (cases p) (simp add: frontmatter_field put_fields_def)
qed (simp add: put_fields_def)

lemma put_fields_lookup:
  assumes "distinct (map fst ps)"
  shows "put_fields ps fm (codes k) = (case map_of ps k of None \<Rightarrow> fm (codes k) | Some v \<Rightarrow> Some v)"
  using assms
proof (induction ps arbitrary: fm)
  case (Cons p ps)
  have "map_of ps (fst p) = None" using Cons.prems by (simp add: map_of_eq_None_iff)
  with Cons show ?case by (cases p) (auto simp: put_fields_def split: option.split)
qed (simp add: put_fields_def)

lemma loads_dumps_text: "floats v = [] \<Longrightarrow> loads_text (dumps_text v) = Some v"
  using loads_dumps [of "\<lambda>_. None" "\<lambda>_. []" v "[]" None]
  by (simp add: loads_text_def dumps_text_def stop_def skip_space_def)

lemma loads_tags [simp]: "loads_text (dumps_text (JArr (map JStr ts))) = Some (JArr (map JStr ts))"
  by (rule loads_dumps_text) (simp add: comp_def)

lemma loads_yaml [simp]: "loads_text (yaml_text s) = Some (JStr s)"
  unfolding yaml_text_def by (rule loads_dumps_text) simp

lemma yaml_text_alt: "yaml_text s = 34 # concat (map escape_char s) @ [34]"
  by (simp add: yaml_text_def dumps_text_def dumps_def string_text_def)

lemma yaml_not_empty [simp]: "yaml_text s \<noteq> []" "yaml_text s \<noteq> codes ''null''"
  by (simp_all add: yaml_text_alt codes_def)

text \<open>No raw line break comes out of the JSON writer.\<close>

lemma escape_char_no_break: "10 \<notin> set (escape_char c)"
  by (auto simp: escape_char_def hex_char_def split: if_splits)

lemma yaml_no_break: "10 \<notin> set (yaml_text s)"
  using escape_char_no_break by (auto simp: yaml_text_alt)

lemma tags_no_break: "10 \<notin> set (dumps_text (JArr (map JStr ts)))"
proof -
  have "10 \<notin> set (string_text t)" for t using escape_char_no_break by (auto simp: string_text_def)
  then have "10 \<notin> set (join [44, 32] (map string_text ts))"
    by (induction ts) (auto simp: join_Cons)
  then show ?thesis
    by (simp add: dumps_text_def dumps_def line_break_def item_sep_def comp_def)
qed

lemma int_no_break: "10 \<notin> set (int_text i)"
  using nat_digits_digits [of 10] by (auto simp: int_text_def is_digit_def)

text \<open>
  What the renderer needs of \<open>datetime.isoformat\<close>: digits, signs, points, colons and the
  letter T, read back by \<open>fromisoformat\<close>.
\<close>

definition iso_char :: "nat \<Rightarrow> bool" where
  "iso_char c \<longleftrightarrow> is_digit c \<or> c \<in> {43, 45, 46, 58, 84}"

definition clock_ok :: "'dt pylib \<Rightarrow> 'dt \<Rightarrow> bool" where
  "clock_ok L t \<longleftrightarrow>
     isoformat L t \<noteq> [] \<and> list_all iso_char (isoformat L t) \<and> fromisoformat L (isoformat L t) = Some t"

lemma read_literal_not_string: "read_literal rd t \<noteq> Some (JStr s, r)"
  by (auto simp: read_literal_def split: if_splits option.splits)

lemma loads_bare:
  assumes "t \<noteq> []" "list_all iso_char t"
  shows "loads_text t \<noteq> Some (JStr s)"
proof -
  obtain c cs where t: "t = c # cs" "iso_char c" using assms by (cases t) auto
  then have "c \<noteq> 34" "c \<noteq> 91" "c \<noteq> 123" "\<not> json_space c"
    by (auto simp: iso_char_def is_digit_def json_space_def)
  with t show ?thesis
    using read_literal_not_string
    by (auto simp: loads_text_def loads_def skip_space_def read_value_scalar split: option.splits if_splits)
qed

lemma json_datetime_bare:
  assumes "clock_ok L t" "has_offset L t" "raw_field fm key = isoformat L t"
  shows "json_datetime L fm key required = Inr (Some t)"
proof -
  have "isoformat L t \<noteq> codes ''null''"
    using assms(1) by (auto simp: clock_ok_def codes_def iso_char_def is_digit_def)
  moreover have "(case loads_text (isoformat L t) of Some (JStr s) \<Rightarrow> s | _ \<Rightarrow> isoformat L t) = isoformat L t"
    using loads_bare [of "isoformat L t"] assms(1)
    by (auto simp: clock_ok_def split: option.split jtree.split)
  ultimately show ?thesis
    using assms by (simp add: json_datetime_def clock_ok_def Let_def)
qed

lemma json_datetime_quoted:
  assumes "clock_ok L t" "has_offset L t" "raw_field fm key = yaml_text (isoformat L t)"
  shows "json_datetime L fm key required = Inr (Some t)"
  using assms by (simp add: json_datetime_def clock_ok_def)

text \<open>The fields of a rendered document.\<close>

lemma frontmatter_keys:
  "list_all plain_key (map fst (frontmatter_fields L d))" "distinct (map fst (frontmatter_fields L d))"
  by (simp_all add: frontmatter_fields_def plain_key_def codes_def)

definition rendered_fields :: "'dt pylib \<Rightarrow> 'dt report_doc \<Rightarrow> (utext \<rightharpoonup> utext)" where
  "rendered_fields L d = put_fields (frontmatter_fields L d) Map.empty"

lemma rendered_lookup:
  "rendered_fields L d (codes k) = map_of (frontmatter_fields L d) k"
  unfolding rendered_fields_def put_fields_lookup [OF frontmatter_keys(2)] by (simp split: option.split)

lemma raw_rendered: "raw_field (rendered_fields L d) k = (case map_of (frontmatter_fields L d) k of None \<Rightarrow> [] | Some v \<Rightarrow> v)"
  by (simp add: raw_field_def rendered_lookup)

lemma iso_no_break: "list_all iso_char t \<Longrightarrow> 10 \<notin> set t"
  by (auto simp: list_all_iff iso_char_def is_digit_def)

definition dates_ok :: "'dt pylib \<Rightarrow> 'dt report_doc \<Rightarrow> bool" where
  "dates_ok L d \<longleftrightarrow> clock_ok L (dc_analyzed_at d) \<and>
     (case dc_published_at d of None \<Rightarrow> True | Some t \<Rightarrow> clock_ok L t)"

lemma frontmatter_no_break:
  assumes "dates_ok L d" "l \<in> set (map field_line (frontmatter_fields L d))"
  shows "l \<noteq> [] \<and> hd l \<noteq> 45 \<and> 10 \<notin> set l"
proof -
  obtain k v where kv: "(k, v) \<in> set (frontmatter_fields L d)" "l = field_line (k, v)"
    using assms(2) by auto
  have k: "plain_key k" using frontmatter_keys(1) [of L d] kv(1) by (force simp: list_all_iff)
  have "10 \<notin> set (published_text L (dc_published_at d))"
    using assms(1) iso_no_break
    by (auto simp: dates_ok_def clock_ok_def published_text_def codes_def split: option.splits)
  then have "10 \<notin> set v"
    using kv(1) by (auto simp: frontmatter_fields_def yaml_no_break tags_no_break int_no_break)
  with plain_key [OF k] kv(2) show ?thesis by (auto simp: field_line_def hd_append)
qed

lemma parse_rendered_frontmatter:
  assumes "dates_ok L d"
  shows "parse_frontmatter (join [10] (map field_line (frontmatter_fields L d))) = Inr (rendered_fields L d)"
proof -
  have "split_on 10 (join [10] (map field_line (frontmatter_fields L d))) = map field_line (frontmatter_fields L d)"
    using frontmatter_no_break [OF assms]
    by (intro split_on_join) (simp add: frontmatter_fields_def, blast)
  then show ?thesis
    unfolding parse_frontmatter_def rendered_fields_def by (simp only: parse_field_lines [OF frontmatter_keys(1)])
qed

definition document_value :: "'dt report_doc \<Rightarrow> string \<Rightarrow> utext" where
  "document_value d key =
     (case map_of
        [(''analysis_id'', dc_analysis_id d), (''source_url'', dc_source_url d),
         (''platform'', dc_platform d), (''video_id'', dc_video_id d), (''title'', dc_title d),
         (''summary_mode'', dc_summary_mode d), (''author'', dc_author d), (''language'', dc_language d),
         (''asr_provider'', dc_asr_provider d), (''asr_model'', dc_asr_model d),
         (''asr_model_version'', dc_asr_model_version d)] key of
        None \<Rightarrow> [] | Some v \<Rightarrow> v)"

lemma read_values_all:
  assumes "\<And>k. k \<in> set keys \<Longrightarrow> json_str fm k = Inr (f k)"
  shows "read_values fm keys = Inr (\<lambda>k. if k \<in> set keys then f k else [])"
  using assms by (induction keys) (auto simp: fun_eq_iff)

lemma document_values:
  "document_value d ''analysis_id'' = dc_analysis_id d" "document_value d ''source_url'' = dc_source_url d"
  "document_value d ''platform'' = dc_platform d" "document_value d ''video_id'' = dc_video_id d"
  "document_value d ''title'' = dc_title d" "document_value d ''summary_mode'' = dc_summary_mode d"
  "document_value d ''author'' = dc_author d" "document_value d ''language'' = dc_language d"
  "document_value d ''asr_provider'' = dc_asr_provider d" "document_value d ''asr_model'' = dc_asr_model d"
  "document_value d ''asr_model_version'' = dc_asr_model_version d"
  by (simp_all add: document_value_def)

lemma read_rendered_value: "map_of (frontmatter_fields L d) k = Some (yaml_text v) \<Longrightarrow> json_str (rendered_fields L d) k = Inr v"
  by (simp add: json_str_def raw_rendered)

lemma read_rendered_strings:
  "map_of (frontmatter_fields L d) ''analysis_id'' = Some (yaml_text (dc_analysis_id d))"
  "map_of (frontmatter_fields L d) ''source_url'' = Some (yaml_text (dc_source_url d))"
  "map_of (frontmatter_fields L d) ''platform'' = Some (yaml_text (dc_platform d))"
  "map_of (frontmatter_fields L d) ''video_id'' = Some (yaml_text (dc_video_id d))"
  "map_of (frontmatter_fields L d) ''title'' = Some (yaml_text (dc_title d))"
  "map_of (frontmatter_fields L d) ''author'' = Some (yaml_text (dc_author d))"
  "map_of (frontmatter_fields L d) ''summary_mode'' = Some (yaml_text (dc_summary_mode d))"
  "map_of (frontmatter_fields L d) ''language'' = Some (yaml_text (dc_language d))"
  "map_of (frontmatter_fields L d) ''asr_provider'' = Some (yaml_text (dc_asr_provider d))"
  "map_of (frontmatter_fields L d) ''asr_model'' = Some (yaml_text (dc_asr_model d))"
  "map_of (frontmatter_fields L d) ''asr_model_version'' = Some (yaml_text (dc_asr_model_version d))"
  by (simp_all add: frontmatter_fields_def)

lemma read_rendered_values: "read_values (rendered_fields L d) VALUE_KEYS = Inr (document_value d)"
proof -
  have "\<forall>k \<in> set VALUE_KEYS. json_str (rendered_fields L d) k = Inr (document_value d k)"
    unfolding VALUE_KEYS_def by (simp add: read_rendered_value [OF read_rendered_strings(1)]
        read_rendered_value [OF read_rendered_strings(2)] read_rendered_value [OF read_rendered_strings(3)]
        read_rendered_value [OF read_rendered_strings(4)] read_rendered_value [OF read_rendered_strings(5)]
        read_rendered_value [OF read_rendered_strings(6)] read_rendered_value [OF read_rendered_strings(7)]
        read_rendered_value [OF read_rendered_strings(8)] read_rendered_value [OF read_rendered_strings(9)]
        read_rendered_value [OF read_rendered_strings(10)] read_rendered_value [OF read_rendered_strings(11)]
        document_values)
  then have "read_values (rendered_fields L d) VALUE_KEYS =
      Inr (\<lambda>k. if k \<in> set VALUE_KEYS then document_value d k else [])"
    by (intro read_values_all) blast
  moreover have "document_value d k = []" if "k \<notin> set VALUE_KEYS" for k
  proof -
    have "map_of (zip VALUE_KEYS xs) k = None" for xs :: "utext list"
      using that by (auto simp: map_of_eq_None_iff dest: set_zip_leftD)
    from this [of "[dc_analysis_id d, dc_source_url d, dc_platform d, dc_video_id d, dc_title d,
        dc_summary_mode d, dc_author d, dc_language d, dc_asr_provider d, dc_asr_model d, dc_asr_model_version d]"]
    show ?thesis unfolding document_value_def VALUE_KEYS_def zip_Cons_Cons zip_Nil by (simp only: option.case)
  qed
  ultimately show ?thesis by (auto simp: fun_eq_iff)
qed

lemma tag_texts_map [simp]: "tag_texts (map JStr ts) = Some ts"
  by (induction ts) (simp_all add: tag_texts_def)

lemma read_rendered_tags: "json_tags (rendered_fields L d) = Inr (dc_tags d)"
proof -
  have "raw_field (rendered_fields L d) ''tags'' = dumps_text (JArr (map JStr (dc_tags d)))"
    by (simp add: raw_rendered frontmatter_fields_def)
  moreover have "dumps_text (JArr (map JStr (dc_tags d))) \<noteq> []" by (simp add: dumps_text_def dumps_def)
  ultimately show ?thesis by (simp add: json_tags_def)
qed

lemma read_rendered_dates:
  assumes "dates_ok L d" "valid_document L d"
  shows "json_datetime L (rendered_fields L d) ''published_at'' False = Inr (dc_published_at d)"
    and "json_datetime L (rendered_fields L d) ''analyzed_at'' True = Inr (Some (dc_analyzed_at d))"
proof -
  let ?fm = "rendered_fields L d"
  have p: "raw_field ?fm ''published_at'' = published_text L (dc_published_at d)"
    and a: "raw_field ?fm ''analyzed_at'' = yaml_text (isoformat L (dc_analyzed_at d))"
    by (simp_all add: raw_rendered frontmatter_fields_def)
  show "json_datetime L ?fm ''published_at'' False = Inr (dc_published_at d)"
  proof (cases "dc_published_at d")
    case None
    with p show ?thesis by (simp add: json_datetime_def published_text_def)
  next
    case (Some t)
    with assms have "clock_ok L t" "has_offset L t" by (simp_all add: dates_ok_def valid_document_def)
    with p Some show ?thesis by (simp add: json_datetime_bare published_text_def)
  qed
  show "json_datetime L ?fm ''analyzed_at'' True = Inr (Some (dc_analyzed_at d))"
    using assms a by (intro json_datetime_quoted) (simp_all add: dates_ok_def valid_document_def)
qed

lemma rendered_version: "dc_schema_version d = 1 \<Longrightarrow> check_version L (rendered_fields L d) = Inr ()"
  by (simp add: check_version_def rendered_lookup frontmatter_fields_def int_text_def nat_digits.simps
      int_of_text_def int_space_def is_space_def decimal_value_def is_digit_def)

section \<open>Reading the sections back\<close>

definition plain_lines :: "utext \<Rightarrow> bool" where
  "plain_lines t \<longleftrightarrow> list_all (\<lambda>l. map_of SECTIONS l = None) (split_on 10 t)"

lemma scan_plain:
  assumes "list_all (\<lambda>l. map_of SECTIONS l = None) ls" "ch a = Some xs"
  shows "scan_sections (Some a) ch (ls @ rest) = scan_sections (Some a) (ch(a \<mapsto> xs @ ls)) rest"
  using assms
proof (induction ls arbitrary: ch xs)
  case (Cons l ls)
  then have "scan_sections (Some a) ch ((l # ls) @ rest) = scan_sections (Some a) (ch(a \<mapsto> xs @ [l])) (ls @ rest)"
    by simp
  also have "\<dots> = scan_sections (Some a) ((ch(a \<mapsto> xs @ [l]))(a \<mapsto> (xs @ [l]) @ ls)) rest"
    by (rule Cons.IH) (use Cons.prems in simp_all)
  also have "\<dots> = scan_sections (Some a) (ch(a \<mapsto> xs @ (l # ls))) rest"
    by (simp only: fun_upd_upd append_assoc append_Cons append_Nil)
  finally show ?case .
qed (simp add: fun_upd_idem)

text \<open>The lines of one section, and what the scan keeps of it.\<close>

definition section_lines :: "(utext \<times> string) \<times> utext \<Rightarrow> utext list" where
  "section_lines p = [] # split_on 10 (snd p) @ [[]]"

lemma empty_no_heading [simp]: "map_of SECTIONS [] = None"
  by (simp add: SECTIONS_def heading_def codes_def)

lemma scan_groups:
  assumes "list_all (\<lambda>p. fst p \<in> set SECTIONS \<and> plain_lines (snd p)) ps" "distinct (map (snd \<circ> fst) ps)"
  shows "scan_sections cur ch (concat (map (\<lambda>p. fst (fst p) # section_lines p) ps)) =
    ch ++ map_of (map (\<lambda>p. (snd (fst p), section_lines p)) ps)"
  using assms
proof (induction ps arbitrary: cur ch)
  case (Cons p ps)
  obtain h a c where p: "p = ((h, a), c)" by (metis prod.collapse)
  let ?rest = "concat (map (\<lambda>p. fst (fst p) # section_lines p) ps)"
  have "map_of SECTIONS h = Some a"
    using Cons.prems(1) p by (intro map_of_is_SomeI) (simp_all add: SECTIONS_def heading_def)
  then have "scan_sections cur ch (h # section_lines p @ ?rest) =
      scan_sections (Some a) (ch(a \<mapsto> [])) (section_lines p @ ?rest)"
    by simp
  also have "\<dots> = scan_sections (Some a) ((ch(a \<mapsto> []))(a \<mapsto> [] @ section_lines p)) ?rest"
    using Cons.prems(1) by (intro scan_plain) (simp_all add: section_lines_def p plain_lines_def)
  also have "\<dots> = (ch(a \<mapsto> section_lines p)) ++ map_of (map (\<lambda>p. (snd (fst p), section_lines p)) ps)"
    unfolding fun_upd_upd append_Nil by (rule Cons.IH) (use Cons.prems in simp_all)
  also have "\<dots> = ch ++ map_of (map (\<lambda>p. (snd (fst p), section_lines p)) (p # ps))"
  proof -
    have "map_of (map (\<lambda>p. (snd (fst p), section_lines p)) ps) a = None"
      using Cons.prems(2) p by (auto simp: map_of_eq_None_iff comp_def image_iff)
    then show ?thesis
      using p by (intro ext) (simp add: map_add_def split: option.split)
  qed
  finally show ?case by (simp only: p list.map concat.simps fst_conv append_Cons)
qed simp

lemma join_prefix: "join sep (x # xs) = x @ concat (map ((@) sep) xs)"
  by (induction xs arbitrary: x) (simp_all add: join_Cons)

lemma join_snoc: "ws \<noteq> [] \<Longrightarrow> join sep (ws @ [w]) = join sep ws @ sep @ w"
  by (induction ws) (auto simp: join_Cons)

lemma section_lines_text: "join [10] (section_lines p) = 10 # snd p @ [10]"
  by (simp add: section_lines_def join_Cons join_snoc join_split_on)

lemma split_groups:
  assumes "list_all (\<lambda>p. 10 \<notin> set (fst (fst p))) ps"
  shows "split_on 10 (t @ concat (map (\<lambda>p. [10, 10] @ section_text p) ps) @ [10]) =
    split_on 10 t @ [] # concat (map (\<lambda>p. fst (fst p) # section_lines p) ps)"
  using assms
proof (induction ps arbitrary: t)
  case Nil
  then show ?case using split_on_append [of 10 t "[]"] by simp
next
  case (Cons p ps)
  let ?r = "concat (map (\<lambda>p. [10, 10] @ section_text p) ps) @ [10]"
  have h: "10 \<notin> set (fst (fst p))" using Cons.prems by simp
  have "split_on 10 (t @ 10 # 10 # fst (fst p) @ 10 # 10 # snd p @ ?r) =
      split_on 10 t @ [] # fst (fst p) # [] # split_on 10 (snd p @ ?r)"
    by (simp only: split_on_append) (simp add: split_on_word [OF h])
  with Cons show ?case by (simp add: section_text_def section_lines_def)
qed

lemma emitted_sections: "p \<in> set (emitted d) \<Longrightarrow> fst p \<in> set SECTIONS \<and> snd p \<in> set (section_contents d)"
  by (cases p) (auto simp: emitted_def dest: set_zip_leftD set_zip_rightD)

lemma heading_lines: "h \<in> set (map fst SECTIONS) \<Longrightarrow> 10 \<notin> set h"
  by (auto simp: SECTIONS_def heading_def codes_def)

lemma body_lines:
  assumes "10 \<notin> set (dc_title d)"
  shows "split_on 10 (10 # render_sections d @ [10]) =
    [] # (codes ''# '' @ dc_title d) # [] # concat (map (\<lambda>p. fst (fst p) # section_lines p) (emitted d))"
proof -
  have "list_all (\<lambda>p. 10 \<notin> set (fst (fst p))) (emitted d)"
    using emitted_sections [of _ d] heading_lines by (fastforce simp: list_all_iff)
  moreover have "10 \<notin> set (codes ''# '' @ dc_title d)" using assms by (simp add: codes_def)
  ultimately show ?thesis
    using split_groups [of "emitted d" "codes ''# '' @ dc_title d"]
    by (simp add: render_sections_def join_prefix split_on_last comp_def)
qed

lemma title_no_heading: "map_of SECTIONS (codes ''# '' @ t) = None"
  by (simp add: SECTIONS_def heading_def codes_def)

lemma map_of_filter_key:
  assumes "distinct (map k ps)" "p \<in> set ps"
  shows "map_of (map (\<lambda>p. (k p, g p)) (filter Q ps)) (k p) = (if Q p then Some (g p) else None)"
proof (cases "Q p")
  case True
  have "distinct (map fst (map (\<lambda>p. (k p, g p)) (filter Q ps)))"
    using assms(1) by (simp add: comp_def distinct_map_filterI)
  with True assms(2) show ?thesis by (intro map_of_is_SomeI [THEN trans]) auto
next
  case False
  have "q = p" if "q \<in> set ps" "k q = k p" for q
    using assms that by (auto intro: distinct_key_unique [where k = k])
  with False show ?thesis by (auto simp: map_of_eq_None_iff image_iff)
qed

text \<open>
  A document that can be printed faithfully: one title line, sections without blank ends and
  without a line that is one of the frozen headings, takeaways of one line each.
\<close>

definition printable :: "'dt report_doc \<Rightarrow> bool" where
  "printable d \<longleftrightarrow> 10 \<notin> set (dc_title d) \<and> list_all (\<lambda>t. trimmed t \<and> plain_lines t)
       [dc_core_summary d, dc_timeline_outline d, dc_content_analysis d, dc_comment_sentiment d,
        dc_video_information d, dc_source_url d, case dc_transcript d of None \<Rightarrow> [] | Some t \<Rightarrow> t] \<and>
     list_all (\<lambda>t. t \<noteq> [] \<and> trimmed t \<and> 10 \<notin> set t) (dc_key_takeaways d) \<and> dc_transcript d \<noteq> Some []"

definition bullets_ok :: "utext list \<Rightarrow> bool" where
  "bullets_ok ts \<longleftrightarrow> list_all (\<lambda>t. t \<noteq> [] \<and> trimmed t \<and> 10 \<notin> set t) ts"

lemma dash_no_break: "10 \<notin> set (codes ''- '')"
  by (simp add: codes_def)

lemma split_takeaways:
  "bullets_ok ts \<Longrightarrow> ts \<noteq> [] \<Longrightarrow> split_on 10 (takeaways_text ts) = map ((@) (codes ''- '')) ts"
  unfolding takeaways_text_def
proof (rule split_on_join)
  fix w assume "bullets_ok ts" "w \<in> set (map ((@) (codes ''- '')) ts)"
  then obtain t where "w = codes ''- '' @ t" "10 \<notin> set t" unfolding bullets_ok_def list_all_iff by auto
  then show "10 \<notin> set w" using dash_no_break by simp
qed simp

lemma takeaways_back:
  assumes "bullets_ok ts"
  shows "takeaway_lines (takeaways_text ts) = ts"
proof (cases "ts = []")
  case False
  have "map (\<lambda>l. strip (drop 2 l)) (filter (\<lambda>l. take 2 l = codes ''- '') (map ((@) (codes ''- '')) ts)) = ts"
    using assms by (induction ts) (simp_all add: bullets_ok_def codes_def strip_trimmed)
  with False show ?thesis by (simp add: takeaway_lines_def split_takeaways [OF assms])
qed (simp add: takeaway_lines_def takeaways_text_def codes_def)

lemma takeaways_trimmed: "bullets_ok ts \<Longrightarrow> trimmed (takeaways_text ts)"
proof (induction ts)
  case (Cons t ts)
  then have t: "t \<noteq> []" "\<not> is_space (last t)" by (simp_all add: bullets_ok_def trimmed_def)
  have ne: "takeaways_text ts \<noteq> []" if "ts \<noteq> []"
    using that by (cases ts) (simp_all add: takeaways_text_def join_Cons codes_def)
  show ?case
  proof (cases "ts = []")
    case True
    with t show ?thesis by (simp add: takeaways_text_def trimmed_def codes_def is_space_def)
  next
    case False
    with Cons ne have "\<not> is_space (last (takeaways_text ts))" by (simp add: bullets_ok_def trimmed_def)
    moreover have "takeaways_text (t # ts) = codes ''- '' @ t @ [10] @ takeaways_text ts"
      using False by (simp add: takeaways_text_def join_Cons)
    ultimately show ?thesis using ne [OF False] by (simp add: trimmed_def codes_def is_space_def)
  qed
qed (simp add: takeaways_text_def trimmed_def)

lemma takeaways_plain: "bullets_ok ts \<Longrightarrow> plain_lines (takeaways_text ts)"
proof (cases "ts = []")
  case False
  moreover have "map_of SECTIONS (codes ''- '' @ t) = None" for t
    by (simp add: SECTIONS_def heading_def codes_def)
  moreover assume "bullets_ok ts"
  ultimately show ?thesis by (simp add: plain_lines_def split_takeaways list_all_iff)
qed (simp add: plain_lines_def takeaways_text_def)

lemma contents_fine:
  assumes "printable d" "c \<in> set (section_contents d)"
  shows "trimmed c \<and> plain_lines c"
proof -
  have "bullets_ok (dc_key_takeaways d)" using assms(1) by (simp add: printable_def bullets_ok_def)
  then show ?thesis
    using assms takeaways_trimmed takeaways_plain by (auto simp: printable_def section_contents_def)
qed

lemma parse_rendered_sections:
  assumes "printable d"
  shows "parse_sections (10 # render_sections d @ [10]) =
    (\<lambda>a. case map_of (map (\<lambda>p. (snd (fst p), section_lines p)) (emitted d)) a of
            None \<Rightarrow> [] | Some ls \<Rightarrow> strip (join [10] ls),
     \<lambda>a. map_of (map (\<lambda>p. (snd (fst p), section_lines p)) (emitted d)) a \<noteq> None)"
proof -
  have "list_all (\<lambda>p. fst p \<in> set SECTIONS \<and> plain_lines (snd p)) (emitted d)"
    using emitted_sections contents_fine [OF assms] by (fastforce simp: list_all_iff)
  moreover have "distinct (map (snd \<circ> fst) (emitted d))"
    unfolding emitted_def
    by (rule distinct_map_filterI) (simp add: SECTIONS_def section_contents_def)
  ultimately have "scan_sections None Map.empty (concat (map (\<lambda>p. fst (fst p) # section_lines p) (emitted d))) =
      map_of (map (\<lambda>p. (snd (fst p), section_lines p)) (emitted d))"
    using scan_groups [of "emitted d" None Map.empty] by simp
  moreover have "10 \<notin> set (dc_title d)" using assms by (simp add: printable_def)
  ultimately have "scan_sections None Map.empty (split_on 10 (10 # render_sections d @ [10])) =
      map_of (map (\<lambda>p. (snd (fst p), section_lines p)) (emitted d))"
    unfolding body_lines [OF \<open>10 \<notin> set (dc_title d)\<close>] by (simp add: title_no_heading)
  then show ?thesis by (simp add: parse_sections_def Let_def)
qed

text \<open>Every section is read back as it was, the absent ones as empty.\<close>

lemma zip_sections:
  "zip SECTIONS (section_contents d) =
     [(SECTIONS ! 0, dc_core_summary d), (SECTIONS ! 1, takeaways_text (dc_key_takeaways d)),
      (SECTIONS ! 2, dc_timeline_outline d), (SECTIONS ! 3, dc_content_analysis d),
      (SECTIONS ! 4, dc_comment_sentiment d), (SECTIONS ! 5, dc_video_information d),
      (SECTIONS ! 6, dc_source_url d),
      (SECTIONS ! 7, case dc_transcript d of None \<Rightarrow> [] | Some t \<Rightarrow> t)]"
  by (simp add: section_contents_def SECTIONS_def)

lemma section_attrs:
  "map (\<lambda>i. snd (SECTIONS ! i)) [0, 1, 2, 3, 4, 5, 6, 7] =
     [''core_summary'', ''key_takeaways'', ''timeline_outline'', ''content_analysis'',
      ''comment_sentiment'', ''video_information'', ''_link'', ''transcript'']"
  by (simp add: SECTIONS_def)

lemma section_value:
  assumes "printable d" "p \<in> set (zip SECTIONS (section_contents d))"
  shows "fst (parse_sections (10 # render_sections d @ [10])) (snd (fst p)) = snd p"
    and "snd (fst p) = ''_link'' \<Longrightarrow> snd (parse_sections (10 # render_sections d @ [10])) ''_link''"
proof -
  let ?Q = "\<lambda>p :: (utext \<times> string) \<times> utext. snd (fst p) = ''_link'' \<or>
    (if snd (fst p) = ''key_takeaways'' then dc_key_takeaways d \<noteq> [] else snd p \<noteq> [])"
  have "distinct (map (snd \<circ> fst) (zip SECTIONS (section_contents d)))"
    by (simp add: SECTIONS_def section_contents_def)
  from map_of_filter_key [OF this assms(2), of section_lines ?Q]
  have m: "map_of (map (\<lambda>p. (snd (fst p), section_lines p)) (emitted d)) (snd (fst p)) =
      (if ?Q p then Some (section_lines p) else None)"
    by (simp add: emitted_def)
  have "snd p \<in> set (section_contents d)" using assms(2) set_zip_rightD [of "fst p" "snd p"] by simp
  then have "strip (snd p) = snd p" using contents_fine [OF assms(1)] strip_trimmed by blast
  moreover have "snd p = []" if "\<not> ?Q p"
    using that assms(2) section_attrs
    by (auto simp: zip_sections takeaways_text_def)
  ultimately show "fst (parse_sections (10 # render_sections d @ [10])) (snd (fst p)) = snd p"
    using m by (auto simp: parse_rendered_sections [OF assms(1)] section_lines_text strip_lines)
  show "snd (fst p) = ''_link'' \<Longrightarrow> snd (parse_sections (10 # render_sections d @ [10])) ''_link''"
    using m by (auto simp: parse_rendered_sections [OF assms(1)])
qed

lemma section_values:
  assumes "printable d" "parse_sections (10 # render_sections d @ [10]) = (sections, present)"
  shows "sections ''core_summary'' = dc_core_summary d"
    "sections ''key_takeaways'' = takeaways_text (dc_key_takeaways d)"
    "sections ''timeline_outline'' = dc_timeline_outline d"
    "sections ''content_analysis'' = dc_content_analysis d"
    "sections ''comment_sentiment'' = dc_comment_sentiment d"
    "sections ''video_information'' = dc_video_information d"
    "sections ''transcript'' = (case dc_transcript d of None \<Rightarrow> [] | Some t \<Rightarrow> t)"
    "present ''_link''"
proof -
  have v: "sections (snd h) = c" if "(h, c) \<in> set (zip SECTIONS (section_contents d))" for h c
    using section_value(1) [OF assms(1) that] assms(2) by simp
  have l: "present ''_link''"
    using section_value(2) [OF assms(1), of "(SECTIONS ! 6, dc_source_url d)"] assms(2) section_attrs
    by (simp add: zip_sections)
  show "sections ''core_summary'' = dc_core_summary d"
    "sections ''key_takeaways'' = takeaways_text (dc_key_takeaways d)"
    "sections ''timeline_outline'' = dc_timeline_outline d"
    "sections ''content_analysis'' = dc_content_analysis d"
    "sections ''comment_sentiment'' = dc_comment_sentiment d"
    "sections ''video_information'' = dc_video_information d"
    "sections ''transcript'' = (case dc_transcript d of None \<Rightarrow> [] | Some t \<Rightarrow> t)"
    using v [of "SECTIONS ! 0"] v [of "SECTIONS ! 1"] v [of "SECTIONS ! 2"] v [of "SECTIONS ! 3"]
      v [of "SECTIONS ! 4"] v [of "SECTIONS ! 5"] v [of "SECTIONS ! 7"] section_attrs
    by (simp_all add: zip_sections)
  show "present ''_link''" by (rule l)
qed

section \<open>The round trip\<close>

definition report_of :: "'dt report_doc \<Rightarrow> 'dt parsed_report" where
  "report_of d =
     \<lparr>pr_schema_version = 1, pr_analysis_id = dc_analysis_id d, pr_source_url = dc_source_url d,
      pr_platform = dc_platform d, pr_video_id = dc_video_id d, pr_title = dc_title d,
      pr_author = dc_author d, pr_published_at = dc_published_at d, pr_analyzed_at = dc_analyzed_at d,
      pr_summary_mode = dc_summary_mode d, pr_language = dc_language d,
      pr_asr_provider = dc_asr_provider d, pr_asr_model = dc_asr_model d,
      pr_asr_model_version = dc_asr_model_version d, pr_tags = dc_tags d,
      pr_core_summary = dc_core_summary d, pr_key_takeaways = dc_key_takeaways d,
      pr_timeline_outline = dc_timeline_outline d, pr_content_analysis = dc_content_analysis d,
      pr_comment_sentiment = dc_comment_sentiment d, pr_video_information = dc_video_information d,
      pr_transcript = dc_transcript d,
      pr_has_analysis_content = (list_ex (\<lambda>c. c \<noteq> []) (take 6 (section_contents d)))\<rparr>"

lemma crlf_to_lf_id: "13 \<notin> set t \<Longrightarrow> crlf_to_lf t = t"
  by (induction t rule: crlf_to_lf.induct) auto

lemma unix_newlines_id: "13 \<notin> set t \<Longrightarrow> unix_newlines t = t"
  by (simp add: unix_newlines_def crlf_to_lf_id) (auto intro: map_idI)

lemma no_url: "check_url L [] \<noteq> Inr ()"
  by (simp add: check_url_def require_def urlparse_def split_scheme_def before_char_def)

text \<open>Of a rendered document only the URL can fail.\<close>

lemma rendered_values_checked:
  assumes "valid_document L d" "dc_source_url d \<noteq> []"
    "lib_lower L (dc_platform d) = dc_platform d" "10 \<notin> set (dc_title d)" "present ''_link''"
  shows "check_values L (document_value d) (10 # render_sections d @ [10]) present = check_url L (dc_source_url d)"
proof -
  have "first_line (10 # render_sections d @ [10]) = codes ''# '' @ dc_title d"
  proof -
    have "strip (codes ''# '' @ dc_title d) \<noteq> []" "strip [] = []"
      by (simp_all add: strip_eq_Nil codes_def is_space_def)
    then show ?thesis unfolding first_line_def body_lines [OF assms(4)] by simp
  qed
  moreover have "[] \<notin> set PARSER_MODES" by (simp add: PARSER_MODES_def codes_def)
  then have "dc_summary_mode d \<noteq> []" using assms(1) by (auto simp: valid_document_def)
  ultimately show ?thesis
    using assms
    by (cases "check_url L (dc_source_url d)")
      (simp_all add: check_values_def REQUIRED_FIELDS_def document_values valid_document_def require_def)
qed

lemma parse_rendered:
  assumes "valid_document L d" "dates_ok L d" "printable d"
    "dc_source_url d \<noteq> []" "lib_lower L (dc_platform d) = dc_platform d"
  shows "parse_markdown_report L (render_markdown L d) =
    and_then (check_url L (dc_source_url d)) (\<lambda>_. Inr (report_of d))"
proof -
  let ?F = "join [10] (map field_line (frontmatter_fields L d))"
  let ?body = "10 # render_sections d @ [10]"
  have eq: "render_markdown L d = opener @ ?F @ closer @ ?body"
    by (simp add: render_markdown_def render_frontmatter_def opener_def closer_def)
  have four: "length opener = 4" "length closer = 5" by (simp_all add: opener_def closer_def codes_def)
  have find: "find_text closer (?F @ closer @ ?body) = Some (length ?F)"
    using frontmatter_no_break [OF assms(2)]
    by (intro find_closer) (simp add: frontmatter_fields_def, blast)
  have parts: "take 4 (render_markdown L d) = opener" "drop 4 (render_markdown L d) = ?F @ closer @ ?body"
    "drop (4 + length ?F + 5) (render_markdown L d) = ?body"
    unfolding eq using four by simp_all
  obtain sections present where ps: "parse_sections ?body = (sections, present)" by fastforce
  note sv = section_values [OF assms(3) ps]
  have title: "10 \<notin> set (dc_title d)" and bullets: "bullets_ok (dc_key_takeaways d)"
    and tr: "dc_transcript d \<noteq> Some []"
    using assms(3) by (simp_all add: printable_def bullets_ok_def)
  have "build_report (document_value d) sections (dc_tags d) (dc_published_at d) (dc_analyzed_at d) = report_of d"
    using sv tr takeaways_back [OF bullets]
    by (auto simp: build_report_def report_of_def document_value_def ANALYSIS_SECTIONS_def
        section_contents_def split: option.splits)
  moreover have "check_version L (rendered_fields L d) = Inr ()"
    using assms(1) by (intro rendered_version) (simp add: valid_document_def)
  ultimately show ?thesis
    unfolding parse_markdown_report_def parts find option.case
    using read_rendered_dates [OF assms(2,1)]
      rendered_values_checked [where present = present, OF assms(1,4,5) title sv(8)]
    by (simp add: ps parse_rendered_frontmatter [OF assms(2)] read_rendered_values read_rendered_tags
        require_def)
qed

text \<open>
  A character that a file keeps: not a carriage return, which the reader takes for a line
  break, and not a lone surrogate. Within JSON strings a carriage return is escaped.
\<close>

definition writable :: "nat \<Rightarrow> bool" where
  "writable c \<longleftrightarrow> scalar c \<and> c \<noteq> 13"

definition writable_doc :: "'dt report_doc \<Rightarrow> bool" where
  "writable_doc d \<longleftrightarrow>
     list_all (list_all scalar)
       ([dc_analysis_id d, dc_platform d, dc_video_id d, dc_author d, dc_summary_mode d, dc_language d,
         dc_asr_provider d, dc_asr_model d, dc_asr_model_version d] @ dc_tags d) \<and>
     list_all (list_all writable)
       ([dc_title d, dc_source_url d, dc_core_summary d, dc_timeline_outline d, dc_content_analysis d,
         dc_comment_sentiment d, dc_video_information d,
         case dc_transcript d of None \<Rightarrow> [] | Some t \<Rightarrow> t] @ dc_key_takeaways d)"

lemma writable_below: "c < 128 \<Longrightarrow> c \<noteq> 13 \<Longrightarrow> writable c"
  by (simp add: writable_def scalar_def)

lemma writable_scalar: "list_all writable t \<Longrightarrow> list_all scalar t"
  by (auto simp: list_all_iff writable_def)

lemma writable_codes: "list_all (\<lambda>c. of_char c < (128 :: nat) \<and> c \<noteq> CHR 0x0D) k \<Longrightarrow> list_all writable (codes k)"
proof -
  have "(of_char c :: nat) = 13 \<longleftrightarrow> c = CHR 0x0D" for c
    using of_char_eq_iff [of c "CHR 0x0D", where ?'a = nat] by simp
  then show "list_all (\<lambda>c. of_char c < (128 :: nat) \<and> c \<noteq> CHR 0x0D) k \<Longrightarrow> list_all writable (codes k)"
    by (auto simp: codes_def list_all_iff intro: writable_below)
qed

lemma writable_escape: "scalar c \<Longrightarrow> list_all writable (escape_char c)"
proof -
  have hex: "writable (hex_char n)" if "n < 16" for n
    using that by (intro writable_below) (simp_all add: hex_char_def)
  have "writable (hex_char (c div 16)) \<and> writable (hex_char (c mod 16))" if "c < 32"
    using that by (simp add: hex)
  then show "scalar c \<Longrightarrow> list_all writable (escape_char c)"
    by (simp add: escape_char_def writable_below) (simp add: writable_def)
qed

lemma writable_string: "list_all scalar s \<Longrightarrow> list_all writable (string_text s)"
  using writable_escape by (fastforce simp: string_text_def list_all_iff writable_def scalar_def)

lemma writable_yaml: "list_all scalar s \<Longrightarrow> list_all writable (yaml_text s)"
  using writable_string by (simp add: yaml_text_def dumps_text_def dumps_def)

lemma writable_join: "list_all writable sep \<Longrightarrow> list_all (list_all writable) ws \<Longrightarrow> list_all writable (join sep ws)"
  by (induction ws) (auto simp: join_Cons)

lemma writable_tags: "list_all (list_all scalar) ts \<Longrightarrow> list_all writable (dumps_text (JArr (map JStr ts)))"
proof -
  assume "list_all (list_all scalar) ts"
  then have "list_all (list_all writable) (map string_text ts)"
    using writable_string by (auto simp: list_all_iff)
  then have "list_all writable (join [44, 32] (map string_text ts))"
    by (intro writable_join) (simp_all add: writable_below)
  then show ?thesis by (simp add: dumps_text_def dumps_def line_break_def item_sep_def comp_def writable_below)
qed

lemma writable_iso: "list_all iso_char t \<Longrightarrow> list_all writable t"
  by (auto simp: list_all_iff iso_char_def is_digit_def intro!: writable_below)

lemma writable_int: "list_all writable (int_text i)"
proof -
  have "writable c" if "c \<in> set (nat_digits n)" for c n
    using nat_digits_digits [OF that] by (auto simp: is_digit_def intro!: writable_below)
  then have "list_all writable (nat_digits n)" for n by (simp add: list_all_iff)
  then show ?thesis by (simp add: int_text_def writable_below)
qed

lemma writable_heading: "h \<in> set (map fst SECTIONS) \<Longrightarrow> list_all writable h"
  by (auto simp: SECTIONS_def heading_def codes_def writable_def scalar_def)

lemma rendered_writable:
  assumes "writable_doc d" "dates_ok L d"
  shows "list_all writable (render_markdown L d)"
proof -
  have vals: "list_all writable v" if "(k, v) \<in> set (frontmatter_fields L d)" for k v
    using that assms
    by (auto simp: frontmatter_fields_def writable_doc_def dates_ok_def clock_ok_def published_text_def
        split: option.splits intro!: writable_int writable_yaml writable_tags writable_codes
        intro: writable_iso writable_scalar)
  have "list_all writable (field_line p)" if "p \<in> set (frontmatter_fields L d)" for p
  proof -
    have "plain_key (fst p)" using frontmatter_keys(1) [of L d] that by (simp add: list_all_iff)
    then have "list_all writable (codes (fst p))"
      by (auto simp: plain_key_def list_all_iff intro!: writable_below)
    with vals [of "fst p" "snd p"] that show ?thesis by (simp add: field_line_def writable_below)
  qed
  then have front: "list_all writable (render_frontmatter L d)"
    by (simp add: render_frontmatter_def writable_join writable_below list_all_iff [of "list_all writable"] codes_def)
  have "list_all writable (takeaways_text (dc_key_takeaways d))"
    using assms(1) unfolding takeaways_text_def
    by (intro writable_join) (auto simp: writable_doc_def list_all_iff codes_def writable_below)
  then have "list_all (list_all writable) (section_contents d)"
    using assms(1) by (simp add: writable_doc_def section_contents_def)
  then have "list_all writable (section_text p)" if "p \<in> set (emitted d)" for p
    using emitted_sections [OF that] writable_heading [of "fst (fst p)"]
    by (auto simp: section_text_def writable_below list_all_iff [of "list_all writable"])
  then have "list_all writable (render_sections d)"
    unfolding render_sections_def using assms(1)
    by (intro writable_join) (auto simp: writable_below writable_doc_def list_all_iff [of "list_all writable"] codes_def)
  with front show ?thesis by (simp add: render_markdown_def writable_below)
qed

lemma decode_rendered:
  assumes "valid_document L d" "dates_ok L d" "printable d" "writable_doc d"
    "dc_source_url d \<noteq> []" "lib_lower L (dc_platform d) = dc_platform d"
  shows "decode_report_bytes L (utf8_encode (render_markdown L d)) =
    and_then (check_url L (dc_source_url d)) (\<lambda>_. Inr (report_of d))"
proof -
  let ?t = "render_markdown L d"
  have t: "list_all scalar ?t" "13 \<notin> set ?t"
    using rendered_writable [OF assms(4,2)] by (auto simp: list_all_iff writable_def)
  have "take 3 (utf8_encode ?t) \<noteq> [0xEF, 0xBB, 0xBF]"
    by (simp add: render_markdown_def render_frontmatter_def utf8_encode_def utf8_bytes_def codes_def)
  then show ?thesis
    using utf8_roundtrip [OF t(1)] parse_rendered [OF assms(1-3,5,6)]
    by (simp add: decode_report_bytes_def unix_newlines_id [OF t(2)])
qed


definition sample_lib :: "unit pylib" where
  "sample_lib =
     \<lparr>isoformat = (\<lambda>_. codes ''2026-09-14T08:30:00+00:00''),
      fromisoformat = (\<lambda>t. if t = codes ''2026-09-14T08:30:00+00:00'' then Some () else None),
      has_offset = (\<lambda>_. True), lib_lower = sql_lower, lib_decimal = (\<lambda>_. None),
      lib_bad_bracket = (\<lambda>_. False), lib_bad_nfkc = (\<lambda>_. False)\<rparr>"

definition sample_doc :: "unit report_doc" where
  "sample_doc =
     \<lparr>dc_schema_version = 1, dc_analysis_id = codes ''j1'', dc_source_url = codes ''https://example.org/v'',
      dc_platform = codes ''bilibili'', dc_video_id = codes ''BV1'', dc_title = codes ''A \"talk\"'',
      dc_author = [0x4E2D], dc_published_at = None, dc_analyzed_at = (), dc_summary_mode = codes ''auto'',
      dc_language = codes ''zh'', dc_asr_provider = [], dc_asr_model = [], dc_asr_model_version = [],
      dc_tags = [codes ''a'', [0x6587]], dc_core_summary = codes ''In short'',
      dc_key_takeaways = [codes ''one'', codes ''two''], dc_timeline_outline = [],
      dc_content_analysis = codes ''First'' @ [10, 10] @ codes ''second'', dc_comment_sentiment = [],
      dc_video_information = [], dc_transcript = Some [0x5B57]\<rparr>"

lemma sample_facts:
  "valid_document sample_lib sample_doc" "dates_ok sample_lib sample_doc" "printable sample_doc"
  "writable_doc sample_doc" "check_url sample_lib (dc_source_url sample_doc) = Inr ()"
  "lib_lower sample_lib (dc_platform sample_doc) = dc_platform sample_doc"
proof -
  show "valid_document sample_lib sample_doc"
    by (simp add: valid_document_def sample_doc_def sample_lib_def PARSER_MODES_def codes_def)
  show "dates_ok sample_lib sample_doc"
    by (simp add: dates_ok_def clock_ok_def sample_doc_def sample_lib_def codes_def iso_char_def is_digit_def)
  show "printable sample_doc"
    by (simp add: printable_def trimmed_def is_space_def plain_lines_def SECTIONS_def heading_def
        sample_doc_def codes_def)
  show "check_url sample_lib (dc_source_url sample_doc) = Inr ()"
    by (simp add: check_url_def require_def urlparse_def split_scheme_def before_char_def
        after_char_def Let_def is_alpha_def
        sql_lower_def sql_lower_char_def sample_doc_def sample_lib_def codes_def)
  show "lib_lower sample_lib (dc_platform sample_doc) = dc_platform sample_doc"
    by (simp add: sample_doc_def sample_lib_def codes_def sql_lower_def sql_lower_char_def)
  show "writable_doc sample_doc"
    by (simp add: writable_doc_def writable_def scalar_def sample_doc_def codes_def)
qed


section \<open>What the reader accepts\<close>

definition report_wf :: "'dt pylib \<Rightarrow> 'dt parsed_report \<Rightarrow> bool" where
  "report_wf L p \<longleftrightarrow>
     pr_schema_version p = 1 \<and> pr_analysis_id p \<noteq> [] \<and> pr_platform p \<noteq> [] \<and> pr_video_id p \<noteq> [] \<and>
     pr_title p \<noteq> [] \<and> lib_lower L (pr_platform p) = pr_platform p \<and>
     pr_summary_mode p \<in> set PARSER_MODES \<and> check_url L (pr_source_url p) = Inr () \<and>
     has_offset L (pr_analyzed_at p) \<and>
     (case pr_published_at p of None \<Rightarrow> True | Some t \<Rightarrow> has_offset L t) \<and> pr_transcript p \<noteq> Some [] \<and>
     list_all trimmed ([pr_core_summary p, pr_timeline_outline p, pr_content_analysis p,
       pr_comment_sentiment p, pr_video_information p] @ pr_key_takeaways p)"

definition DIAGNOSES :: "exn list" where
  "DIAGNOSES = ValueError ''urlsplit'' #
     map MarkdownParseError [MD_FRONTMATTER_INVALID, MD_UNKNOWN_SCHEMA_VERSION, MD_MISSING_FIELD,
       MD_BODY_STRUCTURE_INVALID, MD_ENCODING_ERROR]"

definition diagnosed :: "'a outcome \<Rightarrow> bool" where
  "diagnosed m \<longleftrightarrow> (case m of Inl e \<Rightarrow> e \<in> set DIAGNOSES | Inr _ \<Rightarrow> True)"

lemma diagnosed_simps [simp]: "diagnosed (Inr x)" "diagnosed (Inl e) \<longleftrightarrow> e \<in> set DIAGNOSES"
  by (simp_all add: diagnosed_def)

lemma diagnosed_and_then: "diagnosed m \<Longrightarrow> (\<And>x. diagnosed (f x)) \<Longrightarrow> diagnosed (and_then m f)"
  by (cases m) simp_all

lemma diagnoses_codes [simp]:
  "MarkdownParseError MD_FRONTMATTER_INVALID \<in> set DIAGNOSES"
  "MarkdownParseError MD_UNKNOWN_SCHEMA_VERSION \<in> set DIAGNOSES"
  "MarkdownParseError MD_MISSING_FIELD \<in> set DIAGNOSES"
  "MarkdownParseError MD_BODY_STRUCTURE_INVALID \<in> set DIAGNOSES"
  "MarkdownParseError MD_ENCODING_ERROR \<in> set DIAGNOSES" "ValueError ''urlsplit'' \<in> set DIAGNOSES"
  by (simp_all add: DIAGNOSES_def)

lemma diagnosed_require [simp]: "diagnosed (require ok c) \<longleftrightarrow> ok \<or> MarkdownParseError c \<in> set DIAGNOSES"
  by (simp add: require_def)

lemma diagnosed_frontmatter: "diagnosed (parse_frontmatter t)"
proof -
  have "diagnosed (parse_lines ls fm)" for ls fm
    by (induction ls arbitrary: fm)
      (auto intro!: diagnosed_and_then simp: frontmatter_line_def split: option.split)
  then show ?thesis by (simp add: parse_frontmatter_def)
qed

lemma diagnosed_values: "diagnosed (read_values fm keys)"
  by (induction keys)
    (auto intro!: diagnosed_and_then simp: json_str_def split: option.split jtree.split)

lemma diagnosed_scalars: "diagnosed (json_tags fm)" "diagnosed (json_datetime L fm key required)"
  by (auto simp: json_tags_def json_datetime_def Let_def split: option.split jtree.split)

lemma diagnosed_checks: "diagnosed (check_version L fm)" "diagnosed (check_values L v body present)"
  by (auto simp: check_version_def check_values_def check_url_def intro!: diagnosed_and_then split: option.split)

lemma diagnosed_parse: "diagnosed (parse_markdown_report L t)"
  unfolding parse_markdown_report_def Let_def
  by (auto intro!: diagnosed_and_then diagnosed_frontmatter diagnosed_values diagnosed_scalars
      diagnosed_checks split: option.split prod.split)

lemma json_datetime_offset:
  "json_datetime L fm key required = Inr (Some t) \<Longrightarrow> has_offset L t"
  "json_datetime L fm key True \<noteq> Inr None"
  by (auto simp: json_datetime_def Let_def split: option.splits if_splits)

lemma trimmed_sections: "trimmed (fst (parse_sections body) a)"
  by (auto simp: parse_sections_def Let_def trimmed_strip split: option.split) (simp add: trimmed_def)

lemma build_report_wf:
  assumes "check_values L v body present = Inr ()" "sections = fst (parse_sections b)"
    "has_offset L t" "case published of None \<Rightarrow> True | Some p \<Rightarrow> has_offset L p"
  shows "report_wf L (build_report v sections tags published t)"
  using assms trimmed_sections [of b]
  by (auto simp: report_wf_def build_report_def check_values_def and_then_Inr REQUIRED_FIELDS_def
      takeaway_lines_def list_all_iff trimmed_strip)

lemma parse_steps:
  assumes "parse_markdown_report L t = Inr p"
  obtains fm v body sections present tags published analyzed
  where "parse_sections body = (sections, present)" "check_values L v body present = Inr ()"
    "json_datetime L fm ''published_at'' False = Inr published"
    "json_datetime L fm ''analyzed_at'' True = Inr analyzed"
    "p = build_report v sections tags published (the analyzed)"
proof (cases "find_text closer (drop 4 t)")
  case None
  with assms show ?thesis by (simp add: parse_markdown_report_def and_then_Inr)
next
  case (Some i)
  obtain sections present where ps: "parse_sections (drop (4 + i + 5) t) = (sections, present)" by fastforce
  from assms show ?thesis
    unfolding parse_markdown_report_def Some option.case ps Let_def prod.case and_then_Inr
    by (auto intro: that [OF ps])
qed

lemma parse_wf:
  assumes "parse_markdown_report L t = Inr p"
  shows "report_wf L p"
  using assms
proof (rule parse_steps)
  fix fm v body sections present tags published analyzed
  assume ps: "parse_sections body = (sections, present)" and v: "check_values L v body present = Inr ()"
    and d: "json_datetime L fm ''published_at'' False = Inr published"
      "json_datetime L fm ''analyzed_at'' True = Inr analyzed"
    and p: "p = build_report v sections tags published (the analyzed)"
  obtain x where x: "analyzed = Some x" using d(2) json_datetime_offset(2) by (cases analyzed) auto
  have "has_offset L x" using d(2) x by (auto intro: json_datetime_offset(1))
  moreover have "case published of None \<Rightarrow> True | Some y \<Rightarrow> has_offset L y"
    using d(1) by (auto intro: json_datetime_offset(1) split: option.split)
  moreover have "sections = fst (parse_sections body)" using ps by simp
  ultimately show "report_wf L p" using v unfolding p x option.sel by (intro build_report_wf)
qed

lemma decode_report_wf: "decode_report_bytes L data = Inr p \<Longrightarrow> report_wf L p"
  using parse_wf by (auto simp: decode_report_bytes_def split: if_splits option.splits)


end
