(* ===== verification/RebuildTheorems.thy ===== *)
theory RebuildTheorems
  imports Rebuild ReportFileTheorems
begin

text \<open>
  What a rescan leaves behind: the index holds exactly the first file of every analysis id,
  whatever it held before; a directory that cannot be read never costs a document.
\<close>

section \<open>The entry of a parsed file\<close>

lemma split_scheme_agrees:
  "split_scheme (filter (\<lambda>c. c \<notin> {9, 10, 13}) (dropWhile (\<lambda>c. c \<le> 32) url)) = url_scheme_rest url"
proof -
  define u where "u = filter (\<lambda>c. c \<notin> {9, 10, 13}) (dropWhile (\<lambda>c. c \<le> 32) url)"
  have rest: "dropWhile (\<lambda>c. c \<noteq> 58) u \<noteq> [] \<longleftrightarrow> 58 \<in> set u"
    by (simp only: dropWhile_eq_Nil_conv) blast
  have char: "scheme_char = (\<lambda>c. is_alpha c \<or> is_digit c \<or> c = 43 \<or> c = 45 \<or> c = 46)"
    by (auto simp: scheme_char_def is_alpha_def is_digit_def fun_eq_iff)
  have alpha: "97 \<le> c \<and> c \<le> 122 \<or> 65 \<le> c \<and> c \<le> 90 \<longleftrightarrow> is_alpha c" for c
    by (auto simp: is_alpha_def)
  show ?thesis
    unfolding url_scheme_rest_def split_scheme_def Let_def u_def [symmetric] rest char alpha
      before_char_def after_char_def
    by (auto simp: drop_Suc)
qed

definition netloc_of :: "utext \<Rightarrow> utext" where
  "netloc_of rest = (if take 2 rest = [47, 47] then takeWhile (\<lambda>c. c \<notin> {47, 63, 35}) (drop 2 rest) else [])"

lemma urlparse_parts:
  assumes "urlparse bb bn url = Some u" "url_scheme_rest url = (s, r)"
  shows "pu_scheme u = s \<and> pu_netloc u = netloc_of r \<and> (91 \<in> set (netloc_of r) \<longleftrightarrow> 93 \<in> set (netloc_of r))"
  using assms(1)
  unfolding urlparse_def Let_def split_scheme_agrees assms(2) prod.case netloc_of_def [symmetric]
  by (auto split: if_splits)

lemma check_url_absolute: "check_url L url = Inr () \<Longrightarrow> absolute_http url"
proof -
  assume a: "check_url L url = Inr ()"
  obtain s r where sr: "url_scheme_rest url = (s, r)" by fastforce
  from a obtain u where "urlparse (lib_bad_bracket L) (lib_bad_nfkc L) url = Some u"
    "pu_scheme u \<in> {codes ''http'', codes ''https''}" "pu_netloc u \<noteq> []"
    by (auto simp: check_url_def split: option.splits)
  with urlparse_parts [OF this(1) sr] show ?thesis
    unfolding absolute_http_def sr Let_def prod.case netloc_of_def [symmetric] by auto
qed

definition dated :: "('dt, 'z) rescan_lib_scheme \<Rightarrow> 'dt parsed_report \<Rightarrow> bool" where
  "dated lib p \<longleftrightarrow> 0 < rl_timestamp lib (pr_analyzed_at p) \<and>
     positive (map_option (rl_timestamp lib) (pr_published_at p))"

lemma entry_accepted:
  assumes "report_wf (rl_py lib) p" "rel \<noteq> []" "hex_digest (rl_sha256 lib raw)"
  shows "check_entry (lib_lower (rl_py lib)) (index_entry lib rel raw p) =
    (if dated lib p then Inr () else Inl (ValueError ''timestamps must be finite positive epoch seconds''))"
proof -
  have "ident (pr_summary_mode p) \<in> set SUMMARY_MODES"
    using assms(1) by (auto simp: report_wf_def PARSER_MODES_def SUMMARY_MODES_def ident_ascii)
  moreover have "absolute_http (pr_source_url p)"
    using assms(1) check_url_absolute by (auto simp: report_wf_def)
  moreover have "pr_source_url p \<noteq> []" using assms(1) no_url [of "rl_py lib"] by (auto simp: report_wf_def)
  moreover have "\<not> list_ex (\<lambda>c. c \<notin> set ''0123456789abcdef'') (rl_sha256 lib raw)" "length (rl_sha256 lib raw) = 64"
    using assms(3) by (auto simp: hex_digest_def list_all_iff list_ex_iff)
  moreover have "''rebuild'' \<in> set DOC_SOURCES" by (simp add: DOC_SOURCES_def)
  ultimately show ?thesis
    using assms(1,2)
    by (simp add: check_entry_def index_entry_def report_wf_def dated_def del: set_simps)
qed

section \<open>Documents under the operations of the rescan\<close>

text \<open>Recording and resolving issues leaves the documents alone.\<close>

lemma record_issue_same: "same_documents d (record_issue c p t now d)"
  by (simp add: record_issue_def record_index_issue_def same_documents_def Let_def split: option.split)

lemma same_documents_trans: "same_documents d d' \<Longrightarrow> same_documents d' d'' \<Longrightarrow> same_documents d d''"
  by (simp add: same_documents_def)

lemma resolve_codes_same: "same_documents d (resolve_codes cs p now d)"
proof (induction cs arbitrary: d)
  case (Cons c cs)
  have "same_documents d (snd (resolve_index_issue c p now d))"
    by (simp add: resolve_index_issue_def same_documents_def Let_def)
  from same_documents_trans [OF this Cons] show ?case by (simp add: resolve_codes_def)
qed (simp add: resolve_codes_def same_documents_def)

lemma same_after_resolve: "same_documents d d' \<Longrightarrow> same_documents d (resolve_codes cs p now d')"
  using same_documents_trans resolve_codes_same by blast

lemma settle_issues_same: "same_documents d (settle_issues rel p now d)"
  unfolding settle_issues_def Let_def
  by (intro same_after_resolve) (simp add: resolve_codes_same record_issue_same)

lemma same_documents_find: "same_documents d d' \<Longrightarrow> find_document k d' = find_document k d"
  by (simp add: same_documents_def find_document_def)

text \<open>A rewrite of the document with one job id, and its removal.\<close>

lemma find_document_update:
  assumes "documents_wf d" "find_document k d = Some r" "\<And>x. rd_job_id (g x) = rd_job_id x"
  shows "find_document k' (d\<lparr>documents := update_where (\<lambda>x. rd_id x = rd_id r) g (documents d)\<rparr>) =
    (if k' = k then Some (g r) else find_document k' d)"
proof -
  have r: "r \<in> set (documents d)" "rd_job_id r = k" using find_document_in [OF assms(2)] by auto
  have "rd_id x = rd_id r \<longleftrightarrow> x = r" if "x \<in> set (documents d)" for x
    using documents_wf_id [OF assms(1) that r(1)] by blast
  then have "update_where (\<lambda>x. rd_id x = rd_id r) g (documents d) = update_where (\<lambda>x. x = r) g (documents d)"
    by (intro update_where_cong) auto
  then show ?thesis
    using assms(2) select_first_update_where [of rd_job_id g k' "\<lambda>x. x = r" "documents d"] assms(3) r(2)
    by (auto simp: find_document_def map_option_case dest: select_first_SomeD split: option.split)
qed

lemma find_document_delete:
  assumes "documents_wf d" "find_document k d = Some r"
  shows "find_document k' (d\<lparr>documents := delete_where (\<lambda>x. rd_id x = rd_id r) (documents d)\<rparr>) =
    (if k' = k then None else find_document k' d)"
proof -
  have r: "r \<in> set (documents d)" "rd_job_id r = k" using find_document_in [OF assms(2)] by auto
  have id: "rd_id x = rd_id r \<longleftrightarrow> rd_job_id x = k" if "x \<in> set (documents d)" for x
  proof -
    have "x = r" if "rd_job_id x = k"
      using distinct_key_unique [of rd_job_id "documents d" x r] assms(1) that \<open>x \<in> set (documents d)\<close> r
      by (simp add: documents_wf_def)
    then show ?thesis using documents_wf_id [OF assms(1) that r(1)] r(2) by auto
  qed
  have docs: "delete_where (\<lambda>x. rd_id x = rd_id r) (documents d) = filter (\<lambda>x. rd_job_id x \<noteq> k) (documents d)"
    unfolding delete_where_def by (rule filter_cong) (simp_all add: id)
  have "select_first (\<lambda>x. rd_job_id x = k') (filter (\<lambda>x. rd_job_id x \<noteq> k) t) =
      (if k' = k then None else select_first (\<lambda>x. rd_job_id x = k') t)" for t
    by (induction t) auto
  from this [of "documents d"] show ?thesis unfolding find_document_def docs by simp
qed

lemma find_document_fts [simp]: "find_document k (fts_update f d) = find_document k d"
  by (simp add: find_document_def)

lemma find_put_fts [simp]: "find_document k (put_fts row d) = find_document k d"
  by (simp add: find_document_def)

definition lose_document :: "time \<Rightarrow> report_document \<Rightarrow> report_document" where
  "lose_document now r =
     (if rd_doc_status r = ''missing'' then r
      else r\<lparr>rd_doc_status := ''missing'', rd_updated_at := now\<rparr>)"

lemma find_after_missing:
  assumes "documents_wf d"
  shows "find_document k' (snd (mark_report_missing k now d)) =
    (if k' = k then map_option (lose_document now) (find_document k d) else find_document k' d)"
proof (cases "find_document k d")
  case (Some r)
  let ?g = "\<lambda>x. x\<lparr>rd_doc_status := ''missing'', rd_updated_at := now\<rparr>"
  have "find_document k' (d\<lparr>documents := update_where (\<lambda>x. rd_id x = rd_id r) ?g (documents d)\<rparr>) =
      (if k' = k then Some (?g r) else find_document k' d)"
    by (rule find_document_update [OF assms Some]) simp
  with Some show ?thesis
    by (auto simp: mark_report_missing_def lose_document_def)
qed (simp add: mark_report_missing_def)

lemma find_after_purge:
  assumes "documents_wf d"
  shows "find_document k' (snd (purge_report_document k d)) =
    (if k' = k then None else find_document k' d)"
proof (cases "find_document k d")
  case (Some r)
  then have "snd (purge_report_document k d) =
      d\<lparr>documents := delete_where (\<lambda>x. rd_id x = rd_id r) (documents d),
        fts := delete_where (\<lambda>f. f_rowid f = rd_id r) (fts d)\<rparr>"
    by (simp add: purge_report_document_def)
  with find_document_delete [OF assms Some, of k'] show ?thesis by simp
qed (simp add: purge_report_document_def)

lemma find_after_upsert:
  assumes "documents_wf d" "upsert_report_document lower e b now d = (Inr i, d')"
  shows "find_document k d' =
    (if k = re_job_id e
     then Some (case find_document k d of None \<Rightarrow> new_document i e now | Some r \<Rightarrow> refresh_document e now r)
     else find_document k d)"
proof (cases "find_document (re_job_id e) d")
  case None
  then have "list_ex (\<lambda>r. rd_analysis_id r = re_analysis_id e) (documents d) = False"
    "d' = put_fts (fts_row_values lower i e b)
      (d\<lparr>documents := documents d @ [new_document i e now], document_seq := i\<rparr>)"
    using assms(2) by (auto simp: upsert_report_document_def Let_def split: if_splits)
  then show ?thesis
    using None by (auto simp: find_document_def select_first_append split: option.split)
next
  case (Some r)
  then have d': "d' = put_fts (fts_row_values lower (rd_id r) e b)
      (d\<lparr>documents := update_where (\<lambda>x. rd_id x = rd_id r) (refresh_document e now) (documents d)\<rparr>)"
    using assms(2) by (auto simp: upsert_report_document_def Let_def)
  show ?thesis
    unfolding d' find_put_fts
    using find_document_update [OF assms(1) Some, of "refresh_document e now" k] Some by simp
qed

section \<open>The absence pass\<close>

definition after_absence ::
  "(string \<rightharpoonup> claim) \<Rightarrow> string list \<Rightarrow> bool \<Rightarrow> time \<Rightarrow> report_document \<Rightarrow> report_document option" where
  "after_absence claims scanned purge now r =
     (if claimed claims (rd_job_id r, rd_relative_path r) then Some r
      else if purge \<and> rd_relative_path r \<notin> set scanned then None
      else Some (lose_document now r))"

lemma absent_fold:
  assumes "index_wf lower d" "distinct (map fst rows)"
    and "\<And>k p. (k, p) \<in> set rows \<Longrightarrow> \<exists>r. find_document k d = Some r \<and> rd_relative_path r = p"
  shows "case fold (absent_row claims scanned purge now) rows (a, b, d) of (_, _, d') \<Rightarrow>
    index_wf lower d' \<and>
    (\<forall>k. find_document k d' =
       (if k \<in> fst ` set rows then Option.bind (find_document k d) (after_absence claims scanned purge now)
        else find_document k d))"
  using assms
proof (induction rows arbitrary: a b d)
  case (Cons row rows)
  obtain k p where row: "row = (k, p)" by (cases row)
  with Cons.prems(3) obtain r where r: "find_document k d = Some r" "rd_relative_path r = p" by auto
  have wf: "documents_wf d" using Cons.prems(1) by (simp add: index_wf_def)
  have job: "rd_job_id r = k" using find_document_in [OF r(1)] by simp
  obtain a' b' d1 where step: "absent_row claims scanned purge now row (a, b, d) = (a', b', d1)"
    by (metis prod_cases3)
  have eff: "index_wf lower d1 \<and>
      (\<forall>j. find_document j d1 = (if j = k then after_absence claims scanned purge now r else find_document j d))"
  proof (cases "claimed claims row")
    case True
    with step row r job Cons.prems(1) show ?thesis by (auto simp: absent_row_def after_absence_def)
  next
    case False
    show ?thesis
    proof (cases "purge \<and> p \<notin> set scanned")
      case True
      with False step row have "d1 = snd (purge_report_document k d)"
        by (auto simp: absent_row_def split: prod.splits)
      with True False row r job find_after_purge [OF wf] purge_wf [OF Cons.prems(1)] show ?thesis
        by (simp add: after_absence_def)
    next
      case keep: False
      with False step row have "d1 = snd (mark_report_missing k now d)"
        by (auto simp: absent_row_def)
      with keep False row r job find_after_missing [OF wf] missing_wf [OF Cons.prems(1)] show ?thesis
        by (simp add: after_absence_def)
    qed
  qed
  have k: "k \<notin> fst ` set rows" using Cons.prems(2) row by simp
  have "case fold (absent_row claims scanned purge now) rows (a', b', d1) of (_, _, d') \<Rightarrow>
      index_wf lower d' \<and>
      (\<forall>k. find_document k d' =
         (if k \<in> fst ` set rows then Option.bind (find_document k d1) (after_absence claims scanned purge now)
          else find_document k d1))"
  proof (rule Cons.IH)
    show "index_wf lower d1" using eff by simp
    show "distinct (map fst rows)" using Cons.prems(2) by simp
    show "\<exists>r. find_document j d1 = Some r \<and> rd_relative_path r = q" if "(j, q) \<in> set rows" for j q
    proof -
      have "j \<noteq> k" using that k by force
      with eff Cons.prems(3) [of j q] that show ?thesis by simp
    qed
  qed
  moreover have "fold (absent_row claims scanned purge now) (row # rows) (a, b, d) =
      fold (absent_row claims scanned purge now) rows (a', b', d1)"
    by (simp add: step)
  moreover have "fst ` set (row # rows) = insert k (fst ` set rows)" using row by simp
  ultimately show ?case
    using eff k r(1) by (simp only: split: prod.splits) auto
qed simp

lemma list_document_paths_rows:
  assumes "documents_wf d"
  shows "distinct (map fst (list_document_paths d))"
    and "(k, p) \<in> set (list_document_paths d) \<longleftrightarrow> (\<exists>r. find_document k d = Some r \<and> rd_relative_path r = p)"
proof -
  have dist: "distinct (map rd_job_id (documents d))" using assms by (simp add: documents_wf_def)
  then have "distinct (map rd_job_id (sort_key f (documents d)))" for f :: "_ \<Rightarrow> nat list"
    by (simp add: distinct_map)
  then show "distinct (map fst (list_document_paths d))"
    by (simp add: list_document_paths_def comp_def)
  have "find_document k d = Some r \<longleftrightarrow> r \<in> set (documents d) \<and> rd_job_id r = k" for r
    using distinct_key_select_first [OF dist, of r] find_document_in [of k d r]
    by (auto simp: find_document_def)
  then show "(k, p) \<in> set (list_document_paths d) \<longleftrightarrow> (\<exists>r. find_document k d = Some r \<and> rd_relative_path r = p)"
    by (auto simp: list_document_paths_def)
qed

lemma resolve_absent_same: "same_documents d (snd (resolve_issues_for_absent_paths ps now d))"
  by (simp add: same_documents_def resolve_issues_for_absent_paths_def Let_def)

lemma mark_absent_effect:
  assumes "index_wf lower d" "mark_absent claims scanned purge now d = (a, b, d')"
  shows "index_wf lower d'"
    and "find_document k d' = Option.bind (find_document k d) (after_absence claims scanned purge now)"
proof -
  have wf: "documents_wf d" using assms(1) by (simp add: index_wf_def)
  obtain x y d1 where f: "fold (absent_row claims scanned purge now) (list_document_paths d) (0, 0, d) = (x, y, d1)"
    by (metis prod_cases3)
  with absent_fold [OF assms(1) list_document_paths_rows(1) [OF wf], of claims scanned purge now 0 0]
  have d1: "index_wf lower d1"
    "find_document k d1 = (if k \<in> fst ` set (list_document_paths d)
       then Option.bind (find_document k d) (after_absence claims scanned purge now) else find_document k d)" for k
    using list_document_paths_rows(2) [OF wf] by auto
  have d': "d' = snd (resolve_issues_for_absent_paths scanned now d1)"
    using assms(2) f by (simp add: mark_absent_def)
  show "index_wf lower d'"
    unfolding d' using same_documents_wf [OF resolve_absent_same d1(1)] .
  have "find_document k d = None" if "k \<notin> fst ` set (list_document_paths d)"
  proof (cases "find_document k d")
    case (Some r)
    with that list_document_paths_rows(2) [OF wf, of k "rd_relative_path r"] show ?thesis by force
  qed simp
  then show "find_document k d' = Option.bind (find_document k d) (after_absence claims scanned purge now)"
    unfolding d' same_documents_find [OF resolve_absent_same] d1(2) by auto
qed

section \<open>The owner of an analysis id\<close>

definition report_at ::
  "'dt rescan_lib \<Rightarrow> disk \<Rightarrow> string \<Rightarrow> string \<Rightarrow> (nat list \<times> 'dt parsed_report) option" where
  "report_at lib dk dir rel =
     (case dk_read dk dir rel of
        Inl _ \<Rightarrow> None
      | Inr raw \<Rightarrow>
         (case decode_report_bytes (rl_py lib) raw of Inl _ \<Rightarrow> None | Inr p \<Rightarrow> Some (raw, p)))"

definition carries :: "'dt rescan_lib \<Rightarrow> disk \<Rightarrow> string \<Rightarrow> string \<Rightarrow> string \<Rightarrow> bool" where
  "carries lib dk dir i rel =
     (case report_at lib dk dir rel of None \<Rightarrow> False | Some (_, p) \<Rightarrow> ident (pr_analysis_id p) = i)"

text \<open>The first file, in the order of the paths, that carries the id.\<close>

definition first_owner :: "'dt rescan_lib \<Rightarrow> disk \<Rightarrow> string \<Rightarrow> string list \<Rightarrow> string \<Rightarrow> string option" where
  "first_owner lib dk dir rels i = List.find (carries lib dk dir i) rels"

definition winner :: "'dt rescan_lib \<Rightarrow> disk \<Rightarrow> string \<Rightarrow> string list \<Rightarrow> string \<Rightarrow> claim option" where
  "winner lib dk dir rels i =
     Option.bind (first_owner lib dk dir rels i)
       (\<lambda>rel. map_option (\<lambda>(raw, p). claim_of lib rel raw p) (report_at lib dk dir rel))"

lemma find_append: "List.find P (xs @ ys) = (case List.find P xs of None \<Rightarrow> List.find P ys | Some x \<Rightarrow> Some x)"
  by (induction xs) auto

lemma winner_snoc:
  "winner lib dk dir (rels @ [rel]) i =
     (case winner lib dk dir rels i of
        Some c \<Rightarrow> Some c
      | None \<Rightarrow> (if carries lib dk dir i rel
                 then map_option (\<lambda>(raw, p). claim_of lib rel raw p) (report_at lib dk dir rel) else None))"
proof (cases "first_owner lib dk dir rels i")
  case None
  then show ?thesis by (simp add: winner_def first_owner_def find_append)
next
  case (Some x)
  then have "carries lib dk dir i x" by (auto simp: first_owner_def find_Some_iff)
  with Some show ?thesis
    by (auto simp: winner_def first_owner_def find_append carries_def split: option.splits)
qed

lemma winner_id: "winner lib dk dir rels i = Some c \<Longrightarrow> cl_analysis_id c = i"
  by (auto simp: winner_def first_owner_def claim_of_def carries_def find_Some_iff
      split: Option.bind_splits option.splits)

section \<open>What the batches keep\<close>

definition ids_agree :: "database \<Rightarrow> bool" where
  "ids_agree d \<longleftrightarrow> list_all (\<lambda>r. rd_analysis_id r = rd_job_id r) (documents d)"

definition scan_inv ::
  "'dt rescan_lib \<Rightarrow> disk \<Rightarrow> string \<Rightarrow> string list \<Rightarrow> rescan_state \<Rightarrow> database \<Rightarrow> bool" where
  "scan_inv lib dk dir rels st d \<longleftrightarrow>
     index_wf (lib_lower (rl_py lib)) d \<and> ids_agree d \<and> rs_scanned st = rels \<and>
     rs_claims st = winner lib dk dir rels \<and>
     (\<forall>i c. rs_claims st i = Some c \<longrightarrow> is_unchanged c (find_document i d))"

lemma same_documents_agree: "same_documents d d' \<Longrightarrow> ids_agree d \<Longrightarrow> ids_agree d'"
  by (simp add: same_documents_def ids_agree_def)

lemma agree_upsert:
  assumes "ids_agree d" "re_analysis_id e = re_job_id e" "upsert_report_document lower e b now d = (x, d')"
  shows "ids_agree d'"
  using assms unfolding ids_agree_def upsert_report_document_def Let_def
  by (auto simp: list_all_iff set_update_where split: option.splits if_splits)

lemma upsert_succeeds:
  assumes "ids_agree d" "re_analysis_id e = re_job_id e"
  shows "\<exists>i d'. upsert_report_document lower e b now d = (Inr i, d')"
proof (cases "find_document (re_job_id e) d")
  case None
  then have "re_job_id e \<notin> rd_job_id ` set (documents d)" by (simp add: find_document_None)
  with assms have "\<not> list_ex (\<lambda>r. rd_analysis_id r = re_analysis_id e) (documents d)"
    by (force simp: ids_agree_def list_all_iff list_ex_iff)
  with None show ?thesis by (simp add: upsert_report_document_def Let_def)
next
  case (Some r)
  then show ?thesis by (simp add: upsert_report_document_def Let_def)
qed

lemma scan_file_cases:
  assumes "scan_file lib dk dir rel = Inr fo"
  obtains (unreadable) ty where "report_at lib dk dir rel = None" "fo_rel_path fo = rel"
      "fo_read_error_type fo = Some ty"
    | (malformed) code msg where "report_at lib dk dir rel = None" "fo_rel_path fo = rel"
      "fo_read_error_type fo = None" "fo_parse_error fo = Some (code, msg)"
    | (parsed) raw p where "report_at lib dk dir rel = Some (raw, p)" "fo_rel_path fo = rel"
      "fo_read_error_type fo = None" "fo_parse_error fo = None" "fo_parsed fo = Some p" "fo_raw fo = Some raw"
      "report_wf (rl_py lib) p"
proof (cases "dk_read dk dir rel")
  case (Inl ty)
  with assms that(1) show ?thesis by (auto simp: scan_file_def report_at_def split: if_splits)
next
  case (Inr raw)
  show ?thesis
  proof (cases "decode_report_bytes (rl_py lib) raw")
    case (Inl e)
    with Inr assms that(2) show ?thesis by (auto simp: scan_file_def report_at_def split: exn.splits)
  next
    case (Inr p)
    have "report_wf (rl_py lib) p"
      using decode_report_wf [OF Inr] .
    with Inr \<open>dk_read dk dir rel = Inr raw\<close> assms that(3) show ?thesis
      by (auto simp: scan_file_def report_at_def)
  qed
qed

text \<open>A file that changes no document keeps the invariant when the winners stay the same.\<close>

lemma scan_inv_same:
  assumes "scan_inv lib dk dir rels st d" "same_documents d d'"
    and "rs_scanned st' = rels'" "rs_claims st' = rs_claims st"
    and "winner lib dk dir rels' = winner lib dk dir rels"
  shows "scan_inv lib dk dir rels' st' d'"
  using assms same_documents_wf same_documents_agree
  by (auto simp: scan_inv_def same_documents_find)

lemma winner_snoc_none: "report_at lib dk dir rel = None \<Longrightarrow> winner lib dk dir (rels @ [rel]) = winner lib dk dir rels"
  by (auto simp: fun_eq_iff winner_snoc carries_def split: option.split)

lemma winner_snoc_report:
  "report_at lib dk dir rel = Some (raw, p) \<Longrightarrow>
   winner lib dk dir (rels @ [rel]) =
     (case winner lib dk dir rels (ident (pr_analysis_id p)) of
        Some _ \<Rightarrow> winner lib dk dir rels
      | None \<Rightarrow> (winner lib dk dir rels)(ident (pr_analysis_id p) \<mapsto> claim_of lib rel raw p))"
  by (auto simp: fun_eq_iff winner_snoc carries_def split: option.split)

lemma claim_file_inv:
  assumes inv: "scan_inv lib dk dir rels st d" and at: "report_at lib dk dir rel = Some (raw, p)"
    and run: "claim_file lib now rel raw p (st1, d) = Inr (st', d')"
    and st1: "rs_scanned st1 = rels @ [rel]" "rs_claims st1 = rs_claims st"
  shows "scan_inv lib dk dir (rels @ [rel]) st' d'"
proof -
  let ?c = "claim_of lib rel raw p" and ?d = "settle_issues rel p now d"
  let ?i = "ident (pr_analysis_id p)" and ?e = "index_entry lib rel raw p"
  let ?lower = "lib_lower (rl_py lib)"
  have i: "cl_analysis_id ?c = ?i" by (simp add: claim_of_def)
  have e: "re_job_id ?e = ?i" "re_analysis_id ?e = ?i" by (simp_all add: index_entry_def)
  have claims: "rs_claims st1 = winner lib dk dir rels" using inv st1 by (simp add: scan_inv_def)
  have d: "index_wf ?lower ?d" "ids_agree ?d" "find_document k ?d = find_document k d" for k
    using inv settle_issues_same [of d rel p now] same_documents_wf same_documents_agree same_documents_find
    by (auto simp: scan_inv_def)
  show ?thesis
  proof (cases "winner lib dk dir rels ?i")
    case (Some w)
    have "same_documents d (record_issue DUPLICATE_ANALYSIS_ID rel t now ?d)" for t
      using same_documents_trans settle_issues_same record_issue_same by blast
    with Some claims run st1 show ?thesis
      by (intro scan_inv_same [OF inv]) (auto simp: claim_file_def Let_def i winner_snoc_report [OF at])
  next
    case None
    have w: "winner lib dk dir (rels @ [rel]) = (winner lib dk dir rels)(?i \<mapsto> ?c)"
      by (simp add: winner_snoc_report [OF at] None)
    show ?thesis
    proof (cases "is_unchanged ?c (get_report_document ?i ?d)")
      case True
      with None claims run have "d' = ?d" "rs_claims st' = (winner lib dk dir rels)(?i \<mapsto> ?c)"
        "rs_scanned st' = rels @ [rel]"
        by (auto simp: claim_file_def Let_def i st1)
      with d inv True w st1 claims show ?thesis
        by (auto simp: scan_inv_def get_report_document_def)
    next
      case False
      with None claims run obtain j where
        u: "upsert_report_document ?lower ?e (index_body p) now ?d = (Inr j, d')"
        and st': "rs_claims st' = (winner lib dk dir rels)(?i \<mapsto> ?c)" "rs_scanned st' = rels @ [rel]"
        by (auto simp: claim_file_def Let_def i st1 and_then_Inr split: prod.splits sum.splits)
      have wf: "documents_wf ?d" using d(1) by (simp add: index_wf_def)
      have "is_unchanged ?c (find_document ?i d')"
        unfolding find_after_upsert [OF wf u]
        by (auto simp: e is_unchanged_def claim_of_def index_entry_def new_document_def refresh_document_def
            split: option.split)
      moreover have "find_document k d' = find_document k d" if "k \<noteq> ?i" for k
        using find_after_upsert [OF wf u, of k] that by (simp add: e d(3))
      ultimately show ?thesis
        using upsert_wf [OF d(1) u] agree_upsert [OF d(2) _ u] inv w st' st1 claims
        by (auto simp: scan_inv_def e)
    qed
  qed
qed

lemma reconcile_file_inv:
  assumes inv: "scan_inv lib dk dir rels st d" and scan: "scan_file lib dk dir rel = Inr fo"
    and run: "reconcile_file lib now fo (st, d) = Inr (st', d')"
  shows "scan_inv lib dk dir (rels @ [rel]) st' d'"
  using scan
proof (cases rule: scan_file_cases)
  case (unreadable ty)
  with run show ?thesis
    by (intro scan_inv_same [OF inv])
      (use inv in \<open>auto simp: reconcile_file_def Let_def quarantine_def record_issue_same winner_snoc_none scan_inv_def\<close>)
next
  case (malformed code msg)
  with run show ?thesis
    by (intro scan_inv_same [OF inv])
      (use inv in \<open>auto simp: reconcile_file_def Let_def quarantine_def same_after_resolve record_issue_same
          winner_snoc_none scan_inv_def\<close>)
next
  case (parsed raw p)
  with run show ?thesis
    by (intro claim_file_inv [OF inv parsed(1)])
      (use inv in \<open>auto simp: reconcile_file_def Let_def scan_inv_def\<close>)
qed

section \<open>A rescan that nothing disturbs\<close>

text \<open>
  What a file must be for the rescan to get past it: unreadable while the directory is still
  there, refused by the reader with one of its diagnoses, or a report with positive instants.
\<close>

definition acceptable :: "'dt rescan_lib \<Rightarrow> disk \<Rightarrow> string \<Rightarrow> string \<Rightarrow> bool" where
  "acceptable lib dk dir rel =
     (case dk_read dk dir rel of
        Inl _ \<Rightarrow> dk_usable dk (AfterRead rel) dir
      | Inr raw \<Rightarrow>
         (case decode_report_bytes (rl_py lib) raw of
            Inl (MarkdownParseError _) \<Rightarrow> True
          | Inl _ \<Rightarrow> False
          | Inr p \<Rightarrow> dated lib p))"

lemma scan_file_ok: "acceptable lib dk dir rel \<Longrightarrow> \<exists>fo. scan_file lib dk dir rel = Inr fo"
  by (auto simp: acceptable_def scan_file_def split: sum.splits exn.splits)

lemma report_file_nonempty: "is_report_file (rel, b) \<Longrightarrow> rel \<noteq> []"
  by (auto simp: is_report_file_def Let_def codes_def sql_lower_def)

lemma collect_nonempty: "rel \<in> set (collect entries) \<Longrightarrow> rel \<noteq> []"
  using report_file_nonempty by (auto simp: collect_def)

lemma reconcile_file_ok:
  assumes inv: "scan_inv lib dk dir rels st d" and scan: "scan_file lib dk dir rel = Inr fo"
    and ok: "acceptable lib dk dir rel" "rel \<noteq> []" "\<And>raw. hex_digest (rl_sha256 lib raw)"
  shows "\<exists>st' d'. reconcile_file lib now fo (st, d) = Inr (st', d')"
  using scan
proof (cases rule: scan_file_cases)
  case (unreadable ty)
  then show ?thesis by (simp add: reconcile_file_def Let_def)
next
  case (malformed code msg)
  then show ?thesis by (simp add: reconcile_file_def Let_def)
next
  case (parsed raw p)
  let ?e = "index_entry lib rel raw p" and ?d = "settle_issues rel p now d"
  have "dated lib p"
    using parsed(1) ok(1) by (auto simp: report_at_def acceptable_def split: sum.splits)
  then have "check_entry (lib_lower (rl_py lib)) ?e = Inr ()"
    using entry_accepted [OF parsed(7) ok(2,3)] by simp
  moreover have "ids_agree ?d"
    by (rule same_documents_agree [OF settle_issues_same]) (use inv in \<open>simp add: scan_inv_def\<close>)
  then obtain j d' where "upsert_report_document (lib_lower (rl_py lib)) ?e (index_body p) now ?d = (Inr j, d')"
    using upsert_succeeds [of ?d ?e "lib_lower (rl_py lib)" "index_body p" now]
    by (auto simp: index_entry_def)
  ultimately show ?thesis
    using parsed by (auto simp: reconcile_file_def claim_file_def Let_def split: option.split)
qed

lemma scan_files_ok:
  "list_all (acceptable lib dk dir) rels \<Longrightarrow>
   \<exists>fos. scan_files lib dk dir rels = Inr fos \<and> list_all2 (\<lambda>rel fo. scan_file lib dk dir rel = Inr fo) rels fos"
proof (induction rels)
  case (Cons rel rels)
  then obtain fo fos where "scan_file lib dk dir rel = Inr fo" "scan_files lib dk dir rels = Inr fos"
    "list_all2 (\<lambda>rel fo. scan_file lib dk dir rel = Inr fo) rels fos"
    using scan_file_ok by fastforce
  then show ?case by auto
qed simp

lemma reconcile_files_ok:
  assumes "list_all2 (\<lambda>rel fo. scan_file lib dk dir rel = Inr fo) rels fos"
    and "list_all (\<lambda>rel. acceptable lib dk dir rel \<and> rel \<noteq> []) rels" "\<And>raw. hex_digest (rl_sha256 lib raw)"
    and "scan_inv lib dk dir before st d"
  shows "\<exists>st' d'. reconcile_files lib now fos (st, d) = Inr (st', d') \<and> scan_inv lib dk dir (before @ rels) st' d'"
  using assms(1,2,4)
proof (induction rels fos arbitrary: before st d rule: list_all2_induct)
  case (Cons rel rels fo fos)
  then obtain st1 d1 where step: "reconcile_file lib now fo (st, d) = Inr (st1, d1)"
    using reconcile_file_ok [OF Cons.prems(2) Cons.hyps(1) _ _ assms(3), where now = now] Cons.prems(1) by auto
  have "scan_inv lib dk dir (before @ [rel]) st1 d1"
    by (rule reconcile_file_inv [OF Cons.prems(2) Cons.hyps(1) step])
  with Cons.IH [OF _ this] Cons.prems(1) obtain st' d' where
    "reconcile_files lib now fos (st1, d1) = Inr (st', d')" "scan_inv lib dk dir (before @ rel # rels) st' d'"
    by auto
  with step show ?case by simp
qed simp

definition undisturbed :: "rescan_env \<Rightarrow> bool" where
  "undisturbed env \<longleftrightarrow> env_others env = (\<lambda>_ d. d)"

lemma run_batches_ok:
  assumes "undisturbed env" "\<And>raw. hex_digest (rl_sha256 lib raw)"
    and "list_all (\<lambda>rel. acceptable lib dk dir rel \<and> rel \<noteq> []) (concat chunks)"
    and "scan_inv lib dk dir before st d"
  shows "\<exists>k' st' d'. run_batches lib dk env dir k chunks st d = (k', Inr st', d') \<and>
    scan_inv lib dk dir (before @ concat chunks) st' d'"
  using assms(3,4)
proof (induction chunks arbitrary: k before st d)
  case (Cons rels chunks)
  then have "list_all (acceptable lib dk dir) rels" by (auto simp: list_all_iff)
  then obtain fos where fos: "scan_files lib dk dir rels = Inr fos"
    "list_all2 (\<lambda>rel fo. scan_file lib dk dir rel = Inr fo) rels fos"
    using scan_files_ok by blast
  then obtain st1 d1 where step: "reconcile_files lib (env_now env k) fos (st, d) = Inr (st1, d1)"
    "scan_inv lib dk dir (before @ rels) st1 d1"
    using reconcile_files_ok [OF fos(2) _ assms(2) Cons.prems(2), where now = "env_now env k"] Cons.prems(1)
    by auto
  then have "process_batch lib dk dir (env_now env k) rels st (env_others env k d) = (Inr st1, d1)"
    using fos(1) assms(1) by (simp add: process_batch_def undisturbed_def)
  moreover obtain k' st' d' where "run_batches lib dk env dir (Suc k) chunks st1 d1 = (k', Inr st', d')"
    "scan_inv lib dk dir (before @ rels @ concat chunks) st' d'"
    using Cons.IH [OF _ step(2), of "Suc k"] Cons.prems(1) by auto
  ultimately show ?case by simp
qed simp

lemma concat_chunks: "0 < n \<Longrightarrow> concat (chunks_of n xs) = xs"
proof (induction n xs rule: chunks_of.induct)
  case (1 n xs)
  then show ?case by (subst chunks_of.simps) auto
qed

lemma set_index_state_same: "same_documents d (snd (set_index_state st now c d))"
  by (simp add: set_index_state_def same_documents_def)

text \<open>What the index says of one id: path and content of a search_ids document.\<close>

definition index_row_of :: "string \<Rightarrow> database \<Rightarrow> (string \<times> string) option" where
  "index_row_of i d =
     (case find_document i d of
        None \<Rightarrow> None
      | Some r \<Rightarrow> if in_index r then Some (rd_relative_path r, rd_content_hash r) else None)"

definition claim_row :: "claim \<Rightarrow> string \<times> string" where
  "claim_row c = (cl_rel_path c, cl_content_hash c)"

lemma absence_leaves_winners:
  assumes "scan_inv lib dk dir rels st d" "mark_absent (rs_claims st) (rs_scanned st) purge now d = (a, b, d')"
  shows "index_row_of i d' = map_option claim_row (winner lib dk dir rels i)"
proof -
  have wf: "index_wf (lib_lower (rl_py lib)) d" and claims: "rs_claims st = winner lib dk dir rels"
    and unch: "\<And>c. rs_claims st i = Some c \<Longrightarrow> is_unchanged c (find_document i d)"
    using assms(1) by (auto simp: scan_inv_def)
  note eff = mark_absent_effect(2) [OF wf assms(2), of i]
  show ?thesis
  proof (cases "rs_claims st i")
    case (Some c)
    then obtain r where r: "find_document i d = Some r" "rd_relative_path r = cl_rel_path c"
      "rd_content_hash r = cl_content_hash c" "rd_doc_status r = ''active''"
      using unch by (auto simp: is_unchanged_def split: option.splits)
    moreover have "rd_job_id r = i" using find_document_in [OF r(1)] by simp
    ultimately show ?thesis
      using Some eff claims
      by (simp add: index_row_of_def after_absence_def claimed_def in_index_def claim_row_def)
  next
    case None
    have "\<not> in_index r'" if hit: "find_document i d' = Some r'" for r'
    proof -
      obtain r where "find_document i d = Some r" "after_absence (rs_claims st) (rs_scanned st) purge now r = Some r'"
        using hit eff by (cases "find_document i d") simp_all
      then show ?thesis
        using None find_document_in [of i d r]
        by (auto simp: after_absence_def claimed_def lose_document_def in_index_def split: if_splits)
    qed
    with None claims show ?thesis by (auto simp: index_row_of_def split: option.split)
  qed
qed

lemma rescan_completes:
  assumes "undisturbed env" "index_wf (lib_lower (rl_py lib)) d" "ids_agree d" "\<And>raw. hex_digest (rl_sha256 lib raw)"
    and "resolve_report_root dk d = Inr (Some dir)" "dk_usable dk AtStart dir" "dk_usable dk AtEnd dir"
    and "list_all (acceptable lib dk dir) (collect (dk_entries dk dir))"
  shows "\<exists>out d'. rescan lib dk env purge d = (Inr out, d') \<and> ro_consistent out \<and>
    is_state (index_row d') = ''idle'' \<and> index_wf (lib_lower (rl_py lib)) d' \<and>
    (\<forall>i. index_row_of i d' = map_option claim_row (winner lib dk dir (collect (dk_entries dk dir)) i))"
proof -
  let ?files = "collect (dk_entries dk dir)"
  let ?d1 = "snd (set_index_state ''running'' (env_now env 0) None d)"
  have "winner lib dk dir [] = Map.empty" by (simp add: winner_def first_owner_def fun_eq_iff)
  then have inv: "scan_inv lib dk dir [] start_state ?d1"
    using assms(2,3) same_documents_wf [OF set_index_state_same] same_documents_agree [OF set_index_state_same]
    by (simp add: scan_inv_def start_state_def)
  have chunks: "concat (chunks_of BATCH_SIZE ?files) = ?files"
    by (rule concat_chunks) (simp add: BATCH_SIZE_def)
  have "list_all (\<lambda>rel. acceptable lib dk dir rel \<and> rel \<noteq> []) (concat (chunks_of BATCH_SIZE ?files))"
    using assms(8) collect_nonempty by (auto simp: chunks list_all_iff)
  then obtain k st d2 where run: "run_batches lib dk env dir 1 (chunks_of BATCH_SIZE ?files) start_state ?d1 = (k, Inr st, d2)"
    and inv2: "scan_inv lib dk dir ?files st d2"
    using run_batches_ok [OF assms(1,4) _ inv, of "chunks_of BATCH_SIZE ?files" 1] by (auto simp: chunks)
  obtain a b d3 where ma: "mark_absent (rs_claims st) (rs_scanned st) purge (env_now env k) d2 = (a, b, d3)"
    by (metis prod_cases3)
  have wf3: "index_wf (lib_lower (rl_py lib)) d3"
    using mark_absent_effect(1) [OF _ ma] inv2 by (auto simp: scan_inv_def)
  then have cons: "fv_consistent (verify_fts d3)" by (rule verify_consistent)
  let ?c = "(rs_counts st)\<lparr>ct_removed := int a, ct_purged := int b\<rparr>"
  obtain out d' where fin: "finish_run env (k + 2) ?c True d3 = (Inr out, d')"
    by (simp add: finish_run_def)
  have "rescan lib dk env purge d = (Inr out, d')"
    using assms(1,5-7) run ma cons fin
    by (simp add: rescan_def root_is_usable_def undisturbed_def)
  moreover have "ro_consistent out" "same_documents d3 d'" "is_state (index_row d') = ''idle''"
    using fin assms(1)
    by (auto simp: finish_run_def undisturbed_def set_index_state_def record_rebuild_counters_def same_documents_def)
  moreover have "index_row_of i d' = map_option claim_row (winner lib dk dir ?files i)" for i
    using absence_leaves_winners [OF inv2 ma, of i] same_documents_find [OF calculation(3)]
    by (simp add: index_row_of_def)
  ultimately show ?thesis using same_documents_wf [OF _ wf3] by blast
qed

text \<open>
  C7. A rescan converges to the directory. When nothing else writes meanwhile, the directory
  stays readable and no file makes the scan raise, the rescan completes, the index is
  consistent and idle, and for every analysis id it holds exactly the first file, in the order
  of the paths, that carries the id, with the digest of its present bytes, and nothing else.
  What the database held before does not matter: deleting it and keeping it end the same.
\<close>
theorem rescan_converges:
  assumes "undisturbed env" "index_wf (lib_lower (rl_py lib)) d" "ids_agree d" "\<And>raw. hex_digest (rl_sha256 lib raw)"
    and "resolve_report_root dk d = Inr (Some dir)" "dk_usable dk AtStart dir" "dk_usable dk AtEnd dir"
    and "list_all (acceptable lib dk dir) (collect (dk_entries dk dir))"
  shows "case rescan lib dk env purge d of
      (Inl e, d') \<Rightarrow> False
    | (Inr out, d') \<Rightarrow>
        ro_consistent out \<and> is_state (index_row d') = ''idle'' \<and> index_wf (lib_lower (rl_py lib)) d' \<and>
        index_row_of i d' = map_option claim_row (winner lib dk dir (collect (dk_entries dk dir)) i)"
proof -
  obtain out d' where "rescan lib dk env purge d = (Inr out, d')" "ro_consistent out"
    "is_state (index_row d') = ''idle''" "index_wf (lib_lower (rl_py lib)) d'"
    "index_row_of i d' = map_option claim_row (winner lib dk dir (collect (dk_entries dk dir)) i)"
    using rescan_completes [OF assms, of purge] by blast
  then show ?thesis by simp
qed

definition sample_rescan_lib :: "unit rescan_lib" where
  "sample_rescan_lib =
     \<lparr>rl_py = sample_lib, rl_timestamp = (\<lambda>_. 7), rl_sha256 = (\<lambda>_. replicate 64 CHR ''0''),
      rl_message = (\<lambda>_. []), rl_float = (\<lambda>_. [])\<rparr>"

text \<open>Two copies of one report, an unreadable file and one that is no report.\<close>

definition sample_disk :: disk where
  "sample_disk =
     \<lparr>dk_pointer = NoPointer, dk_fallback = Some ''/reports'', dk_usable = (\<lambda>_ _. True),
      dk_entries = (\<lambda>_. [(''b.md'', True), (''a.md'', True), (''c.MD'', True), (''x.txt'', True)]),
      dk_read = (\<lambda>_ rel. if rel = ''c.MD'' then Inl ''PermissionError''
                 else Inr (utf8_encode (render_markdown sample_lib sample_doc)))\<rparr>"

definition sample_env :: rescan_env where
  "sample_env = \<lparr>env_now = rat_of_nat, env_others = (\<lambda>_ d. d)\<rparr>"

lemma sample_decodes:
  "decode_report_bytes sample_lib (utf8_encode (render_markdown sample_lib sample_doc)) = Inr (report_of sample_doc)"
proof -
  have "dc_source_url sample_doc \<noteq> []" by (simp add: sample_doc_def codes_def)
  from decode_rendered [OF sample_facts(1-4) this sample_facts(6)] sample_facts(5) show ?thesis by simp
qed

lemma sample_doc_fields:
  "pr_analysis_id (report_of sample_doc) = codes ''j1''" "pr_published_at (report_of sample_doc) = None"
  by (simp_all add: report_of_def sample_doc_def)

lemma sample_collect: "collect (dk_entries sample_disk dir) = [''a.md'', ''b.md'', ''c.MD'']"
  by (simp add: sample_disk_def collect_def is_report_file_def path_key_def codes_def sql_lower_def
      sql_lower_char_def suffix_def)

lemma sample_report: "dk_read sample_disk dir rel = (if rel = ''c.MD'' then Inl ''PermissionError''
    else Inr (utf8_encode (render_markdown sample_lib sample_doc)))"
  by (simp add: sample_disk_def)

lemma sample_hex: "hex_digest (rl_sha256 sample_rescan_lib raw)"
  by (simp add: sample_rescan_lib_def hex_digest_def list_all_iff)

theorem rescan_converges_witness:
  "case rescan sample_rescan_lib sample_disk sample_env True empty_database of
     (Inl e, d') \<Rightarrow> False
   | (Inr out, d') \<Rightarrow>
       ro_consistent out \<and> is_state (index_row d') = ''idle'' \<and> index_wf sql_lower d' \<and>
       index_row_of ''j1'' d' = Some (''a.md'', replicate 64 CHR ''0'')"
proof -
  have j: "ident (codes ''j1'') = ''j1''" by (rule ident_ascii) simp
  have w: "winner sample_rescan_lib sample_disk ''/reports'' [''a.md'', ''b.md'', ''c.MD''] ''j1'' =
      Some (claim_of sample_rescan_lib ''a.md'' (utf8_encode (render_markdown sample_lib sample_doc)) (report_of sample_doc))"
    by (simp add: winner_def first_owner_def carries_def report_at_def sample_report sample_rescan_lib_def sample_decodes
        sample_doc_fields j)
  have lower: "lib_lower (rl_py sample_rescan_lib) = sql_lower" by (simp add: sample_rescan_lib_def sample_lib_def)
  have root: "resolve_report_root sample_disk empty_database = Inr (Some ''/reports'')"
    by (simp add: resolve_report_root_def read_report_pointer_def sample_disk_def empty_database_def)
  have "list_all (acceptable sample_rescan_lib sample_disk ''/reports'') [''a.md'', ''b.md'', ''c.MD'']"
    by (simp add: acceptable_def sample_report sample_rescan_lib_def sample_decodes dated_def
        sample_doc_fields positive_def) (simp add: sample_disk_def)
  then have acc: "list_all (acceptable sample_rescan_lib sample_disk ''/reports'')
      (collect (dk_entries sample_disk ''/reports''))"
    by (simp add: sample_collect)
  have wf: "index_wf (lib_lower (rl_py sample_rescan_lib)) empty_database" by (rule index_wf_empty)
  have q: "undisturbed sample_env" by (simp add: undisturbed_def sample_env_def)
  have agree: "ids_agree empty_database" by (simp add: ids_agree_def empty_database_def)
  have u: "dk_usable sample_disk x ''/reports''" for x by (simp add: sample_disk_def)
  have row: "claim_row (claim_of sample_rescan_lib ''a.md'' raw p) = (''a.md'', replicate 64 CHR ''0'')" for raw p
    by (simp add: claim_row_def claim_of_def sample_rescan_lib_def)
  from rescan_converges [OF q wf agree sample_hex root u u acc, where purge = True and i = "''j1''"]
  show ?thesis by (simp only: sample_collect w lower row option.map)
qed

section \<open>A rescan that fails\<close>

text \<open>The searchable ids only grow until the absence pass.\<close>

definition search_ids :: "database \<Rightarrow> string set" where
  "search_ids d = dom (\<lambda>i. index_row_of i d)"

lemma same_documents_searchable: "same_documents d d' \<Longrightarrow> search_ids d' = search_ids d"
  by (simp add: search_ids_def index_row_of_def same_documents_find)

lemma searchable_upsert:
  assumes "index_wf lower d" "upsert_report_document lower e b now d = (Inr i, d')"
  shows "search_ids d \<subseteq> search_ids d' \<and> index_wf lower d'"
proof -
  have wf: "documents_wf d" using assms(1) by (simp add: index_wf_def)
  have "index_row_of k d' \<noteq> None" if "index_row_of k d \<noteq> None" for k
    using that find_after_upsert [OF wf assms(2), of k]
    by (auto simp: index_row_of_def split: option.splits if_splits)
  with upsert_wf [OF assms] show ?thesis by (auto simp: search_ids_def)
qed

lemma searchable_reconcile:
  assumes "index_wf (lib_lower (rl_py lib)) d" "reconcile_file lib now fo (st, d) = Inr (st', d')"
  shows "search_ids d \<subseteq> search_ids d' \<and> index_wf (lib_lower (rl_py lib)) d'"
proof -
  let ?lower = "lib_lower (rl_py lib)"
  have same: "search_ids d \<subseteq> search_ids x \<and> index_wf ?lower x" if "same_documents d x" for x
    using same_documents_searchable [OF that] same_documents_wf [OF that assms(1)] by simp
  have settle: "index_wf ?lower (settle_issues rel p now d)" "search_ids (settle_issues rel p now d) = search_ids d"
    for rel and p :: "'a parsed_report"
    by (rule same_documents_wf [OF settle_issues_same assms(1)], rule same_documents_searchable [OF settle_issues_same])
  have claim: "search_ids d \<subseteq> search_ids d' \<and> index_wf ?lower d'"
    if run: "claim_file lib now rel raw p (st1, d) = Inr (st', d')" for rel raw st1 and p :: "'a parsed_report"
  proof (cases "rs_claims st1 (ident (pr_analysis_id p))")
    case (Some c)
    with run have "d' = record_issue DUPLICATE_ANALYSIS_ID rel (duplicate_detail lib c (claim_of lib rel raw p)) now
        (settle_issues rel p now d)"
      by (auto simp: claim_file_def claim_of_def Let_def)
    then have "same_documents d d'" using same_documents_trans settle_issues_same record_issue_same by blast
    then show ?thesis by (rule same)
  next
    case None
    let ?e = "index_entry lib rel raw p"
    consider "d' = settle_issues rel p now d"
      | j where "upsert_report_document ?lower ?e (index_body p) now (settle_issues rel p now d) = (Inr j, d')"
      using run None
      by (auto simp: claim_file_def claim_of_def Let_def and_then_Inr split: if_splits prod.splits sum.splits)
    then show ?thesis
    proof cases
      case 1
      then show ?thesis using same [OF settle_issues_same] by simp
    next
      case 2
      from searchable_upsert [OF settle(1) 2] settle(2) show ?thesis by simp
    qed
  qed
  show ?thesis
  proof (cases "fo_read_error_type fo")
    case (Some ty)
    with assms(2) show ?thesis
      by (intro same) (auto simp: reconcile_file_def Let_def record_issue_same)
  next
    case None
    show ?thesis
    proof (cases "fo_parse_error fo")
      case (Some cm)
      with None assms(2) show ?thesis
        by (intro same) (cases cm; auto simp: reconcile_file_def Let_def same_after_resolve record_issue_same)
    next
      case noerr: None
      with None assms show ?thesis
        by (cases "fo_parsed fo"; cases "fo_raw fo")
          (auto simp: reconcile_file_def Let_def dest!: claim)
    qed
  qed
qed

lemma searchable_reconcile_files:
  "index_wf (lib_lower (rl_py lib)) d \<Longrightarrow> reconcile_files lib now fos (st, d) = Inr (st', d') \<Longrightarrow>
   search_ids d \<subseteq> search_ids d' \<and> index_wf (lib_lower (rl_py lib)) d'"
proof (induction fos arbitrary: st d)
  case (Cons fo fos)
  then obtain st1 d1 where "reconcile_file lib now fo (st, d) = Inr (st1, d1)"
    "reconcile_files lib now fos (st1, d1) = Inr (st', d')"
    by (auto simp: and_then_Inr)
  with searchable_reconcile [OF Cons.prems(1) this(1)] Cons.IH [of d1 st1] show ?case by auto
qed simp

lemma searchable_batch:
  assumes "index_wf (lib_lower (rl_py lib)) d" "process_batch lib dk dir now rels st d = (res, d')"
  shows "search_ids d \<subseteq> search_ids d' \<and> index_wf (lib_lower (rl_py lib)) d'"
    and "res = Inr st' \<Longrightarrow> \<exists>fos. scan_files lib dk dir rels = Inr fos"
  using assms searchable_reconcile_files [OF assms(1)]
  by (auto simp: process_batch_def and_then_Inr split: sum.splits prod.splits)

lemma searchable_batches:
  assumes "undisturbed env" "index_wf (lib_lower (rl_py lib)) d" "run_batches lib dk env dir k chunks st d = (k', res, d')"
  shows "search_ids d \<subseteq> search_ids d' \<and> index_wf (lib_lower (rl_py lib)) d' \<and>
    (\<forall>st'. res = Inr st' \<longrightarrow> (\<forall>rels \<in> set chunks. \<exists>fos. scan_files lib dk dir rels = Inr fos))"
  using assms(2,3)
proof (induction chunks arbitrary: k st d)
  case (Cons rels chunks)
  obtain r d1 where b: "process_batch lib dk dir (env_now env k) rels st d = (r, d1)" by fastforce
  from searchable_batch(1) [OF Cons.prems(1) b] have one: "search_ids d \<subseteq> search_ids d1"
    "index_wf (lib_lower (rl_py lib)) d1" by simp_all
  show ?case
  proof (cases r)
    case (Inl e)
    with b Cons.prems one assms(1) show ?thesis by (auto simp: undisturbed_def)
  next
    case (Inr st1)
    with b Cons.prems assms(1) have "run_batches lib dk env dir (Suc k) chunks st1 d1 = (k', res, d')"
      by (simp add: undisturbed_def)
    with Cons.IH [OF one(2) this] one searchable_batch(2) [OF Cons.prems(1) b Inr] show ?thesis by auto
  qed
qed simp

definition read_held :: "disk \<Rightarrow> string \<Rightarrow> string \<Rightarrow> bool" where
  "read_held dk dir rel =
     (case dk_read dk dir rel of Inl _ \<Rightarrow> dk_usable dk (AfterRead rel) dir | Inr _ \<Rightarrow> True)"

definition directory_held :: "disk \<Rightarrow> database \<Rightarrow> bool" where
  "directory_held dk d =
     (case resolve_report_root dk d of
        Inr (Some dir) \<Rightarrow>
          dk_usable dk AtStart dir \<and> dk_usable dk AtEnd dir \<and>
          list_all (read_held dk dir) (collect (dk_entries dk dir))
      | _ \<Rightarrow> False)"

lemma scan_files_held: "scan_files lib dk dir rels = Inr fos \<Longrightarrow> list_all (read_held dk dir) rels"
proof (induction rels arbitrary: fos)
  case (Cons rel rels)
  then obtain fo fos' where "scan_file lib dk dir rel = Inr fo" "scan_files lib dk dir rels = Inr fos'"
    by (auto simp: and_then_Inr)
  moreover from this(1) have "read_held dk dir rel"
    by (auto simp: scan_file_def read_held_def split: sum.splits if_splits)
  ultimately show ?case using Cons.IH by simp
qed simp

lemma list_all_chunks: "0 < n \<Longrightarrow> (\<And>c. c \<in> set (chunks_of n xs) \<Longrightarrow> list_all P c) \<Longrightarrow> list_all P xs"
  by (subst concat_chunks [of n xs, symmetric]) (auto simp: list_all_iff)

lemma fail_run_keeps:
  assumes "undisturbed env" "fail_run env k e d = (res, d')"
  shows "res = Inl e" "same_documents d d'" "is_state (index_row d') = ''needs_rebuild''"
    "is_last_error_code (index_row d') = Some (error_code e)"
  using assms
  by (auto simp: fail_run_def park_needs_rebuild_def undisturbed_def set_index_state_def same_documents_def)

lemma finish_run_succeeds: "fst (finish_run env k c b d) \<noteq> Inl e"
  by (simp add: finish_run_def)


text \<open>The drive drops after the last file was read, and a purge was asked for.\<close>

definition vanishing_disk :: disk where
  "vanishing_disk = sample_disk\<lparr>dk_usable := (\<lambda>x _. x \<noteq> AtEnd)\<rparr>"


text \<open>
  What the absence pass does to a document, whatever is in the table when it begins. A
  document whose id and path the scan claimed stays as it is; any other loses its full-text row
  and is marked missing, or, with purge, is deleted if the scan saw no file under its path. This
  holds for a document that was indexed while the scan ran, too: its file is not among those
  collected before, so it leaves the search, and with purge the table.
\<close>
theorem absence_pass_exact:
  assumes "index_wf lower d"
  shows "case mark_absent claims scanned purge now d of (removed, purged, d') \<Rightarrow>
    index_wf lower d' \<and>
    find_document k d' = Option.bind (find_document k d) (after_absence claims scanned purge now)"
proof -
  obtain a b d' where m: "mark_absent claims scanned purge now d = (a, b, d')" by (metis prod_cases3)
  from mark_absent_effect [OF assms m] show ?thesis by (simp add: m)
qed

theorem absence_pass_exact_witness:
  "case mark_absent Map.empty [''b.md''] True 10 indexed_db of (removed, purged, d') \<Rightarrow>
    index_wf sql_lower d' \<and> find_document ''j'' d' = None"
proof -
  have wf: "index_wf sql_lower indexed_db"
    unfolding indexed_db_def by (rule index_run_wf [OF index_wf_empty])
  have "after_absence Map.empty [''b.md''] True 10 r = None" if "find_document ''j'' indexed_db = Some r" for r
  proof -
    have "list_all (\<lambda>r. rd_relative_path r = ''a.md'') (documents indexed_db)"
      by (simp add: indexed_db_def index_run_def upsert_report_document_def find_document_def Let_def
          empty_database_def put_fts_def new_document_def sample_entry_def mark_report_stale_def)
    then have "rd_relative_path r = ''a.md''" using find_document_in [OF that] by (auto simp: list_all_iff)
    then show ?thesis by (simp add: after_absence_def claimed_def)
  qed
  then have "Option.bind (find_document ''j'' indexed_db) (after_absence Map.empty [''b.md''] True 10) = None"
    by (cases "find_document ''j'' indexed_db") simp_all
  with absence_pass_exact [OF wf, where claims = Map.empty and scanned = "[''b.md'']" and purge = True
      and now = 10 and k = "''j''"]
  show ?thesis by (simp split: prod.splits)
qed

end
