(* ===== verification/PipelineTheorems.thy ===== *)
theory PipelineTheorems
  imports HandlerSteps FilesTheorems RebuildTheorems
begin

text \<open>
  What the pipeline promises: its handlers give the worker everything it relies on; a summary
  is asked for once, however often the stage dies; an interrupted transcription ends complete;
  and the report a job writes is the report its job indexes.
\<close>

section \<open>The worker over the pipeline\<close>

lemma handler_ends:
  assumes "helpful w" "build_handlers lib w p stage = Some h"
  shows "ends (sw_owner w) (good_outcome stage) st (h job st)"
  using assms
  by (cases stage)
    (auto simp: build_handlers_def metadata_ends subtitles_ends audio_ends transcribing_ends
      cleaning_ends chunking_ends summarizing_ends generating_ends indexing_ends)

text \<open>
  C10. No handler can lead a job astray. Whatever the platform, the recognisers, the model and
  the disk answer, an outcome of the handler registered for a stage either reports an error
  code and no target, or names a target that the transition table allows from that stage, and
  a job parked for a model brings no artifact.
\<close>
theorem stage_outcomes_legal:
  assumes "helpful w" "build_handlers lib w p stage = Some h" "h job st = (Inr out, st')"
  shows "good_outcome stage out"
  using handler_ends [OF assms(1,2), of st job] assms(3) by (auto simp: ends_def)

text \<open>A machine on which no service answers, for the concrete runs below.\<close>

definition sample_stage_lib :: "unit stage_lib" where
  "sample_stage_lib =
     \<lparr>rl_py = sample_lib, rl_timestamp = (\<lambda>_. 7), rl_sha256 = (\<lambda>_. replicate 64 CHR ''0''),
      rl_message = (\<lambda>_. []), rl_float = (\<lambda>_. []), sl_float_text = (\<lambda>_. codes ''0.0''),
      sl_read_float = (\<lambda>_. Some 0), sl_fixed = (\<lambda>_. ''0.000''), sl_unescape = (\<lambda>t. t),
      sl_http_url = Some, sl_message = (\<lambda>_. []), sl_url_message = (\<lambda>_. [])\<rparr>"

definition offline :: service_error where
  "offline = \<lparr>se_error_code = ''NETWORK_ERROR'', se_message = ''offline'', se_retryable = True\<rparr>"

definition sample_world :: "unit stage_world" where
  "sample_world =
     \<lparr>sw_owner = ''w'', sw_lease_seconds = 60, sw_now = (\<lambda>_. 1), sw_others = (\<lambda>_ d. d),
      sw_today = (), sw_uuids = (''a'', ''b''), sw_metadata = (\<lambda>_. Inl offline),
      sw_transcript = (\<lambda>_. Inl offline), sw_audio = (\<lambda>_. Inl offline), sw_registry = [],
      sw_recognise = (\<lambda>_ _ _ _. ([], Inl offline)), sw_complete = (\<lambda>_ _. Inl offline)\<rparr>"

definition sample_store :: store where
  "sample_store = \<lparr>sr_root = [], sr_files = Map.empty, sr_fault = (\<lambda>_. None), sr_unreadable = (\<lambda>_. None)\<rparr>"

definition sample_state :: "database \<Rightarrow> stage_state" where
  "sample_state d =
     \<lparr>ss_session = open_session d, ss_artifacts = sample_store, ss_reports = sample_store, ss_prompts = []\<rparr>"

lemma sample_world_helpful: "helpful sample_world"
  by (simp add: helpful_def sample_world_def background.start)

theorem stage_outcomes_legal_witness:
  "\<exists>out st'. indexing sample_stage_lib sample_world (sample_job ''a'' INDEXING None None)
      (sample_state (sample_db (sample_job ''a'' INDEXING None None))) = (Inr out, st') \<and>
    so_error_code out = Some ''INTERNAL_ERROR'' \<and> good_outcome INDEXING out"
proof -
  let ?j = "sample_job ''a'' INDEXING None None"
  obtain out st' where run: "indexing sample_stage_lib sample_world ?j (sample_state (sample_db ?j)) = (Inr out, st')"
    and c: "so_error_code out = Some ''INTERNAL_ERROR''"
    by (simp add: indexing_def in_session_def get_artifact_def Let_def let_others_def sample_state_def
        sample_world_def interfere_def open_session_def autobegin_def emit_begin_def find_artifact_def sample_db_def
        empty_database_def internal_error_def fatal_def
        no_outcome_def)
  have "build_handlers sample_stage_lib sample_world ''p'' INDEXING = Some (indexing sample_stage_lib sample_world)"
    by (simp add: build_handlers_def)
  from stage_outcomes_legal [OF sample_world_helpful this run] run c show ?thesis by blast
qed

lemma pipeline_tame:
  assumes "helpful w" "\<And>i d. jobs_wf d \<Longrightarrow> background (sw_owner w) d (meanwhile i d)"
    and "\<And>s job k. reload s job = Inr k \<Longrightarrow> k = j_job_id job"
  shows "tame (pipeline_worker lib w p fs clock meanwhile reload)"
    "stage_handlers_only (pipeline_worker lib w p fs clock meanwhile reload)"
proof -
  have h: "background (sw_owner w) (committed s) (committed s1) \<and> \<not> locked s1 \<and>
      (\<forall>out. res = Inr out \<longrightarrow> ready s1 \<and> (so_target out = Some WAITING_FOR_MODEL \<longrightarrow> so_artifact out = None))"
    if b: "build_handlers lib w p st = Some h" and r: "ready s" "jobs_wf (committed s)"
      and a: "as_handler (fs st) h job s = (res, s1)"
    for st h job s res s1
  proof -
    obtain x where x: "h job ((fs st)\<lparr>ss_session := s\<rparr>) = (res, x)" "s1 = ss_session x"
      using a by (auto simp: as_handler_def split: prod.splits)
    from handler_ends [OF assms(1) b, of "(fs st)\<lparr>ss_session := s\<rparr>" job] r x
    show ?thesis
      by (auto simp: ends_def behaves_def is_ok_iff good_outcome_def split: option.splits)
  qed
  show "tame (pipeline_worker lib w p fs clock meanwhile reload)"
    unfolding tame_def pipeline_worker_def worker.simps
  proof (intro conjI allI impI)
    fix i d assume "jobs_wf d"
    then show "background (sw_owner w) d (meanwhile i d)" by (rule assms(2))
  next
    fix s job k assume "reload s job = Inr k"
    then show "k = j_job_id job" by (rule assms(3))
  next
    fix st g job s res s1
    assume g: "map_option (as_handler (fs st)) (build_handlers lib w p st) = Some g"
      and r: "ready s" "jobs_wf (committed s)" and run: "g job s = (res, s1)"
    from g obtain h where b: "build_handlers lib w p st = Some h" and eq: "g = as_handler (fs st) h" by auto
    from h [OF b r run [unfolded eq]]
    show "background (sw_owner w) (committed s) (committed s1)" "\<not> locked s1" by blast+
    show "ready s1" if "res = Inr out" for out
      using h [OF b r run [unfolded eq]] that by blast
    show "so_artifact out = None" if "res = Inr out" "so_target out = Some WAITING_FOR_MODEL" for out
      using h [OF b r run [unfolded eq]] that by blast
  qed
  show "stage_handlers_only (pipeline_worker lib w p fs clock meanwhile reload)"
    by (auto simp: stage_handlers_only_def pipeline_worker_def build_handlers_def running_iff split: job_status.splits)
qed

text \<open>
  C9. The pipeline gives every job back. With the handlers the program really registers, over
  any answers of its services and any state of its directories, one pass of the worker ends
  within ten rounds, the jobs table stays well formed, and unless it raises, its job no longer
  runs and carries no lease. What is left to assume is what other connections may do.
\<close>
theorem pipeline_gives_job_back:
  assumes "jobs_wf d" "helpful w"
    and "\<And>i d. jobs_wf d \<Longrightarrow> background (sw_owner w) d (meanwhile i d)"
    and "\<And>s job k. reload s job = Inr k \<Longrightarrow> k = j_job_id job"
  shows "\<exists>res s'. run_worker_once 10 (pipeline_worker lib w p fs clock meanwhile reload) d = Some (res, s') \<and>
    jobs_wf (committed s') \<and>
    (case res of
       Inl e \<Rightarrow> True
     | Inr None \<Rightarrow> (\<forall>r \<in> set (jobs d). \<not> claimable_where (clock 0) r) \<and> committed s' = d
     | Inr (Some j) \<Rightarrow> (\<exists>r. find_job (j_job_id j) (committed s') = Some r \<and>
         j_lease_owner r = None \<and> j_status r \<notin> RUNNING_STATES))"
proof -
  let ?w = "pipeline_worker lib w p fs clock meanwhile reload"
  have "tame ?w" by (rule pipeline_tame(1) [OF assms(2)]) (use assms(3,4) in auto)
  moreover have "stage_handlers_only ?w" by (rule pipeline_tame(2) [OF assms(2)]) (use assms(3,4) in auto)
  moreover have n: "wk_now ?w = clock" by (simp add: pipeline_worker_def)
  ultimately show ?thesis using worker_once_back [OF assms(1), of ?w] unfolding n by blast
qed

theorem pipeline_gives_job_back_witness:
  "\<exists>res s'. run_worker_once 10 (pipeline_worker sample_stage_lib sample_world ''p'' (\<lambda>_. sample_state empty_database)
      (\<lambda>_. 1) (\<lambda>_ d. d) (\<lambda>_ job. Inr (j_job_id job))) (sample_db (sample_job ''a'' CHUNKING None None)) =
      Some (res, s') \<and> jobs_wf (committed s')"
proof -
  have "jobs_wf (sample_db (sample_job ''a'' CHUNKING None None))"
    by (simp add: sample_wf sample_job_ok running_iff)
  note run = pipeline_gives_job_back [where meanwhile = "\<lambda>_ d. d" and lib = sample_stage_lib
      and reload = "\<lambda>_ job. Inr (j_job_id job)" and p = "''p''" and fs = "\<lambda>_. sample_state empty_database"
      and clock = "\<lambda>_. 1", OF this sample_world_helpful background.start]
  from run have "\<exists>res s'. run_worker_once 10 (pipeline_worker sample_stage_lib sample_world ''p'' (\<lambda>_. sample_state empty_database)
      (\<lambda>_. 1) (\<lambda>_ d. d) (\<lambda>_ job. Inr (j_job_id job))) (sample_db (sample_job ''a'' CHUNKING None None)) =
      Some (res, s') \<and> jobs_wf (committed s')" by simp blast
  then show ?thesis .
qed

end
