(* ===== verification/SummaryTheorems.thy ===== *)
theory SummaryTheorems
  imports PipelineTheorems
begin

text \<open>
  What the summaries cost. A run of the stage may die at any point: the model fails, the lease
  is lost, the engine is killed. The checkpoints bound what is paid twice.
\<close>

section \<open>Stored summaries\<close>

definition summarised :: "('dt, 'z) stage_lib_scheme \<Rightarrow> job \<Rightarrow> utext \<Rightarrow> database \<Rightarrow> bool" where
  "summarised lib job chunk d \<longleftrightarrow>
     Option.bind (find_artifact (j_job_id job) CHUNK_SUMMARY_ARTIFACT_TYPE (chunk_fingerprint lib job chunk) d)
       a_payload_json \<noteq> None"

definition keeps_summaries :: "('dt, 'z) stage_lib_scheme \<Rightarrow> job \<Rightarrow> (database \<Rightarrow> database) \<Rightarrow> bool" where
  "keeps_summaries lib job f \<longleftrightarrow> (\<forall>chunk d. summarised lib job chunk d \<longrightarrow> summarised lib job chunk (f d))"

definition fewer :: "('dt, 'z) stage_lib_scheme \<Rightarrow> job \<Rightarrow> database \<Rightarrow> database \<Rightarrow> bool" where
  "fewer lib job d d' \<longleftrightarrow> (\<forall>chunk. summarised lib job chunk d \<longrightarrow> summarised lib job chunk d')"

lemma fewer_refl [simp]: "fewer lib job d d"
  by (simp add: fewer_def)

lemma fewer_trans: "fewer lib job d1 d2 \<Longrightarrow> fewer lib job d2 d3 \<Longrightarrow> fewer lib job d1 d3"
  by (simp add: fewer_def)

lemma fewer_keeps: "keeps_summaries lib job f \<Longrightarrow> fewer lib job d (f d)"
  by (simp add: fewer_def keeps_summaries_def)

lemma fewer_artifacts: "artifacts d' = artifacts d \<Longrightarrow> fewer lib job d d'"
  by (simp add: fewer_def summarised_def find_artifact_def)

text \<open>Between two calls of the model the session has no transaction and no writes of its own.\<close>

definition db_of :: "stage_state \<Rightarrow> database" where
  "db_of st = committed (ss_session st)"

definition calm :: "stage_state \<Rightarrow> bool" where
  "calm st \<longleftrightarrow> tx (ss_session st) = NoTx \<and> \<not> has_dml (ss_session st)"

lemma let_others_simps [simp]:
  "db_of (let_others w k st) = sw_others w k (db_of st)" "calm (let_others w k st) = calm st"
  "ss_prompts (let_others w k st) = ss_prompts st"
  by (simp_all add: let_others_def interfere_def db_of_def calm_def)

lemma find_artifact_update:
  "find_artifact k ty fp (d\<lparr>artifacts := update_where P (\<lambda>a. a\<lparr>a_payload_json := Some p, a_updated_at := t\<rparr>) (artifacts d0)\<rparr>) =
     map_option (\<lambda>a. if P a then a\<lparr>a_payload_json := Some p, a_updated_at := t\<rparr> else a) (find_artifact k ty fp d0)"
proof -
  have "select_first (\<lambda>a. a_job_id a = k \<and> a_artifact_type a = ty \<and> a_input_fingerprint a = fp)
      (update_where P (\<lambda>a. a\<lparr>a_payload_json := Some p, a_updated_at := t\<rparr>) as) =
    map_option (\<lambda>a. if P a then a\<lparr>a_payload_json := Some p, a_updated_at := t\<rparr> else a)
      (select_first (\<lambda>a. a_job_id a = k \<and> a_artifact_type a = ty \<and> a_input_fingerprint a = fp) as)" for as
    by (induction as) auto
  then show ?thesis by (simp add: find_artifact_def)
qed


section \<open>The steps of a run\<close>

lemma calm_commit: "\<not> has_dml (ss_session st) \<Longrightarrow> calm (commit_stage st) \<and> db_of (commit_stage st) = db_of st"
  by (simp add: calm_def db_of_def commit_stage_def commit_tx_def)

lemma get_artifact_session:
  assumes "in_session (get_artifact k ty fp) st = (a, st')" "\<not> has_dml (ss_session st)"
  shows "\<not> has_dml (ss_session st') \<and> db_of st' = db_of st \<and> ss_prompts st' = ss_prompts st"
  using assms by (auto simp: in_session_def get_artifact_def Let_def db_of_def autobegin_def emit_begin_def split: if_splits)

lemma get_artifact_calm:
  "calm st \<Longrightarrow> in_session (get_artifact k ty fp) st = (a, st') \<Longrightarrow> a = find_artifact k ty fp (db_of st)"
  by (auto simp: in_session_def get_artifact_def Let_def calm_def db_of_def autobegin_def emit_begin_def)

text \<open>Saving a payload keeps every payload that is there, and leaves the saved one.\<close>

lemma save_payload_kept:
  assumes "find_artifact k0 ty0 fp0 d = Some a" "a_payload_json a \<noteq> None"
    and "committed s = d" "\<not> has_dml s" "tx s = NoTx"
  shows "Option.bind (find_artifact k0 ty0 fp0
      (committed (snd (save_artifact_inline k owner now sg ty fp sv pj s)))) a_payload_json \<noteq> None"
proof (cases "startable s")
  case True
  have "working (opened s) = d" "committed (opened s) = d"
    using working_opened [OF True] committed_opened [OF True] assms(3,5) by simp_all
  with assms(1,2) show ?thesis
    by (auto simp: save_artifact_inline_def write_tx_ok [OF True] committed_leave_tx update_returning_def
        find_artifact_update find_artifact_insert split: option.splits)
next
  case False
  with assms show ?thesis by (simp add: save_artifact_inline_def committed_write_tx)
qed

lemma save_effect:
  assumes "calm st"
    and "in_session (save_artifact_inline (j_job_id job) owner now sg CHUNK_SUMMARY_ARTIFACT_TYPE
      (chunk_fingerprint lib job chunk) sv pj) st = (r, st')"
  shows "ss_prompts st' = ss_prompts st" "fewer lib job (db_of st) (db_of st')"
    and "r = Inr u \<Longrightarrow> calm st' \<and> summarised lib job chunk (db_of st')"
proof -
  let ?s = "ss_session st"
  let ?save = "save_artifact_inline (j_job_id job) owner now sg CHUNK_SUMMARY_ARTIFACT_TYPE
      (chunk_fingerprint lib job chunk) sv pj ?s"
  have s: "tx ?s = NoTx" "\<not> has_dml ?s" using assms(1) by (simp_all add: calm_def)
  have st': "r = fst ?save" "ss_session st' = snd ?save" "ss_prompts st' = ss_prompts st"
    using assms(2) by (auto simp: in_session_def split: prod.splits)
  show "ss_prompts st' = ss_prompts st" by (rule st')
  show "fewer lib job (db_of st) (db_of st')"
    unfolding fewer_def summarised_def
  proof (intro allI impI)
    fix c
    assume "Option.bind (find_artifact (j_job_id job) CHUNK_SUMMARY_ARTIFACT_TYPE (chunk_fingerprint lib job c)
        (db_of st)) a_payload_json \<noteq> None"
    then obtain a where "find_artifact (j_job_id job) CHUNK_SUMMARY_ARTIFACT_TYPE (chunk_fingerprint lib job c)
        (db_of st) = Some a" "a_payload_json a \<noteq> None"
      by (auto simp: bind_eq_Some_conv)
    from save_payload_kept [OF this _ s(2,1)]
    show "Option.bind (find_artifact (j_job_id job) CHUNK_SUMMARY_ARTIFACT_TYPE (chunk_fingerprint lib job c)
        (db_of st')) a_payload_json \<noteq> None"
      by (simp add: db_of_def st'(2))
  qed
  show "calm st' \<and> summarised lib job chunk (db_of st')" if "r = Inr u"
  proof -
    have ok: "startable ?s"
      using that st'(1) by (auto simp: save_artifact_inline_def intro: result_write_tx_ok)
    have w: "working (opened ?s) = committed ?s" "committed (opened ?s) = committed ?s"
      using working_opened [OF ok] committed_opened [OF ok] s(1) by simp_all
    show ?thesis
      using that w unfolding st'(1) db_of_def calm_def summarised_def st'(2)
      by (auto simp: save_artifact_inline_def write_tx_ok [OF ok] update_returning_def find_artifact_update
          find_artifact_insert artifact_key_def exit_defs split: option.splits if_splits)
  qed
qed


lemma renew_effect:
  assumes "renew_now w k job st = (r, st')"
  shows "calm st' = calm st" "ss_prompts st' = ss_prompts st" "fewer lib job (db_of st) (db_of st')"
proof -
  let ?s = "(open_session (committed (ss_session st)))\<lparr>locked := locked (ss_session st)\<rparr>"
  let ?d = "committed (snd (renew_lease (j_job_id job) (sw_owner w) (sw_now w k) (sw_lease_seconds w) ?s))"
  have st': "st' = st\<lparr>ss_session := (ss_session st)\<lparr>committed := ?d\<rparr>\<rparr>"
    using assms by (auto simp: renew_now_def split: prod.splits)
  have "artifacts ?d = artifacts (committed (ss_session st))"
  proof (cases "startable ?s")
    case True
    have "working (opened ?s) = committed (ss_session st)"
      using working_opened [OF True] by (simp add: open_session_def)
    then show ?thesis
      by (auto simp: renew_lease_def committed_write_tx True update_returning_def open_session_def)
  qed (simp add: renew_lease_def committed_write_tx open_session_def)
  then show "calm st' = calm st" "ss_prompts st' = ss_prompts st" "fewer lib job (db_of st) (db_of st')"
    by (simp_all add: st' calm_def db_of_def fewer_artifacts)
qed

text \<open>
  What a run asked, from \<open>st\<close> to \<open>st'\<close>: nothing that was stored, nothing twice, and all but the
  last is stored now; with \<open>all\<close>, the last is too.
\<close>

definition asked ::
  "('dt, 'z) stage_lib_scheme \<Rightarrow> job \<Rightarrow> bool \<Rightarrow> utext list \<Rightarrow> stage_state \<Rightarrow> stage_state \<Rightarrow> bool" where
  "asked lib job all cs st st' \<longleftrightarrow>
     ss_prompts st' = ss_prompts st @ map summary_prompt cs \<and> distinct cs \<and>
     (\<forall>c \<in> set cs. \<not> summarised lib job c (db_of st)) \<and> fewer lib job (db_of st) (db_of st') \<and>
     (\<forall>c \<in> set (if all then cs else butlast cs). summarised lib job c (db_of st'))"

lemma asked_Nil: "ss_prompts st' = ss_prompts st \<Longrightarrow> fewer lib job (db_of st) (db_of st') \<Longrightarrow> asked lib job a [] st st'"
  by (simp add: asked_def)

lemma asked_append:
  assumes "asked lib job True cs st st1" "asked lib job a cs' st1 st2"
  shows "asked lib job a (cs @ cs') st st2"
proof -
  note one = assms(1) [unfolded asked_def, simplified] and two = assms(2) [unfolded asked_def]
  have "set cs \<inter> set cs' = {}" using one two by blast
  moreover have "\<forall>c \<in> set (cs @ cs'). \<not> summarised lib job c (db_of st)"
    using one two by (auto simp: fewer_def)
  moreover have "\<forall>c \<in> set (if a then cs @ cs' else butlast (cs @ cs')). summarised lib job c (db_of st2)"
    using one two by (auto simp: fewer_def butlast_append dest: in_set_butlastD split: if_splits)
  moreover have "fewer lib job (db_of st) (db_of st2)" using one two fewer_trans by blast
  ultimately show ?thesis using one two by (simp add: asked_def)
qed

lemma asked_weaken: "asked lib job True cs st st' \<Longrightarrow> asked lib job a cs st st'"
  by (auto simp: asked_def dest: in_set_butlastD)

lemma asked_then:
  assumes "asked lib job a cs st st1" "ss_prompts st2 = ss_prompts st1" "fewer lib job (db_of st1) (db_of st2)"
  shows "asked lib job a cs st st2"
  using assms fewer_trans by (fastforce simp: asked_def fewer_def)

lemma asked_first:
  assumes "asked lib job a cs st1 st2" "ss_prompts st1 = ss_prompts st" "fewer lib job (db_of st) (db_of st1)"
  shows "asked lib job a cs st st2"
  using assms fewer_trans by (fastforce simp: asked_def fewer_def)

section \<open>One run\<close>

lemma summarize_chunk_asked:
  assumes "summarize_chunk lib w k job chunk st = (r, st')" "calm st"
    and "\<And>j. keeps_summaries lib job (sw_others w j)"
  shows "\<exists>cs. set cs \<subseteq> {chunk} \<and> asked lib job False cs st st' \<and>
    (\<forall>summary. r = Inr (Inr summary) \<longrightarrow>
       calm st' \<and> summarised lib job chunk (db_of st') \<and> asked lib job True cs st st')"
proof -
  let ?fp = "chunk_fingerprint lib job chunk"
  obtain a st0 where a: "in_session (get_artifact (j_job_id job) CHUNK_SUMMARY_ARTIFACT_TYPE ?fp) st = (a, st0)"
    by fastforce
  define st1 where "st1 = commit_stage st0"
  have f: "a = find_artifact (j_job_id job) CHUNK_SUMMARY_ARTIFACT_TYPE ?fp (db_of st)"
    by (rule get_artifact_calm [OF assms(2) a])
  have 0: "\<not> has_dml (ss_session st0)" "db_of st0 = db_of st" "ss_prompts st0 = ss_prompts st"
    using get_artifact_session [OF a] assms(2) by (simp_all add: calm_def)
  then have 1: "calm st1" "db_of st1 = db_of st" "ss_prompts st1 = ss_prompts st"
    using calm_commit [OF 0(1)] by (simp_all add: st1_def) (simp add: commit_stage_def)
  show ?thesis
  proof (cases "Option.bind a a_payload_json")
    case (Some payload)
    then have "summarised lib job chunk (db_of st1)" using f by (simp add: summarised_def 1(2))
    moreover have "st' = st1"
      using assms(1) Some by (simp add: summarize_chunk_def a Let_def st1_def)
    ultimately show ?thesis
      using 1 by (intro exI [of _ "[]"]) (simp add: asked_Nil)
  next
    case None
    obtain x st2 where x: "complete w k (summary_prompt chunk) st1 = (x, st2)" by fastforce
    have 2: "calm st2" "ss_prompts st2 = ss_prompts st @ [summary_prompt chunk]" "fewer lib job (db_of st) (db_of st2)"
      using x 1 fewer_keeps [OF assms(3)] by (auto simp: complete_def calm_def db_of_def let_others_def interfere_def)
    have n: "\<not> summarised lib job chunk (db_of st)" using None f by (simp add: summarised_def)
    then have asked2: "asked lib job False [chunk] st st2" using 2 by (simp add: asked_def)
    show ?thesis
    proof (cases x)
      case (Inl e)
      then have "r = Inr (Inl (service_outcome e))" "st' = st2"
        using assms(1) None x by (auto simp: summarize_chunk_def a Let_def st1_def)
      then show ?thesis using asked2 by (intro exI [of _ "[chunk]"]) simp
    next
      case (Inr summary)
      obtain y st3 where y: "in_session (save_artifact_inline (j_job_id job) (sw_owner w) (sw_now w k)
          ''summarizing_chunks'' CHUNK_SUMMARY_ARTIFACT_TYPE ?fp 1 (ident summary)) st2 = (y, st3)" by fastforce
      note s = save_effect [OF 2(1) y]
      have r: "st' = st3" "\<forall>v. r = Inr v \<longrightarrow> y = Inr ()"
        using assms(1) None x Inr y by (auto simp: summarize_chunk_def a Let_def st1_def split: sum.splits)
      have "asked lib job False [chunk] st st3" by (rule asked_then [OF asked2 s(1,2)])
      moreover have "calm st3 \<and> summarised lib job chunk (db_of st3) \<and> asked lib job True [chunk] st st3" if "r = Inr v" for v
        using s(3) [of "()"] r(2) that calculation by (simp add: asked_def)
      ultimately show ?thesis using r(1) by (intro exI [of _ "[chunk]"]) auto
    qed
  qed
qed


lemma summarize_chunks_asked:
  assumes "summarize_chunks lib w k job acc chunks st = (r, st')" "calm st"
    and "\<And>j. keeps_summaries lib job (sw_others w j)"
  shows "\<exists>cs a. asked lib job a cs st st' \<and>
    (\<forall>summaries. r = Inr (Inr summaries) \<longrightarrow> a \<and>
       length summaries = length acc + length chunks \<and> (\<forall>c \<in> set chunks. summarised lib job c (db_of st')))"
  using assms(1,2)
proof (induction chunks arbitrary: k acc st)
  case Nil
  then have "r = Inr (Inr acc)" "st' = st" by auto
  then show ?case by (intro exI [of _ "[]"] exI [of _ True]) (simp add: asked_Nil)
next
  case (Cons chunk chunks)
  define st0 where "st0 = let_others w k st"
  have 0: "calm st0" "ss_prompts st0 = ss_prompts st" "fewer lib job (db_of st) (db_of st0)"
    using Cons.prems(2) fewer_keeps [OF assms(3)] by (simp_all add: st0_def)
  have stop: ?case if "st' = st0" "\<forall>v. r \<noteq> Inr (Inr v)"
    using that 0 by (intro exI [of _ "[]"] exI [of _ True]) (simp add: asked_Nil)
  obtain x st1 where x: "summarize_chunk lib w (k + 1) job chunk st0 = (x, st1)" by fastforce
  from summarize_chunk_asked [OF x 0(1) assms(3)] obtain cs where
    cs: "asked lib job False cs st0 st1"
      "\<And>summary. x = Inr (Inr summary) \<Longrightarrow> calm st1 \<and> summarised lib job chunk (db_of st1) \<and> asked lib job True cs st0 st1"
    by blast
  note run = Cons.prems(1) [unfolded summarize_chunks.simps Let_def, folded st0_def, unfolded x]
  have one: "asked lib job False cs st st1" by (rule asked_first [OF cs(1) 0(2,3)])
  show ?case
  proof (cases "cancelled_now job st0 \<or> (\<forall>summary. x \<noteq> Inr (Inr summary))")
    case True
    then have "st' = st0 \<or> st' = st1" "\<forall>v. r \<noteq> Inr (Inr v)"
      using run by (auto split: if_splits sum.splits)
    then show ?thesis using stop one by blast
  next
    case False
    then obtain summary where s: "x = Inr (Inr summary)" "\<not> cancelled_now job st0" by blast
    note s1 = cs(2) [OF s(1)]
    have all: "asked lib job True cs st st1" by (rule asked_first [OF _ 0(2,3)]) (use s1 in blast)
    define st2 where "st2 = let_others w (k + 2) st1"
    have 2: "calm st2" "ss_prompts st2 = ss_prompts st1" "fewer lib job (db_of st1) (db_of st2)"
      using s1 fewer_keeps [OF assms(3)] by (simp_all add: st2_def)
    obtain y st3 where y: "renew_now w (k + 2) job st2 = (y, st3)" by fastforce
    note 3 = renew_effect [OF y]
    have all3: "asked lib job True cs st st3" "calm st3" "summarised lib job chunk (db_of st3)"
      using asked_then [OF asked_then [OF all 2(2,3)] 3(2,3)] 2 3(1) 3(3) [where lib = lib] s1 by (auto simp: fewer_def)
    show ?thesis
    proof (cases "y = Inr True")
      case True
      with run s y have "summarize_chunks lib w (k + 3) job (acc @ [summary]) chunks st3 = (r, st')"
        by (simp add: st2_def)
      from Cons.IH [OF this all3(2)] obtain cs' a where
        n: "asked lib job a cs' st3 st'"
          "\<And>v. r = Inr (Inr v) \<Longrightarrow> a \<and> length v = length acc + Suc (length chunks) \<and>
            (\<forall>c \<in> set chunks. summarised lib job c (db_of st'))"
        by auto
      have "summarised lib job chunk (db_of st')" using n(1) all3(3) by (simp add: asked_def fewer_def)
      with asked_append [OF all3(1) n(1)] n(2) show ?thesis
        by (intro exI [of _ "cs @ cs'"] exI [of _ a]) auto
    next
      case False
      with run s y have "st' = st3" "\<forall>v. r \<noteq> Inr (Inr v)"
        by (auto simp: st2_def split: sum.splits bool.splits)
      with all3(1) show ?thesis by blast
    qed
  qed
qed


text \<open>The outcome with which the stage is done.\<close>

definition finished :: "stage_outcome outcome \<Rightarrow> bool" where
  "finished r \<longleftrightarrow> (\<exists>out. r = Inr out \<and> so_target out = Some GENERATING_REPORT)"

lemma failures_unfinished [simp]:
  "\<not> finished (Inl e)" "\<not> finished (Inr (fatal c m u))" "\<not> finished (Inr (transient c t m u))"
  "\<not> finished (Inr (service_outcome e'))" "\<not> finished (Inr (internal_error detail))"
  by (simp_all add: finished_def fatal_def transient_def service_outcome_def internal_error_def no_outcome_def)

lemma load_session:
  assumes "load_json_artifact lib k ty fp st = (r, st')" "\<not> has_dml (ss_session st)"
  shows "\<not> has_dml (ss_session st')" "db_of st' = db_of st" "ss_prompts st' = ss_prompts st"
proof -
  obtain a st1 where a: "in_session (get_artifact k ty fp) st = (a, st1)" by fastforce
  moreover have "st' = st1" using assms(1) a by (auto simp: load_json_artifact_def split: option.splits if_splits)
  ultimately show "\<not> has_dml (ss_session st')" "db_of st' = db_of st" "ss_prompts st' = ss_prompts st"
    using get_artifact_session [OF a assms(2)] by simp_all
qed

lemma chunk_unfinished:
  "summarize_chunk lib w k job chunk st = (Inr (Inl out), st') \<Longrightarrow> so_target out = None"
  by (auto simp: Let_def summarize_chunk_def fatal_def transient_def service_outcome_def no_outcome_def
      split: prod.splits sum.splits option.splits if_splits)

lemma stopped_unfinished:
  assumes "summarize_chunks lib w k job acc chunks st = (Inr (Inl out), st')"
  shows "so_target out = None"
  using assms
proof (induction chunks arbitrary: k acc st)
  case (Cons chunk chunks)
  then show ?case
    by (auto simp: Let_def fatal_def no_outcome_def dest: chunk_unfinished
        split: prod.splits sum.splits bool.splits if_splits)
qed simp

lemma summarizing_asked:
  assumes "summarizing_chunks lib w job st = (r, st')" "\<not> has_dml (ss_session st)"
    and "\<And>j. keeps_summaries lib job (sw_others w j)"
  shows "\<exists>cs a. asked lib job a cs st st' \<and> (finished r \<longrightarrow> a)"
proof -
  define st0 where "st0 = let_others w 0 st"
  have 0: "\<not> has_dml (ss_session st0)" "ss_prompts st0 = ss_prompts st" "fewer lib job (db_of st) (db_of st0)"
    using assms(2) fewer_keeps [OF assms(3)] by (simp_all add: st0_def) (simp add: let_others_def interfere_def)
  obtain raw st1 where l: "load_json_artifact lib (j_job_id job) CHUNKS_ARTIFACT_TYPE (stage_fingerprint lib (j_url job)) st0 =
      (raw, st1)" by fastforce
  note 1 = load_session [OF l 0(1)]
  have quiet: "asked lib job True [] st st1" using 0 1 by (simp add: asked_Nil)
  note run = assms(1) [unfolded summarizing_chunks_def Let_def, folded st0_def, unfolded l]
  show ?thesis
  proof (cases "\<exists>t chunks. raw = Inr (Some t) \<and> and_then (json_payload lib t) texts_of = Inr chunks")
    case False
    then have "st' = st1" using run by (auto split: sum.splits option.splits)
    with quiet show ?thesis by blast
  next
    case True
    then obtain t chunks where t: "raw = Inr (Some t)" "and_then (json_payload lib t) texts_of = Inr chunks" by blast
    obtain x st2 where x: "summarize_chunks lib w 1 job [] chunks (commit_stage st1) = (x, st2)" by fastforce
    have c: "calm (commit_stage st1)" "db_of (commit_stage st1) = db_of st1" "ss_prompts (commit_stage st1) = ss_prompts st1"
      using calm_commit [OF 1(1)] by (simp_all add: commit_stage_def)
    from summarize_chunks_asked [OF x c(1) assms(3)] obtain cs a where
      cs: "asked lib job a cs (commit_stage st1) st2" "\<And>v. x = Inr (Inr v) \<Longrightarrow> a" by blast
    have "asked lib job a cs st st2" by (rule asked_first [OF cs(1)]) (use c 0 1 in simp_all)
    moreover have "st' = st2" "finished r \<longrightarrow> (\<exists>v. x = Inr (Inr v))"
      using run t x stopped_unfinished [of lib w 1 job "[]" chunks "commit_stage st1"]
      by (auto simp: finished_def split: sum.splits)
    ultimately show ?thesis using cs(2) by blast
  qed
qed

section \<open>Any number of runs\<close>

text \<open>
  The stage run again and again, each time in a world of its own, from a new session on
  whatever the database has become.
\<close>

fun stage_runs ::
  "('dt, 'z) stage_lib_scheme \<Rightarrow> job \<Rightarrow> (('dt, 'y) stage_world_scheme \<times> (database \<Rightarrow> database)) list \<Rightarrow>
   stage_state \<Rightarrow> stage_outcome outcome list \<times> stage_state" where
  "stage_runs lib job [] st = ([], st)"
| "stage_runs lib job ((w, meanwhile) # ws) st =
     (let (r, st1) = summarizing_chunks lib w job (st\<lparr>ss_session := open_session (meanwhile (db_of st))\<rparr>);
          (rs, st2) = stage_runs lib job ws st1
      in (r # rs, st2))"

lemma overlap_of_last:
  assumes "set cs \<inter> set cs' \<subseteq> X" "finite X" "card X \<le> n" "length cs \<le> card (set cs)" "length cs' \<le> card (set cs') + m"
  shows "length (cs @ cs') \<le> card (set (cs @ cs')) + (n + m)"
proof -
  have "card (set cs \<inter> set cs') \<le> n" using card_mono [OF assms(2,1)] assms(3) by linarith
  moreover have "card (set cs) + card (set cs') = card (set cs \<union> set cs') + card (set cs \<inter> set cs')"
    by (rule card_Un_Int) simp_all
  ultimately show ?thesis using assms(4,5) by simp
qed

lemma last_only:
  assumes "\<And>c. c \<in> set cs' \<Longrightarrow> c \<notin> set (if a then cs else butlast cs)" "f \<longrightarrow> a"
  shows "\<exists>X. set cs \<inter> set cs' \<subseteq> X \<and> finite X \<and> card X \<le> (if f then 0 else 1)"
proof (cases "a \<or> cs = []")
  case True
  then have "set cs \<inter> set cs' \<subseteq> {}" using assms(1) by auto
  then show ?thesis by (intro exI [of _ "{}"]) simp
next
  case False
  then have "set cs \<inter> set cs' \<subseteq> {last cs}"
    using assms(1) by (cases cs rule: rev_cases) auto
  with assms(2) False show ?thesis by (intro exI [of _ "{last cs}"]) auto
qed

lemma runs_asked:
  assumes "list_all (\<lambda>(w, meanwhile). keeps_summaries lib job meanwhile \<and> (\<forall>j. keeps_summaries lib job (sw_others w j))) ws"
    and "stage_runs lib job ws st = (rs, st')"
  shows "\<exists>cs. ss_prompts st' = ss_prompts st @ map summary_prompt cs \<and>
    (\<forall>c \<in> set cs. \<not> summarised lib job c (db_of st)) \<and> fewer lib job (db_of st) (db_of st') \<and>
    length cs \<le> card (set cs) + length (filter (\<lambda>r. \<not> finished r) rs)"
  using assms
proof (induction ws arbitrary: st rs)
  case Nil
  then show ?case by (intro exI [of _ "[]"]) auto
next
  case (Cons p ws)
  obtain w meanwhile where p: "p = (w, meanwhile)" by fastforce
  let ?st0 = "st\<lparr>ss_session := open_session (meanwhile (db_of st))\<rparr>"
  obtain r st1 where r: "summarizing_chunks lib w job ?st0 = (r, st1)" by fastforce
  obtain rs' where rs: "stage_runs lib job ws st1 = (rs', st')" "rs = r # rs'"
    using Cons.prems(2) by (auto simp: p r Let_def split: prod.splits)
  have "\<not> has_dml (ss_session ?st0)" by (simp add: open_session_def)
  from summarizing_asked [OF r this] Cons.prems(1) obtain cs a where
    cs: "asked lib job a cs ?st0 st1" "finished r \<longrightarrow> a" by (auto simp: p)
  have k: "fewer lib job (db_of st) (db_of ?st0)"
    using Cons.prems(1) by (simp add: p db_of_def fewer_keeps)
  note one = asked_first [OF cs(1) _ k, simplified]
  from Cons.IH [OF _ rs(1)] Cons.prems(1) obtain cs' where cs':
    "ss_prompts st' = ss_prompts st1 @ map summary_prompt cs'"
    "\<And>c. c \<in> set cs' \<Longrightarrow> \<not> summarised lib job c (db_of st1)" "fewer lib job (db_of st1) (db_of st')"
    "length cs' \<le> card (set cs') + length (filter (\<lambda>r. \<not> finished r) rs')"
    by auto
  have "c \<notin> set (if a then cs else butlast cs)" if "c \<in> set cs'" for c
    using cs'(2) [OF that] one by (auto simp: asked_def)
  from last_only [OF this cs(2)] obtain X where
    X: "set cs \<inter> set cs' \<subseteq> X" "finite X" "card X \<le> (if finished r then 0 else 1)" by blast
  have "length cs \<le> card (set cs)" using one by (simp add: asked_def distinct_card)
  from overlap_of_last [OF X this cs'(4)]
  have "length (cs @ cs') \<le> card (set (cs @ cs')) + length (filter (\<lambda>r. \<not> finished r) rs)"
    by (simp add: rs(2) split: if_splits)
  moreover have "\<not> summarised lib job c (db_of st)" if "c \<in> set (cs @ cs')" for c
    using that one cs'(2) by (auto simp: asked_def fewer_def)
  moreover have "fewer lib job (db_of st) (db_of st')" using one cs'(3) fewer_trans by (auto simp: asked_def)
  moreover have "ss_prompts st' = ss_prompts st @ map summary_prompt (cs @ cs')" using one cs'(1) by (simp add: asked_def)
  ultimately show ?case by blast
qed


definition sample_run_job :: job where
  "sample_run_job = sample_job ''a'' SUMMARIZING_CHUNKS None None"


end
