(* ===== verification/IndexTheorems.thy ===== *)
theory IndexTheorems
  imports SummaryTheorems
begin

text \<open>
  The last two stages together: the report that a job writes is the report that its job
  indexes, through the renderer, the directory, the reader and the index.
\<close>

section \<open>A report that can be read back\<close>

definition presentable :: "('dt, 'z) rescan_lib_scheme \<Rightarrow> 'dt report_doc \<Rightarrow> bool" where
  "presentable lib d \<longleftrightarrow>
     valid_document (rl_py lib) d \<and> dates_ok (rl_py lib) d \<and> printable d \<and> writable_doc d \<and>
     check_url (rl_py lib) (dc_source_url d) = Inr () \<and>
     lib_lower (rl_py lib) (dc_platform d) = dc_platform d \<and> dated lib (report_of d)"

definition report_bytes :: "('dt, 'z) rescan_lib_scheme \<Rightarrow> 'dt report_doc \<Rightarrow> nat list" where
  "report_bytes lib d = utf8_encode (render_markdown (rl_py lib) d)"

lemma presentable_decodes:
  assumes "presentable lib d"
  shows "decode_report_bytes (rl_py lib) (report_bytes lib d) = Inr (report_of d)"
    and "utf8_decode (report_bytes lib d) = Some (render_markdown (rl_py lib) d)"
    and "report_wf (rl_py lib) (report_of d)"
proof -
  have url: "dc_source_url d \<noteq> []" using assms no_url [of "rl_py lib"] by (auto simp: presentable_def)
  show dec: "decode_report_bytes (rl_py lib) (report_bytes lib d) = Inr (report_of d)"
    unfolding report_bytes_def using decode_rendered [OF _ _ _ _ url] assms by (simp add: presentable_def)
  from decode_report_wf [OF this] show "report_wf (rl_py lib) (report_of d)" .
  show "utf8_decode (report_bytes lib d) = Some (render_markdown (rl_py lib) d)"
    unfolding report_bytes_def
    by (rule utf8_roundtrip) (use rendered_writable [of d "rl_py lib"] assms in \<open>auto simp: presentable_def writable_def list_all_iff\<close>)
qed

text \<open>The entry of the last stage differs from that of a rescan in its source alone.\<close>

lemma pipeline_entry_accepted:
  assumes "presentable lib d" "dc_analysis_id d = text_of (j_job_id job)"
    and "ident (text_of (j_job_id job)) = j_job_id job" "rel \<noteq> []" "hex_digest (rl_sha256 lib (report_bytes lib d))"
  shows "check_entry (lib_lower (rl_py lib)) (pipeline_entry lib job rel (rl_sha256 lib (report_bytes lib d))
    (Some (int (length (report_bytes lib d)))) (report_of d)) = Inr ()"
proof -
  let ?e = "index_entry lib rel (report_bytes lib d) (report_of d)"
  have "pipeline_entry lib job rel (rl_sha256 lib (report_bytes lib d))
      (Some (int (length (report_bytes lib d)))) (report_of d) = ?e\<lparr>re_doc_source := ''pipeline''\<rparr>"
    using assms(2,3) by (simp add: pipeline_entry_def index_entry_def report_of_def)
  moreover have "check_entry lower (?e\<lparr>re_doc_source := ''pipeline''\<rparr>) = check_entry lower ?e" for lower
    by (simp add: check_entry_def index_entry_def DOC_SOURCES_def)
  moreover have "dated lib (report_of d)" using assms(1) by (simp add: presentable_def)
  ultimately show ?thesis
    using entry_accepted [of "rescan_lib.truncate lib"] entry_accepted [OF presentable_decodes(3) assms(4,5)] assms(1) by simp
qed


lemma index_report_effect:
  assumes "tx s = NoTx" "\<not> locked s" "ids_agree (committed s)" "re_analysis_id e = re_job_id e"
  obtains i d' s' where "index_report lib e p now s = (Inr (), s')"
    "upsert_report_document (lib_lower (rl_py lib)) e (index_body p) now (committed s) = (Inr i, d')"
    "committed s' = d'"
proof -
  obtain i d' where u: "upsert_report_document (lib_lower (rl_py lib)) e (index_body p) now (committed s) = (Inr i, d')"
    using upsert_succeeds [OF assms(3,4)] by blast
  have "ensure_immediate_transaction s = (Inr (), emit_begin Immediate s)"
    using assms(1,2) by (simp add: ensure_immediate_transaction_def begin_immediate_def)
  then have "index_report lib e p now s = (Inr (), restore_deferred (commit_tx (write_db d' (emit_begin Immediate s))))"
    using u by (simp add: index_report_def in_write_def immediate_write_transaction_def emit_begin_def)
  with u that show ?thesis by (simp add: restore_deferred_def exit_defs)
qed

section \<open>What is published\<close>

text \<open>The name of a report, and the draws and the digest it needs.\<close>

definition name_of_report :: "('dt, 'z) rescan_lib_scheme \<Rightarrow> job \<Rightarrow> 'dt report_doc \<Rightarrow> string" where
  "name_of_report lib job d =
     ident (report_filename (dc_title d) (text_of (j_job_id job)) (rl_sha256 lib (report_bytes lib d)))"

text \<open>
  A job id is the UTF-8 text of one part of a path and the id of its report; the digest is
  one of SHA-256, and no other bytes have it; the names drawn are new.
\<close>

definition publishable ::
  "('dt, 'z) rescan_lib_scheme \<Rightarrow> ('dt, 'y) stage_world_scheme \<Rightarrow> job \<Rightarrow> 'dt report_doc \<Rightarrow> store \<Rightarrow> bool" where
  "publishable lib w job d st \<longleftrightarrow>
     dc_analysis_id d = text_of (j_job_id job) \<and> ident (text_of (j_job_id job)) = j_job_id job \<and>
     47 \<notin> set (text_of (j_job_id job)) \<and> hex_digest (rl_sha256 lib (report_bytes lib d)) \<and>
     (\<forall>bs. rl_sha256 lib bs = rl_sha256 lib (report_bytes lib d) \<longrightarrow> bs = report_bytes lib d) \<and>
     fresh_draws (sw_uuids w) (sr_root st @ [codes (name_of_report lib job d)]) st \<and>
     sr_unreadable st = (\<lambda>_. None)"

lemma report_name_plain:
  assumes "presentable lib d" "publishable lib w job d st"
  shows "plain_name (codes (name_of_report lib job d))"
proof -
  let ?h = "rl_sha256 lib (report_bytes lib d)"
  let ?n = "report_filename (dc_title d) (text_of (j_job_id job)) ?h"
  have h: "list_all (\<lambda>c. c \<in> set ''0123456789abcdef'') ?h"
    using assms(2) by (simp add: publishable_def hex_digest_def)
  have hex: "of_char c < (128 :: nat) \<and> c \<noteq> CHR ''/''" if "c \<in> set ?h" for c :: char
  proof -
    have "c \<in> set ''0123456789abcdef''" using h that unfolding list_all_iff by blast
    then show ?thesis by auto
  qed
  have t: "scalar c" if "c \<in> set (dc_title d) \<or> c \<in> set (text_of (j_job_id job)) \<or> c \<in> set (codes ''analysis-.md'')" for c
  proof -
    have "list_all scalar (dc_title d)" "list_all scalar (text_of (j_job_id job))"
      using assms by (auto simp: presentable_def publishable_def writable_doc_def writable_scalar)
    moreover have "list_all scalar (codes ''analysis-.md'')" by (simp add: codes_def scalar_def)
    ultimately show ?thesis using that unfolding list_all_iff by blast
  qed
  have digest: "scalar c" if "c \<in> set (codes (take 8 ?h))" for c
  proof -
    from that obtain x where "x \<in> set ?h" "c = of_char x" by (auto simp: codes_def dest: in_set_takeD)
    with hex [of x] show ?thesis by (simp add: scalar_def)
  qed
  have rest: "scalar 45" "list_all scalar (codes ''.md'')" by (simp_all add: codes_def scalar_def)
  obtain u where u: "?n = u @ [45] @ codes (take 8 ?h) @ codes ''.md''"
    "set u \<subseteq> set (safe_filename (dc_title d) (text_of (j_job_id job)))"
    using report_filename_end by blast
  have name: "scalar c" if "c \<in> set u" for c
    using safe_filename_set [OF subsetD [OF u(2) that]] t by blast
  have "list_all scalar ?n"
    unfolding u(1) list_all_append using name digest rest by (simp add: list_all_iff)
  moreover have "CHR ''/'' \<notin> set ?h" using hex by blast
  ultimately show ?thesis
    using assms(2) report_filename_plain by (simp add: name_of_report_def publishable_def)
qed

lemma published:
  assumes "presentable lib d" "publishable lib w job d (ss_reports st)"
    and "publish_report lib w job d st = (Inr out, st1)" "so_artifact out = Some a"
  obtains n where "ar_relative_path a = Some n" "ar_content_hash a = Some (rl_sha256 lib (report_bytes lib d))"
    "ar_byte_size a = Some (int (length (report_bytes lib d)))" "n \<noteq> []"
    "read_report_verified (rl_sha256 lib) (ss_reports st1) n (rl_sha256 lib (report_bytes lib d)) = Inr (report_bytes lib d)"
proof -
  let ?c = "report_bytes lib d" and ?n = "name_of_report lib job d"
  obtain previous st2 where p: "in_session (get_artifact (j_job_id job) REPORT_ARTIFACT_TYPE
      (stage_fingerprint lib (j_url job))) st = (previous, st2)" by fastforce
  then have r2: "ss_reports st2 = ss_reports st" by (auto simp: in_session_def split: prod.splits)
  obtain res fs where w: "write_report (rl_sha256 lib) (sw_uuids w) ?n ?c (Option.bind previous a_content_hash)
      (ss_reports st) = (res, fs)" by fastforce
  let ?out = "case res of Inr x \<Rightarrow> Inr (success INDEXING None (Some (file_artifact ''generating_report''
        REPORT_ARTIFACT_TYPE (stage_fingerprint lib (j_url job)) (rw_path x) (rw_content_hash x) (int (length ?c)))) None)
      | Inl (ReportConflictError name) \<Rightarrow>
          Inr (fatal ''REPORT_CONFLICT'' (Some (sl_message lib (ReportConflictError name))) None)
      | Inl e \<Rightarrow> Inl e"
  have "publish_report lib w job d st = (?out, st2\<lparr>ss_reports := fs\<rparr>)"
    unfolding publish_report_def Let_def p prod.case r2 report_bytes_def
      w [unfolded name_of_report_def report_bytes_def] by (rule refl)
  with assms(3) have run: "?out = Inr out" "ss_reports st1 = fs" by auto
  have "\<exists>x. res = Inr x"
    using run(1) assms(4) by (auto simp: fatal_def no_outcome_def split: sum.splits exn.splits)
  then obtain x where x: "res = Inr x" by blast
  then have a: "a = file_artifact ''generating_report'' REPORT_ARTIFACT_TYPE (stage_fingerprint lib (j_url job))
      (rw_path x) (rw_content_hash x) (int (length ?c))"
    using run(1) assms(4) by (auto simp: success_def)
  note eff = write_report_effect [OF report_name_plain [OF assms(1,2)] _ w]
  have f: "fresh_draws (sw_uuids w) (sr_root (ss_reports st) @ [codes ?n]) (ss_reports st)"
    "sr_unreadable (ss_reports st) = (\<lambda>_. None)"
    using assms(2) by (simp_all add: publishable_def)
  have e: "rw_content_hash x = rl_sha256 lib ?c" "plain_name (codes (rw_path x))"
    "\<exists>bs. sr_files fs (sr_root (ss_reports st) @ [codes (rw_path x)]) = Some bs \<and> rl_sha256 lib bs = rl_sha256 lib ?c"
    using eff(2) [OF f(1)] by (simp_all add: x)
  then have "sr_files fs (sr_root (ss_reports st) @ [codes (rw_path x)]) = Some ?c"
    using assms(2) by (auto simp: publishable_def)
  then have "read_report_verified (rl_sha256 lib) (ss_reports st1) (rw_path x) (rl_sha256 lib ?c) = Inr ?c"
    using eff(3,4) [OF f(1)] f(2) run(2)
    by (simp add: read_report_verified_def resolve_inside_plain [OF e(2)] read_bytes_def)
  moreover have "rw_path x \<noteq> []" using e(2) by (auto simp: plain_name_def codes_def)
  ultimately show ?thesis using that a e(1) by (simp add: file_artifact_def)
qed


section \<open>What is indexed\<close>

text \<open>The artifact \<open>a\<close> of the report stage is the one the database holds for the job.\<close>

definition handed_on :: "('dt, 'z) rescan_lib_scheme \<Rightarrow> job \<Rightarrow> artifact_record \<Rightarrow> database \<Rightarrow> bool" where
  "handed_on lib job a d \<longleftrightarrow>
     (case find_artifact (j_job_id job) REPORT_ARTIFACT_TYPE (stage_fingerprint lib (j_url job)) d of
        None \<Rightarrow> False
      | Some row \<Rightarrow> a_relative_path row = ar_relative_path a \<and> a_content_hash row = ar_content_hash a \<and>
          a_byte_size row = ar_byte_size a)"

definition shows_report :: "'dt report_doc \<Rightarrow> artifact_record \<Rightarrow> report_document \<Rightarrow> bool" where
  "shows_report d a doc \<longleftrightarrow>
     rd_doc_status doc = ''active'' \<and> rd_title doc = dc_title d \<and> rd_platform doc = dc_platform d \<and>
     rd_source_url doc = dc_source_url d \<and> rd_tags doc = dc_tags d \<and>
     rd_summary_preview doc = take 200 (dc_core_summary d) \<and>
     Some (rd_relative_path doc) = ar_relative_path a \<and> Some (rd_content_hash doc) = ar_content_hash a"

text \<open>The session between the read of the artifact and the write of the index.\<close>

lemma index_session:
  assumes "idle (ss_session st)"
    and "in_session (get_artifact k ty fp) (let_others w 0 st) = (a, st1)"
  shows "a = find_artifact k ty fp (sw_others w 0 (committed (ss_session st)))"
    and "ss_reports st1 = ss_reports st"
    and "tx (ss_session (let_others w 1 (commit_stage st1))) = NoTx"
      "\<not> locked (ss_session (let_others w 1 (commit_stage st1)))"
      "committed (ss_session (let_others w 1 (commit_stage st1))) =
         sw_others w 1 (sw_others w 0 (committed (ss_session st)))"
  using assms
  by (auto simp: in_session_def get_artifact_def Let_def let_others_def interfere_def commit_stage_def
      idle_def autobegin_def emit_begin_def commit_tx_def)

lemma report_indexed:
  assumes "presentable lib d" "publishable lib w job d (ss_reports st)"
    and "publish_report lib w job d st = (Inr out, st1)" "so_artifact out = Some a"
    and "ss_reports st2 = ss_reports st1" "idle (ss_session st2)"
    and "handed_on lib job a (sw_others v 0 (committed (ss_session st2)))"
    and "index_wf (lib_lower (rl_py lib)) (sw_others v 1 (sw_others v 0 (committed (ss_session st2))))"
    and "ids_agree (sw_others v 1 (sw_others v 0 (committed (ss_session st2))))"
  shows "\<exists>st3 doc. indexing lib v job st2 = (Inr (success COMPLETED None None None), st3) \<and>
    find_document (j_job_id job) (committed (ss_session st3)) = Some doc \<and> shows_report d a doc \<and>
    index_wf (lib_lower (rl_py lib)) (committed (ss_session st3))"
proof -
  let ?c = "report_bytes lib d" and ?lower = "lib_lower (rl_py lib)"
  let ?h = "rl_sha256 lib ?c"
  let ?d1 = "sw_others v 1 (sw_others v 0 (committed (ss_session st2)))"
  obtain n where n: "ar_relative_path a = Some n" "ar_content_hash a = Some ?h"
    "ar_byte_size a = Some (int (length ?c))" "n \<noteq> []"
    "read_report_verified (rl_sha256 lib) (ss_reports st1) n ?h = Inr ?c"
    by (rule published [OF assms(1-4)])
  obtain x st3 where x: "in_session (get_artifact (j_job_id job) REPORT_ARTIFACT_TYPE
      (stage_fingerprint lib (j_url job))) (let_others v 0 st2) = (x, st3)" by fastforce
  note ses = index_session [OF assms(6) x]
  from assms(7) obtain row where row: "x = Some row" "a_relative_path row = Some n"
    "a_content_hash row = Some ?h" "a_byte_size row = Some (int (length ?c))"
    using n by (auto simp: handed_on_def ses(1) split: option.splits)
  let ?e = "pipeline_entry lib job n ?h (Some (int (length ?c))) (report_of d)"
  let ?st4 = "let_others v 1 (commit_stage st3)"
  note dec = presentable_decodes [OF assms(1)]
  have ids: "dc_analysis_id d = text_of (j_job_id job)" "ident (text_of (j_job_id job)) = j_job_id job" "hex_digest ?h"
    using assms(2) by (simp_all add: publishable_def)
  have ok: "check_entry ?lower ?e = Inr ()" by (rule pipeline_entry_accepted [OF assms(1) ids(1,2) n(4) ids(3)])
  have agree: "ids_agree (committed (ss_session ?st4))" using assms(9) ses(5) by simp
  have same: "re_analysis_id ?e = re_job_id ?e" using ids(1,2) by (simp add: pipeline_entry_def report_of_def)
  obtain i d' s' where u: "index_report lib ?e (report_of d) (sw_now v 1) (ss_session ?st4) = (Inr (), s')"
    "upsert_report_document ?lower ?e (index_body (report_of d)) (sw_now v 1) (committed (ss_session ?st4)) = (Inr i, d')"
    "committed s' = d'"
    by (rule index_report_effect [OF ses(3,4) agree same])
  have "index_file lib v job n ?h (Some (int (length ?c))) (render_markdown (rl_py lib) d) st3 =
      (Inr (success COMPLETED None None None), ?st4\<lparr>ss_session := s'\<rparr>)"
    using dec(1) ok u(1) by (simp add: index_file_def report_bytes_def in_session_def)
  moreover have "indexing lib v job st2 =
      index_file lib v job n ?h (Some (int (length ?c))) (render_markdown (rl_py lib) d) st3"
    using n(5) dec(2) row assms(5) ses(2) by (simp add: indexing_def x)
  moreover have wf: "index_wf ?lower (committed (ss_session ?st4))" using assms(8) ses(5) by simp
  moreover have "index_wf ?lower d'" by (rule upsert_wf [OF wf u(2)])
  moreover have "\<exists>doc. find_document (j_job_id job) d' = Some doc \<and> shows_report d a doc"
    using find_after_upsert [OF _ u(2), of "j_job_id job"] wf n(1,2)
    by (auto simp: index_wf_def pipeline_entry_def shows_report_def new_document_def refresh_document_def
        report_of_def split: option.splits)
  ultimately show ?thesis using u(3) by auto
qed

text \<open>
  C12. The report a job writes is the report its job indexes. A document that can be read back
  is published under a name of its own; when the next stage runs on the same directory, on any
  well-formed index and whatever others commit around it, it completes, and the index shows an
  active document of the job with the title, the URL, the tags and the summary of that document,
  under the path and the hash of the artifact.
\<close>
theorem generated_report_is_indexed:
  assumes "presentable lib d" "publishable lib w job d (ss_reports st)"
    and "publish_report lib w job d st = (Inr out, st1)" "so_artifact out = Some a"
    and "ss_reports st2 = ss_reports st1" "idle (ss_session st2)"
    and "handed_on lib job a (sw_others v 0 (committed (ss_session st2)))"
    and "index_wf (lib_lower (rl_py lib)) (sw_others v 1 (sw_others v 0 (committed (ss_session st2))))"
    and "ids_agree (sw_others v 1 (sw_others v 0 (committed (ss_session st2))))"
  shows "\<exists>st3 doc. indexing lib v job st2 = (Inr (success COMPLETED None None None), st3) \<and>
    find_document (j_job_id job) (committed (ss_session st3)) = Some doc \<and> shows_report d a doc \<and>
    index_wf (lib_lower (rl_py lib)) (committed (ss_session st3))"
  using assms by (rule report_indexed)


text \<open>A digest that tells one report from everything else.\<close>

definition one_report_lib :: "unit stage_lib" where
  "one_report_lib = sample_stage_lib
     \<lparr>rl_sha256 := \<lambda>bs. replicate 64 (if bs = utf8_encode (render_markdown sample_lib sample_doc) then CHR ''a'' else CHR ''0'')\<rparr>"

definition report_job :: job where
  "report_job = sample_job ''j1'' INDEXING None None"

definition report_row :: job_artifact where
  "report_row =
     \<lparr>a_id = 1, a_job_id = ''j1'', a_stage = ''generating_report'', a_artifact_type = REPORT_ARTIFACT_TYPE,
      a_input_fingerprint = stage_fingerprint one_report_lib (j_url report_job), a_schema_version = 1,
      a_storage_kind = ''file'', a_payload_json = None,
      a_relative_path = Some (name_of_report one_report_lib report_job sample_doc),
      a_content_hash = Some (replicate 64 CHR ''a''),
      a_byte_size = Some (int (length (report_bytes one_report_lib sample_doc))), a_created_at = 1, a_updated_at = 1\<rparr>"

lemma one_report_simps [simp]:
  "rl_py one_report_lib = sample_lib" "rl_timestamp one_report_lib t = 7"
  "rl_sha256 one_report_lib (report_bytes one_report_lib sample_doc) = replicate 64 CHR ''a''"
  "rl_sha256 one_report_lib bs = replicate 64 CHR ''a'' \<longleftrightarrow> bs = report_bytes one_report_lib sample_doc"
  by (simp_all add: one_report_lib_def sample_stage_lib_def report_bytes_def)

lemma one_report_presentable: "presentable one_report_lib sample_doc"
  using sample_facts by (simp add: presentable_def dated_def sample_doc_fields positive_def)

lemma one_report_publishable: "publishable one_report_lib sample_world report_job sample_doc sample_store"
proof -
  have "text_of ''j1'' = codes ''j1''"
    using text_of_ident [of "codes ''j1''"] ident_ascii [of "''j1''"] by (simp add: codes_def scalar_def)
  moreover have "ident (codes ''j1'') = ''j1''" by (rule ident_ascii) simp
  moreover have "hex_digest (replicate 64 CHR ''a'')" by (simp add: hex_digest_def list_all_iff)
  moreover have "dc_analysis_id sample_doc = codes ''j1''" "47 \<notin> set (codes ''j1'')"
    by (simp_all add: sample_doc_def codes_def)
  ultimately show ?thesis
    by (simp add: publishable_def report_job_def fresh_draws_def sample_world_def sample_store_def)
qed


theorem generated_report_is_indexed_witness:
  "\<exists>st1 out a. publish_report one_report_lib sample_world report_job sample_doc (sample_state empty_database) =
      (Inr out, st1) \<and> so_artifact out = Some a \<and>
    (\<exists>st3 doc. indexing one_report_lib sample_world report_job
        (st1\<lparr>ss_session := open_session (empty_database\<lparr>artifacts := [report_row]\<rparr>)\<rparr>) =
        (Inr (success COMPLETED None None None), st3) \<and>
      find_document ''j1'' (committed (ss_session st3)) = Some doc \<and> shows_report sample_doc a doc)"
proof -
  let ?lib = one_report_lib and ?d = "empty_database\<lparr>artifacts := [report_row]\<rparr>"
  let ?n = "name_of_report one_report_lib report_job sample_doc" and ?c = "report_bytes one_report_lib sample_doc"
  have p: "publishable ?lib sample_world report_job sample_doc (ss_reports (sample_state empty_database))"
    using one_report_publishable by (simp add: sample_state_def)
  note plain = report_name_plain [OF one_report_presentable one_report_publishable]
  define x where "x = \<lparr>rw_path = ?n, rw_content_hash = replicate 64 CHR ''a'', rw_conflict = False\<rparr>"
  obtain fs where "write_report (rl_sha256 ?lib) (sw_uuids sample_world) ?n ?c h (sample_store) = (Inr x, fs)" for h
    using resolve_inside_plain [OF plain, of "''report''" sample_store] relative_name_plain [of sample_store ?n]
    by (simp add: write_report_def put_report_def replace_file_def sample_store_def x_def)
  then have run: "publish_report ?lib sample_world report_job sample_doc (sample_state empty_database) =
      (Inr (success INDEXING None (Some (file_artifact ''generating_report'' REPORT_ARTIFACT_TYPE
         (stage_fingerprint ?lib (j_url report_job)) ?n (replicate 64 CHR ''a'') (int (length ?c)))) None),
       snd (publish_report ?lib sample_world report_job sample_doc (sample_state empty_database)))"
    by (simp add: publish_report_def Let_def in_session_def sample_state_def name_of_report_def report_bytes_def x_def
        split: prod.split)
  let ?st1 = "snd (publish_report ?lib sample_world report_job sample_doc (sample_state empty_database))"
  let ?st2 = "?st1\<lparr>ss_session := open_session ?d\<rparr>"
  have o: "sw_others sample_world k d = d" for k d by (simp add: sample_world_def)
  have handed: "handed_on ?lib report_job (file_artifact ''generating_report'' REPORT_ARTIFACT_TYPE
         (stage_fingerprint ?lib (j_url report_job)) ?n (replicate 64 CHR ''a'') (int (length ?c))) ?d"
    by (simp add: handed_on_def find_artifact_def report_row_def report_job_def file_artifact_def)
  have wf: "index_wf lower ?d" for lower
    by (simp add: index_wf_def documents_wf_def fts_paired_def empty_database_def)
  have agree: "ids_agree ?d" by (simp add: ids_agree_def empty_database_def)
  from generated_report_is_indexed [OF one_report_presentable p run _ _ _, of _ ?st2 sample_world] handed wf agree o
  show ?thesis
    by (subst run) (auto simp: success_def no_outcome_def report_job_def)
qed

end
