(* ===== verification/Manifests.thy ===== *)
theory Manifests
  imports Platforms FtsText JsonText
begin

text \<open>
  The contract of a downloadable model: \<open>asr/manifest.py\<close> and the approved sources of
  \<open>asr/catalog.py\<close>. The records are the validated, frozen objects: a validator that rewrites
  its value is the condition that the value is its own result. File names and URLs are texts;
  \<open>sha256\<close> is an argument. Reading a manifest from a JSON file is not modelled; the built-in
  ones are in \<open>ModelCatalog\<close>.
\<close>

record approved_source =
  ap_url :: utext
  ap_kind :: string
  ap_sha256 :: string
  ap_size_bytes :: int

record download_source =
  ds_url :: utext
  ds_kind :: string
  ds_sha256 :: string
  ds_size_bytes :: int

record model_file =
  mf_name :: utext
  mf_source_path :: "utext option"
  mf_size_bytes :: int
  mf_sha256 :: string

record model_manifest =
  mm_model_id :: string
  mm_version :: string
  mm_provider :: string
  mm_languages :: "string list"
  mm_platforms :: "string list"
  mm_compressed_size_bytes :: int
  mm_installed_size_bytes :: int
  mm_license :: string
  mm_attribution :: string
  mm_upstream_url :: string
  mm_redistribution :: string
  mm_archive_format :: string
  mm_sources :: "download_source list"
  mm_files :: "model_file list"

section \<open>Patterns\<close>

text \<open>\<open>$\<close> matches at the end and before a newline that ends the text.\<close>

definition before_newline :: "utext \<Rightarrow> utext" where
  "before_newline t = (if t \<noteq> [] \<and> last t = 10 then butlast t else t)"

definition slug_char :: "nat \<Rightarrow> bool" where
  "slug_char c \<longleftrightarrow> is_alpha c \<or> is_digit c \<or> c = 46 \<or> c = 95 \<or> c = 45"

definition slug :: "utext \<Rightarrow> bool" where
  "slug t =
     (case before_newline t of
        [] \<Rightarrow> False
      | c # cs \<Rightarrow> (is_alpha c \<or> is_digit c) \<and> list_all slug_char cs)"

definition sha256_text :: "string \<Rightarrow> bool" where
  "sha256_text s =
     (length (before_newline (codes s)) = 64 \<and>
      list_all (\<lambda>c. is_digit c \<or> 97 \<le> c \<and> c \<le> 102) (before_newline (codes s)))"

text \<open>\<open>value.replace("\\", "/")\<close>\<close>

definition forward_slashes :: "utext \<Rightarrow> utext" where
  "forward_slashes t = map (\<lambda>c. if c = 92 then 47 else c) t"

definition validate_relative_path :: "utext \<Rightarrow> utext option" where
  "validate_relative_path value =
     (let normalized = forward_slashes value;
          parts = split_on 47 normalized
      in if take 1 normalized = [47] \<or> length parts > 8 \<or>
            list_ex (\<lambda>part. part = [] \<or> part = codes ''.'' \<or> part = codes ''..'' \<or> \<not> slug part) parts
         then None else Some normalized)"

section \<open>Validation\<close>

definition KNOWN_PLATFORMS :: "string list" where
  "KNOWN_PLATFORMS =
     [''windows-x86_64'', ''windows-arm64'', ''macos-x86_64'', ''macos-arm64'', ''linux-x86_64'', ''linux-arm64'']"

text \<open>\<open>urlsplit(value).scheme != "https"\<close>; the scheme ends before anything that could raise.\<close>

definition source_ok :: "download_source \<Rightarrow> bool" where
  "source_ok s \<longleftrightarrow>
     ds_url s \<noteq> [] \<and> ds_kind s \<in> {''china-primary'', ''upstream'', ''cdn''} \<and> sha256_text (ds_sha256 s) \<and>
     0 < ds_size_bytes s \<and>
     fst (split_scheme (filter (\<lambda>c. c \<notin> {9, 10, 13}) (dropWhile (\<lambda>c. c \<le> 32) (ds_url s)))) = codes ''https''"

definition file_ok :: "model_file \<Rightarrow> bool" where
  "file_ok f \<longleftrightarrow>
     validate_relative_path (mf_name f) = Some (mf_name f) \<and> 0 < mf_size_bytes f \<and> sha256_text (mf_sha256 f) \<and>
     (case mf_source_path f of None \<Rightarrow> True | Some p \<Rightarrow> validate_relative_path p = Some p)"

definition id_slug :: "string \<Rightarrow> bool" where
  "id_slug value \<longleftrightarrow>
     \<not> sublist ''..'' value \<and> CHR ''/'' \<notin> set value \<and> CHR 92 \<notin> set value \<and> slug (codes value)"

definition file_set_fingerprint :: "(nat list \<Rightarrow> string) \<Rightarrow> model_file list \<Rightarrow> string" where
  "file_set_fingerprint sha256 files =
     sha256 (concat (map (\<lambda>f. utf8_encode
       (mf_name f @ [0] @ (case mf_source_path f of None \<Rightarrow> [] | Some p \<Rightarrow> p) @ [0] @
        int_text (mf_size_bytes f) @ [0] @ codes (mf_sha256 f) @ [10])) files))"

text \<open>\<open>_validate_artifact_consistency\<close>, in the order of its checks.\<close>

definition artifact_consistent :: "(nat list \<Rightarrow> string) \<Rightarrow> model_manifest \<Rightarrow> bool" where
  "artifact_consistent sha256 m \<longleftrightarrow>
     list_all (\<lambda>s. ds_size_bytes s = mm_compressed_size_bytes m) (mm_sources m) \<and>
     length (remdups (map ds_sha256 (mm_sources m))) = 1 \<and>
     sum_list (map mf_size_bytes (mm_files m)) = mm_installed_size_bytes m \<and>
     distinct (map mf_name (mm_files m)) \<and>
     (if mm_archive_format m = ''file-set'' then
        list_all (\<lambda>f. mf_source_path f \<noteq> None) (mm_files m) \<and>
        mm_compressed_size_bytes m = mm_installed_size_bytes m \<and>
        list_all (\<lambda>s. ds_sha256 s = file_set_fingerprint sha256 (mm_files m)) (mm_sources m)
      else list_all (\<lambda>f. mf_source_path f = None) (mm_files m)) \<and>
     (mm_redistribution m = ''upstream_only'' \<longrightarrow> list_all (\<lambda>s. ds_kind s = ''upstream'') (mm_sources m))"

definition manifest_ok :: "(nat list \<Rightarrow> string) \<Rightarrow> model_manifest \<Rightarrow> bool" where
  "manifest_ok sha256 m \<longleftrightarrow>
     id_slug (mm_model_id m) \<and> id_slug (mm_version m) \<and>
     mm_provider m \<noteq> [] \<and> mm_languages m \<noteq> [] \<and> mm_platforms m \<noteq> [] \<and>
     list_all (\<lambda>p. p \<in> set KNOWN_PLATFORMS) (mm_platforms m) \<and>
     0 < mm_compressed_size_bytes m \<and> 0 < mm_installed_size_bytes m \<and>
     mm_license m \<noteq> [] \<and> mm_attribution m \<noteq> [] \<and> mm_upstream_url m \<noteq> [] \<and>
     mm_redistribution m \<in> {''upstream_only'', ''mirror_approved'', ''blocked''} \<and>
     mm_archive_format m \<in> {''tar.bz2'', ''tar.gz'', ''zip'', ''raw'', ''file-set''} \<and>
     mm_sources m \<noteq> [] \<and> list_all source_ok (mm_sources m) \<and>
     mm_files m \<noteq> [] \<and> list_all file_ok (mm_files m) \<and> artifact_consistent sha256 m"

section \<open>Approval\<close>

definition approved_of :: "download_source \<Rightarrow> approved_source" where
  "approved_of s =
     \<lparr>ap_url = ds_url s, ap_kind = ds_kind s, ap_sha256 = ds_sha256 s, ap_size_bytes = ds_size_bytes s\<rparr>"

definition APPROVED_CATALOG :: "((string \<times> string) \<times> approved_source list) list" where
  "APPROVED_CATALOG =
     [((''qwen3-asr-0.6b-int8'', ''2026-03-25''),
       [\<lparr>ap_url = codes (''https://modelscope.cn/models/zengshuishui/'' @
           ''Qwen3-ASR-onnx/resolve/'' @ ''9c182309f7bb075f241424441add9e16c5086dfb''),
         ap_kind = ''china-primary'',
         ap_sha256 = ''ae2850217177b453be842cc12fd1bbde0e2fb93c369ff877e71e92e03aa6b8ac'',
         ap_size_bytes = 987023031\<rparr>]),
      ((''sensevoice-small-int8'', ''2024-07-17''),
       [\<lparr>ap_url = codes (''https://github.com/k2-fsa/sherpa-onnx/releases/download/asr-models/'' @
           ''sherpa-onnx-sense-voice-zh-en-ja-ko-yue-int8-2024-07-17.tar.bz2''),
         ap_kind = ''upstream'',
         ap_sha256 = ''7d1efa2138a65b0b488df37f8b89e3d91a60676e416f515b952358d83dfd347e'',
         ap_size_bytes = 163002883\<rparr>]),
      ((''zipformer-ctc-small-zh-int8'', ''2025-07-16''),
       [\<lparr>ap_url = codes (''https://github.com/k2-fsa/sherpa-onnx/releases/download/asr-models/'' @
           ''sherpa-onnx-zipformer-ctc-small-zh-int8-2025-07-16.tar.bz2''),
         ap_kind = ''upstream'',
         ap_sha256 = ''6a71c0cc442ba85ac1455ca23e4561e2a1ef18e55269a184a649d54e9cd0524c'',
         ap_size_bytes = 50536402\<rparr>]),
      ((''whisper-cpp-base'', ''80da2d8''),
       [\<lparr>ap_url = codes (''https://huggingface.co/ggerganov/whisper.cpp/resolve/'' @
           ''80da2d8bfee42b0e836fc3a9890373e5defc00a6/ggml-base.bin''),
         ap_kind = ''upstream'',
         ap_sha256 = ''60ed5bc3dd14eea856493d334349b405782ddcaf0028d4b5df4088345fba2efe'',
         ap_size_bytes = 147951465\<rparr>])]"

definition is_releasable :: "model_manifest \<Rightarrow> bool" where
  "is_releasable m =
     (mm_redistribution m \<noteq> ''blocked'' \<and>
      (case map_of APPROVED_CATALOG (mm_model_id m, mm_version m) of
         None \<Rightarrow> False
       | Some approved \<Rightarrow> list_all (\<lambda>s. approved_of s \<in> set approved) (mm_sources m)))"

section \<open>Safe names\<close>

text \<open>The parts of a declared name stay below the directory they are joined to.\<close>

definition safe_parts :: "utext list \<Rightarrow> bool" where
  "safe_parts ps \<longleftrightarrow> ps \<noteq> [] \<and> list_all (\<lambda>p. p \<noteq> [] \<and> p \<noteq> codes ''.'' \<and> p \<noteq> codes ''..'' \<and> 47 \<notin> set p) ps"

lemma split_on_parts: "p \<in> set (split_on c t) \<Longrightarrow> c \<notin> set p"
  by (induction t arbitrary: p) (auto split: if_splits list.splits)

lemma split_on_nonempty [simp]: "split_on c t \<noteq> []"
  by (induction t) (auto split: list.split)

lemma validated_safe:
  assumes "validate_relative_path t = Some p"
  shows "safe_parts (split_on 47 p)"
  using assms by (auto simp: validate_relative_path_def Let_def safe_parts_def list_all_iff list_ex_iff
      dest: split_on_parts split: if_splits)

lemma manifest_files:
  assumes "manifest_ok sha256 m" "f \<in> set (mm_files m)"
  shows "file_ok f" "safe_parts (split_on 47 (mf_name f))" "0 < mf_size_bytes f"
  using assms validated_safe [of "mf_name f" "mf_name f"] by (auto simp: manifest_ok_def file_ok_def list_all_iff)

end
