(* ===== verification/Archives.thy ===== *)
theory Archives
  imports Manifests "HOL-Library.Word" "HOL-Library.AList" "HOL-Library.List_Lexorder"
begin

text \<open>
  Unpacking a downloaded model: the archive half of \<open>asr/model_manager.py\<close>. An archive is its
  bytes; what \<open>tarfile\<close> and \<open>zipfile\<close> read from them and \<open>sha256\<close> are arguments
  (\<open>archive_lib\<close>), so that the lemmas hold for every archive a reader can present. A directory
  is the list of its files by relative name. Every operation returns its effect with the
  exception that ended it, if any, so that what a failed extraction has written is visible; a
  member that cannot be opened is a stream that fails at once. The names of an \<open>ArchiveError\<close>
  are left out of its message.
\<close>

section \<open>Errors and readers\<close>

datatype install_error =
    DownloadError string
  | ArchiveError string
  | HTTPError
  | FileExists
  | Cancelled
  | Unexpected exn

type_synonym dir = "(utext \<times> nat list) list"

text \<open>The results of \<open>read(_CHUNK)\<close>, and the exception after them.\<close>

record byte_stream =
  bs_chunks :: "nat list list"
  bs_fault :: "install_error option"

datatype member_kind = LinkMember | SpecialMember | DirMember | FileMember | UnknownMember

record tar_member =
  tm_name :: utext
  tm_kind :: member_kind
  tm_size :: int
  tm_stream :: "byte_stream option"

record zip_member =
  zm_filename :: utext
  zm_external_attr :: "32 word"
  zm_is_dir :: bool
  zm_file_size :: int
  zm_stream :: byte_stream

record archive_lib =
  al_sha256 :: "nat list \<Rightarrow> string"
  al_tar :: "nat list \<Rightarrow> tar_member list \<times> install_error option"
  al_zip :: "nat list \<Rightarrow> install_error + zip_member list"
  al_replace_fault :: "install_error option"

definition CHUNK :: nat where
  "CHUNK = 1024 * 1024"

definition MAX_ARCHIVE_MEMBERS :: nat where
  "MAX_ARCHIVE_MEMBERS = 1000"

definition MAX_ARCHIVE_DEPTH :: nat where
  "MAX_ARCHIVE_DEPTH = 8"

text \<open>\<open>iter(lambda: f.read(_CHUNK), b"")\<close> on a file.\<close>

fun read_chunks :: "nat \<Rightarrow> nat list \<Rightarrow> nat list list" where
  "read_chunks 0 c = []"
| "read_chunks (Suc n) c = (if c = [] then [] else take CHUNK c # read_chunks n (drop CHUNK c))"

definition file_stream :: "nat list \<Rightarrow> byte_stream" where
  "file_stream c = \<lparr>bs_chunks = read_chunks (length c) c, bs_fault = None\<rparr>"

section \<open>Names of members\<close>

definition absolute_or_drive :: "utext \<Rightarrow> bool" where
  "absolute_or_drive t \<longleftrightarrow> take 1 t = [47] \<or> (case t of a # b # _ \<Rightarrow> is_alpha a \<and> b = 58 | _ \<Rightarrow> False)"

definition reject_unsafe :: "utext \<Rightarrow> install_error option" where
  "reject_unsafe raw =
     (let normalized = forward_slashes raw in
      if absolute_or_drive normalized then Some (ArchiveError ''absolute path rejected'')
      else if codes ''..'' \<in> set (split_on 47 normalized) then Some (ArchiveError ''parent traversal rejected'')
      else None)"

fun check_parts :: "utext list \<Rightarrow> install_error option" where
  "check_parts [] = None"
| "check_parts (part # parts) =
     (if part = codes ''..'' then Some (ArchiveError ''parent traversal rejected'')
      else if part = [] \<or> part = codes ''.'' then Some (ArchiveError ''empty or dot path segment rejected'')
      else check_parts parts)"

definition join_slash :: "utext list \<Rightarrow> utext" where
  "join_slash ps = (case ps of [] \<Rightarrow> [] | p # qs \<Rightarrow> p @ concat (map (\<lambda>q. 47 # q) qs))"

definition member_target :: "utext \<Rightarrow> install_error + utext \<times> utext option" where
  "member_target raw =
     (let normalized = forward_slashes raw; parts = split_on 47 normalized in
      if absolute_or_drive normalized then Inl (ArchiveError ''absolute path rejected'')
      else
        (case check_parts parts of
           Some e \<Rightarrow> Inl e
         | None \<Rightarrow>
             if length parts > MAX_ARCHIVE_DEPTH then Inl (ArchiveError ''path nesting too deep'')
             else if length parts = 1 then Inr (hd parts, None)
             else Inr (join_slash (drop 1 parts), Some (hd parts))))"

section \<open>Copying one file\<close>

record extraction =
  ex_files :: dir
  ex_spent :: int
  ex_extracted :: "utext list"
  ex_root :: "utext option"
  ex_bare :: bool

definition new_extraction :: extraction where
  "new_extraction = \<lparr>ex_files = [], ex_spent = 0, ex_extracted = [], ex_root = None, ex_bare = False\<rparr>"

definition expected_files :: "model_manifest \<Rightarrow> (utext \<times> model_file) list" where
  "expected_files m = map (\<lambda>f. (mf_name f, f)) (rev (mm_files m))"

text \<open>The loop: bytes written so far, budget spent, and how it ends.\<close>

fun copy_chunks ::
  "int \<Rightarrow> int \<Rightarrow> nat list list \<Rightarrow> install_error option \<Rightarrow> nat list \<Rightarrow> int \<Rightarrow>
   nat list \<times> int \<times> install_error option" where
  "copy_chunks declared limit [] fault written spent = (written, spent, fault)"
| "copy_chunks declared limit (chunk # chunks) fault written spent =
     (if chunk = [] then (written, spent, None)
      else if int (length written) + int (length chunk) > declared
      then (written, spent, Some (ArchiveError ''size exceeds declared''))
      else if spent + int (length chunk) > limit
      then (written, spent + int (length chunk),
            Some (ArchiveError ''archive expands beyond the declared installed size''))
      else copy_chunks declared limit chunks fault (written @ chunk) (spent + int (length chunk)))"

text \<open>
  \<open>out_path.parent.mkdir\<close> where the parent is a file, or below a file, and \<open>open\<close> of a name that is
  a directory, with their POSIX errors.
\<close>

definition blocked_name :: "dir \<Rightarrow> utext \<Rightarrow> install_error option" where
  "blocked_name d name =
     (if join_slash (butlast (split_on 47 name)) \<in> fst ` set d then Some FileExists
      else if list_ex (\<lambda>(p, _). prefix (p @ [47]) name) d then Some (Unexpected (OSError 20 ''NotADirectoryError''))
      else if list_ex (\<lambda>(p, _). prefix (name @ [47]) p) d then Some (Unexpected (OSError 21 ''IsADirectoryError''))
      else None)"

definition stream_copy ::
  "(nat list \<Rightarrow> string) \<Rightarrow> int \<Rightarrow> (utext \<times> model_file) list \<Rightarrow> byte_stream \<Rightarrow> utext \<Rightarrow> extraction \<Rightarrow>
   extraction \<times> install_error option" where
  "stream_copy sha256 limit expected src name st =
     (case map_of expected name of
        None \<Rightarrow> (st, Some (Unexpected (KeyError [])))
      | Some declared \<Rightarrow>
          (case blocked_name (ex_files st) name of
             Some e \<Rightarrow> (st, Some e)
           | None \<Rightarrow>
            (case copy_chunks (mf_size_bytes declared) limit (bs_chunks src) (bs_fault src) [] (ex_spent st) of
               (written, spent, err) \<Rightarrow>
                 (st\<lparr>ex_files := AList.update name written (ex_files st), ex_spent := spent\<rparr>,
                  (case err of
                     Some e \<Rightarrow> Some e
                   | None \<Rightarrow>
                       if int (length written) \<noteq> mf_size_bytes declared then Some (ArchiveError ''size mismatch'')
                       else if sha256 written \<noteq> mf_sha256 declared then Some (ArchiveError ''sha256 mismatch'')
                       else None)))))"

definition mark_extracted :: "utext \<Rightarrow> extraction \<times> install_error option \<Rightarrow> extraction \<times> install_error option" where
  "mark_extracted name r =
     (case snd r of
        Some e \<Rightarrow> r
      | None \<Rightarrow> ((fst r)\<lparr>ex_extracted := ex_extracted (fst r) @ [name]\<rparr>, None))"

section \<open>Registering a member\<close>

definition check_root :: "utext option \<Rightarrow> extraction \<Rightarrow> install_error + extraction" where
  "check_root member_root st =
     (case member_root of
        None \<Rightarrow>
          if ex_root st \<noteq> None then Inl (ArchiveError ''archive mixes bare files with a root directory'')
          else Inr (st\<lparr>ex_bare := True\<rparr>)
      | Some r \<Rightarrow>
          if ex_bare st then Inl (ArchiveError ''archive mixes bare files with a root directory'')
          else
            (case ex_root st of
               None \<Rightarrow> Inr (st\<lparr>ex_root := Some r\<rparr>)
             | Some r' \<Rightarrow>
                 if r' = r then Inr st else Inl (ArchiveError ''archive uses multiple root directories'')))"

definition register ::
  "(utext \<times> model_file) list \<Rightarrow> utext \<Rightarrow> utext option \<Rightarrow> extraction \<Rightarrow> install_error + extraction" where
  "register expected name member_root st =
     (if map_of expected name = None then Inl (ArchiveError ''undeclared file in archive'')
      else if name \<in> set (ex_extracted st) then Inl (ArchiveError ''duplicate member'')
      else check_root member_root st)"

text \<open>
  The part both readers share, for a member that is a file: its target, the registration, the
  size it announces, and the copy (none for a member \<open>extractfile\<close> has no data for).
\<close>

definition extract_file ::
  "(nat list \<Rightarrow> string) \<Rightarrow> int \<Rightarrow> (utext \<times> model_file) list \<Rightarrow> utext \<Rightarrow> int \<Rightarrow> byte_stream option \<Rightarrow>
   extraction \<Rightarrow> extraction \<times> install_error option" where
  "extract_file sha256 limit expected raw announced src st =
     (case member_target raw of
        Inl e \<Rightarrow> (st, Some e)
      | Inr (name, member_root) \<Rightarrow>
          (case register expected name member_root st of
             Inl e \<Rightarrow> (st, Some e)
           | Inr st \<Rightarrow>
               if list_ex (\<lambda>f. announced > mf_size_bytes f) (case map_of expected name of None \<Rightarrow> [] | Some f \<Rightarrow> [f])
               then (st, Some (ArchiveError ''declared size exceeds the manifest''))
               else
                 (case src of
                    None \<Rightarrow> (st, None)
                  | Some src \<Rightarrow> mark_extracted name (stream_copy sha256 limit expected src name st))))"

definition tar_member_step ::
  "(nat list \<Rightarrow> string) \<Rightarrow> int \<Rightarrow> (utext \<times> model_file) list \<Rightarrow> tar_member \<Rightarrow> extraction \<Rightarrow>
   extraction \<times> install_error option" where
  "tar_member_step sha256 limit expected mem st =
     (case tm_kind mem of
        LinkMember \<Rightarrow> (st, Some (ArchiveError ''link rejected''))
      | SpecialMember \<Rightarrow> (st, Some (ArchiveError ''special file rejected''))
      | DirMember \<Rightarrow> (st, reject_unsafe (tm_name mem))
      | UnknownMember \<Rightarrow> (st, Some (ArchiveError ''unsupported member type''))
      | FileMember \<Rightarrow> extract_file sha256 limit expected (tm_name mem) (tm_size mem) (tm_stream mem) st)"

text \<open>\<open>stat.S_ISLNK\<close> and \<open>stat.S_ISREG\<close> of the upper half of the attributes.\<close>

definition zip_mode :: "zip_member \<Rightarrow> 32 word" where
  "zip_mode info = drop_bit 16 (zm_external_attr info)"

definition is_link_mode :: "32 word \<Rightarrow> bool" where
  "is_link_mode mode \<longleftrightarrow> and mode 0xF000 = 0xA000"

definition is_regular_mode :: "32 word \<Rightarrow> bool" where
  "is_regular_mode mode \<longleftrightarrow> and mode 0xF000 = 0x8000"

definition zip_member_step ::
  "(nat list \<Rightarrow> string) \<Rightarrow> int \<Rightarrow> (utext \<times> model_file) list \<Rightarrow> zip_member \<Rightarrow> extraction \<Rightarrow>
   extraction \<times> install_error option" where
  "zip_member_step sha256 limit expected info st =
     (let mode = zip_mode info in
      if mode \<noteq> 0 \<and> is_link_mode mode then (st, Some (ArchiveError ''symlink rejected''))
      else if zm_is_dir info then (st, reject_unsafe (zm_filename info))
      else if mode \<noteq> 0 \<and> \<not> is_regular_mode mode then (st, Some (ArchiveError ''special file rejected''))
      else extract_file sha256 limit expected (zm_filename info) (zm_file_size info) (Some (zm_stream info)) st)"

text \<open>The members in turn; \<open>fault\<close> is what the reader raises after the last one it presents.\<close>

fun extract_members ::
  "('m \<Rightarrow> extraction \<Rightarrow> extraction \<times> install_error option) \<Rightarrow> nat \<Rightarrow> 'm list \<Rightarrow> install_error option \<Rightarrow>
   extraction \<Rightarrow> extraction \<times> install_error option" where
  "extract_members step index [] fault st = (st, fault)"
| "extract_members step index (m # ms) fault st =
     (if index \<ge> MAX_ARCHIVE_MEMBERS then (st, Some (ArchiveError ''archive has too many members''))
      else
        (case step m st of
           (st', Some e) \<Rightarrow> (st', Some e)
         | (st', None) \<Rightarrow> extract_members step (Suc index) ms fault st'))"

definition extract_archive ::
  "archive_lib \<Rightarrow> nat list \<Rightarrow> model_manifest \<Rightarrow> extraction \<times> install_error option" where
  "extract_archive lib archive m =
     (let sha256 = al_sha256 lib; limit = mm_installed_size_bytes m; expected = expected_files m in
      if mm_archive_format m = ''raw'' then
        (case mm_files m of
           [f] \<Rightarrow> mark_extracted (mf_name f)
                   (stream_copy sha256 limit expected (file_stream archive) (mf_name f) new_extraction)
         | _ \<Rightarrow> (new_extraction, Some (ArchiveError ''raw archive must declare exactly one file'')))
      else if mm_archive_format m \<in> {''tar.bz2'', ''tar.gz''} then
        (case al_tar lib archive of
           (members, fault) \<Rightarrow> extract_members (tar_member_step sha256 limit expected) 0 members fault new_extraction)
      else if mm_archive_format m = ''zip'' then
        (case al_zip lib archive of
           Inl e \<Rightarrow> (new_extraction, Some e)
         | Inr members \<Rightarrow> extract_members (zip_member_step sha256 limit expected) 0 members None new_extraction)
      else (new_extraction, Some (ArchiveError ''unsupported archive format'')))"

definition extract_and_verify ::
  "archive_lib \<Rightarrow> nat list \<Rightarrow> model_manifest \<Rightarrow> extraction \<times> install_error option" where
  "extract_and_verify lib archive m =
     (case extract_archive lib archive m of
        (st, Some e) \<Rightarrow> (st, Some e)
      | (st, None) \<Rightarrow>
          if list_all (\<lambda>(name, _). name \<in> set (ex_extracted st)) (expected_files m) then (st, None)
          else (st, Some (ArchiveError ''archive is missing declared files'')))"

section \<open>Promotion\<close>

definition dir_signature :: "(nat list \<Rightarrow> string) \<Rightarrow> dir \<Rightarrow> (utext \<times> int \<times> string) set" where
  "dir_signature sha256 d = (\<lambda>(name, c). (name, int (length c), sha256 c)) ` set d"

definition promote :: "archive_lib \<Rightarrow> dir \<Rightarrow> dir option \<Rightarrow> install_error option \<times> dir option" where
  "promote lib staging dest =
     (case dest of
        None \<Rightarrow>
          (case al_replace_fault lib of
             Some e \<Rightarrow> (Some e, None)
           | None \<Rightarrow> (None, Some staging))
      | Some d \<Rightarrow>
          if dir_signature (al_sha256 lib) staging = dir_signature (al_sha256 lib) d then (None, Some d)
          else (Some FileExists, Some d))"

text \<open>
  The outcome and the version directory afterwards; the staging directory is gone on every
  path, renamed or removed.
\<close>

definition install_archive ::
  "archive_lib \<Rightarrow> nat list \<Rightarrow> model_manifest \<Rightarrow> dir option \<Rightarrow> install_error option \<times> dir option" where
  "install_archive lib archive m dest =
     (case extract_and_verify lib archive m of
        (st, Some e) \<Rightarrow> (Some e, dest)
      | (st, None) \<Rightarrow> promote lib (ex_files st) dest)"

fun copy_names ::
  "(nat list \<Rightarrow> string) \<Rightarrow> int \<Rightarrow> (utext \<times> model_file) list \<Rightarrow> dir \<Rightarrow> utext list \<Rightarrow> extraction \<Rightarrow>
   extraction \<times> install_error option" where
  "copy_names sha256 limit expected source [] st = (st, None)"
| "copy_names sha256 limit expected source (name # names) st =
     (case map_of source name of
        None \<Rightarrow> (st, Some (Unexpected (OSError 2 ''FileNotFoundError'')))
      | Some c \<Rightarrow>
          (case stream_copy sha256 limit expected (file_stream c) name st of
             (st', Some e) \<Rightarrow> (st', Some e)
           | (st', None) \<Rightarrow> copy_names sha256 limit expected source names st'))"

definition install_file_set ::
  "archive_lib \<Rightarrow> dir \<Rightarrow> model_manifest \<Rightarrow> dir option \<Rightarrow> install_error option \<times> dir option" where
  "install_file_set lib source m dest =
     (if mm_archive_format m \<noteq> ''file-set''
      then (Some (ArchiveError ''install_file_set requires a file-set manifest''), dest)
      else if fst ` set source \<noteq> fst ` set (expected_files m)
      then (Some (ArchiveError ''downloaded file set does not match the manifest''), dest)
      else
        (case copy_names (al_sha256 lib) (mm_installed_size_bytes m) (expected_files m) source
                (sort (remdups (map fst (expected_files m)))) new_extraction of
           (st, Some e) \<Rightarrow> (Some e, dest)
         | (st, None) \<Rightarrow> promote lib (ex_files st) dest))"

end
