(* ===== verification/Downloads.thy ===== *)
theory Downloads
  imports Archives
begin

text \<open>
  The resumable download of \<open>asr/model_manager.py\<close>. The HTTP client is an argument: it answers a
  URL and request headers with an error or with a response, whose body is the chunks
  \<open>aiter_bytes\<close> yields and the error after them. The three callbacks act on a state of the
  caller, and any of them may raise. Header texts are ASCII. The file at \<open>dest_path\<close> is its
  content, or none.
\<close>

section \<open>Requests\<close>

record http_response =
  hr_status :: int
  hr_content_range :: "utext option"
  hr_etag :: "string option"
  hr_last_modified :: "string option"
  hr_chunks :: "nat list list"
  hr_fault :: "install_error option"

type_synonym http_client = "utext \<Rightarrow> (string \<times> utext) list \<Rightarrow> install_error + http_response"

record 's download_hooks =
  dh_progress :: "(int \<Rightarrow> 's \<Rightarrow> install_error option \<times> 's) option"
  dh_on_restart :: "('s \<Rightarrow> install_error option \<times> 's) option"
  dh_on_headers :: "(string option \<Rightarrow> string option \<Rightarrow> 's \<Rightarrow> install_error option \<times> 's) option"

record download_outcome =
  do_downloaded_bytes :: int
  do_sha256 :: string
  do_restarted :: bool
  do_etag :: "string option"
  do_last_modified :: "string option"

definition call_hook :: "('s \<Rightarrow> install_error option \<times> 's) option \<Rightarrow> 's \<Rightarrow> install_error option \<times> 's" where
  "call_hook hook s = (case hook of None \<Rightarrow> (None, s) | Some f \<Rightarrow> f s)"

definition request_headers :: "int \<Rightarrow> string option \<Rightarrow> string option \<Rightarrow> (string \<times> utext) list" where
  "request_headers existing etag last_modified =
     (if existing > 0 then
        (''Range'', codes ''bytes='' @ int_text existing @ [45]) #
        (case etag of
           Some (c # cs) \<Rightarrow> [(''If-Range'', codes (c # cs))]
         | _ \<Rightarrow>
             (case last_modified of
                Some (c # cs) \<Rightarrow> [(''If-Range'', codes (c # cs))]
              | _ \<Rightarrow> []))
      else [])"

section \<open>Content-Range\<close>

text \<open>\<open>^bytes\s+(\d+)-(\d+)/(\d+|\*)$\<close>: the first number, and the last when it is one.\<close>

definition parse_content_range :: "utext \<Rightarrow> (int \<times> int option) option" where
  "parse_content_range t =
     (let gap = drop 5 t;
          a = dropWhile is_space gap; first = takeWhile is_digit a;
          b = dropWhile is_digit a; last = takeWhile is_digit (drop 1 b);
          c = dropWhile is_digit (drop 1 b); size = drop 1 c
      in if take 5 t = codes ''bytes'' \<and> a \<noteq> gap \<and> first \<noteq> [] \<and> take 1 b = [45] \<and> last \<noteq> [] \<and> take 1 c = [47] \<and>
            (size = [42] \<or> size \<noteq> [] \<and> list_all is_digit size)
         then Some (digits_value first, if size = [42] then None else Some (digits_value size))
         else None)"

definition invalid_range :: install_error where
  "invalid_range = DownloadError ''INVALID_CONTENT_RANGE''"

definition validate_content_range :: "utext option \<Rightarrow> int \<Rightarrow> int \<Rightarrow> install_error option" where
  "validate_content_range value start total_size =
     (case value of
        None \<Rightarrow> Some invalid_range
      | Some v \<Rightarrow>
          if v = [] then Some invalid_range
          else
            (case parse_content_range (strip v) of
               None \<Rightarrow> Some invalid_range
             | Some (range_start, None) \<Rightarrow> Some invalid_range
             | Some (range_start, Some range_total) \<Rightarrow>
                 if range_start \<noteq> start \<or> range_total \<noteq> total_size then Some invalid_range else None))"

section \<open>The transfer\<close>

text \<open>The body: the content of the file so far is its argument, \<open>size\<close> its length.\<close>

fun receive ::
  "int \<Rightarrow> (int \<Rightarrow> 's \<Rightarrow> install_error option \<times> 's) option \<Rightarrow> nat list list \<Rightarrow> install_error option \<Rightarrow>
   nat list \<Rightarrow> 's \<Rightarrow> install_error option \<times> nat list \<times> 's" where
  "receive expected_size progress [] fault content s = (fault, content, s)"
| "receive expected_size progress (chunk # chunks) fault content s =
     (if int (length content) + int (length chunk) > expected_size
      then (Some (DownloadError ''RESPONSE_TOO_LARGE''), content, s)
      else
        (case call_hook (map_option (\<lambda>p. p (int (length (content @ chunk)))) progress) s of
           (Some e, s') \<Rightarrow> (Some e, content @ chunk, s')
         | (None, s') \<Rightarrow> receive expected_size progress chunks fault (content @ chunk) s'))"

text \<open>The size and digest checks after the body; \<open>restarted\<close> as the status decided it.\<close>

definition check_download ::
  "(nat list \<Rightarrow> string) \<Rightarrow> string \<Rightarrow> int \<Rightarrow> bool \<Rightarrow> http_response \<Rightarrow> nat list \<Rightarrow> install_error + download_outcome" where
  "check_download sha256 expected_sha256 expected_size restarted resp content =
     (if int (length content) \<noteq> expected_size then Inl (DownloadError ''SIZE_MISMATCH'')
      else if sha256 content \<noteq> expected_sha256 then Inl (DownloadError ''SHA256_MISMATCH'')
      else Inr \<lparr>do_downloaded_bytes = int (length content), do_sha256 = sha256 content, do_restarted = restarted,
                do_etag = hr_etag resp, do_last_modified = hr_last_modified resp\<rparr>)"

text \<open>The status: restarted, and the content the body is appended to; or the exception.\<close>

definition accept_status ::
  "'s download_hooks \<Rightarrow> int \<Rightarrow> http_response \<Rightarrow> nat list option \<Rightarrow> 's \<Rightarrow>
   (install_error + bool \<times> nat list option) \<times> 's" where
  "accept_status hooks expected_size resp file s =
     (let existing = (case file of None \<Rightarrow> 0 | Some c \<Rightarrow> int (length c)) in
      if hr_status resp = 206 then
        (case validate_content_range (hr_content_range resp) existing expected_size of
           Some e \<Rightarrow> (Inl e, s)
         | None \<Rightarrow> (Inr (False, file), s))
      else if hr_status resp = 200 then
        (if existing > 0 then
           (case call_hook (dh_on_restart hooks) s of
              (Some e, s') \<Rightarrow> (Inl e, s')
            | (None, s') \<Rightarrow> (Inr (True, Some []), s'))
         else (Inr (False, Some []), s))
      else (Inl (DownloadError ''DOWNLOAD_FAILED''), s))"

definition transfer ::
  "(nat list \<Rightarrow> string) \<Rightarrow> 's download_hooks \<Rightarrow> string \<Rightarrow> int \<Rightarrow> http_response \<Rightarrow> nat list option \<Rightarrow> 's \<Rightarrow>
   (install_error + download_outcome) \<times> nat list option \<times> 's" where
  "transfer sha256 hooks expected_sha256 expected_size resp file s =
     (case accept_status hooks expected_size resp file s of
        (Inl e, s) \<Rightarrow> (Inl e, file, s)
      | (Inr (restarted, start), s) \<Rightarrow>
          (case call_hook (map_option (\<lambda>h. h (hr_etag resp) (hr_last_modified resp)) (dh_on_headers hooks)) s of
             (Some e, s) \<Rightarrow> (Inl e, file, s)
           | (None, s) \<Rightarrow>
               (case start of
                  None \<Rightarrow> (Inl (Unexpected (OSError 2 ''FileNotFoundError'')), None, s)
                | Some content \<Rightarrow>
                    (case receive expected_size (dh_progress hooks) (hr_chunks resp) (hr_fault resp) content s of
                       (Some e, content, s) \<Rightarrow> (Inl e, Some content, s)
                     | (None, content, s) \<Rightarrow>
                         (check_download sha256 expected_sha256 expected_size restarted resp content, Some content, s)))))"

definition download_resumable ::
  "(nat list \<Rightarrow> string) \<Rightarrow> http_client \<Rightarrow> 's download_hooks \<Rightarrow> utext \<Rightarrow> string \<Rightarrow> int \<Rightarrow> string option \<Rightarrow>
   string option \<Rightarrow> nat list option \<Rightarrow> 's \<Rightarrow> (install_error + download_outcome) \<times> nat list option \<times> 's" where
  "download_resumable sha256 http hooks url expected_sha256 expected_size etag last_modified file s =
     (let existing = (case file of None \<Rightarrow> 0 | Some c \<Rightarrow> int (length c)) in
      if existing > expected_size then (Inl invalid_range, file, s)
      else if existing = expected_size then
        ((case file of
            None \<Rightarrow> Inl (Unexpected (OSError 2 ''FileNotFoundError''))
          | Some c \<Rightarrow>
              if sha256 c \<noteq> expected_sha256 then Inl (DownloadError ''SHA256_MISMATCH'')
              else Inr \<lparr>do_downloaded_bytes = existing, do_sha256 = sha256 c, do_restarted = False,
                        do_etag = None, do_last_modified = None\<rparr>), file, s)
      else
        (case http url (request_headers existing etag last_modified) of
           Inl e \<Rightarrow> (Inl e, file, s)
         | Inr resp \<Rightarrow> transfer sha256 hooks expected_sha256 expected_size resp file s))"

section \<open>A download is verified\<close>

lemma receive_bounded:
  assumes "receive limit progress cs fault content s = (e, content', s')" "int (length content) \<le> limit"
  shows "int (length content') \<le> limit \<and> prefix content content'"
  using assms
proof (induction limit progress cs fault content s rule: receive.induct)
  case (2 limit progress chunk chunks fault content s)
  obtain er u where u: "call_hook (map_option (\<lambda>p. p (int (length (content @ chunk)))) progress) s = (er, u)"
    by (cases "call_hook (map_option (\<lambda>p. p (int (length (content @ chunk)))) progress) s")
  show ?case
    using 2 u by (cases er) (auto split: if_splits dest: append_prefixD)
qed auto

lemma check_download_ok:
  assumes "check_download sha256 expected limit restarted resp content = Inr r"
  shows "int (length content) = limit \<and> sha256 content = expected \<and> do_downloaded_bytes r = limit \<and>
    do_sha256 r = expected \<and> do_restarted r = restarted"
  using assms by (auto simp: check_download_def split: if_splits)

lemma accept_status_ok:
  assumes "accept_status hooks limit resp file s = (Inr (restarted, start), s')"
  shows "start = file \<and> \<not> restarted \<or> start = Some [] \<and> (restarted \<longleftrightarrow> file \<noteq> None \<and> file \<noteq> Some [])"
  using assms
  by (auto simp: accept_status_def Let_def split: if_splits option.splits prod.splits)

text \<open>The length of what is there, and how the file of one step relates to the next.\<close>

definition file_length :: "nat list option \<Rightarrow> int" where
  "file_length file = (case file of None \<Rightarrow> 0 | Some c \<Rightarrow> int (length c))"

definition verified_content :: "(nat list \<Rightarrow> string) \<Rightarrow> string \<Rightarrow> int \<Rightarrow> nat list option \<Rightarrow> bool" where
  "verified_content sha256 expected_sha256 expected_size file \<longleftrightarrow>
     (case file of None \<Rightarrow> False | Some c \<Rightarrow> int (length c) = expected_size \<and> sha256 c = expected_sha256)"

lemma transfer_bounded:
  assumes "transfer sha256 hooks expected limit resp file s = (r, file', s')" "file_length file \<le> limit" "0 \<le> limit"
  shows "file_length file' \<le> limit \<and>
     (case r of
        Inl _ \<Rightarrow> True
      | Inr out \<Rightarrow> verified_content sha256 expected limit file' \<and> do_sha256 out = expected \<and>
          (do_restarted out \<or> file = None \<or> prefix (the file) (the file')))"
proof (cases "accept_status hooks limit resp file s")
  case acc: (Pair a t)
  show ?thesis
  proof (cases a)
    case (Inl e)
    then show ?thesis using assms acc by (auto simp: transfer_def)
  next
    case (Inr p)
    obtain restarted start where p: "p = (restarted, start)" by (cases p)
    obtain er u where h: "call_hook (map_option (\<lambda>h. h (hr_etag resp) (hr_last_modified resp)) (dh_on_headers hooks)) t = (er, u)"
      by (cases "call_hook (map_option (\<lambda>h. h (hr_etag resp) (hr_last_modified resp)) (dh_on_headers hooks)) t")
    note st = accept_status_ok [OF acc [unfolded Inr p]]
    show ?thesis
    proof (cases "er = None \<and> start \<noteq> None")
      case False
      then show ?thesis using assms acc Inr p h st by (auto simp: transfer_def file_length_def split: option.splits)
    next
      case True
      then obtain content where c: "start = Some content" by blast
      obtain er2 content' v where rec:
        "receive limit (dh_progress hooks) (hr_chunks resp) (hr_fault resp) content u = (er2, content', v)"
        using prod_cases3 by blast
      have len: "int (length content) \<le> limit" using st c assms(2,3) by (auto simp: file_length_def)
      note b = receive_bounded [OF rec len]
      show ?thesis
      proof (cases er2)
        case (Some e)
        then show ?thesis using assms(1) acc Inr p h True c rec b by (auto simp: transfer_def file_length_def)
      next
        case None
        then have "r = check_download sha256 expected limit restarted resp content'" "file' = Some content'"
          using assms(1) acc Inr p h True c rec by (auto simp: transfer_def)
        then show ?thesis
          using b st c check_download_ok [of sha256 expected limit restarted resp content']
          by (auto simp: file_length_def verified_content_def split: sum.splits)
      qed
    qed
  qed
qed

text \<open>
  C16. A download that reports success has left a file of exactly the expected size and digest, and
  continued the partial file unless it reports a restart. Whatever the server sends and whichever
  callback raises, the file never grows beyond the expected size; one that is already longer is
  left as it is and refused.
\<close>

theorem download_is_verified:
  assumes "0 \<le> expected_size"
    and "download_resumable sha256 http hooks url expected_sha256 expected_size etag last_modified file s = (r, file', s')"
  shows "file_length file' \<le> max expected_size (file_length file) \<and>
     (case r of
        Inl e \<Rightarrow> file_length file > expected_size \<longrightarrow> file' = file \<and> e = DownloadError ''INVALID_CONTENT_RANGE''
      | Inr out \<Rightarrow> verified_content sha256 expected_sha256 expected_size file' \<and> do_sha256 out = expected_sha256 \<and>
          (do_restarted out \<or> file = None \<or> prefix (the file) (the file')))"
proof (cases "file_length file < expected_size")
  case True
  show ?thesis
  proof (cases "http url (request_headers (file_length file) etag last_modified)")
    case (Inl e)
    then show ?thesis using True assms(2) by (auto simp: download_resumable_def Let_def file_length_def [symmetric])
  next
    case (Inr resp)
    then have "transfer sha256 hooks expected_sha256 expected_size resp file s = (r, file', s')"
      using True assms(2) by (auto simp: download_resumable_def Let_def file_length_def [symmetric])
    from transfer_bounded [OF this _ assms(1)] show ?thesis using True by (auto split: sum.splits)
  qed
next
  case False
  then show ?thesis
    using assms(2)
    by (auto simp: download_resumable_def Let_def file_length_def verified_content_def invalid_range_def
        split: option.splits if_splits)
qed

text \<open>A server that answers with a body of three bytes in two chunks; no callback, one digest.\<close>

definition sample_server :: http_client where
  "sample_server url headers =
     Inr \<lparr>hr_status = 200, hr_content_range = None, hr_etag = None, hr_last_modified = None,
          hr_chunks = [[1, 2], [3]], hr_fault = None\<rparr>"

definition no_hooks :: "'s download_hooks" where
  "no_hooks = \<lparr>dh_progress = None, dh_on_restart = None, dh_on_headers = None\<rparr>"

theorem download_is_verified_witness:
  "verified_content (\<lambda>_. ''d'') ''d'' 3 (Some [1, 2, 3])"
proof -
  have "download_resumable (\<lambda>_. ''d'') sample_server no_hooks [] ''d'' 3 None None None () =
      (Inr \<lparr>do_downloaded_bytes = 3, do_sha256 = ''d'', do_restarted = False, do_etag = None, do_last_modified = None\<rparr>,
       Some [1, 2, 3], ())"
    by code_simp
  from download_is_verified [OF _ this] show ?thesis by simp
qed

section \<open>A download resumes\<close>

lemma span_digits:
  assumes "\<not> is_digit c"
  shows "takeWhile is_digit (nat_digits n @ c # t) = nat_digits n" "dropWhile is_digit (nat_digits n @ c # t) = c # t"
  using assms nat_digits_digits [of _ n] by (simp_all add: takeWhile_append2 dropWhile_append2)

lemma nat_digits_nonempty [simp]: "nat_digits n \<noteq> []"
  using nat_digits_first [of n] by auto

lemma digit_not_space: "is_digit c \<Longrightarrow> \<not> is_space c"
  by (auto simp: is_digit_def is_space_def)

text \<open>The value a server sends for the rest of a resource: \<open>bytes a-b/n\<close>.\<close>

definition content_range :: "nat \<Rightarrow> nat \<Rightarrow> nat \<Rightarrow> utext" where
  "content_range a b n = codes ''bytes '' @ nat_digits a @ 45 # nat_digits b @ 47 # nat_digits n"

lemma strip_content_range: "strip (content_range a b n) = content_range a b n"
proof -
  have "nat_digits n = butlast (nat_digits n) @ [last (nat_digits n)]" by simp
  moreover have "\<not> is_space (last (nat_digits n))"
    using nat_digits_digits [of "last (nat_digits n)" n] digit_not_space by simp
  ultimately obtain ds d where d: "nat_digits n = ds @ [d]" "\<not> is_space d" by blast
  have "lstrip (content_range a b n) = content_range a b n"
    by (simp add: content_range_def lstrip_def codes_def is_space_def)
  then show ?thesis using d by (simp add: strip_def lstrip_def content_range_def)
qed

lemma parse_content_range_roundtrip: "parse_content_range (content_range a b n) = Some (int a, Some (int n))"
proof -
  have h: "\<not> is_space (hd (nat_digits a))" "nat_digits a = hd (nat_digits a) # tl (nat_digits a)"
    using nat_digits_digits [of "hd (nat_digits a)" a] digit_not_space by simp_all
  have gap: "dropWhile is_space (nat_digits a @ t) = nat_digits a @ t" for t
    using h by (cases "nat_digits a") simp_all
  have "drop 5 (content_range a b n) = 32 # nat_digits a @ 45 # nat_digits b @ 47 # nat_digits n"
      "take 5 (content_range a b n) = codes ''bytes''"
    by (simp_all add: content_range_def codes_def)
  moreover have "nat_digits n \<noteq> [42]" using nat_digits_digits [of 42 n] by (auto simp: is_digit_def)
  ultimately show ?thesis
    using nat_digits_digits [of _ n]
    by (simp add: parse_content_range_def gap span_digits is_space_def is_digit_def [of 45] is_digit_def [of 47] list_all_iff)
qed

definition never_raises :: "'s download_hooks \<Rightarrow> bool" where
  "never_raises hooks \<longleftrightarrow>
     (\<forall>n s. fst (call_hook (map_option (\<lambda>p. p n) (dh_progress hooks)) s) = None) \<and>
     (\<forall>e l s. fst (call_hook (map_option (\<lambda>h. h e l) (dh_on_headers hooks)) s) = None)"

definition serves_rest :: "http_client \<Rightarrow> utext \<Rightarrow> string option \<Rightarrow> string option \<Rightarrow> nat list \<Rightarrow> nat list \<Rightarrow> bool" where
  "serves_rest http url etag last_modified part content =
     (case http url (request_headers (int (length part)) etag last_modified) of
        Inl _ \<Rightarrow> False
      | Inr resp \<Rightarrow>
          hr_status resp = 206 \<and>
          hr_content_range resp = Some (content_range (length part) (length content - 1) (length content)) \<and>
          part @ concat (hr_chunks resp) = content \<and> hr_fault resp = None)"

lemma receive_whole:
  assumes "\<And>n s. fst (call_hook (map_option (\<lambda>p. p n) progress) s) = None"
    and "int (length content) + int (length (concat chunks)) \<le> limit"
  shows "\<exists>s'. receive limit progress chunks None content s = (None, content @ concat chunks, s')"
  using assms(2)
proof (induction chunks arbitrary: content s)
  case (Cons c cs)
  obtain e u where u: "call_hook (map_option (\<lambda>p. p (int (length (content @ c)))) progress) s = (e, u)"
    by (cases "call_hook (map_option (\<lambda>p. p (int (length (content @ c)))) progress) s")
  moreover have "e = None" using assms(1) [of "int (length (content @ c))" s] u by simp
  ultimately show ?case using Cons.IH [of "content @ c" u] Cons.prems by auto
qed simp

text \<open>
  C17. A download resumes: with a partial file that is a true beginning of the resource, and a server
  that answers the range request with the rest, in chunks of any size, the file becomes the whole
  resource and the download succeeds without a restart. In particular the \<open>Content-Range\<close> value of
  such an answer passes the check.
\<close>

theorem resumed_download_completes:
  assumes "part \<noteq> []" "part \<noteq> content" "never_raises hooks" "serves_rest http url etag last_modified part content"
  shows "\<exists>out s'. download_resumable sha256 http hooks url (sha256 content) (int (length content)) etag last_modified
       (Some part) s = (Inr out, Some content, s') \<and> do_sha256 out = sha256 content \<and> \<not> do_restarted out"
proof -
  obtain resp where resp: "http url (request_headers (int (length part)) etag last_modified) = Inr resp"
      "hr_status resp = 206" "part @ concat (hr_chunks resp) = content" "hr_fault resp = None"
      "hr_content_range resp = Some (content_range (length part) (length content - 1) (length content))"
    using assms(4) by (auto simp: serves_rest_def split: sum.splits)
  have len: "length part < length content" using resp(3) assms(2) by (cases "concat (hr_chunks resp)") auto
  have ne: "content_range a b n \<noteq> []" for a b n by (simp add: content_range_def codes_def)
  have acc: "accept_status hooks (int (length content)) resp (Some part) s = (Inr (False, Some part), s)"
    using resp ne by (simp add: accept_status_def validate_content_range_def strip_content_range parse_content_range_roundtrip)
  let ?call = "call_hook (map_option (\<lambda>h. h (hr_etag resp) (hr_last_modified resp)) (dh_on_headers hooks)) s"
  have "fst ?call = None" using assms(3) by (simp add: never_raises_def)
  then obtain u where h: "?call = (None, u)" by (cases ?call) simp
  have "int (length part) + int (length (concat (hr_chunks resp))) \<le> int (length content)" using resp(3) by auto
  then obtain v where "receive (int (length content)) (dh_progress hooks) (hr_chunks resp) None part u =
      (None, part @ concat (hr_chunks resp), v)"
    using receive_whole [of "dh_progress hooks"] assms(3) unfolding never_raises_def by blast
  then have "transfer sha256 hooks (sha256 content) (int (length content)) resp (Some part) s =
      (check_download sha256 (sha256 content) (int (length content)) False resp content, Some content, v)"
    using acc h resp by (simp add: transfer_def)
  then show ?thesis using len resp(1) by (simp add: download_resumable_def check_download_def)
qed

definition resuming_server :: http_client where
  "resuming_server url headers =
     Inr \<lparr>hr_status = 206, hr_content_range = Some (content_range 1 2 3), hr_etag = Some ''v'', hr_last_modified = None,
          hr_chunks = [[2], [3]], hr_fault = None\<rparr>"

theorem resumed_download_completes_witness:
  "\<exists>out s'. download_resumable (\<lambda>c. replicate (length c) (CHR ''x'')) resuming_server no_hooks [] ''xxx'' 3 None None
     (Some [1]) () = (Inr out, Some [1, 2, 3], s') \<and> do_sha256 out = ''xxx'' \<and> \<not> do_restarted out"
proof -
  have "serves_rest resuming_server [] None None [1] [1, 2, 3]" "never_raises (no_hooks :: unit download_hooks)"
    by (simp_all add: serves_rest_def resuming_server_def never_raises_def no_hooks_def call_hook_def eval_nat_numeral)
  from resumed_download_completes [OF _ _ this(2,1), of "\<lambda>c. replicate (length c) (CHR ''x'')" "()"]
  show ?thesis by (simp add: eval_nat_numeral)
qed

end
