(* ===== verification/Installer.thy ===== *)
theory Installer
  imports Downloads ModelRepo
begin

text \<open>
  Installing a model: \<open>asr/installer.py\<close>, from the manifest to the active version, over the
  repository, the download and the archive operations. The state is the session, the partial
  download (a file, or the files of a set), the version directory, the bytes last persisted and
  the number of \<open>cancel_check\<close> calls made. The clock is constant during an installation, the lock
  of a model admits one at a time, and paths have POSIX separators.
\<close>

record install_env =
  ie_lib :: archive_lib
  ie_http :: http_client
  ie_now :: time
  ie_cancel :: "(nat \<Rightarrow> bool) option"
  ie_operation_id :: "string option"
  ie_new_id :: string
  ie_models_dir :: string

record install_state =
  in_session :: session
  in_part :: "nat list option"
  in_set :: dir
  in_version :: "dir option"
  in_last_persisted :: int
  in_cancel_calls :: nat

type_synonym 'a install_step = "install_state \<Rightarrow> (install_error + 'a) \<times> install_state"

section \<open>Steps\<close>

definition give :: "'a \<Rightarrow> 'a install_step" where
  "give x s = (Inr x, s)"

definition fail :: "install_error \<Rightarrow> 'a install_step" where
  "fail e s = (Inl e, s)"

definition andthen :: "'a install_step \<Rightarrow> ('a \<Rightarrow> 'b install_step) \<Rightarrow> 'b install_step" where
  "andthen m f s = (case m s of (Inl e, s') \<Rightarrow> (Inl e, s') | (Inr x, s') \<Rightarrow> f x s')"

text \<open>A call of the repository, and a read.\<close>

definition repo :: "(session \<Rightarrow> 'a outcome \<times> session) \<Rightarrow> 'a install_step" where
  "repo f s =
     (case f (in_session s) of
        (Inl e, ss) \<Rightarrow> (Inl (Unexpected e), s\<lparr>in_session := ss\<rparr>)
      | (Inr x, ss) \<Rightarrow> (Inr x, s\<lparr>in_session := ss\<rparr>))"

definition query :: "(database \<Rightarrow> 'a) \<Rightarrow> 'a install_step" where
  "query f s = (let ss = autobegin (in_session s) in (Inr (f (working ss)), s\<lparr>in_session := ss\<rparr>))"

definition rollback :: "unit install_step" where
  "rollback s = (Inr (), s\<lparr>in_session := rollback_tx (in_session s)\<rparr>)"

definition set_persisted :: "int \<Rightarrow> unit install_step" where
  "set_persisted n s = (Inr (), s\<lparr>in_last_persisted := n\<rparr>)"

section \<open>Files\<close>

definition PROGRESS_INTERVAL :: int where
  "PROGRESS_INTERVAL = 4 * 1024 * 1024"

definition is_file_set :: "model_manifest \<Rightarrow> bool" where
  "is_file_set m \<longleftrightarrow> mm_archive_format m = ''file-set''"

definition temp_path :: "install_env \<Rightarrow> model_manifest \<Rightarrow> string" where
  "temp_path env m =
     ie_models_dir env @ ''/.downloads/'' @ mm_model_id m @ ''/'' @ mm_version m @
     (if is_file_set m then ''.files'' else ''.part'')"

definition version_path :: "install_env \<Rightarrow> model_manifest \<Rightarrow> string" where
  "version_path env m = ie_models_dir env @ ''/'' @ mm_model_id m @ ''/'' @ mm_version m"

text \<open>\<open>_truncate(temp_path)\<close>\<close>

definition truncate_partial :: "model_manifest \<Rightarrow> unit install_step" where
  "truncate_partial m s = (Inr (), if is_file_set m then s\<lparr>in_set := []\<rparr> else s\<lparr>in_part := None\<rparr>)"

definition file_set_downloaded_bytes :: "dir \<Rightarrow> model_manifest \<Rightarrow> int" where
  "file_set_downloaded_bytes d m =
     sum_list (map (\<lambda>f. case map_of d (mf_name f) of
                          None \<Rightarrow> 0
                        | Some c \<Rightarrow> min (int (length c)) (mf_size_bytes f)) (mm_files m))"

definition actual_bytes :: "model_manifest \<Rightarrow> install_state \<Rightarrow> int" where
  "actual_bytes m s =
     (if is_file_set m then file_set_downloaded_bytes (in_set s) m
      else (case in_part s of None \<Rightarrow> 0 | Some c \<Rightarrow> int (length c)))"

definition verify_downloaded ::
  "(nat list \<Rightarrow> string) \<Rightarrow> nat list option \<Rightarrow> int \<Rightarrow> string \<Rightarrow> install_error option" where
  "verify_downloaded sha256 file expected_size expected_sha256 =
     (case file of
        None \<Rightarrow> Some (DownloadError ''SIZE_MISMATCH'')
      | Some c \<Rightarrow>
          if int (length c) \<noteq> expected_size then Some (DownloadError ''SIZE_MISMATCH'')
          else if sha256 c \<noteq> expected_sha256 then Some (DownloadError ''SHA256_MISMATCH'')
          else None)"

fun verify_each :: "(nat list \<Rightarrow> string) \<Rightarrow> dir \<Rightarrow> model_file list \<Rightarrow> install_error option" where
  "verify_each sha256 d [] = None"
| "verify_each sha256 d (f # fs) =
     (case verify_downloaded sha256 (map_of d (mf_name f)) (mf_size_bytes f) (mf_sha256 f) of
        Some e \<Rightarrow> Some e
      | None \<Rightarrow> verify_each sha256 d fs)"

definition verify_file_set :: "(nat list \<Rightarrow> string) \<Rightarrow> dir \<Rightarrow> model_manifest \<Rightarrow> install_error option" where
  "verify_file_set sha256 d m =
     (if fst ` set d \<noteq> mf_name ` set (mm_files m)
      then Some (ArchiveError ''downloaded file set does not match the manifest'')
      else verify_each sha256 d (mm_files m))"

definition or_fail :: "install_error option \<Rightarrow> unit install_step" where
  "or_fail e = (case e of None \<Rightarrow> give () | Some e \<Rightarrow> fail e)"

section \<open>Callbacks\<close>

definition cancel_check :: "install_env \<Rightarrow> bool install_step" where
  "cancel_check env s =
     (case ie_cancel env of
        None \<Rightarrow> (Inr False, s)
      | Some f \<Rightarrow> (Inr (f (in_cancel_calls s)), s\<lparr>in_cancel_calls := in_cancel_calls s + 1\<rparr>))"

definition save_progress :: "install_env \<Rightarrow> string \<Rightarrow> int \<Rightarrow> model_download install_step" where
  "save_progress env op_id n = repo (update_download_progress op_id n (ie_now env) None None None None)"

definition persist_progress :: "install_env \<Rightarrow> string \<Rightarrow> int \<Rightarrow> int \<Rightarrow> unit install_step" where
  "persist_progress env op_id expected_size n =
     andthen (cancel_check env) (\<lambda>cancelled.
       if cancelled then fail Cancelled
       else (\<lambda>s.
         if n - in_last_persisted s \<ge> PROGRESS_INTERVAL \<or> n = expected_size
         then andthen (save_progress env op_id n) (\<lambda>_. set_persisted n) s
         else (Inr (), s)))"

definition on_restart :: "install_env \<Rightarrow> string \<Rightarrow> unit install_step" where
  "on_restart env op_id =
     andthen (set_persisted 0) (\<lambda>_. andthen (repo (restart_download op_id (ie_now env))) (\<lambda>_. give ()))"

definition on_headers ::
  "install_env \<Rightarrow> model_manifest \<Rightarrow> string \<Rightarrow> string option \<Rightarrow> string option \<Rightarrow> unit install_step" where
  "on_headers env m op_id etag last_modified s =
     andthen (repo (update_download_progress op_id (in_last_persisted s) (ie_now env) (Some (temp_path env m))
                etag last_modified None)) (\<lambda>_. give ()) s"

definition hook :: "unit install_step \<Rightarrow> install_state \<Rightarrow> install_error option \<times> install_state" where
  "hook f s = (case f s of (Inl e, s') \<Rightarrow> (Some e, s') | (Inr _, s') \<Rightarrow> (None, s'))"

section \<open>Downloading\<close>

text \<open>\<open>quote(path, safe="/")\<close>\<close>

definition upper_hex :: "nat \<Rightarrow> nat" where
  "upper_hex n = (if n < 10 then 48 + n else 55 + n)"

definition quote_path :: "utext \<Rightarrow> utext" where
  "quote_path t =
     concat (map (\<lambda>b. if is_alpha b \<or> is_digit b \<or> b \<in> {45, 46, 47, 95, 126} then [b]
                      else [37, upper_hex (b div 16), upper_hex (b mod 16)]) (utf8_encode t))"

definition file_url :: "utext \<Rightarrow> utext \<Rightarrow> utext" where
  "file_url source_url source_path =
     rev (dropWhile (\<lambda>c. c = 47) (rev source_url)) @ 47 # quote_path source_path"

text \<open>
  One file of a set. A parent of its target that is a file, or a target that is a directory, is
  the error of \<open>blocked_name\<close>.
\<close>

definition download_one ::
  "install_env \<Rightarrow> string \<Rightarrow> int \<Rightarrow> utext \<Rightarrow> int \<Rightarrow> model_file \<Rightarrow> unit install_step" where
  "download_one env op_id expected_size source_url completed f s =
     (case blocked_name (in_set s) (mf_name f) of
        Some e \<Rightarrow> (Inl e, s)
      | None \<Rightarrow>
          (case download_resumable (al_sha256 (ie_lib env)) (ie_http env)
                  \<lparr>dh_progress = Some (\<lambda>n. hook (persist_progress env op_id expected_size (completed + n))),
                   dh_on_restart = None, dh_on_headers = None\<rparr>
                  (file_url source_url (case mf_source_path f of None \<Rightarrow> [] | Some p \<Rightarrow> p))
                  (mf_sha256 f) (mf_size_bytes f) None None (map_of (in_set s) (mf_name f)) s of
             (r, file, s') \<Rightarrow>
               (map_sum id (\<lambda>_. ()) r,
                s'\<lparr>in_set := (case file of None \<Rightarrow> in_set s' | Some c \<Rightarrow> AList.update (mf_name f) c (in_set s'))\<rparr>)))"

fun download_files ::
  "install_env \<Rightarrow> string \<Rightarrow> int \<Rightarrow> utext \<Rightarrow> int \<Rightarrow> model_file list \<Rightarrow> unit install_step" where
  "download_files env op_id expected_size source_url completed [] = give ()"
| "download_files env op_id expected_size source_url completed (f # fs) =
     andthen (download_one env op_id expected_size source_url completed f)
       (\<lambda>_. download_files env op_id expected_size source_url (completed + mf_size_bytes f) fs)"

definition download_from ::
  "install_env \<Rightarrow> model_manifest \<Rightarrow> int \<Rightarrow> string \<Rightarrow> model_download \<Rightarrow> download_source \<Rightarrow>
   (string option \<times> string option) install_step" where
  "download_from env m expected_size op_id op source =
     (if is_file_set m then
        andthen (download_files env op_id expected_size (ds_url source) 0 (mm_files m)) (\<lambda>_. give (None, None))
      else (\<lambda>s.
        (case download_resumable (al_sha256 (ie_lib env)) (ie_http env)
                \<lparr>dh_progress = Some (\<lambda>n. hook (persist_progress env op_id expected_size n)),
                 dh_on_restart = Some (hook (on_restart env op_id)),
                 dh_on_headers = Some (\<lambda>e l. hook (on_headers env m op_id e l))\<rparr>
                (ds_url source) (ds_sha256 source) (ds_size_bytes source) (md_etag op) (md_last_modified op)
                (in_part s) s of
           (r, file, s') \<Rightarrow> (map_sum id (\<lambda>o'. (do_etag o', do_last_modified o')) r, s'\<lparr>in_part := file\<rparr>))))"

definition is_download_failure :: "install_error \<Rightarrow> bool" where
  "is_download_failure e \<longleftrightarrow> (case e of DownloadError _ \<Rightarrow> True | HTTPError \<Rightarrow> True | _ \<Rightarrow> False)"

fun try_sources ::
  "install_env \<Rightarrow> model_manifest \<Rightarrow> int \<Rightarrow> string \<Rightarrow> model_download \<Rightarrow> download_source list \<Rightarrow>
   (string option \<times> string option) install_step" where
  "try_sources env m expected_size op_id op [] = fail (DownloadError ''DOWNLOAD_FAILED'')"
| "try_sources env m expected_size op_id op (source # sources) = (\<lambda>s.
     case download_from env m expected_size op_id op source s of
       (Inr x, s') \<Rightarrow> (Inr x, s')
     | (Inl e, s') \<Rightarrow>
         if is_download_failure e then
           (case sources of
              [] \<Rightarrow> (Inl e, s')
            | following # _ \<Rightarrow>
                andthen (truncate_partial m) (\<lambda>_. andthen (set_persisted 0) (\<lambda>_.
                  andthen (repo (switch_download_source op_id (map char_of (ds_url following)) (ds_kind following)
                             (ie_now env)))
                    (\<lambda>op. try_sources env m expected_size op_id op sources))) s')
         else (Inl e, s'))"

section \<open>The operation\<close>

definition get_or_create_operation :: "install_env \<Rightarrow> model_manifest \<Rightarrow> download_source \<Rightarrow> model_download install_step" where
  "get_or_create_operation env m primary =
     andthen (query (find_active_download_operation (mm_model_id m))) (\<lambda>active.
       case active of
         Some a \<Rightarrow>
           if md_version a \<noteq> mm_version m then fail (Unexpected (ValueError ''INSTALL_IN_PROGRESS'')) else give a
       | None \<Rightarrow>
           andthen (query (find_latest_download_operation (mm_model_id m) (mm_version m))) (\<lambda>prior s.
             case repo (create_download_operation
                     (case ie_operation_id env of Some (c # cs) \<Rightarrow> c # cs | _ \<Rightarrow> ie_new_id env)
                     (mm_model_id m) (mm_version m) (map char_of (ds_url primary)) (ds_kind primary)
                     (ds_sha256 primary) (ds_size_bytes primary) (ie_now env)
                     (case prior of None \<Rightarrow> None | Some p \<Rightarrow> md_etag p)
                     (case prior of None \<Rightarrow> None | Some p \<Rightarrow> md_last_modified p)) s of
               (Inl (Unexpected (IntegrityError e)), s') \<Rightarrow>
                 andthen rollback (\<lambda>_.
                   andthen (query (find_active_download_operation (mm_model_id m))) (\<lambda>existing.
                     case existing of
                       None \<Rightarrow> fail (Unexpected (IntegrityError e))
                     | Some x \<Rightarrow> give x)) s'
             | r \<Rightarrow> r))"

definition already_active :: "model_manifest \<Rightarrow> model_download option install_step" where
  "already_active m =
     query (\<lambda>d.
       case get_active_model (mm_model_id m) d of
         None \<Rightarrow> None
       | Some a \<Rightarrow>
           if am_active_version a \<noteq> mm_version m \<or> get_installation (mm_model_id m) (mm_version m) d = None
           then None
           else
             (case find_latest_download_operation (mm_model_id m) (mm_version m) d of
                None \<Rightarrow> None
              | Some latest \<Rightarrow> if md_status latest = DL_COMPLETED then Some latest else None))"

definition mark_terminal ::
  "install_env \<Rightarrow> string \<Rightarrow> download_status \<Rightarrow> string option \<Rightarrow> model_download install_step" where
  "mark_terminal env op_id to_status error_code =
     andthen rollback (\<lambda>_.
       andthen (repo (\<lambda>ss. case get_download_operation op_id ss of (r, ss) \<Rightarrow> (Inr r, ss))) (\<lambda>found.
         case found of
           None \<Rightarrow> fail (Unexpected (RuntimeError ''download operation vanished''))
         | Some op \<Rightarrow>
             if md_status op \<in> TERMINAL_DOWNLOAD_STATUSES then give op
             else repo (advance_download_operation op_id to_status (ie_now env) None None None error_code None None)))"

section \<open>The stages\<close>

definition advance ::
  "install_env \<Rightarrow> string \<Rightarrow> download_status \<Rightarrow> string option \<Rightarrow> string option \<Rightarrow> string option \<Rightarrow>
   model_download install_step" where
  "advance env op_id to_status temp etag last_modified =
     repo (advance_download_operation op_id to_status (ie_now env) temp etag last_modified None None None)"

text \<open>Bring the partial and the recorded progress together.\<close>

definition reconcile_partial ::
  "install_env \<Rightarrow> model_manifest \<Rightarrow> int \<Rightarrow> string \<Rightarrow> model_download \<Rightarrow> model_download install_step" where
  "reconcile_partial env m expected_size op_id op s =
     (let actual = actual_bytes m s in
      if actual > expected_size
      then andthen (truncate_partial m) (\<lambda>_. repo (restart_download op_id (ie_now env))) s
      else if actual > md_downloaded_bytes op
      then repo (update_download_progress op_id actual (ie_now env) (Some (temp_path env m)) None None None) s
      else if actual < md_downloaded_bytes op
      then andthen (truncate_partial m) (\<lambda>_. repo (restart_download op_id (ie_now env))) s
      else give op s)"

definition downloading_stage ::
  "install_env \<Rightarrow> model_manifest \<Rightarrow> int \<Rightarrow> string \<Rightarrow> model_download \<Rightarrow> model_download install_step" where
  "downloading_stage env m expected_size op_id op =
     andthen (reconcile_partial env m expected_size op_id op) (\<lambda>op.
     andthen (set_persisted (md_downloaded_bytes op)) (\<lambda>_.
     andthen (try_sources env m expected_size op_id op (mm_sources m)) (\<lambda>(etag, last_modified).
     andthen (save_progress env op_id expected_size) (\<lambda>_.
     advance env op_id DL_VERIFYING None etag last_modified))))"

definition verifying_stage ::
  "install_env \<Rightarrow> model_manifest \<Rightarrow> int \<Rightarrow> string \<Rightarrow> string \<Rightarrow> model_download install_step" where
  "verifying_stage env m expected_size expected_sha256 op_id s =
     andthen (or_fail
         (if is_file_set m then verify_file_set (al_sha256 (ie_lib env)) (in_set s) m
          else verify_downloaded (al_sha256 (ie_lib env)) (in_part s) expected_size expected_sha256))
       (\<lambda>_. advance env op_id DL_INSTALLING None None None) s"

definition install_files :: "install_env \<Rightarrow> model_manifest \<Rightarrow> unit install_step" where
  "install_files env m s =
     (let (e, dest) =
        (if is_file_set m then install_file_set (ie_lib env) (in_set s) m (in_version s)
         else
           (case in_part s of
              None \<Rightarrow> (Some (Unexpected (OSError 2 ''FileNotFoundError'')), in_version s)
            | Some c \<Rightarrow> install_archive (ie_lib env) c m (in_version s)))
      in or_fail e (s\<lparr>in_version := dest\<rparr>))"

definition installing_stage :: "install_env \<Rightarrow> model_manifest \<Rightarrow> string \<Rightarrow> model_download install_step" where
  "installing_stage env m op_id =
     andthen (install_files env m) (\<lambda>_.
       repo (complete_installation op_id (mm_model_id m) (mm_version m) (version_path env m) (ie_now env)))"

text \<open>The body of the \<open>try\<close>: each stage runs when the operation has reached it.\<close>

definition run_stages ::
  "install_env \<Rightarrow> model_manifest \<Rightarrow> download_source \<Rightarrow> model_download \<Rightarrow> model_download install_step" where
  "run_stages env m primary op =
     (let op_id = md_operation_id op; expected_size = ds_size_bytes primary in
      andthen (if md_status op = DL_PENDING then advance env op_id DL_DOWNLOADING (Some (temp_path env m)) None None
               else give op) (\<lambda>op1.
      andthen (if md_status op \<in> {DL_PENDING, DL_DOWNLOADING} then downloading_stage env m expected_size op_id op1
               else give op1) (\<lambda>op2.
      andthen (if md_status op \<in> {DL_PENDING, DL_DOWNLOADING, DL_VERIFYING}
               then verifying_stage env m expected_size (ds_sha256 primary) op_id else give op2) (\<lambda>op3.
      if md_status op \<in> ACTIVE_DOWNLOAD_STATUSES then installing_stage env m op_id else give op3))))"

text \<open>The \<open>except\<close> clauses.\<close>

definition on_error ::
  "install_env \<Rightarrow> model_manifest \<Rightarrow> string \<Rightarrow> install_error \<Rightarrow> model_download install_step" where
  "on_error env m op_id e =
     (case e of
        Cancelled \<Rightarrow>
          andthen (repo (\<lambda>ss. case get_download_operation op_id ss of (r, ss) \<Rightarrow> (Inr r, ss))) (\<lambda>current.
          andthen
            (case current of
               Some op \<Rightarrow>
                 if md_status op = DL_DOWNLOADING
                 then (\<lambda>s. andthen (save_progress env op_id (actual_bytes m s)) (\<lambda>_. give ()) s) else give ()
             | None \<Rightarrow> give ())
            (\<lambda>_. mark_terminal env op_id DL_CANCELLED (Some ''CANCELLED'')))
      | DownloadError code \<Rightarrow>
          andthen (truncate_partial m) (\<lambda>_. mark_terminal env op_id DL_FAILED (Some code))
      | ArchiveError _ \<Rightarrow>
          andthen (truncate_partial m) (\<lambda>_. mark_terminal env op_id DL_FAILED (Some ''ARCHIVE_INVALID''))
      | FileExists \<Rightarrow> mark_terminal env op_id DL_FAILED (Some ''INSTALL_CONFLICT'')
      | HTTPError \<Rightarrow> mark_terminal env op_id DL_FAILED (Some ''DOWNLOAD_FAILED'')
      | Unexpected _ \<Rightarrow> mark_terminal env op_id DL_FAILED (Some ''INTERNAL''))"

definition run_operation ::
  "install_env \<Rightarrow> model_manifest \<Rightarrow> download_source \<Rightarrow> model_download \<Rightarrow> model_download install_step" where
  "run_operation env m primary op s =
     (case run_stages env m primary op (s\<lparr>in_last_persisted := md_downloaded_bytes op\<rparr>) of
        (Inl e, s') \<Rightarrow> on_error env m (md_operation_id op) e s'
      | (Inr op', s') \<Rightarrow> (Inr op', s'))"

definition install_model_locked :: "install_env \<Rightarrow> model_manifest \<Rightarrow> model_download install_step" where
  "install_model_locked env m =
     andthen (already_active m) (\<lambda>existing.
       case existing of
         Some op \<Rightarrow> give op
       | None \<Rightarrow>
           (case mm_sources m of
              [] \<Rightarrow> fail (Unexpected (OtherException ''IndexError''))
            | primary # _ \<Rightarrow>
                andthen (get_or_create_operation env m primary) (\<lambda>op. run_operation env m primary op)))"

definition install_model :: "install_env \<Rightarrow> model_manifest \<Rightarrow> model_download install_step" where
  "install_model env m =
     (if \<not> is_releasable m then fail (Unexpected (ValueError ''NOT_RELEASABLE'')) else install_model_locked env m)"

end
