(* ===== verification/ArchiveTheorems.thy ===== *)
theory ArchiveTheorems
  imports Archives
begin

text \<open>
  What unpacking a model guarantees: an extraction writes declared files only, each within its
  declared size and all together within the declared installed size, whatever the archive holds
  and wherever it stops; an installation that succeeds leaves exactly the declared files, and
  none replaces an existing version directory.
\<close>

section \<open>The invariant of an extraction\<close>

definition dir_bytes :: "dir \<Rightarrow> int" where
  "dir_bytes d = sum_list (map (\<lambda>(_, c). int (length c)) d)"

definition extraction_bounded :: "int \<Rightarrow> (utext \<times> model_file) list \<Rightarrow> extraction \<Rightarrow> bool" where
  "extraction_bounded limit expected st \<longleftrightarrow>
     dir_bytes (ex_files st) \<le> limit \<and>
     (\<forall>(n, c) \<in> set (ex_files st). \<exists>f. map_of expected n = Some f \<and> int (length c) \<le> mf_size_bytes f)"

definition files_verified :: "(nat list \<Rightarrow> string) \<Rightarrow> (utext \<times> model_file) list \<Rightarrow> dir \<Rightarrow> bool" where
  "files_verified sha256 expected d \<longleftrightarrow>
     (\<forall>(n, c) \<in> set d. \<exists>f. map_of expected n = Some f \<and> int (length c) = mf_size_bytes f \<and> sha256 c = mf_sha256 f)"

definition copied_ok ::
  "(nat list \<Rightarrow> string) \<Rightarrow> int \<Rightarrow> (utext \<times> model_file) list \<Rightarrow> extraction \<Rightarrow> bool" where
  "copied_ok sha256 limit expected st \<longleftrightarrow>
     (\<forall>f \<in> ran (map_of expected). 0 \<le> mf_size_bytes f) \<and>
     files_verified sha256 expected (ex_files st) \<and>
     dir_bytes (ex_files st) \<le> ex_spent st \<and> ex_spent st \<le> limit"

definition extraction_ok ::
  "(nat list \<Rightarrow> string) \<Rightarrow> int \<Rightarrow> (utext \<times> model_file) list \<Rightarrow> extraction \<Rightarrow> bool" where
  "extraction_ok sha256 limit expected st \<longleftrightarrow>
     copied_ok sha256 limit expected st \<and> set (ex_extracted st) = fst ` set (ex_files st)"

lemma copied_ok_bounded: "copied_ok sha256 limit expected st \<Longrightarrow> extraction_bounded limit expected st"
  by (fastforce simp: copied_ok_def extraction_bounded_def files_verified_def)

lemma extraction_ok_bounded: "extraction_ok sha256 limit expected st \<Longrightarrow> extraction_bounded limit expected st"
  by (rule copied_ok_bounded [of sha256]) (simp add: extraction_ok_def)

lemma set_alist_update: "(n', c') \<in> set (AList.update n c d) \<Longrightarrow> (n', c') = (n, c) \<or> (n', c') \<in> set d"
  by (induction d) (auto split: if_splits)

lemma dir_bytes_update: "dir_bytes (AList.update n c d) \<le> dir_bytes d + int (length c)"
  by (induction d) (auto simp: dir_bytes_def)

lemma copy_chunks_bounds:
  assumes "copy_chunks declared limit cs fault w s = (w', s', e)" "int (length w) \<le> declared" "s \<le> limit"
  shows "int (length w') \<le> declared \<and> s + int (length w') - int (length w) \<le> limit \<and>
     s + int (length w') - int (length w) \<le> s' \<and> (e = None \<longrightarrow> s' \<le> limit)"
  using assms by (induction declared limit cs fault w s rule: copy_chunks.induct) (auto split: if_splits)

lemma stream_copy_cases:
  assumes "stream_copy sha256 limit expected src name st = (st', e)"
  obtains "st' = st" "e \<noteq> None"
    | f w s err where "map_of expected name = Some f"
        "copy_chunks (mf_size_bytes f) limit (bs_chunks src) (bs_fault src) [] (ex_spent st) = (w, s, err)"
        "st' = st\<lparr>ex_files := AList.update name w (ex_files st), ex_spent := s\<rparr>"
        "e = None \<Longrightarrow> err = None \<and> int (length w) = mf_size_bytes f \<and> sha256 w = mf_sha256 f"
proof (cases "map_of expected name")
  case None
  then show ?thesis using assms by (intro that(1)) (auto simp: stream_copy_def)
next
  case f: (Some f)
  show ?thesis
  proof (cases "blocked_name (ex_files st) name")
    case (Some er)
    then have "st' = st" "e = Some er" using assms f by (simp_all add: stream_copy_def)
    then show ?thesis using that(1) by simp
  next
    case None
    obtain w s err where c: "copy_chunks (mf_size_bytes f) limit (bs_chunks src) (bs_fault src) [] (ex_spent st) = (w, s, err)"
      using prod_cases3 by blast
    show ?thesis
      by (rule that(2) [OF f c]) (use assms f None c in \<open>auto simp: stream_copy_def split: option.splits if_splits\<close>)
  qed
qed

lemma stream_copy_keeps:
  assumes ok: "copied_ok sha256 limit expected st"
    and run: "stream_copy sha256 limit expected src name st = (st', e)"
  shows "extraction_bounded limit expected st' \<and> ex_extracted st' = ex_extracted st \<and>
     (e = None \<longrightarrow> copied_ok sha256 limit expected st' \<and> fst ` set (ex_files st') = insert name (fst ` set (ex_files st)))"
proof -
  consider (stay) "st' = st" "e \<noteq> None"
    | (copy) f w s err where "map_of expected name = Some f"
        "copy_chunks (mf_size_bytes f) limit (bs_chunks src) (bs_fault src) [] (ex_spent st) = (w, s, err)"
        "st' = st\<lparr>ex_files := AList.update name w (ex_files st), ex_spent := s\<rparr>"
        "e = None \<Longrightarrow> err = None \<and> int (length w) = mf_size_bytes f \<and> sha256 w = mf_sha256 f"
    by (rule stream_copy_cases [OF run]) blast+
  then show ?thesis
  proof cases
    case stay
    then show ?thesis using copied_ok_bounded [OF ok] by auto
  next
    case copy
    have f: "0 \<le> mf_size_bytes f" using ok copy(1) by (auto simp: copied_ok_def ran_def)
    have b: "int (length w) \<le> mf_size_bytes f" "ex_spent st + int (length w) \<le> limit"
        "ex_spent st + int (length w) \<le> s" "err = None \<Longrightarrow> s \<le> limit"
      using copy_chunks_bounds [OF copy(2)] f ok by (auto simp: copied_ok_def)
    have t: "dir_bytes (ex_files st') \<le> ex_spent st + int (length w)"
      using dir_bytes_update [of name w "ex_files st"] ok by (simp add: copy(3) copied_ok_def)
    have "extraction_bounded limit expected st'"
      using t b copy(1) copied_ok_bounded [OF ok]
      by (fastforce simp: extraction_bounded_def copy(3) dest: set_alist_update)
    moreover have "files_verified sha256 expected (ex_files st')" if "e = None"
      using ok copy(1) copy(4) [OF that]
      by (fastforce simp: copied_ok_def files_verified_def copy(3) dest: set_alist_update)
    ultimately show ?thesis using ok t b copy(4) by (auto simp: copy(3) dom_update copied_ok_def)
  qed
qed

lemma mark_extracted_keeps:
  assumes "extraction_ok sha256 limit expected st"
    "mark_extracted name (stream_copy sha256 limit expected src name st) = (st', e)"
  shows "extraction_bounded limit expected st' \<and> (e = None \<longrightarrow> extraction_ok sha256 limit expected st')"
proof -
  obtain u e' where u: "stream_copy sha256 limit expected src name st = (u, e')"
    by (cases "stream_copy sha256 limit expected src name st")
  have k: "extraction_bounded limit expected u" "ex_extracted u = ex_extracted st"
      "e' = None \<Longrightarrow> copied_ok sha256 limit expected u \<and> fst ` set (ex_files u) = insert name (fst ` set (ex_files st))"
    using stream_copy_keeps [OF _ u] assms(1) by (auto simp: extraction_ok_def)
  show ?thesis
  proof (cases e')
    case None
    then have "st' = u\<lparr>ex_extracted := ex_extracted u @ [name]\<rparr>" using assms(2) by (simp add: u mark_extracted_def)
    then show ?thesis using k None assms(1)
      by (simp add: extraction_ok_def copied_ok_def extraction_bounded_def)
  next
    case (Some er)
    then have "st' = u" "e = Some er" using assms(2) by (simp_all add: u mark_extracted_def)
    then show ?thesis using k(1) by simp
  qed
qed

lemma register_same_files:
  assumes "register expected name r st = Inr st'"
  shows "ex_files st' = ex_files st \<and> ex_spent st' = ex_spent st \<and> ex_extracted st' = ex_extracted st"
  using assms by (auto simp: register_def check_root_def split: if_splits option.splits)

lemma extract_file_keeps:
  assumes ok: "extraction_ok sha256 limit expected st"
    and run: "extract_file sha256 limit expected raw announced src st = (st', e)"
  shows "extraction_bounded limit expected st' \<and> (e = None \<longrightarrow> extraction_ok sha256 limit expected st')"
proof (cases "member_target raw")
  case (Inl er)
  then show ?thesis using run ok extraction_ok_bounded [OF ok] by (auto simp: extract_file_def)
next
  case t: (Inr nr)
  show ?thesis
  proof (cases "register expected (fst nr) (snd nr) st")
    case (Inl er)
    then show ?thesis using run t ok extraction_ok_bounded [OF ok] by (auto simp: extract_file_def split: prod.splits)
  next
    case (Inr u)
    have u: "extraction_ok sha256 limit expected u"
      using ok register_same_files [OF Inr] by (simp add: extraction_ok_def copied_ok_def)
    show ?thesis
      using run t Inr u extraction_ok_bounded [OF u] mark_extracted_keeps [OF u]
      by (auto simp: extract_file_def split: prod.splits if_splits option.splits)
  qed
qed

section \<open>Readers\<close>

text \<open>A reader of members: each step keeps the invariant, and what it has written when it fails is bounded.\<close>

locale member_reader =
  fixes step :: "'m \<Rightarrow> extraction \<Rightarrow> extraction \<times> install_error option"
    and good bounded :: "extraction \<Rightarrow> bool"
  assumes good_bounded: "good st \<Longrightarrow> bounded st"
    and step_keeps: "good st \<Longrightarrow> step m st = (st', e) \<Longrightarrow> bounded st' \<and> (e = None \<longrightarrow> good st')"
begin

lemma members_keep:
  assumes "good st" "extract_members step index ms fault st = (st', e)"
  shows "bounded st' \<and> (e = None \<longrightarrow> good st')"
  using assms
proof (induction ms arbitrary: index st)
  case Nil
  then show ?case using good_bounded by auto
next
  case (Cons m ms)
  obtain u er where u: "step m st = (u, er)" by (cases "step m st")
  show ?case
    using Cons.prems Cons.IH good_bounded step_keeps [OF Cons.prems(1) u]
    by (auto simp: u split: if_splits option.splits)
qed

end

interpretation tar: member_reader "tar_member_step sha256 limit expected"
  "extraction_ok sha256 limit expected" "extraction_bounded limit expected" for sha256 limit expected
  by unfold_locales (auto simp: extraction_ok_bounded tar_member_step_def extract_file_keeps split: member_kind.splits)

interpretation zip: member_reader "zip_member_step sha256 limit expected"
  "extraction_ok sha256 limit expected" "extraction_bounded limit expected" for sha256 limit expected
  by unfold_locales (auto simp: extraction_ok_bounded zip_member_step_def Let_def extract_file_keeps split: if_splits)

lemma map_of_expected:
  assumes "map_of (expected_files m) n = Some f"
  shows "f \<in> set (mm_files m)" "mf_name f = n"
  using map_of_SomeD [OF assms] by (auto simp: expected_files_def)

lemma expected_ok:
  assumes "manifest_ok sha256 m"
  shows "\<forall>f \<in> ran (map_of (expected_files m)). 0 \<le> mf_size_bytes f" "0 \<le> mm_installed_size_bytes m"
  using assms map_of_expected(1) manifest_files(3) [OF assms]
  by (fastforce simp: ran_def manifest_ok_def)+

lemma new_extraction_ok:
  assumes "manifest_ok sha256' m"
  shows "extraction_ok sha256 (mm_installed_size_bytes m) (expected_files m) new_extraction"
  using expected_ok [OF assms] by (simp add: extraction_ok_def copied_ok_def new_extraction_def files_verified_def dir_bytes_def)

lemma extract_archive_keeps:
  assumes "manifest_ok sha256' m" "extract_archive lib archive m = (st, e)"
  shows "extraction_bounded (mm_installed_size_bytes m) (expected_files m) st \<and>
     (e = None \<longrightarrow> extraction_ok (al_sha256 lib) (mm_installed_size_bytes m) (expected_files m) st)"
proof -
  note new = new_extraction_ok [OF assms(1), of "al_sha256 lib"]
  note bnd = extraction_ok_bounded [OF new]
  show ?thesis
    using assms(2) new bnd tar.members_keep [OF new] zip.members_keep [OF new] mark_extracted_keeps [OF new]
    by (auto simp: extract_archive_def Let_def split: if_splits prod.splits sum.splits list.splits)
qed

lemma extract_and_verify_keeps:
  assumes "manifest_ok sha256' m" "extract_and_verify lib archive m = (st, e)"
  shows "extraction_bounded (mm_installed_size_bytes m) (expected_files m) st"
    and "e = None \<Longrightarrow> extraction_ok (al_sha256 lib) (mm_installed_size_bytes m) (expected_files m) st \<and>
      fst ` set (expected_files m) \<subseteq> set (ex_extracted st)"
proof -
  obtain u er where u: "extract_archive lib archive m = (u, er)" by (cases "extract_archive lib archive m")
  show "extraction_bounded (mm_installed_size_bytes m) (expected_files m) st"
    and "e = None \<Longrightarrow> extraction_ok (al_sha256 lib) (mm_installed_size_bytes m) (expected_files m) st \<and>
      fst ` set (expected_files m) \<subseteq> set (ex_extracted st)"
    using assms(2) extract_archive_keeps [OF assms(1) u]
    by (auto simp: extract_and_verify_def u list_all_iff split: option.splits if_splits)
qed

section \<open>What is installed\<close>

definition declared_signature :: "model_manifest \<Rightarrow> (utext \<times> int \<times> string) set" where
  "declared_signature m = (\<lambda>f. (mf_name f, mf_size_bytes f, mf_sha256 f)) ` set (mm_files m)"

lemma expected_unique:
  assumes "manifest_ok sha256 m" "f \<in> set (mm_files m)"
  shows "map_of (expected_files m) (mf_name f) = Some f"
  using assms
  by (intro map_of_is_SomeI)
    (auto simp: manifest_ok_def artifact_consistent_def expected_files_def comp_def rev_map [symmetric])

lemma verified_signature:
  assumes m: "manifest_ok sha256' m" and ok: "files_verified sha256 (expected_files m) d"
    and full: "fst ` set (expected_files m) \<subseteq> fst ` set d"
  shows "dir_signature sha256 d = declared_signature m"
proof
  show "dir_signature sha256 d \<subseteq> declared_signature m"
    using ok map_of_expected by (fastforce simp: dir_signature_def declared_signature_def files_verified_def)
  show "declared_signature m \<subseteq> dir_signature sha256 d"
  proof
    fix t assume "t \<in> declared_signature m"
    then obtain f where f: "f \<in> set (mm_files m)" "t = (mf_name f, mf_size_bytes f, mf_sha256 f)"
      by (auto simp: declared_signature_def)
    have "mf_name f \<in> fst ` set (expected_files m)" using f(1) by (force simp: expected_files_def)
    then obtain c where c: "(mf_name f, c) \<in> set d" using full by force
    then show "t \<in> dir_signature sha256 d"
      using ok expected_unique [OF m f(1)] f(2) by (force simp: files_verified_def dir_signature_def)
  qed
qed

lemma promote_signature:
  assumes "promote lib staging dest = (None, dest')" "dir_signature (al_sha256 lib) staging = S"
  shows "\<exists>d. dest' = Some d \<and> dir_signature (al_sha256 lib) d = S"
  using assms by (auto simp: promote_def split: option.splits if_splits)

lemma copy_names_keeps:
  assumes "copied_ok sha256 limit expected st"
    "copy_names sha256 limit expected source names st = (st', None)"
  shows "copied_ok sha256 limit expected st' \<and> fst ` set (ex_files st') = fst ` set (ex_files st) \<union> set names"
  using assms
proof (induction names arbitrary: st)
  case (Cons name names)
  then obtain c where c: "map_of source name = Some c" by (auto split: option.splits)
  obtain u er where u: "stream_copy sha256 limit expected (file_stream c) name st = (u, er)"
    by (cases "stream_copy sha256 limit expected (file_stream c) name st")
  show ?case
    using Cons.prems(2) Cons.IH [of u] stream_copy_keeps [OF Cons.prems(1) u]
    by (auto simp: c u split: option.splits)
qed simp

lemma install_keeps_dest:
  assumes "(e, dest') = install_archive lib archive m dest \<or> (e, dest') = install_file_set lib source m dest"
    and "e \<noteq> None \<or> dest \<noteq> None"
  shows "dest' = dest"
  using assms by (auto simp: install_archive_def install_file_set_def promote_def split: option.splits if_splits prod.splits)

lemma install_declared:
  assumes "manifest_ok (al_sha256 lib) m"
    and "(None, dest') = install_archive lib archive m dest \<or> (None, dest') = install_file_set lib source m dest"
  shows "\<exists>d. dest' = Some d \<and> dir_signature (al_sha256 lib) d = declared_signature m"
proof -
  have "\<exists>st :: extraction. files_verified (al_sha256 lib) (expected_files m) (ex_files st) \<and>
      fst ` set (expected_files m) \<subseteq> fst ` set (ex_files st) \<and> promote lib (ex_files st) dest = (None, dest')"
  proof (cases "(None, dest') = install_archive lib archive m dest")
    case True
    obtain st where st: "extract_and_verify lib archive m = (st, None)" "promote lib (ex_files st) dest = (None, dest')"
      using True by (auto simp: install_archive_def split: prod.splits option.splits)
    then show ?thesis
      using extract_and_verify_keeps(2) [OF assms(1) st(1)]
      by (intro exI [of _ st]) (auto simp: extraction_ok_def copied_ok_def)
  next
    case False
    then obtain st where st: "copy_names (al_sha256 lib) (mm_installed_size_bytes m) (expected_files m) source
          (sort (remdups (map fst (expected_files m)))) new_extraction = (st, None)"
        "promote lib (ex_files st) dest = (None, dest')"
      using assms(2) by (auto simp: install_file_set_def split: prod.splits option.splits if_splits)
    have "copied_ok (al_sha256 lib) (mm_installed_size_bytes m) (expected_files m) new_extraction"
      using new_extraction_ok [OF assms(1)] by (simp add: extraction_ok_def)
    then show ?thesis
      using copy_names_keeps [OF _ st(1)] st(2) by (intro exI [of _ st]) (simp add: copied_ok_def new_extraction_def)
  qed
  then show ?thesis using promote_signature [OF _ verified_signature [OF assms(1)]] by blast
qed

text \<open>
  C14. A model that is installed consists of exactly the files its manifest declares, with their
  sizes and digests, whatever the archive holds, in whichever order, and whatever else it
  announces; this is so for an archive and for a set of files. An installation that fails leaves
  the version directory as it was, and one that succeeds where a version is already installed
  keeps that one.
\<close>

theorem installed_model_is_declared:
  assumes "manifest_ok (al_sha256 lib) m"
    and "(e, dest') = install_archive lib archive m dest \<or> (e, dest') = install_file_set lib source m dest"
  shows "(e = None \<longrightarrow> (\<exists>d. dest' = Some d \<and> dir_signature (al_sha256 lib) d = declared_signature m)) \<and>
     (e \<noteq> None \<or> dest \<noteq> None \<longrightarrow> dest' = dest)"
  using install_keeps_dest [OF assms(2)] install_declared [OF assms(1), of dest' archive dest source] assms(2)
  by (cases e) auto

text \<open>
  C15. An extraction is bounded whatever the archive holds and wherever it stops: it has written
  only files the manifest declares, under names that stay below the staging directory, none
  beyond its declared size and all of them together never beyond the declared installed size.
\<close>

theorem extraction_is_bounded:
  assumes "manifest_ok (al_sha256 lib) m" "extract_and_verify lib archive m = (st, e)"
  shows "dir_bytes (ex_files st) \<le> mm_installed_size_bytes m \<and>
    list_all (\<lambda>(n, c). list_ex (\<lambda>f. n = mf_name f \<and> int (length c) \<le> mf_size_bytes f \<and> safe_parts (split_on 47 n))
      (mm_files m)) (ex_files st)"
  using extract_and_verify_keeps(1) [OF assms] map_of_expected manifest_files(2) [OF assms(1)]
  by (fastforce simp: extraction_bounded_def list_all_iff list_ex_iff)

section \<open>A complete file set\<close>

lemma read_chunks_whole: "length c \<le> n \<Longrightarrow> concat (read_chunks n c) = c \<and> [] \<notin> set (read_chunks n c)"
  by (induction n c rule: read_chunks.induct) (auto simp: CHUNK_def take_eq_Nil2)

lemma file_stream_whole:
  "concat (bs_chunks (file_stream c)) = c" "[] \<notin> set (bs_chunks (file_stream c))" "bs_fault (file_stream c) = None"
  using read_chunks_whole [of c "length c"] by (simp_all add: file_stream_def)

lemma copy_chunks_whole:
  assumes "[] \<notin> set cs" "int (length (w @ concat cs)) \<le> declared" "s + int (length (concat cs)) \<le> limit"
  shows "copy_chunks declared limit cs None w s = (w @ concat cs, s + int (length (concat cs)), None)"
  using assms by (induction cs arbitrary: w s) auto

lemma alist_update_fresh: "n \<notin> fst ` set d \<Longrightarrow> AList.update n c d = d @ [(n, c)]"
  by (induction d) auto

lemma stream_copy_whole:
  assumes "map_of expected name = Some f" "blocked_name (ex_files st) name = None" "name \<notin> fst ` set (ex_files st)"
    "int (length c) = mf_size_bytes f" "sha256 c = mf_sha256 f" "ex_spent st + int (length c) \<le> limit"
  shows "stream_copy sha256 limit expected (file_stream c) name st =
     (st\<lparr>ex_files := ex_files st @ [(name, c)], ex_spent := ex_spent st + int (length c)\<rparr>, None)"
proof -
  have "copy_chunks (mf_size_bytes f) limit (bs_chunks (file_stream c)) (bs_fault (file_stream c)) [] (ex_spent st) =
      (c, ex_spent st + int (length c), None)"
    using copy_chunks_whole [OF file_stream_whole(2) [of c], of "[]"] assms(4,6) by (simp add: file_stream_whole)
  then show ?thesis using assms by (simp add: stream_copy_def alist_update_fresh)
qed

lemma blocked_name_mono:
  assumes "blocked_name d n = None" "fst ` set d' \<subseteq> fst ` set d"
  shows "blocked_name d' n = None"
proof -
  have "list_ex (\<lambda>(p, _). P p) d' \<Longrightarrow> list_ex (\<lambda>(p, _). P p) d" for P :: "utext \<Rightarrow> bool"
    using assms(2) by (force simp: list_ex_iff)
  then show ?thesis using assms by (auto simp: blocked_name_def split: if_splits)
qed

text \<open>What is copied, when every file of \<open>source\<close> is as declared.\<close>

lemma copy_names_whole:
  assumes "\<And>n c. map_of source n = Some c \<Longrightarrow>
       \<exists>f. map_of expected n = Some f \<and> int (length c) = mf_size_bytes f \<and> sha256 c = mf_sha256 f"
    and "\<And>n. n \<in> fst ` set source \<Longrightarrow> blocked_name source n = None"
    and "distinct (map fst (ex_files st) @ names)" "set names \<subseteq> fst ` set source" "set (ex_files st) \<subseteq> set source"
    and "ex_spent st + (\<Sum>n\<leftarrow>names. int (length (the (map_of source n)))) \<le> limit"
  shows "\<exists>st'. copy_names sha256 limit expected source names st = (st', None) \<and>
     ex_files st' = ex_files st @ map (\<lambda>n. (n, the (map_of source n))) names"
  using assms(3-)
proof (induction names arbitrary: st)
  case (Cons name names)
  have "map_of source name \<noteq> None" using Cons.prems(2) by (auto simp: map_of_eq_None_iff)
  then obtain c where c: "map_of source name = Some c" by blast
  then obtain f where f: "map_of expected name = Some f" "int (length c) = mf_size_bytes f" "sha256 c = mf_sha256 f"
    using assms(1) by blast
  have nn: "0 \<le> (\<Sum>n\<leftarrow>names. int (length (the (map_of source n))))" by (rule sum_list_nonneg) auto
  have b: "blocked_name (ex_files st) name = None"
  proof (rule blocked_name_mono)
    show "blocked_name source name = None" using assms(2) Cons.prems(2) by simp
    show "fst ` set (ex_files st) \<subseteq> fst ` set source" using Cons.prems(3) by (rule image_mono)
  qed
  let ?st = "st\<lparr>ex_files := ex_files st @ [(name, c)], ex_spent := ex_spent st + int (length c)\<rparr>"
  have s: "stream_copy sha256 limit expected (file_stream c) name st = (?st, None)"
  proof (rule stream_copy_whole)
    show "name \<notin> fst ` set (ex_files st)" using Cons.prems(1) by auto
    show "ex_spent st + int (length c) \<le> limit" using Cons.prems(4) c nn by simp
  qed (use f b in simp_all)
  show ?case
    using Cons.IH [of ?st] Cons.prems c map_of_SomeD [OF c] by (simp add: s add.assoc)
qed simp

text \<open>
  A directory that holds exactly the files a file-set manifest declares, with their sizes and
  digests, is installed: nothing in the copy, in its budget or in the order of the names rejects
  it, and the new version directory holds the same files.
\<close>

theorem good_file_set_installs:
  assumes "manifest_ok (al_sha256 lib) m" "mm_archive_format m = ''file-set''" "al_replace_fault lib = None"
    and "distinct (map fst source)" "dir_signature (al_sha256 lib) source = declared_signature m"
    and "list_all (\<lambda>(n, _). blocked_name source n = None) source"
  shows "\<exists>d. install_file_set lib source m None = (None, Some d) \<and> set d = set source"
proof -
  let ?names = "sort (remdups (map fst (expected_files m)))"
  have good: "\<exists>f. f \<in> set (mm_files m) \<and> mf_name f = n \<and> int (length c) = mf_size_bytes f \<and> al_sha256 lib c = mf_sha256 f"
    if "(n, c) \<in> set source" for n c
  proof -
    have "(n, int (length c), al_sha256 lib c) \<in> declared_signature m"
      using that assms(5) by (force simp: dir_signature_def)
    then show ?thesis by (auto simp: declared_signature_def)
  qed
  have names: "fst ` set source = fst ` set (expected_files m)"
  proof -
    have "fst ` dir_signature (al_sha256 lib) source = fst ` declared_signature m" using assms(5) by simp
    then show ?thesis by (simp add: dir_signature_def declared_signature_def expected_files_def image_image split_def)
  qed
  have exp: "\<exists>f. map_of (expected_files m) n = Some f \<and> int (length c) = mf_size_bytes f \<and> al_sha256 lib c = mf_sha256 f"
    if "map_of source n = Some c" for n c
    using good [OF map_of_SomeD [OF that]] expected_unique [OF assms(1)] by blast
  have size: "int (length (the (map_of source (mf_name f)))) = mf_size_bytes f" if "f \<in> set (mm_files m)" for f
  proof -
    have "mf_name f \<in> fst ` set source" using that by (force simp: names expected_files_def)
    then have "map_of source (mf_name f) \<noteq> None" by (simp add: map_of_eq_None_iff)
    then obtain c where "map_of source (mf_name f) = Some c" by blast
    then show ?thesis using exp expected_unique [OF assms(1) that] by fastforce
  qed
  have "(\<Sum>n\<leftarrow>?names. int (length (the (map_of source n)))) =
      (\<Sum>n\<leftarrow>map mf_name (mm_files m). int (length (the (map_of source n))))"
    using assms(1)
    by (simp add: sum_list_distinct_conv_sum_set manifest_ok_def artifact_consistent_def expected_files_def comp_def
        del: map_map) (simp add: image_image)
  also have "\<dots> = sum_list (map mf_size_bytes (mm_files m))"
    by (simp add: comp_def size cong: map_cong)
  also have "\<dots> = mm_installed_size_bytes m" using assms(1) by (simp add: manifest_ok_def artifact_consistent_def)
  finally have total: "(\<Sum>n\<leftarrow>?names. int (length (the (map_of source n)))) = mm_installed_size_bytes m" .
  have "\<exists>st. copy_names (al_sha256 lib) (mm_installed_size_bytes m) (expected_files m) source ?names new_extraction = (st, None) \<and>
      ex_files st = ex_files new_extraction @ map (\<lambda>n. (n, the (map_of source n))) ?names"
  proof (rule copy_names_whole [OF exp])
    show "blocked_name source n = None" if "n \<in> fst ` set source" for n
      using assms(6) that by (auto simp: list_all_iff)
  qed (use names total in \<open>simp_all add: new_extraction_def\<close>)
  then obtain st where st: "copy_names (al_sha256 lib) (mm_installed_size_bytes m) (expected_files m) source ?names new_extraction = (st, None)"
      "ex_files st = map (\<lambda>n. (n, the (map_of source n))) ?names"
    by (auto simp: new_extraction_def)
  have "set (ex_files st) = set source"
    using assms(4) names by (force simp: st(2) simp flip: names dest: map_of_SomeD)
  then show ?thesis using assms(2,3) names st(1) by (simp add: install_file_set_def promote_def)
qed

section \<open>Sample manifests\<close>

text \<open>One file of three bytes, packed in a tar archive or downloaded as it is; one digest for all.\<close>

definition sample_digest :: string where
  "sample_digest = replicate 64 (CHR ''a'')"

definition sample_manifest :: "string \<Rightarrow> utext option \<Rightarrow> model_manifest" where
  "sample_manifest format source_path =
     \<lparr>mm_model_id = ''m'', mm_version = ''1'', mm_provider = ''p'', mm_languages = [''zh''],
      mm_platforms = [''linux-x86_64''], mm_compressed_size_bytes = 3, mm_installed_size_bytes = 3,
      mm_license = ''MIT'', mm_attribution = ''a'', mm_upstream_url = ''u'', mm_redistribution = ''mirror_approved'',
      mm_archive_format = format,
      mm_sources = [\<lparr>ds_url = codes ''https://h/m'', ds_kind = ''cdn'', ds_sha256 = sample_digest, ds_size_bytes = 3\<rparr>],
      mm_files = [\<lparr>mf_name = codes ''m.bin'', mf_source_path = source_path, mf_size_bytes = 3, mf_sha256 = sample_digest\<rparr>]\<rparr>"

definition sample_archives :: archive_lib where
  "sample_archives =
     \<lparr>al_sha256 = (\<lambda>_. sample_digest),
      al_tar = (\<lambda>_. ([\<lparr>tm_name = codes ''r/'', tm_kind = DirMember, tm_size = 0, tm_stream = None\<rparr>,
                      \<lparr>tm_name = codes ''r/m.bin'', tm_kind = FileMember, tm_size = 3,
                       tm_stream = Some \<lparr>bs_chunks = [[1, 2], [3], []], bs_fault = None\<rparr>\<rparr>], None)),
      al_zip = (\<lambda>_. Inl (Unexpected (OtherException ''BadZipFile''))), al_replace_fault = None\<rparr>"

lemma sample_manifest_ok:
  "manifest_ok (al_sha256 sample_archives) (sample_manifest ''tar.gz'' None)"
  "manifest_ok (al_sha256 sample_archives) (sample_manifest ''file-set'' (Some (codes ''m.bin'')))"
  by code_simp+

lemma sample_extraction:
  "extract_and_verify sample_archives [] (sample_manifest ''tar.gz'' None) =
     (\<lparr>ex_files = [(codes ''m.bin'', [1, 2, 3])], ex_spent = 3, ex_extracted = [codes ''m.bin''],
       ex_root = Some (codes ''r''), ex_bare = False\<rparr>, None)"
  by code_simp

theorem installed_model_is_declared_witness:
  "dir_signature (\<lambda>_. sample_digest) [(codes ''m.bin'', [1, 2, 3])] =
     declared_signature (sample_manifest ''tar.gz'' None)"
proof -
  have "(None, Some [(codes ''m.bin'', [1, 2, 3])]) =
      install_archive sample_archives [] (sample_manifest ''tar.gz'' None) None"
    unfolding install_archive_def sample_extraction by (simp add: promote_def sample_archives_def)
  then show ?thesis
    using installed_model_is_declared [OF sample_manifest_ok(1), of None "Some [(codes ''m.bin'', [1, 2, 3])]" "[]" None]
    by (simp add: sample_archives_def)
qed

theorem extraction_is_bounded_witness:
  "dir_bytes [(codes ''m.bin'', [1, 2, 3])] \<le> mm_installed_size_bytes (sample_manifest ''tar.gz'' None)"
  using extraction_is_bounded [OF sample_manifest_ok(1) sample_extraction] by simp

theorem good_file_set_installs_witness:
  "\<exists>d. install_file_set sample_archives [(codes ''m.bin'', [4, 5, 6])]
     (sample_manifest ''file-set'' (Some (codes ''m.bin''))) None = (None, Some d) \<and> set d = {(codes ''m.bin'', [4, 5, 6])}"
proof -
  let ?m = "sample_manifest ''file-set'' (Some (codes ''m.bin''))" and ?d = "[(codes ''m.bin'', [4, 5, 6 :: nat])]"
  have "mm_archive_format ?m = ''file-set''" "al_replace_fault sample_archives = None" "distinct (map fst ?d)"
      "dir_signature (al_sha256 sample_archives) ?d = declared_signature ?m"
    by (simp_all add: sample_manifest_def sample_archives_def dir_signature_def declared_signature_def)
  moreover have "list_all (\<lambda>(n, _). blocked_name ?d n = None) ?d" by code_simp
  ultimately show ?thesis using good_file_set_installs [OF sample_manifest_ok(2), of ?d] by simp
qed

end
