(* ===== verification/InstallerTheorems.thy ===== *)
theory InstallerTheorems
  imports Installer ArchiveTheorems ModelSteps
begin

text \<open>
  What an installation guarantees whatever the server, the archive, the database and the
  cancellation do: the install and pointer rows change only when the version directory holds
  exactly the declared files, a version directory in place is never replaced, and an operation
  that is returned has ended.
\<close>

section \<open>What repository calls leave alone\<close>

definition both :: "(database \<Rightarrow> bool) \<Rightarrow> session \<Rightarrow> bool" where
  "both P s \<longleftrightarrow> P (committed s) \<and> P (working s)"

fun exit_keeps :: "(database \<Rightarrow> bool) \<Rightarrow> 'a exit \<Rightarrow> bool" where
  "exit_keeps P (CommitDone d js ds x) \<longleftrightarrow> P d"
| "exit_keeps P (CommitRead d js ds f) \<longleftrightarrow> P d"
| "exit_keeps P (KeepWrites d x) \<longleftrightarrow> P d"
| "exit_keeps P _ \<longleftrightarrow> True"

lemma both_session_ops:
  assumes "both P s"
  shows "both P (opened s)" "both P (autobegin s)" "both P (rollback_tx s)" "both P (commit_tx s)"
  using assms by (simp_all add: both_def opened_def exit_defs)

lemma both_leave_tx: "both P s \<Longrightarrow> exit_keeps P x \<Longrightarrow> both P (snd (leave_tx x s))"
  by (cases x) (simp_all add: both_def exit_defs)

lemma both_write_tx:
  assumes "both P s" "\<And>t. both P t \<Longrightarrow> exit_keeps P (body t)"
  shows "both P (snd (write_tx body s))"
proof (cases "startable s")
  case True
  then show ?thesis using assms both_session_ops(1) [OF assms(1)] by (simp add: write_tx_ok both_leave_tx)
next
  case False
  have "both P (snd (ensure_immediate_transaction s))"
    using assms(1) both_session_ops(4) [OF assms(1)]
    by (auto simp: ensure_immediate_transaction_def begin_immediate_def both_def emit_begin_def)
  then show ?thesis
    using ensure_immediate_fail [OF False] by (auto simp: write_tx_def)
qed

text \<open>
  A property of the database that changes of download rows and new operations keep; the calls an
  installation makes before it completes keep it in the committed and in the working database.
\<close>

locale download_contract =
  fixes P :: "database \<Rightarrow> bool"
  assumes patch_keeps: "P d \<Longrightarrow> (\<And>r. md_operation_id (f r) = md_operation_id r) \<Longrightarrow> P (patch_downloads Q f d)"
    and add_keeps: "P d \<Longrightarrow> find_download (md_operation_id r) d = None \<Longrightarrow> P (d\<lparr>downloads := downloads d @ [r]\<rparr>)"
begin

lemma cas_exit_keeps:
  "P d \<Longrightarrow> (\<And>r. md_operation_id (f r) = md_operation_id r) \<Longrightarrow> exit_keeps P (cas_exit k v f d)"
  by (simp add: cas_exit_def patch_keeps)

lemma restart_keeps: "both P s \<Longrightarrow> both P (snd (restart_download k now s))"
  unfolding restart_download_def
  by (rule both_write_tx) (auto simp: both_def split: option.split intro!: cas_exit_keeps)

lemma switch_keeps: "both P s \<Longrightarrow> both P (snd (switch_download_source k url kind now s))"
  unfolding switch_download_source_def
  by (rule both_write_tx) (auto simp: both_def split: option.split intro!: cas_exit_keeps)

lemma progress_keeps: "both P s \<Longrightarrow> both P (snd (update_download_progress k n now tp et lm None s))"
  unfolding update_download_progress_def
  by (rule both_write_tx) (auto simp: both_def Let_def split: option.split intro!: cas_exit_keeps)

lemma advance_keeps: "both P s \<Longrightarrow> both P (snd (advance_download_operation k st now tp et lm ec ed None s))"
  unfolding advance_download_operation_def
  by (rule both_write_tx) (auto simp: both_def Let_def split: option.split sum.split intro!: cas_exit_keeps)

lemma create_keeps: "both P s \<Longrightarrow> both P (snd (create_download_operation k m v u sk sha sz now et lm s))"
  unfolding create_download_operation_def
  by (rule both_write_tx) (auto simp: both_def intro!: add_keeps)

lemma get_keeps: "both P s \<Longrightarrow> both P (snd (get_download_operation k s))"
  by (simp add: get_download_operation_def Let_def both_session_ops)

end

definition frozen :: "model_install list \<Rightarrow> active_model list \<Rightarrow> database \<Rightarrow> bool" where
  "frozen I A d \<longleftrightarrow> installs d = I \<and> actives d = A \<and> downloads_unique d"

lemma frozen_unique: "frozen I A d \<Longrightarrow> downloads_unique d"
  by (simp add: frozen_def)

interpretation rows: download_contract "frozen I A" for I A
proof unfold_locales
  show "frozen I A (patch_downloads Q f d)"
    if "frozen I A d" "\<And>r. md_operation_id (f r) = md_operation_id r" for d Q f
    using that by (simp add: frozen_def downloads_unique_def map_key_update_where)
  show "frozen I A (d\<lparr>downloads := downloads d @ [r]\<rparr>)"
    if "frozen I A d" "find_download (md_operation_id r) d = None" for d r
    using that by (auto simp: frozen_def downloads_unique_def find_download_def select_first_None_iff)
qed

section \<open>The status a call returns\<close>

lemma cas_exit_status:
  assumes "exit_result (cas_exit k v f d) c = Inr r" "downloads_unique d" "\<And>r. md_operation_id (f r) = md_operation_id r"
  shows "\<exists>r0. find_download k d = Some r0 \<and> r = f r0"
proof -
  have row: "list_ex (cas_row k v) (downloads d)" and
    r: "find_download k (patch_downloads (cas_row k v) f d) = Some r"
    using assms(1) by (auto simp: cas_exit_def or_vanished_def split: if_splits option.splits)
  obtain r1 where r1: "r1 \<in> set (downloads d)" "md_operation_id r1 = k" "md_revision r1 = v"
    using row by (auto simp: list_ex_iff cas_row_def)
  have f: "find_download k d = Some r1"
    using distinct_key_select_first [of md_operation_id "downloads d" r1] assms(2) r1
    by (simp add: find_download_def downloads_unique_def)
  have "find_download k (patch_downloads (cas_row k v) f d) = Some (f r1)"
    using r1 f by (simp add: find_download_def select_first_update_where assms(3) cas_row_def)
  then show ?thesis using f r by simp
qed

lemma advance_status:
  assumes "both downloads_unique s" "fst (advance_download_operation k st now tp et lm ec ed None s) = Inr r"
  shows "md_status r = st"
proof -
  note st = result_write_tx_ok [OF assms(2) [unfolded advance_download_operation_def]]
  have u: "downloads_unique (working (opened s))" using both_session_ops(1) [OF assms(1)] by (simp add: both_def)
  show ?thesis
    using assms(2) cas_exit_status [OF _ u]
    by (fastforce simp: advance_download_operation_def result_write_tx [OF st] Let_def split: option.splits sum.splits if_splits)
qed

lemma complete_status:
  assumes "both downloads_unique s" "fst (complete_installation k m v p now s) = Inr r"
  shows "md_status r = DL_COMPLETED"
proof -
  note st = result_write_tx_ok [OF assms(2) [unfolded complete_installation_def]]
  have u: "downloads_unique (put_active m v now (put_install m v p now (working (opened s))))"
    using both_session_ops(1) [OF assms(1)] by (simp add: both_def downloads_unique_def)
  show ?thesis
    using assms(2) cas_exit_status [OF _ u]
    by (fastforce simp: complete_installation_def result_write_tx [OF st] Let_def split: option.splits sum.splits if_splits)
qed

section \<open>What the steps keep\<close>

definition keeps :: "(install_state \<Rightarrow> bool) \<Rightarrow> 'a install_step \<Rightarrow> bool" where
  "keeps J m \<longleftrightarrow> (\<forall>s. J s \<longrightarrow> J (snd (m s)))"

lemma keepsI: "(\<And>s. J s \<Longrightarrow> J (snd (m s))) \<Longrightarrow> keeps J m"
  by (simp add: keeps_def)

lemma keepsD: "keeps J m \<Longrightarrow> J s \<Longrightarrow> m s = (r, t) \<Longrightarrow> J t"
  by (auto simp: keeps_def dest: spec [of _ s])

lemma keeps_basic: "keeps J (give x)" "keeps J (fail e)" "keeps J (or_fail o')"
  by (auto simp: keeps_def give_def fail_def or_fail_def split: option.split)

lemma keeps_andthen: "keeps J m \<Longrightarrow> (\<And>x. keeps J (f x)) \<Longrightarrow> keeps J (andthen m f)"
  by (fastforce simp: keeps_def andthen_def split: prod.splits sum.splits)

lemma download_keeps:
  assumes hooks: "\<And>f n s. dh_progress h = Some f \<Longrightarrow> J s \<Longrightarrow> J (snd (f n s))"
      "\<And>f s. dh_on_restart h = Some f \<Longrightarrow> J s \<Longrightarrow> J (snd (f s))"
      "\<And>f e l s. dh_on_headers h = Some f \<Longrightarrow> J s \<Longrightarrow> J (snd (f e l s))"
    and s: "J s"
  shows "J (snd (snd (download_resumable sha256 http h url sha n et lm file s)))"
proof -
  have call: "J (snd (call_hook (map_option (\<lambda>p. p i) (dh_progress h)) t))" "J (snd (call_hook (dh_on_restart h) t))"
      "J (snd (call_hook (map_option (\<lambda>g. g e l) (dh_on_headers h)) t))" if "J t" for i e l t
    using that hooks by (auto simp: call_hook_def split: option.split)
  have rec: "J (snd (snd (receive n (dh_progress h) cs fault c t)))" if "J t" for cs fault c t
    using that call(1)
    by (induction n "dh_progress h" cs fault c t rule: receive.induct)
      (auto split: prod.split option.split, (metis snd_conv)+)
  have acc: "J (snd (accept_status h n resp file t))" if "J t" for resp t
    using that call(2) [OF that]
    by (auto simp: accept_status_def Let_def split: option.split prod.split)
  have "J (snd (snd (transfer sha256 h sha n resp file s)))" for resp
    using acc [OF s, of resp] call(3) rec
    by (auto simp: transfer_def split: prod.split sum.split option.split) (metis snd_conv)+
  then show ?thesis using s by (auto simp: download_resumable_def Let_def split: sum.split)
qed

text \<open>
  The invariant of an installation that began with the rows \<open>I\<close> and \<open>A\<close> and the version directory
  \<open>V\<close>: operation ids are unique; the rows are untouched or the declared files are in place; and a
  version directory is what it was, or has become the declared one where there was none.
\<close>

definition declared_in_place :: "archive_lib \<Rightarrow> model_manifest \<Rightarrow> install_state \<Rightarrow> bool" where
  "declared_in_place lib m s \<longleftrightarrow>
     (case in_version s of None \<Rightarrow> False | Some d \<Rightarrow> dir_signature (al_sha256 lib) d = declared_signature m)"

definition install_inv ::
  "archive_lib \<Rightarrow> model_manifest \<Rightarrow> model_install list \<Rightarrow> active_model list \<Rightarrow> dir option \<Rightarrow> install_state \<Rightarrow> bool" where
  "install_inv lib m I A V s \<longleftrightarrow>
     both downloads_unique (in_session s) \<and> (V \<noteq> None \<longrightarrow> in_version s = V) \<and>
     (declared_in_place lib m s \<or> both (frozen I A) (in_session s) \<and> in_version s = V)"

interpretation ids: download_contract downloads_unique
proof unfold_locales
  show "downloads_unique (patch_downloads Q f d)"
    if "downloads_unique d" "\<And>r. md_operation_id (f r) = md_operation_id r" for d Q f
    using that by (rule download_store.unique_patch)
  show "downloads_unique (d\<lparr>downloads := downloads d @ [r]\<rparr>)"
    if "downloads_unique d" "find_download (md_operation_id r) d = None" for d r
    using that by (auto simp: downloads_unique_def find_download_def select_first_None_iff)
qed

lemma inv_fields [simp]:
  "install_inv lib m I A V (s\<lparr>in_part := x\<rparr>) = install_inv lib m I A V s"
  "install_inv lib m I A V (s\<lparr>in_set := d\<rparr>) = install_inv lib m I A V s"
  "install_inv lib m I A V (s\<lparr>in_last_persisted := n\<rparr>) = install_inv lib m I A V s"
  "install_inv lib m I A V (s\<lparr>in_cancel_calls := k\<rparr>) = install_inv lib m I A V s"
  by (simp_all add: install_inv_def declared_in_place_def)

lemma inv_session:
  assumes "install_inv lib m I A V s" "\<And>P. download_contract P \<Longrightarrow> both P (in_session s) \<Longrightarrow> both P ss"
  shows "install_inv lib m I A V (s\<lparr>in_session := ss\<rparr>)"
  using assms(1) assms(2) [OF rows.download_contract_axioms] assms(2) [OF ids.download_contract_axioms]
  by (auto simp: install_inv_def declared_in_place_def)

lemma keeps_repo:
  assumes "\<And>P ss. download_contract P \<Longrightarrow> both P ss \<Longrightarrow> both P (snd (f ss))"
  shows "keeps (install_inv lib m I A V) (repo f)"
proof (rule keepsI)
  fix s assume s: "install_inv lib m I A V s"
  have "snd (repo f s) = s\<lparr>in_session := snd (f (in_session s))\<rparr>"
    by (auto simp: repo_def split: prod.split sum.split)
  then show "install_inv lib m I A V (snd (repo f s))" using inv_session [OF s assms] by simp
qed

lemma keeps_repo_calls:
  "keeps (install_inv lib m I A V) (repo (restart_download k now))"
  "keeps (install_inv lib m I A V) (repo (switch_download_source k url kind now))"
  "keeps (install_inv lib m I A V) (repo (update_download_progress k n now tp et lm None))"
  "keeps (install_inv lib m I A V) (repo (advance_download_operation k st now tp et lm ec ed None))"
  "keeps (install_inv lib m I A V) (repo (create_download_operation k mid v u sk sha sz now et lm))"
  "keeps (install_inv lib m I A V) (repo (\<lambda>ss. case get_download_operation k ss of (r, ss) \<Rightarrow> (Inr r, ss)))"
  by (rule keeps_repo, simp add: download_contract.restart_keeps download_contract.switch_keeps
      download_contract.progress_keeps download_contract.advance_keeps download_contract.create_keeps
      download_contract.get_keeps split: prod.split; (metis download_contract.get_keeps snd_conv)?)+

lemma keeps_state:
  "keeps (install_inv lib m I A V) (query f)" "keeps (install_inv lib m I A V) rollback"
  "keeps (install_inv lib m I A V) (set_persisted n)" "keeps (install_inv lib m I A V) (truncate_partial m')"
  "keeps (install_inv lib m I A V) (cancel_check env)"
  by (auto simp: query_def rollback_def set_persisted_def truncate_partial_def cancel_check_def Let_def
      intro!: keepsI inv_session both_session_ops split: option.split)

lemmas keeps_rules = keeps_basic keeps_andthen keeps_repo_calls keeps_state

section \<open>The stages keep the invariant\<close>

lemma hook_keeps: "keeps J f \<Longrightarrow> J s \<Longrightarrow> J (snd (hook f s))"
  by (auto simp: keeps_def hook_def split: prod.splits sum.splits) (metis snd_conv)?

lemma keeps_progress:
  "keeps (install_inv lib m I A V) (save_progress env k n)"
  "keeps (install_inv lib m I A V) (persist_progress env k e n)"
proof -
  show save: "keeps (install_inv lib m I A V) (save_progress env k n)" for n
    unfolding save_progress_def by (rule keeps_rules)
  have "keeps (install_inv lib m I A V) (\<lambda>s.
         if n - in_last_persisted s \<ge> PROGRESS_INTERVAL \<or> n = e
         then andthen (save_progress env k n) (\<lambda>_. set_persisted n) s else (Inr (), s))"
    using keeps_andthen [OF save [of n] keeps_state(3)] by (auto simp: keeps_def)
  then show "keeps (install_inv lib m I A V) (persist_progress env k e n)"
    unfolding persist_progress_def by (auto intro!: keeps_rules)
qed

lemma keeps_callbacks:
  "keeps (install_inv lib m I A V) (on_restart env k)"
  "keeps (install_inv lib m I A V) (on_headers env m' k et lm)"
proof -
  show "keeps (install_inv lib m I A V) (on_restart env k)"
    unfolding on_restart_def by (intro keeps_rules)
  have "keeps (install_inv lib m I A V)
      (andthen (repo (update_download_progress k n (ie_now env) (Some (temp_path env m')) et lm None)) (\<lambda>_. give ()))" for n
    by (intro keeps_rules)
  then show "keeps (install_inv lib m I A V) (on_headers env m' k et lm)"
    by (simp add: keeps_def on_headers_def)
qed

lemma keeps_download_one: "keeps (install_inv lib m I A V) (download_one env k e url n f)"
proof (rule keepsI)
  fix s assume s: "install_inv lib m I A V s"
  let ?h = "\<lparr>dh_progress = Some (\<lambda>i. hook (persist_progress env k e (n + i))), dh_on_restart = None, dh_on_headers = None\<rparr>"
  have "install_inv lib m I A V (snd (snd (download_resumable sh http ?h u sha z et lm fl s)))" for sh http u sha z et lm fl
    by (rule download_keeps [where J = "install_inv lib m I A V"]) (auto intro: s hook_keeps keeps_progress(2))
  then show "install_inv lib m I A V (snd (download_one env k e url n f s))"
    using s by (auto simp: download_one_def split: option.split prod.split) (metis snd_conv)+
qed

lemma keeps_download_source: "keeps (install_inv lib m I A V) (download_from env m' e k op src)"
proof (cases "is_file_set m'")
  case True
  have "keeps (install_inv lib m I A V) (download_files env k e url n fs)" for url n fs
    by (induction fs arbitrary: n) (auto intro: keeps_rules keeps_download_one)
  then show ?thesis using True by (auto simp: download_from_def intro!: keeps_rules)
next
  case False
  let ?h = "\<lparr>dh_progress = Some (\<lambda>n. hook (persist_progress env k e n)), dh_on_restart = Some (hook (on_restart env k)),
      dh_on_headers = Some (\<lambda>et lm. hook (on_headers env m' k et lm))\<rparr>"
  have "install_inv lib m I A V (snd (snd (download_resumable sh http ?h u sha z et lm fl s)))"
    if s: "install_inv lib m I A V s" for sh http u sha z et lm fl s
    by (rule download_keeps [where J = "install_inv lib m I A V"]) (auto intro: s hook_keeps keeps_progress(2) keeps_callbacks)
  then show ?thesis
    using False by (auto simp: keeps_def download_from_def split: prod.split) (metis snd_conv)
qed

lemma keeps_try_sources: "keeps (install_inv lib m I A V) (try_sources env m' e k op srcs)"
proof (induction srcs arbitrary: op)
  case Nil
  show ?case by (auto intro: keeps_rules)
next
  case (Cons src srcs)
  have next_source: "keeps (install_inv lib m I A V)
      (andthen (truncate_partial m') (\<lambda>_. andthen (set_persisted 0) (\<lambda>_.
         andthen (repo (switch_download_source k (map char_of (ds_url f)) (ds_kind f) (ie_now env)))
           (\<lambda>op. try_sources env m' e k op srcs))))" for f
    by (intro keeps_rules Cons.IH)
  show ?case
  proof (rule keepsI)
    fix s assume s: "install_inv lib m I A V s"
    obtain r t where r: "download_from env m' e k op src s = (r, t)" by (cases "download_from env m' e k op src s")
    have t: "install_inv lib m I A V t" by (rule keepsD [OF keeps_download_source s r])
    show "install_inv lib m I A V (snd (try_sources env m' e k op (src # srcs) s))"
      unfolding try_sources.simps(2) r
      using t next_source by (auto simp: keeps_def simp del: try_sources.simps split: sum.split list.split)
  qed
qed

lemma keeps_get_or_create: "keeps (install_inv lib m I A V) (get_or_create_operation env m' src)"
proof -
  have recover: "keeps (install_inv lib m I A V)
      (andthen rollback (\<lambda>_. andthen (query (find_active_download_operation (mm_model_id m'))) (\<lambda>existing.
         case existing of None \<Rightarrow> fail er | Some x \<Rightarrow> give x)))" for er
    by (auto intro!: keeps_rules split: option.split)
  have create: "keeps (install_inv lib m I A V) (\<lambda>s.
      case repo (create_download_operation oid mid v u kd sha z now et lm) s of
        (Inl (Unexpected (IntegrityError x)), s') \<Rightarrow>
          andthen rollback (\<lambda>_. andthen (query (find_active_download_operation (mm_model_id m'))) (\<lambda>existing.
            case existing of None \<Rightarrow> fail (Unexpected (IntegrityError x)) | Some x \<Rightarrow> give x)) s'
      | r \<Rightarrow> r)" for oid mid v u kd sha z now et lm
  proof (rule keepsI)
    fix s assume s: "install_inv lib m I A V s"
    obtain r t where r: "repo (create_download_operation oid mid v u kd sha z now et lm) s = (r, t)"
      by (cases "repo (create_download_operation oid mid v u kd sha z now et lm) s")
    have t: "install_inv lib m I A V t" by (rule keepsD [OF keeps_repo_calls(5) s r])
    show "install_inv lib m I A V (snd (case repo (create_download_operation oid mid v u kd sha z now et lm) s of
        (Inl (Unexpected (IntegrityError x)), s') \<Rightarrow>
          andthen rollback (\<lambda>_. andthen (query (find_active_download_operation (mm_model_id m'))) (\<lambda>existing.
            case existing of None \<Rightarrow> fail (Unexpected (IntegrityError x)) | Some x \<Rightarrow> give x)) s'
      | r \<Rightarrow> r))"
    proof (cases "\<exists>x. r = Inl (Unexpected (IntegrityError x))")
      case True
      then show ?thesis using t recover r by (auto simp: keeps_def)
    next
      case False
      then show ?thesis using t r by (simp split: sum.split install_error.split exn.split)
    qed
  qed
  show ?thesis
    unfolding get_or_create_operation_def
    by (rule keeps_andthen, rule keeps_state) (auto intro!: keeps_rules create split: option.split)
qed

lemma keeps_mark_terminal: "keeps (install_inv lib m I A V) (mark_terminal env k st ec)"
  unfolding mark_terminal_def by (intro keeps_rules) (auto intro!: keeps_rules split: option.split)

lemma keeps_advance: "keeps (install_inv lib m I A V) (advance env k st tp et lm)"
  unfolding advance_def by (rule keeps_rules)

lemma keeps_reconcile: "keeps (install_inv lib m I A V) (reconcile_partial env m' e k op)"
proof (rule keepsI)
  fix s assume s: "install_inv lib m I A V s"
  have "keeps (install_inv lib m I A V) (andthen (truncate_partial m') (\<lambda>_. repo (restart_download k (ie_now env))))"
    by (intro keeps_rules)
  then show "install_inv lib m I A V (snd (reconcile_partial env m' e k op s))"
    using s keeps_repo_calls(3) by (auto simp: reconcile_partial_def Let_def keeps_def give_def)
qed

lemma keeps_downloading: "keeps (install_inv lib m I A V) (downloading_stage env m' e k op)"
  unfolding downloading_stage_def
  by (auto intro!: keeps_rules keeps_reconcile keeps_try_sources keeps_progress(1) keeps_advance)

lemma keeps_verifying: "keeps (install_inv lib m I A V) (verifying_stage env m' e sha k)"
proof -
  have "keeps (install_inv lib m I A V) (andthen (or_fail c) (\<lambda>_. advance env k DL_INSTALLING None None None))" for c
    by (intro keeps_rules keeps_advance)
  then show ?thesis by (simp add: keeps_def verifying_stage_def)
qed

lemma install_files_inv:
  assumes "manifest_ok (al_sha256 (ie_lib env)) m" "install_inv (ie_lib env) m I A V s" "install_files env m s = (r, t)"
  shows "install_inv (ie_lib env) m I A V t \<and> (r = Inr () \<longrightarrow> declared_in_place (ie_lib env) m t)"
proof -
  define call where "call = (if is_file_set m then install_file_set (ie_lib env) (in_set s) m (in_version s)
      else (case in_part s of None \<Rightarrow> (Some (Unexpected (OSError 2 ''FileNotFoundError'')), in_version s)
            | Some c \<Rightarrow> install_archive (ie_lib env) c m (in_version s)))"
  obtain e dest where c: "call = (e, dest)" by (cases call)
  have run: "t = s\<lparr>in_version := dest\<rparr>" "r = Inr () \<longleftrightarrow> e = None"
    using assms(3) c by (auto simp: install_files_def call_def [symmetric] or_fail_def give_def fail_def split: option.splits)
  have disj: "(e, dest) = install_file_set (ie_lib env) (in_set s) m (in_version s) \<or>
      (\<exists>c. (e, dest) = install_archive (ie_lib env) c m (in_version s)) \<or> e \<noteq> None \<and> dest = in_version s"
    using c by (cases "in_part s") (auto simp: call_def split: if_splits, metis+)
  have same: "dest = in_version s" if "e \<noteq> None \<or> in_version s \<noteq> None"
    using disj
  proof (elim disjE exE)
    assume "(e, dest) = install_file_set (ie_lib env) (in_set s) m (in_version s)"
    then show ?thesis using install_keeps_dest [OF disjI2 that] by blast
  next
    fix c assume "(e, dest) = install_archive (ie_lib env) c m (in_version s)"
    then show ?thesis using install_keeps_dest [OF disjI1 that] by blast
  qed simp
  have declared: "\<exists>d. dest = Some d \<and> dir_signature (al_sha256 (ie_lib env)) d = declared_signature m" if e: "e = None"
    using disj [unfolded e] install_declared [OF assms(1)] by blast
  show ?thesis
  proof (cases "e = None")
    case True
    then show ?thesis
      using assms(2) run same declared by (auto simp: install_inv_def declared_in_place_def)
  next
    case False
    then show ?thesis using assms(2) run same by (auto simp: install_inv_def declared_in_place_def)
  qed
qed

lemma downloads_unique_put:
  "downloads_unique (put_active m v now (put_install m v p now d)) = downloads_unique d"
  by (simp add: downloads_unique_def)

lemma complete_unique: "both downloads_unique s \<Longrightarrow> both downloads_unique (snd (complete_installation k m v p now s))"
  unfolding complete_installation_def
  by (rule both_write_tx)
    (auto simp: both_def Let_def downloads_unique_put split: option.split sum.split intro!: ids.cas_exit_keeps)

section \<open>What the steps return\<close>

lemma andthen_Inr: "andthen m f s = (Inr y, t) \<longleftrightarrow> (\<exists>x u. m s = (Inr x, u) \<and> f x u = (Inr y, t))"
  by (auto simp: andthen_def split: prod.splits sum.splits)

lemma inv_unique: "install_inv lib m I A V s \<Longrightarrow> both downloads_unique (in_session s)"
  by (simp add: install_inv_def)

lemma repo_Inr: "repo f s = (Inr x, t) \<Longrightarrow> fst (f (in_session s)) = Inr x"
  by (auto simp: repo_def split: prod.splits sum.splits)

lemma installing_inv:
  assumes "manifest_ok (al_sha256 (ie_lib env)) m" "install_inv (ie_lib env) m I A V s" "installing_stage env m k s = (r, t)"
  shows "install_inv (ie_lib env) m I A V t \<and> (\<forall>op. r = Inr op \<longrightarrow> md_status op = DL_COMPLETED)"
proof -
  obtain r1 u where u: "install_files env m s = (r1, u)" by (cases "install_files env m s")
  note inv = install_files_inv [OF assms(1,2) u]
  show ?thesis
  proof (cases r1)
    case (Inl e)
    then show ?thesis using assms(3) inv u by (auto simp: installing_stage_def andthen_def)
  next
    case (Inr x)
    let ?f = "complete_installation k (mm_model_id m) (mm_version m) (version_path env m) (ie_now env)"
    have rep: "repo ?f u = (r, t)" using assms(3) u Inr by (simp add: installing_stage_def andthen_def)
    then have "t = u\<lparr>in_session := snd (?f (in_session u))\<rparr>" by (auto simp: repo_def split: prod.splits sum.splits)
    moreover have "\<forall>op. r = Inr op \<longrightarrow> md_status op = DL_COMPLETED"
    proof (intro allI impI)
      fix op assume "r = Inr op"
      then have "fst (?f (in_session u)) = Inr op" using rep repo_Inr [of ?f u op t] by simp
      then show "md_status op = DL_COMPLETED" using complete_status inv_unique inv by blast
    qed
    ultimately show ?thesis
      using inv Inr complete_unique [of "in_session u"] by (auto simp: install_inv_def declared_in_place_def)
  qed
qed

lemma mark_terminal_status:
  assumes "install_inv lib m I A V s" "mark_terminal env k st ec s = (Inr op, t)" "st \<in> TERMINAL_DOWNLOAD_STATUSES"
  shows "md_status op \<in> TERMINAL_DOWNLOAD_STATUSES"
proof -
  have "\<exists>u. install_inv lib m I A V u \<and>
      (md_status op \<in> TERMINAL_DOWNLOAD_STATUSES \<or>
       repo (advance_download_operation k st (ie_now env) None None None ec None None) u = (Inr op, t))"
  proof -
    obtain found v u where v: "rollback s = (Inr (), v)"
        "repo (\<lambda>ss. case get_download_operation k ss of (r, ss) \<Rightarrow> (Inr r, ss)) v = (Inr found, u)"
        "(case found of None \<Rightarrow> fail (Unexpected (RuntimeError ''download operation vanished''))
          | Some op \<Rightarrow> if md_status op \<in> TERMINAL_DOWNLOAD_STATUSES then give op
             else repo (advance_download_operation k st (ie_now env) None None None ec None None)) u = (Inr op, t)"
      using assms(2) by (auto simp: mark_terminal_def andthen_Inr)
    have "install_inv lib m I A V v" by (rule keepsD [OF keeps_state(2) assms(1) v(1)])
    then have "install_inv lib m I A V u" by (rule keepsD [OF keeps_repo_calls(6) _ v(2)])
    then show ?thesis using v(3) by (auto simp: give_def fail_def split: option.splits if_splits)
  qed
  then obtain u where u: "install_inv lib m I A V u"
    and op: "md_status op \<in> TERMINAL_DOWNLOAD_STATUSES \<or>
       repo (advance_download_operation k st (ie_now env) None None None ec None None) u = (Inr op, t)" by blast
  from op show ?thesis
  proof
    assume "repo (advance_download_operation k st (ie_now env) None None None ec None None) u = (Inr op, t)"
    from advance_status [OF inv_unique [OF u] repo_Inr [OF this]] show ?thesis using assms(3) by simp
  qed
qed

text \<open>The stages of an operation in progress end completed, and the handlers end it.\<close>

definition ends_in :: "(install_state \<Rightarrow> bool) \<Rightarrow> (model_download \<Rightarrow> bool) \<Rightarrow> model_download install_step \<Rightarrow> bool" where
  "ends_in J Q f \<longleftrightarrow> (\<forall>s r t. J s \<longrightarrow> f s = (r, t) \<longrightarrow> J t \<and> (\<forall>op. r = Inr op \<longrightarrow> Q op))"

lemma ends_in_andthen:
  assumes "keeps J f" "\<And>x. ends_in J Q (g x)"
  shows "ends_in J Q (andthen f g)"
  unfolding ends_in_def
proof (intro allI impI)
  fix s r t assume s: "J s" "andthen f g s = (r, t)"
  obtain a u where u: "f s = (a, u)" by (cases "f s")
  have "J u" by (rule keepsD [OF assms(1) s(1) u])
  then show "J t \<and> (\<forall>op. r = Inr op \<longrightarrow> Q op)"
    using s(2) u assms(2) by (cases a) (auto simp: andthen_def ends_in_def)
qed

lemma ends_in_keeps: "keeps J f \<Longrightarrow> (\<And>s op t. J s \<Longrightarrow> f s = (Inr op, t) \<Longrightarrow> Q op) \<Longrightarrow> ends_in J Q f"
  unfolding keeps_def ends_in_def by (metis snd_conv)

lemma mark_terminal_ends:
  assumes "st \<in> TERMINAL_DOWNLOAD_STATUSES"
  shows "ends_in (install_inv lib m I A V) (\<lambda>op. md_status op \<in> TERMINAL_DOWNLOAD_STATUSES) (mark_terminal env k st ec)"
  by (rule ends_in_keeps [OF keeps_mark_terminal]) (rule mark_terminal_status [OF _ _ assms])

lemma run_stages_ends:
  assumes "manifest_ok (al_sha256 (ie_lib env)) m" "md_status op \<in> ACTIVE_DOWNLOAD_STATUSES"
  shows "ends_in (install_inv (ie_lib env) m I A V) (\<lambda>op. md_status op = DL_COMPLETED) (run_stages env m src op)"
proof -
  have "ends_in (install_inv (ie_lib env) m I A V) (\<lambda>op. md_status op = DL_COMPLETED) (installing_stage env m k)" for k
    using installing_inv [OF assms(1)] unfolding ends_in_def by blast
  then show ?thesis
    using assms(2) unfolding run_stages_def Let_def
    by (auto intro!: ends_in_andthen keeps_advance keeps_basic keeps_downloading keeps_verifying)
qed

lemma on_error_ends:
  "ends_in (install_inv lib m I A V) (\<lambda>op. md_status op \<in> TERMINAL_DOWNLOAD_STATUSES) (on_error env m' k e)"
proof -
  have t: "DL_CANCELLED \<in> TERMINAL_DOWNLOAD_STATUSES" "DL_FAILED \<in> TERMINAL_DOWNLOAD_STATUSES"
    by (simp_all add: TERMINAL_DOWNLOAD_STATUSES_def)
  have "keeps (install_inv lib m I A V) (andthen (save_progress env k n) (\<lambda>_. give ()))" for n
    by (intro keeps_rules keeps_progress)
  then have save: "keeps (install_inv lib m I A V) (\<lambda>s. andthen (save_progress env k (actual_bytes m' s)) (\<lambda>_. give ()) s)"
    by (simp add: keeps_def)
  show ?thesis
    unfolding on_error_def
    by (cases e) (auto intro!: ends_in_andthen mark_terminal_ends t keeps_state keeps_repo_calls keeps_basic save split: option.split)
qed

lemma run_operation_ends:
  assumes "manifest_ok (al_sha256 (ie_lib env)) m" "md_status op \<in> ACTIVE_DOWNLOAD_STATUSES"
  shows "ends_in (install_inv (ie_lib env) m I A V) (\<lambda>op. md_status op \<in> TERMINAL_DOWNLOAD_STATUSES)
    (run_operation env m src op)"
  unfolding ends_in_def
proof (intro allI impI)
  fix s r t assume s: "install_inv (ie_lib env) m I A V s" "run_operation env m src op s = (r, t)"
  obtain a u where u: "run_stages env m src op (s\<lparr>in_last_persisted := md_downloaded_bytes op\<rparr>) = (a, u)"
    by (cases "run_stages env m src op (s\<lparr>in_last_persisted := md_downloaded_bytes op\<rparr>)")
  have "install_inv (ie_lib env) m I A V (s\<lparr>in_last_persisted := md_downloaded_bytes op\<rparr>)" using s(1) by simp
  then have inv: "install_inv (ie_lib env) m I A V u" "\<And>x. a = Inr x \<Longrightarrow> md_status x = DL_COMPLETED"
    using run_stages_ends [OF assms, of I A V src] u unfolding ends_in_def by blast+
  show "install_inv (ie_lib env) m I A V t \<and> (\<forall>op. r = Inr op \<longrightarrow> md_status op \<in> TERMINAL_DOWNLOAD_STATUSES)"
  proof (cases a)
    case (Inl e)
    then have "on_error env m (md_operation_id op) e u = (r, t)" using s(2) u by (simp add: run_operation_def)
    then show ?thesis using on_error_ends inv(1) unfolding ends_in_def by blast
  next
    case (Inr x)
    then show ?thesis using s(2) u inv by (simp add: run_operation_def TERMINAL_DOWNLOAD_STATUSES_def)
  qed
qed

lemma find_active_status:
  "find_active_download_operation mid d = Some r \<Longrightarrow> md_status r \<in> ACTIVE_DOWNLOAD_STATUSES"
  by (auto simp: find_active_download_operation_def dest: select_first_SomeD)

lemma create_status:
  assumes "fst (create_download_operation k mid v u kd sha z now et lm s) = Inr r"
  shows "md_status r = DL_PENDING"
proof -
  note st = result_write_tx_ok [OF assms [unfolded create_download_operation_def]]
  have app: "select_first P (t @ [x]) = (if select_first P t = None then (if P x then Some x else None) else select_first P t)"
    for P t and x :: model_download
    by (induction t) auto
  show ?thesis
    using assms
    by (auto simp: create_download_operation_def result_write_tx [OF st] or_vanished_def find_download_def app
        split: if_splits option.splits)
qed

lemma get_or_create_status:
  assumes "get_or_create_operation env m src s = (Inr op, t)"
  shows "md_status op \<in> ACTIVE_DOWNLOAD_STATUSES"
proof -
  have pending: "DL_PENDING \<in> ACTIVE_DOWNLOAD_STATUSES" by (simp add: ACTIVE_DOWNLOAD_STATUSES_def)
  obtain active u where u: "query (find_active_download_operation (mm_model_id m)) s = (Inr active, u)"
    by (simp add: query_def Let_def)
  have active: "md_status a \<in> ACTIVE_DOWNLOAD_STATUSES" if "active = Some a" for a
    using u that find_active_status by (auto simp: query_def Let_def)
  show ?thesis
  proof (cases active)
    case (Some a)
    then show ?thesis
      using assms u active by (auto simp: get_or_create_operation_def andthen_def give_def fail_def split: if_splits)
  next
    case None
    obtain prior v where v: "query (find_latest_download_operation (mm_model_id m) (mm_version m)) u = (Inr prior, v)"
      by (simp add: query_def Let_def)
    define c where "c = create_download_operation
                     (case ie_operation_id env of Some (c # cs) \<Rightarrow> c # cs | _ \<Rightarrow> ie_new_id env)
                     (mm_model_id m) (mm_version m) (map char_of (ds_url src)) (ds_kind src)
                     (ds_sha256 src) (ds_size_bytes src) (ie_now env)
                     (case prior of None \<Rightarrow> None | Some p \<Rightarrow> md_etag p)
                     (case prior of None \<Rightarrow> None | Some p \<Rightarrow> md_last_modified p)"
    obtain r w where w: "repo c v = (r, w)" by (cases "repo c v")
    have made: "md_status x = DL_PENDING" if "r = Inr x" for x
      using repo_Inr [of c v x w] w that create_status by (auto simp: c_def)
    show ?thesis
    proof (cases "\<exists>e. r = Inl (Unexpected (IntegrityError e))")
      case True
      then show ?thesis
        using assms u None v w find_active_status
        by (auto simp: get_or_create_operation_def andthen_def c_def [symmetric] rollback_def query_def Let_def give_def
            fail_def split: option.splits)
    next
      case False
      then have "r = Inr op"
        using assms u None v w
        by (auto simp: get_or_create_operation_def andthen_def c_def [symmetric] split: sum.splits install_error.splits exn.splits)
      then show ?thesis using made pending by simp
    qed
  qed
qed

lemma already_active_status:
  assumes "already_active m s = (Inr (Some op), t)"
  shows "md_status op = DL_COMPLETED"
  using assms by (auto simp: already_active_def query_def Let_def split: option.splits if_splits)

lemma install_model_locked_ends:
  assumes "manifest_ok (al_sha256 (ie_lib env)) m"
  shows "ends_in (install_inv (ie_lib env) m I A V) (\<lambda>op. md_status op \<in> TERMINAL_DOWNLOAD_STATUSES)
    (install_model_locked env m)"
  unfolding ends_in_def
proof (intro allI impI)
  fix s r t assume s: "install_inv (ie_lib env) m I A V s" "install_model_locked env m s = (r, t)"
  obtain ex u where u: "already_active m s = (Inr ex, u)" by (simp add: already_active_def query_def Let_def)
  have inv: "install_inv (ie_lib env) m I A V u"
  proof (rule keepsD)
    show "keeps (install_inv (ie_lib env) m I A V) (already_active m)" unfolding already_active_def by (rule keeps_state)
  qed (rule s(1), rule u)
  show "install_inv (ie_lib env) m I A V t \<and> (\<forall>op. r = Inr op \<longrightarrow> md_status op \<in> TERMINAL_DOWNLOAD_STATUSES)"
  proof (cases ex)
    case (Some op)
    then show ?thesis using s(2) u inv already_active_status [OF u [unfolded Some]]
      by (auto simp: install_model_locked_def andthen_def give_def TERMINAL_DOWNLOAD_STATUSES_def)
  next
    case None
    obtain src srcs where src: "mm_sources m = src # srcs" using assms by (cases "mm_sources m") (auto simp: manifest_ok_def)
    obtain a v where v: "get_or_create_operation env m src u = (a, v)" by (cases "get_or_create_operation env m src u")
    have iv: "install_inv (ie_lib env) m I A V v" by (rule keepsD [OF keeps_get_or_create inv v])
    show ?thesis
    proof (cases a)
      case (Inl e)
      then show ?thesis using s(2) u None src v iv by (auto simp: install_model_locked_def andthen_def)
    next
      case (Inr op)
      have "run_operation env m src op v = (r, t)"
        using s(2) u None src v Inr by (simp add: install_model_locked_def andthen_def)
      then show ?thesis
        using run_operation_ends [OF assms get_or_create_status [OF v [unfolded Inr]], of I A V src] iv
        unfolding ends_in_def by blast
    qed
  qed
qed

section \<open>Installations\<close>

text \<open>
  C13. An installation, whatever the server sends, the archive holds, the database refuses or the
  user cancels: a version directory that was there stays as it was; the install records and the
  active-version pointers are those from before, unless the version directory holds exactly the
  declared files with their sizes and digests; and an operation that is returned has ended. A
  manifest that is not releasable is refused with nothing written.
\<close>

theorem installation_is_verified:
  assumes "manifest_ok (al_sha256 (ie_lib env)) m" "in_session s = open_session d" "downloads_unique d"
    and "install_model_locked env m s = (r, t)"
  shows "(if in_version s = None then True else in_version t = in_version s) \<and>
    (installs (committed (in_session t)) = installs d \<and> actives (committed (in_session t)) = actives d \<or>
     declared_in_place (ie_lib env) m t) \<and>
    (case r of Inl _ \<Rightarrow> True | Inr op \<Rightarrow> md_status op \<in> TERMINAL_DOWNLOAD_STATUSES) \<and>
    install_model env m s = (if is_releasable m then (r, t) else (Inl (Unexpected (ValueError ''NOT_RELEASABLE'')), s))"
proof -
  have "install_inv (ie_lib env) m (installs d) (actives d) (in_version s) s"
    using assms(2,3) by (simp add: install_inv_def both_def frozen_def open_session_def)
  then have "install_inv (ie_lib env) m (installs d) (actives d) (in_version s) t \<and>
      (\<forall>op. r = Inr op \<longrightarrow> md_status op \<in> TERMINAL_DOWNLOAD_STATUSES)"
    using install_model_locked_ends [OF assms(1), of "installs d" "actives d" "in_version s"] assms(4)
    unfolding ends_in_def by blast
  then show ?thesis
    using assms(4) by (auto simp: install_inv_def both_def frozen_def install_model_def fail_def split: sum.split)
qed

text \<open>A file set of one file, partly downloaded, in an environment whose server sends it whole.\<close>

definition install_sample_env :: "(nat \<Rightarrow> bool) option \<Rightarrow> install_env" where
  "install_sample_env cancel =
     \<lparr>ie_lib = sample_archives, ie_http = sample_server, ie_now = 5, ie_cancel = cancel, ie_operation_id = None,
      ie_new_id = ''op'', ie_models_dir = ''models''\<rparr>"

definition sample_install :: "database \<Rightarrow> dir \<Rightarrow> dir option \<Rightarrow> install_state" where
  "sample_install d part version =
     \<lparr>in_session = open_session d, in_part = None, in_set = part, in_version = version,
      in_last_persisted = 0, in_cancel_calls = 0\<rparr>"

theorem installation_is_verified_witness:
  "in_version (snd (install_model_locked (install_sample_env None) (sample_manifest ''file-set'' (Some (codes ''m.bin'')))
     (sample_install empty_database [] (Some [(codes ''m.bin'', [7])])))) = Some [(codes ''m.bin'', [7])]"
proof -
  let ?m = "sample_manifest ''file-set'' (Some (codes ''m.bin''))"
  let ?s = "sample_install empty_database [] (Some [(codes ''m.bin'', [7])])"
  have "manifest_ok (al_sha256 (ie_lib (install_sample_env None))) ?m"
    using sample_manifest_ok(2) by (simp add: install_sample_env_def)
  moreover have "in_session ?s = open_session empty_database" "downloads_unique empty_database"
    by (simp_all add: sample_install_def downloads_unique_def empty_database_def)
  moreover obtain r t where t: "install_model_locked (install_sample_env None) ?m ?s = (r, t)"
    by (cases "install_model_locked (install_sample_env None) ?m ?s")
  ultimately have "if in_version ?s = None then True else in_version t = in_version ?s"
    by (rule conjunct1 [OF installation_is_verified])
  then show ?thesis unfolding t by (simp add: sample_install_def)
qed

section \<open>A cancellation that does not end its operation\<close>


definition sample_operation :: model_download where
  "sample_operation =
     \<lparr>md_operation_id = ''op'', md_model_id = ''m'', md_version = ''1'', md_source_url = ''https://h/m'',
      md_source_kind = ''cdn'', md_expected_sha256 = sample_digest, md_expected_size_bytes = 3, md_downloaded_bytes = 2,
      md_temp_path = None, md_etag = None, md_last_modified = None, md_status = DL_DOWNLOADING, md_error_code = None,
      md_error_detail = None, md_revision = 1, md_created_at = 1, md_updated_at = 1\<rparr>"


end
