(* ===== verification/Registration.thy ===== *)
theory Registration
  imports Routing
begin

text \<open>
  The expected-state registration of the built-in recognisers: \<open>asr/registration.py\<close>. A provider
  instance is the number of its construction, so that identity (\<open>is\<close>) is equality; whether a
  construction succeeds is part of the host, as are the files, the verified VAD asset and the
  importability of the engine. Paths are texts with POSIX separators.
\<close>

section \<open>State\<close>

record recogniser_host =
  rh_is_file :: "utext \<Rightarrow> bool"
  rh_is_dir :: "utext \<Rightarrow> bool"
  rh_vad :: "utext option"
  rh_importable :: bool
  rh_loads :: "string \<Rightarrow> utext \<Rightarrow> bool"

text \<open>\<open>_REGISTRY\<close>, \<open>_MANAGED\<close> and the number of the next instance.\<close>

record registration =
  rg_registry :: "(string \<times> nat) list"
  rg_managed :: "string \<Rightarrow> (utext \<times> nat option) option"
  rg_next :: nat

definition WHISPER :: string where "WHISPER = ''whisper-cpp-base''"
definition STANDARD :: string where "STANDARD = ''sherpa-onnx-standard''"
definition LITE :: string where "LITE = ''sherpa-onnx-lite''"
definition QWEN3 :: string where "QWEN3 = ''sherpa-onnx-qwen3''"

definition slash :: "utext \<Rightarrow> string \<Rightarrow> utext" where
  "slash p name = p @ 47 # codes name"

section \<open>One managed registration\<close>

definition forget_managed :: "string \<Rightarrow> registration \<Rightarrow> registration" where
  "forget_managed provider_id st =
     (case rg_managed st provider_id of
        None \<Rightarrow> st
      | Some (_, owned) \<Rightarrow>
          (let st = st\<lparr>rg_managed := (rg_managed st)(provider_id := None)\<rparr> in
           if owned \<noteq> None \<and> get_provider provider_id (rg_registry st) = owned
           then st\<lparr>rg_registry := unregister_provider provider_id (rg_registry st)\<rparr> else st))"

definition rebuild_managed :: "recogniser_host \<Rightarrow> string \<Rightarrow> utext \<Rightarrow> registration \<Rightarrow> registration" where
  "rebuild_managed host provider_id signature st =
     (if rh_loads host provider_id signature
      then st\<lparr>rg_registry := register_provider provider_id (rg_next st) (rg_registry st),
              rg_managed := (rg_managed st)(provider_id := Some (signature, Some (rg_next st))),
              rg_next := rg_next st + 1\<rparr>
      else st\<lparr>rg_managed := (rg_managed st)(provider_id := Some (signature, None))\<rparr>)"

definition reconcile_managed :: "recogniser_host \<Rightarrow> string \<Rightarrow> utext option \<Rightarrow> registration \<Rightarrow> registration" where
  "reconcile_managed host provider_id signature st =
     (case signature of
        None \<Rightarrow> forget_managed provider_id st
      | Some sg \<Rightarrow>
          (case rg_managed st provider_id of
             Some (sg', owned) \<Rightarrow>
               if sg' = sg \<and> (owned = None \<or> get_provider provider_id (rg_registry st) = owned) then st
               else rebuild_managed host provider_id sg st
           | None \<Rightarrow> rebuild_managed host provider_id sg st))"

section \<open>Signatures\<close>

definition whisper_signature :: "recogniser_host \<Rightarrow> utext option \<Rightarrow> utext option \<Rightarrow> utext option" where
  "whisper_signature host model_dir executable =
     (case (model_dir, executable) of
        (Some dir, Some (c # cs)) \<Rightarrow>
          (let model_file = slash (slash (slash dir ''whisper-cpp-base'') ''80da2d8'') ''ggml-base.bin'' in
           if rh_is_file host (c # cs) \<and> rh_is_file host model_file
           then Some (codes ''cli='' @ (c # cs) @ codes ''|model='' @ model_file) else None)
      | _ \<Rightarrow> None)"

definition dir_text :: "utext \<Rightarrow> utext \<Rightarrow> utext" where
  "dir_text tier_dir vad = codes ''dir='' @ tier_dir @ codes ''|vad='' @ vad"

definition tier_signature :: "recogniser_host \<Rightarrow> utext \<Rightarrow> utext \<Rightarrow> utext option" where
  "tier_signature host tier_dir vad =
     (if rh_is_file host (slash tier_dir ''model.int8.onnx'') \<and> rh_is_file host (slash tier_dir ''tokens.txt'')
      then Some (dir_text tier_dir vad) else None)"

definition QWEN3_FILES :: "string list" where
  "QWEN3_FILES =
     [''conv_frontend.onnx'', ''encoder.int8.onnx'', ''decoder.int8.onnx'', ''tokenizer/vocab.json'',
      ''tokenizer/merges.txt'', ''tokenizer/tokenizer_config.json'']"

definition qwen3_signature :: "recogniser_host \<Rightarrow> utext \<Rightarrow> utext \<Rightarrow> utext option" where
  "qwen3_signature host tier_dir vad =
     (if list_all (\<lambda>f. rh_is_file host (slash tier_dir f)) QWEN3_FILES then Some (dir_text tier_dir vad) else None)"

text \<open>What each provider should be registered with: \<open>_reconcile_whisper\<close> and \<open>_reconcile_sherpa\<close>.\<close>

definition sherpa_signatures :: "recogniser_host \<Rightarrow> utext option \<Rightarrow> utext option \<times> utext option \<times> utext option" where
  "sherpa_signatures host model_dir =
     (case (model_dir, rh_vad host) of
        (Some dir, Some vad) \<Rightarrow>
          if rh_is_dir host dir \<and> rh_importable host
          then (tier_signature host (slash (slash dir ''sensevoice-small-int8'') ''2024-07-17'') vad,
                tier_signature host (slash (slash dir ''zipformer-ctc-small-zh-int8'') ''2025-07-16'') vad,
                qwen3_signature host (slash (slash dir ''qwen3-asr-0.6b-int8'') ''2026-03-25'') vad)
          else (None, None, None)
      | _ \<Rightarrow> (None, None, None))"

definition reconcile_sherpa :: "recogniser_host \<Rightarrow> utext option \<Rightarrow> registration \<Rightarrow> registration" where
  "reconcile_sherpa host model_dir st =
     (case sherpa_signatures host model_dir of
        (standard, lite, qwen3) \<Rightarrow>
          reconcile_managed host QWEN3 qwen3 (reconcile_managed host LITE lite (reconcile_managed host STANDARD standard st)))"

definition drop_known_bad :: "registration \<Rightarrow> registration" where
  "drop_known_bad st =
     st\<lparr>rg_managed := (\<lambda>k. case rg_managed st k of Some (_, None) \<Rightarrow> None | e \<Rightarrow> e)\<rparr>"

definition register_available_asr_providers ::
  "recogniser_host \<Rightarrow> utext option \<Rightarrow> utext option \<Rightarrow> bool \<Rightarrow> registration \<Rightarrow> registration" where
  "register_available_asr_providers host model_dir executable retry_failed_loads st =
     reconcile_sherpa host model_dir
       (reconcile_managed host WHISPER (whisper_signature host model_dir executable)
         (if retry_failed_loads then drop_known_bad st else st))"

definition unregister_managed_provider :: "string \<Rightarrow> registration \<Rightarrow> registration" where
  "unregister_managed_provider provider_id st = forget_managed provider_id st"

section \<open>The registry as a map\<close>

lemma get_register [simp]:
  "get_provider k (register_provider k' p reg) = (if k = k' then Some p else get_provider k reg)"
proof -
  have m: "map_of (map (\<lambda>(a, b). if a = k' then (a, p) else (a, b)) reg) k =
      (if k = k' \<and> k \<in> set (map fst reg) then Some p else map_of reg k)"
    by (induction reg) (auto, force)
  have a: "map_of (reg @ [(k', p)]) k = (case map_of reg k of None \<Rightarrow> if k = k' then Some p else None | x \<Rightarrow> x)"
    by (simp add: map_add_def split: option.split)
  show ?thesis
  proof (cases "k' \<in> set (map fst reg)")
    case True
    then show ?thesis using m by (auto simp: get_provider_def register_provider_def)
  next
    case False
    then have "map_of reg k' = None" by (simp add: map_of_eq_None_iff)
    then show ?thesis using a False
      by (auto simp: get_provider_def register_provider_def simp del: map_of_append split: option.split)
  qed
qed

lemma get_unregister [simp]:
  "get_provider k (unregister_provider k' reg) = (if k = k' then None else get_provider k reg)"
  by (induction reg) (auto simp: get_provider_def unregister_provider_def)

section \<open>Facts\<close>

text \<open>The signature each built-in provider should have; none for any other.\<close>

definition desired :: "recogniser_host \<Rightarrow> utext option \<Rightarrow> utext option \<Rightarrow> string \<Rightarrow> utext option" where
  "desired host model_dir executable k =
     (if k = WHISPER then whisper_signature host model_dir executable
      else (case sherpa_signatures host model_dir of
              (standard, lite, qwen3) \<Rightarrow>
                if k = STANDARD then standard else if k = LITE then lite else if k = QWEN3 then qwen3 else None))"

definition BUILT_IN :: "string list" where
  "BUILT_IN = [WHISPER, STANDARD, LITE, QWEN3]"

lemma distinct_built_in: "distinct BUILT_IN"
  by (simp add: BUILT_IN_def WHISPER_def STANDARD_def LITE_def QWEN3_def)

lemma names_differ [simp]:
  "WHISPER \<noteq> STANDARD" "WHISPER \<noteq> LITE" "WHISPER \<noteq> QWEN3" "STANDARD \<noteq> LITE" "STANDARD \<noteq> QWEN3" "LITE \<noteq> QWEN3"
  "STANDARD \<noteq> WHISPER" "LITE \<noteq> WHISPER" "QWEN3 \<noteq> WHISPER" "LITE \<noteq> STANDARD" "QWEN3 \<noteq> STANDARD" "QWEN3 \<noteq> LITE"
  by (simp_all add: WHISPER_def STANDARD_def LITE_def QWEN3_def)

definition entry :: "string \<Rightarrow> registration \<Rightarrow> nat option \<times> (utext \<times> nat option) option" where
  "entry k st = (get_provider k (rg_registry st), rg_managed st k)"

lemma entry_reconcile_other: "k \<noteq> k' \<Longrightarrow> entry k (reconcile_managed host k' sg st) = entry k st"
  by (auto simp: entry_def reconcile_managed_def forget_managed_def rebuild_managed_def Let_def
      split: option.split prod.split)

text \<open>When a reconciliation has nothing left to do; it never has after one.\<close>

definition up_to_date :: "utext option \<Rightarrow> nat option \<times> (utext \<times> nat option) option \<Rightarrow> bool" where
  "up_to_date signature e \<longleftrightarrow>
     (case (signature, snd e) of
        (None, m) \<Rightarrow> m = None
      | (Some sg, None) \<Rightarrow> False
      | (Some sg, Some (sg', owned)) \<Rightarrow> sg' = sg \<and> (owned = None \<or> fst e = owned))"

lemma up_to_date_noop: "up_to_date sg (entry k st) \<Longrightarrow> reconcile_managed host k sg st = st"
  by (auto simp: up_to_date_def entry_def reconcile_managed_def forget_managed_def split: option.splits prod.splits)

lemma reconcile_settles: "up_to_date sg (entry k (reconcile_managed host k sg st))"
  by (auto simp: up_to_date_def entry_def reconcile_managed_def forget_managed_def rebuild_managed_def Let_def
      split: option.split prod.split)

lemma entry_drop: "entry k (drop_known_bad st) =
    (fst (entry k st), case snd (entry k st) of Some (_, None) \<Rightarrow> None | e \<Rightarrow> e)"
  by (auto simp: entry_def drop_known_bad_def split: option.split)

lemma entry_fst: "fst (entry k st) = get_provider k (rg_registry st)"
  by (simp add: entry_def)

lemma forget_entry:
  "entry k (reconcile_managed host k None u) =
     ((case snd (entry k u) of
         Some (_, Some p) \<Rightarrow> if fst (entry k u) = Some p then None else fst (entry k u)
       | _ \<Rightarrow> fst (entry k u)), None)"
  by (auto simp: entry_def reconcile_managed_def forget_managed_def Let_def split: option.split prod.split)

lemma build_entry:
  assumes "rh_loads host k sg" "snd (entry k u) \<noteq> Some (sg, None)"
  shows "\<exists>p. entry k (reconcile_managed host k (Some sg) u) = (Some p, Some (sg, Some p))"
  using assms by (auto simp: entry_def reconcile_managed_def rebuild_managed_def split: option.split prod.split)

text \<open>What one run does to one provider.\<close>

lemma register_entry:
  obtains u where "entry k u = entry k (if retry then drop_known_bad st else st)"
    "entry k (register_available_asr_providers host dir exe retry st) =
      (if k \<in> set BUILT_IN then entry k (reconcile_managed host k (desired host dir exe k) u) else entry k u)"
proof -
  let ?st0 = "if retry then drop_known_bad st else st"
  obtain sd li qw where sg: "sherpa_signatures host dir = (sd, li, qw)" by (metis prod_cases3)
  let ?w = "reconcile_managed host WHISPER (whisper_signature host dir exe) ?st0"
  let ?s = "reconcile_managed host STANDARD sd ?w"
  let ?l = "reconcile_managed host LITE li ?s"
  have run: "register_available_asr_providers host dir exe retry st = reconcile_managed host QWEN3 qw ?l"
    by (simp add: register_available_asr_providers_def reconcile_sherpa_def sg)
  consider "k = WHISPER" | "k = STANDARD" | "k = LITE" | "k = QWEN3" | "k \<notin> set BUILT_IN"
    by (auto simp: BUILT_IN_def)
  then show ?thesis
  proof cases
    case 1
    then show ?thesis using that [of ?st0] by (simp add: run sg desired_def BUILT_IN_def entry_reconcile_other)
  next
    case 2
    then show ?thesis using that [of ?w] by (simp add: run sg desired_def BUILT_IN_def entry_reconcile_other)
  next
    case 3
    then show ?thesis using that [of ?s] by (simp add: run sg desired_def BUILT_IN_def entry_reconcile_other)
  next
    case 4
    then show ?thesis using that [of ?l] by (simp add: run sg desired_def BUILT_IN_def entry_reconcile_other)
  next
    case 5
    then have "k \<noteq> WHISPER" "k \<noteq> STANDARD" "k \<noteq> LITE" "k \<noteq> QWEN3" by (auto simp: BUILT_IN_def)
    then show ?thesis using that [of ?st0] 5 by (simp add: run entry_reconcile_other)
  qed
qed

text \<open>
  C22. The reconciliation is idempotent: a second run against the same host changes nothing, neither
  the registry nor the ownership records, and builds no provider, whatever the first run found and
  whichever loads failed.
\<close>

theorem registration_idempotent:
  "register_available_asr_providers host dir exe False (register_available_asr_providers host dir exe retry st) =
   register_available_asr_providers host dir exe retry st"
proof -
  let ?st = "register_available_asr_providers host dir exe retry st"
  have done': "reconcile_managed host k (desired host dir exe k) ?st = ?st" if "k \<in> set BUILT_IN" for k
  proof -
    obtain u where "entry k u = entry k (if retry then drop_known_bad st else st)"
        "entry k ?st = (if k \<in> set BUILT_IN then entry k (reconcile_managed host k (desired host dir exe k) u) else entry k u)"
      by (rule register_entry)
    then have "entry k ?st = entry k (reconcile_managed host k (desired host dir exe k) u)" using that by simp
    then have "up_to_date (desired host dir exe k) (entry k ?st)" by (simp add: reconcile_settles)
    then show ?thesis by (rule up_to_date_noop)
  qed
  have all: "WHISPER \<in> set BUILT_IN" "STANDARD \<in> set BUILT_IN" "LITE \<in> set BUILT_IN" "QWEN3 \<in> set BUILT_IN"
    by (simp_all add: BUILT_IN_def)
  obtain sd li qw where sg: "sherpa_signatures host dir = (sd, li, qw)" by (metis prod_cases3)
  have "reconcile_sherpa host dir (reconcile_managed host WHISPER (whisper_signature host dir exe) ?st) = ?st"
    using done' [OF all(1)] done' [OF all(2)] done' [OF all(3)] done' [OF all(4)]
    by (simp add: desired_def sg reconcile_sherpa_def)
  then show ?thesis by (subst register_available_asr_providers_def) simp
qed

text \<open>
  What a run leaves in the registry. A provider whose inputs are not usable keeps its entry unless
  the entry is the very instance this module built, which is removed; an id outside the built-in ones
  is never touched. A provider whose inputs are usable and load, and were not recorded as failing
  before (or a retry was asked for), is registered with an instance built from exactly these inputs.
\<close>

theorem registration_exact:
  assumes "k \<in> set BUILT_IN \<or> desired host dir exe k = None"
  shows "let st' = register_available_asr_providers host dir exe retry st in
    case desired host dir exe k of
      None \<Rightarrow>
        get_provider k (rg_registry st') =
          (case rg_managed st k of
             Some (_, Some p) \<Rightarrow>
               if k \<in> set BUILT_IN \<and> get_provider k (rg_registry st) = Some p then None
               else get_provider k (rg_registry st)
           | _ \<Rightarrow> get_provider k (rg_registry st))
    | Some sg \<Rightarrow>
        rh_loads host k sg \<and> (retry \<or> rg_managed st k \<noteq> Some (sg, None)) \<longrightarrow>
        (\<exists>p. get_provider k (rg_registry st') = Some p \<and> rg_managed st' k = Some (sg, Some p))"
proof -
  obtain u where u: "entry k u = entry k (if retry then drop_known_bad st else st)"
      "entry k (register_available_asr_providers host dir exe retry st) =
        (if k \<in> set BUILT_IN then entry k (reconcile_managed host k (desired host dir exe k) u) else entry k u)"
    by (rule register_entry)
  have start: "fst (entry k u) = get_provider k (rg_registry st)"
      "snd (entry k u) = (case rg_managed st k of Some (sg, None) \<Rightarrow> if retry then None else Some (sg, None) | e \<Rightarrow> e)"
    using u(1) by (auto simp: entry_drop split: option.split) (auto simp: entry_def split: option.split)
  show ?thesis
  proof (cases "desired host dir exe k")
    case None
    then show ?thesis
      using u(2) start forget_entry [of k host u]
      by (auto simp: Let_def entry_fst [symmetric] split: if_splits option.splits prod.splits)
  next
    case (Some sg)
    have k: "k \<in> set BUILT_IN" using assms Some by simp
    show ?thesis
    proof (cases "rh_loads host k sg \<and> (retry \<or> rg_managed st k \<noteq> Some (sg, None))")
      case True
      then have "snd (entry k u) \<noteq> Some (sg, None)" by (auto simp: start(2) split: option.split)
      then obtain p where "entry k (reconcile_managed host k (Some sg) u) = (Some p, Some (sg, Some p))"
        using build_entry True by blast
      then have "entry k (register_available_asr_providers host dir exe retry st) = (Some p, Some (sg, Some p))"
        using u(2) k Some by simp
      then show ?thesis using Some by (simp add: Let_def entry_def)
    next
      case False
      then show ?thesis using Some by (auto simp: Let_def)
    qed
  qed
qed

text \<open>
  C23. A provider whose inputs changed to ones that fail to load does not become unregistered: the
  instance built from the earlier inputs stays in the registry, and since the known-bad marker has
  replaced the record of its ownership, uninstalling its model does not remove it either.
\<close>

theorem failed_reload_orphans_provider:
  assumes "rg_managed st k = Some (old, Some p)" "get_provider k (rg_registry st) = Some p"
    and "k \<in> set BUILT_IN" "desired host dir exe k = Some sg" "sg \<noteq> old" "\<not> rh_loads host k sg"
  shows "get_provider k (rg_registry (unregister_managed_provider k
      (register_available_asr_providers host dir exe retry st))) = Some p"
proof -
  obtain u where u: "entry k u = entry k (if retry then drop_known_bad st else st)"
      "entry k (register_available_asr_providers host dir exe retry st) =
        (if k \<in> set BUILT_IN then entry k (reconcile_managed host k (desired host dir exe k) u) else entry k u)"
    by (rule register_entry)
  have e: "entry k u = (Some p, Some (old, Some p))" using u(1) assms(1,2) by (auto simp: entry_def drop_known_bad_def)
  have "entry k (reconcile_managed host k (Some sg) u) = (Some p, Some (sg, None))"
    using e assms(5,6) by (auto simp: entry_def reconcile_managed_def rebuild_managed_def)
  then have "entry k (register_available_asr_providers host dir exe retry st) = (Some p, Some (sg, None))"
    using u(2) assms(3,4) by simp
  then show ?thesis by (auto simp: entry_def unregister_managed_provider_def forget_managed_def Let_def)
qed

section \<open>Samples\<close>

text \<open>A host where only whisper.cpp can run, under a command line tool that does not load.\<close>

definition sample_host :: "bool \<Rightarrow> recogniser_host" where
  "sample_host loads =
     \<lparr>rh_is_file = (\<lambda>_. True), rh_is_dir = (\<lambda>_. False), rh_vad = None, rh_importable = False, rh_loads = (\<lambda>_ _. loads)\<rparr>"

definition sample_registration :: registration where
  "sample_registration =
     \<lparr>rg_registry = [(WHISPER, 0)], rg_managed = [WHISPER \<mapsto> (codes ''cli=old'', Some 0)], rg_next = 1\<rparr>"

lemma sample_desired:
  "desired (sample_host b) (Some (codes ''m'')) (Some (codes ''w'')) WHISPER =
     Some (codes ''cli=w|model=m/whisper-cpp-base/80da2d8/ggml-base.bin'')"
  by code_simp

theorem registration_exact_witness:
  "\<exists>p. get_provider WHISPER (rg_registry (register_available_asr_providers (sample_host True) (Some (codes ''m''))
      (Some (codes ''w'')) False sample_registration)) = Some p"
proof -
  have "WHISPER \<in> set BUILT_IN" by (simp add: BUILT_IN_def)
  from registration_exact [OF disjI1 [OF this], of "sample_host True" "Some (codes ''m'')" "Some (codes ''w'')"
      False sample_registration]
  show ?thesis unfolding Let_def sample_desired option.case
    by (auto simp: sample_registration_def sample_host_def codes_def)
qed

theorem failed_reload_orphans_provider_witness:
  "get_provider WHISPER (rg_registry (unregister_managed_provider WHISPER
     (register_available_asr_providers (sample_host False) (Some (codes ''m'')) (Some (codes ''w'')) True
        sample_registration))) = Some 0"
proof (rule failed_reload_orphans_provider)
  show "codes ''cli=w|model=m/whisper-cpp-base/80da2d8/ggml-base.bin'' \<noteq> codes ''cli=old''" by code_simp
  show "\<not> rh_loads (sample_host False) WHISPER (codes ''cli=w|model=m/whisper-cpp-base/80da2d8/ggml-base.bin'')"
    by (simp add: sample_host_def)
qed (simp_all add: sample_registration_def sample_desired get_provider_def BUILT_IN_def)

end
