(* ===== verification/ModelService.thy ===== *)
theory ModelService
  imports Registration Installer JobOutcomes
begin

text \<open>
  The model service: \<open>asr/service.py\<close>. Resuming the jobs that wait for a model, the summaries of the
  model list, uninstalling with its move to \<open>.trash\<close>, and the reconciliation of \<open>.trash\<close> at start.
  The directories below \<open>models_dir\<close> are their files by relative name; renaming and removing them may
  fail as the arguments say. The background task that runs an installation is not modelled.
\<close>

section \<open>Resuming waiting jobs\<close>

definition MODEL_PROVIDER_IDS :: "(string \<times> string) list" where
  "MODEL_PROVIDER_IDS =
     [(''zipformer-ctc-small-zh-int8'', LITE), (''sensevoice-small-int8'', STANDARD),
      (''whisper-cpp-base'', WHISPER), (''qwen3-asr-0.6b-int8'', QWEN3)]"

definition TIERS :: "(string \<times> string) list" where
  "TIERS =
     [(''zipformer-ctc-small-zh-int8'', ''lite''), (''sensevoice-small-int8'', ''standard''),
      (''whisper-cpp-base'', ''multilingual''), (''qwen3-asr-0.6b-int8'', ''qwen3'')]"

text \<open>The two gates of a model: an install record, and a registered provider.\<close>

definition model_ready :: "(string \<times> nat) list \<Rightarrow> database \<Rightarrow> string \<Rightarrow> bool" where
  "model_ready reg d model_id =
     (case map_of MODEL_PROVIDER_IDS model_id of
        None \<Rightarrow> False
      | Some provider_id \<Rightarrow> get_installations (Some model_id) d \<noteq> [] \<and> get_provider provider_id reg \<noteq> None)"

fun resume_ready :: "(string \<times> nat) list \<Rightarrow> time \<Rightarrow> string list \<Rightarrow> session \<Rightarrow> string list outcome \<times> session" where
  "resume_ready reg now [] s = (Inr [], s)"
| "resume_ready reg now (m # ms) s =
     (let s' = (if map_of MODEL_PROVIDER_IDS m = None then s else autobegin s) in
      if \<not> model_ready reg (working s') m then resume_ready reg now ms s'
      else
        (case resume_waiting_jobs m now s' of
           (Inl e, s'') \<Rightarrow> (Inl e, s'')
         | (Inr ks, s'') \<Rightarrow>
             (case resume_ready reg now ms s'' of
                (Inl e, s3) \<Rightarrow> (Inl e, s3)
              | (Inr rest, s3) \<Rightarrow> (Inr (ks @ rest), s3))))"

definition reconcile_waiting_asr_jobs ::
  "recogniser_host \<Rightarrow> utext option \<Rightarrow> time \<Rightarrow> bool \<Rightarrow> session \<Rightarrow> registration \<Rightarrow>
   (string list outcome \<times> session) \<times> registration" where
  "reconcile_waiting_asr_jobs host models_dir now retry_failed_loads s reg =
     (let s = autobegin s;
          executable = (case get_app_settings (working s) of
                          None \<Rightarrow> None
                        | Some st \<Rightarrow> map_option codes (st_whisper_cpp_executable st));
          reg = register_available_asr_providers host models_dir executable retry_failed_loads reg
      in (resume_ready (rg_registry reg) now (list_waiting_model_ids (working s)) s, reg))"

section \<open>Summaries\<close>

record model_summary =
  su_model_id :: string
  su_version :: string
  su_tier :: string
  su_provider :: string
  su_languages :: "string list"
  su_compressed_size_bytes :: int
  su_installed_size_bytes :: int
  su_license :: string
  su_attribution :: string
  su_redistribution :: string
  su_installed :: bool
  su_active :: bool
  su_installed_path :: "string option"
  su_status :: "download_status option"
  su_downloaded_bytes :: int
  su_error_code :: "string option"
  su_formal_default :: bool

definition summary_for :: "database \<Rightarrow> model_manifest \<Rightarrow> model_summary" where
  "summary_for d m =
     (let model_id = mm_model_id m; version = mm_version m;
          install = get_installation model_id version d;
          active = get_active_model model_id d;
          op = find_latest_download_operation model_id version d
      in \<lparr>su_model_id = model_id, su_version = version,
          su_tier = (case map_of TIERS model_id of None \<Rightarrow> ''standard'' | Some t \<Rightarrow> t),
          su_provider = mm_provider m, su_languages = mm_languages m,
          su_compressed_size_bytes = mm_compressed_size_bytes m,
          su_installed_size_bytes = mm_installed_size_bytes m,
          su_license = mm_license m, su_attribution = mm_attribution m, su_redistribution = mm_redistribution m,
          su_installed = (install \<noteq> None),
          su_active = (case active of None \<Rightarrow> False | Some a \<Rightarrow> am_active_version a = version),
          su_installed_path = map_option mi_installed_path install,
          su_status = map_option md_status op,
          su_downloaded_bytes = (case op of None \<Rightarrow> 0 | Some o' \<Rightarrow> md_downloaded_bytes o'),
          su_error_code = (case op of None \<Rightarrow> None | Some o' \<Rightarrow> md_error_code o'),
          su_formal_default = is_formal_default model_id version\<rparr>)"

definition list_models :: "model_manifest list \<Rightarrow> database \<Rightarrow> model_summary list" where
  "list_models builtin d = map (summary_for d) builtin"

section \<open>Uninstalling\<close>

text \<open>\<open>models_dir/<id>\<close>, \<open>models_dir/.trash/<id>/<entry>\<close> and \<open>models_dir/.downloads/<id>\<close>.\<close>

record model_store =
  ms_dirs :: "string \<Rightarrow> dir option"
  ms_trash :: "(string \<times> (string \<times> dir) list) list"
  ms_downloads :: "string \<Rightarrow> dir option"

record uninstall_env =
  un_unique :: string
  un_move_fault :: "exn option"
  un_restore_fault :: "exn option"
  un_locked :: bool
  un_left_over :: "(string \<times> dir) list option"

record uninstall_result =
  ur_reclaimed_bytes :: int
  ur_pending_reclaim_bytes :: int

definition dir_size :: "dir option \<Rightarrow> int" where
  "dir_size d = (case d of None \<Rightarrow> 0 | Some files \<Rightarrow> sum_list (map (\<lambda>(_, c). int (length c)) files))"

definition trash_entries :: "string \<Rightarrow> model_store \<Rightarrow> (string \<times> dir) list" where
  "trash_entries model_id fs = (case map_of (ms_trash fs) model_id of None \<Rightarrow> [] | Some es \<Rightarrow> es)"

text \<open>Step 1: the directory is moved, when there is one.\<close>

definition move_to_trash :: "uninstall_env \<Rightarrow> string \<Rightarrow> model_store \<Rightarrow> exn option \<times> bool \<times> model_store" where
  "move_to_trash env model_id fs =
     (case ms_dirs fs model_id of
        None \<Rightarrow> (None, False, fs)
      | Some c \<Rightarrow>
          (let entries = trash_entries model_id fs;
               fs = fs\<lparr>ms_trash := AList.update model_id entries (ms_trash fs)\<rparr>
           in case un_move_fault env of
                Some e \<Rightarrow> (Some e, False, fs)
              | None \<Rightarrow>
                  (None, True,
                   fs\<lparr>ms_dirs := (ms_dirs fs)(model_id := None),
                      ms_trash := AList.update model_id (entries @ [(un_unique env, c)]) (ms_trash fs)\<rparr>)))"

text \<open>The restoration after the database refused; a failure of it is logged only.\<close>

definition restore_moved :: "uninstall_env \<Rightarrow> string \<Rightarrow> dir option \<Rightarrow> model_store \<Rightarrow> model_store" where
  "restore_moved env model_id content fs =
     (if un_restore_fault env \<noteq> None then fs
      else fs\<lparr>ms_dirs := (ms_dirs fs)(model_id := content),
             ms_trash := AList.update model_id (filter (\<lambda>(n, _). n \<noteq> un_unique env) (trash_entries model_id fs))
               (ms_trash fs)\<rparr>)"

text \<open>Step 3: \<open>shutil.rmtree(trash_path.parent)\<close>, which may leave some of it.\<close>

definition reclaim :: "uninstall_env \<Rightarrow> string \<Rightarrow> int \<Rightarrow> model_store \<Rightarrow> int \<times> model_store" where
  "reclaim env model_id size_bytes fs =
     (case un_left_over env of
        None \<Rightarrow> (0, fs\<lparr>ms_trash := AList.delete model_id (ms_trash fs)\<rparr>)
      | Some left \<Rightarrow> (size_bytes, fs\<lparr>ms_trash := AList.update model_id left (ms_trash fs)\<rparr>))"

definition uninstall ::
  "string list \<Rightarrow> uninstall_env \<Rightarrow> string \<Rightarrow> database \<Rightarrow> registration \<Rightarrow> model_store \<Rightarrow>
   uninstall_result outcome \<times> database \<times> registration \<times> model_store" where
  "uninstall known env model_id d reg fs =
     (if model_id \<notin> set known then (Inl (KeyError ''unknown model''), d, reg, fs)
      else if find_active_download_operation model_id d \<noteq> None
      then (Inl (RuntimeError ''model install in progress; cancel before uninstalling''), d, reg, fs)
      else
        (let content = ms_dirs fs model_id; reclaimed = dir_size content in
         case move_to_trash env model_id fs of
           (Some e, _, fs1) \<Rightarrow> (Inl e, d, reg, fs1)
         | (None, moved, fs1) \<Rightarrow>
             (case uninstall_model model_id ((open_session d)\<lparr>locked := un_locked env\<rparr>) of
                (Inl e, s) \<Rightarrow> (Inl e, committed s, reg, if moved then restore_moved env model_id content fs1 else fs1)
              | (Inr _, s) \<Rightarrow>
                  (let (pending_reclaim, fs2) = (if moved then reclaim env model_id reclaimed fs1 else (0, fs1));
                       reg = (case map_of MODEL_PROVIDER_IDS model_id of
                                None \<Rightarrow> reg
                              | Some provider_id \<Rightarrow> unregister_managed_provider provider_id reg)
                   in (Inr \<lparr>ur_reclaimed_bytes = (if pending_reclaim \<noteq> 0 then 0 else reclaimed),
                            ur_pending_reclaim_bytes = pending_reclaim\<rparr>,
                       committed s, reg, fs2\<lparr>ms_downloads := (ms_downloads fs2)(model_id := None)\<rparr>)))))"

section \<open>The trash at start\<close>

definition by_name :: "string \<times> 'a \<Rightarrow> nat list" where
  "by_name e = codes (fst e)"

text \<open>
  One entry: dropped when the model directory is there, else moved back, which may fail; what is
  left of the entries, and the model directory.
\<close>

fun restore_entries :: "bool \<Rightarrow> (string \<times> dir) list \<Rightarrow> dir option \<Rightarrow> (string \<times> dir) list \<times> dir option" where
  "restore_entries faulty [] target = ([], target)"
| "restore_entries faulty (e # es) target =
     (if target \<noteq> None then restore_entries faulty es target
      else if faulty then (case restore_entries faulty es target of (left, t) \<Rightarrow> (e # left, t))
      else restore_entries faulty es (Some (snd e)))"

definition cleanup_entry :: "(string \<Rightarrow> bool) \<Rightarrow> database \<Rightarrow> string \<times> (string \<times> dir) list \<Rightarrow> model_store \<Rightarrow> model_store" where
  "cleanup_entry faulty d model_entry fs =
     (let model_id = fst model_entry in
      if get_installations (Some model_id) d = []
      then fs\<lparr>ms_trash := AList.delete model_id (ms_trash fs)\<rparr>
      else
        (case restore_entries (faulty model_id) (sort_key by_name (snd model_entry)) (ms_dirs fs model_id) of
           (left, target) \<Rightarrow>
             fs\<lparr>ms_dirs := (ms_dirs fs)(model_id := target),
                ms_trash := (if left = [] then AList.delete model_id (ms_trash fs)
                             else AList.update model_id left (ms_trash fs))\<rparr>))"

definition cleanup_trash :: "(string \<Rightarrow> bool) \<Rightarrow> database \<Rightarrow> model_store \<Rightarrow> model_store" where
  "cleanup_trash faulty d fs = fold (cleanup_entry faulty d) (sort_key by_name (ms_trash fs)) fs"

end
