(* ===== verification/ModelCatalog.thy ===== *)
theory ModelCatalog
  imports Manifests
begin

text \<open>
  The built-in manifests of \<open>asr/manifests.py\<close>, written out, and their lookup; their validation when
  the module is imported is the theorem below, for a hash that gives the pinned fingerprint.
\<close>

definition LITE_ZIPFORMER :: model_manifest where
  "LITE_ZIPFORMER =
     \<lparr>mm_model_id = ''zipformer-ctc-small-zh-int8'', mm_version = ''2025-07-16'', mm_provider = ''sherpa-onnx'',
      mm_languages = [''zh''],
      mm_platforms = [''windows-x86_64''],
      mm_compressed_size_bytes = 50536402, mm_installed_size_bytes = 63352462,
      mm_license = (''Apache-2.0 (icefall/WenetSpeech upstream; exact archive carr'' @
        ''ies no license file)''),
      mm_attribution = ''k2-fsa sherpa-onnx / icefall'',
      mm_upstream_url = ''https://github.com/k2-fsa/icefall'',
      mm_redistribution = ''upstream_only'', mm_archive_format = ''tar.bz2'',
      mm_sources =
         [\<lparr>ds_url = codes (''https://github.com/k2-fsa/sherpa-onnx/releases/download/asr-'' @
             ''models/sherpa-onnx-zipformer-ctc-small-zh-int8-2025-07-16.ta'' @
             ''r.bz2''),
           ds_kind = ''upstream'',
           ds_sha256 = ''6a71c0cc442ba85ac1455ca23e4561e2a1ef18e55269a184a649d54e9cd0524c'',
           ds_size_bytes = 50536402\<rparr>],
      mm_files =
         [\<lparr>mf_name = codes ''bbpe.model'', mf_source_path = None,
           mf_size_bytes = 255180,
           mf_sha256 = ''503204e0690eff065e30d0e01898c9ab06d0e6dc376a741eb6846198f95b2f82''\<rparr>,
          \<lparr>mf_name = codes ''model.int8.onnx'', mf_source_path = None,
           mf_size_bytes = 62666860,
           mf_sha256 = ''32e5f17cc9a77d480f8d94bda97b7cc7a40965b6651b35385813f561a74129c8''\<rparr>,
          \<lparr>mf_name = codes ''test_wavs/0.wav'', mf_source_path = None,
           mf_size_bytes = 179646,
           mf_sha256 = ''668bf8df51a10027b84d5d8816a1ce11ae93545538dc05cfe2aa6811d399c250''\<rparr>,
          \<lparr>mf_name = codes ''test_wavs/1.wav'', mf_source_path = None,
           mf_size_bytes = 164976,
           mf_sha256 = ''30edbabea84ca4c076f5b43bb44495f436f6711319c32a200d3fc5c67c1fee1d''\<rparr>,
          \<lparr>mf_name = codes ''test_wavs/8k.wav'', mf_source_path = None,
           mf_size_bytes = 72434,
           mf_sha256 = ''0ed3bddacf0a23477d2b3c07ff9c24ad9c1fc3b31cdd47cb0773441e8e045cde''\<rparr>,
          \<lparr>mf_name = codes ''tokens.txt'', mf_source_path = None,
           mf_size_bytes = 13366,
           mf_sha256 = ''6fed8c6c248516f38e7faa19404b57413e8ce259f1cbc1fa4aebc86eac32fdfd''\<rparr>]\<rparr>"

definition STANDARD_SENSEVOICE :: model_manifest where
  "STANDARD_SENSEVOICE =
     \<lparr>mm_model_id = ''sensevoice-small-int8'', mm_version = ''2024-07-17'', mm_provider = ''sherpa-onnx'',
      mm_languages = [''zh'', ''en'', ''ja'', ''ko'', ''yue''],
      mm_platforms = [''windows-x86_64''],
      mm_compressed_size_bytes = 163002883, mm_installed_size_bytes = 240506435,
      mm_license = ''FunASR Model License 1.1'',
      mm_attribution = ''FunAudioLLM (Alibaba)'',
      mm_upstream_url = ''https://github.com/FunAudioLLM/SenseVoice'',
      mm_redistribution = ''upstream_only'', mm_archive_format = ''tar.bz2'',
      mm_sources =
         [\<lparr>ds_url = codes (''https://github.com/k2-fsa/sherpa-onnx/releases/download/asr-'' @
             ''models/sherpa-onnx-sense-voice-zh-en-ja-ko-yue-int8-2024-07-'' @
             ''17.tar.bz2''),
           ds_kind = ''upstream'',
           ds_sha256 = ''7d1efa2138a65b0b488df37f8b89e3d91a60676e416f515b952358d83dfd347e'',
           ds_size_bytes = 163002883\<rparr>],
      mm_files =
         [\<lparr>mf_name = codes ''LICENSE'', mf_source_path = None,
           mf_size_bytes = 71,
           mf_sha256 = ''221c6df10b0931a5629adad671ea48fb7747e034c414b6d2bfa275bc3dd4ea17''\<rparr>,
          \<lparr>mf_name = codes ''README.md'', mf_source_path = None,
           mf_size_bytes = 104,
           mf_sha256 = ''763991a00edaea534ab36bf1b7cf89e61e911666dcfabbba71f91f9f7c593a63''\<rparr>,
          \<lparr>mf_name = codes ''export-onnx.py'', mf_source_path = None,
           mf_size_bytes = 5905,
           mf_sha256 = ''c97f6a33f9d7135efd4d55b3e24e288c47d925f3b4f04b8b3418c2821c0a89ce''\<rparr>,
          \<lparr>mf_name = codes ''model.int8.onnx'', mf_source_path = None,
           mf_size_bytes = 239233841,
           mf_sha256 = ''c71f0ce00bec95b07744e116345e33d8cbbe08cef896382cf907bf4b51a2cd51''\<rparr>,
          \<lparr>mf_name = codes ''test_wavs/en.wav'', mf_source_path = None,
           mf_size_bytes = 228908,
           mf_sha256 = ''eb1eb008904465b74c304aad8342e8c7d3c6e61ffe9f66adcaca9cf0f76a93f4''\<rparr>,
          \<lparr>mf_name = codes ''test_wavs/ja.wav'', mf_source_path = None,
           mf_size_bytes = 230444,
           mf_sha256 = ''460bd8dccb0d2a5f4e29c628f837be4082d13defc64c3fc21dd1b6bb0e119095''\<rparr>,
          \<lparr>mf_name = codes ''test_wavs/ko.wav'', mf_source_path = None,
           mf_size_bytes = 147500,
           mf_sha256 = ''0dc797a5c81ed30fc339d91f3da718ab02854e17ffa37cb93c4c039ac5c6bb9c''\<rparr>,
          \<lparr>mf_name = codes ''test_wavs/yue.wav'', mf_source_path = None,
           mf_size_bytes = 164780,
           mf_sha256 = ''0960b2db54ae202071d250e6462fbf74a3c863f0e3e7f01273e4939c996875a0''\<rparr>,
          \<lparr>mf_name = codes ''test_wavs/zh.wav'', mf_source_path = None,
           mf_size_bytes = 178988,
           mf_sha256 = ''b77f1794fe374a0ba1ee1dc458bfaf9349496cbbfc32780c50ba3c5a7ad8e373''\<rparr>,
          \<lparr>mf_name = codes ''tokens.txt'', mf_source_path = None,
           mf_size_bytes = 315894,
           mf_sha256 = ''f449eb28dc567533d7fa59be34e2abca8784f771850c78a47fb731a31429a1dc''\<rparr>]\<rparr>"

definition QWEN3_ASR_06B :: model_manifest where
  "QWEN3_ASR_06B =
     \<lparr>mm_model_id = ''qwen3-asr-0.6b-int8'', mm_version = ''2026-03-25'', mm_provider = ''sherpa-onnx'',
      mm_languages =
        [
         ''zh'', ''en'', ''yue'', ''ar'', ''de'', ''fr'', ''es'', ''pt'', ''id'', ''it'', ''ko'', ''ru'',
         ''th'', ''vi'', ''ja'', ''tr'', ''hi'', ''ms'', ''nl'', ''sv'', ''da'', ''fi'', ''pl'', ''cs'',
         ''fil'', ''fa'', ''el'', ''hu'', ''mk'', ''ro''],
      mm_platforms = [''windows-x86_64''],
      mm_compressed_size_bytes = 987023031, mm_installed_size_bytes = 987023031,
      mm_license = ''Apache-2.0'',
      mm_attribution = ''Qwen (Alibaba Cloud) / zengshuishui ONNX export'',
      mm_upstream_url = ''https://github.com/QwenLM/Qwen3-ASR'',
      mm_redistribution = ''mirror_approved'', mm_archive_format = ''file-set'',
      mm_sources =
         [\<lparr>ds_url = codes (''https://modelscope.cn/models/zengshuishui/Qwen3-ASR-onnx/res'' @
             ''olve/9c182309f7bb075f241424441add9e16c5086dfb''),
           ds_kind = ''china-primary'',
           ds_sha256 = ''ae2850217177b453be842cc12fd1bbde0e2fb93c369ff877e71e92e03aa6b8ac'',
           ds_size_bytes = 987023031\<rparr>],
      mm_files =
         [\<lparr>mf_name = codes ''conv_frontend.onnx'', mf_source_path = Some (codes ''model_0.6B/conv_frontend.onnx''),
           mf_size_bytes = 44148281,
           mf_sha256 = ''d22dc4423e0940e49884e903d2ea2f7e5567c14fc1aed97e4e26d6b8f208ef9e''\<rparr>,
          \<lparr>mf_name = codes ''decoder.int8.onnx'', mf_source_path = Some (codes ''model_0.6B/decoder.int8.onnx''),
           mf_size_bytes = 755914231,
           mf_sha256 = ''4f6885be5959ae26af3089d38ee7972c5fafbeeb1cf8d5e76eab6d8b61ca5771''\<rparr>,
          \<lparr>mf_name = codes ''encoder.int8.onnx'', mf_source_path = Some (codes ''model_0.6B/encoder.int8.onnx''),
           mf_size_bytes = 182491662,
           mf_sha256 = ''60748d3e6744a57c9c91e1b17424a6c2990567e8adceb0783940c03ed98fa9d9''\<rparr>,
          \<lparr>mf_name = codes ''tokenizer/chat_template.json'', mf_source_path = Some (codes ''tokenizer/chat_template.json''),
           mf_size_bytes = 1161,
           mf_sha256 = ''75a8cfca24f00de72d796fbfed6858fc9614ef3dabd8696684cc3bc03a9c58ff''\<rparr>,
          \<lparr>mf_name = codes ''tokenizer/config.json'', mf_source_path = Some (codes ''tokenizer/config.json''),
           mf_size_bytes = 6193,
           mf_sha256 = ''76d3ae4601ce939830b2517f4a6cadb86cc51316c3900af6b020b051c21a478c''\<rparr>,
          \<lparr>mf_name = codes ''tokenizer/merges.txt'', mf_source_path = Some (codes ''tokenizer/merges.txt''),
           mf_size_bytes = 1671853,
           mf_sha256 = ''8831e4f1a044471340f7c0a83d7bd71306a5b867e95fd870f74d0c5308a904d5''\<rparr>,
          \<lparr>mf_name = codes ''tokenizer/preprocessor_config.json'', mf_source_path = Some (codes ''tokenizer/preprocessor_config.json''),
           mf_size_bytes = 330,
           mf_sha256 = ''45e120a4eda2c20c5d7f2ea9354e63536bf35e27aa573fb7cdf78017b378770d''\<rparr>,
          \<lparr>mf_name = codes ''tokenizer/tokenizer_config.json'', mf_source_path = Some (codes ''tokenizer/tokenizer_config.json''),
           mf_size_bytes = 12487,
           mf_sha256 = ''4942d005604266809309cabc9f4e9cb89ce855d59b14681fdc0e1cc62ea26c4c''\<rparr>,
          \<lparr>mf_name = codes ''tokenizer/vocab.json'', mf_source_path = Some (codes ''tokenizer/vocab.json''),
           mf_size_bytes = 2776833,
           mf_sha256 = ''ca10d7e9fb3ed18575dd1e277a2579c16d108e32f27439684afa0e10b1440910''\<rparr>]\<rparr>"

definition WHISPER_CPP_BASE :: model_manifest where
  "WHISPER_CPP_BASE =
     \<lparr>mm_model_id = ''whisper-cpp-base'', mm_version = ''80da2d8'', mm_provider = ''whisper.cpp'',
      mm_languages = [''*''],
      mm_platforms = [''windows-x86_64'', ''macos-x86_64'', ''macos-arm64'', ''linux-x86_64''],
      mm_compressed_size_bytes = 147951465, mm_installed_size_bytes = 147951465,
      mm_license = ''MIT'',
      mm_attribution = ''OpenAI Whisper / ggml-org whisper.cpp conversion'',
      mm_upstream_url = ''https://github.com/ggml-org/whisper.cpp'',
      mm_redistribution = ''upstream_only'', mm_archive_format = ''raw'',
      mm_sources =
         [\<lparr>ds_url = codes (''https://huggingface.co/ggerganov/whisper.cpp/resolve/80da2d8'' @
             ''bfee42b0e836fc3a9890373e5defc00a6/ggml-base.bin''),
           ds_kind = ''upstream'',
           ds_sha256 = ''60ed5bc3dd14eea856493d334349b405782ddcaf0028d4b5df4088345fba2efe'',
           ds_size_bytes = 147951465\<rparr>],
      mm_files =
         [\<lparr>mf_name = codes ''ggml-base.bin'', mf_source_path = None,
           mf_size_bytes = 147951465,
           mf_sha256 = ''60ed5bc3dd14eea856493d334349b405782ddcaf0028d4b5df4088345fba2efe''\<rparr>]\<rparr>"

definition BUILTIN_MANIFESTS :: "model_manifest list" where
  "BUILTIN_MANIFESTS = [LITE_ZIPFORMER, STANDARD_SENSEVOICE, QWEN3_ASR_06B, WHISPER_CPP_BASE]"

definition get_builtin_manifest :: "string \<Rightarrow> model_manifest option" where
  "get_builtin_manifest model_id = map_of (rev (map (\<lambda>m. (mm_model_id m, m)) BUILTIN_MANIFESTS)) model_id"

lemma lite_ok: "manifest_ok sha256 LITE_ZIPFORMER \<and> is_releasable LITE_ZIPFORMER"
  by code_simp

lemma standard_ok: "manifest_ok sha256 STANDARD_SENSEVOICE \<and> is_releasable STANDARD_SENSEVOICE"
  by code_simp

lemma whisper_ok: "manifest_ok sha256 WHISPER_CPP_BASE \<and> is_releasable WHISPER_CPP_BASE"
  by code_simp

definition QWEN3_FINGERPRINT :: string where
  "QWEN3_FINGERPRINT = ''ae2850217177b453be842cc12fd1bbde0e2fb93c369ff877e71e92e03aa6b8ac''"

lemma qwen3_ok: "manifest_ok (\<lambda>_. QWEN3_FINGERPRINT) QWEN3_ASR_06B \<and> is_releasable QWEN3_ASR_06B"
  by code_simp

lemma manifest_ok_cong:
  assumes "file_set_fingerprint h (mm_files m) = file_set_fingerprint h' (mm_files m)"
  shows "manifest_ok h m = manifest_ok h' m"
  using assms by (simp add: manifest_ok_def artifact_consistent_def)

text \<open>
  The built-in manifests pass their validation, with a hash that gives the pinned fingerprint of
  the one file set, and every one of them is releasable: its sources are those the catalogue approves.
  So importing the module raises nothing, and each built-in model can be installed.
\<close>

theorem builtin_manifests_valid:
  assumes "file_set_fingerprint sha256 (mm_files QWEN3_ASR_06B) = QWEN3_FINGERPRINT"
  shows "list_all (\<lambda>m. manifest_ok sha256 m \<and> is_releasable m) BUILTIN_MANIFESTS"
proof -
  have "file_set_fingerprint sha256 (mm_files QWEN3_ASR_06B) =
      file_set_fingerprint (\<lambda>_. QWEN3_FINGERPRINT) (mm_files QWEN3_ASR_06B)"
    using assms by (simp add: file_set_fingerprint_def)
  from manifest_ok_cong [OF this] show ?thesis
    using lite_ok [of sha256] standard_ok [of sha256] qwen3_ok whisper_ok [of sha256] by (simp add: BUILTIN_MANIFESTS_def)
qed

theorem builtin_manifests_valid_witness:
  "list_all (\<lambda>m. manifest_ok (\<lambda>_. QWEN3_FINGERPRINT) m \<and> is_releasable m) BUILTIN_MANIFESTS"
  by (rule builtin_manifests_valid) (simp add: file_set_fingerprint_def)

end
