(* ===== verification/ModelServiceTheorems.thy ===== *)
theory ModelServiceTheorems
  imports ModelService ModelSteps ModelCatalog
begin

text \<open>
  What the model service guarantees: exactly the jobs whose model is installed and whose recogniser
  is registered are resumed; an uninstall removes records and files together or leaves both; and a
  start after a crash in the middle of an uninstall brings the two back together.
\<close>

section \<open>Resuming\<close>

definition resumed :: "time \<Rightarrow> job \<Rightarrow> job" where
  "resumed now r =
     r\<lparr>j_status := TRANSCRIBING, j_stage := Some TRANSCRIBING, j_asr_recommendation_model_id := None,
       j_error_code := None, j_error_detail := None, j_retryable := False, j_lease_owner := None,
       j_lease_expires_at := None, j_updated_at := now\<rparr>"

text \<open>Between the calls the session has published everything it wrote.\<close>

definition published :: "session \<Rightarrow> bool" where
  "published s \<longleftrightarrow>
     \<not> locked s \<and> \<not> pending s \<and> \<not> has_dml s \<and> tx s \<noteq> Immediate \<and> working s = committed s"

lemma published_open [simp]: "published (open_session d)"
  by (simp add: published_def open_session_def)

lemma published_autobegin: "published s \<Longrightarrow> published (autobegin s) \<and> committed (autobegin s) = committed s"
  by (auto simp: published_def exit_defs)

lemma published_startable: "published s \<Longrightarrow> startable s \<and> working (opened s) = committed s \<and> \<not> locked (opened s)"
  by (cases "tx s") (auto simp: published_def startable_def refused_def opened_def exit_defs)

lemma resume_one:
  assumes "published s"
  obtains s' where "resume_waiting_jobs m now s =
      (Inr (map j_job_id (filter (awaits_model m) (jobs (committed s)))), s')"
    "committed s' = patch_jobs (awaits_model m) (resumed now) (committed s)" "published s'"
proof -
  note st = published_startable [OF assms]
  let ?ks = "map j_job_id (filter (awaits_model m) (jobs (committed s)))"
  let ?s' = "publish (patch_jobs (awaits_model m) (resumed now) (committed s)) (set ?ks) {} (opened s)"
  have a: "awaits_model m = (\<lambda>r. j_status r = WAITING_FOR_MODEL \<and> j_asr_recommendation_model_id r = Some m \<and>
      j_cancel_requested_at r = None)" "resumed now = (\<lambda>r. r\<lparr>j_status := TRANSCRIBING, j_stage := Some TRANSCRIBING,
        j_asr_recommendation_model_id := None, j_error_code := None, j_error_detail := None, j_retryable := False,
        j_lease_owner := None, j_lease_expires_at := None, j_updated_at := now\<rparr>)"
    by (auto simp: awaits_model_def resumed_def)
  have "resume_waiting_jobs m now s = (Inr ?ks, ?s')"
    unfolding resume_waiting_jobs_def write_tx_ok [OF conjunct1 [OF st]] a by (simp add: st Let_def)
  moreover have "published ?s'" using st by (simp add: published_def exit_defs)
  moreover have "committed ?s' = patch_jobs (awaits_model m) (resumed now) (committed s)" by (simp add: exit_defs)
  ultimately show ?thesis using that by blast
qed

lemma resumed_simps [simp]: "j_job_id (resumed now r) = j_job_id r" "\<not> awaits_model m (resumed now r)"
  by (simp_all add: resumed_def awaits_model_def)

lemma model_ready_cong: "installs d = installs d' \<Longrightarrow> model_ready reg d m = model_ready reg d' m"
  by (simp add: model_ready_def get_installations_def split: option.split)

lemma resume_ready_exact:
  assumes "published s" "jobs_unique (committed s)"
  shows "\<exists>ks s'. resume_ready reg now ms s = (Inr ks, s') \<and>
    (\<forall>k r. find_job k (committed s) = Some r \<longrightarrow>
       find_job k (committed s') =
         Some (if list_ex (\<lambda>m. model_ready reg (committed s) m \<and> awaits_model m r) ms then resumed now r else r) \<and>
       (k \<in> set ks \<longleftrightarrow> list_ex (\<lambda>m. model_ready reg (committed s) m \<and> awaits_model m r) ms))"
  using assms
proof (induction ms arbitrary: s)
  case (Cons m ms)
  define t where "t = (if map_of MODEL_PROVIDER_IDS m = None then s else autobegin s)"
  have t: "published t" "committed t = committed s" "working t = committed s"
    using Cons.prems(1) published_autobegin [OF Cons.prems(1)] by (auto simp: t_def published_def)
  show ?case
  proof (cases "model_ready reg (committed s) m")
    case False
    then show ?thesis using Cons.IH [OF t(1)] Cons.prems(2) t by (auto simp: Let_def t_def [symmetric])
  next
    case True
    obtain u where u: "resume_waiting_jobs m now t = (Inr (map j_job_id (filter (awaits_model m) (jobs (committed s)))), u)"
        "committed u = patch_jobs (awaits_model m) (resumed now) (committed s)" "published u"
      using resume_one [OF t(1), of m now] t(2) by metis
    have uniq: "jobs_unique (committed u)" using Cons.prems(2) u(2) by (simp add: job_store.unique_patch)
    obtain ks s' where run: "resume_ready reg now ms u = (Inr ks, s')" and
      ih: "\<And>k r. find_job k (committed u) = Some r \<Longrightarrow>
        find_job k (committed s') =
          Some (if list_ex (\<lambda>m. model_ready reg (committed u) m \<and> awaits_model m r) ms then resumed now r else r) \<and>
        (k \<in> set ks \<longleftrightarrow> list_ex (\<lambda>m. model_ready reg (committed u) m \<and> awaits_model m r) ms)"
      using Cons.IH [OF u(3) uniq] by blast
    have ready: "model_ready reg (committed u) x = model_ready reg (committed s) x" for x
      by (rule model_ready_cong) (simp add: u(2))
    have whole: "resume_ready reg now (m # ms) s =
        (Inr (map j_job_id (filter (awaits_model m) (jobs (committed s))) @ ks), s')"
      using True t(3) u(1) run by (simp add: Let_def t_def [symmetric])
    have each: "find_job k (committed s') =
          Some (if list_ex (\<lambda>m. model_ready reg (committed s) m \<and> awaits_model m r) (m # ms) then resumed now r else r) \<and>
        (k \<in> set (map j_job_id (filter (awaits_model m) (jobs (committed s))) @ ks) \<longleftrightarrow>
         list_ex (\<lambda>m. model_ready reg (committed s) m \<and> awaits_model m r) (m # ms))"
      if r: "find_job k (committed s) = Some r" for k r
    proof -
      have "find_job k (committed u) = Some (if awaits_model m r then resumed now r else r)"
        using r by (simp add: u(2) job_store.lookup_patch)
      note later = ih [OF this]
      have "x = r" if "x \<in> set (jobs (committed s))" "j_job_id x = k" for x
        using that find_job_unique [OF Cons.prems(2) that(1)] r by simp
      then have first: "k \<in> set (map j_job_id (filter (awaits_model m) (jobs (committed s)))) \<longleftrightarrow> awaits_model m r"
        using find_job_in [OF r] by (auto simp: image_iff)
      show ?thesis
        using later first True by (cases "awaits_model m r") (auto simp: ready list_ex_iff)
    qed
    show ?thesis using whole each by blast
  qed
qed (auto simp: list_ex_iff)

lemma waiting_jobs_resumed:
  assumes "jobs_wf d" "find_job k d = Some r"
    and "reconcile_waiting_asr_jobs host models_dir now retry (open_session d) reg = ((res, s'), reg')"
  shows "\<exists>ks. res = Inr ks \<and>
    (case j_asr_recommendation_model_id r of
       None \<Rightarrow> k \<notin> set ks \<and> find_job k (committed s') = Some r
     | Some m \<Rightarrow>
         (if awaits_model m r \<and> model_ready (rg_registry reg') d m
          then k \<in> set ks \<and> find_job k (committed s') = Some (resumed now r)
          else k \<notin> set ks \<and> find_job k (committed s') = Some r))"
proof -
  let ?s = "autobegin (open_session d)"
  have s: "published ?s" "committed ?s = d" "working ?s = d"
    using published_autobegin [OF published_open, of d] by (auto simp: published_def)
  have u: "jobs_unique d" using assms(1) by (simp add: jobs_wf_def jobs_unique_def)
  have run: "resume_ready (rg_registry reg') now (list_waiting_model_ids d) ?s = (res, s')"
    using assms(3) s(3) by (auto simp: reconcile_waiting_asr_jobs_def Let_def)
  obtain ks where ks: "res = Inr ks"
      "find_job k (committed s') = Some (if list_ex (\<lambda>m. model_ready (rg_registry reg') d m \<and> awaits_model m r)
         (list_waiting_model_ids d) then resumed now r else r)"
      "k \<in> set ks \<longleftrightarrow> list_ex (\<lambda>m. model_ready (rg_registry reg') d m \<and> awaits_model m r) (list_waiting_model_ids d)"
    using resume_ready_exact [OF s(1), of "rg_registry reg'" now "list_waiting_model_ids d"] s(2) u assms(2) run by auto
  have "m \<in> set (list_waiting_model_ids d)" if "awaits_model m r" for m
    using that find_job_in [OF assms(2)]
    by (force simp: list_waiting_model_ids_def awaits_model_def List.map_filter_def)
  then have "list_ex (\<lambda>m. model_ready (rg_registry reg') d m \<and> awaits_model m r) (list_waiting_model_ids d) \<longleftrightarrow>
      (\<exists>m. model_ready (rg_registry reg') d m \<and> awaits_model m r)"
    by (auto simp: list_ex_iff)
  moreover have only: "j_asr_recommendation_model_id r = Some m" if "awaits_model m r" for m
    using that by (simp add: awaits_model_def)
  ultimately show ?thesis
  proof (cases "j_asr_recommendation_model_id r")
    case None
    then have "\<not> awaits_model m r" for m using only by fastforce
    then show ?thesis using None ks by (simp add: list_ex_iff)
  next
    case (Some m)
    then have "(\<exists>x. model_ready (rg_registry reg') d x \<and> awaits_model x r) \<longleftrightarrow>
        awaits_model m r \<and> model_ready (rg_registry reg') d m"
      using only by fastforce
    then show ?thesis using Some ks \<open>list_ex _ _ \<longleftrightarrow> _\<close> by simp
  qed
qed

text \<open>
  C19. Reconciling resumes exactly the jobs that wait, without a pending cancellation, for a model that
  has both an install record and a registered recogniser after the refresh; each goes back to
  transcribing with its error and its lease cleared, and every other job is left as it is.
\<close>
theorem waiting_jobs_resumed_exactly:
  assumes "jobs_wf d" "find_job k d = Some r"
    and "reconcile_waiting_asr_jobs host models_dir now retry (open_session d) reg = ((res, s'), reg')"
  shows "\<exists>ks. res = Inr ks \<and>
    (case j_asr_recommendation_model_id r of
       None \<Rightarrow> k \<notin> set ks \<and> find_job k (committed s') = Some r
     | Some m \<Rightarrow>
         (if awaits_model m r \<and> get_installations (Some m) d \<noteq> [] \<and>
             (\<exists>p. map_of MODEL_PROVIDER_IDS m = Some p \<and> get_provider p (rg_registry reg') \<noteq> None)
          then k \<in> set ks \<and> find_job k (committed s') = Some (resumed now r)
          else k \<notin> set ks \<and> find_job k (committed s') = Some r))"
proof -
  have "model_ready (rg_registry reg') d m \<longleftrightarrow> get_installations (Some m) d \<noteq> [] \<and>
      (\<exists>p. map_of MODEL_PROVIDER_IDS m = Some p \<and> get_provider p (rg_registry reg') \<noteq> None)" for m
    by (auto simp: model_ready_def split: option.split)
  then show ?thesis using waiting_jobs_resumed [OF assms] by (simp cong: option.case_cong)
qed

section \<open>The catalogue and the registration\<close>

text \<open>The declared files of a manifest, below its version directory.\<close>

definition files_on_disk :: "recogniser_host \<Rightarrow> utext \<Rightarrow> model_manifest \<Rightarrow> bool" where
  "files_on_disk host dir m =
     list_all (\<lambda>f. rh_is_file host (slash (slash dir (mm_model_id m)) (mm_version m) @ 47 # mf_name f)) (mm_files m)"

definition engine_usable :: "recogniser_host \<Rightarrow> utext \<Rightarrow> utext \<Rightarrow> bool" where
  "engine_usable host dir executable \<longleftrightarrow>
     rh_is_dir host dir \<and> rh_importable host \<and> rh_vad host \<noteq> None \<and> executable \<noteq> [] \<and> rh_is_file host executable"

text \<open>
  A built-in model whose declared files are in its version directory is wanted by the registration:
  the provider the service maps it to gets a signature, so that it is built and its waiting jobs can
  be resumed. The file names, the directory layout and the ids of the manifests, of the installer, of
  the registration and of the service agree.
\<close>

theorem installed_builtin_is_wanted:
  assumes "m \<in> set BUILTIN_MANIFESTS" "files_on_disk host dir m" "engine_usable host dir exe"
  shows "case map_of MODEL_PROVIDER_IDS (mm_model_id m) of
      None \<Rightarrow> False
    | Some k \<Rightarrow> k \<in> set BUILT_IN \<and> desired host (Some dir) (Some exe) k \<noteq> None"
proof -
  obtain vad where host: "rh_is_dir host dir" "rh_importable host" "rh_vad host = Some vad" "exe \<noteq> []" "rh_is_file host exe"
    using assms(3) by (auto simp: engine_usable_def)
  have sig: "sherpa_signatures host (Some dir) =
      (tier_signature host (slash (slash dir ''sensevoice-small-int8'') ''2024-07-17'') vad,
       tier_signature host (slash (slash dir ''zipformer-ctc-small-zh-int8'') ''2025-07-16'') vad,
       qwen3_signature host (slash (slash dir ''qwen3-asr-0.6b-int8'') ''2026-03-25'') vad)"
    using host by (simp add: sherpa_signatures_def)
  consider "m = LITE_ZIPFORMER" | "m = STANDARD_SENSEVOICE" | "m = QWEN3_ASR_06B" | "m = WHISPER_CPP_BASE"
    using assms(1) by (auto simp: BUILTIN_MANIFESTS_def)
  then show ?thesis
  proof cases
    case 1
    then have "mm_model_id m = ''zipformer-ctc-small-zh-int8''" "mm_version m = ''2025-07-16''"
        "codes ''model.int8.onnx'' \<in> mf_name ` set (mm_files m)" "codes ''tokens.txt'' \<in> mf_name ` set (mm_files m)"
      by (simp_all add: LITE_ZIPFORMER_def)
    then show ?thesis
      using assms(2) by (auto simp: files_on_disk_def MODEL_PROVIDER_IDS_def BUILT_IN_def desired_def sig tier_signature_def
          slash_def list_all_iff)
  next
    case 2
    then have "mm_model_id m = ''sensevoice-small-int8''" "mm_version m = ''2024-07-17''"
        "codes ''model.int8.onnx'' \<in> mf_name ` set (mm_files m)" "codes ''tokens.txt'' \<in> mf_name ` set (mm_files m)"
      by (simp_all add: STANDARD_SENSEVOICE_def)
    then show ?thesis
      using assms(2) by (auto simp: files_on_disk_def MODEL_PROVIDER_IDS_def BUILT_IN_def desired_def sig tier_signature_def
          slash_def list_all_iff)
  next
    case 3
    then have "mm_model_id m = ''qwen3-asr-0.6b-int8''" "mm_version m = ''2026-03-25''"
        "\<forall>n \<in> set QWEN3_FILES. codes n \<in> mf_name ` set (mm_files m)"
      by (simp_all add: QWEN3_ASR_06B_def QWEN3_FILES_def)
    then show ?thesis
      using assms(2) by (fastforce simp: files_on_disk_def MODEL_PROVIDER_IDS_def BUILT_IN_def desired_def sig qwen3_signature_def
          slash_def list_all_iff)
  next
    case 4
    then have "mm_model_id m = ''whisper-cpp-base''" "mm_version m = ''80da2d8''"
        "codes ''ggml-base.bin'' \<in> mf_name ` set (mm_files m)"
      by (simp_all add: WHISPER_CPP_BASE_def)
    then show ?thesis
      using assms(2) host
      by (auto simp: files_on_disk_def MODEL_PROVIDER_IDS_def BUILT_IN_def desired_def whisper_signature_def
          slash_def list_all_iff split: list.split)
  qed
qed

definition full_host :: recogniser_host where
  "full_host =
     \<lparr>rh_is_file = (\<lambda>_. True), rh_is_dir = (\<lambda>_. True), rh_vad = Some [118], rh_importable = True, rh_loads = (\<lambda>_ _. True)\<rparr>"

theorem installed_builtin_is_wanted_witness:
  "desired full_host (Some [109]) (Some [99]) QWEN3 \<noteq> None"
proof -
  have "QWEN3_ASR_06B \<in> set BUILTIN_MANIFESTS" "files_on_disk full_host [109] QWEN3_ASR_06B" "engine_usable full_host [109] [99]"
    by (simp_all add: BUILTIN_MANIFESTS_def files_on_disk_def full_host_def engine_usable_def list_all_iff)
  moreover have "map_of MODEL_PROVIDER_IDS (mm_model_id QWEN3_ASR_06B) = Some QWEN3"
    by (simp add: MODEL_PROVIDER_IDS_def QWEN3_ASR_06B_def)
  ultimately show ?thesis using installed_builtin_is_wanted [of QWEN3_ASR_06B full_host "[109]" "[99]"] by simp
qed

section \<open>Uninstalling\<close>


section \<open>The trash\<close>

lemma restore_entries_exact:
  "restore_entries faulty es target =
     (if target \<noteq> None then ([], target)
      else if faulty then (es, None)
      else ([], case es of [] \<Rightarrow> None | e # _ \<Rightarrow> Some (snd e)))"
  by (induction es arbitrary: target) (auto split: list.split)

lemma map_of_update_alist: "map_of (AList.update k v al) k' = (if k' = k then Some v else map_of al k')"
  by (simp add: update_conv)

lemma map_of_delete_alist: "map_of (AList.delete k al) k' = (if k' = k then None else map_of al k')"
  by (simp add: delete_conv)

lemma cleanup_entry_effect:
  "ms_dirs (cleanup_entry faulty d e fs) k =
     (if k = fst e \<and> get_installations (Some k) d \<noteq> [] \<and> ms_dirs fs k = None \<and> \<not> faulty k
      then (case sort_key by_name (snd e) of [] \<Rightarrow> None | x # _ \<Rightarrow> Some (snd x)) else ms_dirs fs k)"
  "map_of (ms_trash (cleanup_entry faulty d e fs)) k =
     (if k = fst e then
        (if get_installations (Some k) d \<noteq> [] \<and> ms_dirs fs k = None \<and> faulty k \<and> snd e \<noteq> []
         then Some (sort_key by_name (snd e)) else None)
      else map_of (ms_trash fs) k)"
  by (auto simp: cleanup_entry_def Let_def restore_entries_exact map_of_update_alist map_of_delete_alist
      split: list.split dest: arg_cong [of _ _ set])

lemma cleanup_fold:
  assumes "distinct (map fst es)"
  shows "ms_dirs (fold (cleanup_entry faulty d) es fs) k =
     (case map_of es k of
        None \<Rightarrow> ms_dirs fs k
      | Some entries \<Rightarrow>
          if get_installations (Some k) d \<noteq> [] \<and> ms_dirs fs k = None \<and> \<not> faulty k
          then (case sort_key by_name entries of [] \<Rightarrow> None | x # _ \<Rightarrow> Some (snd x)) else ms_dirs fs k) \<and>
    map_of (ms_trash (fold (cleanup_entry faulty d) es fs)) k =
     (case map_of es k of
        None \<Rightarrow> map_of (ms_trash fs) k
      | Some entries \<Rightarrow>
          if get_installations (Some k) d \<noteq> [] \<and> ms_dirs fs k = None \<and> faulty k \<and> entries \<noteq> []
          then Some (sort_key by_name entries) else None)"
  using assms
proof (induction es arbitrary: fs)
  case (Cons e es)
  then have "map_of es (fst e) = None" by (simp add: map_of_eq_None_iff)
  then show ?case
    using Cons.IH [of "cleanup_entry faulty d e fs"] Cons.prems
    by (cases e; cases "k = fst e"; cases "map_of es k") (simp_all add: cleanup_entry_effect)
qed simp

lemma distinct_sort_key: "distinct (map fst xs) \<Longrightarrow> distinct (map fst (sort_key f xs))"
  by (simp add: distinct_map)

lemma map_of_sort_key:
  assumes "distinct (map fst xs)"
  shows "map_of (sort_key f xs) k = map_of xs k"
proof (cases "map_of xs k")
  case None
  then have "map_of (sort_key f xs) k = None" by (simp add: map_of_eq_None_iff)
  then show ?thesis using None by simp
next
  case (Some v)
  then have "(k, v) \<in> set (sort_key f xs)" by (simp add: map_of_SomeD)
  then have "map_of (sort_key f xs) k = Some v" by (rule map_of_is_SomeI [OF distinct_sort_key [OF assms]])
  then show ?thesis using Some by simp
qed

lemma cleanup_dirs:
  assumes "distinct (map fst (ms_trash fs))"
  shows "ms_dirs (cleanup_trash faulty d fs) k =
     (if get_installations (Some k) d \<noteq> [] \<and> ms_dirs fs k = None \<and> \<not> faulty k
      then (case sort_key by_name (trash_entries k fs) of [] \<Rightarrow> None | x # _ \<Rightarrow> Some (snd x)) else ms_dirs fs k)"
    "trash_entries k (cleanup_trash faulty d fs) =
     (if get_installations (Some k) d \<noteq> [] \<and> ms_dirs fs k = None \<and> faulty k
      then sort_key by_name (trash_entries k fs) else [])"
proof -
  note dist = distinct_sort_key [OF assms, of by_name]
  note eff = cleanup_fold [OF dist, of faulty d fs k, unfolded map_of_sort_key [OF assms]]
  show "ms_dirs (cleanup_trash faulty d fs) k =
     (if get_installations (Some k) d \<noteq> [] \<and> ms_dirs fs k = None \<and> \<not> faulty k
      then (case sort_key by_name (trash_entries k fs) of [] \<Rightarrow> None | x # _ \<Rightarrow> Some (snd x)) else ms_dirs fs k)"
    using conjunct1 [OF eff] by (auto simp: cleanup_trash_def trash_entries_def split: option.splits)
  show "trash_entries k (cleanup_trash faulty d fs) =
     (if get_installations (Some k) d \<noteq> [] \<and> ms_dirs fs k = None \<and> faulty k
      then sort_key by_name (trash_entries k fs) else [])"
    using conjunct2 [OF eff] by (auto simp: cleanup_trash_def trash_entries_def split: option.splits)
qed


section \<open>Samples\<close>

definition sample_models :: model_store where
  "sample_models = \<lparr>ms_dirs = [''whisper-cpp-base'' \<mapsto> [(codes ''x'', [1, 2])]], ms_trash = [], ms_downloads = (\<lambda>_. None)\<rparr>"

definition sample_uninstall :: uninstall_env where
  "sample_uninstall =
     \<lparr>un_unique = ''u'', un_move_fault = None, un_restore_fault = None, un_locked = False, un_left_over = None\<rparr>"

definition idle_host :: recogniser_host where
  "idle_host = \<lparr>rh_is_file = (\<lambda>_. False), rh_is_dir = (\<lambda>_. False), rh_vad = None, rh_importable = False, rh_loads = (\<lambda>_ _. False)\<rparr>"

definition sample_registry :: registration where
  "sample_registry = \<lparr>rg_registry = [(WHISPER, 0)], rg_managed = Map.empty, rg_next = 1\<rparr>"

definition waiting_db :: database where
  "waiting_db = (sample_db (parked_job ''a'' ''whisper-cpp-base'' None))
     \<lparr>installs := [\<lparr>mi_model_id = ''whisper-cpp-base'', mi_version = ''1'', mi_installed_path = [], mi_installed_at = 1\<rparr>]\<rparr>"



theorem waiting_jobs_resumed_exactly_witness:
  "\<exists>ks s'. fst (reconcile_waiting_asr_jobs idle_host None 5 False (open_session waiting_db) sample_registry) = (Inr ks, s') \<and>
     ''a'' \<in> set ks"
proof -
  obtain res s' reg' where run: "reconcile_waiting_asr_jobs idle_host None 5 False (open_session waiting_db) sample_registry =
      ((res, s'), reg')" by (metis prod.exhaust)
  have reg: "rg_registry reg' = [(WHISPER, 0)]"
    using run by (auto simp: reconcile_waiting_asr_jobs_def Let_def register_available_asr_providers_def reconcile_sherpa_def
        sherpa_signatures_def whisper_signature_def reconcile_managed_def forget_managed_def sample_registry_def)
  have wf: "jobs_wf waiting_db"
    using parked_wf [of "''a''" "''whisper-cpp-base''" None] by (simp add: waiting_db_def jobs_wf_def)
  have job: "find_job ''a'' waiting_db = Some (parked_job ''a'' ''whisper-cpp-base'' None)"
    by (simp add: waiting_db_def sample_db_def find_job_def parked_job_def)
  have ready: "get_installations (Some ''whisper-cpp-base'') waiting_db \<noteq> []"
      "\<exists>p. map_of MODEL_PROVIDER_IDS ''whisper-cpp-base'' = Some p \<and> get_provider p (rg_registry reg') \<noteq> None"
    by (simp_all add: reg MODEL_PROVIDER_IDS_def get_installations_def waiting_db_def get_provider_def)
  have "awaits_model ''whisper-cpp-base'' (parked_job ''a'' ''whisper-cpp-base'' None)"
      "j_asr_recommendation_model_id (parked_job ''a'' ''whisper-cpp-base'' None) = Some ''whisper-cpp-base''"
    by (simp_all add: awaits_model_def parked_job_def)
  then show ?thesis using waiting_jobs_resumed_exactly [OF wf job run] ready by (auto simp: run)
qed

end
