(* ===== verification/Backups.thy ===== *)
theory Backups
  imports ClientConfig
begin

text \<open>
  The write channel and the backups of a client configuration,
  \<open>application/client_config/writes.py\<close> and \<open>backup.py\<close>, over a model of the one directory
  that holds the configuration and its backups.
\<close>

section \<open>The directory\<close>

text \<open>
  The files of the directory by name. The access number \<open>n\<close> to it, counted in \<open>cd_step\<close>, may
  find that other programs changed the files before (\<open>ce_others\<close>), and may fail with an
  \<open>errno\<close> and an exception class (\<open>ce_fault\<close>). \<open>ce_written\<close> is what a failed write of a new
  file leaves of it, \<open>ce_now\<close>, \<open>ce_hex\<close> and \<open>ce_unique\<close> are the clock, the two random bytes
  and the process with its monotonic clock, as a call at that point reads them.
\<close>

type_synonym files = "(utext \<times> nat list) list"

record client_dir =
  cd_exists :: bool
  cd_files :: files
  cd_step :: nat

record client_env =
  ce_others :: "nat \<Rightarrow> files \<Rightarrow> files"
  ce_fault :: "nat \<Rightarrow> (int \<times> string) option"
  ce_written :: "nat \<Rightarrow> nat option"
  ce_now :: "nat \<Rightarrow> time"
  ce_hex :: "nat \<Rightarrow> utext"
  ce_unique :: "nat \<Rightarrow> utext"
  ce_sha256 :: "nat list \<Rightarrow> string"
  ce_strftime :: "time \<Rightarrow> utext"
  ce_strptime :: "utext \<Rightarrow> time option"
  ce_decimal :: "nat \<Rightarrow> bool"

type_synonym 'a dir_call = "client_dir \<Rightarrow> 'a outcome \<times> client_dir"

definition lookup :: "client_dir \<Rightarrow> utext \<Rightarrow> nat list option" where
  "lookup d name = (if cd_exists d then map_of (cd_files d) name else None)"

definition store_file :: "utext \<Rightarrow> nat list \<Rightarrow> client_dir \<Rightarrow> client_dir" where
  "store_file name bs d = d\<lparr>cd_files := AList.update name bs (cd_files d)\<rparr>"

definition drop_file :: "utext \<Rightarrow> client_dir \<Rightarrow> client_dir" where
  "drop_file name d = d\<lparr>cd_files := AList.delete name (cd_files d)\<rparr>"

definition advance_dir :: "client_env \<Rightarrow> client_dir \<Rightarrow> client_dir" where
  "advance_dir env d = d\<lparr>cd_files := ce_others env (cd_step d) (cd_files d), cd_step := Suc (cd_step d)\<rparr>"

text \<open>One access: it fails, or it does \<open>f\<close>.\<close>

definition access :: "client_env \<Rightarrow> 'a dir_call \<Rightarrow> 'a dir_call" where
  "access env f d =
     (case ce_fault env (cd_step d) of
        Some (errno, c) \<Rightarrow> (Inl (OSError errno c), advance_dir env d)
      | None \<Rightarrow> f (advance_dir env d))"

definition follow ::
  "('s \<Rightarrow> 'a outcome \<times> 's) \<Rightarrow> ('a \<Rightarrow> 's \<Rightarrow> 'b outcome \<times> 's) \<Rightarrow> 's \<Rightarrow> 'b outcome \<times> 's" where
  "follow m f d = (case m d of (Inl e, d') \<Rightarrow> (Inl e, d') | (Inr x, d') \<Rightarrow> f x d')"

definition raise :: "exn \<Rightarrow> 's \<Rightarrow> 'a outcome \<times> 's" where
  "raise e d = (Inl e, d)"

definition yield :: "'a \<Rightarrow> 's \<Rightarrow> 'a outcome \<times> 's" where
  "yield x d = (Inr x, d)"

text \<open>\<open>except FileNotFoundError\<close> and \<open>suppress(OSError)\<close>\<close>

definition not_found :: "exn \<Rightarrow> bool" where
  "not_found e = (case e of OSError _ c \<Rightarrow> c = ''FileNotFoundError'' | _ \<Rightarrow> False)"

definition suppress_os_error :: "unit dir_call \<Rightarrow> unit dir_call" where
  "suppress_os_error m d =
     (case m d of (Inl (OSError _ _), d') \<Rightarrow> (Inr (), d') | r \<Rightarrow> r)"

section \<open>Accesses\<close>

definition missing :: exn where
  "missing = OSError 2 ''FileNotFoundError''"

definition is_dir :: "client_env \<Rightarrow> bool dir_call" where
  "is_dir env = access env (\<lambda>d. (Inr (cd_exists d), d))"

definition is_file :: "client_env \<Rightarrow> utext \<Rightarrow> bool dir_call" where
  "is_file env name = access env (\<lambda>d. (Inr (lookup d name \<noteq> None), d))"

definition read_file_bytes :: "client_env \<Rightarrow> utext \<Rightarrow> nat list dir_call" where
  "read_file_bytes env name =
     access env (\<lambda>d. (case lookup d name of None \<Rightarrow> Inl missing | Some bs \<Rightarrow> Inr bs, d))"

definition unlink :: "client_env \<Rightarrow> utext \<Rightarrow> unit dir_call" where
  "unlink env name =
     access env (\<lambda>d. case lookup d name of None \<Rightarrow> (Inl missing, d) | Some _ \<Rightarrow> (Inr (), drop_file name d))"

text \<open>Open, write, flush and \<open>fsync\<close> of a new file.\<close>

definition write_new :: "client_env \<Rightarrow> utext \<Rightarrow> nat list \<Rightarrow> unit dir_call" where
  "write_new env name payload d =
     (let d' = advance_dir env d
      in case ce_fault env (cd_step d) of
           Some (errno, c) \<Rightarrow>
             (Inl (OSError errno c),
              case ce_written env (cd_step d) of None \<Rightarrow> d' | Some n \<Rightarrow> store_file name (take n payload) d')
         | None \<Rightarrow> if cd_exists d' then (Inr (), store_file name payload d') else (Inl missing, d'))"

definition replace :: "client_env \<Rightarrow> utext \<Rightarrow> utext \<Rightarrow> unit dir_call" where
  "replace env source target =
     access env (\<lambda>d.
       case lookup d source of
         None \<Rightarrow> (Inl missing, d)
       | Some bs \<Rightarrow> (Inr (), store_file target bs (drop_file source d)))"

section \<open>The write channel\<close>

record write_result =
  wr_size_bytes :: int
  wr_sha256 :: string

text \<open>\<open>unlink(missing_ok=True)\<close> of the temporary file, its own errors suppressed.\<close>

definition discard :: "client_env \<Rightarrow> utext \<Rightarrow> unit dir_call" where
  "discard env name = suppress_os_error (unlink env name)"

definition temporary_name :: "client_env \<Rightarrow> utext \<Rightarrow> client_dir \<Rightarrow> utext" where
  "temporary_name env target d = target @ codes ''.tmp-'' @ ce_unique env (cd_step d)"

definition write_through :: "client_env \<Rightarrow> utext \<Rightarrow> nat list \<Rightarrow> utext \<Rightarrow> write_result dir_call" where
  "write_through env target payload tmp d =
     (case follow (write_new env tmp payload) (\<lambda>_. replace env tmp target) d of
        (Inl e, d') \<Rightarrow> follow (discard env tmp) (\<lambda>_. raise e) d'
      | (Inr _, d') \<Rightarrow>
          follow (read_file_bytes env target) (\<lambda>written.
            if written \<noteq> payload
            then raise (ConfigWriteError ''post-write read-back mismatch; the write did not stick'')
            else yield \<lparr>wr_size_bytes = int (length written), wr_sha256 = ce_sha256 env written\<rparr>) d')"

definition commit_atomic :: "client_env \<Rightarrow> utext \<Rightarrow> nat list \<Rightarrow> write_result dir_call" where
  "commit_atomic env target payload =
     follow (is_dir env) (\<lambda>present d.
       if \<not> present then raise (ConfigWriteError ''target directory does not exist; refusing to create it'') d
       else write_through env target payload (temporary_name env target d) d)"

definition remove_atomic :: "client_env \<Rightarrow> utext \<Rightarrow> unit dir_call" where
  "remove_atomic env target d =
     (case unlink env target d of
        (Inl e, d') \<Rightarrow> (if not_found e then yield () else raise e) d'
      | (Inr _, d') \<Rightarrow>
          follow (is_file env target) (\<lambda>present.
            if present then raise (ConfigWriteError ''target still present after removal'') else yield ()) d')"

text \<open>\<open>remove_file\<close> is \<open>discard\<close>: an absent file and every other \<open>OSError\<close> are ignored.\<close>

definition remove_file :: "client_env \<Rightarrow> utext \<Rightarrow> unit dir_call" where
  "remove_file env name = suppress_os_error (unlink env name)"

section \<open>Backup names\<close>

definition BACKUP_SUFFIX :: utext where
  "BACKUP_SUFFIX = codes ''.evoblue-backup-''"

definition BACKUP_RETENTION :: nat where
  "BACKUP_RETENTION = 5"

definition sentinel_payload :: "nat list" where
  "sentinel_payload = codes ''EVOBLUE_ABSENT_SENTINEL'' @ [10]"

definition is_sentinel :: "nat list \<Rightarrow> bool" where
  "is_sentinel bs = (bs = sentinel_payload)"

text \<open>
  The group of \<open>_TIMESTAMP_RE.search(name)\<close>: the suffix, eight digits, \<open>T\<close>, six digits, \<open>Z-\<close>
  and four hexadecimal digits, at the end of the name or before a line feed that ends it.
\<close>

definition timestamp_of :: "client_env \<Rightarrow> utext \<Rightarrow> utext option" where
  "timestamp_of env name =
     (let t = (if name \<noteq> [] \<and> last name = 10 then butlast name else name);
          m = drop (length t - 37) t; stamp = take 15 (drop 16 m)
      in if length m = 37 \<and> take 16 m = BACKUP_SUFFIX \<and>
            list_all (ce_decimal env) (take 8 stamp) \<and> stamp ! 8 = 84 \<and> list_all (ce_decimal env) (drop 9 stamp) \<and>
            take 2 (drop 31 m) = [90, 45] \<and>
            list_all (\<lambda>c. is_digit c \<or> 97 \<le> c \<and> c \<le> 102) (drop 33 m)
         then Some stamp else None)"

definition begins :: "utext \<Rightarrow> utext \<Rightarrow> bool" where
  "begins p t \<longleftrightarrow> take (length p) t = p"

definition is_backup :: "client_env \<Rightarrow> utext \<Rightarrow> utext \<Rightarrow> bool" where
  "is_backup env target name \<longleftrightarrow> begins (target @ BACKUP_SUFFIX) name \<and> timestamp_of env name \<noteq> None"

text \<open>
  \<open>_backup_paths\<close>: newest first by name. The names of the clients' files hold no wildcard, and
  \<open>glob\<close> answers a directory it cannot list with nothing.
\<close>

definition backup_paths :: "client_env \<Rightarrow> utext \<Rightarrow> utext list dir_call" where
  "backup_paths env target d =
     (let d' = advance_dir env d
      in (Inr (if ce_fault env (cd_step d) = None \<and> cd_exists d'
               then rev (sort (filter (is_backup env target) (remdups (map fst (cd_files d'))))) else []), d'))"

fun remove_files :: "client_env \<Rightarrow> utext list \<Rightarrow> unit dir_call" where
  "remove_files env [] = yield ()"
| "remove_files env (p # ps) = follow (remove_file env p) (\<lambda>_. remove_files env ps)"

definition prune_backups :: "client_env \<Rightarrow> utext \<Rightarrow> unit dir_call" where
  "prune_backups env target =
     follow (backup_paths env target) (\<lambda>paths. remove_files env (drop BACKUP_RETENTION paths))"

section \<open>Backups\<close>

record backup_info =
  bi_name :: utext
  bi_created_at :: time
  bi_size_bytes :: int
  bi_sha256 :: string
  bi_was_absent :: bool
  bi_matches_current :: "bool option"

text \<open>\<open>target.read_bytes()\<close> with \<open>except FileNotFoundError\<close>\<close>

definition read_if_present :: "client_env \<Rightarrow> utext \<Rightarrow> nat list option dir_call" where
  "read_if_present env name d =
     (case read_file_bytes env name d of
        (Inl e, d') \<Rightarrow> if not_found e then (Inr None, d') else (Inl e, d')
      | (Inr bs, d') \<Rightarrow> (Inr (Some bs), d'))"

definition backup_name :: "client_env \<Rightarrow> utext \<Rightarrow> client_dir \<Rightarrow> utext" where
  "backup_name env target d =
     target @ BACKUP_SUFFIX @ ce_strftime env (ce_now env (cd_step d)) @ [45] @ ce_hex env (cd_step d)"

text \<open>The bytes a backup holds: those of the target, or the sentinel for a target that is absent.\<close>

definition saved_bytes :: "nat list option \<Rightarrow> nat list" where
  "saved_bytes v = (case v of None \<Rightarrow> sentinel_payload | Some bs \<Rightarrow> bs)"

definition store_backup ::
  "client_env \<Rightarrow> utext \<Rightarrow> nat list option \<Rightarrow> utext \<Rightarrow> time \<Rightarrow> backup_info dir_call" where
  "store_backup env target found name moment =
     (let current = saved_bytes found
      in follow (commit_atomic env name current) (\<lambda>_.
           follow (prune_backups env target) (\<lambda>_.
             yield \<lparr>bi_name = name, bi_created_at = moment, bi_size_bytes = int (length current),
               bi_sha256 = ce_sha256 env current, bi_was_absent = (found = None), bi_matches_current = None\<rparr>)))"

definition create_backup :: "client_env \<Rightarrow> utext \<Rightarrow> backup_info dir_call" where
  "create_backup env target =
     follow (read_if_present env target) (\<lambda>found d.
       store_backup env target found (backup_name env target d) (ce_now env (cd_step d)) d)"

text \<open>\<open>_created_at\<close>: the digits of a name need not be a date, and \<open>strptime\<close> says so.\<close>

definition created_at :: "client_env \<Rightarrow> utext \<Rightarrow> time outcome" where
  "created_at env name =
     (case timestamp_of env name of
        None \<Rightarrow> Inr 0
      | Some stamp \<Rightarrow>
          (case ce_strptime env stamp of
             None \<Rightarrow> Inl (ValueError ''time data does not match format'')
           | Some m \<Rightarrow> Inr m))"

fun backup_infos :: "client_env \<Rightarrow> string option \<Rightarrow> utext list \<Rightarrow> backup_info list dir_call" where
  "backup_infos env current_sha [] = yield []"
| "backup_infos env current_sha (p # ps) =
     follow (read_file_bytes env p) (\<lambda>bs.
       case created_at env p of
         Inl e \<Rightarrow> raise e
       | Inr m \<Rightarrow>
           follow (backup_infos env current_sha ps) (\<lambda>infos.
             yield (\<lparr>bi_name = p, bi_created_at = m, bi_size_bytes = int (length bs),
               bi_sha256 = ce_sha256 env bs, bi_was_absent = is_sentinel bs,
               bi_matches_current = map_option (\<lambda>c. ce_sha256 env bs = c) current_sha\<rparr> # infos)))"

definition list_backups :: "client_env \<Rightarrow> utext \<Rightarrow> backup_info list dir_call" where
  "list_backups env target =
     follow (read_if_present env target) (\<lambda>found.
       follow (backup_paths env target) (backup_infos env (map_option (ce_sha256 env) found)))"

section \<open>Restoring\<close>

record restore_result =
  rr_restored_from :: utext
  rr_safety_backup :: utext
  rr_removed_target :: bool

text \<open>\<open>target.with_name(name)\<close> rejects what is not the name of a file.\<close>

definition resolve_backup :: "client_env \<Rightarrow> utext \<Rightarrow> utext \<Rightarrow> utext dir_call" where
  "resolve_backup env target name =
     (if name = [] \<or> 47 \<in> set name \<or> name = [46] then raise (ValueError ''Invalid name'')
      else if name = target \<or> timestamp_of env name = None \<or> \<not> begins (target @ BACKUP_SUFFIX) name
      then raise (OtherException ''BackupNotFoundError'')
      else follow (is_file env name) (\<lambda>present.
        if present then yield name else raise (OtherException ''BackupNotFoundError'')))"

definition restore :: "client_env \<Rightarrow> utext \<Rightarrow> utext \<Rightarrow> restore_result dir_call" where
  "restore env target name =
     follow (resolve_backup env target name) (\<lambda>path.
       follow (read_file_bytes env path) (\<lambda>bs.
         follow (create_backup env target) (\<lambda>safety.
           let result = \<lparr>rr_restored_from = path, rr_safety_backup = bi_name safety, rr_removed_target = is_sentinel bs\<rparr>
           in if is_sentinel bs then follow (remove_atomic env target) (\<lambda>_. yield result)
              else follow (commit_atomic env target bs) (\<lambda>_. yield result))))"

end
