(* ===== verification/BackupTheorems.thy ===== *)
theory BackupTheorems
  imports Backups
begin

text \<open>
  What the write channel and the backups do to the directory when no other program writes
  there, whichever of their accesses fail.
\<close>

section \<open>A quiet directory\<close>

text \<open>
  Nobody else changes the files, and an access never answers \<open>FileNotFoundError\<close> but for a file
  that is not there.
\<close>

definition quiet_dir :: "client_env \<Rightarrow> bool" where
  "quiet_dir env \<longleftrightarrow> (\<forall>n f. ce_others env n f = f) \<and> (\<forall>n e. ce_fault env n \<noteq> Some (e, ''FileNotFoundError''))"

definition faultless :: "client_env \<Rightarrow> bool" where
  "faultless env \<longleftrightarrow> (\<forall>n. ce_fault env n = None)"

lemma lookup_advance [simp]: "quiet_dir env \<Longrightarrow> lookup (advance_dir env d) = lookup d"
  by (simp add: fun_eq_iff lookup_def advance_dir_def quiet_dir_def)

lemma exists_advance [simp]: "cd_exists (advance_dir env d) = cd_exists d"
  by (simp add: advance_dir_def)

lemma lookup_store: "lookup (store_file n bs d) m = (if cd_exists d then if m = n then Some bs else lookup d m else None)"
  by (simp add: lookup_def store_file_def AList.update_conv)

lemma lookup_drop: "lookup (drop_file n d) m = (if m = n then None else lookup d m)"
  by (simp add: lookup_def drop_file_def AList.delete_conv)

lemma exists_files [simp]: "cd_exists (store_file n bs d) = cd_exists d" "cd_exists (drop_file n d) = cd_exists d"
  by (simp_all add: store_file_def drop_file_def)

lemma lookup_exists: "lookup d n = Some bs \<Longrightarrow> cd_exists d"
  by (simp add: lookup_def split: if_splits)

section \<open>Which files a call touches\<close>

definition touches :: "(utext \<Rightarrow> bool) \<Rightarrow> 'a dir_call \<Rightarrow> bool" where
  "touches P m \<longleftrightarrow> (\<forall>d r d'. m d = (r, d') \<longrightarrow>
     cd_exists d' = cd_exists d \<and> (\<forall>n. \<not> P n \<longrightarrow> lookup d' n = lookup d n))"

lemma touchesD:
  assumes "touches P m" "m d = (r, d')"
  shows "cd_exists d' = cd_exists d" "\<not> P n \<Longrightarrow> lookup d' n = lookup d n"
  using assms by (auto simp: touches_def)

lemma touches_mono: "touches P m \<Longrightarrow> (\<And>n. P n \<Longrightarrow> Q n) \<Longrightarrow> touches Q m"
  unfolding touches_def by blast

lemma touches_follow:
  assumes "touches P m" "\<And>x. touches P (f x)"
  shows "touches P (follow m f)"
  unfolding touches_def
proof (intro allI impI)
  fix d r d' assume run: "follow m f d = (r, d')"
  obtain r1 d1 where m: "m d = (r1, d1)" by fastforce
  show "cd_exists d' = cd_exists d \<and> (\<forall>n. \<not> P n \<longrightarrow> lookup d' n = lookup d n)"
  proof (cases r1)
    case (Inl e)
    then show ?thesis using run m touchesD [OF assms(1) m] by (simp add: follow_def)
  next
    case (Inr x)
    then have "f x d1 = (r, d')" using run m by (simp add: follow_def)
    then show ?thesis using touchesD [OF assms(1) m] touchesD [OF assms(2)] by metis
  qed
qed

lemma touches_pure [simp]: "touches P (raise e)" "touches P (yield x)" "touches P (\<lambda>d. (r, d))"
  by (simp_all add: touches_def raise_def yield_def)

lemma touches_access:
  assumes "quiet_dir env" "touches P f"
  shows "touches P (access env f)"
  unfolding touches_def
proof (intro allI impI)
  fix d r d' assume "access env f d = (r, d')"
  then show "cd_exists d' = cd_exists d \<and> (\<forall>n. \<not> P n \<longrightarrow> lookup d' n = lookup d n)"
    using touchesD [OF assms(2), of "advance_dir env d" r d'] assms(1)
    by (auto simp: access_def split: option.splits prod.splits)
qed

lemma touches_reads:
  assumes "quiet_dir env"
  shows "touches P (is_dir env)" "touches P (is_file env n)" "touches P (read_file_bytes env n)"
  unfolding is_dir_def is_file_def read_file_bytes_def
  by (rule touches_access [OF assms]; simp add: touches_def)+

lemma touches_unlink: "quiet_dir env \<Longrightarrow> P n \<Longrightarrow> touches P (unlink env n)"
  unfolding unlink_def
  by (rule touches_access) (auto simp: touches_def lookup_drop split: option.splits)

lemma touches_write_new:
  assumes "quiet_dir env" "P n"
  shows "touches P (write_new env n bs)"
  unfolding touches_def
proof (intro allI impI)
  fix d r d' assume "write_new env n bs d = (r, d')"
  with assms show "cd_exists d' = cd_exists d \<and> (\<forall>m. \<not> P m \<longrightarrow> lookup d' m = lookup d m)"
    by (auto simp: write_new_def Let_def lookup_store split: option.splits if_splits dest: lookup_exists)
      (auto simp: lookup_def)
qed

lemma touches_replace: "quiet_dir env \<Longrightarrow> P a \<Longrightarrow> P b \<Longrightarrow> touches P (replace env a b)"
  unfolding replace_def
  by (rule touches_access) (auto simp: touches_def lookup_store lookup_drop split: option.splits dest: lookup_exists)

lemma touches_suppress: "touches P m \<Longrightarrow> touches P (suppress_os_error m)"
  unfolding touches_def suppress_os_error_def by (auto split: prod.splits sum.splits exn.splits)

lemma touches_read_if_present: "quiet_dir env \<Longrightarrow> touches P (read_if_present env n)"
  using touches_reads(3) [of env P n]
  unfolding touches_def read_if_present_def by (auto split: prod.splits sum.splits if_splits)


lemma touches_case:
  assumes "touches P m" "\<And>e. touches P (h e)" "\<And>x. touches P (g x)"
  shows "touches P (\<lambda>d. case m d of (Inl e, d') \<Rightarrow> h e d' | (Inr x, d') \<Rightarrow> g x d')"
  unfolding touches_def
proof (intro allI impI)
  fix d r d' assume run: "(case m d of (Inl e, d') \<Rightarrow> h e d' | (Inr x, d') \<Rightarrow> g x d') = (r, d')"
  obtain r1 d1 where m: "m d = (r1, d1)" by fastforce
  show "cd_exists d' = cd_exists d \<and> (\<forall>n. \<not> P n \<longrightarrow> lookup d' n = lookup d n)"
  proof (cases r1)
    case (Inl e)
    then show ?thesis using run m touchesD [OF assms(1) m] touchesD [OF assms(2), of e d1 r d'] by simp
  next
    case (Inr x)
    then show ?thesis using run m touchesD [OF assms(1) m] touchesD [OF assms(3), of x d1 r d'] by simp
  qed
qed

lemma touches_if:
  "touches P f \<Longrightarrow> touches P g \<Longrightarrow> touches P (\<lambda>d. if c then f d else g d)"
  by (cases c) simp_all

lemma touches_here: "(\<And>d0. touches P (f d0)) \<Longrightarrow> touches P (\<lambda>d. f d d)"
  unfolding touches_def by blast

section \<open>Replacing a file\<close>

text \<open>What holds after a call: \<open>R\<close> of its result, \<open>E\<close> when it raises.\<close>

definition triple ::
  "(client_dir \<Rightarrow> bool) \<Rightarrow> 'a dir_call \<Rightarrow> ('a \<Rightarrow> client_dir \<Rightarrow> bool) \<Rightarrow> (client_dir \<Rightarrow> bool) \<Rightarrow> bool" where
  "triple Q m R E \<longleftrightarrow> (\<forall>d. Q d \<longrightarrow> (case m d of (Inl e, d') \<Rightarrow> E d' | (Inr x, d') \<Rightarrow> R x d'))"

lemma tripleD:
  assumes "triple Q m R E" "Q d"
  shows "m d = (Inr x, d') \<Longrightarrow> R x d'" "m d = (Inl e, d') \<Longrightarrow> E d'"
  using assms by (auto simp: triple_def split: prod.splits)

lemma triple_follow:
  assumes "triple Q m R1 E" "\<And>x. triple (R1 x) (f x) R E"
  shows "triple Q (follow m f) R E"
  unfolding triple_def
proof (intro allI impI)
  fix d assume "Q d"
  obtain r1 d1 where m: "m d = (r1, d1)" by fastforce
  show "case follow m f d of (Inl e, d') \<Rightarrow> E d' | (Inr x, d') \<Rightarrow> R x d'"
  proof (cases r1)
    case (Inl e)
    then show ?thesis using m tripleD(2) [OF assms(1) \<open>Q d\<close>] by (simp add: follow_def)
  next
    case (Inr x)
    then have "R1 x d1" using m tripleD(1) [OF assms(1) \<open>Q d\<close>] by simp
    with assms(2) [of x] show ?thesis using m Inr by (simp add: follow_def triple_def)
  qed
qed

lemma triple_case:
  assumes "triple Q m R1 E1" "\<And>e. triple E1 (h e) R E" "\<And>x. triple (R1 x) (g x) R E"
  shows "triple Q (\<lambda>d. case m d of (Inl e, d') \<Rightarrow> h e d' | (Inr x, d') \<Rightarrow> g x d') R E"
  unfolding triple_def
proof (intro allI impI)
  fix d assume "Q d"
  obtain r1 d1 where m: "m d = (r1, d1)" by fastforce
  show "case (case m d of (Inl e, d') \<Rightarrow> h e d' | (Inr x, d') \<Rightarrow> g x d') of (Inl e, d') \<Rightarrow> E d' | (Inr x, d') \<Rightarrow> R x d'"
  proof (cases r1)
    case (Inl e)
    then have "E1 d1" using m tripleD(2) [OF assms(1) \<open>Q d\<close>] by simp
    with assms(2) [of e] show ?thesis using m Inl by (simp add: triple_def)
  next
    case (Inr x)
    then have "R1 x d1" using m tripleD(1) [OF assms(1) \<open>Q d\<close>] by simp
    with assms(3) [of x] show ?thesis using m Inr by (simp add: triple_def)
  qed
qed

lemma triple_mono:
  "triple Q' m R' E' \<Longrightarrow> (\<And>d. Q d \<Longrightarrow> Q' d) \<Longrightarrow> (\<And>x d. R' x d \<Longrightarrow> R x d) \<Longrightarrow> (\<And>d. E' d \<Longrightarrow> E d) \<Longrightarrow>
   triple Q m R E"
  unfolding triple_def by (fastforce split: prod.splits sum.splits)

lemma triple_pure: "(\<And>d. Q d \<Longrightarrow> R x d) \<Longrightarrow> triple Q (yield x) R E" "(\<And>d. Q d \<Longrightarrow> E d) \<Longrightarrow> triple Q (raise e) R E"
  by (simp_all add: triple_def yield_def raise_def)

lemma triple_yield:
  assumes "triple Q m (\<lambda>_. R1) E" "\<And>d. R1 d \<Longrightarrow> R x d"
  shows "triple Q (follow m (\<lambda>_. yield x)) R E"
  by (rule triple_follow [OF assms(1)]) (simp add: triple_pure assms(2))

text \<open>A call that does not touch the target leaves any statement on it.\<close>

lemma triple_touches:
  assumes "touches P m" "\<not> P n"
  shows "triple (\<lambda>d. F (lookup d n)) m (\<lambda>_ d. F (lookup d n)) (\<lambda>d. F (lookup d n))"
  unfolding triple_def using touchesD(2) [OF assms(1) _ assms(2)]
  by (fastforce split: prod.splits sum.splits)

definition temporary_of :: "utext \<Rightarrow> utext \<Rightarrow> bool" where
  "temporary_of target n \<longleftrightarrow> begins (target @ codes ''.tmp-'') n"

lemma temporary_name: "temporary_of target (temporary_name env target d)"
  by (simp add: temporary_of_def begins_def temporary_name_def)

lemma begins_longer: "begins (t @ u) t \<Longrightarrow> u = []"
  unfolding begins_def by (metis append_take_drop_id append.assoc append_is_Nil_conv self_append_conv)

lemma target_not_temporary: "\<not> temporary_of target target"
  using begins_longer [of target "codes ''.tmp-''"] by (auto simp: temporary_of_def codes_def)

lemma touches_write_through:
  assumes "quiet_dir env" "P target" "P tmp"
  shows "touches P (write_through env target payload tmp)"
  unfolding write_through_def
  using assms
  by (intro touches_case touches_follow touches_write_new touches_replace touches_reads)
    (auto simp: discard_def intro!: touches_suppress touches_unlink touches_follow)

lemma touches_commit:
  assumes "quiet_dir env"
  shows "touches (\<lambda>n. n = target \<or> temporary_of target n) (commit_atomic env target payload)"
  unfolding commit_atomic_def
  by (intro touches_follow touches_reads touches_here [where f = "\<lambda>d0 d. if _ then raise _ d else write_through _ _ _ (temporary_name _ _ d0) d"]
      touches_if touches_pure touches_write_through)
    (simp_all add: assms temporary_name)

lemma triple_write_through:
  assumes "quiet_dir env" "tmp \<noteq> target"
  shows "triple (\<lambda>d. lookup d target = before) (write_through env target payload tmp)
    (\<lambda>_ d. lookup d target = Some payload) (\<lambda>d. lookup d target = before \<or> lookup d target = Some payload)"
  unfolding write_through_def
proof (rule triple_case)
  let ?E = "\<lambda>d. lookup d target = before \<or> lookup d target = Some payload"
  have "triple (\<lambda>d. lookup d target = before) (write_new env tmp payload)
      (\<lambda>_ d. lookup d target = before \<and> lookup d tmp = Some payload) (\<lambda>d. lookup d target = before)"
    using assms unfolding triple_def write_new_def
    by (auto simp: Let_def lookup_store split: option.splits) (auto simp: lookup_def split: if_splits)
  moreover have "triple (\<lambda>d. lookup d target = before \<and> lookup d tmp = Some payload) (replace env tmp target)
      (\<lambda>_ d. lookup d target = Some payload) (\<lambda>d. lookup d target = before)"
    using assms unfolding triple_def replace_def access_def
    by (auto simp: lookup_store lookup_drop split: option.splits dest: lookup_exists)
  ultimately show "triple (\<lambda>d. lookup d target = before) (follow (write_new env tmp payload) (\<lambda>_. replace env tmp target))
      (\<lambda>_ d. lookup d target = Some payload) (\<lambda>d. lookup d target = before)"
    by (rule triple_follow)
  show "triple (\<lambda>d. lookup d target = before) (follow (discard env tmp) (\<lambda>_. raise e))
      (\<lambda>_ d. lookup d target = Some payload) ?E" for e
  proof (rule triple_follow)
    have "touches (\<lambda>n. n = tmp) (discard env tmp)"
      by (simp add: discard_def touches_suppress touches_unlink assms(1))
    from triple_touches [OF this assms(2) [symmetric], of "\<lambda>c. c = before"]
    show "triple (\<lambda>d. lookup d target = before) (discard env tmp) (\<lambda>_ d. lookup d target = before) ?E"
      by (rule triple_mono) auto
  qed (rule triple_pure, simp)
  show "triple (\<lambda>d. lookup d target = Some payload)
      (follow (read_file_bytes env target) (\<lambda>written.
        if written \<noteq> payload
        then raise (ConfigWriteError ''post-write read-back mismatch; the write did not stick'')
        else yield \<lparr>wr_size_bytes = int (length written), wr_sha256 = ce_sha256 env written\<rparr>))
      (\<lambda>_ d. lookup d target = Some payload) ?E" for x :: unit
    using assms(1)
    by (auto simp: triple_def follow_def read_file_bytes_def access_def raise_def yield_def split: option.splits)
qed

lemma triple_commit:
  assumes "quiet_dir env"
  shows "triple (\<lambda>d. lookup d target = before) (commit_atomic env target payload)
    (\<lambda>_ d. lookup d target = Some payload) (\<lambda>d. lookup d target = before \<or> lookup d target = Some payload)"
  unfolding commit_atomic_def
proof (rule triple_follow)
  show "triple (\<lambda>d. lookup d target = before) (is_dir env) (\<lambda>_ d. lookup d target = before)
      (\<lambda>d. lookup d target = before \<or> lookup d target = Some payload)"
    by (rule triple_mono [OF triple_touches [where P = "\<lambda>_. False" and F = "\<lambda>c. c = before"]])
      (auto simp: touches_reads assms)
  fix present
  have "temporary_name env target d \<noteq> target" for d
    using temporary_name [of target env d] target_not_temporary by metis
  from triple_write_through [OF assms this]
  show "triple (\<lambda>d. lookup d target = before)
      (\<lambda>d. if \<not> present then raise (ConfigWriteError ''target directory does not exist; refusing to create it'') d
        else write_through env target payload (temporary_name env target d) d)
      (\<lambda>_ d. lookup d target = Some payload) (\<lambda>d. lookup d target = before \<or> lookup d target = Some payload)"
    by (auto simp: triple_def raise_def)
qed


section \<open>Backups\<close>

definition shelf_of :: "utext \<Rightarrow> utext \<Rightarrow> bool" where
  "shelf_of target n \<longleftrightarrow> begins (target @ BACKUP_SUFFIX) n"

lemma begins_append: "begins (a @ b) n \<Longrightarrow> begins a n"
  unfolding begins_def by (metis append_eq_conv_conj append_take_drop_id append.assoc)

lemma target_not_on_shelf [simp]: "\<not> shelf_of target target"
  using begins_longer [of target BACKUP_SUFFIX] by (auto simp: shelf_of_def BACKUP_SUFFIX_def codes_def)

lemma backup_name_on_shelf: "shelf_of target (backup_name env target d)"
  by (simp add: shelf_of_def begins_def backup_name_def)

lemma on_shelf_temporary: "shelf_of target name \<Longrightarrow> temporary_of name n \<Longrightarrow> shelf_of target n"
  unfolding shelf_of_def temporary_of_def begins_def
  by (metis append_eq_conv_conj append_take_drop_id append.assoc)

lemma begins_iff: "begins p n \<longleftrightarrow> (\<exists>v. n = p @ v)"
  unfolding begins_def by (metis append_eq_conv_conj append_take_drop_id)

lemma shelf_not_temporary: "shelf_of target n \<Longrightarrow> \<not> temporary_of target n"
  by (auto simp: shelf_of_def temporary_of_def begins_iff BACKUP_SUFFIX_def codes_def)

lemma touches_remove_files: "quiet_dir env \<Longrightarrow> (\<And>n. n \<in> set ps \<Longrightarrow> P n) \<Longrightarrow> touches P (remove_files env ps)"
  by (induction ps) (auto simp: remove_file_def intro!: touches_follow touches_suppress touches_unlink)

lemma backup_pathsD:
  "backup_paths env target d = (r, d') \<Longrightarrow> d' = advance_dir env d"
  "backup_paths env target d = (Inr ps, d') \<Longrightarrow> p \<in> set ps \<Longrightarrow> is_backup env target p"
  by (auto simp: backup_paths_def Let_def split: if_splits)

lemma touches_prune:
  assumes "quiet_dir env"
  shows "touches (shelf_of target) (prune_backups env target)"
  unfolding touches_def
proof (intro allI impI)
  fix d r d' assume run: "prune_backups env target d = (r, d')"
  obtain ps where ps: "backup_paths env target d = (Inr ps, advance_dir env d)"
    by (simp add: backup_paths_def Let_def)
  have "touches (shelf_of target) (remove_files env (drop BACKUP_RETENTION ps))"
    by (rule touches_remove_files [OF assms])
      (use backup_pathsD(2) [OF ps] in \<open>auto simp: is_backup_def shelf_of_def dest: in_set_dropD\<close>)
  moreover have "remove_files env (drop BACKUP_RETENTION ps) (advance_dir env d) = (r, d')"
    using run ps by (simp add: prune_backups_def follow_def)
  ultimately show "cd_exists d' = cd_exists d \<and> (\<forall>n. \<not> shelf_of target n \<longrightarrow> lookup d' n = lookup d n)"
    using assms by (auto dest: touchesD)
qed

lemma touches_store_backup:
  assumes "quiet_dir env" "shelf_of target name"
  shows "touches (shelf_of target) (store_backup env target found name moment)"
proof -
  have "touches (shelf_of target) (commit_atomic env name bs)" for bs
    by (rule touches_mono [OF touches_commit [OF assms(1)]]) (use assms(2) on_shelf_temporary in blast)
  then show ?thesis
    unfolding store_backup_def Let_def by (intro touches_follow touches_prune touches_pure assms(1))
qed

lemma touches_create_backup:
  assumes "quiet_dir env"
  shows "touches (shelf_of target) (create_backup env target)"
  unfolding create_backup_def
  by (rule touches_follow [OF touches_read_if_present [OF assms]],
      rule touches_here [where f = "\<lambda>d0 d. store_backup env target _ (backup_name env target d0) (ce_now env (cd_step d0)) d"])
    (simp add: touches_store_backup [OF assms] backup_name_on_shelf)

text \<open>Pruning removes files, it does not change them.\<close>

definition at_most :: "nat list \<Rightarrow> utext \<Rightarrow> client_dir \<Rightarrow> bool" where
  "at_most bs n d \<longleftrightarrow> lookup d n = None \<or> lookup d n = Some bs"

lemma triple_remove_files:
  assumes "quiet_dir env"
  shows "triple (at_most bs n) (remove_files env ps) (\<lambda>_. at_most bs n) E"
proof (induction ps)
  case Nil
  then show ?case by (simp add: triple_pure)
next
  case (Cons p ps)
  have "triple (at_most bs n) (remove_file env p) (\<lambda>_. at_most bs n) E"
    using assms
    by (auto simp: triple_def remove_file_def suppress_os_error_def unlink_def access_def at_most_def lookup_drop
        missing_def split: option.splits)
  then show ?case unfolding remove_files.simps by (rule triple_follow) (rule Cons.IH)
qed

lemma triple_prune:
  assumes "quiet_dir env"
  shows "triple (at_most bs n) (prune_backups env target) (\<lambda>_. at_most bs n) E"
  unfolding prune_backups_def
proof (rule triple_follow)
  show "triple (at_most bs n) (backup_paths env target) (\<lambda>_. at_most bs n) E"
    using assms by (auto simp: triple_def backup_paths_def Let_def at_most_def)
qed (rule triple_remove_files [OF assms])

lemma read_if_presentD:
  assumes "quiet_dir env" "read_if_present env n d = (Inr found, d')"
  shows "found = lookup d n" "lookup d' = lookup d" "cd_exists d' = cd_exists d"
  using assms
  by (auto simp: read_if_present_def read_file_bytes_def access_def not_found_def quiet_dir_def missing_def fun_eq_iff
      lookup_def advance_dir_def split: option.splits if_splits prod.splits)

lemma triple_store_backup:
  assumes "quiet_dir env"
  shows "triple Q (store_backup env target found name moment)
    (\<lambda>info d. at_most (saved_bytes found) name d \<and> bi_name info = name) (\<lambda>_. True)"
  unfolding store_backup_def Let_def
proof (rule triple_follow)
  show "triple Q (commit_atomic env name (saved_bytes found)) (\<lambda>_. at_most (saved_bytes found) name) (\<lambda>_. True)"
    using triple_commit [OF assms] by (fastforce simp: triple_def at_most_def split: prod.splits sum.splits)
  show "triple (at_most (saved_bytes found) name)
      (follow (prune_backups env target) (\<lambda>_. yield \<lparr>bi_name = name, bi_created_at = moment,
        bi_size_bytes = int (length (saved_bytes found)), bi_sha256 = ce_sha256 env (saved_bytes found),
        bi_was_absent = (found = None), bi_matches_current = None\<rparr>))
      (\<lambda>info d. at_most (saved_bytes found) name d \<and> bi_name info = name) (\<lambda>_. True)" for x :: write_result
    by (rule triple_follow [OF triple_prune [OF assms]]) (simp add: triple_pure)
qed

lemma create_backup_saves:
  assumes "quiet_dir env" "create_backup env target d = (Inr info, d')"
  shows "at_most (saved_bytes (lookup d target)) (bi_name info) d'" "shelf_of target (bi_name info)"
proof -
  obtain found d1 where r: "read_if_present env target d = (Inr found, d1)"
    and s: "store_backup env target found (backup_name env target d1) (ce_now env (cd_step d1)) d1 = (Inr info, d')"
    using assms(2) by (auto simp: create_backup_def follow_def split: prod.splits sum.splits)
  from tripleD(1) [OF triple_store_backup [OF assms(1)] _ s, of "\<lambda>_. True"]
  show "at_most (saved_bytes (lookup d target)) (bi_name info) d'" "shelf_of target (bi_name info)"
    using read_if_presentD(1) [OF assms(1) r] backup_name_on_shelf by auto
qed


section \<open>Restoring\<close>

lemma triple_resolve:
  assumes "quiet_dir env" "\<And>d d'. lookup d' = lookup d \<Longrightarrow> Q d \<Longrightarrow> Q d'"
  shows "triple Q (resolve_backup env target name) (\<lambda>path d. Q d \<and> path = name) Q"
proof -
  have "triple Q (is_file env name) (\<lambda>_. Q) Q"
    using assms(2) [OF lookup_advance [OF assms(1)]]
    by (auto simp: triple_def is_file_def access_def split: option.splits)
  then show ?thesis
    unfolding resolve_backup_def by (auto intro!: triple_pure triple_follow [where ?R1.0 = "\<lambda>_. Q"])
qed

lemma triple_remove_atomic:
  assumes "quiet_dir env"
  shows "triple (\<lambda>d. lookup d target = w) (remove_atomic env target) (\<lambda>_ d. lookup d target = None)
    (\<lambda>d. lookup d target = w \<or> lookup d target = None)"
proof -
  have "ce_fault env n \<noteq> Some (e, ''FileNotFoundError'')" for n e
    using assms by (simp add: quiet_dir_def)
  with assms show ?thesis
    by (auto simp: triple_def remove_atomic_def unlink_def is_file_def access_def not_found_def missing_def follow_def
        raise_def yield_def lookup_drop split: option.splits)
qed

lemma triple_restore:
  assumes "quiet_dir env" "v \<noteq> Some sentinel_payload"
  shows "triple (\<lambda>d. at_most (saved_bytes v) name d \<and> lookup d target = w) (restore env target name)
    (\<lambda>_ d. lookup d target = v) (\<lambda>d. lookup d target = w \<or> lookup d target = v)"
  unfolding restore_def Let_def
proof (rule triple_follow)
  let ?E = "\<lambda>d. lookup d target = w \<or> lookup d target = v"
  let ?Q = "\<lambda>d. at_most (saved_bytes v) name d \<and> lookup d target = w"
  show "triple ?Q (resolve_backup env target name) (\<lambda>path d. ?Q d \<and> path = name) ?E"
    by (rule triple_mono [OF triple_resolve [OF assms(1), of ?Q]]) (auto simp: at_most_def)
  fix path
  show "triple (\<lambda>d. ?Q d \<and> path = name) (follow (read_file_bytes env path) (\<lambda>bs.
      follow (create_backup env target) (\<lambda>safety.
        if is_sentinel bs then follow (remove_atomic env target) (\<lambda>_. yield
          \<lparr>rr_restored_from = path, rr_safety_backup = bi_name safety, rr_removed_target = is_sentinel bs\<rparr>)
        else follow (commit_atomic env target bs) (\<lambda>_. yield
          \<lparr>rr_restored_from = path, rr_safety_backup = bi_name safety, rr_removed_target = is_sentinel bs\<rparr>))))
      (\<lambda>_ d. lookup d target = v) ?E"
  proof (rule triple_follow)
    show "triple (\<lambda>d. ?Q d \<and> path = name) (read_file_bytes env path)
        (\<lambda>bs d. lookup d target = w \<and> bs = saved_bytes v) ?E"
      using assms(1) by (auto simp: triple_def read_file_bytes_def access_def at_most_def split: option.splits)
    fix bs
    have keep: "triple (\<lambda>d. lookup d target = w \<and> bs = saved_bytes v) (create_backup env target)
        (\<lambda>_ d. lookup d target = w \<and> bs = saved_bytes v) ?E"
      using triple_touches [OF touches_create_backup [OF assms(1)] target_not_on_shelf [of target], of "\<lambda>c. c = w"]
      by (auto simp: triple_def split: prod.splits sum.splits)
    have remove: "triple (\<lambda>d. lookup d target = w \<and> bs = saved_bytes v)
        (follow (remove_atomic env target) (\<lambda>_. yield x)) (\<lambda>_ d. lookup d target = v) ?E"
      if "is_sentinel bs" for x :: restore_result
    proof (cases "bs = saved_bytes v")
      case True
      with that assms(2) have "v = None" by (auto simp: is_sentinel_def saved_bytes_def split: option.splits)
      then have "triple (\<lambda>d. lookup d target = w \<and> bs = saved_bytes v) (remove_atomic env target) (\<lambda>_ d. lookup d target = v) ?E"
        by (intro triple_mono [OF triple_remove_atomic [OF assms(1), where w = w]]) auto
      then show ?thesis by (rule triple_follow) (simp add: triple_pure)
    qed (simp add: triple_def)
    have commit: "triple (\<lambda>d. lookup d target = w \<and> bs = saved_bytes v)
        (follow (commit_atomic env target bs) (\<lambda>_. yield x)) (\<lambda>_ d. lookup d target = v) ?E"
      if "\<not> is_sentinel bs" for x :: restore_result
    proof (cases "bs = saved_bytes v")
      case True
      with that have "v = Some bs" by (auto simp: is_sentinel_def saved_bytes_def split: option.splits)
      then have "triple (\<lambda>d. lookup d target = w \<and> bs = saved_bytes v) (commit_atomic env target bs) (\<lambda>_ d. lookup d target = v) ?E"
        by (intro triple_mono [OF triple_commit [OF assms(1), where before = w]]) auto
      then show ?thesis by (rule triple_follow) (simp add: triple_pure)
    qed (simp add: triple_def)
    show "triple (\<lambda>d. lookup d target = w \<and> bs = saved_bytes v) (follow (create_backup env target) (\<lambda>safety.
        if is_sentinel bs then follow (remove_atomic env target) (\<lambda>_. yield
          \<lparr>rr_restored_from = path, rr_safety_backup = bi_name safety, rr_removed_target = is_sentinel bs\<rparr>)
        else follow (commit_atomic env target bs) (\<lambda>_. yield
          \<lparr>rr_restored_from = path, rr_safety_backup = bi_name safety, rr_removed_target = is_sentinel bs\<rparr>)))
        (\<lambda>_ d. lookup d target = v) ?E"
      by (rule triple_follow [OF keep]) (simp add: remove commit)
  qed
qed

section \<open>The contract of the shelf\<close>

text \<open>
  What the adapters rely on: taking a backup leaves the value alone and holds it, and a restore
  that returns brings the held value back. \<open>good\<close> is the condition the laws hold under, \<open>sound\<close>
  the values that can be told from the mark of an absent file.
\<close>

locale restorable =
  fixes good :: bool
    and val :: "'d \<Rightarrow> 'v"
    and sound :: "'v \<Rightarrow> bool"
    and holds :: "'b \<Rightarrow> 'v \<Rightarrow> 'd \<Rightarrow> bool"
    and create :: "'d \<Rightarrow> ('e + 'b) \<times> 'd"
    and recover :: "'b \<Rightarrow> 'd \<Rightarrow> ('e + 'c) \<times> 'd"
  assumes create_val: "good \<Longrightarrow> create d = (r, d') \<Longrightarrow> val d' = val d"
    and create_holds: "good \<Longrightarrow> create d = (Inr b, d') \<Longrightarrow> holds b (val d) d'"
    and recover_val: "good \<Longrightarrow> sound v \<Longrightarrow> holds b v d \<Longrightarrow> recover b d = (Inr x, d') \<Longrightarrow> val d' = v"
    and recover_fails: "good \<Longrightarrow> sound v \<Longrightarrow> holds b v d \<Longrightarrow> recover b d = (Inl e, d') \<Longrightarrow> val d' = val d \<or> val d' = v"
begin

text \<open>A write between the backup and the restore, of whatever value, is undone.\<close>

lemma undone:
  assumes "good" "sound (val d)" "create d = (Inr b, d1)"
    and "\<And>v. holds b v d1 \<Longrightarrow> holds b v d2" "recover b d2 = (r, d3)"
  shows "case r of Inr _ \<Rightarrow> val d3 = val d | Inl _ \<Rightarrow> val d3 = val d2 \<or> val d3 = val d"
proof -
  have "holds b (val d) d2" using assms(4) create_holds [OF assms(1,3)] by blast
  then show ?thesis
    using recover_val [OF assms(1,2)] recover_fails [OF assms(1,2)] assms(5) by (cases r) auto
qed

end

interpretation shelf: restorable "quiet_dir env" "\<lambda>d. lookup d target" "\<lambda>v. v \<noteq> Some sentinel_payload"
    "\<lambda>info v d. at_most (saved_bytes v) (bi_name info) d \<and> shelf_of target (bi_name info)"
    "create_backup env target" "\<lambda>info. restore env target (bi_name info)" for env target
proof
  show "lookup d' target = lookup d target" if "quiet_dir env" "create_backup env target d = (r, d')" for d r d'
    using touchesD(2) [OF touches_create_backup [OF that(1)] that(2)] by simp
  show "at_most (saved_bytes (lookup d target)) (bi_name b) d' \<and> shelf_of target (bi_name b)"
    if "quiet_dir env" "create_backup env target d = (Inr b, d')" for d b d'
    using create_backup_saves [OF that] by simp
  show "lookup d' target = v"
    if "quiet_dir env" "v \<noteq> Some sentinel_payload" "at_most (saved_bytes v) (bi_name b) d \<and> shelf_of target (bi_name b)"
      "restore env target (bi_name b) d = (Inr x, d')" for v b d x d'
    using tripleD(1) [OF triple_restore [OF that(1,2), where w = "lookup d target"]] that(3,4) by blast
  show "lookup d' target = lookup d target \<or> lookup d' target = v"
    if "quiet_dir env" "v \<noteq> Some sentinel_payload" "at_most (saved_bytes v) (bi_name b) d \<and> shelf_of target (bi_name b)"
      "restore env target (bi_name b) d = (Inl e, d')" for v b d e d'
    using tripleD(2) [OF triple_restore [OF that(1,2), where w = "lookup d target"]] that(3,4) by blast
qed


section \<open>Restoring is reversible\<close>

lemma keeps_at_most:
  assumes "touches P m" "\<not> P n"
  shows "triple (at_most bs n) m (\<lambda>_. at_most bs n) (\<lambda>_. True)"
  unfolding at_most_def
  by (rule triple_mono [OF triple_touches [OF assms, where F = "\<lambda>c. c = None \<or> c = Some bs"]]) simp_all

lemma touches_remove_atomic: "quiet_dir env \<Longrightarrow> touches (\<lambda>n. n = target) (remove_atomic env target)"
  unfolding remove_atomic_def
  by (intro touches_case touches_unlink touches_follow touches_reads) auto

lemma restore_saves:
  assumes "quiet_dir env"
  shows "triple (\<lambda>d. lookup d target = w) (restore env target name)
    (\<lambda>res d. at_most (saved_bytes w) (rr_safety_backup res) d) (\<lambda>_. True)"
  unfolding restore_def Let_def
proof (rule triple_follow)
  show "triple (\<lambda>d. lookup d target = w) (resolve_backup env target name) (\<lambda>_ d. lookup d target = w) (\<lambda>_. True)"
    by (rule triple_mono [OF triple_resolve [OF assms, of "\<lambda>d. lookup d target = w"]]) simp_all
  fix path
  show "triple (\<lambda>d. lookup d target = w) (follow (read_file_bytes env path) (\<lambda>bs.
      follow (create_backup env target) (\<lambda>safety.
        if is_sentinel bs then follow (remove_atomic env target) (\<lambda>_. yield
          \<lparr>rr_restored_from = path, rr_safety_backup = bi_name safety, rr_removed_target = is_sentinel bs\<rparr>)
        else follow (commit_atomic env target bs) (\<lambda>_. yield
          \<lparr>rr_restored_from = path, rr_safety_backup = bi_name safety, rr_removed_target = is_sentinel bs\<rparr>))))
      (\<lambda>res d. at_most (saved_bytes w) (rr_safety_backup res) d) (\<lambda>_. True)"
  proof (intro triple_follow)
    show "triple (\<lambda>d. lookup d target = w) (read_file_bytes env path) (\<lambda>_ d. lookup d target = w) (\<lambda>_. True)"
      by (rule triple_mono [OF triple_touches [OF touches_reads(3) [OF assms, of "\<lambda>_. False"], where F = "\<lambda>c. c = w"]]) simp_all
    show "triple (\<lambda>d. lookup d target = w) (create_backup env target)
        (\<lambda>info d. at_most (saved_bytes w) (bi_name info) d \<and> shelf_of target (bi_name info)) (\<lambda>_. True)"
      using create_backup_saves [OF assms] by (fastforce simp: triple_def split: prod.splits sum.splits)
    fix bs safety
    show "triple (\<lambda>d. at_most (saved_bytes w) (bi_name safety) d \<and> shelf_of target (bi_name safety))
        (if is_sentinel bs then follow (remove_atomic env target) (\<lambda>_. yield
          \<lparr>rr_restored_from = path, rr_safety_backup = bi_name safety, rr_removed_target = is_sentinel bs\<rparr>)
        else follow (commit_atomic env target bs) (\<lambda>_. yield
          \<lparr>rr_restored_from = path, rr_safety_backup = bi_name safety, rr_removed_target = is_sentinel bs\<rparr>))
        (\<lambda>res d. at_most (saved_bytes w) (rr_safety_backup res) d) (\<lambda>_. True)"
    proof (cases "shelf_of target (bi_name safety)")
      case True
      then have other: "\<not> bi_name safety = target" "\<not> (bi_name safety = target \<or> temporary_of target (bi_name safety))"
        using target_not_on_shelf shelf_not_temporary by metis+
      have "triple (\<lambda>d. at_most (saved_bytes w) (bi_name safety) d \<and> shelf_of target (bi_name safety))
            (remove_atomic env target) (\<lambda>_. at_most (saved_bytes w) (bi_name safety)) (\<lambda>_. True)"
          "triple (\<lambda>d. at_most (saved_bytes w) (bi_name safety) d \<and> shelf_of target (bi_name safety))
            (commit_atomic env target bs) (\<lambda>_. at_most (saved_bytes w) (bi_name safety)) (\<lambda>_. True)"
        by (rule triple_mono [OF keeps_at_most [OF touches_remove_atomic [OF assms] other(1)]]; simp)
          (rule triple_mono [OF keeps_at_most [OF touches_commit [OF assms] other(2)]]; simp)
      then show ?thesis
        by (cases "is_sentinel bs") (auto intro!: triple_yield)
    qed (simp add: triple_def)
  qed
qed



section \<open>Without faults\<close>

lemma access_ok: "faultless env \<Longrightarrow> access env f d = f (advance_dir env d)"
  by (simp add: access_def faultless_def)

lemma write_new_ok:
  "faultless env \<Longrightarrow> cd_exists d \<Longrightarrow> write_new env n bs d = (Inr (), store_file n bs (advance_dir env d))"
  by (simp add: write_new_def faultless_def)

lemma commit_returns:
  assumes "quiet_dir env" "faultless env" "cd_exists d"
  obtains x d' where "commit_atomic env target payload d = (Inr x, d')" "cd_exists d'"
proof -
  obtain r d' where run: "commit_atomic env target payload d = (r, d')" by fastforce
  have "\<exists>x. r = Inr x"
    using run assms temporary_name [of target env] target_not_temporary [of target]
    by (auto simp: commit_atomic_def write_through_def follow_def is_dir_def replace_def read_file_bytes_def access_ok
        write_new_ok lookup_store lookup_drop raise_def yield_def)
  with that run touchesD(1) [OF touches_commit [OF assms(1)] run] assms(3) show thesis by auto
qed

lemma remove_files_effect:
  assumes "quiet_dir env" "faultless env"
  shows "fst (remove_files env ps d) = Inr () \<and>
    (\<forall>n. lookup (snd (remove_files env ps d)) n = (if n \<in> set ps then None else lookup d n))"
proof (induction ps arbitrary: d)
  case (Cons p ps)
  have "\<exists>d'. remove_file env p d = (Inr (), d') \<and> (\<forall>n. lookup d' n = (if n = p then None else lookup d n))"
    using assms
    by (auto simp: remove_file_def suppress_os_error_def unlink_def access_ok missing_def lookup_drop split: option.split)
  then obtain d' where d': "remove_file env p d = (Inr (), d')" "\<And>n. lookup d' n = (if n = p then None else lookup d n)"
    by blast
  then show ?case using Cons.IH [of d'] by (auto simp: follow_def)
qed (simp add: yield_def)

text \<open>The shelf, newest first.\<close>

definition shelf_list :: "client_env \<Rightarrow> utext \<Rightarrow> client_dir \<Rightarrow> utext list" where
  "shelf_list env target d =
     (if cd_exists d then rev (sort (filter (is_backup env target) (remdups (map fst (cd_files d))))) else [])"

lemma lookup_known: "lookup d n \<noteq> None \<longleftrightarrow> cd_exists d \<and> n \<in> set (map fst (cd_files d))"
  unfolding lookup_def by (simp add: map_of_eq_None_iff del: not_None_eq)

lemma descending_distinct: "sorted_wrt (>) xs \<Longrightarrow> distinct (xs :: 'a::linorder list)"
  by (induction xs) auto

lemma shelf_list:
  "set (shelf_list env target d) = {n. is_backup env target n \<and> lookup d n \<noteq> None}"
  "distinct (shelf_list env target d)" "sorted_wrt (>) (shelf_list env target d)"
proof -
  show "set (shelf_list env target d) = {n. is_backup env target n \<and> lookup d n \<noteq> None}"
    unfolding lookup_known by (auto simp: shelf_list_def)
  show distinct: "distinct (shelf_list env target d)" by (simp add: shelf_list_def)
  have "sorted_wrt (<) (rev (shelf_list env target d))"
    using distinct by (simp add: shelf_list_def strict_sorted_iff)
  then show "sorted_wrt (>) (shelf_list env target d)" by (simp add: sorted_wrt_rev)
qed

lemma prune_effect:
  assumes "quiet_dir env" "faultless env"
  shows "fst (prune_backups env target d) = Inr () \<and>
    (\<forall>n. lookup (snd (prune_backups env target d)) n = (if n \<in> set (drop 5 (shelf_list env target d)) then None else lookup d n))"
proof -
  have "backup_paths env target d = (Inr (shelf_list env target d), advance_dir env d)"
    using assms by (simp add: backup_paths_def shelf_list_def faultless_def Let_def advance_dir_def quiet_dir_def)
  then have "prune_backups env target d = remove_files env (drop 5 (shelf_list env target d)) (advance_dir env d)"
    by (simp add: prune_backups_def follow_def BACKUP_RETENTION_def)
  then show ?thesis
    using remove_files_effect [OF assms, of "drop 5 (shelf_list env target d)" "advance_dir env d"] assms(1) by simp
qed

text \<open>The five greatest of a descending list.\<close>

lemma take_greatest:
  fixes xs :: "'a::linorder list"
  assumes "sorted_wrt (>) xs" "x \<in> set xs"
  shows "x \<in> set (take k xs) \<longleftrightarrow> card {y \<in> set (take k xs). x < y} < k"
proof
  assume x: "x \<in> set (take k xs)"
  have "{y \<in> set (take k xs). x < y} \<subset> set (take k xs)" using x by auto
  then have "card {y \<in> set (take k xs). x < y} < card (set (take k xs))" by (simp add: psubset_card_mono)
  also have "\<dots> \<le> k" using card_length [of "take k xs"] by simp
  finally show "card {y \<in> set (take k xs). x < y} < k" .
next
  assume less: "card {y \<in> set (take k xs). x < y} < k"
  show "x \<in> set (take k xs)"
  proof (rule ccontr)
    assume "x \<notin> set (take k xs)"
    with assms(2) have x: "x \<in> set (drop k xs)"
      by (metis Un_iff append_take_drop_id set_append)
    have "\<forall>y\<in>set (take k xs). \<forall>z\<in>set (drop k xs). z < y"
      using assms(1) sorted_wrt_append [of "(>)" "take k xs" "drop k xs"] by simp
    then have "\<forall>y\<in>set (take k xs). x < y" "distinct (take k xs)"
      using x descending_distinct [OF assms(1)] by simp_all
    moreover have "length (take k xs) = k" using x by (cases "k \<le> length xs") auto
    ultimately have "card {y \<in> set (take k xs). x < y} = k"
      by (metis (no_types, lifting) Collect_cong Collect_mem_eq distinct_card)
    with less show False by simp
  qed
qed


lemma create_returns:
  assumes "quiet_dir env" "faultless env" "cd_exists d"
  obtains info d' d2 where "create_backup env target d = (Inr info, d')"
    "lookup d2 (bi_name info) = Some (saved_bytes (lookup d target))" "shelf_of target (bi_name info)"
    "\<And>n. lookup d' n = (if n \<in> set (drop 5 (shelf_list env target d2)) then None else lookup d2 n)"
proof -
  obtain d1 where r: "read_if_present env target d = (Inr (lookup d target), d1)" "cd_exists d1"
  proof
    show "read_if_present env target d = (Inr (lookup d target), advance_dir env d)"
      using assms by (cases "lookup d target")
        (simp_all add: read_if_present_def read_file_bytes_def access_ok not_found_def missing_def)
  qed (simp add: assms(3))
  let ?n = "backup_name env target d1" and ?b = "saved_bytes (lookup d target)"
  obtain x d2 where c: "commit_atomic env ?n ?b d1 = (Inr x, d2)"
    using commit_returns [OF assms(1,2) r(2)] by metis
  have "lookup d2 ?n = Some ?b"
    using tripleD(1) [OF triple_commit [OF assms(1), where before = "lookup d1 ?n"] _ c] by simp
  moreover obtain d' where "prune_backups env target d2 = (Inr (), d')"
      "\<And>n. lookup d' n = (if n \<in> set (drop 5 (shelf_list env target d2)) then None else lookup d2 n)"
    using prune_effect [OF assms(1,2), of target d2] by (metis prod.collapse)
  ultimately show thesis
    using that [of "\<lparr>bi_name = ?n, bi_created_at = ce_now env (cd_step d1), bi_size_bytes = int (length ?b),
        bi_sha256 = ce_sha256 env ?b, bi_was_absent = (lookup d target = None), bi_matches_current = None\<rparr>" d' d2]
      r c backup_name_on_shelf by (simp add: create_backup_def store_backup_def follow_def yield_def Let_def)
qed

text \<open>
  C37. The shelf holds at most five backups, and a new backup is kept exactly when fewer than
  five of them have a greater name. Without faults and with no other program at work, creating
  a backup returns; afterwards the shelf has five backups at the most, and the new one, with
  the bytes of the target or the mark of its absence, is among them unless five others are
  greater. Names sort by their time stamp, so a clock that was set back, or five backups within
  one second, can make the backup disappear in the call that creates it.
\<close>
theorem shelf_is_bounded:
  assumes "quiet_dir env" "faultless env" "cd_exists d"
  shows "\<exists>info d'. create_backup env target d = (Inr info, d') \<and>
    (let shelf = {n. is_backup env target n \<and> lookup d' n \<noteq> None}
     in finite shelf \<and> card shelf \<le> 5 \<and>
        (is_backup env target (bi_name info) \<longrightarrow>
           lookup d' (bi_name info) =
             (if card {n \<in> shelf. bi_name info < n} < 5 then Some (saved_bytes (lookup d target)) else None)))"
proof -
  obtain info d' d2 where run: "create_backup env target d = (Inr info, d')"
    and new: "lookup d2 (bi_name info) = Some (saved_bytes (lookup d target))"
    and kept: "\<And>n. lookup d' n = (if n \<in> set (drop 5 (shelf_list env target d2)) then None else lookup d2 n)"
    using create_returns [OF assms, of target] by metis
  let ?L = "shelf_list env target d2" and ?shelf = "{n. is_backup env target n \<and> lookup d' n \<noteq> None}"
  have split: "set ?L = set (take 5 ?L) \<union> set (drop 5 ?L)" "set (take 5 ?L) \<inter> set (drop 5 ?L) = {}"
    using shelf_list(2) [of env target d2] set_append [of "take 5 ?L" "drop 5 ?L"]
      distinct_append [of "take 5 ?L" "drop 5 ?L"] by simp_all
  have shelf: "?shelf = set (take 5 ?L)"
    using shelf_list(1) [of env target d2] split by (auto simp: kept)
  have "card ?shelf \<le> 5" unfolding shelf using card_length [of "take 5 ?L"] by simp
  moreover have "lookup d' (bi_name info) =
      (if card {n \<in> ?shelf. bi_name info < n} < 5 then Some (saved_bytes (lookup d target)) else None)"
    if "is_backup env target (bi_name info)"
  proof -
    have "bi_name info \<in> set ?L" using that new by (simp add: shelf_list(1))
    from take_greatest [OF shelf_list(3) this, of 5] show ?thesis
      unfolding shelf using split \<open>bi_name info \<in> set ?L\<close> new by (auto simp: kept)
  qed
  moreover have "finite ?shelf" unfolding shelf by simp
  ultimately show ?thesis using run unfolding Let_def by blast
qed


section \<open>A shelf\<close>

definition sample_client_env :: "utext \<Rightarrow> client_env" where
  "sample_client_env stamp =
     \<lparr>ce_others = (\<lambda>_ f. f), ce_fault = (\<lambda>_. None), ce_written = (\<lambda>_. None), ce_now = of_nat,
      ce_hex = (\<lambda>_. codes ''00ff''), ce_unique = (\<lambda>_. codes ''7''), ce_sha256 = (\<lambda>_. []),
      ce_strftime = (\<lambda>_. stamp), ce_strptime = (\<lambda>_. Some 0), ce_decimal = is_digit\<rparr>"

definition stamped :: "string \<Rightarrow> utext" where
  "stamped s = codes ''t'' @ BACKUP_SUFFIX @ codes s"

definition sample_client_dir :: "files \<Rightarrow> client_dir" where
  "sample_client_dir fs = \<lparr>cd_exists = True, cd_files = fs, cd_step = 0\<rparr>"

lemma sample_quiet: "quiet_dir (sample_client_env stamp)" "faultless (sample_client_env stamp)"
  by (simp_all add: quiet_dir_def faultless_def sample_client_env_def)

definition one_backup :: client_dir where
  "one_backup = sample_client_dir [(codes ''t'', [1]), (stamped ''20260101T000000Z-0001'', [2])]"

lemma sample_restores:
  "case restore (sample_client_env (codes ''20260102T000000Z'')) (codes ''t'') (stamped ''20260101T000000Z-0001'') one_backup of
     (Inl _, _) \<Rightarrow> False
   | (Inr res, d1) \<Rightarrow>
       is_ok (fst (restore (sample_client_env (codes ''20260102T000000Z'')) (codes ''t'') (rr_safety_backup res) d1))"
  by code_simp


text \<open>Five backups with later stamps, and a clock that was set back.\<close>

definition full_shelf :: client_dir where
  "full_shelf = sample_client_dir ((codes ''t'', [1]) #
     map (\<lambda>n. (stamped n, [2])) [''20260101T000000Z-0001'', ''20260101T000000Z-0002'', ''20260101T000000Z-0003'',
       ''20260101T000000Z-0004'', ''20260101T000000Z-0005''])"

lemma backup_pruned_at_birth:
  "case create_backup (sample_client_env (codes ''20251231T000000Z'')) (codes ''t'') full_shelf of
     (Inl _, _) \<Rightarrow> False
   | (Inr info, d) \<Rightarrow> bi_name info = stamped ''20251231T000000Z-00ff'' \<and> lookup d (bi_name info) = None"
  by code_simp

theorem shelf_is_bounded_witness:
  "\<exists>info d'. create_backup (sample_client_env (codes ''20251231T000000Z'')) (codes ''t'') full_shelf = (Inr info, d') \<and>
    card {n. is_backup (sample_client_env (codes ''20251231T000000Z'')) (codes ''t'') n \<and> lookup d' n \<noteq> None} \<le> 5"
proof -
  have "cd_exists full_shelf" by (simp add: full_shelf_def sample_client_dir_def)
  from shelf_is_bounded [OF sample_quiet this, of "codes ''20251231T000000Z''" "codes ''t''"]
  show ?thesis unfolding Let_def by blast
qed

end
