(* ===== verification/TomlMerge.thy ===== *)
theory TomlMerge
  imports ClientConfig
begin

text \<open>
  The merge of our entry into a TOML configuration, \<open>application/client_config/merge_toml.py\<close>,
  and the rendering of the entry (\<open>render.py\<close>). \<open>tomllib.loads\<close> is the argument \<open>rd\<close>, which
  gives no document for a text it rejects, and \<open>str.isalnum\<close> the argument \<open>an\<close>. The merge
  edits text: a scanner finds the lines of our table, everything else is left as it is.
\<close>

section \<open>Parsed documents\<close>

text \<open>
  A date or a time is a value that equals itself only; \<open>TMoment\<close> carries the class of the
  values that are equal to it.
\<close>

datatype toml =
    TBool bool
  | TInt int
  | TFloat rat
  | TNan
  | TInf bool
  | TStr utext
  | TMoment utext
  | TArr "toml list"
  | TTable "(utext \<times> toml) list"

type_synonym table = "(utext \<times> toml) list"

definition toml_number :: "toml \<Rightarrow> rat option" where
  "toml_number v =
     (case v of TBool b \<Rightarrow> Some (if b then 1 else 0) | TInt i \<Rightarrow> Some (of_int i) | TFloat x \<Rightarrow> Some x | _ \<Rightarrow> None)"

text \<open>Python's \<open>==\<close>, as \<open>py_eq\<close> for JSON.\<close>

fun toml_eq :: "toml \<Rightarrow> toml \<Rightarrow> bool" where
  "toml_eq (TStr s) w = (w = TStr s)"
| "toml_eq (TMoment m) w = (w = TMoment m)"
| "toml_eq TNan w = False"
| "toml_eq (TInf b) w = (w = TInf b)"
| "toml_eq (TBool b) w = (toml_number w = toml_number (TBool b))"
| "toml_eq (TInt i) w = (toml_number w = toml_number (TInt i))"
| "toml_eq (TFloat x) w = (toml_number w = toml_number (TFloat x))"
| "toml_eq (TArr xs) w = (case w of TArr ys \<Rightarrow> list_all2 toml_eq xs ys | _ \<Rightarrow> False)"
| "toml_eq (TTable f) w =
     (case w of
        TTable g \<Rightarrow> length f = length g \<and>
          list_all (\<lambda>p. case map_of g (fst p) of None \<Rightarrow> False | Some y \<Rightarrow> toml_eq (snd p) y) f
      | _ \<Rightarrow> False)"

definition TABLE_ROOT :: utext where
  "TABLE_ROOT = codes ''mcp_servers''"

definition payload_table :: "entry_payload \<Rightarrow> table" where
  "payload_table p =
     [(codes ''command'', TStr (ep_command p)), (codes ''args'', TArr (map TStr (ep_args p)))] @
     (if ep_env p = [] then []
      else [(codes ''env'', TTable (fold (\<lambda>(k, v). AList.update k (TStr v)) (ep_env p) []))])"

text \<open>\<open>_parse\<close>, and the registry of a document when it is a table.\<close>

definition parse_toml :: "(utext \<Rightarrow> table option) \<Rightarrow> utext \<Rightarrow> table outcome" where
  "parse_toml rd t =
     (case rd t of None \<Rightarrow> Inl (UnsupportedConfigError ''target toml does not parse'') | Some doc \<Rightarrow> Inr doc)"

definition toml_servers :: "table \<Rightarrow> table option" where
  "toml_servers doc = (case map_of doc TABLE_ROOT of Some (TTable sv) \<Rightarrow> Some sv | _ \<Rightarrow> None)"

definition toml_entry :: "table \<Rightarrow> utext \<Rightarrow> toml option" where
  "toml_entry doc key = (case toml_servers doc of None \<Rightarrow> None | Some sv \<Rightarrow> map_of sv key)"

definition read_entry_toml :: "(utext \<Rightarrow> table option) \<Rightarrow> utext \<Rightarrow> utext \<Rightarrow> table option outcome" where
  "read_entry_toml rd original key =
     (case parse_toml rd original of
        Inl e \<Rightarrow> Inl e
      | Inr doc \<Rightarrow> Inr (case toml_entry doc key of Some (TTable entry) \<Rightarrow> Some entry | _ \<Rightarrow> None))"

definition prune_toml :: "table \<Rightarrow> utext \<Rightarrow> table" where
  "prune_toml doc key =
     (case toml_servers doc of
        None \<Rightarrow> doc
      | Some sv \<Rightarrow>
          if AList.delete key sv = [] then AList.delete TABLE_ROOT doc
          else AList.update TABLE_ROOT (TTable (AList.delete key sv)) doc)"

section \<open>The two proofs\<close>

definition prove_merge_toml ::
  "(utext \<Rightarrow> table option) \<Rightarrow> utext \<Rightarrow> utext \<Rightarrow> utext \<Rightarrow> table \<Rightarrow> unit outcome" where
  "prove_merge_toml rd original_text merged_text key expected =
     (case parse_toml rd merged_text of
        Inl e \<Rightarrow> Inl e
      | Inr merged \<Rightarrow>
          if (case toml_entry merged key of None \<Rightarrow> False | Some c \<Rightarrow> toml_eq c (TTable expected)) then
            (case parse_toml rd original_text of
               Inl e \<Rightarrow> Inl e
             | Inr before \<Rightarrow>
                 if toml_eq (TTable (prune_toml before key)) (TTable (prune_toml merged key)) then Inr ()
                 else Inl (ConfigWriteError ''something outside the entry changed''))
          else Inl (ConfigWriteError ''entry does not equal the target payload''))"

definition prove_removal_toml ::
  "(utext \<Rightarrow> table option) \<Rightarrow> utext \<Rightarrow> utext \<Rightarrow> utext \<Rightarrow> unit outcome" where
  "prove_removal_toml rd original_text merged_text key =
     (case parse_toml rd merged_text of
        Inl e \<Rightarrow> Inl e
      | Inr merged \<Rightarrow>
          if toml_entry merged key \<noteq> None then Inl (ConfigWriteError ''entry still present'')
          else
            (case parse_toml rd original_text of
               Inl e \<Rightarrow> Inl e
             | Inr before \<Rightarrow>
                 if toml_eq (TTable (prune_toml before key)) (TTable (prune_toml merged key)) then Inr ()
                 else Inl (ConfigWriteError ''something outside the entry changed'')))"

section \<open>The scanner\<close>

text \<open>\<open>text.find(p, i)\<close>: the first place at or after \<open>i\<close>.\<close>

fun find_in :: "utext \<Rightarrow> utext \<Rightarrow> nat \<Rightarrow> nat option" where
  "find_in p [] i = (if p = [] then Some i else None)"
| "find_in p (c # cs) i = (if take (length p) (c # cs) = p then Some i else find_in p cs (Suc i))"

definition find_at :: "utext \<Rightarrow> utext \<Rightarrow> nat \<Rightarrow> nat option" where
  "find_at p t i = find_in p (drop i t) i"

lemma find_in_ge: "find_in p t i = Some j \<Longrightarrow> i \<le> j"
  by (induction p t i rule: find_in.induct) (auto split: if_splits dest: Suc_leD)

lemma find_at_ge: "find_at p t i = Some j \<Longrightarrow> i \<le> j"
  unfolding find_at_def by (rule find_in_ge)

text \<open>\<open>_string_end\<close>, from the character after the quote.\<close>

function string_end :: "utext \<Rightarrow> nat \<Rightarrow> nat \<Rightarrow> nat" where
  "string_end t quote i =
     (if i < length t then
        (if quote = 34 \<and> t ! i = 92 then string_end t quote (i + 2)
         else if t ! i = quote then i + 1
         else string_end t quote (i + 1))
      else length t)"
  by auto
termination by (relation "measure (\<lambda>(t, q, i). length t - i)") auto

declare string_end.simps [simp del]

lemma string_end_gt: "i \<le> length t \<Longrightarrow> i \<le> string_end t quote i"
proof (induction t quote i rule: string_end.induct)
  case (1 t quote i)
  have "i + 2 \<le> length t \<or> string_end t quote (i + 2) = length t"
    by (subst string_end.simps) auto
  with 1 show ?case by (subst string_end.simps) auto
qed

text \<open>\<open>_parse_key_path\<close>\<close>

function key_segments :: "(nat \<Rightarrow> bool) \<Rightarrow> utext \<Rightarrow> utext list \<Rightarrow> utext list option" where
  "key_segments an t segments =
     (case dropWhile (\<lambda>c. c = 46 \<or> is_space c) t of
        [] \<Rightarrow> if segments = [] then None else Some segments
      | ch # cs \<Rightarrow>
          if ch = 34 \<or> ch = 39 then
            (case dropWhile (\<lambda>c. c \<noteq> ch) cs of
               [] \<Rightarrow> None
             | _ # following \<Rightarrow>
                 if following \<noteq> [] \<and> hd following \<noteq> 46 then None
                 else key_segments an following (segments @ [takeWhile (\<lambda>c. c \<noteq> ch) cs]))
          else
            (let bare = takeWhile (\<lambda>c. an c \<or> c = 95 \<or> c = 45) (ch # cs)
             in if bare = [] then None
                else key_segments an (drop (length bare) (ch # cs)) (segments @ [bare])))"
  by auto
termination
proof (relation "measure (\<lambda>(an, t, s). length t)", simp_all, goal_cases)
  case (1 t ch cs x following)
  have "length (dropWhile (\<lambda>c. c = 46 \<or> is_space c) t) \<le> length t" "length (dropWhile (\<lambda>c. c \<noteq> ch) cs) \<le> length cs"
    by (rule length_dropWhile_le)+
  with 1 show ?case by (auto dest: arg_cong [where f = length])
next
  case (2 an t ch cs)
  have "length (dropWhile (\<lambda>c. c = 46 \<or> is_space c) t) \<le> length t" by (rule length_dropWhile_le)
  with 2 show ?case by (cases "an ch \<or> ch = 95 \<or> ch = 45") auto
qed

declare key_segments.simps [simp del]

definition parse_key_path :: "(nat \<Rightarrow> bool) \<Rightarrow> utext \<Rightarrow> utext list option" where
  "parse_key_path an raw =
     (let t = strip raw
      in key_segments an
           (if take 1 t = [91] \<and> 2 \<le> length t \<and> last t = 93 then strip (butlast (drop 1 t)) else t) [])"


record scan_state =
  ss_depth :: nat
  ss_in_multiline :: "utext option"

text \<open>
  \<open>_scan_line\<close> from the character \<open>i\<close> of the line: what was seen, the place after a bracket that
  may open a header, the header once its bracket closes, and the depth.
\<close>

definition scan_end :: "utext list option \<Rightarrow> nat \<Rightarrow> utext list option \<times> scan_state" where
  "scan_end candidate depth =
     (if depth = 0 then candidate else None, \<lparr>ss_depth = depth, ss_in_multiline = None\<rparr>)"

function scan_from ::
  "(nat \<Rightarrow> bool) \<Rightarrow> utext \<Rightarrow> nat \<Rightarrow> bool \<Rightarrow> nat option \<Rightarrow> utext list option \<Rightarrow> nat \<Rightarrow>
   utext list option \<times> scan_state" where
  "scan_from an line i seen candidate_start candidate depth =
     (if i < length line then
        (let ch = line ! i; delimiter = take 3 (drop i line)
         in if delimiter = [34, 34, 34] \<or> delimiter = [39, 39, 39] then
              (case find_at delimiter line (i + 3) of
                 None \<Rightarrow> (None, \<lparr>ss_depth = depth, ss_in_multiline = Some delimiter\<rparr>)
               | Some closer \<Rightarrow> scan_from an line (closer + 3) True candidate_start candidate depth)
            else if ch = 34 \<or> ch = 39 then
              scan_from an line (string_end line ch (i + 1)) True candidate_start candidate depth
            else if ch = 35 then scan_end candidate depth
            else if ch = 91 then
              scan_from an line (i + 1) True
                (if depth = 0 \<and> \<not> seen \<and> candidate_start = None then Some (i + 1) else candidate_start)
                candidate (depth + 1)
            else if ch = 93 then
              (case candidate_start of
                 Some a \<Rightarrow>
                   if depth - 1 = 0 \<and> candidate = None then
                     (let path = parse_key_path an (take (i - a) (drop a line))
                      in scan_from an line (i + 1) True (if path = None then None else Some a) path (depth - 1))
                   else scan_from an line (i + 1) True candidate_start candidate (depth - 1)
               | None \<Rightarrow> scan_from an line (i + 1) True None candidate (depth - 1))
            else if is_space ch then scan_from an line (i + 1) seen candidate_start candidate depth
            else if candidate \<noteq> None then scan_from an line (i + 1) True None None depth
            else scan_from an line (i + 1) True candidate_start candidate depth)
      else scan_end candidate depth)"
  by pat_completeness auto
termination
proof (relation "measure (\<lambda>(an, line, i, a, b, c, d). length line - i)", simp_all, goal_cases)
  case (1 line i closer)
  then show ?case by (auto dest!: find_at_ge)
next
  case (2 line i)
  then show ?case using string_end_gt [of "i + 1" line "line ! i"] by simp
qed

declare scan_from.simps [simp del]

definition scan_line :: "(nat \<Rightarrow> bool) \<Rightarrow> utext \<Rightarrow> scan_state \<Rightarrow> utext list option \<times> scan_state" where
  "scan_line an line st =
     (case ss_in_multiline st of
        None \<Rightarrow> scan_from an line 0 False None None (ss_depth st)
      | Some delimiter \<Rightarrow>
          (case find_at delimiter line 0 of
             None \<Rightarrow> (None, st)
           | Some closer \<Rightarrow> scan_from an (drop (closer + 3) line) 0 False None None (ss_depth st)))"

section \<open>Headers\<close>

text \<open>\<open>str.splitlines(keepends=True)\<close>, which also ends a line at the Unicode separators.\<close>

definition line_end :: "nat \<Rightarrow> bool" where
  "line_end c \<longleftrightarrow> 10 \<le> c \<and> c \<le> 13 \<or> 28 \<le> c \<and> c \<le> 30 \<or> c = 133 \<or> c = 8232 \<or> c = 8233"

fun keep_lines :: "utext \<Rightarrow> utext \<Rightarrow> utext list" where
  "keep_lines acc [] = (if acc = [] then [] else [acc])"
| "keep_lines acc (c # cs) =
     (if c = 13 \<and> take 1 cs = [10] then keep_lines (acc @ [13]) cs
      else if line_end c then (acc @ [c]) # keep_lines [] cs
      else keep_lines (acc @ [c]) cs)"

record header =
  hd_path :: "utext list"
  hd_start :: nat
  hd_end :: nat

text \<open>\<open>raw_line.rstrip("\r\n")\<close>\<close>

definition chop :: "utext \<Rightarrow> utext" where
  "chop t = rev (dropWhile (\<lambda>c. c = 13 \<or> c = 10) (rev t))"

fun scan_lines :: "(nat \<Rightarrow> bool) \<Rightarrow> scan_state \<Rightarrow> nat \<Rightarrow> utext list \<Rightarrow> header list" where
  "scan_lines an st offset [] = []"
| "scan_lines an st offset (raw # raws) =
     (case scan_line an (chop raw) st of
        (path, st') \<Rightarrow>
          (case path of
             Some p \<Rightarrow>
               if ss_depth st' = 0 \<and> ss_in_multiline st' = None
               then \<lparr>hd_path = p, hd_start = offset, hd_end = offset + length raw\<rparr> #
                 scan_lines an st' (offset + length raw) raws
               else scan_lines an st' (offset + length raw) raws
           | None \<Rightarrow> scan_lines an st' (offset + length raw) raws))"

definition scan_headers :: "(nat \<Rightarrow> bool) \<Rightarrow> utext \<Rightarrow> header list" where
  "scan_headers an original =
     scan_lines an \<lparr>ss_depth = 0, ss_in_multiline = None\<rparr> 0 (keep_lines [] original)"

text \<open>\<open>_find_span\<close>: our header, and where the first table that is not ours starts.\<close>

definition find_span :: "(nat \<Rightarrow> bool) \<Rightarrow> utext \<Rightarrow> utext \<Rightarrow> (header \<times> nat) outcome" where
  "find_span an original key =
     (case dropWhile (\<lambda>h. hd_path h \<noteq> [TABLE_ROOT, key]) (scan_headers an original) of
        [] \<Rightarrow> Inl (UnsupportedConfigError ''entry exists in parse but has no header'')
      | h # later \<Rightarrow>
          Inr (h, case List.find (\<lambda>g. take 2 (hd_path g) \<noteq> [TABLE_ROOT, key]) later of
                    None \<Rightarrow> length original
                  | Some g \<Rightarrow> hd_start g))"

definition entry_is_addressable :: "(nat \<Rightarrow> bool) \<Rightarrow> utext \<Rightarrow> utext \<Rightarrow> bool" where
  "entry_is_addressable an original key = is_ok (find_span an original key)"

section \<open>Splicing\<close>

definition count_crlf :: "utext \<Rightarrow> nat" where
  "count_crlf t = length (filter (\<lambda>i. t ! i = 13 \<and> t ! Suc i = 10) [0..<length t - 1])"

definition dominant_newline :: "utext \<Rightarrow> utext" where
  "dominant_newline t =
     (let crlf = int (count_crlf t); lf = int (length (filter (\<lambda>c. c = 10) t)) - crlf
      in if crlf > lf then [13, 10] else [10])"

definition adapt :: "utext \<Rightarrow> utext \<Rightarrow> utext" where
  "adapt newline block = concat (map (\<lambda>c. if c = 10 then newline else [c]) block)"

definition append_block :: "utext \<Rightarrow> utext \<Rightarrow> utext" where
  "append_block original block =
     (let newline = dominant_newline original;
          adapted = adapt newline (rev (dropWhile (\<lambda>c. c = 10) (rev block)))
      in if original = [] then adapted @ newline
         else (if last original = 10 then original else original @ newline) @ newline @ adapted @ newline)"

definition splice :: "utext \<Rightarrow> header \<times> nat \<Rightarrow> utext \<Rightarrow> utext" where
  "splice original place new = take (hd_start (fst place)) original @ new @ drop (snd place) original"

definition replace_span :: "(nat \<Rightarrow> bool) \<Rightarrow> utext \<Rightarrow> utext \<Rightarrow> utext \<Rightarrow> utext outcome" where
  "replace_span an original key block =
     (case find_span an original key of
        Inl e \<Rightarrow> Inl e
      | Inr place \<Rightarrow> Inr (splice original place (adapt (dominant_newline original) block)))"

text \<open>\<open>render_toml_entry\<close>: the values are printed by \<open>json.dumps\<close>.\<close>

definition json_line :: "utext jtree \<Rightarrow> utext" where
  "json_line v = dumps (\<lambda>_. []) None v"

definition render_toml_entry :: "utext \<Rightarrow> entry_payload \<Rightarrow> utext" where
  "render_toml_entry key p =
     join [10]
       ([codes ''[mcp_servers.'' @ key @ [93],
         codes ''command = '' @ json_line (JStr (ep_command p)),
         codes ''args = '' @ json_line (JArr (map JStr (ep_args p)))] @
        (if ep_env p = [] then []
         else [[], codes ''[mcp_servers.'' @ key @ codes ''.env]''] @
           map (\<lambda>(k, v). k @ codes '' = '' @ json_line (JStr v)) (ep_env p))) @ [10]"

section \<open>The merge\<close>

text \<open>
  \<open>str(k) for k in current\<close>: the keys of a table, the characters of a string, the items of an
  array, whose text \<open>st\<close> is an argument. Other values cannot be iterated.
\<close>

definition entry_names :: "(toml \<Rightarrow> utext) \<Rightarrow> toml \<Rightarrow> utext list outcome" where
  "entry_names st v =
     (case v of
        TTable f \<Rightarrow> Inr (map fst f)
      | TArr xs \<Rightarrow> Inr (map st xs)
      | TStr s \<Rightarrow> Inr (map (\<lambda>c. [c]) s)
      | _ \<Rightarrow> Inl (OtherException ''TypeError''))"

record toml_lib =
  tl_loads :: "utext \<Rightarrow> table option"
  tl_alnum :: "nat \<Rightarrow> bool"
  tl_str :: "toml \<Rightarrow> utext"

text \<open>A merged text counts once its proof succeeds.\<close>

definition proved_merge :: "toml_lib \<Rightarrow> utext \<Rightarrow> utext \<Rightarrow> utext \<Rightarrow> table \<Rightarrow> (utext \<times> bool) outcome" where
  "proved_merge tb original merged key expected =
     (case prove_merge_toml (tl_loads tb) original merged key expected of
        Inl e \<Rightarrow> Inl e
      | Inr _ \<Rightarrow> Inr (merged, True))"

definition merge_toml ::
  "toml_lib \<Rightarrow> utext \<Rightarrow> utext \<Rightarrow> entry_payload \<Rightarrow> bool \<Rightarrow> (utext \<times> bool) outcome" where
  "merge_toml tb original key payload force =
     (case parse_toml (tl_loads tb) original of
        Inl e \<Rightarrow> Inl e
      | Inr parsed \<Rightarrow>
          (let expected = payload_table payload; block = render_toml_entry key payload
           in case toml_entry parsed key of
                None \<Rightarrow> proved_merge tb original (append_block original block) key expected
              | Some current \<Rightarrow>
                  (case find_span (tl_alnum tb) original key of
                     Inl e \<Rightarrow> Inl e
                   | Inr _ \<Rightarrow>
                       if toml_eq current (TTable expected) then Inr (original, False)
                       else
                         (case entry_names (tl_str tb) current of
                            Inl e \<Rightarrow> Inl e
                          | Inr names \<Rightarrow>
                              (let extra = sort (filter (\<lambda>k. k \<notin> set MANAGED_KEYS) names)
                               in if extra \<noteq> [] \<and> \<not> force then Inl (EntryConflictError extra)
                                  else
                                    (case replace_span (tl_alnum tb) original key block of
                                       Inl e \<Rightarrow> Inl e
                                     | Inr merged \<Rightarrow> proved_merge tb original merged key expected))))))"

definition remove_entry_toml :: "toml_lib \<Rightarrow> utext \<Rightarrow> utext \<Rightarrow> (utext \<times> bool) outcome" where
  "remove_entry_toml tb original key =
     (case parse_toml (tl_loads tb) original of
        Inl e \<Rightarrow> Inl e
      | Inr _ \<Rightarrow>
          (case find_span (tl_alnum tb) original key of
             Inl e \<Rightarrow> Inl e
           | Inr place \<Rightarrow>
               (let merged = splice original place []
                in case prove_removal_toml (tl_loads tb) original merged key of
                     Inl e \<Rightarrow> Inl e
                   | Inr _ \<Rightarrow> Inr (merged, True))))"

end
