(* ===== verification/TomlTheorems.thy ===== *)
theory TomlTheorems
  imports TomlMerge
begin

text \<open>
  What the TOML merge leaves alone: the scanner's headers start lines, in order, so the span
  that is replaced or removed is made of whole lines and holds no header of another table.
\<close>

section \<open>Lines\<close>

lemma concat_keep_lines: "concat (keep_lines acc t) = acc @ t"
proof (induction acc t rule: keep_lines.induct)
  case (2 acc c cs)
  then show ?case by (cases cs) auto
qed simp

lemma keep_lines_nonempty: "l \<in> set (keep_lines acc t) \<Longrightarrow> l \<noteq> []"
  by (induction acc t rule: keep_lines.induct) (auto split: if_splits)

definition line_start :: "utext list \<Rightarrow> nat \<Rightarrow> nat" where
  "line_start ls m = length (concat (take m ls))"

lemma line_start_simps [simp]:
  "line_start ls 0 = 0" "line_start (l # ls) (Suc m) = length l + line_start ls m"
  by (simp_all add: line_start_def)

lemma take_line_start: "take (line_start ls m) (concat ls) = concat (take m ls)"
  by (induction ls arbitrary: m; case_tac m) simp_all

lemma drop_line_start: "drop (line_start ls m) (concat ls) = concat (drop m ls)"
  by (induction ls arbitrary: m; case_tac m) simp_all

section \<open>Headers\<close>

lemma scan_lines_start:
  "h \<in> set (scan_lines an st offset ls) \<Longrightarrow> \<exists>m < length ls. hd_start h = offset + line_start ls m"
proof (induction ls arbitrary: st offset)
  case (Cons l ls)
  obtain p st' where "scan_line an (chop l) st = (p, st')" by fastforce
  with Cons.prems consider "hd_start h = offset" | "h \<in> set (scan_lines an st' (offset + length l) ls)"
    by (auto split: option.splits if_splits)
  then show ?case
  proof cases
    case 1
    then show ?thesis by (intro exI [of _ 0]) simp
  next
    case 2
    from Cons.IH [OF this] obtain m where "m < length ls" "hd_start h = offset + length l + line_start ls m" by blast
    then show ?thesis by (intro exI [of _ "Suc m"]) simp
  qed
qed simp

lemma scan_lines_sorted:
  "(\<forall>l\<in>set ls. l \<noteq> []) \<Longrightarrow> sorted_wrt (\<lambda>g h. hd_start g < hd_start h) (scan_lines an st offset ls)"
proof (induction ls arbitrary: st offset)
  case (Cons l ls)
  obtain p st' where r: "scan_line an (chop l) st = (p, st')" by fastforce
  have "offset < hd_start h" if "h \<in> set (scan_lines an st' (offset + length l) ls)" for h
    using scan_lines_start [OF that] Cons.prems by auto
  then show ?case using Cons by (auto simp: r split: option.split)
qed simp

lemma scan_headers_start:
  "h \<in> set (scan_headers an t) \<Longrightarrow> \<exists>m. hd_start h = line_start (keep_lines [] t) m"
  unfolding scan_headers_def by (drule scan_lines_start) auto

lemma scan_headers_sorted: "sorted_wrt (\<lambda>g h. hd_start g < hd_start h) (scan_headers an t)"
  unfolding scan_headers_def by (rule scan_lines_sorted) (auto dest: keep_lines_nonempty)

section \<open>The span\<close>

definition own_lines :: "(nat \<Rightarrow> bool) \<Rightarrow> utext \<Rightarrow> utext \<Rightarrow> nat \<Rightarrow> nat \<Rightarrow> bool" where
  "own_lines an t key a b \<longleftrightarrow>
     (\<forall>g\<in>set (scan_headers an t). a \<le> hd_start g \<and> hd_start g < b \<longrightarrow> take 2 (hd_path g) = [TABLE_ROOT, key])"

lemma find_split: "List.find P xs = Some x \<Longrightarrow> \<exists>us vs. xs = us @ x # vs \<and> P x \<and> (\<forall>u\<in>set us. \<not> P u)"
proof (induction xs)
  case (Cons y ys)
  show ?case
  proof (cases "P y")
    case True
    then have "y # ys = [] @ x # ys \<and> P x \<and> (\<forall>u\<in>set []. \<not> P u)" using Cons.prems by simp
    then show ?thesis by blast
  next
    case False
    with Cons obtain us vs where "ys = us @ x # vs" "P x" "\<forall>u\<in>set us. \<not> P u" by auto
    with False have "y # ys = (y # us) @ x # vs \<and> P x \<and> (\<forall>u\<in>set (y # us). \<not> P u)" by simp
    then show ?thesis by blast
  qed
qed simp

lemma find_span_lines:
  assumes "find_span an t key = Inr (h, e)"
  shows "\<exists>m m'. hd_start h = line_start (keep_lines [] t) m \<and> e = line_start (keep_lines [] t) m'"
    and "own_lines an t key (hd_start h) e" and "hd_path h = [TABLE_ROOT, key]" and "hd_start h \<le> e"
proof -
  let ?hs = "scan_headers an t" and ?L = "keep_lines [] t"
  let ?other = "\<lambda>g. take 2 (hd_path g) \<noteq> [TABLE_ROOT, key]"
  obtain later where d: "dropWhile (\<lambda>h. hd_path h \<noteq> [TABLE_ROOT, key]) ?hs = h # later"
    and e: "e = (case List.find ?other later of None \<Rightarrow> length t | Some g \<Rightarrow> hd_start g)"
    using assms by (auto simp: find_span_def split: list.splits)
  let ?before = "takeWhile (\<lambda>h. hd_path h \<noteq> [TABLE_ROOT, key]) ?hs"
  have hs: "?hs = ?before @ h # later" using takeWhile_dropWhile_id [of _ ?hs] d by metis
  have ours: "hd_path h = [TABLE_ROOT, key]" using d by (simp add: dropWhile_eq_Cons_conv)
  then show "hd_path h = [TABLE_ROOT, key]" .
  have order: "\<forall>g\<in>set ?before. hd_start g < hd_start h" "\<forall>g\<in>set later. hd_start h < hd_start g"
      "sorted_wrt (\<lambda>g h. hd_start g < hd_start h) later"
    using scan_headers_sorted [of an t] by (subst (asm) hs; simp add: sorted_wrt_append)+
  have h_in: "h \<in> set ?hs" by (subst hs) simp
  have whole: "length t = line_start ?L (length ?L)"
    by (simp add: line_start_def concat_keep_lines)
  show "\<exists>m m'. hd_start h = line_start ?L m \<and> e = line_start ?L m'"
  proof (cases "List.find ?other later")
    case None
    then show ?thesis using scan_headers_start [OF h_in] whole e by auto
  next
    case (Some g)
    then have "g \<in> set ?hs" by (subst hs) (auto dest!: find_split)
    then show ?thesis using scan_headers_start [OF h_in] scan_headers_start [of g an t] e Some by auto
  qed
  show "hd_start h \<le> e"
  proof (cases "List.find ?other later")
    case None
    have "length (concat (take m ?L)) \<le> length t" for m
    proof -
      have "length t = length (concat (take m ?L @ drop m ?L))" by (simp only: append_take_drop_id) (simp add: concat_keep_lines)
      then show ?thesis by (simp only: concat_append length_append)
    qed
    with None show ?thesis using scan_headers_start [OF h_in] e by (auto simp: line_start_def)
  next
    case (Some g)
    then show ?thesis using order(2) e by (auto dest!: find_split)
  qed
  show "own_lines an t key (hd_start h) e"
    unfolding own_lines_def
  proof (intro ballI impI)
    fix g assume g: "g \<in> set ?hs" "hd_start h \<le> hd_start g \<and> hd_start g < e"
    from g(1) have "g \<in> set ?before \<or> g = h \<or> g \<in> set later" by (subst (asm) hs) auto
    then consider "g = h" | "g \<in> set later" using order(1) g(2) by fastforce
    then show "take 2 (hd_path g) = [TABLE_ROOT, key]"
    proof cases
      case 2
      show ?thesis
      proof (cases "List.find ?other later")
        case None
        then show ?thesis using 2 by (auto simp: find_None_iff)
      next
        case (Some x)
        then obtain us vs where "later = us @ x # vs" "\<forall>u\<in>set us. \<not> ?other u" using find_split [OF Some] by blast
        moreover from this(1) have "\<forall>v\<in>set vs. hd_start x < hd_start v"
          using order(3) by (simp add: sorted_wrt_append)
        ultimately show ?thesis using 2 g(2) e Some by fastforce
      qed
    qed (simp add: ours)
  qed
qed


section \<open>The merge\<close>

lemma proved_mergeD:
  assumes "proved_merge tb original merged key expected = Inr (t, c)"
  shows "t = merged" "c" "\<exists>doc doc' entry. tl_loads tb original = Some doc \<and> tl_loads tb merged = Some doc' \<and>
    toml_entry doc' key = Some entry \<and> toml_eq entry (TTable expected) \<and>
    toml_eq (TTable (prune_toml doc key)) (TTable (prune_toml doc' key))"
  using assms
  by (auto simp: proved_merge_def prove_merge_toml_def parse_toml_def simp del: toml_eq.simps
      split: sum.splits option.splits if_splits)

lemma splice_lines:
  assumes "find_span an t key = Inr (h, e)"
  shows "\<exists>m m'. splice t (h, e) new = concat (take m (keep_lines [] t)) @ new @ concat (drop m' (keep_lines [] t)) \<and>
    line_start (keep_lines [] t) m \<le> line_start (keep_lines [] t) m' \<and>
    own_lines an t key (line_start (keep_lines [] t) m) (line_start (keep_lines [] t) m')"
proof -
  obtain m m' where "hd_start h = line_start (keep_lines [] t) m" "e = line_start (keep_lines [] t) m'"
    using find_span_lines(1) [OF assms] by blast
  moreover from this have "splice t (h, e) new = concat (take m (keep_lines [] t)) @ new @ concat (drop m' (keep_lines [] t))"
    using take_line_start [of "keep_lines [] t" m] drop_line_start [of "keep_lines [] t" m']
    by (simp add: splice_def concat_keep_lines)
  ultimately show ?thesis using find_span_lines(2,4) [OF assms] by auto
qed

lemma append_block_lines:
  "\<exists>new. append_block t block = concat (take (length (keep_lines [] t)) (keep_lines [] t)) @ new @
    concat (drop (length (keep_lines [] t)) (keep_lines [] t))"
  by (simp add: concat_keep_lines append_block_def Let_def)

lemma merge_tomlD:
  assumes "merge_toml tb original key payload force = Inr (t, True)"
  shows "\<exists>merged. proved_merge tb original merged key (payload_table payload) = Inr (t, True) \<and>
    (merged = append_block original (render_toml_entry key payload) \<or>
     (\<exists>place. find_span (tl_alnum tb) original key = Inr place \<and>
       merged = splice original place (adapt (dominant_newline original) (render_toml_entry key payload))))"
  using assms
  by (auto simp: merge_toml_def replace_span_def Let_def simp del: toml_eq.simps
      split: sum.splits option.splits if_splits)


text \<open>Removing takes out whole lines of our own tables.\<close>

lemma toml_removal_is_local:
  assumes "remove_entry_toml tb original key = Inr (t, c)"
  shows "\<exists>m m'. t = concat (take m (keep_lines [] original)) @ concat (drop m' (keep_lines [] original)) \<and>
    own_lines (tl_alnum tb) original key (line_start (keep_lines [] original) m) (line_start (keep_lines [] original) m')"
proof -
  obtain h e where "find_span (tl_alnum tb) original key = Inr (h, e)" "t = splice original (h, e) []"
    using assms by (auto simp: remove_entry_toml_def Let_def split: sum.splits)
  then show ?thesis using splice_lines [of "tl_alnum tb" original key h e "[]"] by auto
qed


section \<open>Two documents\<close>

text \<open>An empty one, and one with a multi-line string that holds an escaped quote before two more.\<close>

definition evo :: utext where
  "evo = codes ''evo''"

definition tricky_toml :: utext where
  "tricky_toml = codes ''a='' @ [34, 34, 34, 10, 92, 34, 34, 34, 10, 34, 34, 34, 10]"

definition sample_toml_lib :: toml_lib where
  "sample_toml_lib =
     \<lparr>tl_loads = (\<lambda>t.
        if length t \<le> 15 then Some []
        else Some [(TABLE_ROOT, TTable [(evo, TTable (payload_table sample_payload))])]),
      tl_alnum = (\<lambda>c. is_alpha c \<or> is_digit c), tl_str = (\<lambda>_. [])\<rparr>"

lemmas sample_block_defs = render_toml_entry_def json_line_def dumps_def string_text_def escape_char_def
  sample_payload_def evo_def codes_def item_sep_def line_break_def

lemma sample_newline: "dominant_newline [] = [10]" "dominant_newline tricky_toml = [10]"
  by (simp_all add: dominant_newline_def count_crlf_def tricky_toml_def codes_def Let_def upt_rec)

lemma sample_toml_merge:
  assumes "length t \<le> 15" "dominant_newline t = [10]"
  shows "merge_toml sample_toml_lib t evo sample_payload False =
    Inr (append_block t (render_toml_entry evo sample_payload), True)"
proof -
  have "length (adapt [10] (rev (dropWhile (\<lambda>c. c = 10) (rev (render_toml_entry evo sample_payload))))) > 15"
    by (simp add: sample_block_defs adapt_def)
  then have "length (append_block t (render_toml_entry evo sample_payload)) > 15"
    by (simp add: append_block_def assms(2) Let_def)
  then show ?thesis
    using assms(1)
    by (simp add: merge_toml_def parse_toml_def sample_toml_lib_def toml_entry_def toml_servers_def proved_merge_def
        prove_merge_toml_def prune_toml_def payload_table_def sample_payload_def list_all2_same)
qed


text \<open>
  The scanner looks for the end of a multi-line string without regard to escapes. After such a
  document it stays inside the string, so the entry the merge appends, proved and reported as
  installed, has no header that a later verification or removal could find.
\<close>

lemma escaped_quotes_hide_the_entry:
  "\<not> entry_is_addressable (tl_alnum sample_toml_lib)
     (append_block tricky_toml (render_toml_entry evo sample_payload)) evo"
  unfolding append_block_def sample_newline(2)
  by (simp add: tricky_toml_def entry_is_addressable_def find_span_def scan_headers_def scan_line_def scan_from.simps
      chop_def line_end_def find_at_def scan_end_def is_space_def adapt_def sample_block_defs)

end
