(* ===== verification/ClientFiles.thy ===== *)
theory ClientFiles
  imports Backups TomlMerge
begin

text \<open>
  The registry of clients (\<open>application/client_config/specs.py\<close>, \<open>models.py\<close>), the target paths
  (\<open>paths.py\<close>) and the adapter that installs our entry into a configuration file
  (\<open>adapters/file_auto.py\<close>), over the directory of \<open>Backups\<close> and the two merges.
\<close>

section \<open>Clients\<close>

datatype tier = FileAuto | Cli | Manual

datatype container = TomlFile | JsonFile | CliStore

record client_spec =
  cs_client_id :: utext
  cs_display_name :: utext
  cs_tier :: tier
  cs_entry_key :: utext
  cs_container :: container
  cs_write_target :: "utext option"
  cs_note :: utext

definition CLIENT_SPECS :: "client_spec list" where
  "CLIENT_SPECS = [
  \<lparr>cs_client_id = codes ''codex'', cs_display_name = codes ''Codex'', cs_tier = FileAuto, cs_entry_key = codes ''evoblue-video'',
     cs_container = TomlFile, cs_write_target = Some (codes ''~/.codex/config.toml''),
     cs_note = []\<rparr>,
  \<lparr>cs_client_id = codes ''claude_desktop'', cs_display_name = codes ''Claude Desktop'', cs_tier = FileAuto, cs_entry_key = codes ''evoblue-video'',
     cs_container = JsonFile, cs_write_target = Some (codes ''%APPDATA%/Claude/claude_desktop_config.json''),
     cs_note = [20165] @ codes '' Windows '' @ [23454, 27979, 36335, 24452, 65292] @ codes ''POSIX '' @ [19981, 25903, 25345, 33258, 21160, 20889]\<rparr>,
  \<lparr>cs_client_id = codes ''workbuddy'', cs_display_name = codes ''WorkBuddy'', cs_tier = FileAuto, cs_entry_key = codes ''evoblue-video-mcp'',
     cs_container = JsonFile, cs_write_target = Some (codes ''~/.workbuddy/mcp.json''),
     cs_note = [23433, 35013, 21518, 38656, 22312] @ codes '' WorkBuddy '' @ [36830, 25509, 22120, 31649, 29702, 39029, 25163, 21160] @ codes '' Trust '' @ [25165, 28608, 27963]\<rparr>,
  \<lparr>cs_client_id = codes ''claude_code'', cs_display_name = codes ''Claude Code'', cs_tier = Cli, cs_entry_key = codes ''evoblue-video'',
     cs_container = CliStore, cs_write_target = Some (codes ''claude mcp'' @ [65288] @ codes ''local '' @ [20316, 29992, 22495, 65289]),
     cs_note = codes ''CLI '' @ [19981, 22312] @ codes '' PATH '' @ [26102, 35813, 27425, 35843, 29992, 38477, 32423, 20026, 21487, 22797, 21046, 37197, 32622, 65292, 32477, 19981, 30452, 25509, 25913, 20889] @ codes '' CLI '' @ [31649, 29702, 30340, 25991, 20214]\<rparr>,
  \<lparr>cs_client_id = codes ''deepseek'', cs_display_name = codes ''DeepSeek Harness'', cs_tier = Manual, cs_entry_key = codes ''evoblue-video'',
     cs_container = JsonFile, cs_write_target = None,
     cs_note = [26684, 24335, 20173, 22312, 21464, 21270, 65292, 21482, 29983, 25104, 21487, 22797, 21046, 37197, 32622, 65292, 27704, 19981, 33258, 21160, 20889, 20837]\<rparr>]"

definition HOME_PREFIX :: utext where
  "HOME_PREFIX = codes ''~/''"

definition APPDATA_PREFIX :: utext where
  "APPDATA_PREFIX = codes ''%APPDATA%/''"

text \<open>The path, as the text of the directory it starts from and the rest.\<close>

definition resolve_target :: "utext \<Rightarrow> utext \<Rightarrow> utext option \<Rightarrow> (utext \<times> utext) option" where
  "resolve_target template home appdata =
     (if begins HOME_PREFIX template then Some (home, drop (length HOME_PREFIX) template)
      else if begins APPDATA_PREFIX template then
        (case appdata of
           None \<Rightarrow> None
         | Some a \<Rightarrow> if a = [] then None else Some (a, drop (length APPDATA_PREFIX) template))
      else None)"

text \<open>\<open>target.name\<close>\<close>

definition path_name :: "utext \<times> utext \<Rightarrow> utext" where
  "path_name p = last (split_on 47 (snd p))"

section \<open>The adapter\<close>

record file_adapter =
  fa_spec :: client_spec
  fa_json_indent :: "nat option"
  fa_home :: utext
  fa_appdata :: "utext option"

record merge_lib =
  ml_rd :: "utext \<Rightarrow> rat option"
  ml_wr :: "rat \<Rightarrow> utext"
  ml_toml :: toml_lib

record operation_outcome =
  oo_performed :: bool
  oo_reason :: "string option"
  oo_installed :: "bool option"
  oo_entry_matches :: "bool option"
  oo_backup_name :: "utext option"
  oo_restored_from :: "utext option"
  oo_safety_backup :: "utext option"
  oo_removed_target :: "bool option"

record target_state =
  ts_supported :: bool
  ts_present :: "bool option"
  ts_installed :: "bool option"
  ts_entry_matches :: "bool option"
  ts_other_server_count :: "int option"
  ts_backup_count :: int

text \<open>An outcome with every other field at its default.\<close>

definition plain_outcome :: "bool \<Rightarrow> string option \<Rightarrow> operation_outcome" where
  "plain_outcome performed reason =
     \<lparr>oo_performed = performed, oo_reason = reason, oo_installed = None, oo_entry_matches = None,
      oo_backup_name = None, oo_restored_from = None, oo_safety_backup = None, oo_removed_target = None\<rparr>"

definition is_toml :: "file_adapter \<Rightarrow> bool" where
  "is_toml fa = (cs_container (fa_spec fa) = TomlFile)"

definition adapter_target :: "file_adapter \<Rightarrow> utext option outcome" where
  "adapter_target fa =
     (case cs_write_target (fa_spec fa) of
        None \<Rightarrow> Inl (OtherException ''AssertionError'')
      | Some template \<Rightarrow> Inr (map_option path_name (resolve_target template (fa_home fa) (fa_appdata fa))))"

text \<open>UTF-8 with an optional mark at its start.\<close>

definition BOM :: "nat list" where
  "BOM = [0xEF, 0xBB, 0xBF]"

definition decode_utf8 :: "nat list \<Rightarrow> utext outcome" where
  "decode_utf8 bs =
     (case utf8_decode bs of None \<Rightarrow> Inl (ValueError ''UnicodeDecodeError'') | Some t \<Rightarrow> Inr t)"

definition split_bom :: "nat list \<Rightarrow> (nat list \<times> utext) outcome" where
  "split_bom raw =
     (if begins BOM raw then map_sum id (Pair BOM) (decode_utf8 (drop 3 raw))
      else map_sum id (Pair []) (decode_utf8 raw))"

definition decode_text :: "nat list \<Rightarrow> utext outcome" where
  "decode_text raw = decode_utf8 (if begins BOM raw then drop 3 raw else raw)"

definition encode_text :: "utext \<Rightarrow> nat list \<Rightarrow> nat list outcome" where
  "encode_text t mark =
     (if list_all scalar t then Inr (mark @ utf8_encode t) else Inl (ValueError ''UnicodeEncodeError''))"

text \<open>\<open>self._json_indent or 2\<close>\<close>

definition merge_indent :: "file_adapter \<Rightarrow> nat option" where
  "merge_indent fa = (case fa_json_indent fa of Some (Suc n) \<Rightarrow> Some (Suc n) | _ \<Rightarrow> Some 2)"

definition adapter_merge ::
  "file_adapter \<Rightarrow> merge_lib \<Rightarrow> utext \<Rightarrow> entry_payload \<Rightarrow> bool \<Rightarrow> (utext \<times> bool) outcome" where
  "adapter_merge fa ml t payload force =
     (if is_toml fa then merge_toml (ml_toml ml) t (cs_entry_key (fa_spec fa)) payload force
      else merge_json (ml_rd ml) (ml_wr ml) t (cs_entry_key (fa_spec fa)) payload (merge_indent fa) force)"

definition adapter_remove :: "file_adapter \<Rightarrow> merge_lib \<Rightarrow> utext \<Rightarrow> (utext \<times> bool) outcome" where
  "adapter_remove fa ml t =
     (if is_toml fa then remove_entry_toml (ml_toml ml) t (cs_entry_key (fa_spec fa))
      else remove_entry_json (ml_rd ml) (ml_wr ml) t (cs_entry_key (fa_spec fa)) (merge_indent fa))"

text \<open>An entry as its parser delivers it, and whether it equals the payload.\<close>

datatype client_entry = TomlEntry table | JsonEntry dict

definition adapter_read_entry :: "file_adapter \<Rightarrow> merge_lib \<Rightarrow> utext \<Rightarrow> client_entry option outcome" where
  "adapter_read_entry fa ml t =
     (let key = cs_entry_key (fa_spec fa)
      in if is_toml fa then
           (case read_entry_toml (tl_loads (ml_toml ml)) t key of
              Inl e \<Rightarrow> Inl e
            | Inr None \<Rightarrow> Inr None
            | Inr (Some entry) \<Rightarrow>
                if entry_is_addressable (tl_alnum (ml_toml ml)) t key then Inr (Some (TomlEntry entry))
                else Inl (UnsupportedConfigError ''entry exists but has no header''))
         else map_sum id (map_option JsonEntry) (read_entry (ml_rd ml) t key))"

definition entry_expected :: "client_entry \<Rightarrow> entry_payload \<Rightarrow> bool" where
  "entry_expected entry payload =
     (case entry of
        TomlEntry f \<Rightarrow> toml_eq (TTable f) (TTable (payload_table payload))
      | JsonEntry f \<Rightarrow> py_eq (JObj f) (JObj (payload_entry payload)))"

definition post_merge_proof ::
  "file_adapter \<Rightarrow> merge_lib \<Rightarrow> utext \<Rightarrow> utext \<Rightarrow> entry_payload \<Rightarrow> unit outcome" where
  "post_merge_proof fa ml original written payload =
     (let key = cs_entry_key (fa_spec fa)
      in if is_toml fa then prove_merge_toml (tl_loads (ml_toml ml)) original written key (payload_table payload)
         else prove_merge (ml_rd ml) original written key (payload_entry payload))"

definition post_removal_proof :: "file_adapter \<Rightarrow> merge_lib \<Rightarrow> utext \<Rightarrow> utext \<Rightarrow> unit outcome" where
  "post_removal_proof fa ml original written =
     (let key = cs_entry_key (fa_spec fa)
      in if is_toml fa then prove_removal_toml (tl_loads (ml_toml ml)) original written key
         else prove_removal (ml_rd ml) original written key)"

section \<open>Writing, with the way back\<close>

definition lift_outcome :: "'a outcome \<Rightarrow> 's \<Rightarrow> 'a outcome \<times> 's" where
  "lift_outcome r d = (r, d)"

text \<open>
  The \<open>try\<close> block of \<open>_install_sync\<close> and \<open>_remove_sync\<close>: commit, read back, prove. Whatever
  goes wrong in it, the backup is restored and the error says so.
\<close>

definition commit_and_prove ::
  "client_env \<Rightarrow> utext \<Rightarrow> utext \<Rightarrow> nat list \<Rightarrow> (utext \<Rightarrow> unit outcome) \<Rightarrow> unit dir_call" where
  "commit_and_prove env target merged bom proof_of =
     follow (lift_outcome (encode_text merged bom)) (\<lambda>bs.
       follow (commit_atomic env target bs) (\<lambda>_.
         follow (read_if_present env target) (\<lambda>written.
           follow (lift_outcome (case written of None \<Rightarrow> Inr [] | Some w \<Rightarrow> decode_text w)) (\<lambda>t.
             lift_outcome (proof_of t)))))"

definition guarded_write ::
  "client_env \<Rightarrow> utext \<Rightarrow> utext \<Rightarrow> nat list \<Rightarrow> (utext \<Rightarrow> unit outcome) \<Rightarrow> string \<Rightarrow> backup_info dir_call" where
  "guarded_write env target merged bom proof_of message =
     follow (create_backup env target) (\<lambda>backup d.
       case commit_and_prove env target merged bom proof_of d of
         (Inr _, d') \<Rightarrow> (Inr backup, d')
       | (Inl _, d') \<Rightarrow>
           follow (restore env target (bi_name backup)) (\<lambda>_. raise (ConfigWriteError message)) d')"

text \<open>
  The document an installation starts from: an absent file is a fresh configuration.
\<close>

definition original_document :: "file_adapter \<Rightarrow> nat list option \<Rightarrow> (nat list \<times> utext) outcome" where
  "original_document fa raw =
     (case raw of None \<Rightarrow> Inr ([], if is_toml fa then [] else codes ''{}'') | Some r \<Rightarrow> split_bom r)"

text \<open>The merge decision and the write.\<close>

definition install_document ::
  "client_env \<Rightarrow> file_adapter \<Rightarrow> merge_lib \<Rightarrow> utext \<Rightarrow> entry_payload \<Rightarrow> bool \<Rightarrow> nat list \<times> utext \<Rightarrow>
   operation_outcome dir_call" where
  "install_document env fa ml target payload force = (\<lambda>(bom, original).
     follow (lift_outcome (adapter_merge fa ml original payload force)) (\<lambda>(merged, changed).
       if \<not> changed then
         yield ((plain_outcome False (Some ''already_configured''))
           \<lparr>oo_installed := Some True, oo_entry_matches := Some True\<rparr>)
       else
         follow (guarded_write env target merged bom (\<lambda>t. post_merge_proof fa ml original t payload)
             ''post-write verification failed; rolled back'') (\<lambda>backup.
           yield ((plain_outcome True None)
             \<lparr>oo_installed := Some True, oo_entry_matches := Some True,
              oo_backup_name := Some (bi_name backup)\<rparr>))))"

definition install_sync ::
  "client_env \<Rightarrow> file_adapter \<Rightarrow> merge_lib \<Rightarrow> entry_payload \<Rightarrow> bool \<Rightarrow> operation_outcome dir_call" where
  "install_sync env fa ml payload force =
     follow (lift_outcome (adapter_target fa)) (\<lambda>resolved.
       case resolved of
         None \<Rightarrow> yield (plain_outcome False (Some ''client_unsupported''))
       | Some target \<Rightarrow>
           follow (is_dir env) (\<lambda>present.
             if \<not> present then yield (plain_outcome False (Some ''client_directory_missing''))
             else follow (read_if_present env target) (\<lambda>raw.
               follow (lift_outcome (original_document fa raw)) (install_document env fa ml target payload force))))"

definition not_installed :: operation_outcome where
  "not_installed = (plain_outcome False (Some ''not_installed''))\<lparr>oo_installed := Some False\<rparr>"

definition file_verify ::
  "client_env \<Rightarrow> file_adapter \<Rightarrow> merge_lib \<Rightarrow> entry_payload \<Rightarrow> operation_outcome dir_call" where
  "file_verify env fa ml payload =
     follow (lift_outcome (adapter_target fa)) (\<lambda>resolved.
       case resolved of
         None \<Rightarrow> yield (plain_outcome False (Some ''client_unsupported''))
       | Some target \<Rightarrow>
           follow (read_if_present env target) (\<lambda>raw.
             case raw of
               None \<Rightarrow> yield not_installed
             | Some r \<Rightarrow>
                 follow (lift_outcome (decode_text r)) (\<lambda>t.
                   follow (lift_outcome (adapter_read_entry fa ml t)) (\<lambda>entry.
                     case entry of
                       None \<Rightarrow> yield (not_installed\<lparr>oo_entry_matches := Some False\<rparr>)
                     | Some en \<Rightarrow>
                         (let matches = entry_expected en payload
                          in yield ((plain_outcome False (if matches then None else Some ''entry_mismatch''))
                               \<lparr>oo_installed := Some True, oo_entry_matches := Some matches\<rparr>))))))"

definition remove_sync ::
  "client_env \<Rightarrow> file_adapter \<Rightarrow> merge_lib \<Rightarrow> operation_outcome dir_call" where
  "remove_sync env fa ml =
     follow (lift_outcome (adapter_target fa)) (\<lambda>resolved.
       case resolved of
         None \<Rightarrow> yield (plain_outcome False (Some ''client_unsupported''))
       | Some target \<Rightarrow>
           follow (read_if_present env target) (\<lambda>raw.
             case raw of
               None \<Rightarrow> yield not_installed
             | Some r \<Rightarrow>
                 follow (lift_outcome (split_bom r)) (\<lambda>(bom, original).
                   follow (lift_outcome (adapter_read_entry fa ml original)) (\<lambda>entry.
                     if entry = None then yield not_installed
                     else follow (lift_outcome (adapter_remove fa ml original)) (\<lambda>(merged, changed).
                       if \<not> changed then yield not_installed
                       else
                         follow (guarded_write env target merged bom (post_removal_proof fa ml original)
                             ''post-removal verification failed; rolled back'') (\<lambda>backup.
                           yield ((plain_outcome True None)
                             \<lparr>oo_installed := Some False, oo_backup_name := Some (bi_name backup),
                              oo_removed_target := Some False\<rparr>)))))))"

definition restore_sync ::
  "client_env \<Rightarrow> file_adapter \<Rightarrow> merge_lib \<Rightarrow> utext \<Rightarrow> operation_outcome dir_call" where
  "restore_sync env fa ml name =
     follow (lift_outcome (adapter_target fa)) (\<lambda>resolved.
       case resolved of
         None \<Rightarrow> yield (plain_outcome False (Some ''client_unsupported''))
       | Some target \<Rightarrow>
           follow (restore env target name) (\<lambda>result.
             let outcome = (plain_outcome True None)
               \<lparr>oo_restored_from := Some (rr_restored_from result),
                oo_safety_backup := Some (rr_safety_backup result),
                oo_removed_target := Some (rr_removed_target result)\<rparr>
             in if rr_removed_target result then yield outcome
                else follow (read_if_present env target) (\<lambda>written.
                  case written of
                    None \<Rightarrow> yield outcome
                  | Some w \<Rightarrow>
                      follow (lift_outcome (decode_text w)) (\<lambda>t.
                        follow (lift_outcome (adapter_read_entry fa ml t)) (\<lambda>_. yield outcome)))))"

section \<open>Inspection\<close>

text \<open>
  \<open>_registry_size\<close>: a JSON object with a repeated name is a dictionary with the last of its
  values.
\<close>

definition other_count :: "utext \<Rightarrow> utext list \<Rightarrow> int" where
  "other_count key names =
     max 0 (int (length (remdups names)) - (if key \<in> set names then 1 else 0))"

definition registry_size :: "file_adapter \<Rightarrow> merge_lib \<Rightarrow> utext \<Rightarrow> int option" where
  "registry_size fa ml t =
     (let key = cs_entry_key (fa_spec fa)
      in if is_toml fa then
           (case tl_loads (ml_toml ml) t of
              None \<Rightarrow> None
            | Some doc \<Rightarrow> map_option (\<lambda>sv. other_count key (map fst sv)) (toml_servers doc))
         else
           (case loads (ml_rd ml) t of
              Some (JObj doc) \<Rightarrow>
                (case map_of (rev doc) SERVERS_KEY of
                   Some (JObj sv) \<Rightarrow> Some (other_count key (map fst sv))
                 | _ \<Rightarrow> None)
            | _ \<Rightarrow> None))"

definition unreadable_state :: "int \<Rightarrow> target_state" where
  "unreadable_state backups =
     \<lparr>ts_supported = True, ts_present = Some True, ts_installed = None, ts_entry_matches = None,
      ts_other_server_count = None, ts_backup_count = backups\<rparr>"

definition state_sync ::
  "client_env \<Rightarrow> file_adapter \<Rightarrow> merge_lib \<Rightarrow> entry_payload \<Rightarrow> target_state dir_call" where
  "state_sync env fa ml payload =
     follow (lift_outcome (adapter_target fa)) (\<lambda>resolved.
       case resolved of
         None \<Rightarrow> yield \<lparr>ts_supported = False, ts_present = None, ts_installed = None, ts_entry_matches = None,
                   ts_other_server_count = None, ts_backup_count = 0\<rparr>
       | Some target \<Rightarrow>
           follow (list_backups env target) (\<lambda>infos.
             let backups = int (length infos)
             in follow (read_if_present env target) (\<lambda>raw.
                  case raw of
                    None \<Rightarrow> yield \<lparr>ts_supported = True, ts_present = Some False, ts_installed = Some False,
                              ts_entry_matches = Some False, ts_other_server_count = Some 0,
                              ts_backup_count = backups\<rparr>
                  | Some r \<Rightarrow>
                      yield (case decode_text r of
                          Inl _ \<Rightarrow> unreadable_state backups
                        | Inr t \<Rightarrow>
                            (case adapter_read_entry fa ml t of
                               Inl _ \<Rightarrow> unreadable_state backups
                             | Inr entry \<Rightarrow>
                                 \<lparr>ts_supported = True, ts_present = Some True, ts_installed = Some (entry \<noteq> None),
                                  ts_entry_matches = Some (case entry of None \<Rightarrow> False | Some en \<Rightarrow> entry_expected en payload),
                                  ts_other_server_count = registry_size fa ml t, ts_backup_count = backups\<rparr>)))))"

definition file_backups :: "client_env \<Rightarrow> file_adapter \<Rightarrow> backup_info list dir_call" where
  "file_backups env fa =
     follow (lift_outcome (adapter_target fa)) (\<lambda>resolved.
       case resolved of None \<Rightarrow> yield [] | Some target \<Rightarrow> list_backups env target)"

text \<open>\<open>render_json_fragment\<close>, and the text a user can copy.\<close>

definition render_json_fragment :: "utext \<Rightarrow> entry_payload \<Rightarrow> nat option \<Rightarrow> utext" where
  "render_json_fragment key payload indent =
     dumps (\<lambda>_. []) indent (JObj [(SERVERS_KEY, JObj [(key, JObj (payload_entry payload))])]) @ [10]"

definition file_copyable_text :: "file_adapter \<Rightarrow> entry_payload \<Rightarrow> utext" where
  "file_copyable_text fa payload =
     (if is_toml fa then render_toml_entry (cs_entry_key (fa_spec fa)) payload
      else render_json_fragment (cs_entry_key (fa_spec fa)) payload (fa_json_indent fa))"

end
