(* ===== verification/ClientService.thy ===== *)
theory ClientService
  imports ClientFiles
begin

text \<open>
  The service behind \<open>/api/mcp-clients\<close> (\<open>application/client_config/service.py\<close>) with the
  adapter of the \<open>claude\<close> command line (\<open>adapters/claude_code.py\<close>) and of the manual tier
  (\<open>adapters/deepseek.py\<close>). The command line, the handshake with the installed entry and the
  probe of the engine act on a world of type \<open>'w\<close> and are arguments; so are \<open>str.lower\<close> and
  \<open>list2cmdline\<close>. The texts shown to the user are not modelled.
\<close>

section \<open>The world and the service\<close>

datatype handshake_state = Verified | Unverified | Failed

datatype cli_reply =
    CliUnavailable
  | CliRaised exn
  | CliDone "int option" utext utext

datatype verify_reply =
    Handshake bool string
  | VerifyTimeout
  | VerifyRaised

type_synonym client_verdict = "handshake_state \<times> string option \<times> time"

record 'w service_env =
  se_payload :: entry_payload
  se_run :: "utext list \<Rightarrow> 'w \<Rightarrow> cli_reply \<times> 'w"
  se_verify :: "entry_payload \<Rightarrow> 'w \<Rightarrow> verify_reply \<times> 'w"
  se_probe :: "('w \<Rightarrow> (bool option) option \<times> 'w) option"
  se_now :: "'w \<Rightarrow> time"
  se_others :: "'w \<Rightarrow> (utext \<rightharpoonup> client_verdict) \<Rightarrow> (utext \<rightharpoonup> client_verdict)"
  se_dir :: "utext \<Rightarrow> client_env"
  se_merge :: merge_lib
  se_home :: utext
  se_appdata :: "utext option"
  se_lower :: "utext \<Rightarrow> utext"
  se_list2cmdline :: "utext list \<Rightarrow> utext"

text \<open>
  The directories of the clients, the cache of verdicts and the clients whose lock is held.
  \<open>se_others\<close> is what other requests do to the cache while this one awaits something.
\<close>

record 'w service =
  sv_world :: 'w
  sv_dirs :: "utext \<Rightarrow> client_dir"
  sv_verdicts :: "utext \<rightharpoonup> client_verdict"
  sv_locked :: "utext list"

type_synonym ('w, 'a) svc = "'w service \<Rightarrow> 'a outcome \<times> 'w service"

definition pause :: "'w service_env \<Rightarrow> 'w service \<Rightarrow> 'w service" where
  "pause env s = s\<lparr>sv_verdicts := se_others env (sv_world s) (sv_verdicts s)\<rparr>"

definition on_dir :: "'w service_env \<Rightarrow> utext \<Rightarrow> (client_env \<Rightarrow> 'a dir_call) \<Rightarrow> ('w, 'a) svc" where
  "on_dir env cid f s =
     (case f (se_dir env cid) (sv_dirs s cid) of
        (r, d) \<Rightarrow> (r, s\<lparr>sv_dirs := (sv_dirs s)(cid := d)\<rparr>))"

section \<open>The entry\<close>

text \<open>\<open>default_payload\<close>, with \<open>sys.frozen\<close> and \<open>sys.executable\<close>.\<close>

definition default_payload :: "bool \<Rightarrow> utext \<Rightarrow> int \<Rightarrow> entry_payload" where
  "default_payload frozen executable engine_port =
     \<lparr>ep_command = executable,
      ep_args = (if frozen then [codes ''bridge''] else [codes ''-m'', codes ''evoblue_video_mcp.mcp'']),
      ep_env = (if engine_port \<noteq> 8765 then [(codes ''EVOBLUE_ENGINE_PORT'', int_text engine_port)] else [])\<rparr>"

section \<open>The command line\<close>

text \<open>
  \<open>_parse_get_output\<close>. A line is stripped as soon as it is cut, so it does not matter that
  the ends of lines are still on it.
\<close>

definition after_colon :: "utext \<Rightarrow> utext" where
  "after_colon line = strip (drop 1 (dropWhile (\<lambda>c. c \<noteq> 58) line))"

type_synonym cli_fields = "utext option \<times> utext list option \<times> bool option"

definition get_line :: "(utext \<Rightarrow> utext) \<Rightarrow> utext \<Rightarrow> cli_fields \<Rightarrow> cli_fields" where
  "get_line lower raw_line = (\<lambda>(command, args, scope).
     (let line = strip raw_line; lowered = lower line
      in if begins (codes ''command:'') lowered then (Some (after_colon line), args, scope)
         else if begins (codes ''args:'') lowered then (command, Some (split_words (after_colon line)), scope)
         else if begins (codes ''scope:'') lowered then (command, args, Some (find_at (codes ''local'') lowered 0 \<noteq> None))
         else (command, args, scope)))"

definition parse_get_output :: "(utext \<Rightarrow> utext) \<Rightarrow> utext \<Rightarrow> (utext \<times> utext list option \<times> bool option) option" where
  "parse_get_output lower stdout =
     (case fold (get_line lower) (keep_lines [] stdout) (None, None, None) of
        (None, _) \<Rightarrow> None
      | (Some command, args, scope) \<Rightarrow> Some (command, args, scope))"

definition env_args :: "entry_payload \<Rightarrow> utext list" where
  "env_args p = concat (map (\<lambda>(k, v). [codes ''-e'', k @ [61] @ v]) (ep_env p))"

definition add_args :: "client_spec \<Rightarrow> entry_payload \<Rightarrow> utext list" where
  "add_args spec p =
     [codes ''mcp'', codes ''add'', cs_entry_key spec, codes ''--scope'', codes ''local''] @ env_args p @
     [codes ''--'', ep_command p] @ ep_args p"

definition run_cli :: "'w service_env \<Rightarrow> utext list \<Rightarrow> ('w, cli_reply) svc" where
  "run_cli env args s =
     (case se_run env args (sv_world s) of
        (CliRaised e, w) \<Rightarrow> (Inl e, s\<lparr>sv_world := w\<rparr>)
      | (reply, w) \<Rightarrow> (Inr reply, s\<lparr>sv_world := w\<rparr>))"

definition cli_outcome :: "string option \<Rightarrow> bool option \<Rightarrow> bool option \<Rightarrow> operation_outcome" where
  "cli_outcome reason installed matches =
     (plain_outcome False reason)\<lparr>oo_installed := installed, oo_entry_matches := matches\<rparr>"

definition cli_evidence :: "(utext \<Rightarrow> utext) \<Rightarrow> entry_payload \<Rightarrow> utext \<Rightarrow> operation_outcome" where
  "cli_evidence lower payload stdout =
     (case parse_get_output lower stdout of
        None \<Rightarrow> cli_outcome (Some ''cli_output_unparsable'') (Some True) None
      | Some (command, args, scope) \<Rightarrow>
          if ep_env payload \<noteq> [] then cli_outcome (Some ''cli_env_unverifiable'') (Some True) None
          else if scope = Some True \<and> lower command = lower (ep_command payload) \<and> args = Some (ep_args payload)
          then cli_outcome None (Some True) (Some True)
          else if args \<noteq> None then cli_outcome (Some ''entry_mismatch'') (Some True) (Some False)
          else cli_outcome (Some ''cli_output_unparsable'') (Some True) None)"

definition cli_verify :: "'w service_env \<Rightarrow> client_spec \<Rightarrow> ('w, operation_outcome) svc" where
  "cli_verify env spec =
     follow (run_cli env [codes ''mcp'', codes ''get'', cs_entry_key spec]) (\<lambda>reply.
       case reply of
         CliDone rc stdout stderr \<Rightarrow>
           if rc \<noteq> Some 0 then yield (cli_outcome (Some ''not_installed'') (Some False) None)
           else yield (cli_evidence (se_lower env) (se_payload env) stdout)
       | _ \<Rightarrow> yield (cli_outcome (Some ''claude_cli_not_found'') None None))"

definition cli_install :: "'w service_env \<Rightarrow> client_spec \<Rightarrow> ('w, operation_outcome) svc" where
  "cli_install env spec =
     follow (run_cli env (add_args spec (se_payload env))) (\<lambda>reply.
       case reply of
         CliDone rc stdout stderr \<Rightarrow>
           if rc \<noteq> Some 0 then yield (cli_outcome (Some ''cli_add_failed'') None None)
           else follow (cli_verify env spec) (\<lambda>confirmed.
             yield ((plain_outcome True (oo_reason confirmed))
               \<lparr>oo_installed := oo_installed confirmed, oo_entry_matches := oo_entry_matches confirmed\<rparr>))
       | _ \<Rightarrow> yield (cli_outcome (Some ''claude_cli_not_found'') None None))"

definition cli_remove :: "'w service_env \<Rightarrow> client_spec \<Rightarrow> ('w, operation_outcome) svc" where
  "cli_remove env spec =
     follow (run_cli env [codes ''mcp'', codes ''remove'', cs_entry_key spec, codes ''--scope'', codes ''local'']) (\<lambda>reply.
       case reply of
         CliDone rc stdout stderr \<Rightarrow>
           if rc = Some 0 then
             yield ((plain_outcome True None)\<lparr>oo_installed := Some False, oo_removed_target := Some True\<rparr>)
           else
             (let lowered = se_lower env (stdout @ stderr)
              in if find_at (codes ''not found'') lowered 0 \<noteq> None \<or> find_at (codes ''no entry'') lowered 0 \<noteq> None
                 then yield (cli_outcome (Some ''not_installed'') (Some False) None)
                 else yield (cli_outcome (Some ''cli_remove_failed'') None None))
       | _ \<Rightarrow> yield (cli_outcome (Some ''claude_cli_not_found'') None None))"

definition cli_copyable_text :: "'w service_env \<Rightarrow> client_spec \<Rightarrow> utext" where
  "cli_copyable_text env spec =
     (let p = se_payload env
      in codes ''claude '' @
         join [32] ([codes ''mcp'', codes ''add'', cs_entry_key spec, codes ''--scope'', codes ''local''] @
           env_args p @ [codes ''--'']) @ [32] @
         se_list2cmdline env (ep_command p # ep_args p))"

section \<open>The adapter of a client\<close>

definition file_adapter_of :: "'w service_env \<Rightarrow> client_spec \<Rightarrow> file_adapter" where
  "file_adapter_of env spec =
     \<lparr>fa_spec = spec, fa_json_indent = (if cs_client_id spec \<noteq> codes ''claude_desktop'' then Some 2 else None),
      fa_home = se_home env, fa_appdata = se_appdata env\<rparr>"

definition manual_outcome :: operation_outcome where
  "manual_outcome = plain_outcome False (Some ''manual_tier'')"

text \<open>Each awaits, so other requests run before the caller goes on.\<close>

definition awaited :: "'w service_env \<Rightarrow> ('w, 'a) svc \<Rightarrow> ('w, 'a) svc" where
  "awaited env m s = (case m s of (r, s') \<Rightarrow> (r, pause env s'))"

definition adapter_install :: "'w service_env \<Rightarrow> client_spec \<Rightarrow> bool \<Rightarrow> ('w, operation_outcome) svc" where
  "adapter_install env spec force = awaited env
     (case cs_tier spec of
        FileAuto \<Rightarrow> on_dir env (cs_client_id spec)
          (\<lambda>ce. install_sync ce (file_adapter_of env spec) (se_merge env) (se_payload env) force)
      | Cli \<Rightarrow> cli_install env spec
      | Manual \<Rightarrow> yield manual_outcome)"

definition adapter_verify :: "'w service_env \<Rightarrow> client_spec \<Rightarrow> ('w, operation_outcome) svc" where
  "adapter_verify env spec = awaited env
     (case cs_tier spec of
        FileAuto \<Rightarrow> on_dir env (cs_client_id spec)
          (\<lambda>ce. file_verify ce (file_adapter_of env spec) (se_merge env) (se_payload env))
      | Cli \<Rightarrow> cli_verify env spec
      | Manual \<Rightarrow> yield manual_outcome)"

definition adapter_uninstall :: "'w service_env \<Rightarrow> client_spec \<Rightarrow> ('w, operation_outcome) svc" where
  "adapter_uninstall env spec = awaited env
     (case cs_tier spec of
        FileAuto \<Rightarrow> on_dir env (cs_client_id spec) (\<lambda>ce. remove_sync ce (file_adapter_of env spec) (se_merge env))
      | Cli \<Rightarrow> cli_remove env spec
      | Manual \<Rightarrow> yield manual_outcome)"

definition adapter_restore :: "'w service_env \<Rightarrow> client_spec \<Rightarrow> utext \<Rightarrow> ('w, operation_outcome) svc" where
  "adapter_restore env spec name = awaited env
     (case cs_tier spec of
        FileAuto \<Rightarrow> on_dir env (cs_client_id spec)
          (\<lambda>ce. restore_sync ce (file_adapter_of env spec) (se_merge env) name)
      | Cli \<Rightarrow> cli_install env spec
      | Manual \<Rightarrow> yield manual_outcome)"

definition adapter_state :: "'w service_env \<Rightarrow> client_spec \<Rightarrow> ('w, target_state) svc" where
  "adapter_state env spec = awaited env
     (case cs_tier spec of
        FileAuto \<Rightarrow> on_dir env (cs_client_id spec)
          (\<lambda>ce. state_sync ce (file_adapter_of env spec) (se_merge env) (se_payload env))
      | Cli \<Rightarrow> follow (cli_verify env spec) (\<lambda>outcome.
          yield \<lparr>ts_supported = True, ts_present = oo_installed outcome, ts_installed = oo_installed outcome,
            ts_entry_matches = oo_entry_matches outcome, ts_other_server_count = None, ts_backup_count = 0\<rparr>)
      | Manual \<Rightarrow> yield \<lparr>ts_supported = True, ts_present = None, ts_installed = None, ts_entry_matches = None,
          ts_other_server_count = None, ts_backup_count = 0\<rparr>)"

definition adapter_backups :: "'w service_env \<Rightarrow> client_spec \<Rightarrow> ('w, backup_info list) svc" where
  "adapter_backups env spec = awaited env
     (case cs_tier spec of
        FileAuto \<Rightarrow> on_dir env (cs_client_id spec) (\<lambda>ce. file_backups ce (file_adapter_of env spec))
      | _ \<Rightarrow> yield [])"

definition adapter_copyable_text :: "'w service_env \<Rightarrow> client_spec \<Rightarrow> utext" where
  "adapter_copyable_text env spec =
     (case cs_tier spec of
        FileAuto \<Rightarrow> file_copyable_text (file_adapter_of env spec) (se_payload env)
      | Cli \<Rightarrow> cli_copyable_text env spec
      | Manual \<Rightarrow> render_json_fragment (cs_entry_key spec) (se_payload env) (Some 2))"

section \<open>Verdicts\<close>

definition spec_of :: "utext \<Rightarrow> client_spec outcome" where
  "spec_of cid =
     (case List.find (\<lambda>spec. cs_client_id spec = cid) CLIENT_SPECS of
        None \<Rightarrow> Inl (OtherException ''ClientUnknownError'')
      | Some spec \<Rightarrow> Inr spec)"

definition verdict_of :: "verify_reply \<Rightarrow> handshake_state \<times> string option" where
  "verdict_of reply =
     (case reply of
        VerifyTimeout \<Rightarrow> (Failed, Some ''timeout'')
      | VerifyRaised \<Rightarrow> (Unverified, Some ''verify_error'')
      | Handshake ok err \<Rightarrow> if ok then (Verified, None) else (Failed, Some err))"

definition run_handshake :: "'w service_env \<Rightarrow> utext \<Rightarrow> ('w, handshake_state \<times> string option) svc" where
  "run_handshake env cid s =
     (case se_verify env (se_payload env) (sv_world s) of
        (reply, w) \<Rightarrow>
          (let s' = pause env (s\<lparr>sv_world := w\<rparr>); v = verdict_of reply
           in (Inr v, s'\<lparr>sv_verdicts := (sv_verdicts s')(cid \<mapsto> (fst v, snd v, se_now env (sv_world s')))\<rparr>)))"

definition cached_verdict :: "'w service \<Rightarrow> utext \<Rightarrow> handshake_state \<times> string option \<times> time option" where
  "cached_verdict s cid =
     (case sv_verdicts s cid of
        None \<Rightarrow> (Unverified, None, None)
      | Some (st, reason, t) \<Rightarrow> (st, reason, Some t))"

definition forget_verdict :: "utext \<Rightarrow> ('w, unit) svc" where
  "forget_verdict cid s = (Inr (), s\<lparr>sv_verdicts := (sv_verdicts s)(cid := None)\<rparr>)"

definition reconciled_verdict :: "utext \<Rightarrow> target_state \<Rightarrow> ('w, handshake_state \<times> string option \<times> time option) svc" where
  "reconciled_verdict cid state s =
     (case sv_verdicts s cid of
        Some (Verified, _, _) \<Rightarrow>
          if ts_entry_matches state \<noteq> Some True
          then follow (forget_verdict cid) (\<lambda>_. yield (Unverified, Some ''config_changed'', None)) s
          else (Inr (cached_verdict s cid), s)
      | _ \<Rightarrow> (Inr (cached_verdict s cid), s))"

definition engine_online :: "'w service_env \<Rightarrow> ('w, bool option) svc" where
  "engine_online env s =
     (case se_probe env of
        None \<Rightarrow> (Inr None, s)
      | Some probe \<Rightarrow>
          (case probe (sv_world s) of
             (reply, w) \<Rightarrow> (Inr (case reply of None \<Rightarrow> Some False | Some b \<Rightarrow> b), pause env (s\<lparr>sv_world := w\<rparr>))))"

section \<open>Results\<close>

record copyable_config =
  cc_client_id :: utext
  cc_format :: container
  cc_config_text :: utext
  cc_target_path :: "utext option"

record client_status =
  st_client_id :: utext
  st_display_name :: utext
  st_tier :: tier
  st_target_present :: "bool option"
  st_installed :: "bool option"
  st_entry_matches :: "bool option"
  st_config_supported :: bool
  st_handshake :: handshake_state
  st_handshake_reason :: "string option"
  st_handshake_checked_at :: "time option"
  st_engine_online :: "bool option"
  st_other_server_count :: "int option"
  st_backup_count :: int
  st_notes :: "utext list"

record operation_result =
  or_client_id :: utext
  or_operation :: string
  or_performed :: bool
  or_installed :: "bool option"
  or_entry_matches :: "bool option"
  or_handshake :: handshake_state
  or_handshake_reason :: "string option"
  or_handshake_checked_at :: "time option"
  or_backup_name :: "utext option"
  or_restored_from :: "utext option"
  or_safety_backup :: "utext option"
  or_removed_target :: "bool option"
  or_copyable :: "copyable_config option"

definition copyable_of :: "'w service_env \<Rightarrow> client_spec \<Rightarrow> copyable_config" where
  "copyable_of env spec =
     \<lparr>cc_client_id = cs_client_id spec, cc_format = cs_container spec,
      cc_config_text = adapter_copyable_text env spec, cc_target_path = cs_write_target spec\<rparr>"

text \<open>
  \<open>_operation_result\<close>; the fields a caller does not pass stay at their defaults.
\<close>

definition operation_result_of ::
  "'w service_env \<Rightarrow> client_spec \<Rightarrow> string \<Rightarrow> operation_outcome \<Rightarrow> handshake_state \<times> string option \<Rightarrow> bool \<Rightarrow>
   'w service \<Rightarrow> operation_result" where
  "operation_result_of env spec operation outcome verdict include_copyable s =
     (case cached_verdict s (cs_client_id spec) of
        (state, reason, checked_at) \<Rightarrow>
          \<lparr>or_client_id = cs_client_id spec, or_operation = operation, or_performed = oo_performed outcome,
           or_installed = oo_installed outcome, or_entry_matches = oo_entry_matches outcome,
           or_handshake = state,
           or_handshake_reason =
             (if fst verdict = Unverified \<and> snd verdict \<noteq> None \<and> state = Unverified then snd verdict else reason),
           or_handshake_checked_at = checked_at, or_backup_name = None, or_restored_from = None,
           or_safety_backup = None, or_removed_target = None,
           or_copyable = (if include_copyable then Some (copyable_of env spec) else None)\<rparr>)"

definition status_of ::
  "client_spec \<Rightarrow> target_state \<Rightarrow> handshake_state \<times> string option \<times> time option \<Rightarrow> bool option \<Rightarrow> client_status" where
  "status_of spec state handshake online =
     (case handshake of (hs, reason, checked_at) \<Rightarrow>
        \<lparr>st_client_id = cs_client_id spec, st_display_name = cs_display_name spec, st_tier = cs_tier spec,
         st_target_present = ts_present state, st_installed = ts_installed state,
         st_entry_matches = ts_entry_matches state, st_config_supported = ts_supported state,
         st_handshake = hs, st_handshake_reason = reason, st_handshake_checked_at = checked_at,
         st_engine_online = online, st_other_server_count = ts_other_server_count state,
         st_backup_count = ts_backup_count state,
         st_notes = (if cs_note spec = [] then [] else [cs_note spec])\<rparr>)"

section \<open>Queries\<close>

definition service_status :: "'w service_env \<Rightarrow> utext \<Rightarrow> ('w, client_status) svc" where
  "service_status env cid =
     follow (lift_outcome (spec_of cid)) (\<lambda>spec.
       follow (adapter_state env spec) (\<lambda>state.
         follow (reconciled_verdict cid state) (\<lambda>handshake.
           follow (engine_online env) (\<lambda>online.
             yield (status_of spec state handshake online)))))"

fun statuses :: "'w service_env \<Rightarrow> bool option \<Rightarrow> client_spec list \<Rightarrow> ('w, client_status list) svc" where
  "statuses env online [] = yield []"
| "statuses env online (spec # specs) =
     follow (adapter_state env spec) (\<lambda>state.
       follow (reconciled_verdict (cs_client_id spec) state) (\<lambda>handshake.
         follow (statuses env online specs) (\<lambda>rest.
           yield (status_of spec state handshake online # rest))))"

definition list_status :: "'w service_env \<Rightarrow> ('w, client_status list) svc" where
  "list_status env = follow (engine_online env) (\<lambda>online. statuses env online CLIENT_SPECS)"

definition service_backups :: "'w service_env \<Rightarrow> utext \<Rightarrow> ('w, backup_info list) svc" where
  "service_backups env cid = follow (lift_outcome (spec_of cid)) (adapter_backups env)"

definition service_copyable :: "'w service_env \<Rightarrow> utext \<Rightarrow> ('w, copyable_config) svc" where
  "service_copyable env cid = lift_outcome (map_sum id (copyable_of env) (spec_of cid))"

section \<open>Mutations\<close>

text \<open>\<open>async with self._acquire_lock(client_id)\<close>: nobody waits for the lock.\<close>

definition with_lock :: "utext \<Rightarrow> ('w, 'a) svc \<Rightarrow> ('w, 'a) svc" where
  "with_lock cid m s =
     (if cid \<in> set (sv_locked s) then (Inl (OtherException ''OperationInProgressError''), s)
      else (case m (s\<lparr>sv_locked := cid # sv_locked s\<rparr>) of
              (r, s') \<Rightarrow> (r, s'\<lparr>sv_locked := removeAll cid (sv_locked s')\<rparr>)))"

definition automatic :: "client_spec \<Rightarrow> unit outcome" where
  "automatic spec =
     (if cs_tier spec = Manual then Inl (OtherException ''AutoInstallUnsupportedError'') else Inr ())"

definition confirmed :: "bool \<Rightarrow> unit outcome" where
  "confirmed confirm = (if confirm then Inr () else Inl (OtherException ''ConfirmationRequiredError''))"

definition service_install :: "'w service_env \<Rightarrow> utext \<Rightarrow> bool \<Rightarrow> ('w, operation_result) svc" where
  "service_install env cid force =
     follow (lift_outcome (spec_of cid)) (\<lambda>spec.
       follow (lift_outcome (automatic spec)) (\<lambda>_.
         follow (with_lock cid
           (follow (adapter_install env spec force) (\<lambda>outcome.
             follow (if oo_entry_matches outcome = Some True then run_handshake env cid
                     else follow (forget_verdict cid) (\<lambda>_. yield (Unverified, oo_reason outcome)))
               (\<lambda>verdict. yield (outcome, verdict))))) (\<lambda>(outcome, verdict) s.
           (Inr ((operation_result_of env spec ''install'' outcome verdict (\<not> oo_performed outcome) s)
              \<lparr>or_backup_name := oo_backup_name outcome\<rparr>), s))))"

definition service_verify :: "'w service_env \<Rightarrow> utext \<Rightarrow> ('w, operation_result) svc" where
  "service_verify env cid =
     follow (lift_outcome (spec_of cid)) (\<lambda>spec.
       follow (adapter_verify env spec) (\<lambda>outcome.
         let config_ok = oo_installed outcome = Some True \<and> oo_entry_matches outcome = Some True
         in follow (if \<not> config_ok then follow (forget_verdict cid) (\<lambda>_. yield (Unverified, oo_reason outcome))
                    else run_handshake env cid) (\<lambda>verdict s.
              (Inr (operation_result_of env spec ''verify'' outcome verdict (\<not> config_ok) s), s))))"

definition service_remove :: "'w service_env \<Rightarrow> utext \<Rightarrow> bool \<Rightarrow> ('w, operation_result) svc" where
  "service_remove env cid confirm =
     follow (lift_outcome (spec_of cid)) (\<lambda>spec.
       follow (lift_outcome (confirmed confirm)) (\<lambda>_.
         follow (lift_outcome (automatic spec)) (\<lambda>_.
           follow (with_lock cid
             (follow (adapter_uninstall env spec) (\<lambda>outcome.
               follow (forget_verdict cid) (\<lambda>_. yield outcome)))) (\<lambda>outcome s.
             (Inr ((operation_result_of env spec ''remove'' outcome
                   (Unverified, case oo_reason outcome of None \<Rightarrow> Some ''not_installed'' | r \<Rightarrow> r) True s)
                \<lparr>or_removed_target := oo_removed_target outcome, or_backup_name := oo_backup_name outcome\<rparr>), s)))))"

definition service_restore :: "'w service_env \<Rightarrow> utext \<Rightarrow> utext \<Rightarrow> bool \<Rightarrow> ('w, operation_result) svc" where
  "service_restore env cid name confirm =
     follow (lift_outcome (spec_of cid)) (\<lambda>spec.
       follow (lift_outcome (confirmed confirm)) (\<lambda>_.
         follow (lift_outcome (automatic spec)) (\<lambda>_.
           follow (with_lock cid
             (follow (adapter_restore env spec name) (\<lambda>outcome.
               follow (forget_verdict cid) (\<lambda>_. yield outcome)))) (\<lambda>outcome s.
             (Inr ((operation_result_of env spec ''restore'' outcome (Unverified, Some ''restored_run_verify'') False s)
                \<lparr>or_restored_from := oo_restored_from outcome, or_safety_backup := oo_safety_backup outcome\<rparr>), s)))))"

end
