(* ===== verification/ClientTheorems.thy ===== *)
theory ClientTheorems
  imports BackupTheorems TomlTheorems ClientService
begin

text \<open>
  What an installation leaves of a client's configuration file, whichever accesses fail, and
  when the service may report a client as verified.
\<close>

section \<open>Installing\<close>

text \<open>As \<open>triple\<close>, with the exception known.\<close>

definition etriple ::
  "(client_dir \<Rightarrow> bool) \<Rightarrow> 'a dir_call \<Rightarrow> ('a \<Rightarrow> client_dir \<Rightarrow> bool) \<Rightarrow> (exn \<Rightarrow> client_dir \<Rightarrow> bool) \<Rightarrow> bool" where
  "etriple Q m R E \<longleftrightarrow> (\<forall>d. Q d \<longrightarrow> (case m d of (Inl e, d') \<Rightarrow> E e d' | (Inr x, d') \<Rightarrow> R x d'))"

lemma etripleD:
  assumes "etriple Q m R E" "Q d"
  shows "m d = (Inr x, d') \<Longrightarrow> R x d'" "m d = (Inl e, d') \<Longrightarrow> E e d'"
  using assms by (auto simp: etriple_def split: prod.splits)

lemma etriple_follow:
  assumes "etriple Q m R1 E" "\<And>x. etriple (R1 x) (f x) R E"
  shows "etriple Q (follow m f) R E"
  unfolding etriple_def
proof (intro allI impI)
  fix d assume "Q d"
  obtain r1 d1 where m: "m d = (r1, d1)" by fastforce
  show "case follow m f d of (Inl e, d') \<Rightarrow> E e d' | (Inr x, d') \<Rightarrow> R x d'"
  proof (cases r1)
    case (Inl e)
    then show ?thesis using m etripleD(2) [OF assms(1) \<open>Q d\<close>] by (simp add: follow_def)
  next
    case (Inr x)
    then have "R1 x d1" using m etripleD(1) [OF assms(1) \<open>Q d\<close>] by simp
    with assms(2) [of x] show ?thesis using m Inr by (simp add: follow_def etriple_def)
  qed
qed

lemma etriple_triple: "triple Q m R E \<Longrightarrow> (\<And>e d. E d \<Longrightarrow> E' e d) \<Longrightarrow> etriple Q m R E'"
  unfolding triple_def etriple_def by (fastforce split: prod.splits sum.splits)

lemma etriple_yield: "(\<And>d. Q d \<Longrightarrow> R x d) \<Longrightarrow> etriple Q (yield x) R E"
  by (simp add: etriple_def yield_def)

lemma etriple_lift: "(\<And>e d. Q d \<Longrightarrow> E e d) \<Longrightarrow> etriple Q (lift_outcome r) (\<lambda>x d. Q d \<and> r = Inr x) E"
  by (auto simp: etriple_def lift_outcome_def split: sum.splits)

lemma etriple_if: "(c \<Longrightarrow> etriple Q f R E) \<Longrightarrow> (\<not> c \<Longrightarrow> etriple Q g R E) \<Longrightarrow> etriple Q (if c then f else g) R E"
  by simp

section \<open>Exceptions of a restore\<close>

definition never :: "exn \<Rightarrow> 'a dir_call \<Rightarrow> bool" where
  "never x m \<longleftrightarrow> (\<forall>d d'. m d \<noteq> (Inl x, d'))"

lemma never_follow: "never x m \<Longrightarrow> (\<And>y. never x (f y)) \<Longrightarrow> never x (follow m f)"
  unfolding never_def follow_def by (auto split: prod.splits sum.splits)

lemma never_pure: "never x (yield y)" "x \<noteq> e \<Longrightarrow> never x (raise e)"
  by (auto simp: never_def yield_def raise_def)

lemma never_if: "never x f \<Longrightarrow> never x g \<Longrightarrow> never x (\<lambda>d. if c then f d else g d)"
  by (cases c) simp_all

lemma never_access:
  "never (ConfigWriteError m) f \<Longrightarrow> never (ConfigWriteError m) (access env f)"
  unfolding never_def access_def by (auto split: option.splits)

lemma never_accesses:
  "never (ConfigWriteError m) (is_dir env)" "never (ConfigWriteError m) (is_file env n)"
  "never (ConfigWriteError m) (read_file_bytes env n)" "never (ConfigWriteError m) (unlink env n)"
  "never (ConfigWriteError m) (replace env a b)"
  unfolding is_dir_def is_file_def read_file_bytes_def unlink_def replace_def
  by (rule never_access; auto simp: never_def missing_def split: option.splits)+

lemma never_write_new: "never (ConfigWriteError m) (write_new env n bs)"
  by (auto simp: never_def write_new_def missing_def Let_def split: option.splits)

lemma never_case:
  assumes "\<And>e. x \<noteq> e \<Longrightarrow> never x (h e)" "\<And>y. never x (g y)" "never x m"
  shows "never x (\<lambda>d. case m d of (Inl e, d') \<Rightarrow> h e d' | (Inr y, d') \<Rightarrow> g y d')"
  unfolding never_def
proof (intro allI)
  fix d d'
  obtain r d1 where m: "m d = (r, d1)" by fastforce
  show "(case m d of (Inl e, d') \<Rightarrow> h e d' | (Inr y, d') \<Rightarrow> g y d') \<noteq> (Inl x, d')"
  proof (cases r)
    case (Inl e)
    with m assms(3) have "x \<noteq> e" by (auto simp: never_def)
    from assms(1) [OF this] show ?thesis using m Inl by (simp add: never_def)
  next
    case (Inr y)
    with assms(2) [of y] show ?thesis using m by (simp add: never_def)
  qed
qed

lemma never_suppress: "never (ConfigWriteError m) f \<Longrightarrow> never (ConfigWriteError m) (suppress_os_error f)"
  unfolding never_def suppress_os_error_def by (auto split: prod.splits sum.splits exn.splits)

lemma never_read_if_present: "never (ConfigWriteError m) (read_if_present env n)"
  using never_accesses(3) [of m env n] unfolding never_def read_if_present_def
  by (auto split: prod.splits sum.splits if_splits)

definition write_messages :: "string list" where
  "write_messages = [''target directory does not exist; refusing to create it'',
     ''post-write read-back mismatch; the write did not stick'', ''target still present after removal'']"

lemma never_commit:
  assumes "m \<notin> set write_messages"
  shows "never (ConfigWriteError m) (commit_atomic env target payload)"
proof -
  have "never (ConfigWriteError m) (write_through env target payload tmp)" for tmp
    unfolding write_through_def discard_def
    using assms
    by (intro never_case never_follow never_write_new never_accesses never_suppress never_pure)
      (auto simp: write_messages_def never_pure)
  then have "never (ConfigWriteError m) (\<lambda>d. write_through env target payload (temporary_name env target d) d)"
    by (simp add: never_def)
  then show ?thesis
    unfolding commit_atomic_def using assms
    by (intro never_follow never_accesses never_if never_pure) (auto simp: write_messages_def)
qed

lemma never_prune: "never (ConfigWriteError m) (prune_backups env target)"
proof -
  have "never (ConfigWriteError m) (remove_files env ps)" for ps
    by (induction ps) (auto simp: remove_file_def intro!: never_pure never_follow never_suppress never_accesses)
  then show ?thesis
    unfolding prune_backups_def by (intro never_follow) (simp_all add: never_def backup_paths_def Let_def)
qed

lemma never_create:
  assumes "m \<notin> set write_messages"
  shows "never (ConfigWriteError m) (create_backup env target)"
proof -
  have "never (ConfigWriteError m) (store_backup env target found name moment)" for found name moment
    unfolding store_backup_def Let_def
    by (intro never_follow never_commit assms never_prune never_pure)
  then have "never (ConfigWriteError m) (\<lambda>d. store_backup env target found (backup_name env target d) (ce_now env (cd_step d)) d)"
    for found by (simp add: never_def)
  then show ?thesis unfolding create_backup_def by (intro never_follow never_read_if_present)
qed

lemma never_restore:
  assumes "m \<notin> set write_messages"
  shows "never (ConfigWriteError m) (restore env target name)"
proof -
  have "never (ConfigWriteError m) (remove_atomic env target)"
    unfolding remove_atomic_def using assms
    by (intro never_case never_follow never_accesses) (auto simp: write_messages_def intro: never_pure)
  moreover have "never (ConfigWriteError m) (resolve_backup env target name)"
    unfolding resolve_backup_def by (auto intro!: never_pure never_follow never_accesses)
  ultimately show ?thesis
    unfolding restore_def Let_def
    by (intro never_follow never_accesses never_create assms) (auto intro!: never_follow never_pure never_commit assms)
qed


section \<open>The guarded write\<close>

text \<open>What a successful commit and proof leave: the merged text, read back and proved.\<close>

definition proved_bytes ::
  "utext \<Rightarrow> nat list \<Rightarrow> (utext \<Rightarrow> unit outcome) \<Rightarrow> nat list option \<Rightarrow> bool" where
  "proved_bytes merged bom proof_of v \<longleftrightarrow>
     (\<exists>bs t. encode_text merged bom = Inr bs \<and> v = Some bs \<and> decode_text bs = Inr t \<and> proof_of t = Inr ())"

definition written_bytes :: "utext \<Rightarrow> nat list \<Rightarrow> nat list option \<Rightarrow> bool" where
  "written_bytes merged bom v \<longleftrightarrow> (\<exists>bs. encode_text merged bom = Inr bs \<and> v = Some bs)"

lemma triple_lift: "(\<And>d. Q d \<Longrightarrow> E d) \<Longrightarrow> triple Q (lift_outcome r) (\<lambda>x d. Q d \<and> r = Inr x) E"
  by (auto simp: triple_def lift_outcome_def split: sum.splits)

lemma triple_commit_and_prove:
  assumes "quiet_dir env"
  shows "triple (\<lambda>d. lookup d target = w) (commit_and_prove env target merged bom proof_of)
    (\<lambda>_ d. proved_bytes merged bom proof_of (lookup d target))
    (\<lambda>d. lookup d target = w \<or> written_bytes merged bom (lookup d target))"
  unfolding commit_and_prove_def
proof (rule triple_follow [OF triple_lift])
  fix bs
  let ?E = "\<lambda>d. lookup d target = w \<or> written_bytes merged bom (lookup d target)"
  show "triple (\<lambda>d. lookup d target = w \<and> encode_text merged bom = Inr bs)
      (follow (commit_atomic env target bs) (\<lambda>_. follow (read_if_present env target) (\<lambda>written.
        follow (lift_outcome (case written of None \<Rightarrow> Inr [] | Some w \<Rightarrow> decode_text w)) (\<lambda>t.
          lift_outcome (proof_of t)))))
      (\<lambda>_ d. proved_bytes merged bom proof_of (lookup d target)) ?E"
  proof (cases "encode_text merged bom = Inr bs")
    case True
    then have written: "written_bytes merged bom (Some bs)" by (simp add: written_bytes_def)
    show ?thesis
    proof (rule triple_follow)
      show "triple (\<lambda>d. lookup d target = w \<and> encode_text merged bom = Inr bs) (commit_atomic env target bs)
          (\<lambda>_ d. lookup d target = Some bs) ?E"
        by (rule triple_mono [OF triple_commit [OF assms, where before = w]]) (use written in auto)
      show "triple (\<lambda>d. lookup d target = Some bs) (follow (read_if_present env target) (\<lambda>written.
          follow (lift_outcome (case written of None \<Rightarrow> Inr [] | Some w \<Rightarrow> decode_text w)) (\<lambda>t.
            lift_outcome (proof_of t)))) (\<lambda>_ d. proved_bytes merged bom proof_of (lookup d target)) ?E"
        for x :: write_result
      proof (rule triple_follow)
        show "triple (\<lambda>d. lookup d target = Some bs) (read_if_present env target)
            (\<lambda>found d. lookup d target = Some bs \<and> found = Some bs) ?E"
          using read_if_presentD [OF assms] triple_touches [OF touches_read_if_present [OF assms, of "\<lambda>_. False" target],
              where n = target and F = "\<lambda>c. c = Some bs"] written
          by (fastforce simp: triple_def split: prod.splits sum.splits)
        show "triple (\<lambda>d. lookup d target = Some bs \<and> found = Some bs)
            (follow (lift_outcome (case found of None \<Rightarrow> Inr [] | Some w \<Rightarrow> decode_text w)) (\<lambda>t.
              lift_outcome (proof_of t))) (\<lambda>_ d. proved_bytes merged bom proof_of (lookup d target)) ?E" for found
          using True written
          by (auto simp: triple_def follow_def lift_outcome_def proved_bytes_def split: sum.splits)
      qed
    qed
  qed (simp add: triple_def)
qed simp

lemma touches_commit_and_prove:
  assumes "quiet_dir env"
  shows "touches (\<lambda>n. n = target \<or> temporary_of target n) (commit_and_prove env target merged bom proof_of)"
  unfolding commit_and_prove_def lift_outcome_def
  by (intro touches_follow touches_pure touches_commit touches_read_if_present assms)

lemma guarded_write_ends:
  assumes "quiet_dir env" "w \<noteq> Some sentinel_payload" "message \<notin> set write_messages"
  shows "etriple (\<lambda>d. lookup d target = w) (guarded_write env target merged bom proof_of message)
    (\<lambda>_ d. proved_bytes merged bom proof_of (lookup d target))
    (\<lambda>e d. (e = ConfigWriteError message \<longrightarrow> lookup d target = w) \<and>
       (lookup d target = w \<or> written_bytes merged bom (lookup d target)))"
  unfolding etriple_def
proof (intro allI impI)
  fix d assume w: "lookup d target = w"
  let ?E = "\<lambda>e d. (e = ConfigWriteError message \<longrightarrow> lookup d target = w) \<and>
    (lookup d target = w \<or> written_bytes merged bom (lookup d target))"
  let ?goal = "\<lambda>out. case out of (Inl e, d') \<Rightarrow> ?E e d' | (Inr x, d') \<Rightarrow> proved_bytes merged bom proof_of (lookup d' target)"
  obtain r1 d1 where c: "create_backup env target d = (r1, d1)" by fastforce
  have w1: "lookup d1 target = w" using shelf.create_val [OF assms(1) c] w by simp
  show "?goal (guarded_write env target merged bom proof_of message d)"
  proof (cases r1)
    case (Inl e)
    then show ?thesis using c w1 by (simp add: guarded_write_def follow_def)
  next
    case (Inr backup)
    obtain r2 d2 where p: "commit_and_prove env target merged bom proof_of d1 = (r2, d2)" by fastforce
    note spec = tripleD [OF triple_commit_and_prove [OF assms(1), of target w merged bom proof_of] w1]
    show ?thesis
    proof (cases r2)
      case (Inr u)
      then show ?thesis using c \<open>r1 = _\<close> p spec(1) by (simp add: guarded_write_def follow_def)
    next
      case (Inl e)
      have failed: "lookup d2 target = w \<or> written_bytes merged bom (lookup d2 target)" using spec(2) p Inl by simp
      have kept: "at_most (saved_bytes v) (bi_name backup) d2 \<and> shelf_of target (bi_name backup)"
        if "at_most (saved_bytes v) (bi_name backup) d1 \<and> shelf_of target (bi_name backup)" for v
      proof -
        have "\<not> (bi_name backup = target \<or> temporary_of target (bi_name backup))"
          using that target_not_on_shelf shelf_not_temporary by metis
        then have "lookup d2 (bi_name backup) = lookup d1 (bi_name backup)"
          by (rule touchesD(2) [OF touches_commit_and_prove [OF assms(1)] p])
        with that show ?thesis by (simp add: at_most_def)
      qed
      obtain r3 d3 where r: "restore env target (bi_name backup) d2 = (r3, d3)" by fastforce
      have "lookup d target \<noteq> Some sentinel_payload" using assms(2) w by simp
      from shelf.undone [OF assms(1) this c [unfolded \<open>r1 = _\<close>] kept r]
      have "case r3 of Inr _ \<Rightarrow> lookup d3 target = w | Inl _ \<Rightarrow> lookup d3 target = lookup d2 target \<or> lookup d3 target = w"
        using w by (cases r3) simp_all
      moreover have "r3 \<noteq> Inl (ConfigWriteError message)"
        using never_restore [OF assms(3)] r by (auto simp: never_def)
      ultimately show ?thesis
        using c \<open>r1 = _\<close> p Inl r failed
        by (cases r3) (auto simp: guarded_write_def follow_def raise_def)
    qed
  qed
qed


section \<open>An installation\<close>

lemma follow_known: "follow (lift_outcome (Inr x)) f = f x"
  by (simp add: fun_eq_iff follow_def lift_outcome_def)

definition rolled_back :: exn where
  "rolled_back = ConfigWriteError ''post-write verification failed; rolled back''"

text \<open>How an installation that found the content \<open>w\<close> may leave the content \<open>v\<close>.\<close>

definition installed_from ::
  "file_adapter \<Rightarrow> merge_lib \<Rightarrow> entry_payload \<Rightarrow> bool \<Rightarrow> nat list option \<Rightarrow>
   (nat list \<Rightarrow> utext \<Rightarrow> utext \<Rightarrow> bool) \<Rightarrow> bool" where
  "installed_from fa ml payload force w P \<longleftrightarrow>
     (\<exists>bom original merged. original_document fa w = Inr (bom, original) \<and>
        adapter_merge fa ml original payload force = Inr (merged, True) \<and> P bom original merged)"

lemma install_document_ends:
  assumes "quiet_dir env" "w \<noteq> Some sentinel_payload" "original_document fa w = Inr (bom, original)"
  shows "etriple (\<lambda>d. lookup d target = w) (install_document env fa ml target payload force (bom, original))
    (\<lambda>outcome d. if oo_performed outcome
      then installed_from fa ml payload force w (\<lambda>bom original merged.
        proved_bytes merged bom (\<lambda>t. post_merge_proof fa ml original t payload) (lookup d target))
      else lookup d target = w)
    (\<lambda>e d. (e = rolled_back \<longrightarrow> lookup d target = w) \<and>
      (lookup d target = w \<or>
       installed_from fa ml payload force w (\<lambda>bom original merged. written_bytes merged bom (lookup d target))))"
    (is "etriple ?Q _ ?R ?E")
  unfolding install_document_def prod.case
proof (rule etriple_follow)
  let ?merge = "adapter_merge fa ml original payload force"
  show "etriple ?Q (lift_outcome ?merge) (\<lambda>x d. ?Q d \<and> ?merge = Inr x) ?E"
    by (rule etriple_lift) simp
  fix x :: "utext \<times> bool"
  obtain merged changed where x: "x = (merged, changed)" by fastforce
  let ?guarded = "guarded_write env target merged bom (\<lambda>t. post_merge_proof fa ml original t payload)
    ''post-write verification failed; rolled back''"
  have guarded: "etriple ?Q ?guarded
      (\<lambda>_ d. proved_bytes merged bom (\<lambda>t. post_merge_proof fa ml original t payload) (lookup d target)) ?E"
    if "?merge = Inr (merged, True)"
  proof -
    have "''post-write verification failed; rolled back'' \<notin> set write_messages" by (simp add: write_messages_def)
    from guarded_write_ends [OF assms(1,2) this, of target merged bom "\<lambda>t. post_merge_proof fa ml original t payload"]
    show ?thesis
      using that assms(3) by (fastforce simp: etriple_def rolled_back_def installed_from_def split: prod.splits sum.splits)
  qed
  show "etriple (\<lambda>d. ?Q d \<and> ?merge = Inr x)
      (case x of (merged, changed) \<Rightarrow>
        if \<not> changed then yield ((plain_outcome False (Some ''already_configured''))
             \<lparr>oo_installed := Some True, oo_entry_matches := Some True\<rparr>)
        else follow (guarded_write env target merged bom (\<lambda>t. post_merge_proof fa ml original t payload)
            ''post-write verification failed; rolled back'') (\<lambda>backup.
          yield ((plain_outcome True None) \<lparr>oo_installed := Some True, oo_entry_matches := Some True,
            oo_backup_name := Some (bi_name backup)\<rparr>))) ?R ?E"
  proof (cases "changed \<and> ?merge = Inr x")
    case True
    then have m: "?merge = Inr (merged, True)" using x by simp
    have "etriple ?Q (follow ?guarded (\<lambda>backup. yield ((plain_outcome True None)
        \<lparr>oo_installed := Some True, oo_entry_matches := Some True, oo_backup_name := Some (bi_name backup)\<rparr>))) ?R ?E"
      by (rule etriple_follow [OF guarded [OF m]], rule etriple_yield)
        (use m assms(3) in \<open>auto simp: plain_outcome_def installed_from_def\<close>)
    then show ?thesis using True x by (simp add: etriple_def)
  next
    case False
    then show ?thesis
      by (cases changed) (auto simp: x etriple_def yield_def plain_outcome_def)
  qed
qed

lemma install_ends:
  assumes "quiet_dir env" "w \<noteq> Some sentinel_payload" "adapter_target fa = Inr (Some target)"
  shows "etriple (\<lambda>d. lookup d target = w) (install_sync env fa ml payload force)
    (\<lambda>outcome d. if oo_performed outcome
      then installed_from fa ml payload force w (\<lambda>bom original merged.
        proved_bytes merged bom (\<lambda>t. post_merge_proof fa ml original t payload) (lookup d target))
      else lookup d target = w)
    (\<lambda>e d. (e = rolled_back \<longrightarrow> lookup d target = w) \<and>
      (lookup d target = w \<or>
       installed_from fa ml payload force w (\<lambda>bom original merged. written_bytes merged bom (lookup d target))))"
    (is "etriple ?Q _ ?R ?E")
  unfolding install_sync_def assms(3) follow_known option.case
proof (rule etriple_follow)
  show "etriple ?Q (is_dir env) (\<lambda>_. ?Q) ?E"
    by (rule etriple_triple [OF triple_touches [OF touches_reads(1) [OF assms(1), of "\<lambda>_. False"], where F = "\<lambda>c. c = w"]]) simp_all
  fix present
  have "etriple ?Q (follow (read_if_present env target) (\<lambda>raw.
      follow (lift_outcome (original_document fa raw)) (install_document env fa ml target payload force))) ?R ?E"
  proof (rule etriple_follow)
    show "etriple ?Q (read_if_present env target) (\<lambda>raw d. ?Q d \<and> raw = w) ?E"
      using read_if_presentD [OF assms(1)] triple_touches [OF touches_read_if_present [OF assms(1), of "\<lambda>_. False" target],
        where n = target and F = "\<lambda>c. c = w"]
      by (fastforce simp: triple_def etriple_def split: prod.splits sum.splits)
    fix raw
    show "etriple (\<lambda>d. ?Q d \<and> raw = w)
        (follow (lift_outcome (original_document fa raw)) (install_document env fa ml target payload force)) ?R ?E"
    proof (cases "raw = w \<and> is_ok (original_document fa w)")
      case True
      then obtain bom original where "original_document fa w = Inr (bom, original)" by (auto simp: is_ok_iff)
      with install_document_ends [OF assms(1,2) this] True show ?thesis by (simp add: follow_known)
    next
      case False
      then show ?thesis by (auto simp: etriple_def follow_def lift_outcome_def is_ok_def split: sum.splits)
    qed
  qed
  then show "etriple ?Q (if \<not> present then yield (plain_outcome False (Some ''client_directory_missing''))
      else follow (read_if_present env target) (\<lambda>raw.
        follow (lift_outcome (original_document fa raw)) (install_document env fa ml target payload force))) ?R ?E"
    by (intro etriple_if etriple_yield) (auto simp: plain_outcome_def)
qed


section \<open>The files of other programs\<close>

lemma own_names:
  "begins target target" "shelf_of target n \<Longrightarrow> begins target n" "temporary_of target n \<Longrightarrow> begins target n"
  by (auto simp: begins_iff shelf_of_def temporary_of_def)

lemma touches_own:
  assumes "quiet_dir env"
  shows "touches (begins target) (commit_atomic env target bs)" "touches (begins target) (create_backup env target)"
    "touches (begins target) (remove_atomic env target)" "touches (begins target) (commit_and_prove env target t bom pr)"
proof -
  show "touches (begins target) (commit_atomic env target bs)"
    by (rule touches_mono [OF touches_commit [OF assms]]) (use own_names in blast)
  show "touches (begins target) (create_backup env target)"
    by (rule touches_mono [OF touches_create_backup [OF assms]]) (use own_names in blast)
  show "touches (begins target) (remove_atomic env target)"
    by (rule touches_mono [OF touches_remove_atomic [OF assms]]) (use own_names in blast)
  show "touches (begins target) (commit_and_prove env target t bom pr)"
    by (rule touches_mono [OF touches_commit_and_prove [OF assms]]) (use own_names in blast)
qed

lemma touches_lift: "touches P (lift_outcome r)"
  by (simp add: touches_def lift_outcome_def)

lemma touches_restore:
  assumes "quiet_dir env"
  shows "touches (begins target) (restore env target name)"
  unfolding restore_def resolve_backup_def Let_def
  by (auto intro!: touches_follow touches_own touches_reads assms)

lemma touches_guarded_write:
  assumes "quiet_dir env"
  shows "touches (begins target) (guarded_write env target merged bom pr message)"
  unfolding guarded_write_def
  by (intro touches_follow touches_case touches_own touches_restore touches_pure assms)

lemma touches_install:
  assumes "quiet_dir env" "adapter_target fa = Inr (Some target)"
  shows "touches (begins target) (install_sync env fa ml payload force)"
proof -
  have "touches (begins target) (install_document env fa ml target payload force doc)" for doc
    unfolding install_document_def
    by (cases doc) (auto intro!: touches_follow touches_lift touches_guarded_write assms(1) split: prod.split)
  then show ?thesis
    unfolding install_sync_def assms(2) follow_known option.case
    by (auto intro!: touches_follow touches_lift touches_reads touches_read_if_present assms(1))
qed

text \<open>
  C35. An installation into a client's file is all or nothing. When no other program writes to
  the directory, and whichever accesses fail, one that reports success leaves the merged
  document, read back from the file and proved; one that reports nothing written leaves the
  file as it was; one that fails with the message of the rollback has put back the bytes, or
  the absence, from before; and any other failure leaves either the old content or the
  complete new one, never a part. Files whose name does not start with the target's are never
  touched.
\<close>
theorem client_install_all_or_nothing:
  assumes "quiet_dir env" "adapter_target fa = Inr (Some target)" "lookup d target \<noteq> Some sentinel_payload"
    and "install_sync env fa ml payload force d = (r, d')"
  shows "(\<forall>n. \<not> begins target n \<longrightarrow> lookup d' n = lookup d n) \<and>
    (case r of
       Inr outcome \<Rightarrow>
         if oo_performed outcome
         then \<exists>bom original merged bs t.
           original_document fa (lookup d target) = Inr (bom, original) \<and>
           adapter_merge fa ml original payload force = Inr (merged, True) \<and>
           encode_text merged bom = Inr bs \<and> lookup d' target = Some bs \<and>
           decode_text bs = Inr t \<and> post_merge_proof fa ml original t payload = Inr ()
         else lookup d' target = lookup d target
     | Inl e \<Rightarrow>
         (if e = ConfigWriteError ''post-write verification failed; rolled back'' then lookup d' target = lookup d target
          else lookup d' target = lookup d target \<or>
            (\<exists>bom original merged bs.
              original_document fa (lookup d target) = Inr (bom, original) \<and>
              adapter_merge fa ml original payload force = Inr (merged, True) \<and>
              encode_text merged bom = Inr bs \<and> lookup d' target = Some bs)))"
proof
  show "\<forall>n. \<not> begins target n \<longrightarrow> lookup d' n = lookup d n"
    using touchesD(2) [OF touches_install [OF assms(1,2)] assms(4)] by blast
  note spec = etripleD [OF install_ends [OF assms(1,3,2), of ml payload force] refl]
  show "case r of
       Inr outcome \<Rightarrow>
         if oo_performed outcome
         then \<exists>bom original merged bs t.
           original_document fa (lookup d target) = Inr (bom, original) \<and>
           adapter_merge fa ml original payload force = Inr (merged, True) \<and>
           encode_text merged bom = Inr bs \<and> lookup d' target = Some bs \<and>
           decode_text bs = Inr t \<and> post_merge_proof fa ml original t payload = Inr ()
         else lookup d' target = lookup d target
     | Inl e \<Rightarrow>
         (if e = ConfigWriteError ''post-write verification failed; rolled back'' then lookup d' target = lookup d target
          else lookup d' target = lookup d target \<or>
            (\<exists>bom original merged bs.
              original_document fa (lookup d target) = Inr (bom, original) \<and>
              adapter_merge fa ml original payload force = Inr (merged, True) \<and>
              encode_text merged bom = Inr bs \<and> lookup d' target = Some bs))"
  proof (cases r)
    case (Inl e)
    then show ?thesis
      using spec(2) [of e d'] assms(4) by (auto simp: rolled_back_def installed_from_def written_bytes_def)
  next
    case (Inr outcome)
    then show ?thesis
      using spec(1) [of outcome d'] assms(4) by (auto simp: installed_from_def proved_bytes_def)
  qed
qed

definition sample_adapter :: file_adapter where
  "sample_adapter =
     \<lparr>fa_spec = (hd CLIENT_SPECS)\<lparr>cs_entry_key := evo\<rparr>, fa_json_indent = None, fa_home = codes ''/home/u'', fa_appdata = None\<rparr>"

definition sample_merge_lib :: merge_lib where
  "sample_merge_lib = \<lparr>ml_rd = (\<lambda>_. None), ml_wr = (\<lambda>_. []), ml_toml = sample_toml_lib\<rparr>"

text \<open>Without faults an installation that has something to write returns.\<close>

lemma read_if_present_ok:
  "quiet_dir env \<Longrightarrow> faultless env \<Longrightarrow> read_if_present env n d = (Inr (lookup d n), advance_dir env d)"
  by (cases "lookup d n") (simp_all add: read_if_present_def read_file_bytes_def access_ok not_found_def missing_def)

lemma guarded_write_returns:
  assumes "quiet_dir env" "faultless env" "cd_exists d" "encode_text merged bom = Inr bs" "decode_text bs = Inr t"
    "proof_of t = Inr ()"
  obtains backup d' where "guarded_write env target merged bom proof_of message d = (Inr backup, d')"
proof -
  obtain backup d1 where c: "create_backup env target d = (Inr backup, d1)"
    using create_returns [OF assms(1-3)] by metis
  then have "cd_exists d1" using touchesD(1) [OF touches_create_backup [OF assms(1)] c] assms(3) by simp
  then obtain x d2 where w: "commit_atomic env target bs d1 = (Inr x, d2)"
    using commit_returns [OF assms(1,2)] by metis
  then have "lookup d2 target = Some bs"
    using tripleD(1) [OF triple_commit [OF assms(1), where before = "lookup d1 target"] _ w] by simp
  then have "commit_and_prove env target merged bom proof_of d1 = (Inr (), advance_dir env d2)"
    using w assms by (simp add: commit_and_prove_def follow_def lift_outcome_def read_if_present_ok)
  with c that show thesis by (simp add: guarded_write_def follow_def)
qed

lemma install_returns:
  assumes "quiet_dir env" "faultless env" "cd_exists d" "adapter_target fa = Inr (Some target)"
    "original_document fa (lookup d target) = Inr (bom, original)"
    "adapter_merge fa ml original payload force = Inr (merged, True)"
    "encode_text merged bom = Inr bs" "decode_text bs = Inr t" "post_merge_proof fa ml original t payload = Inr ()"
  obtains outcome d' where "install_sync env fa ml payload force d = (Inr outcome, d')" "oo_performed outcome"
proof -
  have "cd_exists (advance_dir env (advance_dir env d))" using assms(3) by simp
  then obtain backup d' where "guarded_write env target merged bom (\<lambda>t. post_merge_proof fa ml original t payload)
      ''post-write verification failed; rolled back'' (advance_dir env (advance_dir env d)) = (Inr backup, d')"
    using guarded_write_returns [OF assms(1,2) _ assms(7,8), where proof_of = "\<lambda>t. post_merge_proof fa ml original t payload"]
      assms(9) by metis
  with that show thesis
    using assms
    by (simp add: install_sync_def install_document_def follow_def lift_outcome_def is_dir_def access_ok
        read_if_present_ok yield_def plain_outcome_def)
qed

definition evo_toml :: utext where
  "evo_toml = append_block [] (render_toml_entry evo sample_payload)"

lemma evo_toml_ascii: "list_all (\<lambda>c. c < 128) evo_toml" "evo_toml \<noteq> [] \<and> hd evo_toml = 91"
  unfolding evo_toml_def append_block_def sample_newline(1) Let_def
  by (simp_all add: adapt_def sample_block_defs)

lemma sample_document:
  "adapter_target sample_adapter = Inr (Some (codes ''config.toml''))"
  "original_document sample_adapter None = Inr ([], [])"
  "adapter_merge sample_adapter sample_merge_lib [] sample_payload False = Inr (evo_toml, True)"
  "post_merge_proof sample_adapter sample_merge_lib [] evo_toml sample_payload = Inr ()"
proof -
  have toml: "is_toml sample_adapter" "cs_entry_key (fa_spec sample_adapter) = evo"
    by (simp_all add: sample_adapter_def is_toml_def CLIENT_SPECS_def)
  show "original_document sample_adapter None = Inr ([], [])" by (simp add: original_document_def toml)
  show "adapter_target sample_adapter = Inr (Some (codes ''config.toml''))"
    by (simp add: adapter_target_def sample_adapter_def CLIENT_SPECS_def resolve_target_def HOME_PREFIX_def begins_def
        path_name_def codes_def)
  have m: "merge_toml sample_toml_lib [] evo sample_payload False = Inr (evo_toml, True)"
    using sample_toml_merge [OF _ sample_newline(1)] by (simp add: evo_toml_def)
  then show "adapter_merge sample_adapter sample_merge_lib [] sample_payload False = Inr (evo_toml, True)"
    by (simp add: adapter_merge_def toml sample_merge_lib_def)
  have "proved_merge sample_toml_lib [] evo_toml evo (payload_table sample_payload) = Inr (evo_toml, True)"
    using m by (simp add: merge_toml_def parse_toml_def sample_toml_lib_def toml_entry_def toml_servers_def evo_toml_def)
  then show "post_merge_proof sample_adapter sample_merge_lib [] evo_toml sample_payload = Inr ()"
    by (auto simp: proved_merge_def post_merge_proof_def toml sample_merge_lib_def split: sum.splits)
qed

lemma evo_toml_bytes: "encode_text evo_toml [] = Inr (utf8_encode evo_toml)" "decode_text (utf8_encode evo_toml) = Inr evo_toml"
proof -
  have s: "list_all scalar evo_toml" using evo_toml_ascii(1) by (auto simp: list_all_iff scalar_def)
  then show "encode_text evo_toml [] = Inr (utf8_encode evo_toml)" by (simp add: encode_text_def)
  obtain t where t: "evo_toml = 91 # t" using evo_toml_ascii(2) by (metis list.collapse)
  have "\<not> begins BOM (utf8_encode (91 # t))" by (simp add: utf8_encode_def utf8_bytes_def BOM_def begins_def)
  then have "\<not> begins BOM (utf8_encode evo_toml)" unfolding t .
  then show "decode_text (utf8_encode evo_toml) = Inr evo_toml"
    using utf8_roundtrip [OF s] by (simp add: decode_text_def decode_utf8_def)
qed

theorem client_install_all_or_nothing_witness:
  "\<exists>outcome d' bs. install_sync (sample_client_env (codes ''20260102T000000Z'')) sample_adapter sample_merge_lib sample_payload False
      (sample_client_dir []) = (Inr outcome, d') \<and> oo_performed outcome \<and> lookup d' (codes ''config.toml'') = Some bs \<and>
    decode_text bs = Inr evo_toml"
proof -
  let ?d = "sample_client_dir []" and ?env = "sample_client_env (codes ''20260102T000000Z'')"
  have absent: "lookup ?d (codes ''config.toml'') = None" "cd_exists ?d"
    by (simp_all add: sample_client_dir_def lookup_def)
  obtain outcome d' where run: "install_sync ?env sample_adapter sample_merge_lib sample_payload False ?d = (Inr outcome, d')"
      "oo_performed outcome"
    using install_returns [OF sample_quiet absent(2) sample_document(1) _ sample_document(3) evo_toml_bytes sample_document(4)]
      sample_document(2) absent(1) by metis
  have "lookup ?d (codes ''config.toml'') \<noteq> Some sentinel_payload" using absent by simp
  from client_install_all_or_nothing [OF sample_quiet(1) sample_document(1) this run(1)] run(2)
  obtain bs where "lookup d' (codes ''config.toml'') = Some bs" "decode_text bs = Inr evo_toml"
    using sample_document(2,3) absent(1) evo_toml_bytes by auto
  with run show ?thesis by blast
qed


section \<open>Verdicts need evidence\<close>

lemma followD:
  assumes "follow m f s = (Inr y, s')"
  obtains x s1 where "m s = (Inr x, s1)" "f x s1 = (Inr y, s')"
  using assms by (auto simp: follow_def split: prod.splits sum.splits)

lemma follow_lift [simp]:
  "follow (lift_outcome r) f s = (case r of Inl e \<Rightarrow> (Inl e, s) | Inr x \<Rightarrow> f x s)"
  by (simp add: follow_def lift_outcome_def split: sum.split)

lemma reconciled_verified:
  "reconciled_verdict cid state s = (Inr (Verified, reason, t), s') \<Longrightarrow> ts_entry_matches state = Some True"
  by (auto simp: reconciled_verdict_def cached_verdict_def follow_def forget_verdict_def yield_def
      split: option.splits if_splits handshake_state.splits)

lemma status_of_fields [simp]:
  "st_handshake (status_of spec state h online) = fst h" "st_entry_matches (status_of spec state h online) = ts_entry_matches state"
  by (simp_all add: status_of_def split: prod.split)

lemma statuses_evidence:
  "statuses env online specs s = (Inr sts, s') \<Longrightarrow> st \<in> set sts \<Longrightarrow> st_handshake st = Verified \<Longrightarrow>
   st_entry_matches st = Some True"
proof (induction specs arbitrary: s sts)
  case (Cons spec specs)
  from Cons.prems(1) obtain state s1 where "adapter_state env spec s = (Inr state, s1)"
    and f1: "follow (reconciled_verdict (cs_client_id spec) state) (\<lambda>h. follow (statuses env online specs) (\<lambda>rest.
      yield (status_of spec state h online # rest))) s1 = (Inr sts, s')"
    by (auto elim: followD)
  from f1 obtain h s2 where h: "reconciled_verdict (cs_client_id spec) state s1 = (Inr h, s2)"
    and f2: "follow (statuses env online specs) (\<lambda>rest. yield (status_of spec state h online # rest)) s2 = (Inr sts, s')"
    by (rule followD)
  from f2 obtain rest s3 where r: "statuses env online specs s2 = (Inr rest, s3)"
    and y: "yield (status_of spec state h online # rest) s3 = (Inr sts, s')"
    by (rule followD)
  from y have sts: "sts = status_of spec state h online # rest" "s3 = s'" by (simp_all add: yield_def)
  with Cons.prems(2) consider "st = status_of spec state h online" | "st \<in> set rest" by auto
  then show ?case
  proof cases
    case 1
    then show ?thesis using reconciled_verified h Cons.prems(3) by (cases h) auto
  next
    case 2
    then show ?thesis using Cons.IH r sts Cons.prems(3) by metis
  qed
qed (simp add: yield_def)

text \<open>A handshake that succeeded.\<close>

definition shaken :: "'w service_env \<Rightarrow> bool" where
  "shaken env \<longleftrightarrow> (\<exists>w e w'. se_verify env (se_payload env) w = (Handshake True e, w'))"

lemma run_handshake_verified:
  assumes "run_handshake env cid s = (r, s')" "fst (cached_verdict s' cid) = Verified"
  shows "shaken env"
  using assms
  by (auto simp: run_handshake_def cached_verdict_def verdict_of_def Let_def shaken_def
      split: prod.splits verify_reply.splits if_splits)

lemma cached_after_forget:
  "follow (forget_verdict cid) (\<lambda>_. yield y) s = (r, s') \<Longrightarrow> fst (cached_verdict s' cid) = Unverified"
  by (auto simp: follow_def yield_def forget_verdict_def cached_verdict_def)

lemma cached_unlock [simp]: "cached_verdict (s\<lparr>sv_locked := l\<rparr>) cid = cached_verdict s cid"
  by (simp add: cached_verdict_def)

lemma with_lockD:
  assumes "with_lock cid m s = (Inr x, s')"
  obtains s0 s1 where "m s0 = (Inr x, s1)" "cached_verdict s' = cached_verdict s1"
  using assms by (auto simp: with_lock_def fun_eq_iff split: if_splits prod.splits)

lemma result_fields [simp]:
  "or_handshake (operation_result_of env spec op outcome v c s) = fst (cached_verdict s (cs_client_id spec))"
  "or_entry_matches (operation_result_of env spec op outcome v c s) = oo_entry_matches outcome"
  by (simp_all add: operation_result_of_def split: prod.split)

lemma spec_of_id: "spec_of cid = Inr spec \<Longrightarrow> cs_client_id spec = cid"
  by (auto simp: spec_of_def find_Some_iff split: option.splits)


lemma status_evidence:
  assumes "service_status env cid s = (Inr st, s')" "st_handshake st = Verified"
  shows "st_entry_matches st = Some True"
proof -
  obtain spec where sp: "spec_of cid = Inr spec"
    using assms(1) by (auto simp: service_status_def split: sum.splits)
  then obtain state s1 where "follow (reconciled_verdict cid state) (\<lambda>h. follow (engine_online env) (\<lambda>online.
      yield (status_of spec state h online))) s1 = (Inr st, s')"
    using assms(1) by (auto simp: service_status_def elim: followD)
  then obtain h s2 where h: "reconciled_verdict cid state s1 = (Inr h, s2)"
    and f: "follow (engine_online env) (\<lambda>online. yield (status_of spec state h online)) s2 = (Inr st, s')"
    by (rule followD)
  from f obtain online s3 where "st = status_of spec state h online" by (rule followD) (auto simp: yield_def)
  then show ?thesis using assms(2) h reconciled_verified by (cases h) auto
qed

lemma install_evidence:
  assumes "service_install env cid force s = (Inr r, s')" "or_handshake r = Verified"
  shows "or_entry_matches r = Some True \<and> shaken env"
proof -
  obtain spec where sp: "spec_of cid = Inr spec" "automatic spec = Inr ()"
    using assms(1) by (auto simp: service_install_def split: sum.splits)
  let ?body = "follow (adapter_install env spec force) (\<lambda>outcome.
    follow (if oo_entry_matches outcome = Some True then run_handshake env cid
            else follow (forget_verdict cid) (\<lambda>_. yield (Unverified, oo_reason outcome)))
      (\<lambda>verdict. yield (outcome, verdict)))"
  have "follow (with_lock cid ?body) (\<lambda>(outcome, verdict) s.
      (Inr ((operation_result_of env spec ''install'' outcome verdict (\<not> oo_performed outcome) s)
         \<lparr>or_backup_name := oo_backup_name outcome\<rparr>), s)) s = (Inr r, s')"
    using assms(1) sp by (simp add: service_install_def)
  then obtain x s2 where lock: "with_lock cid ?body s = (Inr x, s2)"
    and r: "r = (operation_result_of env spec ''install'' (fst x) (snd x) (\<not> oo_performed (fst x)) s2)
         \<lparr>or_backup_name := oo_backup_name (fst x)\<rparr>"
    by (rule followD) (auto split: prod.splits)
  from lock obtain s0 s1 where body: "?body s0 = (Inr x, s1)" and cached: "cached_verdict s2 = cached_verdict s1"
    by (rule with_lockD)
  from body obtain outcome t1 where f: "follow (if oo_entry_matches outcome = Some True then run_handshake env cid
       else follow (forget_verdict cid) (\<lambda>_. yield (Unverified, oo_reason outcome)))
      (\<lambda>verdict. yield (outcome, verdict)) t1 = (Inr x, s1)"
    by (rule followD)
  from f obtain v t2 where v: "(if oo_entry_matches outcome = Some True then run_handshake env cid
       else follow (forget_verdict cid) (\<lambda>_. yield (Unverified, oo_reason outcome))) t1 = (Inr v, t2)"
      and "yield (outcome, v) t2 = (Inr x, s1)"
    by (rule followD)
  then have x: "x = (outcome, v)" "t2 = s1" by (simp_all add: yield_def)
  have verified: "fst (cached_verdict s1 cid) = Verified"
    using assms(2) by (simp add: r cached spec_of_id [OF sp(1)])
  show ?thesis
  proof (cases "oo_entry_matches outcome = Some True")
    case True
    then show ?thesis using v x run_handshake_verified [of env cid t1 "Inr v" s1] verified r by simp
  next
    case False
    then have "fst (cached_verdict s1 cid) = Unverified"
      using v x by (auto dest: cached_after_forget)
    with verified show ?thesis by simp
  qed
qed

lemma verify_evidence:
  assumes "service_verify env cid s = (Inr r, s')" "or_handshake r = Verified"
  shows "or_entry_matches r = Some True \<and> shaken env"
proof -
  obtain spec where sp: "spec_of cid = Inr spec"
    using assms(1) by (auto simp: service_verify_def split: sum.splits)
  let ?ok = "\<lambda>outcome. oo_installed outcome = Some True \<and> oo_entry_matches outcome = Some True"
  have "follow (adapter_verify env spec) (\<lambda>outcome.
      follow (if \<not> ?ok outcome then follow (forget_verdict cid) (\<lambda>_. yield (Unverified, oo_reason outcome))
              else run_handshake env cid) (\<lambda>verdict s.
        (Inr (operation_result_of env spec ''verify'' outcome verdict (\<not> ?ok outcome) s), s))) s = (Inr r, s')"
    using assms(1) sp by (simp add: service_verify_def Let_def)
  then obtain outcome s1 where f: "follow (if \<not> ?ok outcome then follow (forget_verdict cid) (\<lambda>_. yield (Unverified, oo_reason outcome))
              else run_handshake env cid) (\<lambda>verdict s.
        (Inr (operation_result_of env spec ''verify'' outcome verdict (\<not> ?ok outcome) s), s)) s1 = (Inr r, s')"
    by (rule followD)
  from f obtain v s2 where v: "(if \<not> ?ok outcome then follow (forget_verdict cid) (\<lambda>_. yield (Unverified, oo_reason outcome))
              else run_handshake env cid) s1 = (Inr v, s2)"
    and r: "r = operation_result_of env spec ''verify'' outcome v (\<not> ?ok outcome) s2"
    by (rule followD) auto
  have verified: "fst (cached_verdict s2 cid) = Verified" using assms(2) by (simp add: r spec_of_id [OF sp])
  show ?thesis
  proof (cases "?ok outcome")
    case True
    then show ?thesis using v run_handshake_verified [of env cid s1 "Inr v" s2] verified r by simp
  next
    case False
    then have "follow (forget_verdict cid) (\<lambda>_. yield (Unverified, oo_reason outcome)) s1 = (Inr v, s2)"
      using v by (simp only: if_True simp_thms)
    then have "fst (cached_verdict s2 cid) = Unverified" by (rule cached_after_forget)
    with verified show ?thesis by simp
  qed
qed

text \<open>Removing and restoring end with the verdict forgotten.\<close>

lemma forgetting:
  assumes "follow (with_lock cid (follow m (\<lambda>outcome. follow (forget_verdict cid) (\<lambda>_. yield outcome))))
      (\<lambda>outcome s. (Inr (f outcome s), s)) s = (Inr r, s')"
    and "\<And>outcome s. or_handshake (f outcome s) = fst (cached_verdict s cid)"
  shows "or_handshake r = Unverified"
proof -
  let ?body = "follow m (\<lambda>outcome. follow (forget_verdict cid) (\<lambda>_. yield outcome))"
  from assms(1) obtain x s2 where lock: "with_lock cid ?body s = (Inr x, s2)" and r: "r = f x s2"
    by (rule followD) auto
  from lock obtain s0 s1 where body: "?body s0 = (Inr x, s1)" and cached: "cached_verdict s2 = cached_verdict s1"
    by (rule with_lockD)
  from body obtain outcome t1 where "follow (forget_verdict cid) (\<lambda>_. yield outcome) t1 = (Inr x, s1)"
    by (rule followD)
  then have "fst (cached_verdict s1 cid) = Unverified" by (rule cached_after_forget)
  then show ?thesis by (simp add: r assms(2) cached)
qed

lemma remove_restore_unverified:
  "service_remove env cid confirm s = (Inr r, s') \<Longrightarrow> or_handshake r = Unverified"
  "service_restore env cid name confirm s = (Inr r, s') \<Longrightarrow> or_handshake r = Unverified"
  by (auto simp: service_remove_def service_restore_def spec_of_id split: sum.splits elim!: forgetting)

text \<open>
  C39. The service never calls a client verified without evidence. Whatever the cache held and
  whatever other requests did to it meanwhile: a status that says verified says that the entry
  matches; an installation or a verification whose result says verified found the entry
  matching and saw a handshake succeed; a removal or a restore never ends as verified.
\<close>
theorem verified_needs_evidence:
  "(\<forall>st s'. service_status env cid s = (Inr st, s') \<longrightarrow> st_handshake st = Verified \<longrightarrow> st_entry_matches st = Some True) \<and>
   (\<forall>sts st s'. list_status env s = (Inr sts, s') \<longrightarrow> st \<in> set sts \<longrightarrow> st_handshake st = Verified \<longrightarrow>
      st_entry_matches st = Some True) \<and>
   (\<forall>r s'. service_install env cid force s = (Inr r, s') \<or> service_verify env cid s = (Inr r, s') \<longrightarrow>
      or_handshake r = Verified \<longrightarrow>
      or_entry_matches r = Some True \<and> (\<exists>w e w'. se_verify env (se_payload env) w = (Handshake True e, w'))) \<and>
   (\<forall>r s'. service_remove env cid confirm s = (Inr r, s') \<or> service_restore env cid name confirm s = (Inr r, s') \<longrightarrow>
      or_handshake r = Unverified)"
proof (intro conjI allI impI)
  fix st s' assume "service_status env cid s = (Inr st, s')" "st_handshake st = Verified"
  then show "st_entry_matches st = Some True" by (rule status_evidence)
next
  fix sts st s' assume l: "list_status env s = (Inr sts, s')" "st \<in> set sts" "st_handshake st = Verified"
  from l(1) obtain online s1 where "statuses env online CLIENT_SPECS s1 = (Inr sts, s')"
    unfolding list_status_def by (rule followD)
  then show "st_entry_matches st = Some True" using l(2,3) by (rule statuses_evidence)
next
  fix r s' assume "service_install env cid force s = (Inr r, s') \<or> service_verify env cid s = (Inr r, s')"
    "or_handshake r = Verified"
  then have "or_entry_matches r = Some True \<and> shaken env"
    using install_evidence verify_evidence by metis
  then show "or_entry_matches r = Some True" "\<exists>w e w'. se_verify env (se_payload env) w = (Handshake True e, w')"
    by (simp_all add: shaken_def)
next
  fix r s' assume "service_remove env cid confirm s = (Inr r, s') \<or> service_restore env cid name confirm s = (Inr r, s')"
  then show "or_handshake r = Unverified" using remove_restore_unverified by metis
qed


text \<open>A command line that knows the entry, and a handshake that succeeds.\<close>

definition sample_get_output :: utext where
  "sample_get_output = codes ''Command: python'' @ [10] @ codes ''Args: -m'' @ [10] @ codes ''Scope: Local''"

definition sample_service_env :: "unit service_env" where
  "sample_service_env =
     \<lparr>se_payload = sample_payload, se_run = (\<lambda>_ w. (CliDone (Some 0) sample_get_output [], w)),
      se_verify = (\<lambda>_ w. (Handshake True [], w)), se_probe = None, se_now = (\<lambda>_. 0), se_others = (\<lambda>_ v. v),
      se_dir = (\<lambda>_. sample_client_env (codes ''20260102T000000Z'')), se_merge = sample_merge_lib,
      se_home = [], se_appdata = None, se_lower = sql_lower, se_list2cmdline = concat\<rparr>"

definition sample_service :: "unit service" where
  "sample_service = \<lparr>sv_world = (), sv_dirs = (\<lambda>_. sample_client_dir []), sv_verdicts = (\<lambda>_. None), sv_locked = []\<rparr>"

lemma sample_evidence: "cli_evidence sql_lower sample_payload sample_get_output = cli_outcome None (Some True) (Some True)"
  by (simp add: cli_evidence_def parse_get_output_def sample_get_output_def get_line_def after_colon_def begins_def codes_def
      strip_def lstrip_def is_space_def sql_lower_def sql_lower_char_def line_end_def find_at_def sample_payload_def)

lemma sample_cli_spec: "\<exists>spec. spec_of (codes ''claude_code'') = Inr spec \<and> cs_tier spec = Cli"
  by (simp add: spec_of_def CLIENT_SPECS_def)

lemma sample_verified:
  "case service_verify sample_service_env (codes ''claude_code'') sample_service of
     (Inl _, _) \<Rightarrow> False | (Inr r, _) \<Rightarrow> or_handshake r = Verified"
proof -
  obtain spec where spec: "spec_of (codes ''claude_code'') = Inr spec" "cs_tier spec = Cli" using sample_cli_spec by blast
  have "adapter_verify sample_service_env spec sample_service =
      (Inr (cli_outcome None (Some True) (Some True)), sample_service)"
    by (simp add: adapter_verify_def spec(2) awaited_def cli_verify_def run_cli_def follow_def yield_def sample_service_env_def
        sample_service_def sample_evidence pause_def)
  then show ?thesis
    using spec_of_id [OF spec(1)]
    by (simp add: service_verify_def spec(1) follow_def [of "adapter_verify _ _"] follow_def [of "run_handshake _ _"]
        cli_outcome_def plain_outcome_def run_handshake_def sample_service_env_def sample_service_def pause_def
        verdict_of_def cached_verdict_def Let_def)
qed

theorem verified_needs_evidence_witness:
  "\<exists>r s'. service_verify sample_service_env (codes ''claude_code'') sample_service = (Inr r, s') \<and>
     or_handshake r = Verified \<and> or_entry_matches r = Some True"
proof -
  obtain r s' where run: "service_verify sample_service_env (codes ''claude_code'') sample_service = (Inr r, s')"
      "or_handshake r = Verified"
    using sample_verified by (auto split: prod.splits sum.splits)
  with verified_needs_evidence [of sample_service_env "codes ''claude_code''" sample_service] show ?thesis by blast
qed

end
