(* ===== verification/Spec2Isabelle.thy ===== *)
theory Spec2Isabelle
  imports JobOutcomes Engine WorkerTheorems ModelTheorems ReportTheorems ListTheorems
    Scoring ReleaseGate Submission ClientConfig IndexTheorems InstallerTheorems
    ModelServiceTheorems ClientTheorems
begin

text \<open>
  The EvoBlue video engine turns a submitted video URL into a Markdown report. A local web
  service accepts the URL and stores a job; a worker claims the job under a lease and takes
  it through a fixed chain of stages (metadata, subtitles, audio, transcription, cleaning,
  chunking, summaries, report, indexing); a full-text index and a unified list make jobs and
  reports visible to the web interface and to MCP clients. Everything durable is in one
  SQLite file, and most of what can go wrong goes wrong there: two workers on one job, a
  stale writer, a cancellation that is lost, an index that drifts from its documents. The
  theories below model that core of the Python package under
  \<open>src/src/evoblue_video_mcp/\<close> and prove the contracts it rests on.

  \<^bold>\<open>Storage.\<close> \<open>Prelude\<close> holds the exceptions, the row-level meaning of the SQL statements and
  the interface \<open>keyed_store\<close> of a table behind a unique index, which the jobs table and the
  downloads table both interpret. \<open>Database\<close> has the rows (\<open>storage/models.py\<close> and the raw SQL
  tables), \<open>Sessions\<close> the transactions of \<open>storage/db.py\<close>: deferred and immediate
  transactions, the write flag, rollback and commit, and the identity map, whose stale
  instances a later SELECT does not refresh. A session in the model may hold any stale
  instances, and the write lock may be taken by somebody else.

  \<^bold>\<open>Jobs.\<close> \<open>JobStates\<close> is \<open>jobs/states.py\<close> and \<open>jobs/transitions.py\<close>; \<open>JobRepo\<close> the job half
  of \<open>storage/repository.py\<close>, one definition per function, errors as values. \<open>JobProtocol\<close>
  says in which ways a call may rewrite a row, \<open>JobSteps\<close> that every call is one of these,
  \<open>JobRuns\<close> strings calls of any number of sessions together, \<open>JobTheorems\<close> and
  \<open>JobOutcomes\<close> state what runs keep (well-formedness, exclusive leases, frozen final states,
  lawful status changes, cancellations that survive) and what single calls do exactly, and
  that a call that raises leaves no trace. \<open>Engine\<close> is the start-up recovery of
  \<open>runtime/engine.py\<close>. \<open>Worker\<close>, \<open>WorkerSteps\<close> and \<open>WorkerTheorems\<close> are
  \<open>runtime/worker.py\<close>: the claim, the stage loop with whatever other actors commit in
  between, the write of each outcome and the heartbeat. The stage handlers are an argument
  there, and what they must keep is the predicate \<open>tame\<close>. The loop has fuel of ten rounds,
  the nine stages and the round that sees the final state, and \<open>worker_loop_ends\<close> shows that
  it is never used up.

  \<^bold>\<open>The pipeline.\<close> \<open>Handlers\<close> has the nine stages of \<open>runtime/handlers.py\<close> with their payloads,
  \<open>reports/synthesis.py\<close> and the table of \<open>runtime/assembly.py\<close>. A stage maps the job and the
  state it can touch (session, artifact store, report directory, prompts sent) to an outcome
  and the state after; \<open>stage_lib\<close> holds the library facts and \<open>stage_world\<close> the services, the
  clock and what other connections commit at each await. \<open>HandlerSteps\<close> shows, handler by
  handler, that whatever the services answer a stage keeps the worker's contract, and
  \<open>PipelineTheorems\<close> draws the conclusions: the worker over the real handlers is tame, so the
  theorems on the worker hold of the pipeline. \<open>SummaryTheorems\<close> bounds what the summaries cost
  when the stage dies and is run again; \<open>IndexTheorems\<close> follows a report from the model's
  answer through the directory and the reader into the index. \<open>Files\<close> and \<open>FilesTheorems\<close> are the two
  directories it writes to (\<open>storage/artifact_store.py\<close>, \<open>reports/writer.py\<close>): no report
  displaces a file that the pipeline did not write, and no fault leaves half a report.

  \<^bold>\<open>Submission.\<close> \<open>Platforms\<close> is \<open>platforms/detector.py\<close> over a model of \<open>urlparse\<close>,
  \<open>parse_qs\<close> and percent-decoding (\<open>Utf8\<close>); \<open>Submission\<close> is \<open>application/submit.py\<close> and its
  endpoint. Together with the runs of \<open>JobTheorems\<close> it gives that two unfinished jobs never
  share a request fingerprint.

  \<^bold>\<open>Models.\<close> \<open>ModelRepo\<close>, \<open>ModelSteps\<close> and \<open>ModelTheorems\<close> are the model half of
  \<open>storage/repository.py\<close> and \<open>storage/model_download.py\<close>: downloads with a revision that a
  stale writer fails on, installations and active versions. \<open>Routing\<close> is the choice of the
  recogniser (\<open>asr/routing.py\<close>, \<open>asr/registry.py\<close>, \<open>asr/approvals.py\<close> and the options that
  \<open>runtime/handlers.py\<close> builds), \<open>ReleaseGate\<close> is \<open>asr/release_gate.py\<close>, \<open>Scoring\<close> the metrics
  of \<open>asr/benchmark/metrics.py\<close>, whose dynamic programme is proved to compute the cheapest
  edits.

  \<^bold>\<open>Installing models.\<close> \<open>Manifests\<close> is the schema of \<open>asr/manifest.py\<close> with the catalogue of
  \<open>asr/catalog.py\<close>, \<open>ModelCatalog\<close> the built-in manifests of \<open>asr/manifests.py\<close>, each of which
  the schema accepts. \<open>Archives\<close> and \<open>ArchiveTheorems\<close> are the file half of
  \<open>asr/model_manager.py\<close>: extraction under a budget, verification, the promotion of a staged
  directory; \<open>Downloads\<close> is its resumable download, with the server as an argument that may
  answer each request as it likes. \<open>Installer\<close> and \<open>InstallerTheorems\<close> are \<open>asr/installer.py\<close>:
  one installation from the claim of its download to the activated row, with its switch of
  source, its retries and its cancellation; whatever directory ends up recorded was verified
  against the manifest. \<open>Registration\<close> is \<open>asr/registration.py\<close>, which brings the registered
  recognisers in line with what is installed, and \<open>ModelService\<close> with \<open>ModelServiceTheorems\<close> is
  \<open>asr/service.py\<close>: what it registers, the removal of a model and its repair at the next
  start, and the jobs that an installed model lets continue.

  \<^bold>\<open>Reports.\<close> \<open>Transcripts\<close> is the cleaner and the chunker of \<open>transcript/\<close>. \<open>FtsText\<close> is the
  text contract of the index (\<open>storage/fts.py\<close>), \<open>Reports\<close> and \<open>ReportTheorems\<close> are
  \<open>storage/report_repository.py\<close>: documents, their full-text rows, issues, and that the two
  tables never drift apart. \<open>ReportFiles\<close> is the document, the renderer and the parser
  (\<open>reports/schema.py\<close>, \<open>renderer.py\<close>, \<open>parser.py\<close>); \<open>ReportFileTheorems\<close> shows that reading
  undoes rendering and which exceptions reading can raise. \<open>Rebuild\<close> is the rescan of
  \<open>storage/rebuild.py\<close>; \<open>RebuildTheorems\<close> shows that it brings the index to the state its
  directory determines, that it removes nothing when the directory cannot be read, and what
  its absence pass does to a report that appears meanwhile.

  \<^bold>\<open>Lists.\<close> \<open>JobList\<close> and \<open>Listing\<close> are the list queries, the unified endpoint of
  \<open>web/app.py\<close> and the validating bridge of \<open>mcp/listing.py\<close>; \<open>ListTheorems\<close> shows that a
  page the bridge delivers is the slice that was asked for of one abstract list.

  \<^bold>\<open>Client configuration.\<close> \<open>Json\<close> and \<open>JsonText\<close> model JSON values, \<open>json.dumps\<close> and
  \<open>json.loads\<close>; reading undoes writing, and the reader's fuel of twice the length is
  enough. \<open>ClientConfig\<close> is \<open>application/client_config/merge_json.py\<close> on top. \<open>TomlMerge\<close> and
  \<open>TomlTheorems\<close> are \<open>merge_toml.py\<close> and \<open>render.py\<close>: the line scanner, the splice and its
  proof, which replace whole lines of our own tables only. \<open>Backups\<close> is the directory of one
  client with \<open>writes.py\<close> and \<open>backup.py\<close>, where every access may fail and other programs may
  write in between; \<open>BackupTheorems\<close> shows what is left when they do not, and states the
  contract \<open>restorable\<close> of the shelf that the file adapter relies on. \<open>ClientFiles\<close> is
  \<open>specs.py\<close>, \<open>paths.py\<close> and \<open>adapters/file_auto.py\<close>, \<open>ClientService\<close> is \<open>service.py\<close> with
  the other two adapters, and \<open>ClientTheorems\<close> shows that an installation is all or nothing
  and that a client is only called verified on evidence.

  \<^bold>\<open>Conventions.\<close> Instants and durations are rationals where the code has floats; text is a
  list of code points; identifiers, paths and stored payloads are strings, the UTF-8 bytes of
  their text (\<open>ident\<close>, \<open>text_of\<close>). A path is resolved as on a POSIX system without symbolic
  links. What a directory shows is an argument: the rescan's \<open>disk\<close> answers each probe and
  each read as it likes. Library facts that rest on tables or on cryptography are arguments:
  the regular-expression class of word characters, \<open>str.lower\<close>, NFKC, SHA-256, the decimal
  text of a double, dates, the ranking and the matching of FTS5. No property assumes more of
  them than its statement says.

  \<^bold>\<open>Not modelled.\<close> Network, processes and native code (the platform adapter, the LLM
  clients, the recognition providers, bootstrap and the single-instance lock); logging;
  FastAPI and MCP registration; writing the report pointer, the shutdown of the rescan, errors
  while a directory is walked, and backups of the database; reading a manifest from a JSON
  file, the background task of an installation with its lock and its end at shut-down; the
  start of the command line and of the handshake, and the texts shown to a user. The release
  gate reads finite numbers. Checks of hosts that only newer releases of \<open>urlsplit\<close> make,
  limits of Python itself (recursion depth, digits of an integer) and the cancellation of the
  worker task are left out too.
\<close>

end
